(* ===== verification/Prelude.thy ===== *)
theory Prelude
  imports Main "HOL-Library.Word" "HOL-Library.Monad_Syntax"
begin

text \<open>
  Shared vocabulary of the development: the machine types of the target (an
  Xtensa LX106, 32-bit and little-endian), byte order, the four bytes of an IPv4
  address, C's \<open>size_t\<close> subtraction and \<open>int\<close> casts, and the small lemmas on
  lists and on the option monad that the component theories use.

  A C function that may run into undefined behaviour (a read or a write through a
  NULL or dangling pointer, or past the end of an object) or that may loop for
  ever is modelled with a result of type \<open>'a option\<close>: \<open>None\<close> stands for such a
  run, so a theorem that the result is \<open>Some \<dots>\<close> says that the code is safe and
  returns.
\<close>

unbundle bit_operations_syntax

section \<open>Machine types\<close>

type_synonym u8 = "8 word"
type_synonym u16 = "16 word"
type_synonym u32 = "32 word"

text \<open>The facts that the component proofs hand to the simplifier together.\<close>

named_theorems c_simps \<open>unfolding equations of small model helpers\<close>

section \<open>The option monad\<close>

text \<open>
  With this congruence rule the simplifier evaluates the first step of a monadic
  program before it looks at the rest, as a run of the code does.
\<close>

lemma bind_weak_cong [cong]: "m = m' \<Longrightarrow> Option.bind m f = Option.bind m' f"
  by simp

lemma bind_eq_SomeD:
  "Option.bind m f = Some y \<Longrightarrow> \<exists>x. m = Some x \<and> f x = Some y"
  by (cases m) auto

section \<open>Byte order and IPv4 addresses\<close>

text \<open>
  \<open>PP_HTONL\<close> of \<^verbatim>\<open>lwip/def.h\<close>; \<open>htonl\<close> and \<open>ntohl\<close> are the same function on a
  little-endian target, and so are \<open>htons\<close> and \<open>ntohs\<close>.
\<close>

definition htonl :: "u32 \<Rightarrow> u32" where
  "htonl x = push_bit 24 (x AND 0xff) OR push_bit 8 (x AND 0xff00)
             OR drop_bit 8 (x AND 0xff0000) OR drop_bit 24 (x AND 0xff000000)"

abbreviation ntohl :: "u32 \<Rightarrow> u32" where
  "ntohl \<equiv> htonl"

definition htons :: "u16 \<Rightarrow> u16" where
  "htons x = push_bit 8 (x AND 0xff) OR drop_bit 8 (x AND 0xff00)"

abbreviation ntohs :: "u16 \<Rightarrow> u16" where
  "ntohs \<equiv> htons"

text \<open>
  An address is a \<open>u32\<close> in network byte order, so on this target its first dotted
  byte is the low byte of the word: \<open>ip4_addr1\<close> to \<open>ip4_addr4\<close> of \<^verbatim>\<open>ip_addr.h\<close> read
  the bytes in memory order, \<open>IP4_ADDR\<close> builds the word.
\<close>

definition ip4_addr1 :: "u32 \<Rightarrow> u8" where "ip4_addr1 w = ucast w"
definition ip4_addr2 :: "u32 \<Rightarrow> u8" where "ip4_addr2 w = ucast (drop_bit 8 w)"
definition ip4_addr3 :: "u32 \<Rightarrow> u8" where "ip4_addr3 w = ucast (drop_bit 16 w)"
definition ip4_addr4 :: "u32 \<Rightarrow> u8" where "ip4_addr4 w = ucast (drop_bit 24 w)"

definition IP4_ADDR :: "u8 \<Rightarrow> u8 \<Rightarrow> u8 \<Rightarrow> u8 \<Rightarrow> u32" where
  "IP4_ADDR a b c d = push_bit 24 (ucast d) OR push_bit 16 (ucast c)
                      OR push_bit 8 (ucast b) OR ucast a"

text \<open>The bytes of a word in memory, and back.\<close>

definition bytes4 :: "u32 \<Rightarrow> u8 list" where
  "bytes4 w = [ip4_addr1 w, ip4_addr2 w, ip4_addr3 w, ip4_addr4 w]"

definition word4 :: "u8 list \<Rightarrow> u32" where
  "word4 bs = IP4_ADDR (bs ! 0) (bs ! 1) (bs ! 2) (bs ! 3)"

lemma length_bytes4 [simp]: "length (bytes4 w) = 4"
  by (simp add: bytes4_def)

lemma masks32: "(0xff::u32) = mask 8" "(0xff00::u32) = push_bit 8 (mask 8)"
  "(0xff0000::u32) = push_bit 16 (mask 8)" "(0xff000000::u32) = push_bit 24 (mask 8)"
  by (simp_all add: mask_eq_exp_minus_1 push_bit_eq_mult)
lemma masks16: "(0xff::u16) = mask 8" "(0xff00::u16) = push_bit 8 (mask 8)"
  by (simp_all add: mask_eq_exp_minus_1 push_bit_eq_mult)
lemmas ip4_defs = IP4_ADDR_def ip4_addr1_def ip4_addr2_def ip4_addr3_def ip4_addr4_def

lemma high_bit8: "8 \<le> k \<Longrightarrow> \<not> bit (a::u8) k"
  using bit_imp_le_length [of a k] by auto

lemma byte_cases: "(n::nat) < 8 \<or> 8 \<le> n \<and> n < 16 \<or> 16 \<le> n \<and> n < 24 \<or> 24 \<le> n" by arith
lemma IP4_ADDR_bytes [simp]:
  "IP4_ADDR (ip4_addr1 w) (ip4_addr2 w) (ip4_addr3 w) (ip4_addr4 w) = w"
proof (rule bit_word_eqI)
  fix n assume "n < LENGTH(32)"
  with byte_cases [of n]
  show "bit (IP4_ADDR (ip4_addr1 w) (ip4_addr2 w) (ip4_addr3 w) (ip4_addr4 w)) n = bit w n"
   unfolding ip4_defs by (elim disjE conjE) (auto simp: bit_simps less_diff_conv2 high_bit8)
qed
lemma htonl_bytes: "htonl w = IP4_ADDR (ip4_addr4 w) (ip4_addr3 w) (ip4_addr2 w) (ip4_addr1 w)"
proof (rule bit_word_eqI)
  fix n assume "n < LENGTH(32)"
  with byte_cases [of n]
  show "bit (htonl w) n = bit (IP4_ADDR (ip4_addr4 w) (ip4_addr3 w) (ip4_addr2 w) (ip4_addr1 w)) n"
   unfolding ip4_defs htonl_def masks32 by (elim disjE conjE) (simp_all add: bit_simps less_diff_conv2 high_bit8)
qed
lemma ip4_addr_IP4_ADDR [simp]:
  "ip4_addr1 (IP4_ADDR a b c d) = a" "ip4_addr2 (IP4_ADDR a b c d) = b"
  "ip4_addr3 (IP4_ADDR a b c d) = c" "ip4_addr4 (IP4_ADDR a b c d) = d"
  unfolding ip4_defs by (rule bit_word_eqI; simp add: bit_simps less_diff_conv2 high_bit8)+
lemma htonl_htonl [simp]: "htonl (htonl x) = x"
  by (simp add: htonl_bytes)
lemma htons_htons [simp]: "htons (htons x) = x"
proof (rule bit_word_eqI)
  fix n assume "n < LENGTH(16)"
  with byte_cases [of n]
  show "bit (htons (htons x)) n = bit x n"
   unfolding htons_def masks16 by (elim disjE conjE) (simp_all add: bit_simps less_diff_conv2 high_bit8)
qed
lemma htonl_inject [simp]: "htonl x = htonl y \<longleftrightarrow> x = y"
  by (metis htonl_htonl)

lemma word4_bytes4 [simp]: "word4 (bytes4 w) = w"
  by (simp add: word4_def bytes4_def)

lemma bytes4_word4:
  assumes "length bs = 4"
  shows "bytes4 (word4 bs) = bs"
proof -
  obtain a b c d where "bs = [a, b, c, d]"
    using assms by (auto simp: numeral_eq_Suc length_Suc_conv)
  then show ?thesis by (simp add: word4_def bytes4_def)
qed

lemma bytes4_inject [simp]: "bytes4 v = bytes4 w \<longleftrightarrow> v = w"
  by (metis word4_bytes4)

section \<open>C arithmetic on sizes\<close>

text \<open>
  Sizes and offsets are natural numbers below \<open>2 ^ 32\<close>. A \<open>size_t\<close> subtraction wraps
  (\<open>sub_sz\<close>), a cast to \<open>int\<close> reads the top bit as a sign (\<open>to_int\<close>), and the
  \<open>LWIP_MIN((int)a, (int)b)\<close> of the ring buffer, stored back in a \<open>size_t\<close>, is
  \<open>min_int\<close>.
\<close>

definition sub_sz :: "nat \<Rightarrow> nat \<Rightarrow> nat" where
  "sub_sz a b = (if b \<le> a then a - b else 2 ^ 32 + a - b)"

definition to_int :: "nat \<Rightarrow> int" where
  "to_int n = (if n < 2 ^ 31 then int n else int n - 2 ^ 32)"

definition min_int :: "nat \<Rightarrow> nat \<Rightarrow> nat" where
  "min_int a b = (let m = (if to_int a < to_int b then to_int a else to_int b)
                  in nat (m mod 2 ^ 32))"

lemma sub_sz_exact [simp]: "b \<le> a \<Longrightarrow> sub_sz a b = a - b"
  by (simp add: sub_sz_def)

lemma min_int_eq [simp]:
  assumes "a < 2 ^ 31" "b < 2 ^ 31"
  shows "min_int a b = min a b"
  using assms by (auto simp: min_int_def to_int_def Let_def min_def)

section \<open>Byte arrays\<close>

text \<open>\<open>memcpy\<close> into and out of an array; \<open>None\<close> when it runs past the end.\<close>

definition arr_write :: "'a list \<Rightarrow> nat \<Rightarrow> 'a list \<Rightarrow> 'a list option" where
  "arr_write xs i ys =
     (if i + length ys \<le> length xs
      then Some (take i xs @ ys @ drop (i + length ys) xs) else None)"

definition arr_read :: "'a list \<Rightarrow> nat \<Rightarrow> nat \<Rightarrow> 'a list option" where
  "arr_read xs i n = (if i + n \<le> length xs then Some (take n (drop i xs)) else None)"

definition arr_get :: "'a list \<Rightarrow> nat \<Rightarrow> 'a option" where
  "arr_get xs i = (if i < length xs then Some (xs ! i) else None)"

lemma length_arr_write: "arr_write xs i ys = Some zs \<Longrightarrow> length zs = length xs"
  by (auto simp: arr_write_def split: if_splits)

lemma arr_write_at_end:
  "arr_write (xs @ ys @ zs) (length xs) ws =
     (if length ws \<le> length (ys @ zs) then Some (xs @ ws @ drop (length ws) (ys @ zs)) else None)"
  by (simp add: arr_write_def)

section \<open>State machines\<close>

text \<open>
  The components are state machines whose steps are the calls of their functions. An
  invariant that every call keeps holds after every sequence of calls.
\<close>

locale step_invariant =
  fixes step :: "'s \<Rightarrow> 's \<Rightarrow> bool"
    and inv :: "'s \<Rightarrow> bool"
  assumes step_keeps: "inv s \<Longrightarrow> step s s' \<Longrightarrow> inv s'"
begin

lemma run_keeps: "step\<^sup>*\<^sup>* s s' \<Longrightarrow> inv s \<Longrightarrow> inv s'"
  by (induction rule: rtranclp_induct) (auto intro: step_keeps)

end

end
