(* ===== verification/Ring_Buffer.thy ===== *)
theory Ring_Buffer
  imports Prelude
begin

text \<open>
  The byte ring buffer of \<^verbatim>\<open>glue-lwip/espconn_buf.c\<close>, in which the TCP side of espconn
  keeps what the application has not fetched yet. The buffer is a list of \<open>size\<close> bytes,
  the pointers \<open>head\<close> and \<open>tail\<close> are offsets from \<open>buf\<close>. One slot stays free, so the
  capacity is \<open>size - 1\<close>. A write that does not fit overwrites the oldest bytes.

  \<open>rb_contents\<close> lifts a buffer to the list of the bytes it holds, oldest first; every
  operation is proved to be the expected list operation on it.
\<close>

section \<open>Data\<close>

record ringbuf =
  rb_buf :: "u8 list"
  rb_head :: nat
  rb_tail :: nat
  rb_size :: nat

section \<open>Operations\<close>

definition ringbuf_buffer_size :: "ringbuf \<Rightarrow> nat" where
  "ringbuf_buffer_size rb = rb_size rb"

definition ringbuf_reset :: "ringbuf \<Rightarrow> ringbuf" where
  "ringbuf_reset rb = rb\<lparr>rb_head := 0, rb_tail := 0\<rparr>"

text \<open>
  \<open>ringbuf_new\<close> returns NULL (here \<open>None\<close>) when one of its two allocations fails; the
  two booleans say whether \<open>os_zalloc\<close> succeeds for the structure and for the bytes.
\<close>

definition ringbuf_new :: "bool \<Rightarrow> bool \<Rightarrow> nat \<Rightarrow> ringbuf option" where
  "ringbuf_new struct_ok buf_ok capacity =
     (if struct_ok
      then let size = (capacity + 1) mod 2 ^ 32
           in if buf_ok
              then Some (ringbuf_reset
                     \<lparr>rb_buf = replicate size 0, rb_head = 0, rb_tail = 0, rb_size = size\<rparr>)
              else None
      else None)"

text \<open>\<open>ringbuf_free\<close> clears the caller's pointer; NULL is left alone by its assertion.\<close>

definition ringbuf_free :: "ringbuf option \<Rightarrow> ringbuf option" where
  "ringbuf_free rb = (case rb of None \<Rightarrow> rb | Some _ \<Rightarrow> None)"

definition ringbuf_capacity :: "ringbuf \<Rightarrow> nat" where
  "ringbuf_capacity rb = sub_sz (ringbuf_buffer_size rb) 1"

definition ringbuf_end :: "ringbuf \<Rightarrow> nat" where
  "ringbuf_end rb = ringbuf_buffer_size rb"

definition ringbuf_bytes_free :: "ringbuf \<Rightarrow> nat" where
  "ringbuf_bytes_free rb =
     (if rb_head rb \<ge> rb_tail rb
      then sub_sz (ringbuf_capacity rb) (rb_head rb - rb_tail rb)
      else rb_tail rb - rb_head rb - 1)"

definition ringbuf_bytes_used :: "ringbuf \<Rightarrow> nat" where
  "ringbuf_bytes_used rb = sub_sz (ringbuf_capacity rb) (ringbuf_bytes_free rb)"

definition ringbuf_is_full :: "ringbuf \<Rightarrow> bool" where
  "ringbuf_is_full rb \<longleftrightarrow> ringbuf_bytes_free rb = 0"

definition ringbuf_is_empty :: "ringbuf \<Rightarrow> bool" where
  "ringbuf_is_empty rb \<longleftrightarrow> ringbuf_bytes_free rb = ringbuf_capacity rb"

definition ringbuf_tail :: "ringbuf \<Rightarrow> nat" where
  "ringbuf_tail rb = rb_tail rb"

definition ringbuf_head :: "ringbuf \<Rightarrow> nat" where
  "ringbuf_head rb = rb_head rb"

text \<open>\<open>ringbuf_nextp\<close>: the offset after \<open>p\<close>, NULL when its assertion fails.\<close>

definition ringbuf_nextp :: "ringbuf \<Rightarrow> nat \<Rightarrow> nat option" where
  "ringbuf_nextp rb p =
     (if p < ringbuf_end rb then Some ((p + 1) mod ringbuf_buffer_size rb) else None)"

text \<open>\<open>memchr\<close> of the C library, as an offset.\<close>

fun memchr :: "u8 \<Rightarrow> u8 list \<Rightarrow> nat option" where
  "memchr c [] = None"
| "memchr c (x # xs) = (if x = c then Some 0 else map_option Suc (memchr c xs))"

partial_function (option) ringbuf_findchr :: "ringbuf \<Rightarrow> u8 \<Rightarrow> nat \<Rightarrow> nat option" where
  "ringbuf_findchr rb c offset =
     (if offset \<ge> ringbuf_bytes_used rb then Some (ringbuf_bytes_used rb)
      else if \<not> ringbuf_end rb > (rb_tail rb + offset) mod ringbuf_buffer_size rb then Some 0
      else do {
        chunk \<leftarrow> arr_read (rb_buf rb) ((rb_tail rb + offset) mod ringbuf_buffer_size rb)
                   (min_int (ringbuf_end rb - (rb_tail rb + offset) mod ringbuf_buffer_size rb)
                            (ringbuf_bytes_used rb - offset));
        case memchr c chunk of
          Some found \<Rightarrow> Some (offset + found)
        | None \<Rightarrow> ringbuf_findchr rb c (offset + length chunk) })"

declare ringbuf_findchr.simps [code]

text \<open>
  The two copying loops into the buffer: \<open>src\<close> gives the \<open>n\<close> bytes to write at
  \<open>head\<close>. The boolean is false when the loop's assertion returned.
\<close>

partial_function (option) ringbuf_write_loop ::
  "(nat \<Rightarrow> nat \<Rightarrow> u8 list option) \<Rightarrow> nat \<Rightarrow> ringbuf \<Rightarrow> nat \<Rightarrow> (bool \<times> ringbuf) option" where
  "ringbuf_write_loop src count dst nread =
     (if nread = count then Some (True, dst)
      else if \<not> ringbuf_end dst > rb_head dst then Some (False, dst)
      else do {
        bs \<leftarrow> src nread (min_int (ringbuf_end dst - rb_head dst) (count - nread));
        buf \<leftarrow> arr_write (rb_buf dst) (rb_head dst) bs;
        let h = rb_head dst + length bs;
        ringbuf_write_loop src count
          (dst\<lparr>rb_buf := buf, rb_head := (if h = ringbuf_end dst then 0 else h)\<rparr>)
          (nread + length bs) })"

declare ringbuf_write_loop.simps [code]

text \<open>\<open>ringbuf_memset\<close> returns the number of bytes written, 0 from a failed assertion.\<close>

definition ringbuf_memset :: "ringbuf \<Rightarrow> u8 \<Rightarrow> nat \<Rightarrow> (ringbuf \<times> nat) option" where
  "ringbuf_memset dst c len =
     (let count = min len (ringbuf_buffer_size dst);
          overflow = count > ringbuf_bytes_free dst
      in do {
        (ok, dst1) \<leftarrow> ringbuf_write_loop (\<lambda>_ n. Some (replicate n c)) count dst 0;
        if \<not> ok then Some (dst1, 0)
        else if overflow then do {
          t \<leftarrow> ringbuf_nextp dst1 (rb_head dst1);
          let dst2 = dst1\<lparr>rb_tail := t\<rparr>;
          Some (dst2, if ringbuf_is_full dst2 then count else 0) }
        else Some (dst1, count) })"

text \<open>\<open>ringbuf_memcpy_into\<close> returns the new head, NULL (\<open>None\<close>) from a failed assertion.\<close>

definition ringbuf_memcpy_into :: "ringbuf \<Rightarrow> u8 list \<Rightarrow> nat \<Rightarrow> (ringbuf \<times> nat option) option" where
  "ringbuf_memcpy_into dst src count =
     (let overflow = count > ringbuf_bytes_free dst
      in do {
        (ok, dst1) \<leftarrow> ringbuf_write_loop (\<lambda>i n. arr_read src i n) count dst 0;
        if \<not> ok then Some (dst1, None)
        else if overflow then do {
          t \<leftarrow> ringbuf_nextp dst1 (rb_head dst1);
          let dst2 = dst1\<lparr>rb_tail := t\<rparr>;
          Some (dst2, if ringbuf_is_full dst2 then Some (rb_head dst2) else None) }
        else Some (dst1, Some (rb_head dst1)) })"

partial_function (option) ringbuf_read_loop ::
  "nat \<Rightarrow> ringbuf \<Rightarrow> u8 list \<Rightarrow> (bool \<times> ringbuf \<times> u8 list) option" where
  "ringbuf_read_loop count src dst =
     (if length dst = count then Some (True, src, dst)
      else if \<not> ringbuf_end src > rb_tail src then Some (False, src, dst)
      else do {
        bs \<leftarrow> arr_read (rb_buf src) (rb_tail src)
                (min_int (ringbuf_end src - rb_tail src) (count - length dst));
        let t = rb_tail src + length bs;
        ringbuf_read_loop count
          (src\<lparr>rb_tail := (if t = ringbuf_end src then 0 else t)\<rparr>) (dst @ bs) })"

declare ringbuf_read_loop.simps [code]

text \<open>
  \<open>ringbuf_memcpy_from\<close>: the new buffer, the returned tail (\<open>None\<close> for NULL) and the
  bytes that were stored at \<open>dst\<close>.
\<close>

definition ringbuf_memcpy_from ::
  "ringbuf \<Rightarrow> nat \<Rightarrow> (ringbuf \<times> nat option \<times> u8 list) option" where
  "ringbuf_memcpy_from src count =
     (if count > ringbuf_bytes_used src then Some (src, None, [])
      else do {
        (ok, src1, dst) \<leftarrow> ringbuf_read_loop count src [];
        if \<not> ok then Some (src1, None, dst)
        else Some (src1,
               if count + ringbuf_bytes_used src1 = ringbuf_bytes_used src
               then Some (rb_tail src1) else None,
               dst) })"

section \<open>Well-formed buffers and their contents\<close>

text \<open>
  On this target an object is smaller than \<open>2 ^ 31\<close> bytes, so the casts to \<open>int\<close> in
  the copying loops are exact.
\<close>

definition rb_ok :: "ringbuf \<Rightarrow> bool" where
  "rb_ok rb \<longleftrightarrow> 0 < rb_size rb \<and> rb_size rb < 2 ^ 31 \<and> length (rb_buf rb) = rb_size rb
     \<and> rb_head rb < rb_size rb \<and> rb_tail rb < rb_size rb"

definition rb_contents :: "ringbuf \<Rightarrow> u8 list" where
  "rb_contents rb =
     map (\<lambda>i. rb_buf rb ! ((rb_tail rb + i) mod rb_size rb)) [0..<ringbuf_bytes_used rb]"

lemmas rb_defs = ringbuf_buffer_size_def ringbuf_capacity_def ringbuf_end_def
  ringbuf_bytes_free_def ringbuf_bytes_used_def ringbuf_is_full_def ringbuf_is_empty_def

text \<open>A number below twice the size wraps at most once.\<close>

lemma mod_once: fixes n m :: nat shows "n < 2 * m \<Longrightarrow> n mod m = (if n < m then n else n - m)"
  by (simp add: mod_if)

lemma used_eq:
  assumes "rb_ok rb"
  shows "ringbuf_bytes_used rb =
    (if rb_tail rb \<le> rb_head rb then rb_head rb - rb_tail rb
     else rb_head rb + rb_size rb - rb_tail rb)"
  using assms by (auto simp: rb_ok_def rb_defs)

lemma free_used:
  "rb_ok rb \<Longrightarrow> ringbuf_bytes_free rb + ringbuf_bytes_used rb = ringbuf_capacity rb"
  by (auto simp: rb_ok_def rb_defs)

lemma capacity_eq: "rb_ok rb \<Longrightarrow> ringbuf_capacity rb = rb_size rb - 1"
  by (auto simp: rb_ok_def rb_defs)

lemma used_less: "rb_ok rb \<Longrightarrow> ringbuf_bytes_used rb < rb_size rb"
  using free_used [of rb] capacity_eq [of rb] by (auto simp: rb_ok_def)

lemma length_contents [simp]: "length (rb_contents rb) = ringbuf_bytes_used rb"
  by (simp add: rb_contents_def)

lemma full_iff: "rb_ok rb \<Longrightarrow> ringbuf_is_full rb \<longleftrightarrow> ringbuf_bytes_used rb = ringbuf_capacity rb"
  using free_used [of rb] by (auto simp: ringbuf_is_full_def)

lemma empty_iff: "rb_ok rb \<Longrightarrow> ringbuf_is_empty rb \<longleftrightarrow> rb_contents rb = []"
  using free_used [of rb] by (auto simp: ringbuf_is_empty_def rb_contents_def)

lemma new_ok:
  assumes "capacity < 2 ^ 31 - 1"
  shows "\<exists>rb. ringbuf_new True True capacity = Some rb \<and> rb_ok rb \<and> rb_contents rb = []
    \<and> ringbuf_capacity rb = capacity"
  using assms by (auto simp: ringbuf_new_def ringbuf_reset_def rb_ok_def rb_contents_def rb_defs Let_def)

section \<open>Writing one byte\<close>

text \<open>
  The loops copy whole chunks; they are proved equal to storing the bytes one by one
  with \<open>put\<close>, and \<open>behind rb j\<close>, the byte \<open>j\<close> places behind the head, describes what a
  stored byte does to the buffer.
\<close>

definition put :: "u8 \<Rightarrow> ringbuf \<Rightarrow> ringbuf" where
  "put b rb = rb\<lparr>rb_buf := (rb_buf rb)[rb_head rb := b], rb_head := (rb_head rb + 1) mod rb_size rb\<rparr>"

definition behind :: "ringbuf \<Rightarrow> nat \<Rightarrow> u8" where
  "behind rb j = rb_buf rb ! ((rb_head rb + rb_size rb - j) mod rb_size rb)"

definition last_bytes :: "nat \<Rightarrow> ringbuf \<Rightarrow> u8 list" where
  "last_bytes k rb = map (\<lambda>i. behind rb (k - i)) [0..<k]"

lemma put_ok [simp]: "rb_ok rb \<Longrightarrow> rb_ok (put b rb)"
  by (simp add: rb_ok_def put_def)

lemma put_sel [simp]:
  "rb_size (put b rb) = rb_size rb" "rb_tail (put b rb) = rb_tail rb"
  by (simp_all add: put_def)

lemma behind_nth:
  assumes "rb_ok rb" "0 < j" "j \<le> rb_size rb"
  shows "behind rb j = rb_buf rb ! (if j \<le> rb_head rb then rb_head rb - j
                                   else rb_head rb + rb_size rb - j)"
proof -
  have "(rb_head rb + rb_size rb - j) mod rb_size rb
    = (if j \<le> rb_head rb then rb_head rb - j else rb_head rb + rb_size rb - j)"
    using assms by (subst mod_once) (auto simp: rb_ok_def)
  then show ?thesis by (simp add: behind_def)
qed

lemma put_head:
  "rb_ok rb \<Longrightarrow> rb_head (put b rb) = (if rb_head rb + 1 = rb_size rb then 0 else rb_head rb + 1)"
  by (simp add: put_def mod_once rb_ok_def)

lemma put_buf: "rb_buf (put b rb) = (rb_buf rb)[rb_head rb := b]"
  by (simp add: put_def)

lemma behind_put_1: "rb_ok rb \<Longrightarrow> behind (put b rb) (Suc 0) = b"
  by (subst behind_nth) (auto simp: put_head put_buf, auto simp: rb_ok_def nth_list_update)

lemma behind_put_Suc:
  assumes "rb_ok rb" "0 < j" "j < rb_size rb"
  shows "behind (put b rb) (Suc j) = behind rb j"
proof -
  have [simp]: "rb_size rb - Suc j = rb_head rb - j" if "Suc (rb_head rb) = rb_size rb"
    using that by arith
  have "behind (put b rb) (Suc j) = rb_buf (put b rb) !
     (if j \<le> rb_head rb then rb_head rb - j else rb_head rb + rb_size rb - j)"
    using assms by (subst behind_nth) (auto simp: put_head put_buf rb_ok_def intro!: arg_cong [where f = "nth (rb_buf (put b rb))"])
  also have "\<dots> = behind rb j"
    using assms by (auto simp: behind_nth put_buf rb_ok_def nth_list_update)
  finally show ?thesis .
qed

lemma length_last_bytes [simp]: "length (last_bytes k rb) = k"
  by (simp add: last_bytes_def)

lemma last_bytes_put:
  assumes "rb_ok rb" "k < rb_size rb"
  shows "last_bytes (Suc k) (put b rb) = last_bytes k rb @ [b]"
proof -
  have "behind (put b rb) (Suc k - i) = behind rb (k - i)" if "i < k" for i
  proof -
    have "behind (put b rb) (Suc (k - i)) = behind rb (k - i)"
      using assms that by (intro behind_put_Suc) auto
    with that show ?thesis by (simp add: Suc_diff_le)
  qed
  then show ?thesis by (simp add: last_bytes_def behind_put_1 assms)
qed

lemma last_bytes_drop: "m \<le> k \<Longrightarrow> last_bytes m rb = drop (k - m) (last_bytes k rb)"
  by (rule nth_equalityI) (auto simp: last_bytes_def nth_append)

lemma fold_put_ok: "rb_ok rb \<Longrightarrow> rb_ok (fold put xs rb)"
  by (induction xs arbitrary: rb) auto

lemma fold_put_sel [simp]:
  "rb_size (fold put xs rb) = rb_size rb" "rb_tail (fold put xs rb) = rb_tail rb"
  by (induction xs arbitrary: rb) auto

lemma fold_put_head:
  "rb_ok rb \<Longrightarrow> rb_head (fold put xs rb) = (rb_head rb + length xs) mod rb_size rb"
proof (induction xs arbitrary: rb)
  case Nil
  then show ?case by (simp add: rb_ok_def)
next
  case (Cons x xs)
  then have "rb_head (fold put xs (put x rb)) = (rb_head (put x rb) + length xs) mod rb_size rb"
    by simp
  then show ?case by (simp only: fold_simps) (simp add: put_head rb_ok_def mod_simps, simp add: put_def mod_simps)
qed

lemma last_bytes_fold:
  assumes "rb_ok rb" "k < rb_size rb" "m < rb_size rb" "m \<le> k + length xs"
  shows "last_bytes m (fold put xs rb) = drop (k + length xs - m) (last_bytes k rb @ xs)"
  using assms(3,4)
proof (induction xs arbitrary: m rule: rev_induct)
  case Nil
  then show ?case by (simp add: last_bytes_drop [of m k])
next
  case (snoc x xs)
  show ?case
  proof (cases m)
    case 0
    then show ?thesis by (simp add: last_bytes_def)
  next
    case (Suc m')
    have "last_bytes (Suc m') (put x (fold put xs rb)) = last_bytes m' (fold put xs rb) @ [x]"
      using Suc snoc.prems assms(1) by (intro last_bytes_put) (auto simp: fold_put_ok)
    with Suc snoc show ?thesis by simp
  qed
qed

lemma contents_last_bytes: "rb_ok rb \<Longrightarrow> rb_contents rb = last_bytes (ringbuf_bytes_used rb) rb"
proof (rule nth_equalityI)
  assume ok: "rb_ok rb"
  fix i assume "i < length (rb_contents rb)"
  then have i: "i < ringbuf_bytes_used rb" by simp
  have "(rb_head rb + rb_size rb - (ringbuf_bytes_used rb - i)) mod rb_size rb
        = (rb_tail rb + i) mod rb_size rb"
    using ok i by (auto simp: used_eq rb_ok_def mod_once split: if_splits)
  then show "rb_contents rb ! i = last_bytes (ringbuf_bytes_used rb) rb ! i"
    using i by (simp add: rb_contents_def last_bytes_def behind_def)
qed (simp add: last_bytes_def)

section \<open>The copying loops\<close>

lemma fold_put_chunk:
  "rb_ok rb \<Longrightarrow> length bs \<le> rb_size rb - rb_head rb \<Longrightarrow>
   fold put bs rb = rb\<lparr>
     rb_buf := take (rb_head rb) (rb_buf rb) @ bs @ drop (rb_head rb + length bs) (rb_buf rb),
     rb_head := (if rb_head rb + length bs = rb_size rb then 0 else rb_head rb + length bs)\<rparr>"
proof (induction bs arbitrary: rb)
  case Nil
  then show ?case by (auto simp: rb_ok_def)
next
  case (Cons b bs)
  show ?case
  proof (cases bs)
    case Nil
    with Cons.prems show ?thesis
      by (auto simp: put_def rb_ok_def mod_once upd_conv_take_nth_drop)
  next
    case (Cons c cs)
    with Cons.prems have h: "rb_head rb + 1 < rb_size rb" by auto
    then have "fold put bs (put b rb) = (put b rb)\<lparr>
        rb_buf := take (rb_head rb + 1) ((rb_buf rb)[rb_head rb := b]) @ bs
                  @ drop (rb_head rb + 1 + length bs) ((rb_buf rb)[rb_head rb := b]),
        rb_head := (if rb_head rb + 1 + length bs = rb_size rb then 0
                    else rb_head rb + 1 + length bs)\<rparr>"
      using Cons.IH [of "put b rb"] Cons.prems by (simp add: put_head put_buf)
    moreover have "put b rb = rb\<lparr>rb_buf := (rb_buf rb)[rb_head rb := b], rb_head := rb_head rb + 1\<rparr>"
      using h by (simp add: put_def)
    ultimately show ?thesis using h Cons.prems
      unfolding fold_simps by (simp add: rb_ok_def take_Suc_conv_app_nth)
  qed
qed

lemma write_loop_eq:
  assumes "length data < 2 ^ 31"
    and "\<And>i n. i + n \<le> length data \<Longrightarrow> src i n = Some (take n (drop i data))"
  shows "rb_ok dst \<Longrightarrow> nread \<le> length data \<Longrightarrow>
    ringbuf_write_loop src (length data) dst nread = Some (True, fold put (drop nread data) dst)"
proof (induction "length data - nread" arbitrary: dst nread rule: less_induct)
  case less
  show ?case
  proof (cases "nread = length data")
    case True
    then show ?thesis by (simp add: ringbuf_write_loop.simps)
  next
    case False
    define n where "n = min (rb_size dst - rb_head dst) (length data - nread)"
    define bs where "bs = take n (drop nread data)"
    have n: "0 < n" "n \<le> rb_size dst - rb_head dst" "nread + n \<le> length data" "length bs = n"
      using False less.prems by (auto simp: n_def bs_def rb_ok_def)
    have m: "min_int (ringbuf_end dst - rb_head dst) (length data - nread) = n"
      using less.prems assms(1) by (auto simp: n_def rb_defs rb_ok_def less_imp_diff_less)
    have e: "fold put bs dst = dst\<lparr>
        rb_buf := take (rb_head dst) (rb_buf dst) @ bs @ drop (rb_head dst + n) (rb_buf dst),
        rb_head := (if rb_head dst + n = ringbuf_end dst then 0 else rb_head dst + n)\<rparr>"
      using fold_put_chunk [of dst bs] less.prems n by (simp add: rb_defs)
    have "ringbuf_write_loop src (length data) dst nread
      = ringbuf_write_loop src (length data) (fold put bs dst) (nread + n)"
      using less.prems n False
      by (subst ringbuf_write_loop.simps)
        (simp add: m assms(2) e arr_write_def bs_def [symmetric],
         auto simp: rb_ok_def rb_defs Let_def)
    also have "\<dots> = Some (True, fold put (drop (nread + n) data) (fold put bs dst))"
      using n less.prems by (intro less.hyps) (auto simp: fold_put_ok)
    also have "fold put (drop (nread + n) data) (fold put bs dst) = fold put (drop nread data) dst"
      by (simp add: bs_def comp_def flip: fold_append)
         (metis add.commute append_take_drop_id comp_apply drop_drop fold_append)
    finally show ?thesis .
  qed
qed

text \<open>Moving the tail forward takes bytes off the front of the contents.\<close>

definition advance :: "nat \<Rightarrow> ringbuf \<Rightarrow> ringbuf" where
  "advance n rb = rb\<lparr>rb_tail := (rb_tail rb + n) mod rb_size rb\<rparr>"

lemma advance_ok: "rb_ok rb \<Longrightarrow> rb_ok (advance n rb)"
  by (simp add: rb_ok_def advance_def)

lemma advance_sel [simp]:
  "rb_size (advance n rb) = rb_size rb" "rb_head (advance n rb) = rb_head rb"
  "rb_buf (advance n rb) = rb_buf rb" "rb_tail (advance n rb) = (rb_tail rb + n) mod rb_size rb"
  by (simp_all add: advance_def)

lemma advance_0: "rb_ok rb \<Longrightarrow> advance 0 rb = rb"
  by (simp add: advance_def rb_ok_def)

lemma advance_advance: "advance m (advance n rb) = advance (n + m) rb"
  by (simp add: advance_def mod_simps add.assoc)

lemma advance_used:
  assumes "rb_ok rb" "n \<le> ringbuf_bytes_used rb"
  shows "ringbuf_bytes_used (advance n rb) = ringbuf_bytes_used rb - n"
proof -
  have "(rb_tail rb + n) mod rb_size rb
    = (if rb_tail rb + n < rb_size rb then rb_tail rb + n else rb_tail rb + n - rb_size rb)"
    using assms used_less [of rb] by (subst mod_once) (auto simp: rb_ok_def)
  with assms show ?thesis
    unfolding used_eq [OF assms(1)] used_eq [OF advance_ok [OF assms(1)]]
    by (auto simp: advance_def rb_ok_def split: if_splits)
qed

lemma advance_contents:
  assumes "rb_ok rb" "n \<le> ringbuf_bytes_used rb"
  shows "rb_contents (advance n rb) = drop n (rb_contents rb)"
proof (rule nth_equalityI)
  fix i assume "i < length (rb_contents (advance n rb))"
  with assms have "i < ringbuf_bytes_used rb - n" by (simp add: advance_used)
  with assms show "rb_contents (advance n rb) ! i = drop n (rb_contents rb) ! i"
    using nth_upt [of 0 "n + i" "ringbuf_bytes_used rb"]
    by (simp add: rb_contents_def advance_used mod_simps add.assoc)
qed (use assms in \<open>simp add: advance_used\<close>)

lemma contents_chunk:
  assumes "rb_ok rb" "n \<le> ringbuf_bytes_used rb" "n \<le> rb_size rb - rb_tail rb"
  shows "take n (drop (rb_tail rb) (rb_buf rb)) = take n (rb_contents rb)"
  using assms by (intro nth_equalityI) (auto simp: rb_ok_def rb_contents_def)

lemma read_loop_eq:
  "rb_ok src \<Longrightarrow> length dst \<le> count \<Longrightarrow> count - length dst \<le> ringbuf_bytes_used src \<Longrightarrow>
   ringbuf_read_loop count src dst =
     Some (True, advance (count - length dst) src, dst @ take (count - length dst) (rb_contents src))"
proof (induction "count - length dst" arbitrary: src dst rule: less_induct)
  case less
  show ?case
  proof (cases "length dst = count")
    case True
    then show ?thesis using less.prems by (simp add: ringbuf_read_loop.simps advance_0)
  next
    case False
    define n where "n = min (rb_size src - rb_tail src) (count - length dst)"
    define bs where "bs = take n (rb_contents src)"
    have n: "0 < n" "n \<le> rb_size src - rb_tail src" "length dst + n \<le> count"
        "n \<le> ringbuf_bytes_used src" "length bs = n"
      using False less.prems by (auto simp: n_def bs_def rb_ok_def)
    have c: "count - length dst < rb_size src"
      using less.prems used_less [of src] by auto
    have m: "min_int (ringbuf_end src - rb_tail src) (count - length dst) = n"
      using less.prems c by (auto simp: n_def rb_defs rb_ok_def less_imp_diff_less)
    have r: "arr_read (rb_buf src) (rb_tail src) n = Some bs"
      using less.prems n contents_chunk [of src n] by (auto simp: arr_read_def bs_def rb_ok_def)
    have t: "advance n src = src\<lparr>rb_tail := (if rb_tail src + n = ringbuf_end src then 0
                                             else rb_tail src + n)\<rparr>"
      using less.prems(1) n(2) le_neq_implies_less [of "rb_tail src + n" "rb_size src"]
      by (auto simp: advance_def ringbuf_end_def ringbuf_buffer_size_def rb_ok_def)
    have tl: "rb_tail src < ringbuf_end src"
      using less.prems by (simp add: ringbuf_end_def ringbuf_buffer_size_def rb_ok_def)
    have "ringbuf_read_loop count src dst = ringbuf_read_loop count (advance n src) (dst @ bs)"
      using False tl n(5) by (subst ringbuf_read_loop.simps) (simp add: m r t Let_def)
    also have "\<dots> = Some (True, advance (count - length (dst @ bs)) (advance n src),
        (dst @ bs) @ take (count - length (dst @ bs)) (rb_contents (advance n src)))"
      using n less.prems by (intro less.hyps) (auto simp: advance_ok advance_used)
    also have "\<dots> = Some (True, advance (count - length dst) src,
        dst @ take (count - length dst) (rb_contents src))"
      using n less.prems take_add [of n "count - length dst - n" "rb_contents src"]
      by (simp add: advance_advance advance_contents bs_def)
    finally show ?thesis .
  qed
qed

section \<open>What the operations do to the contents\<close>

lemma used_fold_put:
  assumes "rb_ok rb" "ringbuf_bytes_used rb + length xs < rb_size rb"
  shows "ringbuf_bytes_used (fold put xs rb) = ringbuf_bytes_used rb + length xs"
proof -
  have "(rb_head rb + length xs) mod rb_size rb
    = (if rb_head rb + length xs < rb_size rb then rb_head rb + length xs
       else rb_head rb + length xs - rb_size rb)"
    using assms by (subst mod_once) (auto simp: rb_ok_def)
  with assms show ?thesis
    unfolding used_eq [OF assms(1)] used_eq [OF fold_put_ok [OF assms(1)]]
    by (auto simp: fold_put_head rb_ok_def split: if_splits)
qed

lemma contents_fold_put:
  assumes "rb_ok rb" "ringbuf_bytes_used rb + length xs < rb_size rb"
  shows "rb_contents (fold put xs rb) = rb_contents rb @ xs"
  using assms last_bytes_fold [of rb "ringbuf_bytes_used rb" "ringbuf_bytes_used rb + length xs" xs]
  by (simp add: contents_last_bytes fold_put_ok used_fold_put)

text \<open>After an overflow the tail is moved to the byte after the head.\<close>

definition set_full :: "ringbuf \<Rightarrow> ringbuf" where
  "set_full rb = rb\<lparr>rb_tail := (rb_head rb + 1) mod rb_size rb\<rparr>"

lemma set_full_ok: "rb_ok rb \<Longrightarrow> rb_ok (set_full rb)"
  by (simp add: rb_ok_def set_full_def)

lemma set_full_used: "rb_ok rb \<Longrightarrow> ringbuf_bytes_used (set_full rb) = rb_size rb - 1"
  unfolding used_eq [OF set_full_ok]
  by (cases "rb_head rb + 1 = rb_size rb") (auto simp: rb_ok_def set_full_def)

lemma set_full_contents: "rb_ok rb \<Longrightarrow> rb_contents (set_full rb) = last_bytes (rb_size rb - 1) rb"
  unfolding contents_last_bytes [OF set_full_ok]
  by (simp add: set_full_used) (simp add: last_bytes_def behind_def set_full_def)

lemma set_full_is_full: "rb_ok rb \<Longrightarrow> ringbuf_is_full (set_full rb)"
  by (simp add: full_iff set_full_ok set_full_used capacity_eq) (simp add: set_full_def)

lemma nextp_head: "rb_ok rb \<Longrightarrow> ringbuf_nextp rb (rb_head rb) = Some ((rb_head rb + 1) mod rb_size rb)"
  by (simp add: ringbuf_nextp_def rb_defs rb_ok_def)

text \<open>The buffer after \<open>xs\<close> has been written to it.\<close>

definition written :: "u8 list \<Rightarrow> ringbuf \<Rightarrow> ringbuf" where
  "written xs rb = (if length xs > ringbuf_bytes_free rb then set_full (fold put xs rb)
                    else fold put xs rb)"

lemma written_ok: "rb_ok rb \<Longrightarrow> rb_ok (written xs rb) \<and> rb_size (written xs rb) = rb_size rb"
  by (auto simp: written_def fold_put_ok set_full_ok) (auto simp: set_full_def)

lemma written_contents:
  assumes "rb_ok rb"
  shows "rb_contents (written xs rb) =
    drop (ringbuf_bytes_used rb + length xs - ringbuf_capacity rb) (rb_contents rb @ xs)"
proof (cases "length xs > ringbuf_bytes_free rb")
  case True
  with assms free_used [OF assms] used_less [OF assms] capacity_eq [OF assms]
  have "rb_contents (written xs rb) = last_bytes (rb_size rb - 1) (fold put xs rb)"
    by (simp add: written_def set_full_contents fold_put_ok)
  also have "\<dots> = drop (ringbuf_bytes_used rb + length xs - (rb_size rb - 1))
                    (last_bytes (ringbuf_bytes_used rb) rb @ xs)"
    using True free_used [OF assms] used_less [OF assms] capacity_eq [OF assms]
    by (intro last_bytes_fold assms) auto
  finally show ?thesis
    using assms capacity_eq [OF assms] by (simp add: contents_last_bytes)
next
  case False
  with assms free_used [OF assms] capacity_eq [OF assms] used_less [OF assms] show ?thesis
    by (simp add: written_def contents_fold_put)
qed

lemma memcpy_into_written:
  assumes "rb_ok dst" "count \<le> length src" "count < 2 ^ 31"
  shows "ringbuf_memcpy_into dst src count =
    Some (written (take count src) dst, Some (rb_head (written (take count src) dst)))"
proof -
  have r: "arr_read src i n = Some (take n (drop i (take count src)))" if "i + n \<le> count" for i n
    using that assms by (simp add: arr_read_def drop_take min_absorb1)
  have w: "ringbuf_write_loop (\<lambda>i n. arr_read src i n) count dst 0
      = Some (True, fold put (take count src) dst)"
    using write_loop_eq [of "take count src" "\<lambda>i n. arr_read src i n" dst 0] r assms
    by (simp add: min_absorb2)
  have "rb_ok (fold put (take count src) dst)" using assms by (simp add: fold_put_ok)
  with w assms show ?thesis
    using set_full_is_full [of "fold put (take count src) dst"]
    by (simp add: ringbuf_memcpy_into_def written_def nextp_head Let_def set_full_def)
qed

lemma memset_written:
  assumes "rb_ok dst" and m_def: "m = min len (rb_size dst)"
  shows "ringbuf_memset dst c len = Some (written (replicate m c) dst, m)"
proof -
  have w: "ringbuf_write_loop (\<lambda>_ n. Some (replicate n c)) m dst 0
      = Some (True, fold put (replicate m c) dst)"
    using write_loop_eq [of "replicate m c" "\<lambda>_ n. Some (replicate n c)" dst 0] assms
    by (auto simp: rb_ok_def min_def)
  have "rb_ok (fold put (replicate m c) dst)" using assms(1) by (rule fold_put_ok)
  with w assms show ?thesis
    using set_full_is_full [of "fold put (replicate m c) dst"]
    by (simp add: ringbuf_memset_def written_def nextp_head Let_def set_full_def
        ringbuf_buffer_size_def m_def)
qed

lemma memcpy_from_eq:
  assumes "rb_ok src"
  shows "ringbuf_memcpy_from src count =
    (if count \<le> ringbuf_bytes_used src
     then Some (advance count src, Some (rb_tail (advance count src)), take count (rb_contents src))
     else Some (src, None, []))"
  using assms read_loop_eq [of src "[]" count]
  by (simp add: ringbuf_memcpy_from_def advance_used not_le)

lemma memchr_None: "memchr c xs = None \<Longrightarrow> c \<notin> set xs"
  by (induction xs) (auto split: if_splits)

lemma memchr_Some: "memchr c xs = Some k \<Longrightarrow> k = length (takeWhile (\<lambda>x. x \<noteq> c) xs) \<and> c \<in> set xs"
  by (induction xs arbitrary: k) (auto split: if_splits)

lemma contents_from:
  assumes "rb_ok rb" "off < ringbuf_bytes_used rb"
    and "n \<le> ringbuf_bytes_used rb - off" "n \<le> rb_size rb - (rb_tail rb + off) mod rb_size rb"
  shows "arr_read (rb_buf rb) ((rb_tail rb + off) mod rb_size rb) n
    = Some (take n (drop off (rb_contents rb)))"
proof -
  have "(rb_tail rb + off) mod rb_size rb < rb_size rb"
    using assms(1) by (simp add: rb_ok_def)
  with assms(4) have "(rb_tail rb + off) mod rb_size rb + n \<le> rb_size rb" by linarith
  with assms contents_chunk [of "advance off rb" n] advance_ok [of rb off] show ?thesis
    by (simp add: arr_read_def advance_used advance_contents) (simp add: rb_ok_def)
qed

lemma findchr_eq:
  assumes "rb_ok rb"
  shows "off \<le> ringbuf_bytes_used rb \<Longrightarrow> ringbuf_findchr rb c off =
    Some (off + length (takeWhile (\<lambda>x. x \<noteq> c) (drop off (rb_contents rb))))"
proof (induction "ringbuf_bytes_used rb - off" arbitrary: off rule: less_induct)
  case less
  show ?case
  proof (cases "off = ringbuf_bytes_used rb")
    case True
    then show ?thesis by (simp add: ringbuf_findchr.simps)
  next
    case False
    let ?st = "(rb_tail rb + off) mod rb_size rb"
    define n where "n = min (rb_size rb - ?st) (ringbuf_bytes_used rb - off)"
    define bs where "bs = take n (drop off (rb_contents rb))"
    have st: "?st < rb_size rb" using assms by (simp add: rb_ok_def)
    then have n: "0 < n" "off + n \<le> ringbuf_bytes_used rb" "length bs = n"
      using less.prems False by (auto simp: n_def bs_def)
    have m: "min_int (rb_size rb - ?st) (ringbuf_bytes_used rb - off) = n"
      using assms used_less [of rb] by (auto simp: n_def rb_ok_def less_imp_diff_less)
    have r: "arr_read (rb_buf rb) ?st n = Some bs"
      using assms less.prems False unfolding bs_def by (intro contents_from) (auto simp: n_def)
    have split: "drop off (rb_contents rb) = bs @ drop (off + n) (rb_contents rb)"
      by (simp add: bs_def add.commute flip: drop_drop)
    show ?thesis
    proof (cases "memchr c bs")
      case None
      then have "takeWhile (\<lambda>x. x \<noteq> c) (drop off (rb_contents rb))
        = bs @ takeWhile (\<lambda>x. x \<noteq> c) (drop (off + n) (rb_contents rb))"
        unfolding split by (intro takeWhile_append2) (auto dest: memchr_None)
      moreover have "ringbuf_findchr rb c off = ringbuf_findchr rb c (off + n)"
        using False less.prems st n None
        by (subst ringbuf_findchr.simps) (simp add: m r ringbuf_end_def ringbuf_buffer_size_def)
      ultimately show ?thesis using less.hyps [of "off + n"] n by simp
    next
      case (Some k)
      then have k: "k = length (takeWhile (\<lambda>x. x \<noteq> c) bs)" "c \<in> set bs"
        by (auto dest: memchr_Some)
      then have "takeWhile (\<lambda>x. x \<noteq> c) (drop off (rb_contents rb)) = takeWhile (\<lambda>x. x \<noteq> c) bs"
        unfolding split by (intro takeWhile_append1) auto
      with k Some False less.prems st show ?thesis
        by (subst ringbuf_findchr.simps) (simp add: m r ringbuf_end_def ringbuf_buffer_size_def)
    qed
  qed
qed

section \<open>A bounded byte queue\<close>

text \<open>
  The contract on which a user of the buffer relies: a write keeps the most recent
  \<open>capacity\<close> bytes, a read takes the oldest ones off.
\<close>

locale byte_fifo =
  fixes ok :: "'b \<Rightarrow> bool"
    and contents :: "'b \<Rightarrow> u8 list"
    and cap :: "'b \<Rightarrow> nat"
    and push :: "'b \<Rightarrow> u8 list \<Rightarrow> 'b option"
    and pull :: "'b \<Rightarrow> nat \<Rightarrow> ('b \<times> u8 list) option"
  assumes write_ok: "ok b \<Longrightarrow> length xs < 2 ^ 31 \<Longrightarrow> \<exists>b'. push b xs = Some b' \<and> ok b' \<and> cap b' = cap b
      \<and> contents b' = drop (length (contents b) + length xs - cap b) (contents b @ xs)"
    and read_ok: "ok b \<Longrightarrow> n \<le> length (contents b) \<Longrightarrow>
      \<exists>b'. pull b n = Some (b', take n (contents b)) \<and> ok b' \<and> cap b' = cap b
        \<and> contents b' = drop n (contents b)"
    and bounded: "ok b \<Longrightarrow> length (contents b) \<le> cap b"
begin

text \<open>A sequence of writes keeps the last \<open>cap\<close> bytes of everything ever written.\<close>

primrec writes :: "'b \<Rightarrow> u8 list list \<Rightarrow> 'b option" where
  "writes b [] = Some b"
| "writes b (xs # xss) = Option.bind (push b xs) (\<lambda>b'. writes b' xss)"

lemma writes_keep_last:
  "ok b \<Longrightarrow> \<forall>xs\<in>set xss. length xs < 2 ^ 31 \<Longrightarrow>
   \<exists>b'. writes b xss = Some b' \<and> ok b' \<and> cap b' = cap b \<and>
     contents b' = drop (length (contents b) + length (concat xss) - cap b) (contents b @ concat xss)"
proof (induction xss arbitrary: b)
  case Nil
  then show ?case using bounded [of b] by simp
next
  case (Cons xs xss)
  from write_ok [OF Cons.prems(1), of xs] Cons.prems obtain b1 where
    b1: "push b xs = Some b1" "ok b1" "cap b1 = cap b"
      "contents b1 = drop (length (contents b) + length xs - cap b) (contents b @ xs)" by auto
  with Cons.IH [of b1] Cons.prems obtain b' where "writes b1 xss = Some b'" "ok b'" "cap b' = cap b"
    "contents b' = drop (length (contents b1) + length (concat xss) - cap b)
                     (contents b1 @ concat xss)" by auto
  moreover have "drop (length (contents b1) + length (concat xss) - cap b) (contents b1 @ concat xss)
    = drop (length (contents b) + length (xs @ concat xss) - cap b) (contents b @ xs @ concat xss)"
    using bounded [OF Cons.prems(1)] unfolding b1(4)
    by (simp add: drop_append) (auto simp: not_less drop_append diff_diff_left intro!: arg_cong2 [where f = append] arg_cong2 [where f = drop])
  ultimately show ?case using b1 by simp
qed

text \<open>What fits is read back in the order in which it was written.\<close>

lemma write_read:
  assumes "ok b" "length (contents b) + length xs \<le> cap b" "length xs < 2 ^ 31"
  shows "\<exists>b1 b2. push b xs = Some b1 \<and> pull b1 (length (contents b) + length xs) = Some (b2, contents b @ xs)
    \<and> ok b2 \<and> contents b2 = []"
proof -
  from write_ok [OF assms(1,3)] assms(2) obtain b1 where
    "push b xs = Some b1" "ok b1" "contents b1 = contents b @ xs" by auto
  with read_ok [of b1 "length (contents b) + length xs"] show ?thesis by auto
qed

end

definition rb_write :: "ringbuf \<Rightarrow> u8 list \<Rightarrow> ringbuf option" where
  "rb_write rb xs = map_option fst (ringbuf_memcpy_into rb xs (length xs))"

definition rb_read :: "ringbuf \<Rightarrow> nat \<Rightarrow> (ringbuf \<times> u8 list) option" where
  "rb_read rb n = map_option (\<lambda>(rb', _, bs). (rb', bs)) (ringbuf_memcpy_from rb n)"

lemma capacity_written: "rb_ok rb \<Longrightarrow> ringbuf_capacity (written xs rb) = ringbuf_capacity rb"
  using written_ok [of rb xs] by (simp add: capacity_eq)

lemma capacity_advance: "rb_ok rb \<Longrightarrow> ringbuf_capacity (advance n rb) = ringbuf_capacity rb"
  by (simp add: capacity_eq advance_ok)

interpretation fifo: byte_fifo rb_ok rb_contents ringbuf_capacity rb_write rb_read
proof
  fix b xs assume "rb_ok b" "length (xs :: u8 list) < 2 ^ 31"
  then show "\<exists>b'. rb_write b xs = Some b' \<and> rb_ok b' \<and> ringbuf_capacity b' = ringbuf_capacity b \<and>
      rb_contents b' = drop (length (rb_contents b) + length xs - ringbuf_capacity b) (rb_contents b @ xs)"
    using written_ok [of b xs]
    by (simp add: rb_write_def memcpy_into_written written_contents capacity_written)
next
  fix b n assume "rb_ok b" "n \<le> length (rb_contents b)"
  then show "\<exists>b'. rb_read b n = Some (b', take n (rb_contents b)) \<and> rb_ok b'
      \<and> ringbuf_capacity b' = ringbuf_capacity b \<and> rb_contents b' = drop n (rb_contents b)"
    by (simp add: rb_read_def memcpy_from_eq advance_ok capacity_advance advance_contents)
next
  fix b assume "rb_ok b"
  then show "length (rb_contents b) \<le> ringbuf_capacity b"
    using used_less [of b] by (simp add: capacity_eq)
qed

section \<open>Properties\<close>

text \<open>A wrapped-around, full buffer for the concrete instances.\<close>

definition rb_sample :: ringbuf where
  "rb_sample = \<lparr>rb_buf = [9, 0, 7, 8], rb_head = 1, rb_tail = 2, rb_size = 4\<rparr>"

lemma rb_sample_facts:
  "rb_ok rb_sample" "rb_contents rb_sample = [7, 8, 9]" "ringbuf_bytes_used rb_sample = 3"
  "ringbuf_capacity rb_sample = 3" "ringbuf_buffer_size rb_sample = 4"
  by (simp_all add: rb_sample_def rb_ok_def rb_contents_def rb_defs upt_rec)

text \<open>
  C12: \<open>ringbuf_memcpy_into\<close> of \<open>count\<close> bytes is safe (it stays inside \<open>buf\<close> and
  \<open>src\<close>), terminates, returns the new head (never NULL) and leaves the contents
  extended by the bytes; when they do not fit, the oldest bytes are the ones lost, also
  when \<open>count\<close> is larger than the whole buffer.
\<close>

theorem ringbuf_memcpy_into_spec:
  assumes "rb_ok dst" "count \<le> length src" "count < 2 ^ 31"
  shows "\<exists>dst'. ringbuf_memcpy_into dst src count = Some (dst', Some (ringbuf_head dst'))
    \<and> rb_ok dst' \<and> ringbuf_capacity dst' = ringbuf_capacity dst
    \<and> rb_contents dst' = drop (ringbuf_bytes_used dst + count - ringbuf_capacity dst)
                           (rb_contents dst @ take count src)"
  using assms written_ok [of dst "take count src"]
  by (simp add: memcpy_into_written written_contents capacity_written ringbuf_head_def min_absorb2)

theorem ringbuf_memcpy_into_witness:
  "\<exists>dst'. ringbuf_memcpy_into rb_sample [1, 2] 2
      = Some (dst', Some (ringbuf_head dst')) \<and> rb_contents dst' = [9, 1, 2]"
  using ringbuf_memcpy_into_spec
    [of rb_sample 2 "[1, 2]"]
  by (auto simp: rb_sample_facts)

text \<open>
  C13: \<open>ringbuf_memcpy_from\<close> takes exactly the \<open>count\<close> oldest bytes off and returns the
  new tail; asked for more than there is it returns NULL and changes nothing. The
  assertion at its end never fires.
\<close>

theorem ringbuf_memcpy_from_spec:
  assumes "rb_ok src"
  shows "if count \<le> ringbuf_bytes_used src
    then \<exists>src'. ringbuf_memcpy_from src count
             = Some (src', Some (ringbuf_tail src'), take count (rb_contents src))
           \<and> rb_ok src' \<and> ringbuf_capacity src' = ringbuf_capacity src
           \<and> rb_contents src' = drop count (rb_contents src)
    else ringbuf_memcpy_from src count = Some (src, None, [])"
  using assms
  by (simp add: memcpy_from_eq advance_ok capacity_advance advance_contents ringbuf_tail_def)

theorem ringbuf_memcpy_from_witness:
  "\<exists>src'. ringbuf_memcpy_from rb_sample 3
      = Some (src', Some (ringbuf_tail src'), [7, 8, 9]) \<and> rb_contents src' = []"
  using ringbuf_memcpy_from_spec
    [of rb_sample 3]
  by (auto simp: rb_sample_facts)

text \<open>
  \<open>ringbuf_memset\<close> writes \<open>min len size\<close> copies of the byte and returns that
  number: a length beyond the buffer is cut, and an overwritten buffer ends full.
\<close>

theorem ringbuf_memset_spec:
  assumes "rb_ok dst" "m = min len (ringbuf_buffer_size dst)"
  shows "\<exists>dst'. ringbuf_memset dst c len = Some (dst', m) \<and> rb_ok dst'
    \<and> rb_contents dst' = drop (ringbuf_bytes_used dst + m - ringbuf_capacity dst)
                           (rb_contents dst @ replicate m c)"
  using assms written_ok [of dst "replicate m c"]
  by (simp add: memset_written ringbuf_buffer_size_def written_contents)

theorem ringbuf_memset_witness:
  "\<exists>dst'. ringbuf_memset rb_sample 5 1
      = Some (dst', 1) \<and> rb_contents dst' = [8, 9, 5]"
  using ringbuf_memset_spec
    [of rb_sample 1 1 5]
  by (auto simp: rb_sample_facts)

text \<open>
  \<open>ringbuf_findchr\<close> terminates and returns the offset of the first occurrence of the
  byte at or after \<open>offset\<close>, also when the contents wrap around the end of \<open>buf\<close>, and
  the number of bytes used when there is none.
\<close>

theorem ringbuf_findchr_spec:
  assumes "rb_ok rb"
  shows "ringbuf_findchr rb c offset =
    Some (if offset \<ge> ringbuf_bytes_used rb then ringbuf_bytes_used rb
          else offset + length (takeWhile (\<lambda>x. x \<noteq> c) (drop offset (rb_contents rb))))"
  using findchr_eq [OF assms, of offset c] by (auto simp: ringbuf_findchr.simps [of rb c offset])

theorem ringbuf_findchr_witness:
  "ringbuf_findchr rb_sample 9 1 = Some 2"
  using ringbuf_findchr_spec
    [of rb_sample 9 1]
  by (simp add: rb_sample_facts)

text \<open>
  C14: On a new buffer of \<open>capacity\<close> bytes, any sequence of \<open>ringbuf_memcpy_into\<close> calls
  leaves exactly the last \<open>capacity\<close> bytes of everything written, in order.
\<close>

theorem ringbuf_keeps_last_bytes:
  assumes "ringbuf_new True True capacity = Some rb" "capacity < 2 ^ 31 - 1"
    and "\<forall>xs\<in>set xss. length xs < 2 ^ 31"
  shows "\<exists>rb'. fifo.writes rb xss = Some rb'
    \<and> rb_contents rb' = drop (length (concat xss) - capacity) (concat xss)"
  using assms fifo.writes_keep_last [of rb xss] new_ok [of capacity] by auto

theorem ringbuf_keeps_last_bytes_witness:
  "\<exists>rb'. fifo.writes (the (ringbuf_new True True 3)) [[1, 2], [3, 4]] = Some rb'
     \<and> rb_contents rb' = [2, 3, 4]"
  using ringbuf_keeps_last_bytes [of 3 "the (ringbuf_new True True 3)" "[[1, 2], [3, 4]]"]
  by (simp add: ringbuf_new_def)

end
