(* ===== verification/C_Heap.thy ===== *)
theory C_Heap
  imports Prelude
begin

text \<open>
  Pointers and heaps. Each C structure type that the code links through pointers has
  a heap of its own, a map from addresses to structures; address 0 is NULL. Reading
  through a pointer is \<open>deref\<close>, undefined (\<open>None\<close>) for NULL and for an address that
  holds no object, so a use after \<open>os_free\<close> is visible in the model.

  The singly linked lists of the code are paths through such a heap. The loops that
  walk them (to the last node, and for the node that precedes a given one) occur in
  several components on different node types, so they are written once here over the
  node's next field, and the locale \<open>linked\<close> states what is proved about them.
\<close>

section \<open>Pointers, dereference, allocation\<close>

type_synonym ptr = nat

abbreviation NULL :: ptr where
  "NULL \<equiv> 0"

definition deref :: "(ptr \<rightharpoonup> 'a) \<Rightarrow> ptr \<Rightarrow> 'a option" where
  "deref h p = (if p = NULL then None else h p)"

text \<open>
  \<open>os_zalloc\<close> is the SDK's allocator: it returns NULL or the address of a fresh object.
  The address is an argument of the model's operations; \<open>fresh\<close> is its contract.
\<close>

definition fresh :: "(ptr \<rightharpoonup> 'a) \<Rightarrow> ptr \<Rightarrow> bool" where
  "fresh h p \<longleftrightarrow> p = NULL \<or> h p = None"

definition alloc :: "(ptr \<rightharpoonup> 'a) \<Rightarrow> ptr \<Rightarrow> 'a \<Rightarrow> (ptr \<rightharpoonup> 'a)" where
  "alloc h p v = (if p = NULL then h else h(p \<mapsto> v))"

text \<open>\<open>os_free\<close>: nothing for NULL, undefined for what is not an object.\<close>

definition os_free :: "(ptr \<rightharpoonup> 'a) \<Rightarrow> ptr \<Rightarrow> (ptr \<rightharpoonup> 'a) option" where
  "os_free h p = (if p = NULL then Some h
                  else if h p = None then None else Some (h(p := None)))"

lemma deref_NULL [simp]: "deref h NULL = None"
  by (simp add: deref_def)

lemma deref_upd [simp]:
  "deref (h(a \<mapsto> v)) p = (if p = a \<and> p \<noteq> NULL then Some v else deref h p)"
  by (simp add: deref_def)

lemma deref_del [simp]: "deref (h(a := None)) p = (if p = a then None else deref h p)"
  by (simp add: deref_def)

lemma deref_SomeD: "deref h p = Some v \<Longrightarrow> p \<noteq> NULL \<and> h p = Some v"
  by (simp add: deref_def split: if_splits)

lemma deref_nonnull: "p \<noteq> NULL \<Longrightarrow> deref h p = h p"
  by (simp add: deref_def)

lemma fresh_deref: "fresh h a \<Longrightarrow> deref h p = Some v \<Longrightarrow> p \<noteq> a"
  by (auto simp: fresh_def deref_def split: if_splits)

section \<open>Paths\<close>

text \<open>
  \<open>path nx h p as q\<close>: following the next field \<open>nx\<close> from \<open>p\<close> visits the nodes \<open>as\<close> and
  arrives at \<open>q\<close>. A list with head pointer \<open>p\<close> is a path to NULL.
\<close>

primrec path :: "('n \<Rightarrow> ptr) \<Rightarrow> (ptr \<rightharpoonup> 'n) \<Rightarrow> ptr \<Rightarrow> ptr list \<Rightarrow> ptr \<Rightarrow> bool" where
  "path nx h p [] q \<longleftrightarrow> p = q"
| "path nx h p (a # as) q \<longleftrightarrow> p = a \<and> (\<exists>n. deref h a = Some n \<and> path nx h (nx n) as q)"

lemma path_NULL [simp]: "path nx h NULL as NULL \<longleftrightarrow> as = []"
  by (cases as) auto

lemma path_append:
  "path nx h p (as @ bs) q \<longleftrightarrow> (\<exists>r. path nx h p as r \<and> path nx h r bs q)"
  by (induction as arbitrary: p) auto

lemma path_upd [simp]: "a \<notin> set as \<Longrightarrow> path nx (h(a := v)) p as q = path nx h p as q"
  by (induction as arbitrary: p) (auto simp: deref_def)

lemma path_deref: "path nx h p as q \<Longrightarrow> a \<in> set as \<Longrightarrow> \<exists>n. deref h a = Some n"
  by (induction as arbitrary: p) auto

lemma path_nonnull: "path nx h p as q \<Longrightarrow> NULL \<notin> set as"
  by (induction as arbitrary: p) (auto dest: deref_SomeD)

lemma path_unique:
  "path nx h p as NULL \<Longrightarrow> path nx h p bs NULL \<Longrightarrow> as = bs"
proof (induction as arbitrary: p bs)
  case Nil
  then show ?case by (cases bs) auto
next
  case (Cons a as)
  then show ?case by (cases bs) auto
qed

lemma path_distinct: "path nx h p as NULL \<Longrightarrow> distinct as"
proof (induction as arbitrary: p)
  case Nil
  then show ?case by simp
next
  case (Cons a as)
  then obtain n where n: "deref h a = Some n" "path nx h (nx n) as NULL" by auto
  have "a \<notin> set as"
  proof
    assume "a \<in> set as"
    then obtain xs ys where as: "as = xs @ a # ys" by (auto simp: in_set_conv_decomp)
    with n have "path nx h a (a # ys) NULL"
      by (auto simp: path_append)
    moreover have "path nx h a (a # as) NULL" using n by auto
    ultimately have "a # ys = a # as" by (rule path_unique)
    with as show False by (metis length_append length_Cons not_add_less2 lessI list.inject less_irrefl)
  qed
  with Cons n show ?case by auto
qed

lemma path_snoc:
  "path nx h p (as @ [a]) q \<longleftrightarrow> (\<exists>n. path nx h p as a \<and> deref h a = Some n \<and> nx n = q)"
  by (auto simp: path_append)

lemma path_agree:
  assumes "path nx h p as q" "\<And>a. a \<in> set as \<Longrightarrow> h' a = h a"
  shows "path nx h' p as q"
  using assms by (induction as arbitrary: p) (auto simp: deref_def split: if_splits)

text \<open>Only the next fields of its nodes matter to a path.\<close>

lemma path_same_next:
  assumes "path nx h p as q" "\<And>a. a \<in> set as \<Longrightarrow> map_option nx (h' a) = map_option nx (h a)"
  shows "path nx h' p as q"
  using assms
proof (induction as arbitrary: p)
  case (Cons a as)
  then obtain n where n: "p = a" "h a = Some n" "a \<noteq> NULL" "path nx h (nx n) as q"
    by (auto dest: deref_SomeD)
  with Cons.prems(2) [of a] obtain n' where "h' a = Some n'" "nx n' = nx n" by auto
  with n Cons show ?case by (auto simp: deref_def)
qed simp

section \<open>The list loops\<close>

text \<open>\<^verbatim>\<open>while (plist->pnext != NULL) plist = plist->pnext;\<close>\<close>

partial_function (option) last_node ::
  "('n \<Rightarrow> ptr) \<Rightarrow> (ptr \<rightharpoonup> 'n) \<Rightarrow> ptr \<Rightarrow> ptr option" where
  "last_node nx h p =
     do { n \<leftarrow> deref h p;
          if nx n \<noteq> NULL then last_node nx h (nx n) else Some p }"

declare last_node.simps [code]

text \<open>
  The loop of the deletion functions: for every node whose next field is the node to
  delete, take that node's own next field over (\<open>after\<close> is what the function does to
  the unlinked node).
\<close>

partial_function (option) unlink_loop ::
  "('n \<Rightarrow> ptr) \<Rightarrow> (ptr \<Rightarrow> 'n \<Rightarrow> 'n) \<Rightarrow> ('n \<Rightarrow> 'n) \<Rightarrow> (ptr \<rightharpoonup> 'n) \<Rightarrow> ptr \<Rightarrow> ptr \<Rightarrow> (ptr \<rightharpoonup> 'n) option"
where
  "unlink_loop nx set_nx after h pl pd =
     (if pl = NULL then Some h
      else do { n \<leftarrow> deref h pl;
                h' \<leftarrow> (if nx n = pd
                       then do { d \<leftarrow> deref h pd;
                                 let h1 = h(pl \<mapsto> set_nx (nx d) n);
                                 d1 \<leftarrow> deref h1 pd;
                                 Some (h1(pd \<mapsto> after d1)) }
                       else Some h);
                n' \<leftarrow> deref h' pl;
                unlink_loop nx set_nx after h' (nx n') pd })"

declare unlink_loop.simps [code]

text \<open>Walking a list for the first node that satisfies a test; NULL when none does.\<close>

partial_function (option) find_node ::
  "('n \<Rightarrow> ptr) \<Rightarrow> (ptr \<rightharpoonup> 'n) \<Rightarrow> (ptr \<Rightarrow> 'n \<Rightarrow> bool) \<Rightarrow> ptr \<Rightarrow> ptr option" where
  "find_node nx h P p =
     (if p = NULL then Some NULL
      else do { n \<leftarrow> deref h p;
                if P p n then Some p else find_node nx h P (nx n) })"

declare find_node.simps [code]

lemma last_node_path:
  "path nx h p (as @ [a]) NULL \<Longrightarrow> last_node nx h p = Some a"
proof (induction as arbitrary: p)
  case Nil
  then show ?case by (auto simp: last_node.simps [of nx h a])
next
  case (Cons b as)
  then obtain n where n: "p = b" "deref h b = Some n" "path nx h (nx n) (as @ [a]) NULL"
    by auto
  moreover have "nx n \<noteq> NULL"
  proof
    assume "nx n = NULL"
    with n show False by simp
  qed
  ultimately show ?case using Cons.IH by (simp add: last_node.simps [of nx h b])
qed

lemma find_node_path:
  assumes "path nx h p as NULL"
  shows "find_node nx h P p =
           Some (case filter (\<lambda>a. P a (the (h a))) as of [] \<Rightarrow> NULL | a # _ \<Rightarrow> a)"
  using assms
proof (induction as arbitrary: p)
  case Nil
  then show ?case by (simp add: find_node.simps)
next
  case (Cons a as)
  then obtain n where n: "p = a" "deref h a = Some n" "path nx h (nx n) as NULL" by auto
  then have "h a = Some n" "a \<noteq> NULL" by (auto dest: deref_SomeD)
  with n Cons.IH show ?case by (simp add: find_node.simps [of nx h P a])
qed

text \<open>The nodes of a list; an executable form of \<open>path\<close>.\<close>

partial_function (option) nodes :: "('n \<Rightarrow> ptr) \<Rightarrow> (ptr \<rightharpoonup> 'n) \<Rightarrow> ptr \<Rightarrow> ptr list option" where
  "nodes nx h p =
     (if p = NULL then Some []
      else do { n \<leftarrow> deref h p;
                as \<leftarrow> nodes nx h (nx n);
                Some (p # as) })"

declare nodes.simps [code]

lemma path_nodes: "path nx h p as NULL \<Longrightarrow> nodes nx h p = Some as"
proof (induction as arbitrary: p)
  case Nil
  then show ?case by (simp add: nodes.simps)
next
  case (Cons a as)
  then show ?case by (auto simp: nodes.simps [of nx h a] dest: deref_SomeD)
qed

lemmas nodes_induct = nodes.raw_induct [rotated, consumes 1, case_names step]

lemma nodes_path: "nodes nx h p = Some as \<Longrightarrow> path nx h p as NULL"
proof (induction rule: nodes_induct)
  case (step nodes nx h p as)
  then show ?case by (auto simp: bind_eq_Some_conv split: if_splits dest: deref_SomeD)
qed

section \<open>The list functions\<close>

text \<open>
  The shape shared by \<open>espconn_list_creat\<close> and \<open>espconn_pbuf_create\<close> (append at the tail),
  and by \<open>espconn_list_delete\<close>, \<open>espconn_pbuf_delete\<close> and \<open>node_remove_from_list\<close> (unlink).
  The result is the heap and the new head pointer.
\<close>

definition list_append ::
  "('n \<Rightarrow> ptr) \<Rightarrow> (ptr \<Rightarrow> 'n \<Rightarrow> 'n) \<Rightarrow> (ptr \<rightharpoonup> 'n) \<Rightarrow> ptr \<Rightarrow> ptr \<Rightarrow> ((ptr \<rightharpoonup> 'n) \<times> ptr) option"
where
  "list_append nx set_nx h phead pinsert =
     do { (h1, phead1) \<leftarrow>
            (if phead = NULL then Some (h, pinsert)
             else do { t \<leftarrow> last_node nx h phead;
                       n \<leftarrow> deref h t;
                       Some (h(t \<mapsto> set_nx pinsert n), phead) });
          i \<leftarrow> deref h1 pinsert;
          Some (h1(pinsert \<mapsto> set_nx NULL i), phead1) }"

definition list_delete ::
  "('n \<Rightarrow> ptr) \<Rightarrow> (ptr \<Rightarrow> 'n \<Rightarrow> 'n) \<Rightarrow> ('n \<Rightarrow> 'n) \<Rightarrow> (ptr \<rightharpoonup> 'n) \<Rightarrow> ptr \<Rightarrow> ptr
    \<Rightarrow> ((ptr \<rightharpoonup> 'n) \<times> ptr) option"
where
  "list_delete nx set_nx after h phead pdelete =
     (if phead = NULL then Some (h, NULL)
      else if phead = pdelete
      then do { n \<leftarrow> deref h phead;
                Some (h(phead \<mapsto> after n), nx n) }
      else do { h' \<leftarrow> unlink_loop nx set_nx after h phead pdelete;
                Some (h', phead) })"

text \<open>What a heap stores apart from its next fields.\<close>

definition erase :: "(ptr \<Rightarrow> 'n \<Rightarrow> 'n) \<Rightarrow> (ptr \<rightharpoonup> 'n) \<Rightarrow> (ptr \<rightharpoonup> 'n)" where
  "erase set_nx h = (\<lambda>a. map_option (set_nx NULL) (h a))"

section \<open>The contract of a next field\<close>

text \<open>
  What the list functions need of a node type: reading the next field after writing it,
  and that writing it changes nothing else.
\<close>

locale linked =
  fixes nx :: "'n \<Rightarrow> ptr"
    and set_nx :: "ptr \<Rightarrow> 'n \<Rightarrow> 'n"
  assumes nx_set: "nx (set_nx p n) = p"
    and set_set: "set_nx p (set_nx q n) = set_nx p n"
    and set_same: "set_nx (nx n) n = n"
begin

lemma erase_set: "h a = Some n \<Longrightarrow> erase set_nx (h(a \<mapsto> set_nx p n)) = erase set_nx h"
  by (auto simp: erase_def fun_eq_iff set_set)

lemma erase_lookup:
  assumes "erase set_nx h' = erase set_nx h" "h a = Some n"
  shows "\<exists>p. h' a = Some (set_nx p n)"
proof -
  have "map_option (set_nx NULL) (h' a) = Some (set_nx NULL n)"
    using assms by (metis erase_def option.map(2))
  then obtain n' where n': "h' a = Some n'" "set_nx NULL n' = set_nx NULL n" by auto
  then have "n' = set_nx (nx n') n" by (metis set_same set_set)
  with n' show ?thesis by auto
qed

lemma append_ok:
  assumes p: "path nx h p as NULL" and i: "deref h a = Some i" and a: "a \<notin> set as"
  shows "\<exists>h'. list_append nx set_nx h p a = Some (h', hd (as @ [a]))
    \<and> path nx h' (hd (as @ [a])) (as @ [a]) NULL
    \<and> erase set_nx h' = erase set_nx h
    \<and> (\<forall>b. b \<notin> set (a # as) \<longrightarrow> h' b = h b)"
proof (cases as rule: rev_cases)
  case Nil
  with p i show ?thesis
    by (auto simp: list_append_def nx_set dest!: deref_SomeD intro!: erase_set)
next
  case (snoc bs b)
  from p snoc have pn: "p \<noteq> NULL" by (auto simp: path_append dest!: deref_SomeD) (cases bs; auto dest: deref_SomeD)
  from p snoc obtain n where n: "deref h b = Some n" "path nx h p bs b"
    by (auto simp: path_append)
  have bn: "b \<notin> set bs" using path_distinct [OF p] snoc by simp
  from n i have hb: "h b = Some n" and ha: "h a = Some i" and nn: "a \<noteq> NULL" "b \<noteq> NULL"
    by (auto dest: deref_SomeD)
  define h1 where "h1 = h(b \<mapsto> set_nx a n)"
  have l: "last_node nx h p = Some b" using p snoc by (auto intro: last_node_path)
  have e: "list_append nx set_nx h p a = Some (h1(a \<mapsto> set_nx NULL i), p)"
    using pn l n i a snoc by (auto simp: list_append_def h1_def)
  have hd: "hd (as @ [a]) = p" using p snoc by (cases bs) auto
  have "path nx (h1(a \<mapsto> set_nx NULL i)) p (as @ [a]) NULL"
    using n a bn nn snoc by (auto simp: path_append h1_def nx_set)
  moreover have "h1 a = Some i" using ha a snoc by (auto simp: h1_def)
  then have "erase set_nx (h1(a \<mapsto> set_nx NULL i)) = erase set_nx h1" by (rule erase_set)
  then have "erase set_nx (h1(a \<mapsto> set_nx NULL i)) = erase set_nx h"
    using erase_set [where h = h and a = b and n = n, OF hb] by (simp add: h1_def)
  ultimately show ?thesis using e hd snoc by (auto simp: h1_def)
qed

lemma unlink_notin:
  assumes "path nx h p as NULL" "a \<notin> set as" "a \<noteq> NULL"
  shows "unlink_loop nx set_nx after h p a = Some h"
  using assms
proof (induction as arbitrary: p)
  case Nil
  then show ?case by (simp add: unlink_loop.simps)
next
  case (Cons b bs)
  then obtain n where n: "p = b" "deref h b = Some n" "path nx h (nx n) bs NULL" by auto
  moreover have "nx n \<noteq> a" using n Cons.prems by (cases bs) auto
  moreover have "b \<noteq> NULL" using n by (auto dest: deref_SomeD)
  ultimately show ?case using Cons
    by (simp add: unlink_loop.simps [of nx set_nx after h b])
qed

text \<open>Unlinking a node that is on the list but not its first.\<close>

lemma unlink_ok:
  assumes "path nx h p (b # as) NULL" "distinct (b # as)" "a \<in> set as"
    and "\<And>n. \<exists>q. after n = set_nx q n"
  shows "\<exists>h' d. unlink_loop nx set_nx after h p a = Some h'
    \<and> path nx h' p (b # remove1 a as) NULL
    \<and> erase set_nx h' = erase set_nx h
    \<and> (\<forall>c. c \<notin> set (b # as) \<longrightarrow> h' c = h c)
    \<and> deref h a = Some d \<and> h' a = Some (after d)"
  using assms(1-3)
proof (induction as arbitrary: p b)
  case Nil
  then show ?case by simp
next
  case (Cons c cs)
  from Cons.prems obtain n m where n: "p = b" "deref h b = Some n" "nx n = c"
    and m: "deref h c = Some m" "path nx h (nx m) cs NULL" by auto
  then have nn: "h b = Some n" "h c = Some m" "b \<noteq> NULL" "c \<noteq> NULL" by (auto dest: deref_SomeD)
  show ?case
  proof (cases "c = a")
    case True
    define h' where "h' = h(b \<mapsto> set_nx (nx m) n, a \<mapsto> after m)"
    have nin: "a \<notin> set cs" "b \<noteq> a" "b \<notin> set cs" using Cons.prems True by auto
    have pcs: "path nx h' (nx m) cs NULL" using m nin by (simp add: h'_def)
    have db: "deref h' b = Some (set_nx (nx m) n)" using nin nn by (simp add: h'_def)
    have "unlink_loop nx set_nx after h b a = Some h'"
      using n m nn nin True unlink_notin [OF pcs nin(1)]
      by (simp add: unlink_loop.simps [of nx set_nx after h b] h'_def nx_set)
    moreover have "erase set_nx h' = erase set_nx h"
    proof -
      obtain q where q: "after m = set_nx q m" using assms(4) by blast
      have "(h(b \<mapsto> set_nx (nx m) n)) a = Some m" using nn nin True by simp
      then have "erase set_nx h' = erase set_nx (h(b \<mapsto> set_nx (nx m) n))"
        unfolding h'_def q by (rule erase_set)
      also have "\<dots> = erase set_nx h" using nn(1) by (rule erase_set)
      finally show ?thesis .
    qed
    moreover have "path nx h' b (b # cs) NULL" using db pcs by (simp add: nx_set)
    ultimately show ?thesis using n m True nin by (auto simp: h'_def)
  next
    case False
    with Cons.prems have ac: "a \<in> set cs" by simp
    have "path nx h c (c # cs) NULL" using m by simp
    with Cons.IH [OF this] Cons.prems(2) ac obtain h' d where
      u: "unlink_loop nx set_nx after h c a = Some h'"
      and h': "path nx h' c (c # remove1 a cs) NULL" "erase set_nx h' = erase set_nx h"
        "\<forall>x. x \<notin> set (c # cs) \<longrightarrow> h' x = h x" "deref h a = Some d" "h' a = Some (after d)"
      by auto
    have "unlink_loop nx set_nx after h b a = Some h'"
      using u n nn False by (simp add: unlink_loop.simps [of nx set_nx after h b])
    moreover have "h' b = Some n" using h'(3) nn Cons.prems(2) by auto
    then have "path nx h' b (b # c # remove1 a cs) NULL"
      using h'(1) n nn by (auto simp: deref_nonnull)
    ultimately show ?thesis using h' n False Cons.prems(2) by auto
  qed
qed

text \<open>\<open>list_delete\<close> takes the node off the list and leaves every other list and all data alone.\<close>

lemma delete_ok:
  assumes p: "path nx h p as NULL" and a: "a \<in> set as"
    and after: "\<And>n. \<exists>q. after n = set_nx q n"
  shows "\<exists>h' p' d. list_delete nx set_nx after h p a = Some (h', p')
    \<and> path nx h' p' (remove1 a as) NULL
    \<and> erase set_nx h' = erase set_nx h
    \<and> (\<forall>c. c \<notin> set as \<longrightarrow> h' c = h c)
    \<and> deref h a = Some d \<and> h' a = Some (after d)"
proof -
  obtain b bs where as: "as = b # bs" using a by (cases as) auto
  have d: "distinct as" using p by (rule path_distinct)
  from p as obtain n where n: "p = b" "deref h b = Some n" "path nx h (nx n) bs NULL" by auto
  then have nn: "h b = Some n" "b \<noteq> NULL" by (auto dest: deref_SomeD)
  show ?thesis
  proof (cases "b = a")
    case True
    obtain q where q: "after n = set_nx q n" using after by blast
    have e: "erase set_nx (h(b \<mapsto> after n)) = erase set_nx h"
      unfolding q using nn(1) by (rule erase_set)
    have "path nx (h(b \<mapsto> after n)) (nx n) bs NULL" using n d as by simp
    then show ?thesis using n nn True as e by (auto simp: list_delete_def)
  next
    case False
    with a as have "a \<in> set bs" by simp
    with unlink_ok [of h p b bs a after] p d after as False n nn show ?thesis
      by (auto simp: list_delete_def)
  qed
qed

lemma delete_notin:
  assumes "path nx h p as NULL" "a \<notin> set as" "a \<noteq> NULL"
  shows "list_delete nx set_nx after h p a = Some (h, p)"
proof (cases as)
  case Nil
  with assms show ?thesis by (simp add: list_delete_def)
next
  case (Cons b bs)
  then have "p = b" "b \<noteq> NULL" using assms(1) by (auto dest: deref_SomeD)
  with assms Cons unlink_notin [OF assms] show ?thesis by (simp add: list_delete_def)
qed

end

end
