(* ===== verification/Dhcp_Pool.thy ===== *)
theory Dhcp_Pool
  imports C_Heap
begin

text \<open>
  The lease list of the DHCP server (\<^verbatim>\<open>glue-lwip/esp-dhcpserver.c\<close>): the static
  variables of the file as one record, the list of \<open>list_node\<close>s whose payload is a
  \<open>dhcps_pool\<close>, and every function that reads or changes the list:
  \<open>node_insert_to_list\<close>, \<open>node_remove_from_list\<close>, \<open>wifi_softap_add_dhcps_lease\<close>,
  \<open>kill_oldest_dhcps_pool\<close>, \<open>dhcps_coarse_tmr\<close>, \<open>wifi_softap_dhcps_client_leave\<close> and
  \<open>wifi_softap_dhcps_client_update\<close>. The definitions work on the two heaps as the code
  does; \<open>None\<close> is a NULL or dangling access. What they do to the table of leases is
  proved in \<^verbatim>\<open>Lease_Table\<close>.
\<close>

section \<open>Data\<close>

record list_node =
  pnode :: ptr
  pnext :: ptr

datatype dhcps_type_t = DHCPS_TYPE_DYNAMIC | DHCPS_TYPE_STATIC

datatype dhcps_state_t = DHCPS_STATE_ONLINE | DHCPS_STATE_OFFLINE

record dhcps_pool =
  pool_ip :: u32
  pool_mac :: "u8 list"
  lease_timer :: u32
  pool_type :: dhcps_type_t
  pool_state :: dhcps_state_t

text \<open>What \<open>os_zalloc\<close> leaves in a new structure: enumerations start at 0.\<close>

definition zero_pool :: dhcps_pool where
  "zero_pool = \<lparr>pool_ip = 0, pool_mac = replicate 6 0, lease_timer = 0,
                pool_type = DHCPS_TYPE_DYNAMIC, pool_state = DHCPS_STATE_ONLINE\<rparr>"

definition zero_node :: list_node where
  "zero_node = \<lparr>pnode = NULL, pnext = NULL\<rparr>"

record dhcps_lease =
  lease_enable :: bool
  lease_start_ip :: u32
  lease_end_ip :: u32

text \<open>
  Calls out of the file, in the order in which the code makes them: to the SDK
  (\<open>wifi_softap_set_station_info\<close>, \<open>wifi_set_ip_info\<close>) and to lwIP2's UDP and pbuf code.
\<close>

datatype dhcps_call =
    Set_station_info "u8 list" u32
  | Wifi_set_ip_info u32 u32 u32
  | Udp_remove ptr
  | Udp_bind ptr u16
  | Udp_recv ptr
  | Udp_disconnect ptr
  | Udp_sendto ptr "u8 list" u32 u16
  | Pbuf_free ptr

text \<open>
  The static variables of the file, the fields of the access-point interface
  \<open>netif_ap\<close> that it uses, and the calls made so far.
\<close>

record dhcps =
  nodes :: "ptr \<rightharpoonup> list_node"
  pools :: "ptr \<rightharpoonup> dhcps_pool"
  plist :: ptr
  lease_range :: dhcps_lease
  offer :: u8
  renew :: bool
  dhcps_lease_time :: u32
  pcb_dhcps :: ptr
  broadcast_dhcps :: u32
  server_address :: u32
  client_address :: u32
  dns_address :: u32
  ap_state :: ptr
  ap_ip_addr :: u32
  ap_netmask :: u32
  ap_flags :: u8
  dhcps_calls :: "dhcps_call list"

text \<open>The initial values; everything without an initialiser is zero.\<close>

definition DHCPS_LEASE_TIME_DEF :: u32 where "DHCPS_LEASE_TIME_DEF = 120"

definition dhcps_init :: dhcps where
  "dhcps_init = \<lparr>nodes = Map.empty, pools = Map.empty, plist = NULL,
     lease_range = \<lparr>lease_enable = False, lease_start_ip = 0, lease_end_ip = 0\<rparr>,
     offer = 0xff, renew = False, dhcps_lease_time = DHCPS_LEASE_TIME_DEF, pcb_dhcps = NULL,
     broadcast_dhcps = 0, server_address = 0, client_address = 0, dns_address = 0,
     ap_state = NULL, ap_ip_addr = 0, ap_netmask = 0, ap_flags = 0, dhcps_calls = []\<rparr>"

definition dhcps_call :: "dhcps_call \<Rightarrow> dhcps \<Rightarrow> dhcps" where
  "dhcps_call c s = s\<lparr>dhcps_calls := dhcps_calls s @ [c]\<rparr>"

definition MAX_STATION_NUM :: u8 where "MAX_STATION_NUM = 8"
definition IPADDR_ANY :: u32 where "IPADDR_ANY = 0"
definition IPADDR_BROADCAST :: u32 where "IPADDR_BROADCAST = 0xffffffff"

text \<open>\<^verbatim>\<open>htonl((ntohl(ip) + 1))\<close>: the next address.\<close>

definition next_ip :: "u32 \<Rightarrow> u32" where
  "next_ip w = htonl (ntohl w + 1)"

section \<open>The list primitives\<close>

abbreviation set_pnext :: "ptr \<Rightarrow> list_node \<Rightarrow> list_node" where
  "set_pnext q n \<equiv> n\<lparr>pnext := q\<rparr>"

text \<open>
  The insertion loop: stop behind the last node whose successor's address is not
  larger; insert there, or return the last node for the append after the loop.
\<close>

partial_function (option) node_insert_loop ::
  "(ptr \<rightharpoonup> list_node) \<Rightarrow> (ptr \<rightharpoonup> dhcps_pool) \<Rightarrow> ptr \<Rightarrow> u32 \<Rightarrow> ptr \<Rightarrow> ((ptr \<rightharpoonup> list_node) \<times> ptr) option"
where
  "node_insert_loop N P pinsert ip pl =
     do { n \<leftarrow> deref N pl;
          if pnext n = NULL then Some (N, pl)
          else do { m \<leftarrow> deref N (pnext n);
                    v \<leftarrow> deref P (pnode m);
                    if ip < pool_ip v
                    then do { i \<leftarrow> deref N pinsert;
                              Some (N(pinsert \<mapsto> i\<lparr>pnext := pnext n\<rparr>, pl \<mapsto> n\<lparr>pnext := pinsert\<rparr>), pl) }
                    else node_insert_loop N P pinsert ip (pnext n) } }"

declare node_insert_loop.simps [code]

definition node_insert_to_list ::
  "(ptr \<rightharpoonup> list_node) \<Rightarrow> (ptr \<rightharpoonup> dhcps_pool) \<Rightarrow> ptr \<Rightarrow> ptr \<Rightarrow> ((ptr \<rightharpoonup> list_node) \<times> ptr) option"
where
  "node_insert_to_list N P phead pinsert =
     (if phead = NULL then Some (N, pinsert)
      else do {
        i \<leftarrow> deref N pinsert;
        iv \<leftarrow> deref P (pnode i);
        h \<leftarrow> deref N phead;
        hv \<leftarrow> deref P (pnode h);
        if pool_ip iv < pool_ip hv
        then Some (N(pinsert \<mapsto> i\<lparr>pnext := phead\<rparr>), pinsert)
        else do {
          (N1, pl) \<leftarrow> node_insert_loop N P pinsert (pool_ip iv) phead;
          l \<leftarrow> deref N1 pl;
          if pnext l = NULL then Some (N1(pl \<mapsto> l\<lparr>pnext := pinsert\<rparr>), phead)
          else Some (N1, phead) } })"

definition node_remove_from_list ::
  "(ptr \<rightharpoonup> list_node) \<Rightarrow> ptr \<Rightarrow> ptr \<Rightarrow> ((ptr \<rightharpoonup> list_node) \<times> ptr) option" where
  "node_remove_from_list N phead pdelete =
     list_delete pnext set_pnext (set_pnext NULL) N phead pdelete"

text \<open>The two calls on the list head \<open>plist\<close>.\<close>

definition insert_plist :: "ptr \<Rightarrow> dhcps \<Rightarrow> dhcps option" where
  "insert_plist a s =
     do { (N, h) \<leftarrow> node_insert_to_list (nodes s) (pools s) (plist s) a;
          Some (s\<lparr>nodes := N, plist := h\<rparr>) }"

definition remove_plist :: "ptr \<Rightarrow> dhcps \<Rightarrow> dhcps option" where
  "remove_plist a s =
     do { (N, h) \<leftarrow> node_remove_from_list (nodes s) (plist s) a;
          Some (s\<lparr>nodes := N, plist := h\<rparr>) }"

text \<open>
  \<open>os_free (pback_node->pnode); pback_node->pnode = NULL; os_free (pback_node);\<close>
\<close>

definition free_node :: "ptr \<Rightarrow> dhcps \<Rightarrow> dhcps option" where
  "free_node a s =
     do { n \<leftarrow> deref (nodes s) a;
          P \<leftarrow> os_free (pools s) (pnode n);
          let N1 = (nodes s)(a \<mapsto> n\<lparr>pnode := NULL\<rparr>);
          N \<leftarrow> os_free N1 a;
          Some (s\<lparr>nodes := N, pools := P\<rparr>) }"

definition pool_of :: "dhcps \<Rightarrow> ptr \<Rightarrow> dhcps_pool option" where
  "pool_of s a = do { n \<leftarrow> deref (nodes s) a; deref (pools s) (pnode n) }"

definition set_pool :: "ptr \<Rightarrow> (dhcps_pool \<Rightarrow> dhcps_pool) \<Rightarrow> dhcps \<Rightarrow> dhcps option" where
  "set_pool b f s =
     do { v \<leftarrow> deref (pools s) b; Some (s\<lparr>pools := (pools s)(b \<mapsto> f v)\<rparr>) }"

section \<open>Adding a lease for a station\<close>

text \<open>
  The scan of \<open>wifi_softap_add_dhcps_lease\<close>: \<open>Some None\<close> when the MAC address is in the
  list, otherwise the start address advanced once per node.
\<close>

partial_function (option) add_lease_scan ::
  "dhcps \<Rightarrow> u8 list \<Rightarrow> u32 \<Rightarrow> ptr \<Rightarrow> u32 option option" where
  "add_lease_scan s macaddr start p =
     (if p = NULL then Some (Some start)
      else do { n \<leftarrow> deref (nodes s) p;
                v \<leftarrow> deref (pools s) (pnode n);
                if pool_mac v = macaddr then Some None
                else add_lease_scan s macaddr (next_ip start) (pnext n) })"

declare add_lease_scan.simps [code]

text \<open>\<open>pa\<close> and \<open>na\<close> are the addresses that the two \<open>os_zalloc\<close> calls return.\<close>

definition wifi_softap_add_dhcps_lease ::
  "ptr \<Rightarrow> ptr \<Rightarrow> u8 list \<Rightarrow> dhcps \<Rightarrow> (dhcps \<times> bool) option" where
  "wifi_softap_add_dhcps_lease pa na macaddr s =
     do { r \<leftarrow> add_lease_scan s macaddr (lease_start_ip (lease_range s)) (plist s);
          case r of
            None \<Rightarrow> Some (s, False)
          | Some start \<Rightarrow>
              if start > lease_end_ip (lease_range s) then Some (s, False)
              else do {
                let s1 = s\<lparr>pools := alloc (pools s) pa zero_pool\<rparr>;
                s2 \<leftarrow> set_pool pa (\<lambda>v. v\<lparr>pool_ip := start, pool_mac := macaddr,
                         lease_timer := dhcps_lease_time s, pool_type := DHCPS_TYPE_STATIC,
                         pool_state := DHCPS_STATE_ONLINE\<rparr>) s1;
                let s3 = s2\<lparr>nodes := alloc (nodes s2) na zero_node\<rparr>;
                n \<leftarrow> deref (nodes s3) na;
                s4 \<leftarrow> insert_plist na (s3\<lparr>nodes := (nodes s3)(na \<mapsto> n\<lparr>pnode := pa, pnext := NULL\<rparr>)\<rparr>);
                Some (s4, True) } }"

section \<open>The coarse timer\<close>

text \<open>
  The scan of \<open>kill_oldest_dhcps_pool\<close> for the smallest timer behind the head: it
  returns \<open>minpre\<close>, \<open>minp\<close> and the pool pointer that the last round leaves in
  \<open>pdhcps_pool\<close>.
\<close>

partial_function (option) kill_scan ::
  "dhcps \<Rightarrow> ptr \<Rightarrow> ptr \<Rightarrow> ptr \<Rightarrow> ptr \<Rightarrow> ptr \<Rightarrow> (ptr \<times> ptr \<times> ptr) option" where
  "kill_scan s pre p minpre minp lastp =
     (if p = NULL then Some (minpre, minp, lastp)
      else do { n \<leftarrow> deref (nodes s) p;
                m \<leftarrow> deref (nodes s) minp;
                v \<leftarrow> deref (pools s) (pnode n);
                w \<leftarrow> deref (pools s) (pnode m);
                if lease_timer v < lease_timer w
                then kill_scan s p (pnext n) pre p (pnode n)
                else kill_scan s p (pnext n) minpre minp (pnode n) })"

declare kill_scan.simps [code]

definition kill_oldest_dhcps_pool :: "dhcps \<Rightarrow> dhcps option" where
  "kill_oldest_dhcps_pool s =
     do { h \<leftarrow> deref (nodes s) (plist s);
          (minpre, minp, lastp) \<leftarrow> kill_scan s (plist s) (pnext h) (plist s) (pnext h) NULL;
          m \<leftarrow> deref (nodes s) minp;
          q \<leftarrow> deref (nodes s) minpre;
          s1 \<leftarrow> set_pool lastp (\<lambda>v. v\<lparr>pool_state := DHCPS_STATE_OFFLINE\<rparr>)
                  (s\<lparr>nodes := (nodes s)(minpre \<mapsto> q\<lparr>pnext := pnext m\<rparr>)\<rparr>);
          free_node minp s1 }"

partial_function (option) coarse_tmr_loop :: "dhcps \<Rightarrow> ptr \<Rightarrow> u8 \<Rightarrow> (dhcps \<times> u8) option" where
  "coarse_tmr_loop s p num =
     (if p = NULL then Some (s, num)
      else do { n \<leftarrow> deref (nodes s) p;
                s1 \<leftarrow> set_pool (pnode n)
                  (\<lambda>v. if pool_type v = DHCPS_TYPE_DYNAMIC
                       then v\<lparr>lease_timer := lease_timer v - 1\<rparr> else v) s;
                v \<leftarrow> deref (pools s1) (pnode n);
                if lease_timer v = 0
                then do { s2 \<leftarrow> remove_plist p s1;
                          s3 \<leftarrow> free_node p s2;
                          coarse_tmr_loop s3 (pnext n) num }
                else coarse_tmr_loop s1 (pnext n) (num + 1) })"

declare coarse_tmr_loop.simps [code]

definition dhcps_coarse_tmr :: "dhcps \<Rightarrow> dhcps option" where
  "dhcps_coarse_tmr s =
     do { (s1, num) \<leftarrow> coarse_tmr_loop s (plist s) 0;
          if num \<ge> MAX_STATION_NUM then kill_oldest_dhcps_pool s1 else Some s1 }"

section \<open>A station leaves\<close>

text \<open>The walk for the first node that satisfies a test on its lease.\<close>

partial_function (option) find_pool :: "dhcps \<Rightarrow> (dhcps_pool \<Rightarrow> bool) \<Rightarrow> ptr \<Rightarrow> ptr option" where
  "find_pool s test p =
     (if p = NULL then Some NULL
      else do { n \<leftarrow> deref (nodes s) p;
                v \<leftarrow> deref (pools s) (pnode n);
                if test v then Some p else find_pool s test (pnext n) })"

declare find_pool.simps [code]

text \<open>The arguments \<open>bssid\<close> and \<open>ip\<close> are pointers; \<open>None\<close> is NULL.\<close>

definition wifi_softap_dhcps_client_leave ::
  "u8 list option \<Rightarrow> u32 option \<Rightarrow> bool \<Rightarrow> dhcps \<Rightarrow> dhcps option" where
  "wifi_softap_dhcps_client_leave bssid ip force s =
     (case (bssid, ip) of
        (Some b, Some i) \<Rightarrow>
          do { p \<leftarrow> find_pool s (\<lambda>v. pool_mac v = b \<and> pool_ip v = i) (plist s);
               if p = NULL then Some s
               else do {
                 n \<leftarrow> deref (nodes s) p;
                 v \<leftarrow> deref (pools s) (pnode n);
                 s1 \<leftarrow> (if pool_type v = DHCPS_TYPE_STATIC \<or> force
                        then do { s1 \<leftarrow> remove_plist p s;
                                  N \<leftarrow> os_free (nodes s1) p;
                                  P \<leftarrow> os_free (pools s1) (pnode n);
                                  Some (s1\<lparr>nodes := N, pools := P\<rparr>) }
                        else set_pool (pnode n) (\<lambda>v. v\<lparr>pool_state := DHCPS_STATE_OFFLINE\<rparr>) s);
                 Some (dhcps_call (Set_station_info b 0) s1) } }
      | _ \<Rightarrow> Some s)"

section \<open>A station asks for an address\<close>

text \<open>
  The scan of \<open>wifi_softap_dhcps_client_update\<close>; the result holds \<open>flag\<close>, \<open>pmac_node\<close>,
  \<open>pip_node\<close> and \<open>start_ip\<close> when it ends.
\<close>

partial_function (option) client_update_scan ::
  "dhcps \<Rightarrow> u8 list \<Rightarrow> u32 option \<Rightarrow> bool \<Rightarrow> ptr \<Rightarrow> ptr \<Rightarrow> u32 \<Rightarrow> ptr
    \<Rightarrow> (bool \<times> ptr \<times> ptr \<times> u32) option" where
  "client_update_scan s bssid ip flag pmac pip start p =
     (if p = NULL then Some (flag, pmac, pip, start)
      else do {
        n \<leftarrow> deref (nodes s) p;
        v \<leftarrow> deref (pools s) (pnode n);
        if pool_mac v = bssid \<and> ip = None then Some (True, p, pip, start)
        else do {
          let pmac1 = (if pool_mac v = bssid then p else pmac);
          case ip of
            Some i \<Rightarrow> client_update_scan s bssid ip flag pmac1 (if pool_ip v = i then p else pip)
                        start (pnext n)
          | None \<Rightarrow>
              if \<not> flag
              then if pool_ip v \<noteq> start
                   then client_update_scan s bssid ip True pmac1 pip start (pnext n)
                   else client_update_scan s bssid ip flag pmac1 pip (next_ip start) (pnext n)
              else client_update_scan s bssid ip flag pmac1 pip start (pnext n) } })"

declare client_update_scan.simps [code]

text \<open>The assignments that put a lease (back) in use.\<close>

definition online :: "u32 \<Rightarrow> dhcps_type_t \<Rightarrow> dhcps_pool \<Rightarrow> dhcps_pool" where
  "online t ty v = v\<lparr>lease_timer := t, pool_type := ty, pool_state := DHCPS_STATE_ONLINE\<rparr>"

definition client_update_known ::
  "u8 list \<Rightarrow> u32 option \<Rightarrow> dhcps_type_t \<Rightarrow> bool \<Rightarrow> ptr \<Rightarrow> ptr \<Rightarrow> u32 \<Rightarrow> dhcps \<Rightarrow> (dhcps \<times> u32) option"
where
  "client_update_known bssid ip ty flag pmac pip start s =
     (if pip \<noteq> NULL
      then do {
        n \<leftarrow> deref (nodes s) pip;
        v \<leftarrow> deref (pools s) (pnode n);
        if pip \<noteq> pmac
        then if pool_state v \<noteq> DHCPS_STATE_OFFLINE then Some (s, IPADDR_ANY)
             else do {
               s1 \<leftarrow> remove_plist pmac s;
               s2 \<leftarrow> free_node pmac s1;
               s3 \<leftarrow> set_pool (pnode n) (\<lambda>v. online (dhcps_lease_time s) ty (v\<lparr>pool_mac := bssid\<rparr>)) s2;
               w \<leftarrow> deref (pools s3) (pnode n);
               Some (s3, pool_ip w) }
        else do {
          s1 \<leftarrow> set_pool (pnode n) (online (dhcps_lease_time s) DHCPS_TYPE_DYNAMIC) (s\<lparr>renew := True\<rparr>);
          Some (s1, pool_ip v) } }
      else do {
        n \<leftarrow> deref (nodes s) pmac;
        case (case ip of Some i \<Rightarrow> Some i | None \<Rightarrow> if flag then Some start else None) of
          None \<Rightarrow> Some (s, IPADDR_ANY)
        | Some a \<Rightarrow> do {
            s1 \<leftarrow> set_pool (pnode n) (\<lambda>v. v\<lparr>pool_ip := a\<rparr>) s;
            s2 \<leftarrow> remove_plist pmac s1;
            s3 \<leftarrow> set_pool (pnode n) (online (dhcps_lease_time s) ty) s2;
            s4 \<leftarrow> insert_plist pmac s3;
            w \<leftarrow> deref (pools s4) (pnode n);
            Some (s4, pool_ip w) } })"

definition client_update_new ::
  "ptr \<Rightarrow> ptr \<Rightarrow> u8 list \<Rightarrow> u32 option \<Rightarrow> dhcps_type_t \<Rightarrow> bool \<Rightarrow> ptr \<Rightarrow> u32 \<Rightarrow> dhcps
    \<Rightarrow> (dhcps \<times> u32) option"
where
  "client_update_new pa na bssid ip ty flag pip start s =
     (if pip \<noteq> NULL
      then do {
        n \<leftarrow> deref (nodes s) pip;
        v \<leftarrow> deref (pools s) (pnode n);
        if pool_state v \<noteq> DHCPS_STATE_OFFLINE then Some (s, IPADDR_ANY)
        else do {
          s1 \<leftarrow> set_pool (pnode n) (\<lambda>v. online (dhcps_lease_time s) ty (v\<lparr>pool_mac := bssid\<rparr>)) s;
          Some (s1, pool_ip v) } }
      else do {
        let s1 = s\<lparr>pools := alloc (pools s) pa zero_pool\<rparr>;
        case (case ip of Some i \<Rightarrow> Some i | None \<Rightarrow> if flag then Some start else None) of
          None \<Rightarrow> do { P \<leftarrow> os_free (pools s1) pa; Some (s1\<lparr>pools := P\<rparr>, IPADDR_ANY) }
        | Some a \<Rightarrow> do {
            s2 \<leftarrow> set_pool pa (\<lambda>v. v\<lparr>pool_ip := a\<rparr>) s1;
            if a > lease_end_ip (lease_range s)
            then do { P \<leftarrow> os_free (pools s2) pa; Some (s2\<lparr>pools := P\<rparr>, IPADDR_ANY) }
            else do {
              s3 \<leftarrow> set_pool pa (\<lambda>v. online (dhcps_lease_time s) ty (v\<lparr>pool_mac := bssid\<rparr>)) s2;
              let s4 = s3\<lparr>nodes := alloc (nodes s3) na zero_node\<rparr>;
              n \<leftarrow> deref (nodes s4) na;
              s5 \<leftarrow> insert_plist na (s4\<lparr>nodes := (nodes s4)(na \<mapsto> n\<lparr>pnode := pa, pnext := NULL\<rparr>)\<rparr>);
              w \<leftarrow> deref (pools s5) pa;
              Some (s5, pool_ip w) } } })"

definition wifi_softap_dhcps_client_update ::
  "ptr \<Rightarrow> ptr \<Rightarrow> u8 list option \<Rightarrow> u32 option \<Rightarrow> dhcps \<Rightarrow> (dhcps \<times> u32) option" where
  "wifi_softap_dhcps_client_update pa na bssid ip s =
     (case bssid of
        None \<Rightarrow> Some (s, IPADDR_ANY)
      | Some b \<Rightarrow>
          if ip = Some IPADDR_BROADCAST then Some (s, IPADDR_ANY)
          else do {
            let ip1 = (if ip = Some IPADDR_ANY then None else ip);
            let ty = (if ip1 = None then DHCPS_TYPE_DYNAMIC else DHCPS_TYPE_STATIC);
            let s1 = s\<lparr>renew := False\<rparr>;
            (flag, pmac, pip, start) \<leftarrow>
              client_update_scan s1 b ip1 False NULL NULL (lease_start_ip (lease_range s)) (plist s);
            if ip1 = None \<and> \<not> flag \<and> start > lease_end_ip (lease_range s) then Some (s1, IPADDR_ANY)
            else do {
              let flag1 = (flag \<or> ip1 = None);
              if pmac \<noteq> NULL then client_update_known b ip1 ty flag1 pmac pip start s1
              else client_update_new pa na b ip1 ty flag1 pip start s1 } })"

end
