(* ===== verification/Dhcp_Message.thy ===== *)
theory Dhcp_Message
  imports Dhcp_Pool
begin

text \<open>
  DHCP messages (\<^verbatim>\<open>glue-lwip/esp-dhcpserver.c\<close>, \<^verbatim>\<open>dhcpserver.h\<close>): the layout of
  \<open>struct dhcps_msg\<close>, the functions that write a reply (\<open>create_msg\<close>, \<open>add_msg_type\<close>,
  \<open>add_offer_options\<close>, \<open>add_end\<close>) and the option parser \<open>parse_options\<close>. A write or a
  read outside the \<open>options\<close> array is undefined (\<open>None\<close>). The reference is the
  type-length-value format of RFC 2132 (\<open>encode\<close>): the options that are written are the
  encoding of a list of options, and the parser is proved to fold over such a list.
\<close>

section \<open>The message\<close>

record dhcps_msg =
  msg_op :: u8
  msg_htype :: u8
  msg_hlen :: u8
  msg_hops :: u8
  msg_xid :: "u8 list"
  msg_secs :: u16
  msg_flags :: u16
  msg_ciaddr :: "u8 list"
  msg_yiaddr :: "u8 list"
  msg_siaddr :: "u8 list"
  msg_giaddr :: "u8 list"
  msg_chaddr :: "u8 list"
  msg_sname :: "u8 list"
  msg_file :: "u8 list"
  msg_options :: "u8 list"

definition DHCP_REPLY :: u8 where "DHCP_REPLY = 2"
definition DHCP_HTYPE_ETHERNET :: u8 where "DHCP_HTYPE_ETHERNET = 1"
definition BOOTP_BROADCAST :: u16 where "BOOTP_BROADCAST = 0x8000"
definition DHCPS_CLIENT_PORT :: u16 where "DHCPS_CLIENT_PORT = 68"
definition DHCPS_SERVER_PORT :: u16 where "DHCPS_SERVER_PORT = 67"

definition DHCPDISCOVER :: u8 where "DHCPDISCOVER = 1"
definition DHCPOFFER :: u8 where "DHCPOFFER = 2"
definition DHCPREQUEST :: u8 where "DHCPREQUEST = 3"
definition DHCPDECLINE :: u8 where "DHCPDECLINE = 4"
definition DHCPACK :: u8 where "DHCPACK = 5"
definition DHCPNAK :: u8 where "DHCPNAK = 6"
definition DHCPRELEASE :: u8 where "DHCPRELEASE = 7"

definition DHCP_OPTION_SUBNET_MASK :: u8 where "DHCP_OPTION_SUBNET_MASK = 1"
definition DHCP_OPTION_ROUTER :: u8 where "DHCP_OPTION_ROUTER = 3"
definition DHCP_OPTION_DNS_SERVER :: u8 where "DHCP_OPTION_DNS_SERVER = 6"
definition DHCP_OPTION_REQ_IPADDR :: u8 where "DHCP_OPTION_REQ_IPADDR = 50"
definition DHCP_OPTION_LEASE_TIME :: u8 where "DHCP_OPTION_LEASE_TIME = 51"
definition DHCP_OPTION_MSG_TYPE :: u8 where "DHCP_OPTION_MSG_TYPE = 53"
definition DHCP_OPTION_SERVER_ID :: u8 where "DHCP_OPTION_SERVER_ID = 54"
definition DHCP_OPTION_INTERFACE_MTU :: u8 where "DHCP_OPTION_INTERFACE_MTU = 26"
definition DHCP_OPTION_PERFORM_ROUTER_DISCOVERY :: u8 where "DHCP_OPTION_PERFORM_ROUTER_DISCOVERY = 31"
definition DHCP_OPTION_BROADCAST_ADDRESS :: u8 where "DHCP_OPTION_BROADCAST_ADDRESS = 28"
definition DHCP_OPTION_END :: u8 where "DHCP_OPTION_END = 255"

lemmas option_codes = DHCP_OPTION_SUBNET_MASK_def DHCP_OPTION_ROUTER_def DHCP_OPTION_DNS_SERVER_def
  DHCP_OPTION_REQ_IPADDR_def DHCP_OPTION_LEASE_TIME_def DHCP_OPTION_MSG_TYPE_def
  DHCP_OPTION_SERVER_ID_def DHCP_OPTION_INTERFACE_MTU_def DHCP_OPTION_PERFORM_ROUTER_DISCOVERY_def
  DHCP_OPTION_BROADCAST_ADDRESS_def DHCP_OPTION_END_def

lemmas message_types = DHCPDISCOVER_def DHCPOFFER_def DHCPREQUEST_def DHCPDECLINE_def DHCPACK_def
  DHCPNAK_def DHCPRELEASE_def

definition magic_cookie :: u32 where "magic_cookie = 0x63538263"

text \<open>The bytes of a message in memory (548 of them, without padding), and back.\<close>

definition bytes2 :: "u16 \<Rightarrow> u8 list" where
  "bytes2 w = [ucast w, ucast (drop_bit 8 w)]"

definition word2 :: "u8 list \<Rightarrow> u16" where
  "word2 bs = ucast (bs ! 0) OR push_bit 8 (ucast (bs ! 1))"

definition msg_bytes :: "dhcps_msg \<Rightarrow> u8 list" where
  "msg_bytes m = [msg_op m, msg_htype m, msg_hlen m, msg_hops m] @ msg_xid m
     @ bytes2 (msg_secs m) @ bytes2 (msg_flags m) @ msg_ciaddr m @ msg_yiaddr m @ msg_siaddr m
     @ msg_giaddr m @ msg_chaddr m @ msg_sname m @ msg_file m @ msg_options m"

definition slice :: "nat \<Rightarrow> nat \<Rightarrow> 'a list \<Rightarrow> 'a list" where
  "slice i n xs = take n (drop i xs)"

definition msg_of_bytes :: "u8 list \<Rightarrow> dhcps_msg" where
  "msg_of_bytes bs = \<lparr>msg_op = bs ! 0, msg_htype = bs ! 1, msg_hlen = bs ! 2, msg_hops = bs ! 3,
     msg_xid = slice 4 4 bs, msg_secs = word2 (slice 8 2 bs), msg_flags = word2 (slice 10 2 bs),
     msg_ciaddr = slice 12 4 bs, msg_yiaddr = slice 16 4 bs, msg_siaddr = slice 20 4 bs,
     msg_giaddr = slice 24 4 bs, msg_chaddr = slice 28 16 bs, msg_sname = slice 44 64 bs,
     msg_file = slice 108 128 bs, msg_options = slice 236 312 bs\<rparr>"

definition MSG_SIZE :: nat where "MSG_SIZE = 548"

definition msg_ok :: "dhcps_msg \<Rightarrow> bool" where
  "msg_ok m \<longleftrightarrow> length (msg_xid m) = 4 \<and> length (msg_ciaddr m) = 4 \<and> length (msg_yiaddr m) = 4
     \<and> length (msg_siaddr m) = 4 \<and> length (msg_giaddr m) = 4 \<and> length (msg_chaddr m) = 16
     \<and> length (msg_sname m) = 64 \<and> length (msg_file m) = 128 \<and> length (msg_options m) = 312"

section \<open>Writing a reply\<close>

text \<open>\<^verbatim>\<open>*optptr++ = b\<close> on the options array; the pointer is an offset.\<close>

definition put_byte :: "u8 \<Rightarrow> u8 list \<times> nat \<Rightarrow> (u8 list \<times> nat) option" where
  "put_byte b s = (if snd s < length (fst s) then Some ((fst s)[snd s := b], snd s + 1) else None)"

fun put_bytes :: "u8 list \<Rightarrow> u8 list \<times> nat \<Rightarrow> (u8 list \<times> nat) option" where
  "put_bytes [] s = Some s"
| "put_bytes (b # bs) s = Option.bind (put_byte b s) (put_bytes bs)"

definition add_msg_type :: "u8 \<Rightarrow> u8 list \<times> nat \<Rightarrow> (u8 list \<times> nat) option" where
  "add_msg_type type = put_bytes [DHCP_OPTION_MSG_TYPE, 1, type]"

text \<open>What \<open>wifi_get_ip_info\<close> of the SDK reports for an interface.\<close>

record ip_info =
  info_ip :: u32
  info_netmask :: u32
  info_gw :: u32

definition OFFER_ROUTER :: u8 where "OFFER_ROUTER = 1"

definition dhcps_router_enabled :: "u8 \<Rightarrow> bool" where
  "dhcps_router_enabled off \<longleftrightarrow> off AND OFFER_ROUTER \<noteq> 0"

definition add_offer_options ::
  "ip_info \<Rightarrow> dhcps \<Rightarrow> u8 list \<times> nat \<Rightarrow> (u8 list \<times> nat) option" where
  "add_offer_options if_ip s st =
     (let ipadd = server_address s; t = dhcps_lease_time s * 60 in
      do { st \<leftarrow> put_bytes [DHCP_OPTION_SUBNET_MASK, 4,
                   ip4_addr1 (info_netmask if_ip), ip4_addr2 (info_netmask if_ip),
                   ip4_addr3 (info_netmask if_ip), ip4_addr4 (info_netmask if_ip)] st;
           st \<leftarrow> put_bytes [DHCP_OPTION_LEASE_TIME, 4,
                   ucast (drop_bit 24 t AND 0xff), ucast (drop_bit 16 t AND 0xff),
                   ucast (drop_bit 8 t AND 0xff), ucast (t AND 0xff)] st;
           st \<leftarrow> put_bytes [DHCP_OPTION_SERVER_ID, 4, ip4_addr1 ipadd, ip4_addr2 ipadd,
                   ip4_addr3 ipadd, ip4_addr4 ipadd] st;
           st \<leftarrow> (if dhcps_router_enabled (offer s)
                  then put_bytes [DHCP_OPTION_ROUTER, 4, ip4_addr1 (info_gw if_ip),
                         ip4_addr2 (info_gw if_ip), ip4_addr3 (info_gw if_ip),
                         ip4_addr4 (info_gw if_ip)] st
                  else Some st);
           st \<leftarrow> put_bytes [DHCP_OPTION_DNS_SERVER, 4] st;
           st \<leftarrow> (if dns_address s = 0
                  then put_bytes [ip4_addr1 ipadd, ip4_addr2 ipadd, ip4_addr3 ipadd, ip4_addr4 ipadd] st
                  else put_bytes [ip4_addr1 (dns_address s), ip4_addr2 (dns_address s),
                         ip4_addr3 (dns_address s), ip4_addr4 (dns_address s)] st);
           st \<leftarrow> put_bytes [DHCP_OPTION_BROADCAST_ADDRESS, 4, ip4_addr1 ipadd, ip4_addr2 ipadd,
                   ip4_addr3 ipadd, 255] st;
           st \<leftarrow> put_bytes [DHCP_OPTION_INTERFACE_MTU, 2, 0x02, 0x40] st;
           put_bytes [DHCP_OPTION_PERFORM_ROUTER_DISCOVERY, 1, 0x00] st })"

definition add_end :: "u8 list \<times> nat \<Rightarrow> (u8 list \<times> nat) option" where
  "add_end = put_bytes [DHCP_OPTION_END]"

definition create_msg :: "dhcps \<Rightarrow> dhcps_msg \<Rightarrow> dhcps_msg" where
  "create_msg s m = m\<lparr>msg_op := DHCP_REPLY, msg_htype := DHCP_HTYPE_ETHERNET, msg_hlen := 6,
     msg_hops := 0, msg_secs := 0, msg_flags := htons BOOTP_BROADCAST,
     msg_yiaddr := bytes4 (client_address s), msg_ciaddr := replicate 4 0,
     msg_siaddr := replicate 4 0, msg_giaddr := replicate 4 0, msg_sname := replicate 64 0,
     msg_file := replicate 128 0, msg_options := bytes4 magic_cookie @ replicate 308 0\<rparr>"

section \<open>Parsing the options\<close>

definition DHCPS_STATE_OFFER :: int where "DHCPS_STATE_OFFER = 1"
definition DHCPS_STATE_DECLINE :: int where "DHCPS_STATE_DECLINE = 2"
definition DHCPS_STATE_ACK :: int where "DHCPS_STATE_ACK = 3"
definition DHCPS_STATE_NAK :: int where "DHCPS_STATE_NAK = 4"
definition DHCPS_STATE_IDLE :: int where "DHCPS_STATE_IDLE = 5"
definition DHCPS_STATE_RELEASE :: int where "DHCPS_STATE_RELEASE = 6"

lemmas reply_states = DHCPS_STATE_OFFER_def DHCPS_STATE_DECLINE_def DHCPS_STATE_ACK_def
  DHCPS_STATE_NAK_def DHCPS_STATE_IDLE_def DHCPS_STATE_RELEASE_def

text \<open>
  The loop over the options: \<open>off\<close> is \<open>optptr\<close>, \<open>lim\<close> is \<open>end\<close>, both as offsets into the
  array; the result holds \<open>type\<close> and \<open>s.state\<close>.
\<close>

function parse_loop ::
  "u32 \<Rightarrow> u8 list \<Rightarrow> int \<Rightarrow> nat \<Rightarrow> u16 \<Rightarrow> int \<Rightarrow> (u16 \<times> int) option" where
  "parse_loop client opts lim off type st =
     (if \<not> int off < lim then Some (type, st)
      else do {
        c \<leftarrow> arr_get opts off;
        (type1, st1) \<leftarrow>
          (if c = DHCP_OPTION_MSG_TYPE
           then do { t \<leftarrow> arr_get opts (off + 2); Some (ucast t, st) }
           else if c = DHCP_OPTION_REQ_IPADDR
           then do { a \<leftarrow> arr_read opts (off + 2) 4;
                     Some (type, if bytes4 client = a then DHCPS_STATE_ACK else DHCPS_STATE_NAK) }
           else Some (type, st));
        if c = DHCP_OPTION_END then Some (type1, st1)
        else do { l \<leftarrow> arr_get opts (off + 1);
                  parse_loop client opts lim (off + unat l + 2) type1 st1 } })"
  by pat_completeness auto
termination
  by (relation "measure (\<lambda>(client, opts, lim, off, type, st). nat (lim - int off))")
    (auto intro: le_less_trans [of _ 0 2])

declare parse_loop.simps [simp del]

definition parse_options :: "dhcps \<Rightarrow> u8 list \<Rightarrow> nat \<Rightarrow> int \<Rightarrow> int option" where
  "parse_options s opts optptr len =
     do { (type, st) \<leftarrow>
            parse_loop (client_address s) opts (int optptr + len) optptr 0 DHCPS_STATE_IDLE;
          Some (if type = ucast DHCPDISCOVER then DHCPS_STATE_OFFER
                else if type = ucast DHCPREQUEST
                then (if \<not> (st = DHCPS_STATE_ACK \<or> st = DHCPS_STATE_NAK)
                      then (if renew s then DHCPS_STATE_ACK else DHCPS_STATE_NAK) else st)
                else if type = ucast DHCPDECLINE then DHCPS_STATE_IDLE
                else if type = ucast DHCPRELEASE then DHCPS_STATE_RELEASE
                else st) }"

section \<open>The option format\<close>

type_synonym dhcp_option = "u8 \<times> u8 list"

definition encode :: "dhcp_option \<Rightarrow> u8 list" where
  "encode o' = fst o' # of_nat (length (snd o')) # snd o'"

definition encode_all :: "dhcp_option list \<Rightarrow> u8 list" where
  "encode_all os = concat (map encode os)"

lemma encode_all_simps [simp]:
  "encode_all [] = []" "encode_all (x # os) = encode x @ encode_all os"
  "encode_all (os @ os') = encode_all os @ encode_all os'"
  by (simp_all add: encode_all_def)

subsection \<open>Writing\<close>

lemma put_bytes_append:
  "length bs \<le> length zs \<Longrightarrow>
   put_bytes bs (xs @ zs, length xs) = Some (xs @ bs @ drop (length bs) zs, length xs + length bs)"
proof (induction bs arbitrary: xs zs)
  case (Cons b bs)
  then obtain z zs' where zs: "zs = z # zs'" by (cases zs) auto
  have "put_bytes bs ((xs @ [b]) @ zs', length (xs @ [b]))
      = Some ((xs @ [b]) @ bs @ drop (length bs) zs', length (xs @ [b]) + length bs)"
    using Cons.prems zs by (intro Cons.IH) simp
  then show ?case by (simp add: put_byte_def zs)
qed simp

text \<open>\<open>writes f bs\<close>: \<open>f\<close> stores the bytes \<open>bs\<close> and advances the pointer behind them.\<close>

definition writes :: "(u8 list \<times> nat \<Rightarrow> (u8 list \<times> nat) option) \<Rightarrow> u8 list \<Rightarrow> bool" where
  "writes f bs \<longleftrightarrow> (\<forall>xs zs. length bs \<le> length zs \<longrightarrow>
     f (xs @ zs, length xs) = Some (xs @ bs @ drop (length bs) zs, length xs + length bs))"

lemma writes_put [intro]: "writes (put_bytes bs) bs"
  by (simp add: writes_def put_bytes_append)

lemma writes_Some [intro]: "writes Some []"
  by (simp add: writes_def)

lemma writes_bind [intro]:
  assumes "writes f bs" "writes g cs"
  shows "writes (\<lambda>st. Option.bind (f st) g) (bs @ cs)"
proof -
  have "Option.bind (f (xs @ zs, length xs)) g
      = Some (xs @ (bs @ cs) @ drop (length (bs @ cs)) zs, length xs + length (bs @ cs))"
    if "length (bs @ cs) \<le> length zs" for xs zs
  proof -
    have "f (xs @ zs, length xs) = Some ((xs @ bs) @ drop (length bs) zs, length (xs @ bs))"
      using assms(1) that by (simp add: writes_def)
    moreover have "length cs \<le> length (drop (length bs) zs)" using that by simp
    then have "g ((xs @ bs) @ drop (length bs) zs, length (xs @ bs))
      = Some ((xs @ bs) @ cs @ drop (length cs) (drop (length bs) zs), length (xs @ bs) + length cs)"
      using assms(2) unfolding writes_def by blast
    ultimately show ?thesis by (simp add: add.commute)
  qed
  then show ?thesis by (simp add: writes_def)
qed

lemma writes_if [intro]:
  "writes f bs \<Longrightarrow> writes g cs \<Longrightarrow> writes (\<lambda>st. if b then f st else g st) (if b then bs else cs)"
  by simp

text \<open>The options of an offer or an acknowledgement.\<close>

definition offer_options :: "ip_info \<Rightarrow> dhcps \<Rightarrow> dhcp_option list" where
  "offer_options if_ip s =
     [(DHCP_OPTION_SUBNET_MASK, bytes4 (info_netmask if_ip)),
      (DHCP_OPTION_LEASE_TIME, rev (bytes4 (dhcps_lease_time s * 60))),
      (DHCP_OPTION_SERVER_ID, bytes4 (server_address s))]
     @ (if dhcps_router_enabled (offer s) then [(DHCP_OPTION_ROUTER, bytes4 (info_gw if_ip))] else [])
     @ [(DHCP_OPTION_DNS_SERVER,
          bytes4 (if dns_address s = 0 then server_address s else dns_address s)),
        (DHCP_OPTION_BROADCAST_ADDRESS, take 3 (bytes4 (server_address s)) @ [255]),
        (DHCP_OPTION_INTERFACE_MTU, [0x02, 0x40]),
        (DHCP_OPTION_PERFORM_ROUTER_DISCOVERY, [0])]"

lemma ucast_mask_byte: "ucast (w AND 0xff :: u32) = (ucast w :: u8)"
  unfolding masks32 by (rule bit_word_eqI) (simp add: bit_simps)

lemma lease_time_bytes:
  "[ucast (drop_bit 24 t AND 0xff), ucast (drop_bit 16 t AND 0xff), ucast (drop_bit 8 t AND 0xff),
    ucast (t AND 0xff)] = rev (bytes4 t)"
  by (simp add: bytes4_def ip4_defs ucast_mask_byte)

lemma add_offer_options_writes: "writes (add_offer_options if_ip s) (encode_all (offer_options if_ip s))"
proof -
  let ?t = "dhcps_lease_time s * 60" and ?sa = "server_address s"
  have "writes (add_offer_options if_ip s)
    ([DHCP_OPTION_SUBNET_MASK, 4, ip4_addr1 (info_netmask if_ip), ip4_addr2 (info_netmask if_ip),
        ip4_addr3 (info_netmask if_ip), ip4_addr4 (info_netmask if_ip)]
     @ [DHCP_OPTION_LEASE_TIME, 4, ucast (drop_bit 24 ?t AND 0xff), ucast (drop_bit 16 ?t AND 0xff),
        ucast (drop_bit 8 ?t AND 0xff), ucast (?t AND 0xff)]
     @ [DHCP_OPTION_SERVER_ID, 4, ip4_addr1 ?sa, ip4_addr2 ?sa, ip4_addr3 ?sa, ip4_addr4 ?sa]
     @ (if dhcps_router_enabled (offer s)
        then [DHCP_OPTION_ROUTER, 4, ip4_addr1 (info_gw if_ip), ip4_addr2 (info_gw if_ip),
              ip4_addr3 (info_gw if_ip), ip4_addr4 (info_gw if_ip)] else [])
     @ [DHCP_OPTION_DNS_SERVER, 4]
     @ (if dns_address s = 0 then [ip4_addr1 ?sa, ip4_addr2 ?sa, ip4_addr3 ?sa, ip4_addr4 ?sa]
        else [ip4_addr1 (dns_address s), ip4_addr2 (dns_address s), ip4_addr3 (dns_address s),
              ip4_addr4 (dns_address s)])
     @ [DHCP_OPTION_BROADCAST_ADDRESS, 4, ip4_addr1 ?sa, ip4_addr2 ?sa, ip4_addr3 ?sa, 255]
     @ [DHCP_OPTION_INTERFACE_MTU, 2, 0x02, 0x40]
     @ [DHCP_OPTION_PERFORM_ROUTER_DISCOVERY, 1, 0x00])"
    unfolding add_offer_options_def Let_def by (intro writes_bind writes_put writes_if writes_Some)
  then show ?thesis
    by (simp add: offer_options_def encode_def bytes4_def ip4_defs ucast_mask_byte numeral_eq_Suc split: if_splits)
qed

lemma length_offer_options: "length (encode_all (offer_options if_ip s)) \<le> 43"
  by (simp add: offer_options_def encode_def bytes4_def)

subsection \<open>Parsing\<close>

text \<open>What one option does to \<open>type\<close> and \<open>s.state\<close>.\<close>

definition option_step :: "u32 \<Rightarrow> u16 \<times> int \<Rightarrow> dhcp_option \<Rightarrow> u16 \<times> int" where
  "option_step client ts o' =
     (if fst o' = DHCP_OPTION_MSG_TYPE then (ucast (hd (snd o')), snd ts)
      else if fst o' = DHCP_OPTION_REQ_IPADDR
      then (fst ts, if snd o' = bytes4 client then DHCPS_STATE_ACK else DHCPS_STATE_NAK)
      else ts)"

definition option_ok :: "dhcp_option \<Rightarrow> bool" where
  "option_ok o' \<longleftrightarrow> fst o' \<noteq> DHCP_OPTION_END \<and> length (snd o') < 256
     \<and> (fst o' = DHCP_OPTION_MSG_TYPE \<longrightarrow> snd o' \<noteq> [])
     \<and> (fst o' = DHCP_OPTION_REQ_IPADDR \<longrightarrow> length (snd o') = 4)"

lemma parse_loop_encode:
  assumes "\<forall>x\<in>set os. option_ok x"
  shows "int (length xs + length (encode_all os)) < lim \<Longrightarrow>
    parse_loop client (xs @ encode_all os @ DHCP_OPTION_END # zs) lim (length xs) type st
      = Some (foldl (option_step client) (type, st) os)"
  using assms
proof (induction os arbitrary: xs type st)
  case Nil
  then show ?case
    by (subst parse_loop.simps) (simp add: arr_get_def option_codes)
next
  case (Cons x os)
  obtain c d where x: "x = (c, d)" by (cases x)
  have ok: "c \<noteq> DHCP_OPTION_END" "length d < 256" "c = DHCP_OPTION_MSG_TYPE \<longrightarrow> d \<noteq> []"
    "c = DHCP_OPTION_REQ_IPADDR \<longrightarrow> length d = 4"
    using Cons.prems(2) x by (auto simp: option_ok_def)
  let ?all = "xs @ c # of_nat (length d) # d @ encode_all os @ DHCP_OPTION_END # zs"
  have g: "arr_get ?all (length xs) = Some c" "arr_get ?all (length xs + 1) = Some (of_nat (length d))"
    by (simp_all add: arr_get_def nth_append)
  have t: "arr_get ?all (length xs + 2) = Some (hd d)" if "c = DHCP_OPTION_MSG_TYPE"
    using that ok by (cases d) (simp_all add: arr_get_def nth_append)
  have a: "arr_read ?all (length xs + 2) 4 = Some d" if "c = DHCP_OPTION_REQ_IPADDR"
    using that ok by (simp add: arr_read_def)
  have l: "unat (of_nat (length d) :: u8) = length d" using ok(2) by (simp add: unat_of_nat)
  let ?ts = "option_step client (type, st) x"
  have "parse_loop client ?all lim (length xs) type st
      = parse_loop client ?all lim (length xs + length d + 2) (fst ?ts) (snd ?ts)"
    using Cons.prems(1) ok(1) g t a l x
    by (subst parse_loop.simps) (auto simp: option_step_def encode_def option_codes)
  also have "\<dots> = parse_loop client ((xs @ encode x) @ encode_all os @ DHCP_OPTION_END # zs) lim
      (length (xs @ encode x)) (fst ?ts) (snd ?ts)"
    by (simp add: x encode_def)
  also have "\<dots> = Some (foldl (option_step client) ?ts os)"
    using Cons.prems by (subst Cons.IH) (simp_all add: x encode_def)
  finally show ?case by (simp add: x encode_def)
qed

subsection \<open>Bytes and messages\<close>

lemma length_msg_bytes: "msg_ok m \<Longrightarrow> length (msg_bytes m) = MSG_SIZE"
  by (simp add: msg_ok_def msg_bytes_def bytes2_def MSG_SIZE_def)

lemma word2_bytes2: "word2 (bytes2 w) = w"
proof (rule bit_word_eqI)
  fix n assume "n < LENGTH(16)"
  then show "bit (word2 (bytes2 w)) n = bit w n"
    by (cases "n < 8") (auto simp: word2_def bytes2_def bit_simps high_bit8 not_less)
qed

lemma slice_skip: "slice (length xs + i) n (xs @ ys) = slice i n ys"
  by (simp add: slice_def)

lemma slice_append: "slice (length xs) n (xs @ ys) = take n ys"
  by (simp add: slice_def)

lemma msg_of_bytes_inverse:
  assumes "msg_ok m"
  shows "msg_of_bytes (msg_bytes m) = m"
  using assms
  by (cases m) (simp add: msg_ok_def msg_of_bytes_def msg_bytes_def slice_def bytes2_def
      word2_bytes2 [unfolded bytes2_def])

lemma msg_of_bytes_ok: "length bs = MSG_SIZE \<Longrightarrow> msg_ok (msg_of_bytes bs)"
  by (simp add: msg_ok_def msg_of_bytes_def slice_def MSG_SIZE_def)

lemma create_msg_ok: "msg_ok m \<Longrightarrow> msg_ok (create_msg s m)"
  by (simp add: msg_ok_def create_msg_def)

section \<open>Properties\<close>

text \<open>
  C22: On an options field in the type-length-value format of RFC 2132 that ends inside
  the received length, \<open>parse_options\<close> reads inside the field, terminates, and decides
  from the options alone: the last message type counts, and the last requested address
  is compared with the client's.
\<close>

theorem parse_options_spec:
  assumes "\<forall>x\<in>set os. option_ok x" "int (length (encode_all os)) < len"
    and "(type, st) = foldl (option_step (client_address s)) (0, DHCPS_STATE_IDLE) os"
  shows "parse_options s (bytes4 magic_cookie @ encode_all os @ DHCP_OPTION_END # zs) 4 len =
    Some (if type = 1 then DHCPS_STATE_OFFER
          else if type = 3
          then (if st \<in> {DHCPS_STATE_ACK, DHCPS_STATE_NAK} then st
                else if renew s then DHCPS_STATE_ACK else DHCPS_STATE_NAK)
          else if type = 4 then DHCPS_STATE_IDLE
          else if type = 7 then DHCPS_STATE_RELEASE else st)"
proof -
  have "parse_loop (client_address s) (bytes4 magic_cookie @ encode_all os @ DHCP_OPTION_END # zs)
      (4 + len) (length (bytes4 magic_cookie)) 0 DHCPS_STATE_IDLE = Some (type, st)"
    unfolding assms(3) using assms(1,2) by (intro parse_loop_encode) simp_all
  then show ?thesis by (auto simp: parse_options_def message_types)
qed

theorem parse_options_witness:
  "parse_options (dhcps_init\<lparr>client_address := 5\<rparr>)
     (bytes4 magic_cookie @ [53, 1, 3, 50, 4, 5, 0, 0, 0] @ [255]) 4 10 = Some DHCPS_STATE_ACK"
proof -
  let ?os = "[(53, [3]), (50, [5, 0, 0, 0])]" and ?s = "dhcps_init\<lparr>client_address := 5\<rparr>"
  have "foldl (option_step (client_address ?s)) (0, DHCPS_STATE_IDLE) ?os = (3, DHCPS_STATE_ACK)"
    by code_simp
  moreover have "\<forall>x\<in>set ?os. option_ok x" by (simp add: option_ok_def option_codes)
  moreover have e: "encode_all ?os = [53, 1, 3, 50, 4, 5, 0, 0, 0]" by (simp add: encode_def)
  ultimately show ?thesis
    using parse_options_spec [of ?os 10 3 DHCPS_STATE_ACK ?s "[]"] e
    by (simp add: DHCP_OPTION_END_def)
qed

text \<open>
  C23: The options of an offer or acknowledgement fit the options field whatever the
  configuration, and are the type-length-value encoding of the message type, the subnet
  mask, the lease time in seconds (most significant byte first), the server identifier,
  the router (when enabled), the DNS server, the broadcast address, the MTU and the
  router-discovery flag, in that order, closed by the end option and zeros.
\<close>

theorem offer_options_written:
  "\<exists>k. (do { st \<leftarrow> add_msg_type t (msg_options (create_msg s m), 4);
             st \<leftarrow> add_offer_options if_ip s st;
             add_end st })
   = Some (bytes4 magic_cookie @ encode_all ((DHCP_OPTION_MSG_TYPE, [t]) # offer_options if_ip s)
             @ DHCP_OPTION_END # replicate k 0, 312 - k)
   \<and> length (encode_all (offer_options if_ip s)) + k = 304"
proof -
  let ?os = "encode_all (offer_options if_ip s)" and ?bs = "[DHCP_OPTION_MSG_TYPE, 1, t]"
  define k where "k = 304 - length ?os"
  have len: "length ?os \<le> 43" by (rule length_offer_options)
  have "writes (\<lambda>st. Option.bind (add_msg_type t st) (\<lambda>st. Option.bind (add_offer_options if_ip s st) add_end))
      (?bs @ ?os @ [DHCP_OPTION_END])"
    unfolding add_msg_type_def add_end_def
    by (intro writes_bind writes_put add_offer_options_writes)
  moreover have "length (?bs @ ?os @ [DHCP_OPTION_END]) \<le> length (replicate 308 (0 :: u8))"
    using len by simp
  ultimately have "Option.bind (add_msg_type t (bytes4 magic_cookie @ replicate 308 0, length (bytes4 magic_cookie)))
      (\<lambda>st. Option.bind (add_offer_options if_ip s st) add_end)
    = Some (bytes4 magic_cookie @ (?bs @ ?os @ [DHCP_OPTION_END])
        @ drop (length (?bs @ ?os @ [DHCP_OPTION_END])) (replicate 308 0),
        length (bytes4 magic_cookie) + length (?bs @ ?os @ [DHCP_OPTION_END]))"
    unfolding writes_def by blast
  then show ?thesis
    using len by (intro exI [of _ k]) (auto simp: k_def create_msg_def encode_def drop_replicate)
qed


end
