(* ===== verification/Lease_Table.thy ===== *)
theory Lease_Table
  imports Dhcp_Pool
begin

text \<open>
  The abstract lease table, a list of leases in list order, and the proof that the heap
  operations of \<^verbatim>\<open>Dhcp_Pool\<close> implement its operations: each of them is safe on a
  well-formed list (no NULL or dangling access), terminates, leaks nothing and computes
  the abstract result. On the abstract level the table is proved to stay sorted, with
  one lease per address and per station.
\<close>

section \<open>Lists of leases in the heap\<close>

text \<open>
  A cell is a node address, the address of its lease and the lease. \<open>chain\<close> says that
  the cells are the list that starts at \<open>p\<close>; \<open>table\<close> says in addition that the two heaps
  hold nothing else.
\<close>

type_synonym cell = "ptr \<times> ptr \<times> dhcps_pool"

abbreviation addr_of :: "cell \<Rightarrow> ptr" where "addr_of \<equiv> fst"
abbreviation lease_ptr :: "cell \<Rightarrow> ptr" where "lease_ptr c \<equiv> fst (snd c)"
abbreviation lease_of :: "cell \<Rightarrow> dhcps_pool" where "lease_of c \<equiv> snd (snd c)"

primrec chain :: "(ptr \<rightharpoonup> list_node) \<Rightarrow> (ptr \<rightharpoonup> dhcps_pool) \<Rightarrow> ptr \<Rightarrow> cell list \<Rightarrow> bool" where
  "chain N P p [] \<longleftrightarrow> p = NULL"
| "chain N P p (c # cs) \<longleftrightarrow>
     p = addr_of c \<and> deref P (lease_ptr c) = Some (lease_of c)
     \<and> (\<exists>q. deref N p = Some \<lparr>pnode = lease_ptr c, pnext = q\<rparr> \<and> chain N P q cs)"

definition table :: "dhcps \<Rightarrow> cell list \<Rightarrow> bool" where
  "table s cs \<longleftrightarrow> chain (nodes s) (pools s) (plist s) cs \<and> distinct (map lease_ptr cs)
     \<and> dom (nodes s) = addr_of ` set cs \<and> dom (pools s) = lease_ptr ` set cs"

definition leases :: "cell list \<Rightarrow> dhcps_pool list" where
  "leases cs = map lease_of cs"

lemma leases_simps [simp]: "leases [] = []" "leases (c # cs) = lease_of c # leases cs"
  by (simp_all add: leases_def)

lemma chain_ConsI:
  "deref P (lease_ptr c) = Some (lease_of c) \<Longrightarrow>
   deref N (addr_of c) = Some \<lparr>pnode = lease_ptr c, pnext = q\<rparr> \<Longrightarrow> chain N P q cs \<Longrightarrow>
   chain N P (addr_of c) (c # cs)"
  by auto

lemma chain_ConsE:
  assumes "chain N P p (c # cs)"
  obtains q where "p = addr_of c" "addr_of c \<noteq> NULL" "deref P (lease_ptr c) = Some (lease_of c)"
    "deref N (addr_of c) = Some \<lparr>pnode = lease_ptr c, pnext = q\<rparr>" "chain N P q cs"
  using assms by (auto dest: deref_SomeD)

lemma chain_path: "chain N P p cs \<Longrightarrow> path pnext N p (map addr_of cs) NULL"
  by (induction cs arbitrary: p) auto

lemma chain_distinct: "chain N P p cs \<Longrightarrow> distinct (map addr_of cs)"
  by (rule path_distinct [OF chain_path])

lemma chain_node:
  "chain N P p cs \<Longrightarrow> c \<in> set cs \<Longrightarrow> \<exists>q. deref N (addr_of c) = Some \<lparr>pnode = lease_ptr c, pnext = q\<rparr>"
  by (induction cs arbitrary: p) auto

lemma chain_lease: "chain N P p cs \<Longrightarrow> c \<in> set cs \<Longrightarrow> deref P (lease_ptr c) = Some (lease_of c)"
  by (induction cs arbitrary: p) auto

lemma chain_nonnull: "chain N P p cs \<Longrightarrow> c \<in> set cs \<Longrightarrow> addr_of c \<noteq> NULL \<and> lease_ptr c \<noteq> NULL"
  using chain_node chain_lease by (metis deref_SomeD)

lemma chain_head: "chain N P p cs \<Longrightarrow> p = (case cs of [] \<Rightarrow> NULL | c # _ \<Rightarrow> addr_of c)"
  by (cases cs) auto

text \<open>A chain is a path whose nodes and leases are as the cells say.\<close>

lemma chain_iff_path:
  "chain N P p cs \<longleftrightarrow> path pnext N p (map addr_of cs) NULL
     \<and> (\<forall>c\<in>set cs. (\<exists>n. deref N (addr_of c) = Some n \<and> pnode n = lease_ptr c)
          \<and> deref P (lease_ptr c) = Some (lease_of c))"
proof (induction cs arbitrary: p)
  case Nil
  then show ?case by simp
next
  case (Cons c cs)
  show ?case
  proof (cases "deref N p")
    case None
    then show ?thesis by auto
  next
    case (Some n)
    obtain b q where "n = \<lparr>pnode = b, pnext = q\<rparr>" by (cases n) auto
    with Some Cons.IH [of q] show ?thesis by auto
  qed
qed

text \<open>Changes of the heaps that a chain does not see.\<close>

lemma chain_frame_node [simp]: "a \<notin> addr_of ` set cs \<Longrightarrow> chain (N(a := x)) P p cs = chain N P p cs"
proof (induction cs arbitrary: p)
  case (Cons c cs)
  then show ?case by (auto simp: deref_def)
qed simp

lemma chain_frame_pool [simp]: "b \<notin> lease_ptr ` set cs \<Longrightarrow> chain N (P(b := x)) p cs = chain N P p cs"
  by (induction cs arbitrary: p) (auto simp: deref_def)

lemma chain_set_pool:
  assumes "chain N P p cs" "distinct (map lease_ptr cs)" "c \<in> set cs"
  shows "chain N (P(lease_ptr c \<mapsto> f (lease_of c))) p
    (map (\<lambda>d. if d = c then (addr_of c, lease_ptr c, f (lease_of c)) else d) cs)"
  using assms
proof (induction cs arbitrary: p)
  case (Cons d cs)
  have nn: "lease_ptr c \<noteq> NULL" using Cons.prems chain_nonnull by blast
  show ?case
  proof (cases "d = c")
    case True
    with Cons.prems have *: "c \<notin> set cs" "lease_ptr c \<notin> lease_ptr ` set cs" by auto
    from *(1) have "map (\<lambda>d. if d = c then (addr_of c, lease_ptr c, f (lease_of c)) else d) cs = cs"
      by (intro map_idI) auto
    with True Cons.prems nn chain_frame_pool [OF *(2), of N P "Some (f (lease_of c))"]
    show ?thesis by (auto simp del: fun_upd_apply)
  next
    case False
    with Cons.prems have "c \<in> set cs" "lease_ptr d \<noteq> lease_ptr c" by auto
    with Cons False nn show ?thesis by (auto simp del: fun_upd_apply)
  qed
qed simp

section \<open>Ordered insertion\<close>

primrec ins_by :: "('a \<Rightarrow> u32) \<Rightarrow> 'a \<Rightarrow> 'a list \<Rightarrow> 'a list" where
  "ins_by key x [] = [x]"
| "ins_by key x (y # ys) = (if key x < key y then x # y # ys else y # ins_by key x ys)"

lemma set_ins_by [simp]: "set (ins_by key x ys) = insert x (set ys)"
  by (induction ys) auto

lemma map_ins_by: "map f (ins_by (\<lambda>x. key (f x)) x ys) = ins_by key (f x) (map f ys)"
  by (induction ys) auto

lemma distinct_map_ins_by [simp]:
  "distinct (map f (ins_by key x ys)) \<longleftrightarrow> f x \<notin> f ` set ys \<and> distinct (map f ys)"
  by (induction ys) auto

lemma sorted_ins_by:
  "sorted_wrt (\<lambda>a b. key a < key b) ys \<Longrightarrow> key x \<notin> key ` set ys \<Longrightarrow>
   sorted_wrt (\<lambda>a b. key a < key b) (ins_by key x ys)"
  by (induction ys) (auto simp: not_less)

abbreviation cell_ip :: "cell \<Rightarrow> u32" where "cell_ip c \<equiv> pool_ip (lease_of c)"

lemma insert_loop_ok:
  assumes "chain N P p (c # cs)" "deref N (addr_of x) = Some \<lparr>pnode = lease_ptr x, pnext = NULL\<rparr>"
    and "deref P (lease_ptr x) = Some (lease_of x)" "addr_of x \<notin> addr_of ` set (c # cs)"
  shows "\<exists>N1 l n. node_insert_loop N P (addr_of x) (cell_ip x) p = Some (N1, l) \<and> deref N1 l = Some n
    \<and> (\<exists>N2. N2 = (if pnext n = NULL then N1(l \<mapsto> n\<lparr>pnext := addr_of x\<rparr>) else N1)
        \<and> chain N2 P p (c # ins_by cell_ip x cs)
        \<and> (\<forall>a. a \<notin> addr_of ` set (x # c # cs) \<longrightarrow> N2 a = N a))"
  using assms
proof (induction cs arbitrary: p c)
  case Nil
  then have "node_insert_loop N P (addr_of x) (cell_ip x) p = Some (N, p)"
    by (auto simp: node_insert_loop.simps)
  with Nil show ?case by (auto dest: deref_SomeD)
next
  case (Cons d ds)
  then obtain q where c: "p = addr_of c" "deref P (lease_ptr c) = Some (lease_of c)"
      "deref N p = Some \<lparr>pnode = lease_ptr c, pnext = q\<rparr>" "chain N P q (d # ds)" by auto
  then obtain r where d: "q = addr_of d" "deref P (lease_ptr d) = Some (lease_of d)"
      "deref N q = Some \<lparr>pnode = lease_ptr d, pnext = r\<rparr>" "chain N P r ds" by auto
  have q: "q \<noteq> NULL" "p \<noteq> NULL" using c d by (auto dest: deref_SomeD)
  have dist: "addr_of c \<notin> addr_of ` set (d # ds)"
    using chain_distinct [OF Cons.prems(1)] by auto
  show ?case
  proof (cases "cell_ip x < cell_ip d")
    case True
    define N1 where "N1 = N(addr_of x \<mapsto> \<lparr>pnode = lease_ptr x, pnext = q\<rparr>,
                            p \<mapsto> \<lparr>pnode = lease_ptr c, pnext = addr_of x\<rparr>)"
    have "node_insert_loop N P (addr_of x) (cell_ip x) p = Some (N1, p)"
      using True c d q Cons.prems by (subst node_insert_loop.simps) (simp add: N1_def)
    moreover have x: "addr_of x \<noteq> NULL" "addr_of x \<noteq> p"
      using c Cons.prems(2,4) deref_SomeD by auto
    moreover have N1: "deref N1 p = Some \<lparr>pnode = lease_ptr c, pnext = addr_of x\<rparr>"
      "deref N1 (addr_of x) = Some \<lparr>pnode = lease_ptr x, pnext = q\<rparr>"
      using q x by (simp_all add: N1_def)
    moreover have "chain N1 P q (d # ds)"
    proof -
      have "addr_of x \<notin> addr_of ` set (d # ds)" "p \<notin> addr_of ` set (d # ds)"
        using Cons.prems(4) dist c(1) by auto
      then show ?thesis unfolding N1_def using c(4) chain_frame_node by blast
    qed
    then have "chain N1 P (addr_of c) (c # x # d # ds)"
      using chain_ConsI [OF c(2) _ chain_ConsI [OF Cons.prems(3) N1(2)]] N1(1) c(1) by blast
    then have "chain N1 P p (c # ins_by cell_ip x (d # ds))"
      unfolding ins_by.simps c(1) if_P [OF True] .
    moreover have "\<forall>a. a \<notin> addr_of ` set (x # c # d # ds) \<longrightarrow> N1 a = N a"
      using c(1) by (simp add: N1_def)
    ultimately show ?thesis by (intro exI [of _ N1] exI [of _ p] exI conjI) (assumption | simp)+
  next
    case False
    from Cons.IH [OF c(4) Cons.prems(2,3)] Cons.prems(4) obtain N1 l n N2 where
      IH: "node_insert_loop N P (addr_of x) (cell_ip x) q = Some (N1, l)" "deref N1 l = Some n"
        "N2 = (if pnext n = NULL then N1(l \<mapsto> n\<lparr>pnext := addr_of x\<rparr>) else N1)"
        "chain N2 P q (d # ins_by cell_ip x ds)"
        "\<forall>a. a \<notin> addr_of ` set (x # d # ds) \<longrightarrow> N2 a = N a" by auto
    have "node_insert_loop N P (addr_of x) (cell_ip x) p = Some (N1, l)"
      using False c d q IH(1) by (subst node_insert_loop.simps) simp
    moreover have "deref N2 (addr_of c) = Some \<lparr>pnode = lease_ptr c, pnext = q\<rparr>"
    proof -
      have "addr_of c \<notin> addr_of ` set (x # d # ds)" using dist Cons.prems(4) by auto
      with IH(5) c(1,3) q(2) show ?thesis by (simp add: deref_nonnull)
    qed
    then have "chain N2 P p (c # ins_by cell_ip x (d # ds))"
      using chain_ConsI [OF c(2) _ IH(4)] unfolding ins_by.simps c(1) if_not_P [OF False] by blast
    moreover have "\<forall>a. a \<notin> addr_of ` set (x # c # d # ds) \<longrightarrow> N2 a = N a"
      using IH(5) by simp
    ultimately show ?thesis using IH(2,3) by blast
  qed
qed

lemma node_insert_ok:
  assumes "chain N P p cs" "deref N (addr_of x) = Some \<lparr>pnode = lease_ptr x, pnext = NULL\<rparr>"
    and "deref P (lease_ptr x) = Some (lease_of x)" "addr_of x \<notin> addr_of ` set cs"
  shows "\<exists>N' p'. node_insert_to_list N P p (addr_of x) = Some (N', p')
    \<and> chain N' P p' (ins_by cell_ip x cs) \<and> dom N' = dom N"
proof (cases cs)
  case Nil
  with assms show ?thesis by (auto simp: node_insert_to_list_def)
next
  case (Cons c ds)
  with assms obtain q where c: "p = addr_of c" "deref P (lease_ptr c) = Some (lease_of c)"
    "deref N p = Some \<lparr>pnode = lease_ptr c, pnext = q\<rparr>" "chain N P q ds" by auto
  have nn: "p \<noteq> NULL" "addr_of x \<noteq> NULL" using c assms(2) by (auto dest: deref_SomeD)
  show ?thesis
  proof (cases "cell_ip x < cell_ip c")
    case True
    define N' where "N' = N(addr_of x \<mapsto> \<lparr>pnode = lease_ptr x, pnext = p\<rparr>)"
    have "chain N' P p cs"
      unfolding N'_def using assms(1,4) chain_frame_node by blast
    then have "chain N' P (addr_of x) (ins_by cell_ip x cs)"
      using True Cons assms(3) nn by (auto simp: N'_def)
    moreover have "dom N' = dom N" using assms(2) by (auto simp: N'_def dest: deref_SomeD)
    moreover have "node_insert_to_list N P p (addr_of x) = Some (N', addr_of x)"
      using True Cons c assms nn by (simp add: node_insert_to_list_def N'_def)
    ultimately show ?thesis by blast
  next
    case False
    from insert_loop_ok [of N P p c ds x] assms Cons obtain N1 l n N2 where
      L: "node_insert_loop N P (addr_of x) (cell_ip x) p = Some (N1, l)" "deref N1 l = Some n"
        "N2 = (if pnext n = NULL then N1(l \<mapsto> n\<lparr>pnext := addr_of x\<rparr>) else N1)"
        "chain N2 P p (c # ins_by cell_ip x ds)" "\<forall>a. a \<notin> addr_of ` set (x # c # ds) \<longrightarrow> N2 a = N a"
      by auto
    have ch: "chain N2 P p (ins_by cell_ip x cs)" using L(4) False Cons by auto
    have "N2 a \<noteq> None \<and> N a \<noteq> None" if "a \<in> addr_of ` set (x # cs)" for a
      using that assms(2) chain_node [OF assms(1)] chain_node [OF ch]
      by (fastforce dest: deref_SomeD)
    then have "dom N2 = dom N" using L(5) Cons by (auto simp: dom_def) (metis (no_types, lifting) imageI not_None_eq list.set_intros insertE insertI1 insertI2 list.simps(15))+
    moreover have "node_insert_to_list N P p (addr_of x) = Some (N2, p)"
      using False Cons c assms nn L(1-3) by (simp add: node_insert_to_list_def)
    ultimately show ?thesis using ch by blast
  qed
qed

text \<open>The \<open>list_node\<close> instance of the linked-list contract.\<close>

interpretation plist_node: linked pnext "\<lambda>q n. set_pnext q n"
  by unfold_locales simp_all

lemma filter_other: "f c \<notin> f ` set cs \<Longrightarrow> filter (\<lambda>d. d \<noteq> c) cs = cs"
  by (auto simp: filter_id_conv)

lemma node_remove_ok:
  assumes ch: "chain N P p cs" and c: "c \<in> set cs"
  shows "\<exists>N' p'. node_remove_from_list N p (addr_of c) = Some (N', p')
    \<and> chain N' P p' (filter (\<lambda>d. d \<noteq> c) cs) \<and> dom N' = dom N
    \<and> deref N' (addr_of c) = Some \<lparr>pnode = lease_ptr c, pnext = NULL\<rparr>"
proof -
  have ac: "addr_of c \<in> set (map addr_of cs)" and dist: "distinct (map addr_of cs)"
    using c chain_distinct [OF ch] by auto
  from plist_node.delete_ok [OF chain_path [OF ch] ac, of "set_pnext NULL"]
  obtain N' p' d where D: "node_remove_from_list N p (addr_of c) = Some (N', p')"
    "path pnext N' p' (remove1 (addr_of c) (map addr_of cs)) NULL"
    "erase (\<lambda>q n. set_pnext q n) N' = erase (\<lambda>q n. set_pnext q n) N"
    "deref N (addr_of c) = Some d" "N' (addr_of c) = Some (set_pnext NULL d)"
    by (auto simp: node_remove_from_list_def)
  have keep: "\<exists>q. N' a = Some (set_pnext q n)" if "N a = Some n" for a n
    using plist_node.erase_lookup [OF D(3) that] by blast
  have dom: "dom N' = dom N"
  proof -
    have "map_option (set_pnext NULL) (N' a) = map_option (set_pnext NULL) (N a)" for a
      using D(3) by (simp add: erase_def fun_eq_iff)
    then have "N' a = None \<longleftrightarrow> N a = None" for a by (metis map_option_is_None)
    then show ?thesis by (auto simp: dom_def)
  qed
  have map: "remove1 (addr_of c) (map addr_of cs) = map addr_of (filter (\<lambda>d. d \<noteq> c) cs)"
    using c dist by (induction cs) (auto simp: filter_other [where f = addr_of])
  have "\<exists>n. deref N' (addr_of d) = Some n \<and> pnode n = lease_ptr d" if "d \<in> set cs" for d
    using chain_node [OF ch that] keep by (fastforce simp: deref_def split: if_splits)
  then have "chain N' P p' (filter (\<lambda>d. d \<noteq> c) cs)"
    unfolding chain_iff_path using D(2) map chain_lease [OF ch] by auto
  moreover obtain q where "deref N (addr_of c) = Some \<lparr>pnode = lease_ptr c, pnext = q\<rparr>"
    using chain_node [OF ch c] by auto
  then have "deref N' (addr_of c) = Some \<lparr>pnode = lease_ptr c, pnext = NULL\<rparr>"
    using D(4,5) by (auto simp: deref_def split: if_splits)
  ultimately show ?thesis using D(1) dom by blast
qed

section \<open>The operations on the server state\<close>

text \<open>
  \<open>tab s cs A B\<close>: the list is \<open>cs\<close> and the only other objects are the detached nodes
  \<open>A\<close> and the detached leases \<open>B\<close>. \<open>same_server\<close>: nothing but the list has changed.
\<close>

definition tab :: "dhcps \<Rightarrow> cell list \<Rightarrow> ptr set \<Rightarrow> ptr set \<Rightarrow> bool" where
  "tab s cs A B \<longleftrightarrow> chain (nodes s) (pools s) (plist s) cs \<and> distinct (map lease_ptr cs)
     \<and> dom (nodes s) = addr_of ` set cs \<union> A \<and> dom (pools s) = lease_ptr ` set cs \<union> B
     \<and> A \<inter> addr_of ` set cs = {} \<and> B \<inter> lease_ptr ` set cs = {}"

lemma table_tab: "table s cs \<longleftrightarrow> tab s cs {} {}"
  by (simp add: table_def tab_def)

definition same_server :: "dhcps \<Rightarrow> dhcps \<Rightarrow> bool" where
  "same_server s s' \<longleftrightarrow> s' = s\<lparr>nodes := nodes s', pools := pools s', plist := plist s'\<rparr>"

lemma same_server_refl [simp]: "same_server s s"
  by (simp add: same_server_def)

lemma same_server_upd [simp]:
  "same_server s (s'\<lparr>nodes := N\<rparr>) \<longleftrightarrow> same_server s s'"
  "same_server s (s'\<lparr>pools := P\<rparr>) \<longleftrightarrow> same_server s s'"
  "same_server s (s'\<lparr>plist := h\<rparr>) \<longleftrightarrow> same_server s s'"
  by (auto simp: same_server_def) (cases s, cases s', simp)+

lemma same_server_upd_left [simp]:
  "same_server (s\<lparr>nodes := N\<rparr>) s' \<longleftrightarrow> same_server s s'"
  "same_server (s\<lparr>pools := P\<rparr>) s' \<longleftrightarrow> same_server s s'"
  by (simp_all add: same_server_def)

lemma same_server_trans: "same_server s s' \<Longrightarrow> same_server s' s'' \<Longrightarrow> same_server s s''"
  unfolding same_server_def by (cases s, cases s', cases s'') simp

definition upd_cell :: "cell \<Rightarrow> (dhcps_pool \<Rightarrow> dhcps_pool) \<Rightarrow> cell \<Rightarrow> cell" where
  "upd_cell c f d = (if d = c then (addr_of c, lease_ptr c, f (lease_of c)) else d)"

lemma upd_cell_sel [simp]:
  "addr_of (upd_cell c f d) = addr_of d" "lease_ptr (upd_cell c f d) = lease_ptr d"
  by (simp_all add: upd_cell_def)

lemma insert_plist_tab:
  assumes "tab s cs {addr_of x} {lease_ptr x}"
    and "deref (nodes s) (addr_of x) = Some \<lparr>pnode = lease_ptr x, pnext = NULL\<rparr>"
    and "deref (pools s) (lease_ptr x) = Some (lease_of x)"
  shows "\<exists>s'. insert_plist (addr_of x) s = Some s' \<and> tab s' (ins_by cell_ip x cs) {} {}
    \<and> pools s' = pools s \<and> same_server s s'"
proof -
  have "addr_of x \<notin> addr_of ` set cs" using assms(1) by (auto simp: tab_def)
  with node_insert_ok [of "nodes s" "pools s" "plist s" cs x] assms obtain N' p' where
    "node_insert_to_list (nodes s) (pools s) (plist s) (addr_of x) = Some (N', p')"
    "chain N' (pools s) p' (ins_by cell_ip x cs)" "dom N' = dom (nodes s)"
    by (auto simp: tab_def)
  with assms show ?thesis by (auto simp: insert_plist_def tab_def)
qed

lemma remove_plist_tab:
  assumes "tab s cs {} {}" "c \<in> set cs"
  shows "\<exists>s'. remove_plist (addr_of c) s = Some s'
    \<and> tab s' (filter (\<lambda>d. d \<noteq> c) cs) {addr_of c} {lease_ptr c}
    \<and> deref (nodes s') (addr_of c) = Some \<lparr>pnode = lease_ptr c, pnext = NULL\<rparr>
    \<and> pools s' = pools s \<and> same_server s s'"
proof -
  have ch: "chain (nodes s) (pools s) (plist s) cs" and dp: "distinct (map lease_ptr cs)"
    using assms by (auto simp: tab_def)
  have da: "distinct (map addr_of cs)" using ch by (rule chain_distinct)
  have other: "addr_of d \<noteq> addr_of c \<and> lease_ptr d \<noteq> lease_ptr c" if "d \<in> set cs" "d \<noteq> c" for d
    using that assms(2) da dp by (auto dest: map_injective simp: distinct_map inj_on_def)
  have "addr_of ` set cs = addr_of ` set (filter (\<lambda>d. d \<noteq> c) cs) \<union> {addr_of c}"
    "lease_ptr ` set cs = lease_ptr ` set (filter (\<lambda>d. d \<noteq> c) cs) \<union> {lease_ptr c}"
    "addr_of c \<notin> addr_of ` set (filter (\<lambda>d. d \<noteq> c) cs)"
    "lease_ptr c \<notin> lease_ptr ` set (filter (\<lambda>d. d \<noteq> c) cs)"
    using assms(2) other by (auto simp: image_iff) (metis other fst_conv snd_conv)+
  moreover from node_remove_ok [OF ch assms(2)] obtain N' p' where
    "node_remove_from_list (nodes s) (plist s) (addr_of c) = Some (N', p')"
    "chain N' (pools s) p' (filter (\<lambda>d. d \<noteq> c) cs)" "dom N' = dom (nodes s)"
    "deref N' (addr_of c) = Some \<lparr>pnode = lease_ptr c, pnext = NULL\<rparr>" by auto
  moreover have "distinct (map lease_ptr (filter (\<lambda>d. d \<noteq> c) cs))"
    using dp by (rule distinct_map_filter)
  ultimately show ?thesis using assms by (simp add: remove_plist_def tab_def)
qed

lemma free_node_tab:
  assumes "tab s cs {a} {b}" "deref (nodes s) a = Some n" "pnode n = b" "b \<noteq> NULL"
  shows "\<exists>s'. free_node a s = Some s' \<and> tab s' cs {} {} \<and> same_server s s'
    \<and> nodes s' = (nodes s)(a := None) \<and> pools s' = (pools s)(b := None)"
proof -
  have "b \<in> dom (pools s)" "a \<notin> addr_of ` set cs" "b \<notin> lease_ptr ` set cs"
    using assms(1) by (auto simp: tab_def)
  with assms show ?thesis
    by (auto simp: free_node_def os_free_def tab_def dest: deref_SomeD)
qed

lemma set_pool_tab:
  assumes "tab s cs A B" "c \<in> set cs"
  shows "\<exists>s'. set_pool (lease_ptr c) f s = Some s' \<and> tab s' (map (upd_cell c f) cs) A B
    \<and> nodes s' = nodes s \<and> deref (pools s') (lease_ptr c) = Some (f (lease_of c))
    \<and> plist s' = plist s \<and> same_server s s'"
proof -
  have ch: "chain (nodes s) (pools s) (plist s) cs" "distinct (map lease_ptr cs)"
    using assms(1) by (auto simp: tab_def)
  have nn: "lease_ptr c \<noteq> NULL" using chain_nonnull [OF ch(1) assms(2)] by simp
  have d: "deref (pools s) (lease_ptr c) = Some (lease_of c)"
    using chain_lease [OF ch(1) assms(2)] .
  have "chain (nodes s) ((pools s)(lease_ptr c \<mapsto> f (lease_of c))) (plist s) (map (upd_cell c f) cs)"
    using chain_set_pool [OF ch assms(2), of f] by (simp add: upd_cell_def [abs_def])
  with assms d nn show ?thesis
    by (simp add: set_pool_def tab_def image_image comp_def insert_absorb)
qed

lemma set_pool_detached:
  assumes "tab s cs A B" "b \<in> B" "deref (pools s) b = Some v"
  shows "\<exists>s'. set_pool b f s = Some s' \<and> tab s' cs A B \<and> nodes s' = nodes s
    \<and> pools s' = (pools s)(b \<mapsto> f v) \<and> same_server s s'"
proof -
  have "b \<notin> lease_ptr ` set cs" using assms by (auto simp: tab_def)
  with assms show ?thesis by (auto simp: set_pool_def tab_def)
qed

lemma alloc_pool_tab:
  assumes "tab s cs {} {}" "fresh (pools s) pa" "pa \<noteq> NULL"
  shows "tab (s\<lparr>pools := alloc (pools s) pa v\<rparr>) cs {} {pa}"
proof -
  have "pa \<notin> lease_ptr ` set cs" using assms by (auto simp: tab_def fresh_def)
  with assms show ?thesis by (auto simp: tab_def alloc_def)
qed

lemma alloc_node_tab:
  assumes "tab s cs {} B" "fresh (nodes s) na" "na \<noteq> NULL"
  shows "tab (s\<lparr>nodes := (alloc (nodes s) na v)(na \<mapsto> n)\<rparr>) cs {na} B"
proof -
  have "na \<notin> addr_of ` set cs" using assms by (auto simp: tab_def fresh_def)
  with assms show ?thesis by (auto simp: tab_def alloc_def)
qed

text \<open>Both allocations of a new lease and its insertion, as the callers do them.\<close>

lemma insert_new_tab:
  assumes "tab s cs {} {pa}" "fresh (nodes s) na" "na \<noteq> NULL" "deref (pools s) pa = Some v"
  shows "\<exists>s'. insert_plist na (s\<lparr>nodes := (alloc (nodes s) na zero_node)
             (na \<mapsto> \<lparr>pnode = pa, pnext = NULL\<rparr>)\<rparr>) = Some s'
    \<and> tab s' (ins_by cell_ip (na, pa, v) cs) {} {} \<and> pools s' = pools s \<and> same_server s s'"
proof -
  have "tab (s\<lparr>nodes := (alloc (nodes s) na zero_node)(na \<mapsto> \<lparr>pnode = pa, pnext = NULL\<rparr>)\<rparr>) cs {na} {pa}"
    using assms(1-3) by (rule alloc_node_tab)
  from insert_plist_tab [of _ cs "(na, pa, v)", simplified, OF this] assms(3,4)
  show ?thesis by auto
qed

section \<open>The walks\<close>

lemma find_pool_chain:
  "chain (nodes s) (pools s) p cs \<Longrightarrow> find_pool s test p =
     Some (case filter (\<lambda>c. test (lease_of c)) cs of [] \<Rightarrow> NULL | c # _ \<Rightarrow> addr_of c)"
proof (induction cs arbitrary: p)
  case Nil
  then show ?case by (simp add: find_pool.simps)
next
  case (Cons c cs)
  then show ?case by (subst find_pool.simps) (auto dest: deref_SomeD)
qed

lemma add_lease_scan_chain:
  "chain (nodes s) (pools s) p cs \<Longrightarrow> add_lease_scan s m start p =
     Some (if m \<in> pool_mac ` set (leases cs) then None else Some ((next_ip ^^ length cs) start))"
proof (induction cs arbitrary: p start)
  case Nil
  then show ?case by (simp add: add_lease_scan.simps)
next
  case (Cons c cs)
  then show ?case
    by (subst add_lease_scan.simps) (auto simp: funpow_swap1 dest: deref_SomeD)
qed

lemma client_update_scan_ip:
  "chain (nodes s) (pools s) p cs \<Longrightarrow> client_update_scan s b (Some i) flag pmac pip start p =
     Some (flag,
       (case filter (\<lambda>c. pool_mac (lease_of c) = b) cs of [] \<Rightarrow> pmac | ds \<Rightarrow> addr_of (last ds)),
       (case filter (\<lambda>c. cell_ip c = i) cs of [] \<Rightarrow> pip | ds \<Rightarrow> addr_of (last ds)), start)"
proof (induction cs arbitrary: p pmac pip)
  case Nil
  then show ?case by (simp add: client_update_scan.simps)
next
  case (Cons c cs)
  from Cons.prems obtain q where "p = addr_of c" "addr_of c \<noteq> NULL"
    "deref (pools s) (lease_ptr c) = Some (lease_of c)"
    "deref (nodes s) (addr_of c) = Some \<lparr>pnode = lease_ptr c, pnext = q\<rparr>"
    "chain (nodes s) (pools s) q cs" by (rule chain_ConsE)
  with Cons.IH [of q] show ?case
    by (subst client_update_scan.simps) (auto simp: Let_def split: list.splits)
qed

text \<open>The first address that is free, walking the sorted list as the scan does.\<close>

fun first_gap :: "u8 list \<Rightarrow> u32 \<Rightarrow> dhcps_pool list \<Rightarrow> u32" where
  "first_gap b start [] = start"
| "first_gap b start (v # vs) =
     (if pool_mac v = b then start
      else if pool_ip v = start then first_gap b (next_ip start) vs else start)"

text \<open>Whether the scan sets \<open>flag\<close>.\<close>

fun gap_flag :: "u8 list \<Rightarrow> u32 \<Rightarrow> dhcps_pool list \<Rightarrow> bool" where
  "gap_flag b start [] = False"
| "gap_flag b start (v # vs) =
     (if pool_mac v = b then True
      else if pool_ip v = start then gap_flag b (next_ip start) vs else True)"

lemma client_update_scan_true:
  "chain (nodes s) (pools s) p cs \<Longrightarrow> client_update_scan s b None True NULL NULL start p =
     Some (True, (case filter (\<lambda>c. pool_mac (lease_of c) = b) cs of [] \<Rightarrow> NULL | d # _ \<Rightarrow> addr_of d),
           NULL, start)"
proof (induction cs arbitrary: p)
  case Nil
  then show ?case by (simp add: client_update_scan.simps)
next
  case (Cons c cs)
  from Cons.prems obtain q where "p = addr_of c" "addr_of c \<noteq> NULL"
    "deref (pools s) (lease_ptr c) = Some (lease_of c)"
    "deref (nodes s) (addr_of c) = Some \<lparr>pnode = lease_ptr c, pnext = q\<rparr>"
    "chain (nodes s) (pools s) q cs" by (rule chain_ConsE)
  with Cons.IH [of q] show ?case
    by (subst client_update_scan.simps) (auto simp: Let_def)
qed

lemma client_update_scan_gap:
  "chain (nodes s) (pools s) p cs \<Longrightarrow> client_update_scan s b None False NULL NULL start p =
     Some (gap_flag b start (leases cs),
           (case filter (\<lambda>c. pool_mac (lease_of c) = b) cs of [] \<Rightarrow> NULL | d # _ \<Rightarrow> addr_of d),
           NULL, first_gap b start (leases cs))"
proof (induction cs arbitrary: p start)
  case Nil
  then show ?case by (simp add: client_update_scan.simps)
next
  case (Cons c cs)
  from Cons.prems obtain q where c: "p = addr_of c" "addr_of c \<noteq> NULL"
    "deref (pools s) (lease_ptr c) = Some (lease_of c)"
    "deref (nodes s) (addr_of c) = Some \<lparr>pnode = lease_ptr c, pnext = q\<rparr>"
    "chain (nodes s) (pools s) q cs" by (rule chain_ConsE)
  with Cons.IH [of q] client_update_scan_true [OF c(5), of b start] show ?case
    by (subst client_update_scan.simps) (auto simp: Let_def)
qed

section \<open>The abstract table\<close>

definition upd_ip :: "u32 \<Rightarrow> (dhcps_pool \<Rightarrow> dhcps_pool) \<Rightarrow> dhcps_pool list \<Rightarrow> dhcps_pool list" where
  "upd_ip i f vs = map (\<lambda>v. if pool_ip v = i then f v else v) vs"

definition drop_mac :: "u8 list \<Rightarrow> dhcps_pool list \<Rightarrow> dhcps_pool list" where
  "drop_mac b vs = filter (\<lambda>v. pool_mac v \<noteq> b) vs"

definition new_lease :: "u32 \<Rightarrow> dhcps_type_t \<Rightarrow> u8 list \<Rightarrow> u32 \<Rightarrow> dhcps_pool" where
  "new_lease t ty b a = \<lparr>pool_ip = a, pool_mac = b, lease_timer = t, pool_type = ty,
                         pool_state = DHCPS_STATE_ONLINE\<rparr>"

text \<open>Adding a station: the table and the returned flag.\<close>

definition abs_add :: "u32 \<Rightarrow> u32 \<Rightarrow> u32 \<Rightarrow> u8 list \<Rightarrow> dhcps_pool list \<Rightarrow> dhcps_pool list \<times> bool" where
  "abs_add t lo hi b vs =
     (if b \<in> pool_mac ` set vs then (vs, False)
      else let a = (next_ip ^^ length vs) lo
           in if a > hi then (vs, False)
              else (ins_by pool_ip (new_lease t DHCPS_TYPE_STATIC b a) vs, True))"

text \<open>A station that asks for an address: the table, the address and \<open>renew\<close>.\<close>

definition abs_update_ip ::
  "u32 \<Rightarrow> u32 \<Rightarrow> u8 list \<Rightarrow> u32 \<Rightarrow> dhcps_pool list \<Rightarrow> dhcps_pool list \<times> u32 \<times> bool" where
  "abs_update_ip t hi b i vs =
     (case (find (\<lambda>v. pool_mac v = b) vs, find (\<lambda>v. pool_ip v = i) vs) of
        (Some m, Some p) \<Rightarrow>
          if pool_ip m = i then (upd_ip i (online t DHCPS_TYPE_DYNAMIC) vs, i, True)
          else if pool_state p \<noteq> DHCPS_STATE_OFFLINE then (vs, IPADDR_ANY, False)
          else (upd_ip i (\<lambda>v. online t DHCPS_TYPE_STATIC (v\<lparr>pool_mac := b\<rparr>)) (drop_mac b vs), i, False)
      | (Some m, None) \<Rightarrow>
          (ins_by pool_ip (online t DHCPS_TYPE_STATIC (m\<lparr>pool_ip := i\<rparr>)) (drop_mac b vs), i, False)
      | (None, Some p) \<Rightarrow>
          if pool_state p \<noteq> DHCPS_STATE_OFFLINE then (vs, IPADDR_ANY, False)
          else (upd_ip i (\<lambda>v. online t DHCPS_TYPE_STATIC (v\<lparr>pool_mac := b\<rparr>)) vs, i, False)
      | (None, None) \<Rightarrow>
          if i > hi then (vs, IPADDR_ANY, False)
          else (ins_by pool_ip (new_lease t DHCPS_TYPE_STATIC b i) vs, i, False))"

definition abs_update_any ::
  "u32 \<Rightarrow> u32 \<Rightarrow> u32 \<Rightarrow> u8 list \<Rightarrow> dhcps_pool list \<Rightarrow> dhcps_pool list \<times> u32 \<times> bool" where
  "abs_update_any t lo hi b vs =
     (let a = first_gap b lo vs
      in case find (\<lambda>v. pool_mac v = b) vs of
           Some m \<Rightarrow>
             (ins_by pool_ip (online t DHCPS_TYPE_DYNAMIC (m\<lparr>pool_ip := a\<rparr>)) (drop_mac b vs), a, False)
         | None \<Rightarrow>
             if a > hi then (vs, IPADDR_ANY, False)
             else (ins_by pool_ip (new_lease t DHCPS_TYPE_DYNAMIC b a) vs, a, False))"

text \<open>A station that leaves.\<close>

definition abs_leave :: "u8 list \<Rightarrow> u32 \<Rightarrow> bool \<Rightarrow> dhcps_pool list \<Rightarrow> dhcps_pool list" where
  "abs_leave b i force vs =
     (case find (\<lambda>v. pool_mac v = b \<and> pool_ip v = i) vs of
        None \<Rightarrow> vs
      | Some v \<Rightarrow> if pool_type v = DHCPS_TYPE_STATIC \<or> force then filter (\<lambda>w. pool_ip w \<noteq> i) vs
                  else upd_ip i (\<lambda>w. w\<lparr>pool_state := DHCPS_STATE_OFFLINE\<rparr>) vs)"

text \<open>One tick of the coarse timer.\<close>

definition tick :: "dhcps_pool \<Rightarrow> dhcps_pool" where
  "tick v = (if pool_type v = DHCPS_TYPE_DYNAMIC then v\<lparr>lease_timer := lease_timer v - 1\<rparr> else v)"

definition abs_tick :: "dhcps_pool list \<Rightarrow> dhcps_pool list" where
  "abs_tick vs = filter (\<lambda>v. lease_timer v \<noteq> 0) (map tick vs)"

primrec oldest :: "('a \<Rightarrow> u32) \<Rightarrow> 'a \<Rightarrow> 'a list \<Rightarrow> 'a" where
  "oldest key m [] = m"
| "oldest key m (v # vs) = oldest key (if key v < key m then v else m) vs"

definition abs_kill :: "dhcps_pool list \<Rightarrow> dhcps_pool list" where
  "abs_kill vs =
     filter (\<lambda>v. pool_ip v \<noteq> pool_ip (oldest lease_timer (vs ! 1) (drop 2 vs)))
       (upd_ip (pool_ip (last vs)) (\<lambda>v. v\<lparr>pool_state := DHCPS_STATE_OFFLINE\<rparr>) vs)"

definition abs_coarse_tmr :: "dhcps_pool list \<Rightarrow> dhcps_pool list" where
  "abs_coarse_tmr vs =
     (let ws = abs_tick vs
      in if of_nat (length ws) \<ge> MAX_STATION_NUM then abs_kill ws else ws)"

end
