(* ===== verification/Lease_Refinement.thy ===== *)
theory Lease_Refinement
  imports Lease_Table
begin

text \<open>
  The heap operations of \<^verbatim>\<open>Dhcp_Pool\<close> implement the operations of the abstract lease
  table: on a well-formed list with one lease per station and per address each call
  returns (no NULL or dangling access, no endless loop), frees what it unlinks and
  leaves a well-formed list whose leases are the abstract result.
\<close>

section \<open>From cells to leases\<close>

definition unique :: "dhcps_pool list \<Rightarrow> bool" where
  "unique vs \<longleftrightarrow> distinct (map pool_ip vs) \<and> distinct (map pool_mac vs)"

lemma leases_filter_key:
  assumes "c \<in> set cs" "distinct (map key (leases cs))"
  shows "leases (filter (\<lambda>d. d \<noteq> c) cs) = filter (\<lambda>v. key v \<noteq> key (lease_of c)) (leases cs)"
  using assms
proof (induction cs)
  case (Cons d cs)
  show ?case
  proof (cases "d = c")
    case True
    with Cons.prems have n: "key (lease_of c) \<notin> key ` set (leases cs)" by auto
    then have "c \<notin> set cs" by (auto simp: leases_def)
    then have "filter (\<lambda>d. d \<noteq> c) cs = cs" by (auto simp: filter_id_conv)
    moreover have "filter (\<lambda>v. key v \<noteq> key (lease_of c)) (leases cs) = leases cs"
      using n by (auto simp: filter_id_conv intro: rev_image_eqI)
    ultimately show ?thesis using True by simp
  next
    case False
    with Cons.prems have "c \<in> set cs" "key (lease_of d) \<noteq> key (lease_of c)"
      by (auto simp: leases_def)
    with Cons False show ?thesis by simp
  qed
qed simp

lemma leases_upd:
  assumes "c \<in> set cs" "distinct (map pool_ip (leases cs))"
  shows "leases (map (upd_cell c f) cs) = upd_ip (cell_ip c) f (leases cs)"
  using assms
proof (induction cs)
  case (Cons d cs)
  show ?case
  proof (cases "d = c")
    case True
    with Cons.prems have n: "cell_ip c \<notin> pool_ip ` set (leases cs)" by auto
    then have "c \<notin> set cs" by (auto simp: leases_def)
    then have "map (upd_cell c f) cs = cs" by (intro map_idI) (auto simp: upd_cell_def)
    moreover have "upd_ip (cell_ip c) f (leases cs) = leases cs"
      unfolding upd_ip_def using n by (intro map_idI) (metis rev_image_eqI)
    moreover have "lease_of (upd_cell c f c) = f (lease_of c)" by (simp add: upd_cell_def)
    ultimately show ?thesis using True by (simp add: upd_ip_def)
  next
    case False
    with Cons.prems have "c \<in> set cs" "cell_ip d \<noteq> cell_ip c" by (auto simp: leases_def)
    with Cons False show ?thesis by (auto simp: upd_cell_def upd_ip_def)
  qed
qed simp

lemma leases_ins: "leases (ins_by cell_ip x cs) = ins_by pool_ip (lease_of x) (leases cs)"
  unfolding leases_def by (rule map_ins_by)

lemma leases_ins3: "leases (ins_by cell_ip (a, b, v) cs) = ins_by pool_ip v (leases cs)"
  using leases_ins [of "(a, b, v)" cs] by simp

lemma filter_key:
  assumes "distinct (map key (leases cs))"
  shows "filter (\<lambda>c. key (lease_of c) = k) cs =
    (case find (\<lambda>c. key (lease_of c) = k) cs of None \<Rightarrow> [] | Some c \<Rightarrow> [c])"
  using assms
proof (induction cs)
  case (Cons c cs)
  then have "filter (\<lambda>d. key (lease_of d) = key (lease_of c)) cs = []"
    by (auto simp: leases_def filter_empty_conv intro: rev_image_eqI)
  with Cons show ?case by auto
qed simp

lemma case_filter:
  "(case filter P cs of [] \<Rightarrow> x | d # _ \<Rightarrow> f d) = (case find P cs of None \<Rightarrow> x | Some d \<Rightarrow> f d)"
  by (induction cs) auto

lemma find_leases: "find P (leases cs) = map_option lease_of (find (\<lambda>c. P (lease_of c)) cs)"
  by (induction cs) auto

lemma find_SomeD: "find P xs = Some x \<Longrightarrow> x \<in> set xs \<and> P x"
  by (auto simp: find_Some_iff)

lemma find_NoneD: "find P xs = None \<Longrightarrow> \<forall>x\<in>set xs. \<not> P x"
  by (auto simp: find_None_iff)

lemma tab_find:
  assumes "tab s cs A B" "find P cs = Some c"
  shows "c \<in> set cs" "P c" "addr_of c \<noteq> NULL" "lease_ptr c \<noteq> NULL"
    "deref (pools s) (lease_ptr c) = Some (lease_of c)"
    "\<exists>q. deref (nodes s) (addr_of c) = Some \<lparr>pnode = lease_ptr c, pnext = q\<rparr>"
proof -
  have ch: "chain (nodes s) (pools s) (plist s) cs" using assms(1) by (simp add: tab_def)
  show c: "c \<in> set cs" and "P c" using find_SomeD [OF assms(2)] by auto
  show "addr_of c \<noteq> NULL" "lease_ptr c \<noteq> NULL" using chain_nonnull [OF ch c] by auto
  show "deref (pools s) (lease_ptr c) = Some (lease_of c)" using ch c by (rule chain_lease)
  show "\<exists>q. deref (nodes s) (addr_of c) = Some \<lparr>pnode = lease_ptr c, pnext = q\<rparr>"
    using ch c by (rule chain_node)
qed

text \<open>Unlinking a cell and freeing its two objects, in either order of the frees.\<close>

lemma remove_free_tab:
  assumes "tab s cs {} {}" "c \<in> set cs"
  shows "\<exists>s1 s2. remove_plist (addr_of c) s = Some s1 \<and> free_node (addr_of c) s1 = Some s2
    \<and> tab s2 (filter (\<lambda>d. d \<noteq> c) cs) {} {} \<and> same_server s s1 \<and> same_server s s2
    \<and> nodes s2 = (nodes s1)(addr_of c := None) \<and> pools s2 = (pools s1)(lease_ptr c := None)
    \<and> pools s1 = pools s \<and> (\<exists>y. nodes s1 (addr_of c) = Some y)"
proof -
  from remove_plist_tab [OF assms] obtain s1 where 1: "remove_plist (addr_of c) s = Some s1"
    "tab s1 (filter (\<lambda>d. d \<noteq> c) cs) {addr_of c} {lease_ptr c}"
    "deref (nodes s1) (addr_of c) = Some \<lparr>pnode = lease_ptr c, pnext = NULL\<rparr>"
    "pools s1 = pools s" "same_server s s1" by auto
  have "lease_ptr c \<noteq> NULL" using chain_nonnull [OF _ assms(2)] assms(1) by (auto simp: tab_def)
  from free_node_tab [OF 1(2,3) _ this] obtain s2 where 2: "free_node (addr_of c) s1 = Some s2"
    "tab s2 (filter (\<lambda>d. d \<noteq> c) cs) {} {}" "same_server s1 s2"
    "nodes s2 = (nodes s1)(addr_of c := None)" "pools s2 = (pools s1)(lease_ptr c := None)" by auto
  have "same_server s s2" using 1(5) 2(3) by (rule same_server_trans)
  with 1 2 show ?thesis by (auto dest: deref_SomeD)
qed

lemma same_server_sel:
  assumes "same_server s s'"
  shows "dhcps_lease_time s' = dhcps_lease_time s" "lease_range s' = lease_range s"
    "renew s' = renew s" "dhcps_calls s' = dhcps_calls s"
  by (subst assms [unfolded same_server_def], simp)+

section \<open>Leaving\<close>

lemma client_leave_refines:
  assumes "table s cs" "unique (leases cs)"
  shows "\<exists>s' cs'. wifi_softap_dhcps_client_leave (Some b) (Some i) force s = Some s'
    \<and> table s' cs' \<and> leases cs' = abs_leave b i force (leases cs)
    \<and> same_server (s\<lparr>dhcps_calls := dhcps_calls s'\<rparr>) s'
    \<and> dhcps_calls s' = dhcps_calls s @
        (if \<exists>v\<in>set (leases cs). pool_mac v = b \<and> pool_ip v = i then [Set_station_info b 0] else [])"
proof -
  let ?Q = "\<lambda>v. pool_mac v = b \<and> pool_ip v = i"
  have t: "tab s cs {} {}" and ch: "chain (nodes s) (pools s) (plist s) cs"
    using assms(1) by (simp_all add: table_tab tab_def)
  have di: "distinct (map pool_ip (leases cs))" using assms(2) by (simp add: unique_def)
  have fp: "find_pool s ?Q (plist s) =
    Some (case find (\<lambda>c. ?Q (lease_of c)) cs of None \<Rightarrow> NULL | Some c \<Rightarrow> addr_of c)"
    by (simp add: find_pool_chain [OF ch] case_filter)
  show ?thesis
  proof (cases "find (\<lambda>c. ?Q (lease_of c)) cs")
    case None
    have "\<not> (\<exists>v\<in>set (leases cs). ?Q v)"
      using find_NoneD [OF None] by (auto simp: leases_def)
    then show ?thesis using None assms(1)
      by (intro exI [of _ s] exI [of _ cs])
        (simp add: wifi_softap_dhcps_client_leave_def abs_leave_def find_leases fp)
  next
    case (Some c)
    note c = tab_find [OF t Some]
    then obtain q where q: "deref (nodes s) (addr_of c) = Some \<lparr>pnode = lease_ptr c, pnext = q\<rparr>" by auto
    have ex: "\<exists>v\<in>set (leases cs). ?Q v" using c(1,2) by (auto simp: leases_def)
    show ?thesis
    proof (cases "pool_type (lease_of c) = DHCPS_TYPE_STATIC \<or> force")
      case True
      from remove_free_tab [OF t c(1)] obtain s1 s2 y where r: "remove_plist (addr_of c) s = Some s1"
        "free_node (addr_of c) s1 = Some s2" "tab s2 (filter (\<lambda>d. d \<noteq> c) cs) {} {}"
        "same_server s s1" "nodes s2 = (nodes s1)(addr_of c := None)"
        "pools s2 = (pools s1)(lease_ptr c := None)" "pools s1 = pools s" "nodes s1 (addr_of c) = Some y"
        by blast
      define s3 where "s3 = s1\<lparr>nodes := (nodes s1)(addr_of c := None),
                               pools := (pools s1)(lease_ptr c := None)\<rparr>"
      have p3: "plist s3 = plist s2" using r(2) by (auto simp: s3_def free_node_def Let_def bind_eq_Some_conv)
      have "wifi_softap_dhcps_client_leave (Some b) (Some i) force s
          = Some (dhcps_call (Set_station_info b 0) s3)"
        using True r(1,7,8) q c Some fp
        by (auto simp: wifi_softap_dhcps_client_leave_def os_free_def s3_def dest: deref_SomeD)
      moreover have "tab (dhcps_call (Set_station_info b 0) s3) (filter (\<lambda>d. d \<noteq> c) cs) {} {}"
        using r(3,5,6) p3 by (simp add: tab_def dhcps_call_def s3_def)
      moreover have "leases (filter (\<lambda>d. d \<noteq> c) cs) = abs_leave b i force (leases cs)"
        using leases_filter_key [OF c(1) di] True c(2) Some by (simp add: abs_leave_def find_leases)
      moreover have "same_server (s\<lparr>dhcps_calls := dhcps_calls s @ [Set_station_info b 0]\<rparr>)
          (dhcps_call (Set_station_info b 0) s3)"
        using r(4) unfolding same_server_def dhcps_call_def s3_def by (cases s, cases s1) simp
      moreover have "dhcps_calls s3 = dhcps_calls s"
        using r(4) unfolding same_server_def s3_def by (cases s, cases s1) simp
      ultimately show ?thesis using ex by (auto simp: table_tab dhcps_call_def)
    next
      case False
      let ?off = "\<lambda>v. v\<lparr>pool_state := DHCPS_STATE_OFFLINE\<rparr>"
      from set_pool_tab [OF t c(1), of ?off] obtain s1 where r:
        "set_pool (lease_ptr c) ?off s = Some s1" "tab s1 (map (upd_cell c ?off) cs) {} {}"
        "same_server s s1" by auto
      have "wifi_softap_dhcps_client_leave (Some b) (Some i) force s
          = Some (dhcps_call (Set_station_info b 0) s1)"
        using False r(1) q c Some fp by (simp add: wifi_softap_dhcps_client_leave_def)
      moreover have "tab (dhcps_call (Set_station_info b 0) s1) (map (upd_cell c ?off) cs) {} {}"
        using r(2) by (simp add: tab_def dhcps_call_def)
      moreover have "leases (map (upd_cell c ?off) cs) = abs_leave b i force (leases cs)"
        using leases_upd [OF c(1) di] False c(2) Some by (simp add: abs_leave_def find_leases)
      moreover have "same_server (s\<lparr>dhcps_calls := dhcps_calls s @ [Set_station_info b 0]\<rparr>)
          (dhcps_call (Set_station_info b 0) s1)"
        using r(3) unfolding same_server_def dhcps_call_def by (cases s, cases s1) simp
      moreover have "dhcps_calls s1 = dhcps_calls s"
        using r(3) unfolding same_server_def by (cases s, cases s1) simp
      ultimately show ?thesis using ex by (auto simp: table_tab dhcps_call_def)
    qed
  qed
qed

section \<open>Adding\<close>

lemma add_lease_refines:
  assumes "table s cs" "fresh (pools s) pa" "fresh (nodes s) na" "pa \<noteq> NULL" "na \<noteq> NULL"
  shows "\<exists>s' cs' r. wifi_softap_add_dhcps_lease pa na b s = Some (s', r) \<and> table s' cs'
    \<and> (leases cs', r) = abs_add (dhcps_lease_time s) (lease_start_ip (lease_range s))
                          (lease_end_ip (lease_range s)) b (leases cs)
    \<and> same_server s s'"
proof -
  let ?lo = "lease_start_ip (lease_range s)" and ?hi = "lease_end_ip (lease_range s)"
  have t: "tab s cs {} {}" and ch: "chain (nodes s) (pools s) (plist s) cs"
    using assms(1) by (simp_all add: table_tab tab_def)
  have len: "length (leases cs) = length cs" by (simp add: leases_def)
  have scan: "add_lease_scan s b ?lo (plist s) =
      Some (if b \<in> pool_mac ` set (leases cs) then None else Some ((next_ip ^^ length cs) ?lo))"
    using ch by (rule add_lease_scan_chain)
  show ?thesis
  proof (cases "b \<in> pool_mac ` set (leases cs) \<or> (next_ip ^^ length cs) ?lo > ?hi")
    case True
    then have "wifi_softap_add_dhcps_lease pa na b s = Some (s, False)"
      using scan by (auto simp: wifi_softap_add_dhcps_lease_def)
    with True assms(1) show ?thesis by (auto simp: abs_add_def len Let_def)
  next
    case False
    let ?a = "(next_ip ^^ length cs) ?lo"
    define v where "v = new_lease (dhcps_lease_time s) DHCPS_TYPE_STATIC b ?a"
    let ?s1 = "s\<lparr>pools := alloc (pools s) pa zero_pool\<rparr>"
    let ?f = "\<lambda>v. v\<lparr>pool_ip := ?a, pool_mac := b, lease_timer := dhcps_lease_time s,
        pool_type := DHCPS_TYPE_STATIC, pool_state := DHCPS_STATE_ONLINE\<rparr>"
    have t1: "tab ?s1 cs {} {pa}" using t assms(2,4) by (rule alloc_pool_tab)
    have d1: "deref (pools ?s1) pa = Some zero_pool" using assms(4) by (simp add: alloc_def)
    from set_pool_detached [OF t1 _ d1, of ?f] obtain s2 where s2: "set_pool pa ?f ?s1 = Some s2"
      "tab s2 cs {} {pa}" "nodes s2 = nodes s" "pools s2 = (pools ?s1)(pa \<mapsto> v)" "same_server s s2"
      by (auto simp: v_def new_lease_def zero_pool_def)
    have fr: "fresh (nodes s2) na" "deref (pools s2) pa = Some v"
      using assms(3,4) s2 by (simp_all add: deref_nonnull)
    from insert_new_tab [OF s2(2) fr(1) assms(5) fr(2)] obtain s3 where s3:
      "insert_plist na (s2\<lparr>nodes := (alloc (nodes s2) na zero_node)(na \<mapsto> \<lparr>pnode = pa, pnext = NULL\<rparr>)\<rparr>)
         = Some s3" "tab s3 (ins_by cell_ip (na, pa, v) cs) {} {}" "same_server s2 s3" by auto
    have "wifi_softap_add_dhcps_lease pa na b s = Some (s3, True)"
      using False scan s2(1) s3(1) assms(5)
      by (simp add: wifi_softap_add_dhcps_lease_def zero_node_def alloc_def)
    moreover have "(leases (ins_by cell_ip (na, pa, v) cs), True)
        = abs_add (dhcps_lease_time s) ?lo ?hi b (leases cs)"
      using False by (simp add: abs_add_def len leases_ins v_def)
    ultimately show ?thesis
      using s3(2) same_server_trans [OF s2(5) s3(3)] by (auto simp: table_tab)
  qed
qed

section \<open>Asking for an address\<close>

text \<open>One lemma per path through the code; \<open>c\<close> is the station's cell, \<open>d\<close> the address's.\<close>

lemma known_same:
  assumes "tab s cs {} {}" "c \<in> set cs"
  shows "\<exists>s'. client_update_known b ip ty flag (addr_of c) (addr_of c) start s = Some (s', cell_ip c)
    \<and> tab s' (map (upd_cell c (online (dhcps_lease_time s) DHCPS_TYPE_DYNAMIC)) cs) {} {}
    \<and> same_server (s\<lparr>renew := True\<rparr>) s'"
proof -
  have ch: "chain (nodes s) (pools s) (plist s) cs" using assms(1) by (simp add: tab_def)
  obtain q where q: "deref (nodes s) (addr_of c) = Some \<lparr>pnode = lease_ptr c, pnext = q\<rparr>"
    "deref (pools s) (lease_ptr c) = Some (lease_of c)" "addr_of c \<noteq> NULL"
    using chain_node [OF ch assms(2)] chain_lease [OF ch assms(2)] chain_nonnull [OF ch assms(2)] by auto
  have "tab (s\<lparr>renew := True\<rparr>) cs {} {}" using assms(1) by (simp add: tab_def)
  from set_pool_tab [OF this assms(2), of "online (dhcps_lease_time s) DHCPS_TYPE_DYNAMIC"] q
  show ?thesis by (auto simp: client_update_known_def)
qed

lemma known_other_online:
  assumes "tab s cs {} {}" "d \<in> set cs" "addr_of d \<noteq> pmac"
    and "pool_state (lease_of d) \<noteq> DHCPS_STATE_OFFLINE"
  shows "client_update_known b ip ty flag pmac (addr_of d) start s = Some (s, IPADDR_ANY)"
proof -
  have ch: "chain (nodes s) (pools s) (plist s) cs" using assms(1) by (simp add: tab_def)
  show ?thesis
    using chain_node [OF ch assms(2)] chain_lease [OF ch assms(2)] chain_nonnull [OF ch assms(2)] assms(3,4)
    by (auto simp: client_update_known_def)
qed

lemma known_other_offline:
  assumes "tab s cs {} {}" "c \<in> set cs" "d \<in> set cs" "addr_of d \<noteq> addr_of c"
    and "pool_state (lease_of d) = DHCPS_STATE_OFFLINE"
  shows "\<exists>s'. client_update_known b ip ty flag (addr_of c) (addr_of d) start s = Some (s', cell_ip d)
    \<and> tab s' (map (upd_cell d (\<lambda>v. online (dhcps_lease_time s) ty (v\<lparr>pool_mac := b\<rparr>)))
                (filter (\<lambda>e. e \<noteq> c) cs)) {} {}
    \<and> same_server s s'"
proof -
  have ch: "chain (nodes s) (pools s) (plist s) cs" using assms(1) by (simp add: tab_def)
  obtain q where q: "deref (nodes s) (addr_of d) = Some \<lparr>pnode = lease_ptr d, pnext = q\<rparr>"
    "deref (pools s) (lease_ptr d) = Some (lease_of d)" "addr_of d \<noteq> NULL"
    using chain_node [OF ch assms(3)] chain_lease [OF ch assms(3)] chain_nonnull [OF ch assms(3)] by auto
  from remove_free_tab [OF assms(1,2)] obtain s1 s2 where r: "remove_plist (addr_of c) s = Some s1"
    "free_node (addr_of c) s1 = Some s2" "tab s2 (filter (\<lambda>e. e \<noteq> c) cs) {} {}" "same_server s s2"
    by blast
  have "d \<in> set (filter (\<lambda>e. e \<noteq> c) cs)" using assms(3,4) by auto
  from set_pool_tab [OF r(3) this, of "\<lambda>v. online (dhcps_lease_time s) ty (v\<lparr>pool_mac := b\<rparr>)"]
  obtain s3 where s3: "set_pool (lease_ptr d) (\<lambda>v. online (dhcps_lease_time s) ty (v\<lparr>pool_mac := b\<rparr>)) s2 = Some s3"
    "tab s3 (map (upd_cell d (\<lambda>v. online (dhcps_lease_time s) ty (v\<lparr>pool_mac := b\<rparr>)))
                (filter (\<lambda>e. e \<noteq> c) cs)) {} {}"
    "deref (pools s3) (lease_ptr d) = Some (online (dhcps_lease_time s) ty (lease_of d\<lparr>pool_mac := b\<rparr>))"
    "same_server s2 s3" by auto
  have "client_update_known b ip ty flag (addr_of c) (addr_of d) start s = Some (s3, cell_ip d)"
    using q r s3 assms(4,5) by (simp add: client_update_known_def online_def)
  with s3(2) same_server_trans [OF r(4) s3(4)] show ?thesis by blast
qed

lemma filter_upd_cell:
  "(\<And>e. e \<in> set cs \<Longrightarrow> addr_of e = addr_of c \<Longrightarrow> e = c) \<Longrightarrow>
   filter (\<lambda>e. e \<noteq> upd_cell c f c) (map (upd_cell c f) cs) = filter (\<lambda>e. e \<noteq> c) cs"
proof (induction cs)
  case (Cons e cs)
  show ?case
  proof (cases "e = c")
    case True
    then show ?thesis using Cons by simp
  next
    case False
    then have "upd_cell c f e = e" "e \<noteq> upd_cell c f c"
      using Cons.prems [of e] by (auto simp: upd_cell_def)
    then show ?thesis using Cons False by simp
  qed
qed simp

lemma known_move:
  assumes "tab s cs {} {}" "c \<in> set cs"
    and "(case ip of Some i \<Rightarrow> Some i | None \<Rightarrow> if flag then Some start else None) = Some a"
  shows "\<exists>s'. client_update_known b ip ty flag (addr_of c) NULL start s = Some (s', a)
    \<and> tab s' (ins_by cell_ip (addr_of c, lease_ptr c, online (dhcps_lease_time s) ty (lease_of c\<lparr>pool_ip := a\<rparr>))
                (filter (\<lambda>e. e \<noteq> c) cs)) {} {}
    \<and> same_server s s'"
proof -
  let ?f = "\<lambda>v. v\<lparr>pool_ip := a\<rparr>" and ?on = "online (dhcps_lease_time s) ty"
  let ?c = "upd_cell c ?f c"
  have ch: "chain (nodes s) (pools s) (plist s) cs" using assms(1) by (simp add: tab_def)
  obtain q where q: "deref (nodes s) (addr_of c) = Some \<lparr>pnode = lease_ptr c, pnext = q\<rparr>"
    "deref (pools s) (lease_ptr c) = Some (lease_of c)" "addr_of c \<noteq> NULL" "lease_ptr c \<noteq> NULL"
    using chain_node [OF ch assms(2)] chain_lease [OF ch assms(2)] chain_nonnull [OF ch assms(2)] by auto
  from set_pool_tab [OF assms(1,2), of ?f] obtain s1 where s1: "set_pool (lease_ptr c) ?f s = Some s1"
    "tab s1 (map (upd_cell c ?f) cs) {} {}" "deref (pools s1) (lease_ptr c) = Some (?f (lease_of c))"
    "same_server s s1" by auto
  have c1: "?c \<in> set (map (upd_cell c ?f) cs)" using assms(2) by auto
  from remove_plist_tab [OF s1(2) c1] obtain s2 where s2: "remove_plist (addr_of c) s1 = Some s2"
    "tab s2 (filter (\<lambda>e. e \<noteq> ?c) (map (upd_cell c ?f) cs)) {addr_of c} {lease_ptr c}"
    "deref (nodes s2) (addr_of c) = Some \<lparr>pnode = lease_ptr c, pnext = NULL\<rparr>" "pools s2 = pools s1"
    "same_server s1 s2" by auto
  have inj: "e = c" if "e \<in> set cs" "addr_of e = addr_of c" for e
    using chain_distinct [OF ch] assms(2) that by (auto simp: distinct_map inj_on_def)
  have fl: "filter (\<lambda>e. e \<noteq> ?c) (map (upd_cell c ?f) cs) = filter (\<lambda>e. e \<noteq> c) cs"
    using inj by (rule filter_upd_cell)
  have t2: "tab s2 (filter (\<lambda>e. e \<noteq> c) cs) {addr_of c} {lease_ptr c}" using s2(2) fl by simp
  have "deref (pools s2) (lease_ptr c) = Some (?f (lease_of c))" using s1(3) s2(4) by simp
  from set_pool_detached [OF t2 _ this, of ?on] obtain s3 where s3:
    "set_pool (lease_ptr c) ?on s2 = Some s3" "tab s3 (filter (\<lambda>e. e \<noteq> c) cs) {addr_of c} {lease_ptr c}"
    "nodes s3 = nodes s2" "pools s3 = (pools s2)(lease_ptr c \<mapsto> ?on (?f (lease_of c)))" "same_server s2 s3"
    by auto
  define x where "x = (addr_of c, lease_ptr c, ?on (?f (lease_of c)))"
  have "tab s3 (filter (\<lambda>e. e \<noteq> c) cs) {addr_of x} {lease_ptr x}"
    "deref (nodes s3) (addr_of x) = Some \<lparr>pnode = lease_ptr x, pnext = NULL\<rparr>"
    "deref (pools s3) (lease_ptr x) = Some (lease_of x)"
    using s3 s2(3) q(4) by (simp_all add: x_def)
  from insert_plist_tab [OF this] obtain s4 where s4: "insert_plist (addr_of c) s3 = Some s4"
    "tab s4 (ins_by cell_ip x (filter (\<lambda>e. e \<noteq> c) cs)) {} {}" "pools s4 = pools s3" "same_server s3 s4"
    by (auto simp: x_def)
  have "dhcps_lease_time s = dhcps_lease_time s2"
    using same_server_sel(1) [OF same_server_trans [OF s1(4) s2(5)]] by simp
  then have "client_update_known b ip ty flag (addr_of c) NULL start s = Some (s4, a)"
    using q s1(1) s2(1) s3(1,4) s4(1,3) assms(3) by (simp add: client_update_known_def online_def)
  moreover have "same_server s s4"
    using s1(4) s2(5) s3(5) s4(4) by (blast intro: same_server_trans)
  ultimately show ?thesis using s4(2) by (auto simp: x_def)
qed

lemma new_online:
  assumes "tab s cs {} {}" "d \<in> set cs" "pool_state (lease_of d) \<noteq> DHCPS_STATE_OFFLINE"
  shows "client_update_new pa na b ip ty flag (addr_of d) start s = Some (s, IPADDR_ANY)"
proof -
  have ch: "chain (nodes s) (pools s) (plist s) cs" using assms(1) by (simp add: tab_def)
  show ?thesis
    using chain_node [OF ch assms(2)] chain_lease [OF ch assms(2)] chain_nonnull [OF ch assms(2)] assms(3)
    by (auto simp: client_update_new_def)
qed

lemma new_offline:
  assumes "tab s cs {} {}" "d \<in> set cs" "pool_state (lease_of d) = DHCPS_STATE_OFFLINE"
  shows "\<exists>s'. client_update_new pa na b ip ty flag (addr_of d) start s = Some (s', cell_ip d)
    \<and> tab s' (map (upd_cell d (\<lambda>v. online (dhcps_lease_time s) ty (v\<lparr>pool_mac := b\<rparr>))) cs) {} {}
    \<and> same_server s s'"
proof -
  have ch: "chain (nodes s) (pools s) (plist s) cs" using assms(1) by (simp add: tab_def)
  obtain q where q: "deref (nodes s) (addr_of d) = Some \<lparr>pnode = lease_ptr d, pnext = q\<rparr>"
    "deref (pools s) (lease_ptr d) = Some (lease_of d)" "addr_of d \<noteq> NULL"
    using chain_node [OF ch assms(2)] chain_lease [OF ch assms(2)] chain_nonnull [OF ch assms(2)] by auto
  with assms set_pool_tab [OF assms(1,2), of "\<lambda>v. online (dhcps_lease_time s) ty (v\<lparr>pool_mac := b\<rparr>)"]
  show ?thesis by (auto simp: client_update_new_def)
qed

lemma new_insert:
  assumes "tab s cs {} {}" "fresh (pools s) pa" "fresh (nodes s) na" "pa \<noteq> NULL" "na \<noteq> NULL"
    and "(case ip of Some i \<Rightarrow> Some i | None \<Rightarrow> if flag then Some start else None) = Some a"
    and "a \<le> lease_end_ip (lease_range s)"
  shows "\<exists>s'. client_update_new pa na b ip ty flag NULL start s = Some (s', a)
    \<and> tab s' (ins_by cell_ip (na, pa, new_lease (dhcps_lease_time s) ty b a) cs) {} {}
    \<and> same_server s s'"
proof -
  let ?s1 = "s\<lparr>pools := alloc (pools s) pa zero_pool\<rparr>" and ?v = "new_lease (dhcps_lease_time s) ty b a"
  let ?f = "\<lambda>v. v\<lparr>pool_ip := a\<rparr>"
  let ?on = "\<lambda>v. online (dhcps_lease_time s) ty (v\<lparr>pool_mac := b\<rparr>)"
  have t1: "tab ?s1 cs {} {pa}" using assms(1,2,4) by (rule alloc_pool_tab)
  have d1: "deref (pools ?s1) pa = Some zero_pool" using assms(4) by (simp add: alloc_def)
  from set_pool_detached [OF t1 _ d1, of ?f] obtain s2 where s2: "set_pool pa ?f ?s1 = Some s2"
    "tab s2 cs {} {pa}" "nodes s2 = nodes s" "pools s2 = (pools ?s1)(pa \<mapsto> ?f zero_pool)"
    "same_server s s2" by auto
  have d2: "deref (pools s2) pa = Some (?f zero_pool)" using s2(4) assms(4) by simp
  from set_pool_detached [OF s2(2) _ d2, of ?on] obtain s3 where s3: "set_pool pa ?on s2 = Some s3"
    "tab s3 cs {} {pa}" "nodes s3 = nodes s" "pools s3 = (pools s2)(pa \<mapsto> ?v)" "same_server s2 s3"
    using s2(3) by (auto simp: online_def zero_pool_def new_lease_def)
  have fr: "fresh (nodes s3) na" "deref (pools s3) pa = Some ?v"
    using assms(3,4) s3 by (simp_all add: deref_nonnull)
  from insert_new_tab [OF s3(2) fr(1) assms(5) fr(2)] obtain s4 where s4:
    "insert_plist na (s3\<lparr>nodes := (alloc (nodes s3) na zero_node)(na \<mapsto> \<lparr>pnode = pa, pnext = NULL\<rparr>)\<rparr>)
       = Some s4" "tab s4 (ins_by cell_ip (na, pa, ?v) cs) {} {}" "pools s4 = pools s3"
    "same_server s3 s4" by auto
  have lt: "dhcps_lease_time s2 = dhcps_lease_time s" using same_server_sel(1) [OF s2(5)] .
  have "client_update_new pa na b ip ty flag NULL start s = Some (s4, a)"
    using s2(1) s3(1) s4(1,3) fr(2) assms(4-6) leD [OF assms(7)]
    by (simp add: client_update_new_def zero_node_def alloc_def new_lease_def)
  moreover have "same_server s s4"
    using s2(5) s3(5) s4(4) by (blast intro: same_server_trans)
  ultimately show ?thesis using s4(2) by blast
qed

text \<open>Out of range: the lease that was allocated is freed again.\<close>

lemma new_beyond:
  assumes "tab s cs {} {}" "fresh (pools s) pa" "pa \<noteq> NULL"
    and "(case ip of Some i \<Rightarrow> Some i | None \<Rightarrow> if flag then Some start else None) = Some a"
    and "lease_end_ip (lease_range s) < a"
  shows "client_update_new pa na b ip ty flag NULL start s = Some (s, IPADDR_ANY)"
proof -
  have "(pools s)(pa := None) = pools s" using assms(2,3) by (auto simp: fresh_def)
  with assms show ?thesis
    by (simp add: client_update_new_def set_pool_def alloc_def os_free_def)
qed

lemma find_mac:
  assumes "unique (leases cs)"
  shows "filter (\<lambda>c. pool_mac (lease_of c) = b) cs =
      (case find (\<lambda>c. pool_mac (lease_of c) = b) cs of None \<Rightarrow> [] | Some c \<Rightarrow> [c])"
    and "filter (\<lambda>c. cell_ip c = i) cs =
      (case find (\<lambda>c. cell_ip c = i) cs of None \<Rightarrow> [] | Some c \<Rightarrow> [c])"
  using assms by (auto intro: filter_key simp: unique_def)

lemma gap_flag_absent: "b \<notin> pool_mac ` set vs \<Longrightarrow> \<not> gap_flag b lo vs \<Longrightarrow>
    first_gap b lo vs = (next_ip ^^ length vs) lo"
  by (induction b lo vs rule: first_gap.induct) (auto simp: funpow_swap1 split: if_splits)

lemma gap_flag_present: "b \<in> pool_mac ` set vs \<Longrightarrow> gap_flag b lo vs"
  by (induction b lo vs rule: first_gap.induct) auto

lemma upd_drop_mac:
  "distinct (map pool_mac (leases cs)) \<Longrightarrow> c \<in> set cs \<Longrightarrow>
   leases (filter (\<lambda>e. e \<noteq> c) cs) = drop_mac (pool_mac (lease_of c)) (leases cs)"
  using leases_filter_key [of c cs pool_mac] by (simp add: drop_mac_def)

text \<open>The two forms of the call, for an address the station names and for any address.\<close>

lemma update_ip_refines:
  assumes "table s cs" "unique (leases cs)" "i \<noteq> IPADDR_ANY" "i \<noteq> IPADDR_BROADCAST"
    and "fresh (pools s) pa" "fresh (nodes s) na" "pa \<noteq> NULL" "na \<noteq> NULL"
  shows "\<exists>s' cs' r. wifi_softap_dhcps_client_update pa na (Some b) (Some i) s = Some (s', r)
    \<and> table s' cs'
    \<and> (leases cs', r, renew s')
        = abs_update_ip (dhcps_lease_time s) (lease_end_ip (lease_range s)) b i (leases cs)
    \<and> same_server (s\<lparr>renew := renew s'\<rparr>) s'"
proof -
  let ?s = "s\<lparr>renew := False\<rparr>" and ?lo = "lease_start_ip (lease_range s)"
  let ?fm = "find (\<lambda>c. pool_mac (lease_of c) = b) cs" and ?fi = "find (\<lambda>c. cell_ip c = i) cs"
  have t: "tab s cs {} {}" using assms(1) by (simp add: table_tab)
  then have t0: "tab ?s cs {} {}" by (simp add: tab_def)
  then have ch: "chain (nodes ?s) (pools ?s) (plist ?s) cs" by (simp add: tab_def)
  have ips: "distinct (map pool_ip (leases cs))" and macs: "distinct (map pool_mac (leases cs))"
    using assms(2) by (simp_all add: unique_def)
  have fr: "fresh (pools ?s) pa" "fresh (nodes ?s) na" using assms(5,6) by simp_all
  have lf: "find (\<lambda>v. pool_mac v = b) (leases cs) = map_option lease_of ?fm"
    "find (\<lambda>v. pool_ip v = i) (leases cs) = map_option lease_of ?fi"
    by (simp_all add: find_leases)
  define pm where "pm = (case ?fm of None \<Rightarrow> NULL | Some c \<Rightarrow> addr_of c)"
  define pi where "pi = (case ?fi of None \<Rightarrow> NULL | Some d \<Rightarrow> addr_of d)"
  have "client_update_scan ?s b (Some i) False NULL NULL ?lo (plist s) = Some (False, pm, pi, ?lo)"
    using client_update_scan_ip [OF ch, of b i False NULL NULL ?lo] find_mac [OF assms(2)]
    by (simp add: pm_def pi_def split: option.splits)
  then have run: "wifi_softap_dhcps_client_update pa na (Some b) (Some i) s =
      (if pm \<noteq> NULL then client_update_known b (Some i) DHCPS_TYPE_STATIC False pm pi ?lo ?s
       else client_update_new pa na b (Some i) DHCPS_TYPE_STATIC False pi ?lo ?s)"
    using assms(3,4) by (simp add: wifi_softap_dhcps_client_update_def)
  let ?abs = "abs_update_ip (dhcps_lease_time s) (lease_end_ip (lease_range s)) b i (leases cs)"
  have fin: ?thesis
    if "wifi_softap_dhcps_client_update pa na (Some b) (Some i) s = Some (s', r)" "tab s' cs' {} {}"
      "same_server (s\<lparr>renew := x\<rparr>) s'" "(leases cs', r, x) = ?abs" for s' r cs' x
    using that same_server_sel(3) [OF that(3)] by (auto simp: table_tab)
  show ?thesis
  proof (cases ?fm)
    case None
    show ?thesis
    proof (cases ?fi)
      case None': None
      show ?thesis
      proof (cases "i > lease_end_ip (lease_range s)")
        case True
        then have "client_update_new pa na b (Some i) DHCPS_TYPE_STATIC False NULL ?lo ?s = Some (?s, IPADDR_ANY)"
          by (intro new_beyond [OF t0 fr(1) assms(7)]) simp_all
        then show ?thesis using True None None' lf
          by (intro fin [OF _ t0, of IPADDR_ANY False]) (simp_all add: run pm_def pi_def abs_update_ip_def)
      next
        case False
        with new_insert [OF t0 fr assms(7,8), where ip = "Some i" and flag = False and start = ?lo
            and a = i and b = b and ty = DHCPS_TYPE_STATIC]
        obtain s' where u: "client_update_new pa na b (Some i) DHCPS_TYPE_STATIC False NULL ?lo ?s = Some (s', i)"
          "tab s' (ins_by cell_ip (na, pa, new_lease (dhcps_lease_time s) DHCPS_TYPE_STATIC b i) cs) {} {}"
          "same_server ?s s'" by (auto simp: not_less)
        show ?thesis using u(1) False None None' lf
          by (intro fin [where r = i, OF _ u(2,3)]) (simp_all add: run pm_def pi_def abs_update_ip_def leases_ins3)
      qed
    next
      case (Some d)
      note d = tab_find [OF t0 Some]
      show ?thesis
      proof (cases "pool_state (lease_of d) = DHCPS_STATE_OFFLINE")
        case True
        from new_offline [OF t0 d(1) True, of pa na b "Some i" DHCPS_TYPE_STATIC False ?lo]
        obtain s' where u: "client_update_new pa na b (Some i) DHCPS_TYPE_STATIC False (addr_of d) ?lo ?s
            = Some (s', cell_ip d)"
          "tab s' (map (upd_cell d (\<lambda>v. online (dhcps_lease_time s) DHCPS_TYPE_STATIC (v\<lparr>pool_mac := b\<rparr>))) cs) {} {}"
          "same_server ?s s'" by auto
        show ?thesis using u(1) True None Some lf d(2)
          by (intro fin [where r = i, OF _ u(2,3)]) (simp_all add: run pm_def pi_def abs_update_ip_def leases_upd [OF d(1) ips])
      next
        case False
        from new_online [OF t0 d(1) False, of pa na b "Some i" DHCPS_TYPE_STATIC False ?lo]
        show ?thesis using False None Some lf
          by (intro fin [OF _ t0, of IPADDR_ANY False]) (simp_all add: run pm_def pi_def abs_update_ip_def)
      qed
    qed
  next
    case (Some c)
    note c = tab_find [OF t0 Some]
    have mac: "pool_mac (lease_of c) = b" and pm: "pm = addr_of c"
      using c(2) Some by (simp_all add: pm_def)
    show ?thesis
    proof (cases ?fi)
      case None
      from known_move [OF t0 c(1), where ip = "Some i" and flag = False and start = ?lo and a = i
          and b = b and ty = DHCPS_TYPE_STATIC]
      obtain s' where u: "client_update_known b (Some i) DHCPS_TYPE_STATIC False (addr_of c) NULL ?lo ?s = Some (s', i)"
        "tab s' (ins_by cell_ip (addr_of c, lease_ptr c,
            online (dhcps_lease_time s) DHCPS_TYPE_STATIC (lease_of c\<lparr>pool_ip := i\<rparr>))
              (filter (\<lambda>e. e \<noteq> c) cs)) {} {}" "same_server ?s s'" by auto
      show ?thesis using u(1) c(3) Some None lf mac pm upd_drop_mac [OF macs c(1)]
        by (intro fin [where r = i, OF _ u(2,3)]) (simp_all add: run pi_def abs_update_ip_def leases_ins3)
    next
      case Some': (Some d)
      note d = tab_find [OF t0 Some']
      have same: "addr_of d = addr_of c \<longleftrightarrow> cell_ip c = i"
      proof
        assume "addr_of d = addr_of c"
        then have "d = c" using chain_distinct [OF ch] c(1) d(1) by (auto simp: distinct_map inj_on_def)
        then show "cell_ip c = i" using d(2) by simp
      next
        assume "cell_ip c = i"
        then have "c = d" using ips c(1) d(1,2)
          by (intro inj_onD [where f = "\<lambda>c. cell_ip c" and A = "set cs"])
            (auto simp: leases_def distinct_map comp_def inj_on_image_iff intro: inj_on_imageI2 comp_inj_on)
        then show "addr_of d = addr_of c" by simp
      qed
      show ?thesis
      proof (cases "cell_ip c = i")
        case True
        from known_same [OF t0 c(1), of b "Some i" DHCPS_TYPE_STATIC False ?lo] obtain s' where
          u: "client_update_known b (Some i) DHCPS_TYPE_STATIC False (addr_of c) (addr_of c) ?lo ?s = Some (s', cell_ip c)"
          "tab s' (map (upd_cell c (online (dhcps_lease_time s) DHCPS_TYPE_DYNAMIC)) cs) {} {}"
          "same_server (s\<lparr>renew := True\<rparr>) s'" by auto
        show ?thesis using u(1) True same c(3) Some Some' lf pm
          by (intro fin [where r = i, OF _ u(2,3)]) (simp_all add: run pi_def abs_update_ip_def leases_upd [OF c(1) ips])
      next
        case False
        show ?thesis
        proof (cases "pool_state (lease_of d) = DHCPS_STATE_OFFLINE")
          case True
          have ne: "addr_of d \<noteq> addr_of c" using False same by simp
          let ?f = "\<lambda>v. online (dhcps_lease_time s) DHCPS_TYPE_STATIC (v\<lparr>pool_mac := b\<rparr>)"
          from known_other_offline [OF t0 c(1) d(1) ne True, of b "Some i" DHCPS_TYPE_STATIC False ?lo]
          obtain s' where u:
             "client_update_known b (Some i) DHCPS_TYPE_STATIC False (addr_of c) (addr_of d) ?lo ?s = Some (s', cell_ip d)"
            "tab s' (map (upd_cell d ?f) (filter (\<lambda>e. e \<noteq> c) cs)) {} {}" "same_server ?s s'" by auto
          have lv: "leases (map (upd_cell d ?f) (filter (\<lambda>e. e \<noteq> c) cs)) = upd_ip i ?f (drop_mac b (leases cs))"
          proof -
            have "d \<in> set (filter (\<lambda>e. e \<noteq> c) cs)" using d(1) ne by auto
            moreover have "distinct (map pool_ip (leases (filter (\<lambda>e. e \<noteq> c) cs)))"
              using ips upd_drop_mac [OF macs c(1)] by (simp add: drop_mac_def distinct_map_filter)
            ultimately show ?thesis
              using leases_upd upd_drop_mac [OF macs c(1)] mac d(2) by simp
          qed
          show ?thesis using u(1) lv True False c(3) d(2) Some Some' lf pm
            by (intro fin [where r = i, OF _ u(2,3)]) (simp_all add: run pi_def abs_update_ip_def)
        next
          case off: False
          from known_other_online [OF t0 d(1) _ off, of "addr_of c" b "Some i" DHCPS_TYPE_STATIC False ?lo]
          show ?thesis using False off same c(3) Some Some' lf pm
            by (intro fin [OF _ t0, of IPADDR_ANY False]) (simp_all add: run pi_def abs_update_ip_def)
        qed
      qed
    qed
  qed
qed

lemma update_any_refines:
  assumes "table s cs" "unique (leases cs)" "ip \<in> {None, Some IPADDR_ANY}"
    and "fresh (pools s) pa" "fresh (nodes s) na" "pa \<noteq> NULL" "na \<noteq> NULL"
  shows "\<exists>s' cs' r. wifi_softap_dhcps_client_update pa na (Some b) ip s = Some (s', r)
    \<and> table s' cs'
    \<and> (leases cs', r, renew s') = abs_update_any (dhcps_lease_time s)
         (lease_start_ip (lease_range s)) (lease_end_ip (lease_range s)) b (leases cs)
    \<and> same_server (s\<lparr>renew := renew s'\<rparr>) s'"
proof -
  let ?s = "s\<lparr>renew := False\<rparr>" and ?lo = "lease_start_ip (lease_range s)"
  let ?hi = "lease_end_ip (lease_range s)"
  let ?fm = "find (\<lambda>c. pool_mac (lease_of c) = b) cs" and ?a = "first_gap b ?lo (leases cs)"
  have t: "tab s cs {} {}" using assms(1) by (simp add: table_tab)
  then have t0: "tab ?s cs {} {}" by (simp add: tab_def)
  then have ch: "chain (nodes ?s) (pools ?s) (plist ?s) cs" by (simp add: tab_def)
  have macs: "distinct (map pool_mac (leases cs))" using assms(2) by (simp add: unique_def)
  have fr: "fresh (pools ?s) pa" "fresh (nodes ?s) na" using assms(4,5) by simp_all
  have lf: "find (\<lambda>v. pool_mac v = b) (leases cs) = map_option lease_of ?fm"
    by (simp add: find_leases)
  define pm where "pm = (case ?fm of None \<Rightarrow> NULL | Some c \<Rightarrow> addr_of c)"
  have "client_update_scan ?s b None False NULL NULL ?lo (plist s)
      = Some (gap_flag b ?lo (leases cs), pm, NULL, ?a)"
    using client_update_scan_gap [OF ch, of b ?lo] by (simp add: pm_def case_filter)
  then have run: "wifi_softap_dhcps_client_update pa na (Some b) ip s =
      (if \<not> gap_flag b ?lo (leases cs) \<and> ?a > ?hi then Some (?s, IPADDR_ANY)
       else if pm \<noteq> NULL then client_update_known b None DHCPS_TYPE_DYNAMIC True pm NULL ?a ?s
       else client_update_new pa na b None DHCPS_TYPE_DYNAMIC True NULL ?a ?s)"
    using assms(3) by (auto simp: wifi_softap_dhcps_client_update_def IPADDR_ANY_def IPADDR_BROADCAST_def)
  let ?abs = "abs_update_any (dhcps_lease_time s) ?lo ?hi b (leases cs)"
  have fin: ?thesis
    if "wifi_softap_dhcps_client_update pa na (Some b) ip s = Some (s', r)" "tab s' cs' {} {}"
      "same_server (s\<lparr>renew := x\<rparr>) s'" "(leases cs', r, x) = ?abs" for s' r cs' x
    using that same_server_sel(3) [OF that(3)] by (auto simp: table_tab)
  show ?thesis
  proof (cases ?fm)
    case None
    show ?thesis
    proof (cases "?a > ?hi")
      case True
      then have "client_update_new pa na b None DHCPS_TYPE_DYNAMIC True NULL ?a ?s = Some (?s, IPADDR_ANY)"
        by (intro new_beyond [OF t0 fr(1) assms(6)]) simp_all
      then show ?thesis using True None lf
        by (intro fin [OF _ t0, of IPADDR_ANY False]) (simp_all add: run pm_def abs_update_any_def Let_def)
    next
      case False
      with new_insert [OF t0 fr assms(6,7), where ip = None and flag = True and start = ?a
          and a = ?a and b = b and ty = DHCPS_TYPE_DYNAMIC]
      obtain s' where u: "client_update_new pa na b None DHCPS_TYPE_DYNAMIC True NULL ?a ?s = Some (s', ?a)"
        "tab s' (ins_by cell_ip (na, pa, new_lease (dhcps_lease_time s) DHCPS_TYPE_DYNAMIC b ?a) cs) {} {}"
        "same_server ?s s'" by (auto simp: not_less)
      show ?thesis using u(1) False None lf
        by (intro fin [where r = ?a, OF _ u(2,3)])
          (simp_all add: run pm_def abs_update_any_def leases_ins3 Let_def)
    qed
  next
    case (Some c)
    note c = tab_find [OF t0 Some]
    have mac: "pool_mac (lease_of c) = b" and pm: "pm = addr_of c"
      using c(2) Some by (simp_all add: pm_def)
    have "gap_flag b ?lo (leases cs)"
      using c(1,2) by (intro gap_flag_present) (auto simp: leases_def)
    moreover from known_move [OF t0 c(1), where ip = None and flag = True and start = ?a and a = ?a
        and b = b and ty = DHCPS_TYPE_DYNAMIC]
    obtain s' where u: "client_update_known b None DHCPS_TYPE_DYNAMIC True (addr_of c) NULL ?a ?s = Some (s', ?a)"
      "tab s' (ins_by cell_ip (addr_of c, lease_ptr c,
          online (dhcps_lease_time s) DHCPS_TYPE_DYNAMIC (lease_of c\<lparr>pool_ip := ?a\<rparr>))
            (filter (\<lambda>e. e \<noteq> c) cs)) {} {}" "same_server ?s s'" by auto
    ultimately show ?thesis using c(3) Some lf mac pm upd_drop_mac [OF macs c(1)]
      by (intro fin [where r = ?a, OF _ u(2,3)])
        (simp_all add: run abs_update_any_def leases_ins3 Let_def)
  qed
qed

section \<open>The coarse timer\<close>

definition hd_ptr :: "cell list \<Rightarrow> ptr" where
  "hd_ptr cs = (case cs of [] \<Rightarrow> NULL | c # _ \<Rightarrow> addr_of c)"

lemma hd_ptr_simps [simp]: "hd_ptr [] = NULL" "hd_ptr (c # cs) = addr_of c"
  by (simp_all add: hd_ptr_def)

lemma chain_append:
  "chain N P p (xs @ ys) \<Longrightarrow> chain N P (hd_ptr ys) ys"
  by (induction xs arbitrary: p) (auto simp: hd_ptr_def dest: chain_head)

lemma chain_mid:
  assumes "chain N P p (xs @ c # ys)"
  shows "addr_of c \<noteq> NULL" "deref P (lease_ptr c) = Some (lease_of c)"
    "deref N (addr_of c) = Some \<lparr>pnode = lease_ptr c, pnext = hd_ptr ys\<rparr>"
proof -
  from chain_append [OF assms] have ch: "chain N P (addr_of c) (c # ys)" by simp
  then obtain q where "addr_of c \<noteq> NULL" "deref P (lease_ptr c) = Some (lease_of c)"
    "deref N (addr_of c) = Some \<lparr>pnode = lease_ptr c, pnext = q\<rparr>" "chain N P q ys"
    by (rule chain_ConsE)
  with chain_head [of N P q ys] show "addr_of c \<noteq> NULL" "deref P (lease_ptr c) = Some (lease_of c)"
    "deref N (addr_of c) = Some \<lparr>pnode = lease_ptr c, pnext = hd_ptr ys\<rparr>"
    by (simp_all add: hd_ptr_def)
qed

lemma map_upd_cell_mid:
  assumes "c \<notin> set xs" "c \<notin> set ys"
  shows "map (upd_cell c f) (xs @ c # ys) = xs @ (addr_of c, lease_ptr c, f (lease_of c)) # ys"
  using assms by (auto simp: upd_cell_def intro!: map_idI)

lemma filter_mid:
  assumes "c \<notin> set xs" "c \<notin> set ys"
  shows "filter (\<lambda>e. e \<noteq> c) (xs @ c # ys) = xs @ ys"
proof -
  have "filter (\<lambda>e. e \<noteq> c) xs = xs" "filter (\<lambda>e. e \<noteq> c) ys = ys"
    using assms by (auto simp: filter_id_conv)
  then show ?thesis by simp
qed

lemma tab_mid_distinct:
  assumes "tab s (xs @ c # ys) A B"
  shows "c \<notin> set xs" "c \<notin> set ys"
proof -
  have "chain (nodes s) (pools s) (plist s) (xs @ c # ys)" using assms by (simp add: tab_def)
  then have "distinct (map addr_of (xs @ c # ys))" by (rule chain_distinct)
  then show "c \<notin> set xs" "c \<notin> set ys" by auto
qed

lemma coarse_loop_refines:
  "tab s (xs @ cs) {} {} \<Longrightarrow> \<exists>s' ds. coarse_tmr_loop s (hd_ptr cs) num
       = Some (s', num + of_nat (length ds))
     \<and> tab s' (xs @ ds) {} {} \<and> leases ds = abs_tick (leases cs) \<and> same_server s s'"
proof (induction cs arbitrary: s xs num)
  case Nil
  then show ?case
    by (intro exI [of _ s] exI [of _ "[]"]) (simp add: coarse_tmr_loop.simps hd_ptr_def abs_tick_def)
next
  case (Cons c cs)
  let ?f = "\<lambda>v. if pool_type v = DHCPS_TYPE_DYNAMIC then v\<lparr>lease_timer := lease_timer v - 1\<rparr> else v"
  have f: "?f = tick" by (simp add: tick_def fun_eq_iff)
  define c' where "c' = (addr_of c, lease_ptr c, tick (lease_of c))"
  have ch: "chain (nodes s) (pools s) (plist s) (xs @ c # cs)" using Cons.prems by (simp add: tab_def)
  note cm = chain_mid [OF ch] and cd = tab_mid_distinct [OF Cons.prems]
  from set_pool_tab [OF Cons.prems, of c tick] obtain s1 where s1:
    "set_pool (lease_ptr c) tick s = Some s1" "tab s1 (map (upd_cell c tick) (xs @ c # cs)) {} {}"
    "deref (pools s1) (lease_ptr c) = Some (tick (lease_of c))" "same_server s s1" by auto
  have t1: "tab s1 (xs @ c' # cs) {} {}"
    using s1(2) map_upd_cell_mid [OF cd, of tick] by (simp add: c'_def)
  have step: "coarse_tmr_loop s (hd_ptr (c # cs)) num =
      (if lease_timer (tick (lease_of c)) = 0
       then do { s2 \<leftarrow> remove_plist (addr_of c) s1; s3 \<leftarrow> free_node (addr_of c) s2;
                 coarse_tmr_loop s3 (hd_ptr cs) num }
       else coarse_tmr_loop s1 (hd_ptr cs) (num + 1))"
    using cm s1(1,3) by (subst coarse_tmr_loop.simps) (simp add: f cong del: bind_weak_cong)
  show ?case
  proof (cases "lease_timer (tick (lease_of c)) = 0")
    case True
    have "c' \<in> set (xs @ c' # cs)" by simp
    from remove_free_tab [OF t1 this] obtain s2 s3 where r: "remove_plist (addr_of c') s1 = Some s2"
      "free_node (addr_of c') s2 = Some s3" "tab s3 (filter (\<lambda>d. d \<noteq> c') (xs @ c' # cs)) {} {}"
      "same_server s1 s3" by blast
    have "tab s3 (xs @ cs) {} {}" using r(3) filter_mid [OF tab_mid_distinct [OF t1]] by simp
    from Cons.IH [OF this, of num] obtain s' ds where
      "coarse_tmr_loop s3 (hd_ptr cs) num = Some (s', num + of_nat (length ds))"
      "tab s' (xs @ ds) {} {}" "leases ds = abs_tick (leases cs)" "same_server s3 s'" by auto
    then show ?thesis using True step r s1(4)
      by (intro exI [of _ s'] exI [of _ ds])
        (auto simp: c'_def abs_tick_def intro: same_server_trans)
  next
    case False
    from Cons.IH [of s1 "xs @ [c']" "num + 1"] t1 obtain s' ds where
      "coarse_tmr_loop s1 (hd_ptr cs) (num + 1) = Some (s', num + 1 + of_nat (length ds))"
      "tab s' (xs @ c' # ds) {} {}" "leases ds = abs_tick (leases cs)" "same_server s1 s'" by auto
    then show ?thesis using False step s1(4)
      by (intro exI [of _ s'] exI [of _ "c' # ds"])
        (auto simp: c'_def abs_tick_def intro: same_server_trans)
  qed
qed

abbreviation timer :: "cell \<Rightarrow> u32" where "timer c \<equiv> lease_timer (lease_of c)"

lemma kill_scan_chain:
  "chain (nodes s) (pools s) (plist s) (xs @ a # m # ys @ rest) \<Longrightarrow>
   \<exists>xs' a' ys'. xs @ a # m # ys @ rest = xs' @ a' # oldest timer m rest # ys'
     \<and> kill_scan s (addr_of (last (m # ys))) (hd_ptr rest) (addr_of a) (addr_of m) lp
       = Some (addr_of a', addr_of (oldest timer m rest),
               if rest = [] then lp else lease_ptr (last rest))"
proof (induction rest arbitrary: xs a m ys lp)
  case Nil
  then show ?case
    by (intro exI [of _ xs] exI [of _ a] exI [of _ ys]) (subst kill_scan.simps, simp)
next
  case (Cons r rs)
  note ch = Cons.prems
  have m: "deref (pools s) (lease_ptr m) = Some (lease_of m)"
    "\<exists>q. deref (nodes s) (addr_of m) = Some \<lparr>pnode = lease_ptr m, pnext = q\<rparr>"
    using chain_mid [of "nodes s" "pools s" "plist s" "xs @ [a]" m "ys @ r # rs"] ch by auto
  have r: "addr_of r \<noteq> NULL" "deref (pools s) (lease_ptr r) = Some (lease_of r)"
    "deref (nodes s) (addr_of r) = Some \<lparr>pnode = lease_ptr r, pnext = hd_ptr rs\<rparr>"
    using chain_mid [of "nodes s" "pools s" "plist s" "xs @ a # m # ys" r rs] ch by auto
  show ?case
  proof (cases "timer r < timer m")
    case True
    obtain zs l where zs: "m # ys = zs @ [l]" by (metis append_butlast_last_id list.distinct(1))
    have eq: "xs @ a # m # ys @ r # rs = (xs @ a # zs) @ l # r # [] @ rs"
      using zs by (simp add: append_Cons [symmetric] del: append_Cons)
    have "kill_scan s (addr_of (last (m # ys))) (hd_ptr (r # rs)) (addr_of a) (addr_of m) lp
      = kill_scan s (addr_of (last [r])) (hd_ptr rs) (addr_of l) (addr_of r) (lease_ptr r)"
      using True m r zs by (subst kill_scan.simps) auto
    moreover have "chain (nodes s) (pools s) (plist s) ((xs @ a # zs) @ l # r # [] @ rs)"
      using ch eq by simp
    from Cons.IH [OF this, of "lease_ptr r"] obtain xs' a' ys' where
      "(xs @ a # zs) @ l # r # [] @ rs = xs' @ a' # oldest timer r rs # ys'"
      "kill_scan s (addr_of (last [r])) (hd_ptr rs) (addr_of l) (addr_of r) (lease_ptr r)
        = Some (addr_of a', addr_of (oldest timer r rs), if rs = [] then lease_ptr r else lease_ptr (last rs))"
      by auto
    ultimately show ?thesis using True eq
      by (intro exI [of _ xs'] exI [of _ a'] exI [of _ ys']) simp
  next
    case False
    have "kill_scan s (addr_of (last (m # ys))) (hd_ptr (r # rs)) (addr_of a) (addr_of m) lp
      = kill_scan s (addr_of (last (m # ys @ [r]))) (hd_ptr rs) (addr_of a) (addr_of m) (lease_ptr r)"
      using False m r by (subst kill_scan.simps) auto
    moreover from Cons.IH [of xs a m "ys @ [r]" "lease_ptr r"] ch obtain xs' a' ys' where
      "xs @ a # m # ys @ r # rs = xs' @ a' # oldest timer m rs # ys'"
      "kill_scan s (addr_of (last (m # ys @ [r]))) (hd_ptr rs) (addr_of a) (addr_of m) (lease_ptr r)
        = Some (addr_of a', addr_of (oldest timer m rs), if rs = [] then lease_ptr r else lease_ptr (last rs))"
      by auto
    ultimately show ?thesis using False
      by (intro exI [of _ xs'] exI [of _ a'] exI [of _ ys']) simp
  qed
qed

lemma chain_unlink:
  "chain N P p (xs @ a # b # ys) \<Longrightarrow> distinct (map addr_of (xs @ a # b # ys)) \<Longrightarrow>
   chain (N(addr_of a \<mapsto> \<lparr>pnode = lease_ptr a, pnext = hd_ptr ys\<rparr>)) P p (xs @ a # ys)"
proof (induction xs arbitrary: p)
  case Nil
  let ?N = "N(addr_of a \<mapsto> \<lparr>pnode = lease_ptr a, pnext = hd_ptr ys\<rparr>)"
  from Nil(1) obtain q where a: "p = addr_of a" "addr_of a \<noteq> NULL"
    "deref P (lease_ptr a) = Some (lease_of a)" "chain N P q (b # ys)"
    unfolding append_Nil by (rule chain_ConsE)
  have "chain N P (hd_ptr ys) ys" 
    using chain_append [of N P q "[b]" ys, unfolded append_Cons append_Nil] a(4) by blast
  moreover have "addr_of a \<notin> addr_of ` set ys" using Nil(2) by auto
  ultimately have "chain ?N P (hd_ptr ys) ys" using chain_frame_node by blast
  then show ?case using a chain_ConsI [of P a ?N "hd_ptr ys" ys]
    by (simp del: fun_upd_apply chain.simps(2))
next
  case (Cons x xs)
  let ?N = "N(addr_of a \<mapsto> \<lparr>pnode = lease_ptr a, pnext = hd_ptr ys\<rparr>)"
  from Cons.prems(1) obtain q where x: "p = addr_of x" "addr_of x \<noteq> NULL"
    "deref P (lease_ptr x) = Some (lease_of x)"
    "deref N (addr_of x) = Some \<lparr>pnode = lease_ptr x, pnext = q\<rparr>" "chain N P q (xs @ a # b # ys)"
    unfolding append_Cons by (rule chain_ConsE)
  have "chain ?N P q (xs @ a # ys)" using x(5) Cons.prems(2) by (intro Cons.IH) auto
  moreover have "deref ?N (addr_of x) = Some \<lparr>pnode = lease_ptr x, pnext = q\<rparr>"
    using x(4) Cons.prems(2) by auto
  ultimately show ?case using x chain_ConsI [of P x ?N q "xs @ a # ys"]
    by (simp del: fun_upd_apply chain.simps(2))
qed

lemma oldest_map: "oldest key (f m) (map f xs) = f (oldest (\<lambda>x. key (f x)) m xs)"
  by (induction xs arbitrary: m) auto

lemma oldest_in: "oldest key m xs \<in> set (m # xs)"
  by (induction xs arbitrary: m) (auto split: if_splits)

lemma oldest_min: "v \<in> set (m # xs) \<Longrightarrow> key (oldest key m xs) \<le> key v"
proof (induction xs arbitrary: m v)
  case (Cons x xs)
  have "key (oldest key (if key x < key m then x else m) xs) \<le> key (if key x < key m then x else m)"
    by (rule Cons.IH) simp
  moreover have "key (if key x < key m then x else m) \<le> key x" "key (if key x < key m then x else m) \<le> key m"
    by auto
  ultimately show ?case using Cons.IH [of v "if key x < key m then x else m"] Cons.prems by auto
qed simp

lemma filter_upd_ip:
  assumes "\<And>v. pool_ip (f v) = pool_ip v"
  shows "filter (\<lambda>v. pool_ip v \<noteq> k) (upd_ip i f vs) = upd_ip i f (filter (\<lambda>v. pool_ip v \<noteq> k) vs)"
  using assms by (induction vs) (auto simp: upd_ip_def)

lemma upd_ip_absent: "i \<notin> pool_ip ` set vs \<Longrightarrow> upd_ip i f vs = vs"
  unfolding upd_ip_def by (intro map_idI) (metis rev_image_eqI)

lemma kill_oldest_refines:
  assumes "tab s (h # m # rest) {} {}" "unique (leases (h # m # rest))"
  shows "\<exists>s' cs'. kill_oldest_dhcps_pool s = Some s' \<and> tab s' cs' {} {}
    \<and> leases cs' = abs_kill (leases (h # m # rest)) \<and> same_server s s'"
proof -
  let ?cs = "h # m # rest" and ?o = "oldest timer m rest"
  let ?off = "\<lambda>v. v\<lparr>pool_state := DHCPS_STATE_OFFLINE\<rparr>"
  define l where "l = last ?cs"
  have l_eq: "lease_ptr l = (if rest = [] then lease_ptr m else lease_ptr (last rest))"
    by (simp add: l_def)
  have ch: "chain (nodes s) (pools s) (plist s) ?cs" using assms(1) unfolding tab_def by blast
  have da: "distinct (map addr_of ?cs)" using ch by (rule chain_distinct)
  have ips: "distinct (map pool_ip (leases ?cs))" using assms(2) by (simp add: unique_def)
  have "chain (nodes s) (pools s) (plist s) ([] @ h # m # rest)"
    "chain (nodes s) (pools s) (plist s) ([h] @ m # rest)"
    using ch by (simp_all only: append_Nil append_Cons)
  note H = chain_mid [OF this(1)] and M = chain_mid [OF this(2)]
  have hd: "plist s = addr_of h" using chain_head [OF ch] by simp
  have "kill_scan s (plist s) (addr_of m) (plist s) (addr_of m) NULL
      = kill_scan s (addr_of (last (m # []))) (hd_ptr rest) (addr_of h) (addr_of m) (lease_ptr m)"
    using M hd by (subst kill_scan.simps) simp
  moreover from kill_scan_chain [of s "[]" h m "[]" rest "lease_ptr m"] ch
  obtain xs a ys where cs: "?cs = xs @ a # ?o # ys" and
    "kill_scan s (addr_of (last (m # []))) (hd_ptr rest) (addr_of h) (addr_of m) (lease_ptr m)
      = Some (addr_of a, addr_of ?o, if rest = [] then lease_ptr m else lease_ptr (last rest))"
    unfolding append_Nil by blast
  ultimately have scan: "kill_scan s (plist s) (addr_of m) (plist s) (addr_of m) NULL
      = Some (addr_of a, addr_of ?o, lease_ptr l)"
    unfolding l_eq by simp
  define N where "N = (nodes s)(addr_of a \<mapsto> \<lparr>pnode = lease_ptr a, pnext = hd_ptr ys\<rparr>)"
  let ?s1 = "s\<lparr>nodes := N\<rparr>" and ?ds = "xs @ a # ys"
  note A = chain_mid [of "nodes s" "pools s" "plist s" xs a "?o # ys", folded cs, OF ch]
  have ch': "chain (nodes s) (pools s) (plist s) ((xs @ [a]) @ ?o # ys)" using ch cs by simp
  note O = chain_mid [OF ch']
  have ds: "?ds = filter (\<lambda>e. e \<noteq> ?o) ?cs"
    using filter_mid [of ?o "xs @ [a]" ys] tab_mid_distinct [of s "xs @ [a]" ?o ys] assms(1) cs by simp
  have on: "?o \<in> set ?cs" unfolding cs by simp
  have od: "addr_of ?o \<notin> addr_of ` set ?ds" "lease_ptr ?o \<notin> lease_ptr ` set ?ds"
    using da assms(1) unfolding cs by (auto simp: tab_def)
  have t1: "tab ?s1 ?ds {addr_of ?o} {lease_ptr ?o}"
  proof -
    have "chain N (pools s) (plist s) ?ds"
      unfolding N_def using ch da unfolding cs by (intro chain_unlink)
    moreover have "dom N = dom (nodes s)" using A(3) by (auto simp: N_def dest: deref_SomeD)
    ultimately show ?thesis using assms(1) od unfolding cs by (auto simp: tab_def)
  qed
  obtain s2 es where s2: "set_pool (lease_ptr l) ?off ?s1 = Some s2"
    "tab s2 es {addr_of ?o} {lease_ptr ?o}" "leases es = upd_ip (cell_ip l) ?off (leases ?ds)"
    "nodes s2 = N" "same_server s s2"
  proof (cases "l = ?o")
    case True
    from set_pool_detached [OF t1 _ , of "lease_ptr ?o" "lease_of ?o" ?off] O(2)
    obtain s2 where "set_pool (lease_ptr ?o) ?off ?s1 = Some s2" "tab s2 ?ds {addr_of ?o} {lease_ptr ?o}"
      "nodes s2 = N" "same_server s s2" by auto
    moreover have "cell_ip ?o \<notin> pool_ip ` set (leases ?ds)"
      using leases_filter_key [OF on ips] ds by auto
    ultimately show ?thesis using True by (intro that [of s2 ?ds]) (auto simp: upd_ip_absent)
  next
    case False
    have "l \<in> set ?cs" unfolding l_def by (rule last_in_set) simp
    with False have l: "l \<in> set ?ds" unfolding ds set_filter by blast
    have "distinct (map pool_ip (leases ?ds))"
      unfolding ds leases_filter_key [OF on ips] using ips by (rule distinct_map_filter)
    with set_pool_tab [OF t1 l, of ?off] leases_upd [OF l, of ?off] show ?thesis
      by (auto intro: that)
  qed
  have "deref (nodes s2) (addr_of ?o) = Some \<lparr>pnode = lease_ptr ?o, pnext = hd_ptr ys\<rparr>"
    using O(1,3) od(1) s2(4) by (auto simp: N_def)
  moreover have "lease_ptr ?o \<noteq> NULL" using O(2) by (auto dest: deref_SomeD)
  ultimately obtain s3 where s3: "free_node (addr_of ?o) s2 = Some s3" "tab s3 es {} {}" "same_server s2 s3"
    using free_node_tab [OF s2(2)] by auto
  have "kill_oldest_dhcps_pool s = Some s3"
    using H M scan A O s2(1) s3(1) hd
    by (simp add: kill_oldest_dhcps_pool_def N_def)
  moreover have "leases es = abs_kill (leases ?cs)"
  proof -
    have "abs_kill (leases ?cs) = filter (\<lambda>v. pool_ip v \<noteq> cell_ip ?o) (upd_ip (cell_ip l) ?off (leases ?cs))"
      using oldest_map [of lease_timer lease_of m rest]
      by (simp add: abs_kill_def leases_def l_def last_map)
    also have "\<dots> = upd_ip (cell_ip l) ?off (leases ?ds)"
      using leases_filter_key [OF on ips] ds by (simp add: filter_upd_ip)
    finally show ?thesis using s2(3) by simp
  qed
  ultimately show ?thesis using s3(2) same_server_trans [OF s2(5) s3(3)] by blast
qed

lemma unique_tick: "unique vs \<Longrightarrow> unique (abs_tick vs)"
proof -
  assume "unique vs"
  moreover have "map pool_ip (map tick vs) = map pool_ip vs" "map pool_mac (map tick vs) = map pool_mac vs"
    by (simp_all add: tick_def)
  ultimately show ?thesis
    by (simp only: unique_def abs_tick_def distinct_map_filter)
qed

lemma coarse_tmr_refines:
  assumes "table s cs" "unique (leases cs)"
  shows "\<exists>s' cs'. dhcps_coarse_tmr s = Some s' \<and> table s' cs'
    \<and> leases cs' = abs_coarse_tmr (leases cs) \<and> same_server s s'"
proof -
  have t: "tab s ([] @ cs) {} {}" using assms(1) by (simp add: table_tab)
  then have hd: "plist s = hd_ptr cs"
    by (auto simp: tab_def hd_ptr_def dest: chain_head)
  from coarse_loop_refines [OF t, of 0] obtain s1 ds where L:
    "coarse_tmr_loop s (plist s) 0 = Some (s1, of_nat (length ds))" "tab s1 ds {} {}"
    "leases ds = abs_tick (leases cs)" "same_server s s1" by (auto simp: hd)
  have len: "length (abs_tick (leases cs)) = length ds" by (metis L(3) leases_def length_map)
  show ?thesis
  proof (cases "(of_nat (length ds) :: u8) \<ge> MAX_STATION_NUM")
    case False
    then show ?thesis using L len
      by (auto simp: dhcps_coarse_tmr_def abs_coarse_tmr_def table_tab)
  next
    case True
    then obtain h m rest where ds: "ds = h # m # rest"
      by (cases ds; cases "tl ds") (auto simp: MAX_STATION_NUM_def word_le_nat_alt)
    have "unique (leases ds)" using L(3) assms(2) by (simp add: unique_tick)
    with kill_oldest_refines [of s1 h m rest] L(2) ds obtain s2 es where
      "kill_oldest_dhcps_pool s1 = Some s2" "tab s2 es {} {}" "leases es = abs_kill (leases ds)"
      "same_server s1 s2" by auto
    then show ?thesis using True L len
      by (auto simp: dhcps_coarse_tmr_def abs_coarse_tmr_def table_tab intro: same_server_trans)
  qed
qed

end
