(* ===== verification/Lease_Invariant.thy ===== *)
theory Lease_Invariant
  imports Lease_Refinement
begin

text \<open>
  The invariant of the lease table: sorted by address, one lease per address and per
  station, every address inside the configured range. It is proved for the abstract
  operations and, through the refinement lemmas, for every sequence of calls on the
  heap. The addresses are compared as \<open>u32\<close> words in network byte order, which on this
  target orders them by their last byte first; inside one /24 network that is the
  numerical order, and this is where the arithmetic of this theory is needed.
\<close>

section \<open>Addresses inside a /24 network\<close>

lemma unat_ip4_addrs:
  "unat (ip4_addr1 w) = unat w mod 256"
  "unat (ip4_addr2 w) = unat w div 256 mod 256"
  "unat (ip4_addr3 w) = unat w div 65536 mod 256"
  "unat (ip4_addr4 w) = unat w div 16777216 mod 256"
  by (simp_all add: ip4_defs unsigned_ucast_eq unsigned_drop_bit_eq take_bit_eq_mod drop_bit_eq_div
      unat_div_distrib)

lemma nat_digits:
  fixes n :: nat
  assumes "n < 4294967296"
  shows "n = n mod 256 + 256 * (n div 256 mod 256) + 65536 * (n div 65536 mod 256)
             + 16777216 * (n div 16777216 mod 256)"
proof -
  have "n div 65536 = n div 256 div 256" "n div 16777216 = n div 65536 div 256"
    by (simp_all flip: div_mult2_eq)
  moreover have "n div 16777216 < 256" using assms by (simp add: less_mult_imp_div_less)
  then have "n div 16777216 mod 256 = n div 16777216" by simp
  moreover have "n = 256 * (n div 256) + n mod 256"
    "n div 256 = 256 * (n div 256 div 256) + n div 256 mod 256"
    "n div 65536 = 256 * (n div 65536 div 256) + n div 65536 mod 256" by simp_all
  ultimately show ?thesis by linarith
qed

lemma nat_incr_digits:
  fixes n :: nat
  assumes "n mod 256 < 255" "n < 4294967296"
  shows "n + 1 < 4294967296" "(n + 1) mod 256 = n mod 256 + 1" "(n + 1) div 256 = n div 256"
    "(n + 1) div 65536 = n div 65536" "(n + 1) div 16777216 = n div 16777216"
proof -
  have "n div 256 < 16777216" using assms(2) by (simp add: less_mult_imp_div_less)
  moreover have "n = 256 * (n div 256) + n mod 256" by simp
  ultimately show "n + 1 < 4294967296" using assms(1) by linarith
  show "(n + 1) mod 256 = n mod 256 + 1" using assms(1) by (simp add: mod_Suc)
  show d: "(n + 1) div 256 = n div 256" using assms(1) by (simp add: div_Suc mod_Suc)
  have "m div 65536 = m div 256 div 256" "m div 16777216 = m div 256 div 65536" for m :: nat
    by (simp_all flip: div_mult2_eq)
  with d show "(n + 1) div 65536 = n div 65536" "(n + 1) div 16777216 = n div 16777216" by simp_all
qed

lemma unat_ip:
  "unat w = unat (ip4_addr1 w) + 256 * unat (ip4_addr2 w) + 65536 * unat (ip4_addr3 w)
            + 16777216 * unat (ip4_addr4 w)"
proof -
  have "unat w < 4294967296" using unsigned_less [of w] by simp
  then show ?thesis unfolding unat_ip4_addrs by (rule nat_digits)
qed

definition same_net :: "u32 \<Rightarrow> u32 \<Rightarrow> bool" where
  "same_net v w \<longleftrightarrow> ip4_addr1 v = ip4_addr1 w \<and> ip4_addr2 v = ip4_addr2 w \<and> ip4_addr3 v = ip4_addr3 w"

lemma same_net_refl [simp]: "same_net w w"
  by (simp add: same_net_def)

lemma same_net_sym: "same_net v w \<Longrightarrow> same_net w v"
  by (simp add: same_net_def)

lemma same_net_trans: "same_net u v \<Longrightarrow> same_net v w \<Longrightarrow> same_net u w"
  by (simp add: same_net_def)

definition host :: "u32 \<Rightarrow> nat" where
  "host w = unat (ip4_addr4 w)"

lemma host_less: "host w < 256"
  using unsigned_less [of "ip4_addr4 w"] by (simp add: host_def)

lemma net_less: "same_net v w \<Longrightarrow> v < w \<longleftrightarrow> host v < host w"
  unfolding word_less_nat_alt same_net_def unat_ip [of v] unat_ip [of w] host_def by auto

lemma net_le: "same_net v w \<Longrightarrow> v \<le> w \<longleftrightarrow> host v \<le> host w"
  using net_less [of w v] same_net_sym [of v w] by (auto simp: not_less [symmetric])

lemma net_eq: "same_net v w \<Longrightarrow> v = w \<longleftrightarrow> host v = host w"
  using net_less [of v w] net_less [of w v] same_net_sym [of v w] by (auto simp: neq_iff)

lemma next_ip_net:
  assumes "host w < 255"
  shows "same_net (next_ip w) w" "host (next_ip w) = host w + 1"
proof -
  let ?h = "htonl w"
  have b: "ip4_addr1 ?h = ip4_addr4 w" "ip4_addr2 ?h = ip4_addr3 w" "ip4_addr3 ?h = ip4_addr2 w"
    "ip4_addr4 ?h = ip4_addr1 w" by (simp_all add: htonl_bytes)
  have low: "unat ?h mod 256 < 255" using assms b(1) unat_ip4_addrs(1) [of ?h] by (simp add: host_def)
  have "unat ?h < 4294967296" using unsigned_less [of ?h] by simp
  note d = nat_incr_digits [OF low this]
  from d(1) have u: "unat (?h + 1) = unat ?h + 1" by (simp add: unat_word_ariths)
  have "unat (ip4_addr1 (?h + 1)) = unat (ip4_addr1 ?h) + 1"
    "ip4_addr2 (?h + 1) = ip4_addr2 ?h" "ip4_addr3 (?h + 1) = ip4_addr3 ?h" "ip4_addr4 (?h + 1) = ip4_addr4 ?h"
    unfolding word_unat_eq_iff unat_ip4_addrs u using d by simp_all
  then show "same_net (next_ip w) w" "host (next_ip w) = host w + 1"
    by (simp_all add: next_ip_def htonl_bytes [of "?h + 1"] b same_net_def host_def)
qed

section \<open>The invariant\<close>

text \<open>A usable range: one /24 network, and its last address is not the broadcast address.\<close>

definition range_ok :: "u32 \<Rightarrow> u32 \<Rightarrow> bool" where
  "range_ok lo hi \<longleftrightarrow> same_net lo hi \<and> lo \<le> hi \<and> host hi < 255"

definition in_range :: "u32 \<Rightarrow> u32 \<Rightarrow> u32 \<Rightarrow> bool" where
  "in_range lo hi a \<longleftrightarrow> same_net a lo \<and> lo \<le> a \<and> a \<le> hi"

definition leases_ok :: "u32 \<Rightarrow> u32 \<Rightarrow> dhcps_pool list \<Rightarrow> bool" where
  "leases_ok lo hi vs \<longleftrightarrow> range_ok lo hi \<and> sorted_wrt (\<lambda>v w. pool_ip v < pool_ip w) vs
     \<and> distinct (map pool_mac vs) \<and> (\<forall>v\<in>set vs. in_range lo hi (pool_ip v))"

lemma sorted_distinct_ips: "sorted_wrt (\<lambda>v w. pool_ip v < pool_ip w) vs \<Longrightarrow> distinct (map pool_ip vs)"
  by (induction vs) auto

lemma leases_ok_unique: "leases_ok lo hi vs \<Longrightarrow> unique vs"
  by (simp add: leases_ok_def unique_def sorted_distinct_ips)

lemma leases_ok_Nil: "range_ok lo hi \<Longrightarrow> leases_ok lo hi []"
  by (simp add: leases_ok_def)

lemma leases_ok_filter: "leases_ok lo hi vs \<Longrightarrow> leases_ok lo hi (filter P vs)"
  by (auto simp: leases_ok_def sorted_wrt_filter distinct_map_filter)

text \<open>An update that keeps the address; \<open>f\<close> may change the station if it is new.\<close>

lemma leases_ok_upd:
  assumes "leases_ok lo hi vs" "\<And>v. pool_ip (f v) = pool_ip v"
    and "(\<forall>v. pool_mac (f v) = pool_mac v) \<or> (\<exists>b. b \<notin> pool_mac ` set vs \<and> (\<forall>v. pool_mac (f v) = b))"
  shows "leases_ok lo hi (upd_ip i f vs)"
proof -
  have ip: "pool_ip (if pool_ip v = i then f v else v) = pool_ip v" for v using assms(2) by simp
  have "sorted_wrt (\<lambda>v w. pool_ip v < pool_ip w) (upd_ip i f vs)"
    using assms(1) by (simp add: leases_ok_def upd_ip_def sorted_wrt_map ip)
  moreover have "\<forall>v\<in>set (upd_ip i f vs). in_range lo hi (pool_ip v)"
    using assms(1,2) by (auto simp: leases_ok_def upd_ip_def)
  moreover have "distinct (map pool_mac (upd_ip i f vs))"
    using assms(3)
  proof
    assume "\<forall>v. pool_mac (f v) = pool_mac v"
    then have "map pool_mac (upd_ip i f vs) = map pool_mac vs" by (simp add: upd_ip_def)
    then show ?thesis using assms(1) by (simp add: leases_ok_def)
  next
    assume "\<exists>b. b \<notin> pool_mac ` set vs \<and> (\<forall>v. pool_mac (f v) = b)"
    then obtain b where b: "b \<notin> pool_mac ` set vs" "\<And>v. pool_mac (f v) = b" by auto
    have "sorted_wrt (\<lambda>v w. pool_ip v < pool_ip w) vs" "distinct (map pool_mac vs)"
      using assms(1) by (simp_all add: leases_ok_def)
    with b(1) show ?thesis
    proof (induction vs)
      case (Cons v vs)
      show ?case
      proof (cases "pool_ip v = i")
        case True
        then have "i \<notin> pool_ip ` set vs" using Cons.prems by auto
        then have "upd_ip i f vs = vs" by (rule upd_ip_absent)
        then show ?thesis using True Cons.prems b(2) by (simp add: upd_ip_def)
      next
        case False
        have "pool_mac v \<notin> pool_mac ` set (upd_ip i f vs)"
          using Cons.prems b(2) by (auto simp: upd_ip_def)
        moreover have "map pool_mac (upd_ip i f (v # vs)) = pool_mac v # map pool_mac (upd_ip i f vs)"
          using False by (simp add: upd_ip_def)
        moreover have "distinct (map pool_mac (upd_ip i f vs))"
          using Cons.prems by (intro Cons.IH) auto
        ultimately show ?thesis by simp
      qed
    qed (simp add: upd_ip_def)
  qed
  ultimately show ?thesis using assms(1) by (simp add: leases_ok_def)
qed

lemma leases_ok_ins:
  assumes "leases_ok lo hi vs" "in_range lo hi (pool_ip v)"
    and "pool_ip v \<notin> pool_ip ` set vs" "pool_mac v \<notin> pool_mac ` set vs"
  shows "leases_ok lo hi (ins_by pool_ip v vs)"
  using assms by (auto simp: leases_ok_def sorted_ins_by)

section \<open>The first free address\<close>

lemma first_gap_ok:
  assumes "leases_ok lo hi vs" "same_net a lo" "host a \<le> host hi + 1"
    and "\<forall>v\<in>set vs. a \<le> pool_ip v"
  shows "same_net (first_gap b a vs) lo \<and> a \<le> first_gap b a vs
    \<and> host (first_gap b a vs) \<le> host hi + 1
    \<and> first_gap b a vs \<notin> pool_ip ` set (drop_mac b vs)
    \<and> (b \<in> pool_mac ` set vs \<longrightarrow> first_gap b a vs \<le> hi)"
  using assms
proof (induction vs arbitrary: a)
  case Nil
  then show ?case by (simp add: drop_mac_def)
next
  case (Cons v vs)
  have v: "same_net (pool_ip v) lo" "pool_ip v \<le> hi" "a \<le> pool_ip v" "same_net lo hi" "host hi < 255"
    using Cons.prems by (auto simp: leases_ok_def in_range_def range_ok_def)
  have above: "pool_ip v < pool_ip w" if "w \<in> set vs" for w
    using that Cons.prems(1) by (auto simp: leases_ok_def)
  show ?case
  proof (cases "pool_mac v = b")
    case True
    then have "b \<notin> pool_mac ` set vs" using Cons.prems(1) by (auto simp: leases_ok_def)
    then have "drop_mac b vs = vs" by (auto simp: drop_mac_def filter_id_conv intro: rev_image_eqI)
    moreover have "a \<notin> pool_ip ` set vs" using above v(3) by force
    ultimately show ?thesis using True Cons.prems v by (auto simp: drop_mac_def)
  next
    case mac: False
    show ?thesis
    proof (cases "pool_ip v = a")
      case False
      then have "a \<notin> pool_ip ` set (v # vs)" using above v(3) by force
      then have "a \<notin> pool_ip ` set (drop_mac b (v # vs))" by (auto simp: drop_mac_def)
      moreover have "a \<le> hi" using v by auto
      ultimately show ?thesis using mac False Cons.prems by auto
    next
      case True
      have h: "host a \<le> host hi" "host a < 255"
        using True v net_le [of "pool_ip v" hi] same_net_trans [OF v(1) v(4)] by auto
      have n: "same_net (next_ip a) a" "host (next_ip a) = host a + 1" using next_ip_net [OF h(2)] by auto
      have na: "same_net (next_ip a) lo" using n(1) Cons.prems(2) by (rule same_net_trans)
      have lt: "a < next_ip a" using n net_less [of a "next_ip a"] same_net_sym by auto
      have "next_ip a \<le> pool_ip w" if "w \<in> set vs" for w
      proof -
        have "same_net (pool_ip w) lo" using that Cons.prems(1) by (auto simp: leases_ok_def in_range_def)
        then have "same_net (pool_ip w) a" "same_net (next_ip a) (pool_ip w)"
          using Cons.prems(2) na same_net_sym same_net_trans by blast+
        then show ?thesis using above [OF that] True n(2) net_less [of a "pool_ip w"] net_le [of "next_ip a"]
          same_net_sym by (metis Suc_eq_plus1 Suc_leI)
      qed
      then have "same_net (first_gap b (next_ip a) vs) lo \<and> next_ip a \<le> first_gap b (next_ip a) vs
        \<and> host (first_gap b (next_ip a) vs) \<le> host hi + 1
        \<and> first_gap b (next_ip a) vs \<notin> pool_ip ` set (drop_mac b vs)
        \<and> (b \<in> pool_mac ` set vs \<longrightarrow> first_gap b (next_ip a) vs \<le> hi)"
        using Cons.prems(1) na n(2) h by (intro Cons.IH) (auto simp: leases_ok_def)
      then show ?thesis using mac True lt by (auto simp: drop_mac_def)
    qed
  qed
qed

section \<open>The abstract operations keep the invariant\<close>

definition granted :: "u32 \<Rightarrow> u8 list \<Rightarrow> u32 \<Rightarrow> dhcps_pool list \<Rightarrow> bool" where
  "granted t b r vs \<longleftrightarrow> (\<exists>v\<in>set vs. pool_ip v = r \<and> pool_mac v = b \<and> lease_timer v = t
     \<and> pool_state v = DHCPS_STATE_ONLINE)"

lemma drop_mac_absent: "b \<notin> pool_mac ` set (drop_mac b vs)"
  by (auto simp: drop_mac_def)

lemma drop_mac_ips: "i \<notin> pool_ip ` set vs \<Longrightarrow> i \<notin> pool_ip ` set (drop_mac b vs)"
  by (auto simp: drop_mac_def)

lemma online_sel [simp]:
  "pool_ip (online t ty v) = pool_ip v" "pool_mac (online t ty v) = pool_mac v"
  "lease_timer (online t ty v) = t" "pool_state (online t ty v) = DHCPS_STATE_ONLINE"
  by (simp_all add: online_def)

lemma new_lease_sel [simp]:
  "pool_ip (new_lease t ty b a) = a" "pool_mac (new_lease t ty b a) = b"
  "lease_timer (new_lease t ty b a) = t" "pool_state (new_lease t ty b a) = DHCPS_STATE_ONLINE"
  by (simp_all add: new_lease_def)

lemma find_mac_SomeD: "find (\<lambda>v. pool_mac v = b) vs = Some m \<Longrightarrow> m \<in> set vs \<and> pool_mac m = b"
  by (auto dest: find_SomeD)

lemma find_ip_NoneD: "find (\<lambda>v. pool_ip v = i) vs = None \<Longrightarrow> i \<notin> pool_ip ` set vs"
  by (auto dest: find_NoneD)

lemma find_mac_NoneD: "find (\<lambda>v. pool_mac v = b) vs = None \<Longrightarrow> b \<notin> pool_mac ` set vs"
  by (auto dest: find_NoneD)

lemma abs_update_any_ok:
  assumes "leases_ok lo hi vs" "abs_update_any t lo hi b vs = (vs', r, rn)"
  shows "leases_ok lo hi vs'
    \<and> (r = IPADDR_ANY \<and> vs' = vs \<or> in_range lo hi r \<and> granted t b r vs')"
proof -
  let ?a = "first_gap b lo vs"
  have rng: "same_net lo hi" "lo \<le> hi" "host hi < 255"
    using assms(1) by (auto simp: leases_ok_def range_ok_def)
  have "host lo \<le> host hi" using rng net_le by auto
  with first_gap_ok [OF assms(1), of lo b] assms(1)
  have g: "same_net ?a lo" "lo \<le> ?a" "?a \<notin> pool_ip ` set (drop_mac b vs)"
    "b \<in> pool_mac ` set vs \<longrightarrow> ?a \<le> hi"
    by (auto simp: leases_ok_def in_range_def)
  show ?thesis
  proof (cases "find (\<lambda>v. pool_mac v = b) vs")
    case (Some m)
    note m = find_mac_SomeD [OF Some]
    define v where "v = online t DHCPS_TYPE_DYNAMIC (m\<lparr>pool_ip := ?a\<rparr>)"
    have v: "pool_ip v = ?a" "pool_mac v = b" "lease_timer v = t" "pool_state v = DHCPS_STATE_ONLINE"
      using m by (simp_all add: v_def)
    have "b \<in> pool_mac ` set vs" using m by auto
    then have "in_range lo hi ?a" using g by (simp add: in_range_def)
    moreover have "leases_ok lo hi (ins_by pool_ip v (drop_mac b vs))"
      using assms(1) g(3) calculation v drop_mac_absent [of b vs]
      by (intro leases_ok_ins) (simp_all add: drop_mac_def leases_ok_filter)
    moreover have "granted t b ?a (ins_by pool_ip v (drop_mac b vs))"
      using v by (auto simp: granted_def)
    ultimately show ?thesis using assms(2) Some by (auto simp: abs_update_any_def Let_def v_def)
  next
    case None
    note n = find_mac_NoneD [OF None]
    then have "drop_mac b vs = vs" by (auto simp: drop_mac_def filter_id_conv intro: rev_image_eqI)
    then have "?a \<le> hi \<Longrightarrow> leases_ok lo hi (ins_by pool_ip (new_lease t DHCPS_TYPE_DYNAMIC b ?a) vs)"
      using assms(1) g n by (intro leases_ok_ins) (simp_all add: in_range_def)
    with assms None g show ?thesis
      by (auto simp: abs_update_any_def Let_def granted_def in_range_def not_less split: if_splits)
  qed
qed

lemma granted_upd_ip:
  "p \<in> set vs \<Longrightarrow> pool_ip p = i \<Longrightarrow> pool_ip (f p) = i \<Longrightarrow> pool_mac (f p) = b \<Longrightarrow> lease_timer (f p) = t
   \<Longrightarrow> pool_state (f p) = DHCPS_STATE_ONLINE \<Longrightarrow> granted t b i (upd_ip i f vs)"
  by (force simp: granted_def upd_ip_def)

lemma abs_update_ip_ok:
  assumes "leases_ok lo hi vs" "in_range lo hi i" "abs_update_ip t hi b i vs = (vs', r, rn)"
  shows "leases_ok lo hi vs' \<and> (r = IPADDR_ANY \<and> vs' = vs \<or> r = i \<and> granted t b r vs')"
proof (cases "find (\<lambda>v. pool_mac v = b) vs")
  case None
  note n = find_mac_NoneD [OF None]
  show ?thesis
  proof (cases "find (\<lambda>v. pool_ip v = i) vs")
    case None': None
    have "leases_ok lo hi (ins_by pool_ip (new_lease t DHCPS_TYPE_STATIC b i) vs)"
      using assms(1,2) n find_ip_NoneD [OF None'] by (intro leases_ok_ins) simp_all
    with assms None None' show ?thesis
      by (auto simp: abs_update_ip_def granted_def split: if_splits)
  next
    case (Some p)
    have p: "p \<in> set vs" "pool_ip p = i" using find_SomeD [OF Some] by auto
    let ?f = "\<lambda>v. online t DHCPS_TYPE_STATIC (v\<lparr>pool_mac := b\<rparr>)"
    have "leases_ok lo hi (upd_ip i ?f vs)"
      using assms(1) n by (intro leases_ok_upd) auto
    moreover have "granted t b i (upd_ip i ?f vs)"
      using p by (intro granted_upd_ip) auto
    ultimately show ?thesis using assms None Some
      by (auto simp: abs_update_ip_def split: if_splits)
  qed
next
  case (Some m)
  note m = find_mac_SomeD [OF Some]
  show ?thesis
  proof (cases "find (\<lambda>v. pool_ip v = i) vs")
    case None
    define v where "v = online t DHCPS_TYPE_STATIC (m\<lparr>pool_ip := i\<rparr>)"
    have "leases_ok lo hi (ins_by pool_ip v (drop_mac b vs))"
      using assms(1,2) m drop_mac_absent [of b vs] drop_mac_ips [OF find_ip_NoneD [OF None], of b]
      by (intro leases_ok_ins) (simp_all add: drop_mac_def leases_ok_filter v_def)
    moreover have "granted t b i (ins_by pool_ip v (drop_mac b vs))"
      using m by (auto simp: granted_def v_def)
    ultimately show ?thesis using assms Some None by (auto simp: abs_update_ip_def v_def)
  next
    case Some': (Some p)
    have p: "p \<in> set vs" "pool_ip p = i" using find_SomeD [OF Some'] by auto
    show ?thesis
    proof (cases "pool_ip m = i")
      case True
      have "leases_ok lo hi (upd_ip i (online t DHCPS_TYPE_DYNAMIC) vs)"
        using assms(1) by (intro leases_ok_upd) auto
      moreover have "granted t b i (upd_ip i (online t DHCPS_TYPE_DYNAMIC) vs)"
        using m True by (intro granted_upd_ip [of m]) auto
      ultimately show ?thesis using assms Some Some' True by (auto simp: abs_update_ip_def)
    next
      case False
      let ?f = "\<lambda>v. online t DHCPS_TYPE_STATIC (v\<lparr>pool_mac := b\<rparr>)"
      have "p \<in> set (drop_mac b vs)"
      proof -
        have "pool_mac p \<noteq> b"
        proof
          assume "pool_mac p = b"
          then have "p = m" using assms(1) p m
            by (intro inj_onD [where f = pool_mac and A = "set vs"]) (auto simp: leases_ok_def distinct_map)
          with p False show False by simp
        qed
        with p show ?thesis by (simp add: drop_mac_def)
      qed
      then have "granted t b i (upd_ip i ?f (drop_mac b vs))"
        using p by (intro granted_upd_ip) auto
      moreover have "leases_ok lo hi (upd_ip i ?f (drop_mac b vs))"
        using assms(1) drop_mac_absent [of b vs]
        by (intro leases_ok_upd) (auto simp: drop_mac_def leases_ok_filter)
      ultimately show ?thesis using assms Some Some' False
        by (auto simp: abs_update_ip_def split: if_splits)
    qed
  qed
qed

lemma abs_leave_ok: "leases_ok lo hi vs \<Longrightarrow> leases_ok lo hi (abs_leave b i force vs)"
  by (auto simp: abs_leave_def leases_ok_filter split: option.splits intro!: leases_ok_upd)

lemma abs_tick_ok: "leases_ok lo hi vs \<Longrightarrow> leases_ok lo hi (abs_tick vs)"
proof -
  assume "leases_ok lo hi vs"
  moreover have t: "pool_ip (tick v) = pool_ip v" "pool_mac (tick v) = pool_mac v" for v
    by (simp_all add: tick_def)
  then have "map pool_mac (map tick vs) = map pool_mac vs" by simp
  ultimately have "leases_ok lo hi (map tick vs)"
    using t by (auto simp: leases_ok_def sorted_wrt_map comp_def)
  then show ?thesis by (simp add: abs_tick_def leases_ok_filter)
qed

lemma abs_coarse_tmr_ok: "leases_ok lo hi vs \<Longrightarrow> leases_ok lo hi (abs_coarse_tmr vs)"
  using abs_tick_ok [of lo hi vs]
  by (auto simp: abs_coarse_tmr_def Let_def abs_kill_def intro!: leases_ok_filter leases_ok_upd)

end
