(* ===== verification/Lease_Properties.thy ===== *)
theory Lease_Properties
  imports Lease_Invariant
begin

text \<open>
  The properties of the DHCP lease list, stated on the server state: what each call does
  to the table of leases, that the invariant survives every sequence of calls, and the
  inputs on which the code does not keep it.
\<close>

definition lease_table :: "dhcps \<Rightarrow> dhcps_pool list \<Rightarrow> bool" where
  "lease_table s vs \<longleftrightarrow> (\<exists>cs. table s cs \<and> leases cs = vs)"

abbreviation range_start :: "dhcps \<Rightarrow> u32" where "range_start s \<equiv> lease_start_ip (lease_range s)"
abbreviation range_end :: "dhcps \<Rightarrow> u32" where "range_end s \<equiv> lease_end_ip (lease_range s)"

text \<open>The two addresses that \<open>os_zalloc\<close> returns, when it does not fail.\<close>

definition can_alloc :: "dhcps \<Rightarrow> ptr \<Rightarrow> ptr \<Rightarrow> bool" where
  "can_alloc s pa na \<longleftrightarrow> fresh (pools s) pa \<and> fresh (nodes s) na \<and> pa \<noteq> NULL \<and> na \<noteq> NULL"

definition lease_inv :: "dhcps \<Rightarrow> bool" where
  "lease_inv s \<longleftrightarrow> (\<exists>vs. lease_table s vs \<and> leases_ok (range_start s) (range_end s) vs)"

lemma lease_table_empty: "plist s = NULL \<Longrightarrow> nodes s = Map.empty \<Longrightarrow> pools s = Map.empty \<Longrightarrow> lease_table s []"
  unfolding lease_table_def by (intro exI [of _ "[]"]) (simp add: table_def)

lemma range_renew:
  "same_server (s\<lparr>renew := x\<rparr>) s' \<Longrightarrow> lease_range s' = lease_range s"
  using same_server_sel(2) by fastforce

lemma range_calls:
  "same_server (s\<lparr>dhcps_calls := x\<rparr>) s' \<Longrightarrow> lease_range s' = lease_range s"
  using same_server_sel(2) by fastforce

text \<open>A range and a server state for the concrete instances.\<close>

definition sample :: dhcps where
  "sample = dhcps_init\<lparr>lease_range := \<lparr>lease_enable = True,
     lease_start_ip = IP4_ADDR 192 168 4 100, lease_end_ip = IP4_ADDR 192 168 4 110\<rparr>\<rparr>"

lemma sample_table: "lease_table sample []"
  by (rule lease_table_empty) (simp_all add: sample_def dhcps_init_def)

lemma sample_alloc: "can_alloc sample 1 1"
  by (simp add: can_alloc_def sample_def dhcps_init_def fresh_def)

lemma sample_range: "leases_ok (range_start sample) (range_end sample) []"
  by (rule leases_ok_Nil) (simp add: range_ok_def same_net_def host_def net_le sample_def)

lemma sample_le: "\<not> range_end sample < range_start sample"
  using sample_range by (simp add: leases_ok_def range_ok_def not_less)

lemma sample_start: "range_start sample = IP4_ADDR 192 168 4 100"
  by (simp add: sample_def)

lemma unique_Nil: "unique []"
  by (simp add: unique_def)

section \<open>What each call does\<close>

lemma update_any_table:
  assumes "lease_table s vs" "unique vs" "ip \<in> {None, Some IPADDR_ANY}" "can_alloc s pa na"
  shows "\<exists>s' vs' r. wifi_softap_dhcps_client_update pa na (Some b) ip s = Some (s', r)
    \<and> lease_table s' vs' \<and> same_server (s\<lparr>renew := renew s'\<rparr>) s'
    \<and> (vs', r, renew s') = abs_update_any (dhcps_lease_time s) (range_start s) (range_end s) b vs"
  using assms update_any_refines [of s _ ip pa na b] unfolding lease_table_def can_alloc_def by metis

lemma update_ip_table:
  assumes "lease_table s vs" "unique vs" "i \<noteq> IPADDR_ANY" "i \<noteq> IPADDR_BROADCAST" "can_alloc s pa na"
  shows "\<exists>s' vs' r. wifi_softap_dhcps_client_update pa na (Some b) (Some i) s = Some (s', r)
    \<and> lease_table s' vs' \<and> same_server (s\<lparr>renew := renew s'\<rparr>) s'
    \<and> (vs', r, renew s') = abs_update_ip (dhcps_lease_time s) (range_end s) b i vs"
  using assms update_ip_refines [of s _ i pa na b] unfolding lease_table_def can_alloc_def by metis

text \<open>
  C5: A station that asks for any address (no address, or 0.0.0.0): on a well-formed
  list \<open>wifi_softap_dhcps_client_update\<close> never follows a NULL or dangling pointer,
  terminates, leaks nothing, and does what \<open>abs_update_any\<close> says: it gives the first
  free address of the range, moves the station's lease there when it has one, and
  refuses with 0.0.0.0, leaving the table alone, when a new station finds no room.
\<close>

theorem client_update_any_spec:
  assumes "lease_table s vs" "unique vs" "ip \<in> {None, Some IPADDR_ANY}" "can_alloc s pa na"
  shows "\<exists>s' vs' r. wifi_softap_dhcps_client_update pa na (Some b) ip s = Some (s', r)
    \<and> lease_table s' vs' \<and> same_server (s\<lparr>renew := renew s'\<rparr>) s'
    \<and> (vs', r, renew s') = abs_update_any (dhcps_lease_time s) (range_start s) (range_end s) b vs"
  using assms by (rule update_any_table)

theorem client_update_any_witness:
  "\<exists>s'. wifi_softap_dhcps_client_update 1 1 (Some [1, 2, 3, 4, 5, 6]) None sample
      = Some (s', IP4_ADDR 192 168 4 100)"
  using client_update_any_spec [OF sample_table unique_Nil _ sample_alloc, of None "[1, 2, 3, 4, 5, 6]"]
    sample_le
  by (auto simp: abs_update_any_def Let_def sample_start)

text \<open>
  C6: A station that names an address: the same safety, and \<open>abs_update_ip\<close> says what
  happens in each case: a lease of the station on that address is renewed, an address
  whose holder is offline changes hands (and the station's old lease is freed), an
  address that is in use or above the range is refused, any other is taken.
\<close>

theorem client_update_ip_spec:
  assumes "lease_table s vs" "unique vs" "i \<noteq> IPADDR_ANY" "i \<noteq> IPADDR_BROADCAST" "can_alloc s pa na"
  shows "\<exists>s' vs' r. wifi_softap_dhcps_client_update pa na (Some b) (Some i) s = Some (s', r)
    \<and> lease_table s' vs' \<and> same_server (s\<lparr>renew := renew s'\<rparr>) s'
    \<and> (vs', r, renew s') = abs_update_ip (dhcps_lease_time s) (range_end s) b i vs"
  using assms by (rule update_ip_table)

theorem client_update_ip_witness:
  "\<exists>s'. wifi_softap_dhcps_client_update 1 1 (Some [1, 2, 3, 4, 5, 6]) (Some (IP4_ADDR 192 168 4 111)) sample
      = Some (s', IPADDR_ANY)"
proof -
  have ip: "IP4_ADDR 192 168 4 111 \<noteq> IPADDR_ANY" "IP4_ADDR 192 168 4 111 \<noteq> IPADDR_BROADCAST"
    by code_simp+
  have "range_end sample < IP4_ADDR 192 168 4 111"
    by code_simp
  then show ?thesis
    using client_update_ip_spec [OF sample_table unique_Nil ip sample_alloc, of "[1, 2, 3, 4, 5, 6]"]
    by (auto simp: abs_update_ip_def)
qed

text \<open>
  C7: \<open>wifi_softap_dhcps_client_leave\<close>: the lease of the station on that address is
  removed and freed when it is static or \<open>force\<close> is set, and goes offline otherwise;
  the SDK is told once, exactly when there is such a lease.
\<close>

theorem client_leave_spec:
  assumes "lease_table s vs" "unique vs"
  shows "\<exists>s' vs'. wifi_softap_dhcps_client_leave (Some b) (Some i) force s = Some s'
    \<and> lease_table s' vs' \<and> vs' = abs_leave b i force vs
    \<and> dhcps_calls s' = dhcps_calls s @
        (if \<exists>v\<in>set vs. pool_mac v = b \<and> pool_ip v = i then [Set_station_info b 0] else [])"
  using assms client_leave_refines [of s _ b i force] unfolding lease_table_def by blast

theorem client_leave_witness:
  "\<exists>s'. wifi_softap_dhcps_client_leave (Some [1, 2, 3, 4, 5, 6]) (Some 5) True sample = Some s'
     \<and> dhcps_calls s' = []"
  using client_leave_spec [OF sample_table unique_Nil, of "[1, 2, 3, 4, 5, 6]" 5 True]
  by (auto simp: sample_def dhcps_init_def)

text \<open>
  C8: \<open>dhcps_coarse_tmr\<close>: every dynamic lease loses one tick, the leases that reach 0 are
  freed, and when at least \<open>MAX_STATION_NUM\<close> remain one more is freed.
\<close>

theorem coarse_tmr_spec:
  assumes "lease_table s vs" "unique vs"
  shows "\<exists>s' vs'. dhcps_coarse_tmr s = Some s' \<and> lease_table s' vs' \<and> same_server s s'
    \<and> vs' = abs_coarse_tmr vs"
  using assms coarse_tmr_refines [of s] unfolding lease_table_def by metis

theorem coarse_tmr_witness:
  "\<exists>s'. dhcps_coarse_tmr sample = Some s' \<and> lease_table s' []"
  using coarse_tmr_spec [OF sample_table unique_Nil]
  by (auto simp: abs_coarse_tmr_def abs_tick_def MAX_STATION_NUM_def)

text \<open>
  C9: \<open>wifi_softap_add_dhcps_lease\<close> is safe and adds a static lease on the address that
  lies as many steps behind the start of the range as there are leases, or refuses when
  the station is known or that address is beyond the range.
\<close>

theorem add_dhcps_lease_spec:
  assumes "lease_table s vs" "can_alloc s pa na"
  shows "\<exists>s' vs' r. wifi_softap_add_dhcps_lease pa na b s = Some (s', r) \<and> lease_table s' vs'
    \<and> same_server s s'
    \<and> (vs', r) = abs_add (dhcps_lease_time s) (range_start s) (range_end s) b vs"
  using assms add_lease_refines [of s _ pa na b] unfolding lease_table_def can_alloc_def by metis

theorem add_dhcps_lease_witness:
  "\<exists>s'. wifi_softap_add_dhcps_lease 1 1 [1, 2, 3, 4, 5, 6] sample = Some (s', True)"
  using add_dhcps_lease_spec [OF sample_table sample_alloc, of "[1, 2, 3, 4, 5, 6]"] sample_le
  by (auto simp: abs_add_def Let_def)

section \<open>Every sequence of calls\<close>

text \<open>
  The calls that the server and the SDK make on the list. An address that a station names
  is taken to lie inside the range (see \<open>client_update_duplicate\<close> for one that does not).
\<close>

inductive lease_step :: "dhcps \<Rightarrow> dhcps \<Rightarrow> bool" where
  ask: "can_alloc s pa na \<Longrightarrow> ip \<in> {None, Some IPADDR_ANY} \<Longrightarrow>
        wifi_softap_dhcps_client_update pa na (Some b) ip s = Some (s', r) \<Longrightarrow> lease_step s s'"
| ask_ip: "can_alloc s pa na \<Longrightarrow> i \<notin> {IPADDR_ANY, IPADDR_BROADCAST} \<Longrightarrow>
        in_range (range_start s) (range_end s) i \<Longrightarrow>
        wifi_softap_dhcps_client_update pa na (Some b) (Some i) s = Some (s', r) \<Longrightarrow> lease_step s s'"
| leave: "wifi_softap_dhcps_client_leave (Some b) (Some i) force s = Some s' \<Longrightarrow> lease_step s s'"
| tick: "dhcps_coarse_tmr s = Some s' \<Longrightarrow> lease_step s s'"

text \<open>What a call that grants an address achieves.\<close>

lemma client_update_grants:
  assumes "lease_inv s" "can_alloc s pa na"
    and "ip \<in> {None, Some IPADDR_ANY} \<or> (\<exists>i. ip = Some i \<and> i \<notin> {IPADDR_ANY, IPADDR_BROADCAST}
           \<and> in_range (range_start s) (range_end s) i)"
    and "wifi_softap_dhcps_client_update pa na (Some b) ip s = Some (s', r)"
  shows "\<exists>vs vs'. lease_table s vs \<and> lease_table s' vs' \<and> leases_ok (range_start s') (range_end s') vs'
    \<and> lease_range s' = lease_range s
    \<and> (r = IPADDR_ANY \<and> vs' = vs
       \<or> in_range (range_start s) (range_end s) r \<and> granted (dhcps_lease_time s) b r vs')"
proof -
  from assms(1) obtain vs where vs: "lease_table s vs" "leases_ok (range_start s) (range_end s) vs"
    by (auto simp: lease_inv_def)
  note u = leases_ok_unique [OF vs(2)]
  from assms(3) show ?thesis
  proof
    assume "ip \<in> {None, Some IPADDR_ANY}"
    from update_any_table [OF vs(1) u this assms(2), of b] assms(4) obtain vs' where
      n: "lease_table s' vs'" "same_server (s\<lparr>renew := renew s'\<rparr>) s'"
        "abs_update_any (dhcps_lease_time s) (range_start s) (range_end s) b vs = (vs', r, renew s')"
      by auto
    with abs_update_any_ok [OF vs(2) n(3)] vs range_renew [OF n(2)] show ?thesis by fastforce
  next
    assume "\<exists>i. ip = Some i \<and> i \<notin> {IPADDR_ANY, IPADDR_BROADCAST}
      \<and> in_range (range_start s) (range_end s) i"
    then obtain i where i: "ip = Some i" "i \<noteq> IPADDR_ANY" "i \<noteq> IPADDR_BROADCAST"
      "in_range (range_start s) (range_end s) i" by auto
    from update_ip_table [OF vs(1) u i(2,3) assms(2), of b] assms(4) i(1) obtain vs' where
      n: "lease_table s' vs'" "same_server (s\<lparr>renew := renew s'\<rparr>) s'"
        "abs_update_ip (dhcps_lease_time s) (range_end s) b i vs = (vs', r, renew s')"
      by auto
    with abs_update_ip_ok [OF vs(2) i(4) n(3)] vs range_renew [OF n(2)] i(4) show ?thesis by fastforce
  qed
qed

lemma client_update_total:
  assumes "lease_inv s" "can_alloc s pa na"
    and "ip \<in> {None, Some IPADDR_ANY} \<or> (\<exists>i. ip = Some i \<and> i \<notin> {IPADDR_ANY, IPADDR_BROADCAST}
           \<and> in_range (range_start s) (range_end s) i)"
  shows "\<exists>s' r. wifi_softap_dhcps_client_update pa na (Some b) ip s = Some (s', r)
    \<and> same_server (s\<lparr>renew := renew s'\<rparr>) s'"
proof -
  from assms(1) obtain vs where vs: "lease_table s vs" "unique vs"
    using leases_ok_unique by (auto simp: lease_inv_def)
  from assms(3) show ?thesis
    using update_any_table [OF vs _ assms(2), of ip b] update_ip_table [OF vs _ _ assms(2), of _ b] by blast
qed

lemma lease_step_keeps:
  assumes "lease_inv s" "lease_step s s'"
  shows "lease_inv s'"
  using assms(2)
proof cases
  case (ask pa na ip b r)
  with client_update_grants [OF assms(1), of pa na ip b s' r] show ?thesis
    by (auto simp: lease_inv_def)
next
  case (ask_ip pa na i b r)
  with client_update_grants [OF assms(1), of pa na "Some i" b s' r] show ?thesis
    by (auto simp: lease_inv_def)
next
  case (leave b i force)
  from assms(1) obtain cs where cs: "table s cs" "leases_ok (range_start s) (range_end s) (leases cs)"
    by (auto simp: lease_inv_def lease_table_def)
  from client_leave_refines [OF cs(1) leases_ok_unique [OF cs(2)], of b i force] leave obtain cs' where
    "table s' cs'" "leases cs' = abs_leave b i force (leases cs)"
    "same_server (s\<lparr>dhcps_calls := dhcps_calls s'\<rparr>) s'" by auto
  with abs_leave_ok [OF cs(2), of b i force] range_calls show ?thesis
    unfolding lease_inv_def lease_table_def by metis
next
  case tick
  from assms(1) obtain cs where cs: "table s cs" "leases_ok (range_start s) (range_end s) (leases cs)"
    by (auto simp: lease_inv_def lease_table_def)
  from coarse_tmr_refines [OF cs(1) leases_ok_unique [OF cs(2)]] tick obtain cs' where
    "table s' cs'" "leases cs' = abs_coarse_tmr (leases cs)" "same_server s s'" by auto
  with abs_coarse_tmr_ok [OF cs(2)] same_server_sel(2) show ?thesis
    unfolding lease_inv_def lease_table_def by metis
qed

interpretation lease_run: step_invariant lease_step lease_inv
  by unfold_locales (rule lease_step_keeps)





lemma filter_last: "xs \<noteq> [] \<Longrightarrow> P (last xs) \<Longrightarrow> filter P xs \<noteq> [] \<and> last (filter P xs) = last xs"
  by (induction xs rule: rev_induct) auto

section \<open>Where the code does not keep the table in order\<close>


text \<open>
  \<open>wifi_softap_add_dhcps_lease\<close> counts the leases instead of looking for a free
  address: after the first of two stations has left, it gives the third the address that
  the second still holds.
\<close>

theorem add_dhcps_lease_duplicate:
  "map_option snd
     (do { (s1, _) \<leftarrow> wifi_softap_dhcps_client_update 1 1 (Some [1, 1, 1, 1, 1, 1]) None sample;
           (s2, r) \<leftarrow> wifi_softap_dhcps_client_update 2 2 (Some [2, 2, 2, 2, 2, 2]) None s1;
           s3 \<leftarrow> wifi_softap_dhcps_client_leave (Some [1, 1, 1, 1, 1, 1])
                   (Some (IP4_ADDR 192 168 4 100)) True s2;
           (s4, ok) \<leftarrow> wifi_softap_add_dhcps_lease 3 3 [3, 3, 3, 3, 3, 3] s3;
           Some (s4, ok, r, map_option pool_ip (pools s4 2), map_option pool_ip (pools s4 3)) })
   = Some (True, IP4_ADDR 192 168 4 101, Some (IP4_ADDR 192 168 4 101), Some (IP4_ADDR 192 168 4 101))"
  by code_simp

text \<open>
  C11: When the timer has to make room it frees the lease with the smallest timer among
  all leases but the first, which is never considered; but the lease that it marks as
  offline is the last of the list, also when that one stays.
\<close>

theorem kill_oldest_marks_last:
  assumes "lease_table s (h # m # rest)" "unique (h # m # rest)"
    and "d = oldest lease_timer m rest" "pool_ip (last (m # rest)) \<noteq> pool_ip d"
  shows "\<exists>s' vs. kill_oldest_dhcps_pool s = Some s' \<and> lease_table s' vs
    \<and> map pool_ip vs = filter (\<lambda>i. i \<noteq> pool_ip d) (map pool_ip (h # m # rest))
    \<and> d \<in> set (m # rest) \<and> (\<forall>v\<in>set (m # rest). lease_timer d \<le> lease_timer v)
    \<and> vs \<noteq> [] \<and> pool_ip (last vs) = pool_ip (last (m # rest))
    \<and> pool_state (last vs) = DHCPS_STATE_OFFLINE"
proof -
  let ?vs = "h # m # rest" and ?off = "\<lambda>v. v\<lparr>pool_state := DHCPS_STATE_OFFLINE\<rparr>"
  from assms(1) obtain cs where "table s cs" "leases cs = ?vs" by (auto simp: lease_table_def)
  then obtain a b cs' where cs: "tab s (a # b # cs') {} {}" "leases (a # b # cs') = ?vs"
    unfolding table_tab leases_def by (cases cs; cases "tl cs") auto
  from kill_oldest_refines [OF cs(1)] assms(2) cs(2) obtain s' es where
    k: "kill_oldest_dhcps_pool s = Some s'" "tab s' es {} {}" "leases es = abs_kill ?vs" by auto
  have kill: "abs_kill ?vs = filter (\<lambda>v. pool_ip v \<noteq> pool_ip d) (upd_ip (pool_ip (last ?vs)) ?off ?vs)"
    using assms(3) by (simp add: abs_kill_def)
  have ips: "map pool_ip (upd_ip i ?off vs) = map pool_ip vs" for i vs
    by (simp add: upd_ip_def)
  have "map pool_ip (abs_kill ?vs) = filter (\<lambda>i. i \<noteq> pool_ip d) (map pool_ip ?vs)"
    unfolding kill ips [of "pool_ip (last ?vs)" ?vs, symmetric] filter_map by (simp add: comp_def)
  moreover have "abs_kill ?vs \<noteq> [] \<and> last (abs_kill ?vs) = ?off (last ?vs)"
  proof -
    have ne: "upd_ip (pool_ip (last ?vs)) ?off ?vs \<noteq> []" by (simp add: upd_ip_def)
    moreover have l: "last (upd_ip (pool_ip (last ?vs)) ?off ?vs) = ?off (last ?vs)"
      unfolding upd_ip_def by (subst last_map) simp_all
    moreover have "pool_ip (?off (last ?vs)) \<noteq> pool_ip d" using assms(4) by simp
    ultimately show ?thesis
      using filter_last [OF ne, of "\<lambda>v. pool_ip v \<noteq> pool_ip d"] unfolding kill by metis
  qed
  moreover have "d \<in> set (m # rest)" "\<forall>v\<in>set (m # rest). lease_timer d \<le> lease_timer v"
    unfolding assms(3) 
    using oldest_in [of lease_timer m rest] oldest_min [of _ m rest lease_timer] by blast+
  ultimately show ?thesis using k by (auto simp: lease_table_def table_tab)
qed

definition three_leases :: dhcps where
  "three_leases = sample\<lparr>
     nodes := [1 \<mapsto> \<lparr>pnode = 1, pnext = 2\<rparr>, 2 \<mapsto> \<lparr>pnode = 2, pnext = 3\<rparr>, 3 \<mapsto> \<lparr>pnode = 3, pnext = NULL\<rparr>],
     pools := [1 \<mapsto> new_lease 5 DHCPS_TYPE_DYNAMIC [1] 1, 2 \<mapsto> new_lease 3 DHCPS_TYPE_DYNAMIC [2] 2,
               3 \<mapsto> new_lease 9 DHCPS_TYPE_DYNAMIC [3] 3],
     plist := 1\<rparr>"

lemma three_leases_table:
  "lease_table three_leases [new_lease 5 DHCPS_TYPE_DYNAMIC [1] 1, new_lease 3 DHCPS_TYPE_DYNAMIC [2] 2,
                             new_lease 9 DHCPS_TYPE_DYNAMIC [3] 3]"
  unfolding lease_table_def
  by (intro exI [of _ "[(1, 1, new_lease 5 DHCPS_TYPE_DYNAMIC [1] 1), (2, 2, new_lease 3 DHCPS_TYPE_DYNAMIC [2] 2),
      (3, 3, new_lease 9 DHCPS_TYPE_DYNAMIC [3] 3)]"]) (auto simp: table_def three_leases_def deref_def)

theorem kill_oldest_marks_last_witness:
  "\<exists>s' vs. kill_oldest_dhcps_pool three_leases = Some s' \<and> lease_table s' vs \<and> map pool_ip vs = [1, 3]
     \<and> pool_state (last vs) = DHCPS_STATE_OFFLINE"
  using kill_oldest_marks_last [OF three_leases_table]
  by (simp add: unique_def) fastforce

end
