(* ===== verification/Dhcp_Server.thy ===== *)
theory Dhcp_Server
  imports Dhcp_Message Lease_Properties
begin

text \<open>
  The DHCP server itself (\<^verbatim>\<open>glue-lwip/esp-dhcpserver.c\<close>): the receive callback
  \<open>handle_dhcp\<close> with \<open>parse_msg\<close> and the three replies, starting and stopping the server,
  and its configuration calls. What the SDK and lwIP2 answer is an argument: the
  addresses \<open>os_zalloc\<close> returns, the interface information of \<open>wifi_get_ip_info\<close>, the
  operating mode, the DHCP status and the pbuf that \<open>pbuf_alloc\<close> returns. What the code
  calls is recorded in \<open>dhcps_calls\<close>.
\<close>

section \<open>The environment\<close>

datatype opmode = NULL_MODE | STATION_MODE | SOFTAP_MODE | STATIONAP_MODE

datatype dhcp_status = DHCP_STOPPED | DHCP_STARTED

text \<open>A pbuf from \<open>pbuf_alloc\<close>: its address, the \<open>len\<close> of each buffer of the chain, and
  the reference count it has after \<open>udp_sendto\<close>.\<close>

record reply_pbuf =
  rp_ptr :: ptr
  rp_lens :: "nat list"
  rp_ref :: u8

text \<open>A received pbuf: \<open>payload\<close> (of \<open>len\<close> bytes), \<open>tot_len\<close> and the payload of \<open>next\<close>.\<close>

record in_pbuf =
  ip_ptr :: ptr
  ip_payload :: "u8 list"
  ip_tot_len :: u16
  ip_next :: "u8 list option"

record dhcp_env =
  env_msg_ok :: bool
  env_pool :: ptr
  env_node :: ptr
  env_ap :: ip_info
  env_reply :: "reply_pbuf option"

section \<open>Replies\<close>

text \<open>The loop that fills the chain from the bytes of the message.\<close>

fun fill_pbuf :: "u8 list \<Rightarrow> nat \<Rightarrow> nat list \<Rightarrow> u8 list option" where
  "fill_pbuf bs cnt [] = Some []"
| "fill_pbuf bs cnt (l # ls) =
     do { x \<leftarrow> arr_read bs cnt l; rest \<leftarrow> fill_pbuf bs (cnt + l) ls; Some (x @ rest) }"

text \<open>The second half of the three functions: copy, send to the broadcast address, free.\<close>

definition send_msg :: "dhcp_env \<Rightarrow> dhcps_msg \<Rightarrow> dhcps \<Rightarrow> dhcps option" where
  "send_msg env m s =
     (case env_reply env of
        None \<Rightarrow> Some s
      | Some p \<Rightarrow> do {
          data \<leftarrow> fill_pbuf (msg_bytes m) 0 (rp_lens p);
          let s1 = dhcps_call (Udp_sendto (pcb_dhcps s) data (broadcast_dhcps s) DHCPS_CLIENT_PORT) s;
          Some (if rp_ref p \<noteq> 0 then dhcps_call (Pbuf_free (rp_ptr p)) s1 else s1) })"

definition send_offer :: "dhcp_env \<Rightarrow> dhcps_msg \<Rightarrow> dhcps \<Rightarrow> dhcps option" where
  "send_offer env m s =
     (let m1 = create_msg s m
      in do { st \<leftarrow> add_msg_type DHCPOFFER (msg_options m1, 4);
              st \<leftarrow> add_offer_options (env_ap env) s st;
              st \<leftarrow> add_end st;
              send_msg env (m1\<lparr>msg_options := fst st\<rparr>) s })"

definition send_nak :: "dhcp_env \<Rightarrow> dhcps_msg \<Rightarrow> dhcps \<Rightarrow> dhcps option" where
  "send_nak env m s =
     (let m1 = create_msg s m
      in do { st \<leftarrow> add_msg_type DHCPNAK (msg_options m1, 4);
              st \<leftarrow> add_end st;
              send_msg env (m1\<lparr>msg_options := fst st\<rparr>) s })"

definition send_ack :: "dhcp_env \<Rightarrow> dhcps_msg \<Rightarrow> dhcps \<Rightarrow> dhcps option" where
  "send_ack env m s =
     (let m1 = create_msg s m
      in do { st \<leftarrow> add_msg_type DHCPACK (msg_options m1, 4);
              st \<leftarrow> add_offer_options (env_ap env) s st;
              st \<leftarrow> add_end st;
              send_msg env (m1\<lparr>msg_options := fst st\<rparr>) s })"

section \<open>Requests\<close>

text \<open>\<open>len\<close> is a \<open>u16_t\<close> that \<open>parse_options\<close> takes as a \<open>sint16_t\<close>; 6 bytes of \<open>chaddr\<close>
  are the station's address.\<close>

definition parse_msg :: "dhcp_env \<Rightarrow> dhcps_msg \<Rightarrow> u16 \<Rightarrow> dhcps \<Rightarrow> (dhcps \<times> int) option" where
  "parse_msg env m len s =
     (if take 4 (msg_options m) = bytes4 magic_cookie
      then do {
        let ip = word4 (msg_ciaddr m);
        (s1, a) \<leftarrow> wifi_softap_dhcps_client_update (env_pool env) (env_node env)
                     (Some (take 6 (msg_chaddr m))) (Some ip) s;
        let s2 = s1\<lparr>client_address := a\<rparr>;
        ret \<leftarrow> parse_options s2 (msg_options m) 4 (sint len);
        if ret = DHCPS_STATE_RELEASE
        then do {
          s3 \<leftarrow> wifi_softap_dhcps_client_leave (Some (take 6 (msg_chaddr m))) (Some ip) True s2;
          Some (s3\<lparr>client_address := ip\<rparr>, ret) }
        else Some (s2, ret) }
      else Some (s, 0))"

definition handle_dhcp :: "dhcp_env \<Rightarrow> in_pbuf option \<Rightarrow> dhcps \<Rightarrow> dhcps option" where
  "handle_dhcp env pb s =
     (case pb of
        None \<Rightarrow> Some s
      | Some p \<Rightarrow>
          if \<not> env_msg_ok env then Some (dhcps_call (Pbuf_free (ip_ptr p)) s)
          else do {
            bs \<leftarrow> arr_write (replicate MSG_SIZE 0) 0 (ip_payload p);
            bs \<leftarrow> (case ip_next p of
                      None \<Rightarrow> Some bs
                    | Some q \<Rightarrow> arr_write bs (length (ip_payload p)) q);
            let m = msg_of_bytes bs;
            (s1, ret) \<leftarrow> parse_msg env m (ip_tot_len p - 240) s;
            s2 \<leftarrow> (if ret = DHCPS_STATE_OFFER then send_offer env m s1
                   else if ret = DHCPS_STATE_ACK
                   then do { s2 \<leftarrow> send_ack env m s1;
                             Some (dhcps_call (Set_station_info (take 6 (msg_chaddr m))
                                                 (client_address s2)) s2) }
                   else if ret = DHCPS_STATE_NAK then send_nak env m s1
                   else Some s1);
            Some (dhcps_call (Pbuf_free (ip_ptr p)) s2) })"

section \<open>Starting, stopping, configuration\<close>

definition DHCPS_MAX_LEASE :: u32 where "DHCPS_MAX_LEASE = 0x64"

definition dhcps_set_dns :: "u32 \<Rightarrow> dhcps \<Rightarrow> dhcps" where
  "dhcps_set_dns dns s = (if dns \<noteq> IPADDR_ANY then s\<lparr>dns_address := dns\<rparr> else s)"

text \<open>The checks of a configured range against the interface address \<open>ip\<close>.\<close>

definition range_rejected :: "u32 \<Rightarrow> u32 \<Rightarrow> u32 \<Rightarrow> bool" where
  "range_rejected ip start_addr end_addr \<longleftrightarrow>
     (let softap_ip = htonl ip; start_ip = htonl start_addr; end_ip = htonl end_addr
      in start_ip \<le> softap_ip \<and> softap_ip \<le> end_ip
         \<or> drop_bit 8 start_ip \<noteq> drop_bit 8 softap_ip \<or> drop_bit 8 end_ip \<noteq> drop_bit 8 softap_ip
         \<or> end_ip - start_ip > DHCPS_MAX_LEASE)"

definition wifi_softap_init_dhcps_lease :: "u32 \<Rightarrow> dhcps_lease \<Rightarrow> dhcps_lease" where
  "wifi_softap_init_dhcps_lease ip l =
     (let l1 = (if lease_enable l \<and> range_rejected ip (lease_start_ip l) (lease_end_ip l)
                then l\<lparr>lease_enable := False\<rparr> else l)
      in if lease_enable l1 then l1
         else let softap_ip = htonl ip AND 0xffffff00;
                  local_ip = htonl ip AND 0xff;
                  local_ip = (if local_ip \<ge> 0x80 then local_ip - DHCPS_MAX_LEASE else local_ip + 1)
              in \<lparr>lease_enable = False,
                  lease_start_ip = htonl (softap_ip OR local_ip),
                  lease_end_ip = htonl (softap_ip OR (local_ip + DHCPS_MAX_LEASE - 1))\<rparr>)"

text \<open>
  \<open>up\<close> is \<open>NETIF_FLAG_UP | NETIF_FLAG_LINK_UP\<close> of lwIP2, \<open>pcb\<close> is what \<open>udp_new\<close> returns;
  \<open>info\<close> is a pointer, \<open>None\<close> for NULL.
\<close>

definition dhcps_start :: "u8 \<Rightarrow> ptr \<Rightarrow> ip_info option \<Rightarrow> dhcps \<Rightarrow> dhcps option" where
  "dhcps_start up pcb info s =
     (let s1 = (if ap_state s \<noteq> NULL then dhcps_call (Udp_remove (ap_state s)) s else s);
          s2 = s1\<lparr>pcb_dhcps := pcb, ap_state := pcb,
                  broadcast_dhcps := (ap_ip_addr s AND ap_netmask s) OR NOT (ap_netmask s)\<rparr>
      in do {
        i \<leftarrow> info;
        let s3 = s2\<lparr>server_address := info_ip i,
                    lease_range := wifi_softap_init_dhcps_lease (info_ip i) (lease_range s2)\<rparr>;
        let s4 = dhcps_call (Udp_recv pcb) (dhcps_call (Udp_bind pcb DHCPS_SERVER_PORT) s3);
        let s5 = dhcps_call (Wifi_set_ip_info (info_ip i) (info_netmask i) (info_gw i)) s4;
        Some (s5\<lparr>ap_flags := ap_flags s5 OR up\<rparr>) })"

partial_function (option) dhcps_stop_loop :: "dhcps \<Rightarrow> ptr \<Rightarrow> dhcps option" where
  "dhcps_stop_loop s p =
     (if p = NULL then Some s
      else do { n \<leftarrow> deref (nodes s) p;
                s1 \<leftarrow> remove_plist p s;
                v \<leftarrow> deref (pools s1) (pnode n);
                let s2 = dhcps_call (Set_station_info (pool_mac v) 0) s1;
                s3 \<leftarrow> free_node p s2;
                dhcps_stop_loop s3 (pnext n) })"

declare dhcps_stop_loop.simps [code]

definition dhcps_stop :: "dhcps \<Rightarrow> dhcps option" where
  "dhcps_stop s =
     (let s1 = dhcps_call (Udp_disconnect (pcb_dhcps s)) s;
          s2 = (if ap_state s \<noteq> NULL
                then (dhcps_call (Udp_remove (ap_state s)) s1)\<lparr>ap_state := NULL\<rparr> else s1)
      in dhcps_stop_loop s2 (plist s2))"

text \<open>\<open>ap_ip\<close> is the address that \<open>wifi_get_ip_info\<close> reports for the access point.\<close>

definition wifi_softap_set_dhcps_lease ::
  "opmode \<Rightarrow> dhcp_status \<Rightarrow> u32 \<Rightarrow> dhcps_lease option \<Rightarrow> dhcps \<Rightarrow> dhcps \<times> bool" where
  "wifi_softap_set_dhcps_lease mode status ap_ip please s =
     (if mode = STATION_MODE \<or> mode = NULL_MODE then (s, False)
      else case please of
        None \<Rightarrow> (s, False)
      | Some l \<Rightarrow>
          if status = DHCP_STARTED then (s, False)
          else if lease_enable l
          then if range_rejected ap_ip (lease_start_ip l) (lease_end_ip l) then (s, False)
               else (s\<lparr>lease_range := \<lparr>lease_enable = lease_enable l,
                        lease_start_ip = lease_start_ip l, lease_end_ip = lease_end_ip l\<rparr>\<rparr>, True)
          else (s\<lparr>lease_range := (lease_range s)\<lparr>lease_enable := lease_enable l\<rparr>\<rparr>, True))"

definition wifi_softap_get_dhcps_lease ::
  "opmode \<Rightarrow> dhcp_status \<Rightarrow> dhcps_lease option \<Rightarrow> dhcps \<Rightarrow> dhcps_lease option \<times> bool" where
  "wifi_softap_get_dhcps_lease mode status please s =
     (if mode = STATION_MODE \<or> mode = NULL_MODE then (please, False)
      else case please of
        None \<Rightarrow> (please, False)
      | Some l \<Rightarrow>
          if \<not> lease_enable (lease_range s) \<and> status = DHCP_STOPPED then (please, False)
          else (Some (l\<lparr>lease_start_ip := lease_start_ip (lease_range s),
                        lease_end_ip := lease_end_ip (lease_range s)\<rparr>), True))"

definition OFFER_START :: u8 where "OFFER_START = 0"
definition OFFER_END :: u8 where "OFFER_END = 2"

text \<open>\<open>optarg\<close> is a pointer to a byte, \<open>None\<close> for NULL.\<close>

definition wifi_softap_set_dhcps_offer_option ::
  "dhcp_status \<Rightarrow> u8 \<Rightarrow> u8 option \<Rightarrow> dhcps \<Rightarrow> (dhcps \<times> bool) option" where
  "wifi_softap_set_dhcps_offer_option status level optarg s =
     (if optarg = None \<and> status = DHCP_STOPPED then Some (s, False)
      else if level \<le> OFFER_START \<or> level \<ge> OFFER_END then Some (s, False)
      else if level = OFFER_ROUTER then do { x \<leftarrow> optarg; Some (s\<lparr>offer := x AND 0x01\<rparr>, True) }
      else Some (s, False))"

definition wifi_softap_set_dhcps_lease_time ::
  "opmode \<Rightarrow> dhcp_status \<Rightarrow> u32 \<Rightarrow> dhcps \<Rightarrow> dhcps \<times> bool" where
  "wifi_softap_set_dhcps_lease_time mode status minute s =
     (if mode = STATION_MODE \<or> mode = NULL_MODE then (s, False)
      else if status = DHCP_STARTED then (s, False)
      else if minute = 0 then (s, False)
      else (s\<lparr>dhcps_lease_time := minute\<rparr>, True))"

definition wifi_softap_reset_dhcps_lease_time ::
  "opmode \<Rightarrow> dhcp_status \<Rightarrow> dhcps \<Rightarrow> dhcps \<times> bool" where
  "wifi_softap_reset_dhcps_lease_time mode status s =
     (if mode = STATION_MODE \<or> mode = NULL_MODE then (s, False)
      else if status = DHCP_STARTED then (s, False)
      else (s\<lparr>dhcps_lease_time := DHCPS_LEASE_TIME_DEF\<rparr>, True))"

definition wifi_softap_get_dhcps_lease_time :: "dhcps \<Rightarrow> u32" where
  "wifi_softap_get_dhcps_lease_time s = dhcps_lease_time s"

section \<open>The range of the server\<close>

lemma small_bits: "(w :: u32) < 256 \<Longrightarrow> 8 \<le> n \<Longrightarrow> \<not> bit w n"
proof
  assume w: "w < 256" "8 \<le> n" "bit w n"
  then have "unat w < 2 ^ 8" by (simp add: word_less_nat_alt)
  moreover have "bit (unat w) n" using w(3) by (simp add: bit_unsigned_iff)
  ultimately show False using w(2)
    by (metis bit_take_bit_iff linorder_not_less take_bit_nat_eq_self)
qed

text \<open>An address that is put together from a network and a small host number.\<close>

lemma join_bytes:
  assumes "(loc :: u32) < 256"
    and a_def: "a = htonl (htonl ip AND 0xffffff00 OR loc)"
  shows "same_net a ip" "host a = unat loc"
proof -
  let ?x = "htonl ip AND 0xffffff00 OR loc"
  have m: "(0xffffff00 :: u32) = NOT (mask 8)" by (simp add: mask_eq_exp_minus_1)
  have b: "\<not> bit loc n" if "8 \<le> n" for n using small_bits assms(1) that by blast
  have lo: "ip4_addr1 ?x = ucast loc"
    unfolding m ip4_addr1_def by (rule bit_word_eqI) (auto simp: bit_simps)
  have hi: "ip4_addr2 ?x = ip4_addr2 (htonl ip)" "ip4_addr3 ?x = ip4_addr3 (htonl ip)"
      "ip4_addr4 ?x = ip4_addr4 (htonl ip)"
    unfolding m ip4_defs by (rule bit_word_eqI; auto simp: bit_simps b)+
  have u: "unat (ucast loc :: u8) = unat loc"
    using assms(1) by (simp add: unsigned_ucast_eq take_bit_eq_mod word_less_nat_alt)
  show "same_net a ip" "host a = unat loc"
    unfolding a_def by (simp_all add: htonl_bytes [of ?x] same_net_def host_def lo hi u)
      (simp_all add: htonl_bytes)
qed

lemma host_word: "htonl ip AND 0xff = ucast (ip4_addr4 ip)"
proof -
  have "htonl ip AND 0xff = ucast (ip4_addr1 (htonl ip))"
    unfolding masks32 ip4_addr1_def by (rule bit_word_eqI) (auto simp: bit_simps dest: bit_imp_le_length)
  then show ?thesis by (simp add: htonl_bytes [of ip])
qed

lemma unat_host_word: "unat (htonl ip AND 0xff) = host ip"
  unfolding host_word host_def by (simp add: unsigned_ucast_eq take_bit_eq_mod
      mod_less [OF less_trans [OF host_less [unfolded host_def]]])

lemma default_range:
  assumes "l' = wifi_softap_init_dhcps_lease ip l" "\<not> lease_enable l'"
  shows "same_net (lease_start_ip l') ip \<and> same_net (lease_end_ip l') ip
    \<and> host (lease_start_ip l') = (if 128 \<le> host ip then host ip - 100 else host ip + 1)
    \<and> host (lease_end_ip l') = host (lease_start_ip l') + 99"
proof -
  let ?n = "htonl ip AND 0xffffff00" and ?h = "htonl ip AND 0xff"
  define loc where "loc = (if ?h \<ge> 0x80 then ?h - DHCPS_MAX_LEASE else ?h + 1)"
  have l': "lease_start_ip l' = htonl (?n OR loc)" "lease_end_ip l' = htonl (?n OR (loc + DHCPS_MAX_LEASE - 1))"
    using assms by (auto simp: wifi_softap_init_dhcps_lease_def Let_def loc_def split: if_splits)
  have h: "unat ?h = host ip" "host ip < 256" by (simp_all add: unat_host_word host_less)
  have ge: "?h \<ge> 0x80 \<longleftrightarrow> 128 \<le> host ip" using h by (simp add: word_le_nat_alt)
  have loc: "unat loc = (if 128 \<le> host ip then host ip - 100 else host ip + 1)"
  proof (cases "128 \<le> host ip")
    case True
    then have "(0x64 :: u32) \<le> ?h" using h by (simp add: word_le_nat_alt)
    then show ?thesis using True h ge by (simp add: loc_def DHCPS_MAX_LEASE_def unat_sub)
  next
    case False
    then show ?thesis using h ge by (simp add: loc_def unat_word_ariths)
  qed
  have small: "unat loc < 156" using loc h by auto
  have e: "unat (loc + DHCPS_MAX_LEASE - 1) = unat loc + 99"
  proof -
    have l99: "loc + DHCPS_MAX_LEASE - 1 = loc + 99" by (simp add: DHCPS_MAX_LEASE_def)
    show ?thesis unfolding l99 using small by (simp add: unat_word_ariths)
  qed
  have "loc < 256" "loc + DHCPS_MAX_LEASE - 1 < 256" using small e by (simp_all add: word_less_nat_alt)
  from join_bytes [OF this(1) refl, of ip] join_bytes [OF this(2) refl, of ip] show ?thesis
    using loc e by (simp add: l')
qed

lemma drop_htonl:
  assumes "drop_bit 8 (htonl a) = drop_bit 8 (htonl b)"
  shows "same_net a b"
proof -
  have d: "drop_bit 16 (htonl a) = drop_bit 16 (htonl b)" "drop_bit 24 (htonl a) = drop_bit 24 (htonl b)"
    using arg_cong [OF assms, of "drop_bit 8"] arg_cong [OF assms, of "drop_bit 16"] by simp_all
  have "ip4_addr2 (htonl a) = ip4_addr2 (htonl b)" "ip4_addr3 (htonl a) = ip4_addr3 (htonl b)"
    "ip4_addr4 (htonl a) = ip4_addr4 (htonl b)"
    unfolding ip4_addr2_def ip4_addr3_def ip4_addr4_def assms d by (rule refl)+
  then show ?thesis by (simp add: htonl_bytes [of a] htonl_bytes [of b] same_net_def)
qed

lemma unat_htonl:
  "unat (htonl w) = host w + 256 * (unat (ip4_addr3 w) + 256 * unat (ip4_addr2 w)
     + 65536 * unat (ip4_addr1 w))"
  unfolding unat_ip [of "htonl w"] by (simp add: htonl_bytes [of w] host_def)

lemma net_htonl: "same_net a b \<Longrightarrow> unat (htonl a) + host b = unat (htonl b) + host a"
  unfolding unat_htonl same_net_def by simp

lemma htonl_le: "same_net a b \<Longrightarrow> htonl a \<le> htonl b \<longleftrightarrow> host a \<le> host b"
  unfolding word_le_nat_alt unat_htonl same_net_def by auto

lemma accepted_range:
  assumes "\<not> range_rejected ip a b"
  shows "same_net a ip \<and> same_net b ip \<and> a \<le> b \<and> host b \<le> host a + 100 \<and> \<not> (a \<le> ip \<and> ip \<le> b)"
proof -
  have n: "same_net a ip" "same_net b ip"
    and x: "\<not> (htonl a \<le> htonl ip \<and> htonl ip \<le> htonl b)" and m: "htonl b - htonl a \<le> DHCPS_MAX_LEASE"
    using assms drop_htonl by (auto simp: range_rejected_def Let_def not_less)
  have ab: "same_net a b" "same_net b a" using n same_net_sym same_net_trans by blast+
  have "host a \<le> host b"
  proof (rule ccontr)
    assume c: "\<not> host a \<le> host b"
    then have lt: "unat (htonl b) < unat (htonl a)" using htonl_le [OF ab(1)] by (simp add: word_le_nat_alt)
    have "unat (htonl a) \<le> unat (htonl b) + 255"
      using net_htonl [OF ab(1)] host_less [of a] by linarith
    moreover have "unat (htonl b - htonl a) = unat (htonl b) + 4294967296 - unat (htonl a)"
      using lt by (simp add: unat_sub_if')
    moreover have "unat (htonl b - htonl a) \<le> 100" using m by (simp add: word_le_nat_alt DHCPS_MAX_LEASE_def)
    ultimately show False by arith
  qed
  moreover from this have "unat (htonl b - htonl a) = unat (htonl b) - unat (htonl a)"
    using htonl_le [OF ab(1)] by (simp add: unat_sub)
  then have "unat (htonl b) - unat (htonl a) \<le> 100"
    using m by (simp add: word_le_nat_alt DHCPS_MAX_LEASE_def)
  then have "host b \<le> host a + 100"
    using net_htonl [OF ab(1)] by linarith
  moreover have "\<not> (a \<le> ip \<and> ip \<le> b)"
    using x n same_net_sym [OF n(2)] by (simp add: htonl_le net_le)
  ultimately show ?thesis using n net_le [OF ab(1)] by auto
qed

lemma start_range:
  "let l' = wifi_softap_init_dhcps_lease ip l; lo = lease_start_ip l'; hi = lease_end_ip l'
   in same_net lo ip \<and> same_net hi ip \<and> lo \<le> hi \<and> host hi \<le> host lo + 100 \<and> \<not> in_range lo hi ip
      \<and> (lease_enable l' \<or> range_ok lo hi \<and> host hi = host lo + 99)"
proof -
  define l' where "l' = wifi_softap_init_dhcps_lease ip l"
  let ?lo = "lease_start_ip l'" and ?hi = "lease_end_ip l'"
  have "same_net ?lo ip \<and> same_net ?hi ip \<and> ?lo \<le> ?hi \<and> host ?hi \<le> host ?lo + 100 \<and> \<not> in_range ?lo ?hi ip
      \<and> (lease_enable l' \<or> range_ok ?lo ?hi \<and> host ?hi = host ?lo + 99)"
  proof (cases "lease_enable l'")
    case True
    then have "lease_enable l" "\<not> range_rejected ip (lease_start_ip l) (lease_end_ip l)" "l' = l"
      by (auto simp: l'_def wifi_softap_init_dhcps_lease_def Let_def split: if_splits)
    with accepted_range show ?thesis by (auto simp: in_range_def)
  next
    case False
    note d = default_range [OF l'_def False]
    then have n: "same_net ?lo ip" "same_net ?hi ip" by auto
    then have lh: "same_net ?lo ?hi" using same_net_sym same_net_trans by blast
    have "?lo \<le> ?hi" using d net_le [OF lh] by simp
    moreover have "host ?hi < 255" using d host_less [of ip] by (auto split: if_splits)
    moreover have "\<not> in_range ?lo ?hi ip"
      using d n net_le [OF n(1)] net_le [OF same_net_sym [OF n(2)]]
      by (auto simp: in_range_def split: if_splits)
    ultimately show ?thesis using d lh by (simp add: range_ok_def)
  qed
  then show ?thesis by (simp add: Let_def l'_def)
qed

text \<open>
  C21: Whatever range was configured, the range that the server starts with lies in the
  access point's /24 network, is not empty, has at most 101 addresses and does not contain
  the access point's own address. The built-in range has 100 addresses and never reaches
  the broadcast address.
\<close>

theorem init_dhcps_lease_spec:
  "let l' = wifi_softap_init_dhcps_lease ip l; lo = lease_start_ip l'; hi = lease_end_ip l'
   in same_net lo ip \<and> same_net hi ip \<and> lo \<le> hi \<and> host hi \<le> host lo + 100 \<and> \<not> in_range lo hi ip
      \<and> (lease_enable l' \<or> range_ok lo hi \<and> host hi = host lo + 99)"
  by (rule start_range)

section \<open>Replies\<close>

lemma fill_pbuf_all: "cnt + sum_list ls = length bs \<Longrightarrow> fill_pbuf bs cnt ls = Some (drop cnt bs)"
proof (induction ls arbitrary: cnt)
  case (Cons l ls)
  then have "fill_pbuf bs (cnt + l) ls = Some (drop (cnt + l) bs)" by simp
  moreover have "take l (drop cnt bs) @ drop (cnt + l) bs = drop cnt bs"
    by (metis append_take_drop_id drop_drop add.commute)
  ultimately show ?case using Cons.prems by (simp add: arr_read_def)
qed simp

text \<open>
  What a reply says: the client's transaction and hardware address, the offered address,
  and the options in their encoded form.
\<close>

definition reply_ok :: "dhcps_msg \<Rightarrow> u32 \<Rightarrow> dhcp_option list \<Rightarrow> u8 list \<Rightarrow> bool" where
  "reply_ok m a os bs \<longleftrightarrow> length bs = MSG_SIZE \<and> msg_op (msg_of_bytes bs) = DHCP_REPLY
     \<and> msg_xid (msg_of_bytes bs) = msg_xid m \<and> msg_chaddr (msg_of_bytes bs) = msg_chaddr m
     \<and> msg_yiaddr (msg_of_bytes bs) = bytes4 a
     \<and> (\<exists>k. msg_options (msg_of_bytes bs)
              = bytes4 magic_cookie @ encode_all os @ DHCP_OPTION_END # replicate k 0)"

definition reply_calls :: "reply_pbuf \<Rightarrow> dhcps \<Rightarrow> u8 list \<Rightarrow> dhcps_call list" where
  "reply_calls rp s bs = Udp_sendto (pcb_dhcps s) bs (broadcast_dhcps s) DHCPS_CLIENT_PORT
     # (if rp_ref rp \<noteq> 0 then [Pbuf_free (rp_ptr rp)] else [])"

lemma send_msg_ok:
  assumes "msg_ok m" "env_reply env = Some rp" "sum_list (rp_lens rp) = MSG_SIZE"
  shows "send_msg env m s = Some (s\<lparr>dhcps_calls := dhcps_calls s @ reply_calls rp s (msg_bytes m)\<rparr>)"
  using assms fill_pbuf_all [of 0 "rp_lens rp" "msg_bytes m"]
  by (simp add: send_msg_def length_msg_bytes dhcps_call_def reply_calls_def)

lemma reply_ok_msg:
  assumes "msg_ok m" "r = (create_msg s m)\<lparr>msg_options := bytes4 magic_cookie @ encode_all os
      @ DHCP_OPTION_END # replicate k 0\<rparr>" "length (encode_all os) + k = 307"
  shows "msg_ok r \<and> reply_ok m (client_address s) os (msg_bytes r)"
proof -
  have ok: "msg_ok r" using assms by (simp add: msg_ok_def create_msg_def)
  then show ?thesis
    using assms(2) by (auto simp: reply_ok_def length_msg_bytes msg_of_bytes_inverse create_msg_def)
qed

lemma encode_type: "encode (DHCP_OPTION_MSG_TYPE, [t]) = [DHCP_OPTION_MSG_TYPE, 1, t]"
  by (simp add: encode_def)

lemma send_full_ok:
  assumes "msg_ok m" "env_reply env = Some rp" "sum_list (rp_lens rp) = MSG_SIZE"
    and "f = (\<lambda>env m s. let m1 = create_msg s m
      in do { st \<leftarrow> add_msg_type t (msg_options m1, 4);
              st \<leftarrow> add_offer_options (env_ap env) s st;
              st \<leftarrow> add_end st;
              send_msg env (m1\<lparr>msg_options := fst st\<rparr>) s })"
  shows "\<exists>bs. f env m s = Some (s\<lparr>dhcps_calls := dhcps_calls s @ reply_calls rp s bs\<rparr>)
    \<and> reply_ok m (client_address s) ((DHCP_OPTION_MSG_TYPE, [t]) # offer_options (env_ap env) s) bs"
proof -
  let ?os = "(DHCP_OPTION_MSG_TYPE, [t]) # offer_options (env_ap env) s"
  define k where "k = 304 - length (encode_all (offer_options (env_ap env) s))"
  let ?f = "bytes4 magic_cookie @ encode_all ?os @ DHCP_OPTION_END # replicate k 0"
  define r where "r = (create_msg s m)\<lparr>msg_options := ?f\<rparr>"
  have k: "length (encode_all (offer_options (env_ap env) s)) + k = 304"
    using length_offer_options [of "env_ap env" s] by (simp add: k_def)
  have w: "writes (\<lambda>st. Option.bind (add_msg_type t st)
      (\<lambda>st. Option.bind (add_offer_options (env_ap env) s st) add_end))
      ([DHCP_OPTION_MSG_TYPE, 1, t] @ encode_all (offer_options (env_ap env) s) @ [DHCP_OPTION_END])"
    unfolding add_msg_type_def add_end_def
    by (intro writes_bind writes_put add_offer_options_writes)
  have o: "Option.bind (add_msg_type t (msg_options (create_msg s m), 4))
      (\<lambda>st. Option.bind (add_offer_options (env_ap env) s st) add_end) = Some (?f, 312 - k)"
    using w [unfolded writes_def, rule_format, of "replicate 308 0" "bytes4 magic_cookie"] k
    by (simp add: create_msg_def encode_type drop_replicate) (simp add: k_def)
  then have "f env m s = send_msg env r s"
    unfolding assms(4) Let_def r_def
    by (auto simp: bind_eq_Some_conv)
  moreover have "msg_ok r \<and> reply_ok m (client_address s) ?os (msg_bytes r)"
    using assms(1) r_def k by (intro reply_ok_msg [where k = k]) (simp_all add: encode_type)
  ultimately show ?thesis using send_msg_ok [OF _ assms(2,3), of r s] by auto
qed

lemma send_nak_ok:
  assumes "msg_ok m" "env_reply env = Some rp" "sum_list (rp_lens rp) = MSG_SIZE"
  shows "\<exists>bs. send_nak env m s = Some (s\<lparr>dhcps_calls := dhcps_calls s @ reply_calls rp s bs\<rparr>)
    \<and> reply_ok m (client_address s) [(DHCP_OPTION_MSG_TYPE, [DHCPNAK])] bs"
proof -
  let ?f = "bytes4 magic_cookie @ encode_all [(DHCP_OPTION_MSG_TYPE, [DHCPNAK])]
      @ DHCP_OPTION_END # replicate 304 0"
  define r where "r = (create_msg s m)\<lparr>msg_options := ?f\<rparr>"
  have "writes (\<lambda>st. Option.bind (add_msg_type DHCPNAK st) add_end)
      ([DHCP_OPTION_MSG_TYPE, 1, DHCPNAK] @ [DHCP_OPTION_END])"
    unfolding add_msg_type_def add_end_def by (intro writes_bind writes_put)
  from this [unfolded writes_def, rule_format, of "replicate 308 0" "bytes4 magic_cookie"]
  have "Option.bind (add_msg_type DHCPNAK (msg_options (create_msg s m), 4)) add_end = Some (?f, 8)"
    by (simp add: create_msg_def encode_type drop_replicate)
  then have "send_nak env m s = send_msg env r s"
    unfolding send_nak_def Let_def r_def by (auto simp: bind_eq_Some_conv)
  moreover have "msg_ok r \<and> reply_ok m (client_address s) [(DHCP_OPTION_MSG_TYPE, [DHCPNAK])] (msg_bytes r)"
    using assms(1) r_def by (intro reply_ok_msg [where k = 304]) (simp_all add: encode_type)
  ultimately show ?thesis using send_msg_ok [OF _ assms(2,3), of r s] by auto
qed

section \<open>Packets\<close>

text \<open>
  \<open>received m os p\<close>: the packet \<open>p\<close>, one buffer of at most 548 bytes, carries the
  message \<open>m\<close> with the options \<open>os\<close>, which end inside the packet.
\<close>

definition received :: "dhcps_msg \<Rightarrow> dhcp_option list \<Rightarrow> in_pbuf \<Rightarrow> bool" where
  "received m os p \<longleftrightarrow> msg_ok m \<and> ip_next p = None \<and> length (ip_payload p) \<le> MSG_SIZE
     \<and> ip_tot_len p = of_nat (length (ip_payload p))
     \<and> ip_payload p @ replicate (MSG_SIZE - length (ip_payload p)) 0 = msg_bytes m
     \<and> (\<exists>zs. msg_options m = bytes4 magic_cookie @ encode_all os @ DHCP_OPTION_END # zs)
     \<and> 240 + length (encode_all os) < length (ip_payload p) \<and> (\<forall>x\<in>set os. option_ok x)"

definition station :: "dhcps_msg \<Rightarrow> u8 list" where
  "station m = take 6 (msg_chaddr m)"

text \<open>The verdict of the option parser on well-formed options.\<close>

definition verdict :: "u32 \<Rightarrow> bool \<Rightarrow> dhcp_option list \<Rightarrow> int" where
  "verdict client rn os =
     (let (type, st) = foldl (option_step client) (0, DHCPS_STATE_IDLE) os
      in if type = 1 then DHCPS_STATE_OFFER
         else if type = 3
         then (if st \<in> {DHCPS_STATE_ACK, DHCPS_STATE_NAK} then st
               else if rn then DHCPS_STATE_ACK else DHCPS_STATE_NAK)
         else if type = 4 then DHCPS_STATE_IDLE
         else if type = 7 then DHCPS_STATE_RELEASE else st)"

lemma sint_len:
  assumes "240 < n" "n \<le> MSG_SIZE"
  shows "sint (of_nat n - 240 :: u16) = int n - 240"
proof -
  have n: "unat (of_nat n :: u16) = n"
    using assms by (simp add: unat_of_nat MSG_SIZE_def)
  then have "(240 :: u16) \<le> of_nat n" using assms(1) by (simp add: word_le_nat_alt)
  then have "unat (of_nat n - 240 :: u16) = n - 240" using n by (simp add: unat_sub)
  then have u: "uint (of_nat n - 240 :: u16) = int n - 240"
    using assms(1) by (metis of_nat_diff less_imp_le of_nat_numeral uint_nat)
  have "sint (of_nat n - 240 :: u16) = signed_take_bit 15 (int n - 240)"
    unfolding sint_uint u by simp
  also have "\<dots> = int n - 240"
    using assms by (intro signed_take_bit_int_eq_self) (simp_all add: MSG_SIZE_def)
  finally show ?thesis .
qed

lemma parse_options_verdict:
  assumes "received m os p"
  shows "parse_options s (msg_options m) 4 (sint (ip_tot_len p - 240))
    = Some (verdict (client_address s) (renew s) os)"
proof -
  from assms obtain zs where zs: "msg_options m = bytes4 magic_cookie @ encode_all os @ DHCP_OPTION_END # zs"
    by (auto simp: received_def)
  have l: "int (length (encode_all os)) < sint (ip_tot_len p - 240)"
    using assms sint_len [of "length (ip_payload p)"] by (auto simp: received_def)
  obtain type st where f: "foldl (option_step (client_address s)) (0, DHCPS_STATE_IDLE) os = (type, st)"
    by (cases "foldl (option_step (client_address s)) (0, DHCPS_STATE_IDLE) os")
  show ?thesis
    using parse_loop_encode [of os "bytes4 magic_cookie" "4 + sint (ip_tot_len p - 240)" "client_address s" zs 0
        DHCPS_STATE_IDLE] l f assms
    by (simp add: zs parse_options_def verdict_def received_def message_types Let_def)
qed

text \<open>The packet as \<open>handle_dhcp\<close> sees it.\<close>

definition react :: "dhcp_env \<Rightarrow> dhcps_msg \<Rightarrow> int \<Rightarrow> dhcps \<Rightarrow> dhcps option" where
  "react env m ret s =
     (if ret = DHCPS_STATE_OFFER then send_offer env m s
      else if ret = DHCPS_STATE_ACK
      then do { s2 \<leftarrow> send_ack env m s;
                Some (dhcps_call (Set_station_info (station m) (client_address s2)) s2) }
      else if ret = DHCPS_STATE_NAK then send_nak env m s
      else Some s)"

lemma handle_received:
  assumes "received m os p" "env_msg_ok env"
  shows "handle_dhcp env (Some p) s =
    do { (s1, ret) \<leftarrow> parse_msg env m (ip_tot_len p - 240) s;
         s2 \<leftarrow> react env m ret s1;
         Some (dhcps_call (Pbuf_free (ip_ptr p)) s2) }"
proof -
  have w: "arr_write (replicate MSG_SIZE 0) 0 (ip_payload p) = Some (msg_bytes m)"
    using assms(1) by (auto simp: received_def arr_write_def drop_replicate)
  have m: "msg_of_bytes (msg_bytes m) = m" "ip_next p = None"
    using assms(1) by (simp_all add: received_def msg_of_bytes_inverse)
  show ?thesis
    using assms(2) by (simp add: handle_dhcp_def w m react_def station_def Let_def cong del: bind_weak_cong if_weak_cong)
qed

text \<open>\<open>parse_msg\<close> after the address has been determined.\<close>

lemma parse_msg_received:
  assumes "received m os p"
    and "wifi_softap_dhcps_client_update (env_pool env) (env_node env) (Some (station m))
           (Some (word4 (msg_ciaddr m))) s = Some (s1, a)"
    and "ret = verdict a (renew s1) os"
  shows "parse_msg env m (ip_tot_len p - 240) s =
    (if ret = DHCPS_STATE_RELEASE
     then do { s3 \<leftarrow> wifi_softap_dhcps_client_leave (Some (station m)) (Some (word4 (msg_ciaddr m))) True
                        (s1\<lparr>client_address := a\<rparr>);
               Some (s3\<lparr>client_address := word4 (msg_ciaddr m)\<rparr>, ret) }
     else Some (s1\<lparr>client_address := a\<rparr>, ret))"
proof -
  have "take 4 (msg_options m) = bytes4 magic_cookie"
    using assms(1) by (auto simp: received_def)
  then show ?thesis
    using assms parse_options_verdict [OF assms(1), of "s1\<lparr>client_address := a\<rparr>"]
    by (simp add: parse_msg_def station_def Let_def cong del: bind_weak_cong)
qed

lemma lease_table_upd [simp]:
  "lease_table (s\<lparr>client_address := x\<rparr>) vs \<longleftrightarrow> lease_table s vs"
  "lease_table (s\<lparr>dhcps_calls := y\<rparr>) vs \<longleftrightarrow> lease_table s vs"
  "lease_table (dhcps_call c s) vs \<longleftrightarrow> lease_table s vs"
  by (simp_all add: lease_table_def table_def dhcps_call_def)

lemma lease_inv_upd [simp]:
  "lease_inv (s\<lparr>client_address := x\<rparr>) \<longleftrightarrow> lease_inv s"
  "lease_inv (s\<lparr>dhcps_calls := y\<rparr>) \<longleftrightarrow> lease_inv s"
  "lease_inv (dhcps_call c s) \<longleftrightarrow> lease_inv s"
  by (simp_all add: lease_inv_def) (simp add: dhcps_call_def)

end
