(* ===== verification/Dhcp_Properties.thy ===== *)
theory Dhcp_Properties
  imports Dhcp_Server
begin

text \<open>
  The properties of the DHCP server as a whole: what it does to its table of leases, what
  it answers and what it tells the SDK for each kind of packet, that starting it
  establishes the invariant of the lease table and that stopping it frees everything.
\<close>

section \<open>The options of a packet\<close>

definition message_type :: "dhcp_option list \<Rightarrow> u8 option" where
  "message_type os = foldl (\<lambda>t o'. if fst o' = DHCP_OPTION_MSG_TYPE then Some (hd (snd o')) else t) None os"

definition requested :: "dhcp_option list \<Rightarrow> u8 list option" where
  "requested os = foldl (\<lambda>r o'. if fst o' = DHCP_OPTION_REQ_IPADDR then Some (snd o') else r) None os"

lemma foldl_options:
  "foldl (option_step client) (type, st) os =
    (foldl (\<lambda>t o'. if fst o' = DHCP_OPTION_MSG_TYPE then ucast (hd (snd o')) else t) type os,
     foldl (\<lambda>r o'. if fst o' = DHCP_OPTION_REQ_IPADDR
                   then (if snd o' = bytes4 client then DHCPS_STATE_ACK else DHCPS_STATE_NAK) else r) st os)"
  by (induction os arbitrary: type st) (auto simp: option_step_def option_codes)

lemma fold_last:
  "foldl (\<lambda>t x. if P x then f (g x) else t) (case z of None \<Rightarrow> d | Some y \<Rightarrow> f y) xs =
   (case foldl (\<lambda>t x. if P x then Some (g x) else t) z xs of None \<Rightarrow> d | Some y \<Rightarrow> f y)"
proof (induction xs arbitrary: z)
  case (Cons x xs)
  show ?case using Cons [of "if P x then Some (g x) else z"] by (simp split: if_splits)
qed simp

lemma options_summary:
  "foldl (option_step client) (0, DHCPS_STATE_IDLE) os =
    ((case message_type os of None \<Rightarrow> 0 | Some t \<Rightarrow> ucast t),
     (case requested os of None \<Rightarrow> DHCPS_STATE_IDLE
      | Some d \<Rightarrow> if d = bytes4 client then DHCPS_STATE_ACK else DHCPS_STATE_NAK))"
  using fold_last [where P = "\<lambda>x. fst x = DHCP_OPTION_MSG_TYPE" and f = ucast and g = "\<lambda>x. hd (snd x)"
      and d = "0 :: u16" and z = None and xs = os]
    fold_last [where P = "\<lambda>x. fst x = DHCP_OPTION_REQ_IPADDR" and g = snd and d = DHCPS_STATE_IDLE and z = None
      and f = "\<lambda>d. if d = bytes4 client then DHCPS_STATE_ACK else DHCPS_STATE_NAK" and xs = os]
  by (simp add: foldl_options message_type_def requested_def)

text \<open>The station's request is granted: it asked for the address, or asks again for its own.\<close>

definition agrees :: "dhcp_option list \<Rightarrow> u32 \<Rightarrow> bool \<Rightarrow> bool" where
  "agrees os a rn = (case requested os of None \<Rightarrow> rn | Some d \<Rightarrow> d = bytes4 a)"

lemma verdict_discover: "message_type os = Some DHCPDISCOVER \<Longrightarrow> verdict a rn os = DHCPS_STATE_OFFER"
  unfolding verdict_def options_summary by (simp add: message_types)

lemma verdict_request:
  "message_type os = Some DHCPREQUEST \<Longrightarrow>
   verdict a rn os = (if agrees os a rn then DHCPS_STATE_ACK else DHCPS_STATE_NAK)"
  unfolding verdict_def options_summary
  by (simp add: message_types agrees_def reply_states split: option.splits)

lemma request_no_release:
  "(if c then DHCPS_STATE_ACK else DHCPS_STATE_NAK) \<noteq> DHCPS_STATE_RELEASE"
  by (simp add: reply_states)

lemma verdict_release: "message_type os = Some DHCPRELEASE \<Longrightarrow> verdict a rn os = DHCPS_STATE_RELEASE"
  unfolding verdict_def options_summary by (simp add: message_types)

section \<open>The address of the station\<close>

text \<open>The station names no address of its own, or one inside the range.\<close>

definition asks_inside :: "dhcps \<Rightarrow> dhcps_msg \<Rightarrow> bool" where
  "asks_inside s m \<longleftrightarrow> (let i = word4 (msg_ciaddr m)
     in i = IPADDR_ANY \<or> i \<noteq> IPADDR_BROADCAST \<and> in_range (range_start s) (range_end s) i)"

text \<open>What the table says afterwards: nothing was granted, or the address belongs to the station.\<close>

definition address_ok :: "dhcps \<Rightarrow> u8 list \<Rightarrow> u32 \<Rightarrow> dhcps \<Rightarrow> bool" where
  "address_ok s b a s' \<longleftrightarrow> lease_inv s' \<and> (a = IPADDR_ANY
     \<or> in_range (range_start s) (range_end s) a
       \<and> (\<exists>vs. lease_table s' vs \<and> granted (dhcps_lease_time s) b a vs))"

text \<open>The server's settings, which a packet does not change.\<close>

definition settings :: "dhcps \<Rightarrow> dhcps_lease \<times> u8 \<times> u32 \<times> ptr \<times> u32 \<times> u32 \<times> u32" where
  "settings s = (lease_range s, offer s, dhcps_lease_time s, pcb_dhcps s, broadcast_dhcps s,
                 server_address s, dns_address s)"

lemma settings_sel:
  "settings s' = settings s \<Longrightarrow> lease_range s' = lease_range s \<and> pcb_dhcps s' = pcb_dhcps s
    \<and> broadcast_dhcps s' = broadcast_dhcps s \<and> dhcps_lease_time s' = dhcps_lease_time s
    \<and> offer_options i s' = offer_options i s"
  by (simp add: settings_def offer_options_def)

lemma settings_renew: "same_server (s\<lparr>renew := x\<rparr>) s' \<Longrightarrow>
    settings s' = settings s \<and> dhcps_calls s' = dhcps_calls s"
  unfolding same_server_def settings_def by (cases s, cases s') simp

lemma client_update_asked:
  assumes "lease_inv s" "can_alloc s pa na" "asks_inside s m"
  shows "\<exists>s1 a. wifi_softap_dhcps_client_update pa na (Some b) (Some (word4 (msg_ciaddr m))) s = Some (s1, a)
    \<and> settings s1 = settings s \<and> dhcps_calls s1 = dhcps_calls s \<and> address_ok s b a s1"
proof -
  let ?ip = "Some (word4 (msg_ciaddr m))"
  have c: "?ip \<in> {None, Some IPADDR_ANY} \<or> (\<exists>i. ?ip = Some i \<and> i \<notin> {IPADDR_ANY, IPADDR_BROADCAST}
      \<and> in_range (range_start s) (range_end s) i)"
    using assms(3) by (auto simp: asks_inside_def Let_def)
  from client_update_total [OF assms(1,2) c] obtain s1 a where u:
    "wifi_softap_dhcps_client_update pa na (Some b) ?ip s = Some (s1, a)"
    "same_server (s\<lparr>renew := renew s1\<rparr>) s1" by blast
  from client_update_grants [OF assms(1,2) c u(1)] have "address_ok s b a s1"
    unfolding address_ok_def lease_inv_def by metis
  with u settings_renew [OF u(2)] show ?thesis by blast
qed

lemma address_ok_upd [simp]:
  "address_ok s b a (s'\<lparr>client_address := x\<rparr>) \<longleftrightarrow> address_ok s b a s'"
  "address_ok s b a (s'\<lparr>dhcps_calls := y\<rparr>) \<longleftrightarrow> address_ok s b a s'"
  "address_ok s b a (dhcps_call c s') \<longleftrightarrow> address_ok s b a s'"
  by (simp_all add: address_ok_def)

text \<open>A packet in sound surroundings: the network gives a pbuf for the reply.\<close>

definition sound :: "dhcp_env \<Rightarrow> dhcps \<Rightarrow> dhcps_msg \<Rightarrow> reply_pbuf \<Rightarrow> bool" where
  "sound env s m rp \<longleftrightarrow> env_msg_ok env \<and> can_alloc s (env_pool env) (env_node env) \<and> asks_inside s m
     \<and> env_reply env = Some rp \<and> sum_list (rp_lens rp) = MSG_SIZE"

lemma handle_parsed:
  assumes "received m os p" "lease_inv s" "sound env s m rp"
  shows "\<exists>s1 a. settings s1 = settings s \<and> dhcps_calls s1 = dhcps_calls s \<and> address_ok s (station m) a s1
    \<and> wifi_softap_dhcps_client_update (env_pool env) (env_node env) (Some (station m))
        (Some (word4 (msg_ciaddr m))) s = Some (s1, a)
    \<and> (verdict a (renew s1) os \<noteq> DHCPS_STATE_RELEASE \<longrightarrow>
       handle_dhcp env (Some p) s = do {
         s2 \<leftarrow> react env m (verdict a (renew s1) os) (s1\<lparr>client_address := a\<rparr>);
         Some (dhcps_call (Pbuf_free (ip_ptr p)) s2) })"
proof -
  from assms have e: "env_msg_ok env" "can_alloc s (env_pool env) (env_node env)" "asks_inside s m"
    by (auto simp: sound_def)
  from client_update_asked [OF assms(2) e(2,3), of "station m"] obtain s1 a where u:
    "wifi_softap_dhcps_client_update (env_pool env) (env_node env) (Some (station m))
       (Some (word4 (msg_ciaddr m))) s = Some (s1, a)"
    "settings s1 = settings s" "dhcps_calls s1 = dhcps_calls s" "address_ok s (station m) a s1" by blast
  then show ?thesis
    using handle_received [OF assms(1) e(1), of s] parse_msg_received [OF assms(1) u(1) refl]
    by auto
qed

text \<open>What a reply adds to the calls.\<close>

definition answered :: "dhcps \<Rightarrow> dhcps \<Rightarrow> reply_pbuf \<Rightarrow> u8 list \<Rightarrow> dhcps_call list \<Rightarrow> bool" where
  "answered s s' rp bs cs \<longleftrightarrow> dhcps_calls s' = dhcps_calls s @ reply_calls rp s bs @ cs"

lemma reply_calls_upd:
  "settings s' = settings s \<Longrightarrow> reply_calls rp (s'\<lparr>client_address := a\<rparr>) bs = reply_calls rp s bs"
  by (simp add: reply_calls_def settings_def)

lemma offer_options_upd:
  "settings s' = settings s \<Longrightarrow> offer_options i (s'\<lparr>client_address := a\<rparr>) = offer_options i s"
  by (simp add: offer_options_def settings_def)

lemma react_offer:
  assumes "msg_ok m" "sound env s m rp" "settings s1 = settings s"
  shows "\<exists>bs. react env m DHCPS_STATE_OFFER (s1\<lparr>client_address := a\<rparr>)
      = Some (s1\<lparr>client_address := a, dhcps_calls := dhcps_calls s1 @ reply_calls rp s bs\<rparr>)
    \<and> reply_ok m a ((DHCP_OPTION_MSG_TYPE, [DHCPOFFER]) # offer_options (env_ap env) s) bs"
  using send_full_ok [OF assms(1), of env rp send_offer DHCPOFFER "s1\<lparr>client_address := a\<rparr>"] assms(2,3)
  by (auto simp: react_def sound_def reply_calls_upd offer_options_upd fun_eq_iff send_offer_def)

lemma react_ack:
  assumes "msg_ok m" "sound env s m rp" "settings s1 = settings s"
  shows "\<exists>bs. react env m DHCPS_STATE_ACK (s1\<lparr>client_address := a\<rparr>)
      = Some (s1\<lparr>client_address := a,
          dhcps_calls := dhcps_calls s1 @ reply_calls rp s bs @ [Set_station_info (station m) a]\<rparr>)
    \<and> reply_ok m a ((DHCP_OPTION_MSG_TYPE, [DHCPACK]) # offer_options (env_ap env) s) bs"
  using send_full_ok [OF assms(1), of env rp send_ack DHCPACK "s1\<lparr>client_address := a\<rparr>"] assms(2,3)
  by (auto simp: react_def sound_def reply_calls_upd offer_options_upd fun_eq_iff send_ack_def
      reply_states dhcps_call_def)

lemma react_nak:
  assumes "msg_ok m" "sound env s m rp" "settings s1 = settings s"
  shows "\<exists>bs. react env m DHCPS_STATE_NAK (s1\<lparr>client_address := a\<rparr>)
      = Some (s1\<lparr>client_address := a, dhcps_calls := dhcps_calls s1 @ reply_calls rp s bs\<rparr>)
    \<and> reply_ok m a [(DHCP_OPTION_MSG_TYPE, [DHCPNAK])] bs"
  using send_nak_ok [OF assms(1), of env rp "s1\<lparr>client_address := a\<rparr>"] assms(2,3)
  by (auto simp: react_def sound_def reply_calls_upd reply_states)

lemma leave_total:
  assumes "lease_inv s"
  shows "\<exists>s' vs vs'. wifi_softap_dhcps_client_leave (Some b) (Some i) True s = Some s'
    \<and> lease_table s vs \<and> lease_table s' vs' \<and> vs' = abs_leave b i True vs \<and> lease_inv s'
    \<and> settings s' = settings s
    \<and> dhcps_calls s' = dhcps_calls s @
        (if \<exists>v\<in>set vs. pool_mac v = b \<and> pool_ip v = i then [Set_station_info b 0] else [])"
proof -
  from assms obtain cs where cs: "table s cs" "leases_ok (range_start s) (range_end s) (leases cs)"
    by (auto simp: lease_inv_def lease_table_def)
  from client_leave_refines [OF cs(1) leases_ok_unique [OF cs(2)], of b i True] obtain s' cs' where
    l: "wifi_softap_dhcps_client_leave (Some b) (Some i) True s = Some s'" "table s' cs'"
      "leases cs' = abs_leave b i True (leases cs)" "same_server (s\<lparr>dhcps_calls := dhcps_calls s'\<rparr>) s'"
      "dhcps_calls s' = dhcps_calls s @
        (if \<exists>v\<in>set (leases cs). pool_mac v = b \<and> pool_ip v = i then [Set_station_info b 0] else [])"
    by blast
  moreover have "lease_inv s'"
    using lease_step_keeps [OF assms lease_step.leave [OF l(1)]] .
  moreover have "settings s' = settings s"
    using l(4) unfolding same_server_def settings_def by (cases s, cases s') simp
  ultimately show ?thesis using cs(1) unfolding lease_table_def by blast
qed

lemma abs_leave_gone: "v \<in> set (abs_leave b i True vs) \<Longrightarrow> \<not> (pool_mac v = b \<and> pool_ip v = i)"
  using find_NoneD [of "\<lambda>v. pool_mac v = b \<and> pool_ip v = i" vs]
  by (auto simp: abs_leave_def split: option.splits)

section \<open>Properties\<close>

text \<open>A packet, an environment and a server for the concrete instances.\<close>

definition sample_msg :: "dhcp_option list \<Rightarrow> dhcps_msg" where
  "sample_msg os = \<lparr>msg_op = 1, msg_htype = 1, msg_hlen = 6, msg_hops = 0, msg_xid = [1, 2, 3, 4],
     msg_secs = 0, msg_flags = 0, msg_ciaddr = replicate 4 0, msg_yiaddr = replicate 4 0,
     msg_siaddr = replicate 4 0, msg_giaddr = replicate 4 0, msg_chaddr = [1, 2, 3, 4, 5, 6] @ replicate 10 0,
     msg_sname = replicate 64 0, msg_file = replicate 128 0,
     msg_options = bytes4 magic_cookie @ encode_all os @ DHCP_OPTION_END
       # replicate (307 - length (encode_all os)) 0\<rparr>"

definition sample_pbuf :: "dhcp_option list \<Rightarrow> in_pbuf" where
  "sample_pbuf os = \<lparr>ip_ptr = 9, ip_payload = msg_bytes (sample_msg os), ip_tot_len = 548, ip_next = None\<rparr>"

definition sample_reply :: reply_pbuf where
  "sample_reply = \<lparr>rp_ptr = 7, rp_lens = [300, 248], rp_ref = 1\<rparr>"

definition sample_env :: dhcp_env where
  "sample_env = \<lparr>env_msg_ok = True, env_pool = 1, env_node = 1,
     env_ap = \<lparr>info_ip = IP4_ADDR 192 168 4 1, info_netmask = IP4_ADDR 255 255 255 0,
               info_gw = IP4_ADDR 192 168 4 1\<rparr>, env_reply = Some sample_reply\<rparr>"

lemma sample_received:
  assumes "length (encode_all os) \<le> 307" "\<forall>x\<in>set os. option_ok x"
  shows "received (sample_msg os) os (sample_pbuf os)"
proof -
  have "msg_ok (sample_msg os)" using assms(1) by (simp add: msg_ok_def sample_msg_def)
  with length_msg_bytes [OF this] assms show ?thesis
    by (simp add: received_def sample_pbuf_def MSG_SIZE_def) (simp add: sample_msg_def)
qed

lemma sample_sound: "sound sample_env sample (sample_msg os) sample_reply"
proof -
  have "word4 (replicate 4 0) = 0" by code_simp
  then show ?thesis
    using sample_alloc
    by (simp add: sound_def sample_env_def sample_reply_def MSG_SIZE_def asks_inside_def sample_msg_def
        IPADDR_ANY_def del: replicate.simps)
qed

lemma sample_inv: "lease_inv sample"
  using sample_table sample_range by (auto simp: lease_inv_def)







section \<open>Starting and stopping\<close>

text \<open>
  C19: \<open>dhcps_start\<close> on an empty table, with an access-point address, establishes the
  invariant of the table with the built-in range (unless a range was configured), which
  does not contain the server's own address; it binds the DHCP server port and brings the
  interface up. Without address information it dereferences NULL.
\<close>

theorem dhcps_start_spec:
  assumes "lease_table s []"
  shows "(\<exists>s'. dhcps_start up pcb (Some i) s = Some s' \<and> lease_table s' []
      \<and> (\<not> lease_enable (lease_range s') \<longrightarrow> lease_inv s')
      \<and> same_net (range_start s') (info_ip i) \<and> same_net (range_end s') (info_ip i)
      \<and> \<not> in_range (range_start s') (range_end s') (info_ip i)
      \<and> server_address s' = info_ip i \<and> ap_state s' = pcb \<and> pcb_dhcps s' = pcb
      \<and> dhcps_calls s' = dhcps_calls s @ (if ap_state s \<noteq> NULL then [Udp_remove (ap_state s)] else [])
          @ [Udp_bind pcb 67, Udp_recv pcb, Wifi_set_ip_info (info_ip i) (info_netmask i) (info_gw i)])
    \<and> dhcps_start up pcb None s = None"
proof -
  let ?r = "wifi_softap_init_dhcps_lease (info_ip i) (lease_range s)"
  define s' where "s' = s\<lparr>pcb_dhcps := pcb, ap_state := pcb,
      broadcast_dhcps := (ap_ip_addr s AND ap_netmask s) OR NOT (ap_netmask s),
      server_address := info_ip i, lease_range := ?r, ap_flags := ap_flags s OR up,
      dhcps_calls := dhcps_calls s @ (if ap_state s \<noteq> NULL then [Udp_remove (ap_state s)] else [])
        @ [Udp_bind pcb 67, Udp_recv pcb, Wifi_set_ip_info (info_ip i) (info_netmask i) (info_gw i)]\<rparr>"
  have st: "dhcps_start up pcb (Some i) s = Some s'"
    by (simp add: dhcps_start_def s'_def dhcps_call_def DHCPS_SERVER_PORT_def)
  have t: "lease_table s' []"
    using assms by (simp add: lease_table_def table_def s'_def)
  note r = start_range [of "info_ip i" "lease_range s", unfolded Let_def]
  have "lease_inv s'" if "\<not> lease_enable ?r"
    using that r t leases_ok_Nil unfolding lease_inv_def by (auto simp: s'_def)
  with r t show ?thesis
    unfolding st by (simp add: s'_def dhcps_start_def Let_def)
qed

theorem dhcps_start_witness:
  "\<exists>s'. dhcps_start 5 3 (Some (env_ap sample_env)) dhcps_init = Some s' \<and> lease_table s' []"
proof -
  have "lease_table dhcps_init []" by (rule lease_table_empty) (simp_all add: dhcps_init_def)
  from dhcps_start_spec [OF this, of 5 3 "env_ap sample_env"] show ?thesis by blast
qed

text \<open>Freeing the whole list.\<close>

lemma free_node_call: "free_node p s = Some s' \<Longrightarrow> free_node p (dhcps_call x s) = Some (dhcps_call x s')"
  by (auto simp: free_node_def dhcps_call_def Let_def bind_eq_Some_conv)

lemma dhcps_call_simps [simp]:
  "plist (dhcps_call x s) = plist s" "nodes (dhcps_call x s) = nodes s" "pools (dhcps_call x s) = pools s"
  "ap_state (dhcps_call x s) = ap_state s" "dhcps_calls (dhcps_call x s) = dhcps_calls s @ [x]"
  by (simp_all add: dhcps_call_def)

lemma tab_call [simp]: "tab (dhcps_call x s) cs A B = tab s cs A B"
  by (simp add: tab_def dhcps_call_def)

lemma dhcps_stop_loop_tab:
  assumes "tab s cs {} {}"
  shows "\<exists>s'. dhcps_stop_loop s (plist s) = Some s' \<and> tab s' [] {} {} \<and> ap_state s' = ap_state s
    \<and> dhcps_calls s' = dhcps_calls s @ map (\<lambda>v. Set_station_info (pool_mac v) 0) (leases cs)"
  using assms
proof (induction cs arbitrary: s)
  case Nil
  then show ?case by (subst dhcps_stop_loop.simps) (simp add: tab_def leases_def)
next
  case (Cons c cs)
  have c: "c \<in> set (c # cs)" by simp
  have ch: "chain (nodes s) (pools s) (plist s) (c # cs)"
    using Cons.prems unfolding tab_def by blast
  from chain_ConsE [OF ch] obtain q where q: "plist s = addr_of c"
    "deref (nodes s) (addr_of c) = Some \<lparr>pnode = lease_ptr c, pnext = q\<rparr>"
    "chain (nodes s) (pools s) q cs" by auto
  from remove_free_tab [OF Cons.prems c] obtain s1 s2 where r:
    "remove_plist (addr_of c) s = Some s1" "free_node (addr_of c) s1 = Some s2"
    "tab s2 (filter (\<lambda>d. d \<noteq> c) (c # cs)) {} {}" "same_server s s2" "pools s1 = pools s" by blast
  have "filter (\<lambda>d. d \<noteq> c) (c # cs) = cs"
    using chain_distinct [OF ch] by (auto intro!: filter_True)
  with r(3) have t: "tab s2 cs {} {}" by simp
  then have "plist s2 = q"
    using chain_head [OF q(3)] chain_head [of "nodes s2" "pools s2" "plist s2" cs] by (simp add: tab_def)
  let ?x = "Set_station_info (pool_mac (lease_of c)) 0"
  have "dhcps_stop_loop s (plist s) = dhcps_stop_loop (dhcps_call ?x s2) (plist (dhcps_call ?x s2))"
    using q r chain_lease [OF ch c] chain_nonnull [OF ch c] \<open>plist s2 = q\<close>
    by (subst dhcps_stop_loop.simps) (simp add: free_node_call)
  moreover from Cons.IH [of "dhcps_call ?x s2"] t obtain s' where
    "dhcps_stop_loop (dhcps_call ?x s2) (plist (dhcps_call ?x s2)) = Some s'" "tab s' [] {} {}"
    "ap_state s' = ap_state s2" "dhcps_calls s' = dhcps_calls s2 @ ?x # map (\<lambda>v. Set_station_info (pool_mac v) 0) (leases cs)"
    by auto
  moreover have "ap_state s2 = ap_state s" "dhcps_calls s2 = dhcps_calls s"
    using r(4) unfolding same_server_def by (cases s, cases s2, simp)+
  ultimately show ?case by (auto simp: leases_def)
qed

text \<open>
  C18: \<open>dhcps_stop\<close> empties the table: the loop ends, every node and every lease is freed
  exactly once, the SDK is told 0.0.0.0 for every station in the order of the list, and
  the PCB is disconnected and removed.
\<close>

theorem dhcps_stop_spec:
  assumes "lease_table s vs"
  shows "\<exists>s'. dhcps_stop s = Some s' \<and> lease_table s' [] \<and> nodes s' = Map.empty \<and> pools s' = Map.empty
    \<and> plist s' = NULL \<and> ap_state s' = NULL
    \<and> dhcps_calls s' = dhcps_calls s @ Udp_disconnect (pcb_dhcps s)
        # (if ap_state s \<noteq> NULL then [Udp_remove (ap_state s)] else [])
        @ map (\<lambda>v. Set_station_info (pool_mac v) 0) vs"
proof -
  from assms obtain cs where cs: "tab s cs {} {}" "leases cs = vs"
    by (auto simp: lease_table_def table_tab)
  define s2 where "s2 = (let s1 = dhcps_call (Udp_disconnect (pcb_dhcps s)) s
    in if ap_state s \<noteq> NULL then (dhcps_call (Udp_remove (ap_state s)) s1)\<lparr>ap_state := NULL\<rparr> else s1)"
  have "tab s2 cs {} {}" using cs(1) by (simp add: s2_def tab_def dhcps_call_def Let_def)
  from dhcps_stop_loop_tab [OF this] obtain s' where
    "dhcps_stop s = Some s'" "tab s' [] {} {}" "ap_state s' = ap_state s2"
    "dhcps_calls s' = dhcps_calls s2 @ map (\<lambda>v. Set_station_info (pool_mac v) 0) vs"
    using cs(2) by (auto simp: dhcps_stop_def s2_def Let_def)
  then show ?thesis
    by (intro exI [of _ s']) (auto simp: lease_table_empty tab_def s2_def Let_def dhcps_call_def)
qed

theorem dhcps_stop_witness:
  "\<exists>s'. dhcps_stop three_leases = Some s' \<and> pools s' = Map.empty
     \<and> dhcps_calls s' = [Udp_disconnect 0, Set_station_info [1] 0, Set_station_info [2] 0, Set_station_info [3] 0]"
  using dhcps_stop_spec [OF three_leases_table]
  by (auto simp: three_leases_def sample_def dhcps_init_def new_lease_def)

section \<open>Configuration\<close>

text \<open>
  A range that \<open>wifi_softap_set_dhcps_lease\<close> accepts, with the access point at that
  address, is the range the server starts with; it is refused while the server runs and
  in the modes without an access point, and then nothing changes.
\<close>

theorem set_dhcps_lease_used:
  assumes "wifi_softap_set_dhcps_lease mode status ap_ip (Some l) s = (s', ok)"
  shows "if ok \<and> lease_enable l
    then mode \<in> {SOFTAP_MODE, STATIONAP_MODE} \<and> status = DHCP_STOPPED
      \<and> (info_ip i = ap_ip \<longrightarrow> map_option lease_range (dhcps_start up pcb (Some i) s') = Some l)
    else lease_start_ip (lease_range s') = lease_start_ip (lease_range s)
      \<and> lease_end_ip (lease_range s') = lease_end_ip (lease_range s)
      \<and> (\<not> ok \<longrightarrow> s' = s)"
proof (cases "ok \<and> lease_enable l")
  case True
  then have a: "\<not> range_rejected ap_ip (lease_start_ip l) (lease_end_ip l)" "lease_range s' = l"
    "mode \<in> {SOFTAP_MODE, STATIONAP_MODE}" "status = DHCP_STOPPED"
    using assms by (cases mode; cases status; auto simp: wifi_softap_set_dhcps_lease_def split: if_splits)+
  with True show ?thesis
    by (simp add: dhcps_start_def dhcps_call_def wifi_softap_init_dhcps_lease_def)
next
  case False
  then show ?thesis
    using assms by (auto simp: wifi_softap_set_dhcps_lease_def split: if_splits)
qed

lemma sample_enabled: "lease_enable (lease_range sample)"
  by (simp add: sample_def)

lemma sample_accepted: "\<not> range_rejected (IP4_ADDR 192 168 4 1) (range_start sample) (range_end sample)"
  by code_simp

theorem set_dhcps_lease_witness:
  "map_option lease_range
     (dhcps_start 5 3 (Some (env_ap sample_env))
        (fst (wifi_softap_set_dhcps_lease SOFTAP_MODE DHCP_STOPPED (IP4_ADDR 192 168 4 1)
                (Some (lease_range sample)) dhcps_init))) = Some (lease_range sample)"
proof -
  have "wifi_softap_set_dhcps_lease SOFTAP_MODE DHCP_STOPPED (IP4_ADDR 192 168 4 1)
          (Some (lease_range sample)) dhcps_init = (dhcps_init\<lparr>lease_range := lease_range sample\<rparr>, True)"
    by (simp add: wifi_softap_set_dhcps_lease_def sample_accepted sample_enabled)
  from set_dhcps_lease_used [OF this, of "env_ap sample_env" 5 3] this show ?thesis
    by (simp add: sample_def sample_env_def)
qed

text \<open>
  C20: A datagram of more than 548 bytes overruns the message buffer: \<open>handle_dhcp\<close> copies
  the first two buffers of the chain without looking at their lengths.
\<close>

theorem handle_dhcp_overflow:
  assumes "env_msg_ok env"
    and "length (ip_payload p) + (case ip_next p of None \<Rightarrow> 0 | Some q \<Rightarrow> length q) > MSG_SIZE"
  shows "handle_dhcp env (Some p) s = None"
  using assms by (auto simp: handle_dhcp_def arr_write_def split: option.splits)

theorem handle_dhcp_overflow_witness:
  "handle_dhcp sample_env (Some \<lparr>ip_ptr = 9, ip_payload = replicate 549 0, ip_tot_len = 549, ip_next = None\<rparr>)
     dhcps_init = None"
  by (rule handle_dhcp_overflow) (simp_all add: sample_env_def MSG_SIZE_def)

end
