(* ===== verification/Glue_Error.thy ===== *)
theory Glue_Error
  imports Prelude
begin

text \<open>
  Error codes. The two IP stacks that the glue joins have error codes of their own:
  lwIP 1.4 on the SDK's side (\<^verbatim>\<open>glue-esp\<close>, header \<^verbatim>\<open>lwip/err.h\<close>) and lwIP 2 on the other
  (\<^verbatim>\<open>glue-lwip\<close>). They meet in the type \<open>err_glue\<close> of \<^verbatim>\<open>glue/glue.h\<close>. lwIP 2 is not part
  of the repository, so its codes are a parameter, and what is used of them is that they
  are distinct (as the labels of one C \<^verbatim>\<open>switch\<close> they have to be).
\<close>

section \<open>The glue's errors\<close>

datatype err_glue =
    GLUE_ERR_OK | GLUE_ERR_MEM | GLUE_ERR_BUF | GLUE_ERR_TIMEOUT | GLUE_ERR_RTE
  | GLUE_ERR_INPROGRESS | GLUE_ERR_VAL | GLUE_ERR_WOULDBLOCK | GLUE_ERR_USE | GLUE_ERR_ALREADY
  | GLUE_ERR_ISCONN | GLUE_ERR_CONN | GLUE_ERR_IF | GLUE_ERR_ABRT | GLUE_ERR_RST | GLUE_ERR_CLSD
  | GLUE_ERR_ARG

section \<open>The SDK's side: lwIP 1.4\<close>

type_synonym err_t = int

definition ERR_OK :: err_t where "ERR_OK = 0"
definition ERR_MEM :: err_t where "ERR_MEM = -1"
definition ERR_BUF :: err_t where "ERR_BUF = -2"
definition ERR_TIMEOUT :: err_t where "ERR_TIMEOUT = -3"
definition ERR_RTE :: err_t where "ERR_RTE = -4"
definition ERR_INPROGRESS :: err_t where "ERR_INPROGRESS = -5"
definition ERR_VAL :: err_t where "ERR_VAL = -6"
definition ERR_WOULDBLOCK :: err_t where "ERR_WOULDBLOCK = -7"
definition ERR_ABRT :: err_t where "ERR_ABRT = -8"
definition ERR_RST :: err_t where "ERR_RST = -9"
definition ERR_CLSD :: err_t where "ERR_CLSD = -10"
definition ERR_CONN :: err_t where "ERR_CONN = -11"
definition ERR_ARG :: err_t where "ERR_ARG = -12"
definition ERR_USE :: err_t where "ERR_USE = -13"
definition ERR_IF :: err_t where "ERR_IF = -14"
definition ERR_ISCONN :: err_t where "ERR_ISCONN = -15"

lemmas err_defs = ERR_OK_def ERR_MEM_def ERR_BUF_def ERR_TIMEOUT_def ERR_RTE_def ERR_INPROGRESS_def
  ERR_VAL_def ERR_WOULDBLOCK_def ERR_ABRT_def ERR_RST_def ERR_CLSD_def ERR_CONN_def ERR_ARG_def
  ERR_USE_def ERR_IF_def ERR_ISCONN_def

fun glue2esp_err :: "err_glue \<Rightarrow> err_t" where
  "glue2esp_err GLUE_ERR_OK = ERR_OK"
| "glue2esp_err GLUE_ERR_MEM = ERR_MEM"
| "glue2esp_err GLUE_ERR_BUF = ERR_BUF"
| "glue2esp_err GLUE_ERR_TIMEOUT = ERR_TIMEOUT"
| "glue2esp_err GLUE_ERR_RTE = ERR_RTE"
| "glue2esp_err GLUE_ERR_INPROGRESS = ERR_INPROGRESS"
| "glue2esp_err GLUE_ERR_VAL = ERR_VAL"
| "glue2esp_err GLUE_ERR_WOULDBLOCK = ERR_WOULDBLOCK"
| "glue2esp_err GLUE_ERR_ABRT = ERR_ABRT"
| "glue2esp_err GLUE_ERR_RST = ERR_RST"
| "glue2esp_err GLUE_ERR_CLSD = ERR_CLSD"
| "glue2esp_err GLUE_ERR_CONN = ERR_CONN"
| "glue2esp_err GLUE_ERR_ARG = ERR_ARG"
| "glue2esp_err GLUE_ERR_USE = ERR_USE"
| "glue2esp_err GLUE_ERR_IF = ERR_IF"
| "glue2esp_err GLUE_ERR_ISCONN = ERR_ISCONN"
| "glue2esp_err GLUE_ERR_ALREADY = ERR_ABRT"

definition esp2glue_err :: "err_t \<Rightarrow> err_glue" where
  "esp2glue_err err =
     (if err = ERR_OK then GLUE_ERR_OK
      else if err = ERR_MEM then GLUE_ERR_MEM
      else if err = ERR_BUF then GLUE_ERR_BUF
      else if err = ERR_TIMEOUT then GLUE_ERR_TIMEOUT
      else if err = ERR_RTE then GLUE_ERR_RTE
      else if err = ERR_INPROGRESS then GLUE_ERR_INPROGRESS
      else if err = ERR_VAL then GLUE_ERR_VAL
      else if err = ERR_WOULDBLOCK then GLUE_ERR_WOULDBLOCK
      else if err = ERR_ABRT then GLUE_ERR_ABRT
      else if err = ERR_RST then GLUE_ERR_RST
      else if err = ERR_CLSD then GLUE_ERR_CLSD
      else if err = ERR_CONN then GLUE_ERR_CONN
      else if err = ERR_ARG then GLUE_ERR_ARG
      else if err = ERR_USE then GLUE_ERR_USE
      else if err = ERR_IF then GLUE_ERR_IF
      else if err = ERR_ISCONN then GLUE_ERR_ISCONN
      else GLUE_ERR_ABRT)"

section \<open>The other side: lwIP 2\<close>

record git_errs =
  git_ok :: err_t
  git_mem :: err_t
  git_buf :: err_t
  git_timeout :: err_t
  git_rte :: err_t
  git_inprogress :: err_t
  git_val :: err_t
  git_wouldblock :: err_t
  git_use :: err_t
  git_already :: err_t
  git_isconn :: err_t
  git_conn :: err_t
  git_if :: err_t
  git_abrt :: err_t
  git_rst :: err_t
  git_clsd :: err_t
  git_arg :: err_t

definition all_errs :: "git_errs \<Rightarrow> err_t list" where
  "all_errs E = [git_ok E, git_mem E, git_buf E, git_timeout E, git_rte E, git_inprogress E,
     git_val E, git_wouldblock E, git_use E, git_already E, git_isconn E, git_conn E, git_if E,
     git_abrt E, git_rst E, git_clsd E, git_arg E]"

definition errs_ok :: "git_errs \<Rightarrow> bool" where
  "errs_ok E \<longleftrightarrow> distinct (all_errs E)"

fun glue2git_err :: "git_errs \<Rightarrow> err_glue \<Rightarrow> err_t" where
  "glue2git_err E GLUE_ERR_OK = git_ok E"
| "glue2git_err E GLUE_ERR_MEM = git_mem E"
| "glue2git_err E GLUE_ERR_BUF = git_buf E"
| "glue2git_err E GLUE_ERR_TIMEOUT = git_timeout E"
| "glue2git_err E GLUE_ERR_RTE = git_rte E"
| "glue2git_err E GLUE_ERR_INPROGRESS = git_inprogress E"
| "glue2git_err E GLUE_ERR_VAL = git_val E"
| "glue2git_err E GLUE_ERR_WOULDBLOCK = git_wouldblock E"
| "glue2git_err E GLUE_ERR_USE = git_use E"
| "glue2git_err E GLUE_ERR_ALREADY = git_already E"
| "glue2git_err E GLUE_ERR_ISCONN = git_isconn E"
| "glue2git_err E GLUE_ERR_CONN = git_conn E"
| "glue2git_err E GLUE_ERR_IF = git_if E"
| "glue2git_err E GLUE_ERR_ABRT = git_abrt E"
| "glue2git_err E GLUE_ERR_RST = git_rst E"
| "glue2git_err E GLUE_ERR_CLSD = git_clsd E"
| "glue2git_err E GLUE_ERR_ARG = git_arg E"

definition git2glue_err :: "git_errs \<Rightarrow> err_t \<Rightarrow> err_glue" where
  "git2glue_err E err =
     (if err = git_ok E then GLUE_ERR_OK
      else if err = git_mem E then GLUE_ERR_MEM
      else if err = git_buf E then GLUE_ERR_BUF
      else if err = git_timeout E then GLUE_ERR_TIMEOUT
      else if err = git_rte E then GLUE_ERR_RTE
      else if err = git_inprogress E then GLUE_ERR_INPROGRESS
      else if err = git_val E then GLUE_ERR_VAL
      else if err = git_wouldblock E then GLUE_ERR_WOULDBLOCK
      else if err = git_use E then GLUE_ERR_USE
      else if err = git_already E then GLUE_ERR_ALREADY
      else if err = git_isconn E then GLUE_ERR_ISCONN
      else if err = git_conn E then GLUE_ERR_CONN
      else if err = git_if E then GLUE_ERR_IF
      else if err = git_abrt E then GLUE_ERR_ABRT
      else if err = git_rst E then GLUE_ERR_RST
      else if err = git_clsd E then GLUE_ERR_CLSD
      else if err = git_arg E then GLUE_ERR_ARG
      else GLUE_ERR_ABRT)"

section \<open>The conversions\<close>

text \<open>The \<^verbatim>\<open>switch\<close> of \<open>git2glue_err\<close> as the lookup in a table.\<close>

definition all_glue :: "err_glue list" where
  "all_glue = [GLUE_ERR_OK, GLUE_ERR_MEM, GLUE_ERR_BUF, GLUE_ERR_TIMEOUT, GLUE_ERR_RTE,
     GLUE_ERR_INPROGRESS, GLUE_ERR_VAL, GLUE_ERR_WOULDBLOCK, GLUE_ERR_USE, GLUE_ERR_ALREADY,
     GLUE_ERR_ISCONN, GLUE_ERR_CONN, GLUE_ERR_IF, GLUE_ERR_ABRT, GLUE_ERR_RST, GLUE_ERR_CLSD,
     GLUE_ERR_ARG]"

lemma git2glue_table:
  "git2glue_err E x = (case map_of (zip (all_errs E) all_glue) x of None \<Rightarrow> GLUE_ERR_ABRT | Some e \<Rightarrow> e)"
  by (simp add: all_errs_def all_glue_def git2glue_err_def)

lemma glue2git_table: "(glue2git_err E e, e) \<in> set (zip (all_errs E) all_glue)"
  by (cases e; simp add: all_errs_def all_glue_def)

lemma git_roundtrip:
  assumes "errs_ok E"
  shows "git2glue_err E (glue2git_err E e) = e"
proof -
  have "distinct (map fst (zip (all_errs E) all_glue))"
    using assms by (simp add: errs_ok_def all_errs_def all_glue_def)
  from map_of_is_SomeI [OF this glue2git_table, of e] show ?thesis by (simp add: git2glue_table)
qed

lemma git2glue_known: "x \<in> set (all_errs E) \<Longrightarrow> glue2git_err E (git2glue_err E x) = x"
  by (auto simp: all_errs_def git2glue_err_def)

lemma git2glue_unknown: "x \<notin> set (all_errs E) \<Longrightarrow> git2glue_err E x = GLUE_ERR_ABRT"
  by (auto simp: all_errs_def git2glue_err_def)

lemma esp_roundtrip: "esp2glue_err (glue2esp_err e) = (if e = GLUE_ERR_ALREADY then GLUE_ERR_ABRT else e)"
  by (cases e; simp add: esp2glue_err_def err_defs)

lemma esp2glue_known: "x \<in> {-15..0} \<Longrightarrow> glue2esp_err (esp2glue_err x) = x"
  by (auto simp: esp2glue_err_def err_defs) presburger

lemma esp2glue_unknown: "x \<notin> {-15..0} \<Longrightarrow> esp2glue_err x = GLUE_ERR_ABRT"
  by (auto simp: esp2glue_err_def err_defs)

lemma esp2glue_ok: "esp2glue_err x = GLUE_ERR_OK \<longleftrightarrow> x = ERR_OK"
  by (auto simp: esp2glue_err_def)

lemma glue2git_ok: "errs_ok E \<Longrightarrow> glue2git_err E e = git_ok E \<longleftrightarrow> e = GLUE_ERR_OK"
  by (metis git_roundtrip glue2git_err.simps(1))

lemma glue2esp_ok: "glue2esp_err e = ERR_OK \<longleftrightarrow> e = GLUE_ERR_OK"
  by (cases e; simp add: err_defs)

lemma git2glue_ok: "errs_ok E \<Longrightarrow> git2glue_err E x = GLUE_ERR_OK \<longleftrightarrow> x = git_ok E"
  by (auto simp: git2glue_err_def)

text \<open>Codes of lwIP 2.1, for the concrete instances.\<close>

definition lwip2_errs :: git_errs where
  "lwip2_errs = \<lparr>git_ok = 0, git_mem = -1, git_buf = -2, git_timeout = -3, git_rte = -4,
     git_inprogress = -5, git_val = -6, git_wouldblock = -7, git_use = -8, git_already = -9,
     git_isconn = -10, git_conn = -11, git_if = -12, git_abrt = -13, git_rst = -14, git_clsd = -15,
     git_arg = -16\<rparr>"

lemma lwip2_errs_ok: "errs_ok lwip2_errs"
  by (simp add: errs_ok_def all_errs_def lwip2_errs_def)

text \<open>
  C30: An error that crosses the glue keeps its meaning: every glue error survives the
  way through lwIP 2's codes, and all but \<open>GLUE_ERR_ALREADY\<close> (which lwIP 1.4 does not
  have and gets as an abort) the way through lwIP 1.4's; every code of either stack
  survives the way through the glue's; a code that neither knows becomes an abort. So
  success is success on both sides, and only success is.
\<close>

theorem errors_keep_meaning:
  assumes "errs_ok E"
  shows "git2glue_err E (glue2git_err E e) = e
    \<and> esp2glue_err (glue2esp_err e) = (if e = GLUE_ERR_ALREADY then GLUE_ERR_ABRT else e)
    \<and> (if x \<in> {-15..0} then glue2esp_err (esp2glue_err x) = x else esp2glue_err x = GLUE_ERR_ABRT)
    \<and> (if x \<in> set (all_errs E) then glue2git_err E (git2glue_err E x) = x
       else git2glue_err E x = GLUE_ERR_ABRT)
    \<and> (glue2git_err E (esp2glue_err x) = git_ok E \<longleftrightarrow> x = ERR_OK)
    \<and> (glue2esp_err (git2glue_err E x) = ERR_OK \<longleftrightarrow> x = git_ok E)"
  using assms
  by (simp add: git_roundtrip esp_roundtrip esp2glue_known esp2glue_unknown git2glue_known
      git2glue_unknown glue2git_ok esp2glue_ok glue2esp_ok git2glue_ok)

theorem errors_keep_meaning_witness:
  "glue2git_err lwip2_errs (esp2glue_err (-14)) = -12 \<and> git2glue_err lwip2_errs (-12) = GLUE_ERR_IF"
proof -
  have "esp2glue_err (-14) = GLUE_ERR_IF" by (simp add: esp2glue_err_def err_defs)
  then show ?thesis
    using errors_keep_meaning [OF lwip2_errs_ok, of GLUE_ERR_IF 0] by (simp add: lwip2_errs_def)
qed

end
