(* ===== verification/Link_Pool.thy ===== *)
theory Link_Pool
  imports C_Heap Glue_Error
begin

text \<open>
  The SDK's side of the glue as far as packets are concerned (\<^verbatim>\<open>glue-esp/lwip-esp.c\<close>): pbufs
  of lwIP 1.4, the pool of wrappers in which packets of lwIP 2 travel to the SDK's
  binary, \<open>pbuf_alloc\<close>, \<open>pbuf_free\<close> and \<open>pbuf_ref\<close>. Addresses are byte addresses; a
  wrapper starts with its pbuf, so the pbuf and the wrapper's own fields are found under
  the same address, in two heaps. What \<open>pvPortMalloc\<close> returns is an argument. The calls
  that the glue makes to lwIP 2, to the binary and to the SDK are recorded.
\<close>

section \<open>State\<close>

record esp_pbuf =
  pb_next :: ptr
  pb_payload :: ptr
  pb_tot_len :: u16
  pb_len :: u16
  pb_type :: u8
  pb_flags :: u8
  pb_ref :: u16
  pb_eb :: ptr

record pbuf_wrapper =
  ref2save :: ptr
  wnext :: ptr

text \<open>An interface of lwIP 1.4.\<close>

record esp_netif =
  en_next :: ptr
  en_ip_addr :: u32
  en_netmask :: u32
  en_gw :: u32
  en_input :: bool
  en_state :: ptr
  en_dhcp :: ptr
  en_dhcps_pcb :: ptr
  en_igmp_mac_filter :: ptr
  en_mtu :: u16
  en_hwaddr_len :: u8
  en_hwaddr :: "u8 list"
  en_flags :: u8
  en_num :: u8

text \<open>Calls that leave the glue.\<close>

datatype glue_call =
    Git_pbuf_ref ptr
  | Git_pbuf_free ptr
  | Git_pbuf_clone ptr ptr
  | Git_netif_input nat ptr
  | Blob_linkoutput ptr ptr ptr u16
  | Phy_capture u8 ptr u16 bool bool
  | Recycle_rx_pkt ptr
  | Port_free ptr
  | Wifi_set_ip_info u8 u32 u32 u32
  | System_station_got_ip_set u32 u32 u32
  | Git_lwip_init
  | Git_netif_add nat
  | Git_set_default "nat option"
  | Git_dhcp_start nat
  | Git_dhcp_stop nat
  | Git_dhcps_start u32 u32 u32
  | Git_espconn_init
  | Sntp_stop
  | Sntp_init
  | Sntp_setup
  | Status_changed nat

text \<open>An interface of lwIP 2, the fields that the glue uses.\<close>

datatype git_callback = No_callback | Sta_status_callback | Netif_status_changed

record git_netif =
  gn_ip :: u32
  gn_netmask :: u32
  gn_gw :: u32
  gn_flags :: u8
  gn_hwaddr_len :: u8
  gn_hwaddr :: "u8 list"
  gn_mtu :: u16
  gn_num :: u8
  gn_name :: string
  gn_hostname :: ptr
  gn_callback :: git_callback

text \<open>A pbuf of lwIP 2, the fields that the glue uses.\<close>

record git_pbuf =
  gp_next :: ptr
  gp_flags :: u8
  gp_payload :: ptr
  gp_len :: u16

record glue =
  pbufs :: "ptr \<rightharpoonup> esp_pbuf"
  wraps :: "ptr \<rightharpoonup> pbuf_wrapper"
  payloads :: "ptr \<rightharpoonup> u8 list"
  git_pbufs :: "ptr \<rightharpoonup> git_pbuf"
  pbuf_wrapper_head :: ptr
  netif_esp :: "ptr list"
  esp_netifs :: "ptr \<rightharpoonup> esp_netif"
  esp_netif_default :: ptr
  phy_capture :: bool
  netif_git :: "git_netif list"
  git_default :: "nat option"
  netif_enabled :: "bool list"
  glue_calls :: "glue_call list"

definition glue_call :: "glue_call \<Rightarrow> glue \<Rightarrow> glue" where
  "glue_call c s = s\<lparr>glue_calls := glue_calls s @ [c]\<rparr>"

section \<open>The pool of wrappers\<close>

definition PBUF_CUSTOM_TYPE_POOLED :: u8 where "PBUF_CUSTOM_TYPE_POOLED = 0x42"
definition PBUF_WRAPPER_BLOCK :: nat where "PBUF_WRAPPER_BLOCK = 8"

text \<open>\<^verbatim>\<open>sizeof(struct pbuf)\<close> and \<^verbatim>\<open>sizeof(struct pbuf_wrapper)\<close> on the 32-bit target.\<close>

definition SIZEOF_PBUF :: nat where "SIZEOF_PBUF = 20"
definition SIZEOF_PBUF_WRAPPER :: nat where "SIZEOF_PBUF_WRAPPER = SIZEOF_PBUF + 8"

text \<open>The first \<open>n\<close> rounds of the loop over a new block; \<open>raw\<close> is what the block held.\<close>

primrec init_block ::
  "(nat \<Rightarrow> esp_pbuf \<times> pbuf_wrapper) \<Rightarrow> ptr \<Rightarrow> nat \<Rightarrow> glue \<Rightarrow> glue" where
  "init_block raw base 0 s = s"
| "init_block raw base (Suc i) s =
     (let s1 = init_block raw base i s; p = base + SIZEOF_PBUF_WRAPPER * i
      in s1\<lparr>pbufs := (pbufs s1)(p \<mapsto> (fst (raw i))\<lparr>pb_type := PBUF_CUSTOM_TYPE_POOLED,
                              pb_flags := 0, pb_next := NULL, pb_eb := NULL\<rparr>),
            wraps := (wraps s1)(p \<mapsto> (snd (raw i))\<lparr>wnext := if i \<noteq> 0 then p - SIZEOF_PBUF_WRAPPER
                                                          else NULL\<rparr>)\<rparr>)"

definition pbuf_wrapper_get ::
  "ptr \<Rightarrow> (nat \<Rightarrow> esp_pbuf \<times> pbuf_wrapper) \<Rightarrow> glue \<Rightarrow> (glue \<times> ptr) option" where
  "pbuf_wrapper_get block raw s =
     (if pbuf_wrapper_head s = NULL \<and> block = NULL then Some (s, NULL)
      else do {
        let s1 = (if pbuf_wrapper_head s = NULL
                  then (init_block raw block PBUF_WRAPPER_BLOCK s)
                         \<lparr>pbuf_wrapper_head := block + SIZEOF_PBUF_WRAPPER * (PBUF_WRAPPER_BLOCK - 1)\<rparr>
                  else s);
        w \<leftarrow> deref (wraps s1) (pbuf_wrapper_head s1);
        Some (s1\<lparr>pbuf_wrapper_head := wnext w\<rparr>, pbuf_wrapper_head s1) })"

definition pbuf_wrapper_release :: "ptr \<Rightarrow> glue \<Rightarrow> glue option" where
  "pbuf_wrapper_release p s =
     do { w \<leftarrow> deref (wraps s) p;
          Some (s\<lparr>wraps := (wraps s)(p \<mapsto> w\<lparr>wnext := pbuf_wrapper_head s\<rparr>), pbuf_wrapper_head := p\<rparr>) }"

section \<open>Sending\<close>

definition NETIF_FLAG_UP :: u8 where "NETIF_FLAG_UP = 0x01"
definition NETIF_FLAG_LINK_UP :: u8 where "NETIF_FLAG_LINK_UP = 0x10"

text \<open>
  What the environment does during a call: the block and its contents from
  \<open>pvPortMalloc\<close>, and what the binary's \<open>linkoutput\<close> answers.
\<close>

record link_env =
  le_block :: ptr
  le_raw :: "nat \<Rightarrow> esp_pbuf \<times> pbuf_wrapper"
  le_linkoutput :: err_t

text \<open>\<open>size\<close> is a \<open>size_t\<close> that is stored in the two 16-bit length fields.\<close>

definition glue2esp_linkoutput ::
  "link_env \<Rightarrow> nat \<Rightarrow> ptr \<Rightarrow> ptr \<Rightarrow> u32 \<Rightarrow> glue \<Rightarrow> (glue \<times> err_glue) option" where
  "glue2esp_linkoutput env netif_idx ref data sz s =
     do { np \<leftarrow> arr_get (netif_esp s) netif_idx;
          if np = NULL then Some (s, GLUE_ERR_IF)
          else do {
            netif \<leftarrow> deref (esp_netifs s) np;
            if en_flags netif AND NETIF_FLAG_LINK_UP = 0 then Some (s, GLUE_ERR_IF)
            else do {
              (s1, p) \<leftarrow> pbuf_wrapper_get (le_block env) (le_raw env) s;
              if p = NULL then Some (s1, GLUE_ERR_MEM)
              else do {
                b \<leftarrow> deref (pbufs s1) p;
                w \<leftarrow> deref (wraps s1) p;
                let s2 = s1\<lparr>pbufs := (pbufs s1)(p \<mapsto> b\<lparr>pb_payload := data, pb_len := ucast sz,
                                                    pb_tot_len := ucast sz, pb_ref := 0\<rparr>),
                            wraps := (wraps s1)(p \<mapsto> w\<lparr>ref2save := ref\<rparr>)\<rparr>;
                let s3 = glue_call (Blob_linkoutput np p data (ucast sz)) s2;
                let err = le_linkoutput env;
                let s4 = (if phy_capture s3
                          then glue_call (Phy_capture (en_num netif) data (ucast sz) True (err = ERR_OK)) s3
                          else s3);
                s5 \<leftarrow> (if err \<noteq> ERR_OK then pbuf_wrapper_release p s4 else Some s4);
                Some (s5, esp2glue_err err) } } } }"

section \<open>pbufs of the SDK\<close>

definition PBUF_RAW :: u8 where "PBUF_RAW = 3"
definition PBUF_RAM :: u8 where "PBUF_RAM = 0"
definition PBUF_REF :: u8 where "PBUF_REF = 2"
definition EP_OFFSET :: nat where "EP_OFFSET = 36"
definition MEM_ALIGNMENT :: nat where "MEM_ALIGNMENT = 4"

text \<open>\<^verbatim>\<open>(size + MEM_ALIGNMENT - 1) & ~(MEM_ALIGNMENT - 1)\<close>.\<close>

definition LWIP_MEM_ALIGN_SIZE :: "nat \<Rightarrow> nat" where
  "LWIP_MEM_ALIGN_SIZE sz = (sz + MEM_ALIGNMENT - 1) div MEM_ALIGNMENT * MEM_ALIGNMENT"

definition SIZEOF_STRUCT_PBUF :: nat where "SIZEOF_STRUCT_PBUF = LWIP_MEM_ALIGN_SIZE SIZEOF_PBUF"

text \<open>
  \<open>malloc alloclen\<close> is the address that \<open>pvPortMalloc\<close> returns for a request of that size
  (0 when it fails), \<open>raw\<close> what the payload area of a RAM pbuf holds.
\<close>

definition pbuf_alloc ::
  "(nat \<Rightarrow> ptr) \<Rightarrow> u8 list \<Rightarrow> u8 \<Rightarrow> u16 \<Rightarrow> u8 \<Rightarrow> glue \<Rightarrow> glue \<times> ptr" where
  "pbuf_alloc malloc raw layer len type s =
     (if layer = PBUF_RAW \<and> type = PBUF_RAM
      then (let offset = EP_OFFSET;
                alloclen = LWIP_MEM_ALIGN_SIZE (SIZEOF_STRUCT_PBUF + offset) + LWIP_MEM_ALIGN_SIZE (unat len);
                p = malloc alloclen;
                data = LWIP_MEM_ALIGN_SIZE (p + SIZEOF_STRUCT_PBUF + offset)
            in if p = NULL then (s, NULL)
               else (s\<lparr>pbufs := (pbufs s)(p \<mapsto> \<lparr>pb_next = NULL, pb_payload = data, pb_tot_len = len,
                          pb_len = len, pb_type = type, pb_flags = 0, pb_ref = 1, pb_eb = NULL\<rparr>),
                       payloads := (payloads s)(data \<mapsto> raw)\<rparr>, p))
      else if layer = PBUF_RAW \<and> type = PBUF_REF
      then (let alloclen = LWIP_MEM_ALIGN_SIZE SIZEOF_STRUCT_PBUF; p = malloc alloclen
            in if p = NULL then (s, NULL)
               else (s\<lparr>pbufs := (pbufs s)(p \<mapsto> \<lparr>pb_next = NULL, pb_payload = NULL, pb_tot_len = len,
                          pb_len = len, pb_type = type, pb_flags = 0, pb_ref = 1, pb_eb = NULL\<rparr>)\<rparr>, p))
      else (s, NULL))"

text \<open>\<open>esp2glue_pbuf_freed\<close> of the other side: one \<open>pbuf_free\<close> of lwIP 2.\<close>

definition esp2glue_pbuf_freed :: "ptr \<Rightarrow> glue \<Rightarrow> glue" where
  "esp2glue_pbuf_freed p s = glue_call (Git_pbuf_free p) s"

definition pbuf_free :: "ptr \<Rightarrow> glue \<Rightarrow> (glue \<times> u8) option" where
  "pbuf_free p s =
     do { b \<leftarrow> deref (pbufs s) p;
          if pb_type b = PBUF_CUSTOM_TYPE_POOLED
          then do { w \<leftarrow> deref (wraps s) p;
                    s1 \<leftarrow> pbuf_wrapper_release p (esp2glue_pbuf_freed (ref2save w) s);
                    Some (s1, 1) }
          else if pb_next b = NULL \<and> pb_ref b = 1 \<and> (pb_type b = PBUF_RAM \<or> pb_type b = PBUF_REF)
          then do { let s1 = (if pb_eb b \<noteq> NULL then glue_call (Recycle_rx_pkt (pb_eb b)) s else s);
                    P \<leftarrow> os_free (pbufs s1) p;
                    Some (glue_call (Port_free p) (s1\<lparr>pbufs := P\<rparr>), 1) }
          else Some (s, 0) }"

definition pbuf_ref :: "ptr \<Rightarrow> glue \<Rightarrow> glue option" where
  "pbuf_ref p s =
     do { b \<leftarrow> deref (pbufs s) p;
          Some (s\<lparr>pbufs := (pbufs s)(p \<mapsto> b\<lparr>pb_ref := pb_ref b + 1\<rparr>)\<rparr>) }"

end
