(* ===== verification/Link_Layer.thy ===== *)
theory Link_Layer
  imports Link_Pool
begin

text \<open>
  Packets across the glue, both directions: \<open>new_linkoutput\<close> and the receive functions of
  \<^verbatim>\<open>glue-lwip/lwip-git.c\<close>, \<open>ethernet_input\<close> of \<^verbatim>\<open>glue-esp/lwip-esp.c\<close>; and what is proved of
  them: which wrappers are free and which travel, who holds the packets of lwIP 2, and
  what happens to a packet on every path.
\<close>

section \<open>The other side of the glue\<close>

definition PBUF_FLAG_GLUED :: u8 where "PBUF_FLAG_GLUED = 0x40"

text \<open>\<open>new_linkoutput\<close> after the packet \<open>p\<close> to send has been settled.\<close>

definition linkoutput_send ::
  "git_errs \<Rightarrow> link_env \<Rightarrow> nat \<Rightarrow> ptr \<Rightarrow> glue \<Rightarrow> (glue \<times> err_t) option" where
  "linkoutput_send E env num p s =
     do { b \<leftarrow> deref (git_pbufs s) p;
          (s1, e) \<leftarrow> glue2esp_linkoutput env num p (gp_payload b) (ucast (gp_len b)) s;
          let err = glue2git_err E e;
          Some (if err \<noteq> git_ok E then glue_call (Git_pbuf_free p) s1 else s1, err) }"

text \<open>\<open>clone\<close> is the pbuf that \<open>pbuf_clone\<close> of lwIP 2 returns, \<open>None\<close> when it has no memory.\<close>

definition new_linkoutput ::
  "git_errs \<Rightarrow> link_env \<Rightarrow> (ptr \<times> git_pbuf) option \<Rightarrow> nat \<Rightarrow> ptr \<Rightarrow> glue \<Rightarrow> (glue \<times> err_t) option" where
  "new_linkoutput E env clone num p s =
     do { b \<leftarrow> deref (git_pbufs s) p;
          if gp_next b \<noteq> NULL \<or> gp_flags b AND PBUF_FLAG_GLUED \<noteq> 0
          then (case clone of
                  None \<Rightarrow> Some (s, git_mem E)
                | Some (q, c) \<Rightarrow>
                    linkoutput_send E env num q
                      (glue_call (Git_pbuf_clone p q) (s\<lparr>git_pbufs := (git_pbufs s)(q \<mapsto> c)\<rparr>)))
          else linkoutput_send E env num p (glue_call (Git_pbuf_ref p) s) }"

section \<open>Receiving\<close>

text \<open>
  \<open>recv\<close> is what \<open>pbuf_alloc\<close> of lwIP 2 returns: the pbuf and the contents of its payload.
\<close>

definition esp2glue_alloc_for_recv ::
  "(ptr \<times> git_pbuf \<times> u8 list) option \<Rightarrow> glue \<Rightarrow> glue \<times> (ptr \<times> ptr) option" where
  "esp2glue_alloc_for_recv recv s =
     (case recv of
        None \<Rightarrow> (s, None)
      | Some (q, c, raw) \<Rightarrow>
          (s\<lparr>git_pbufs := (git_pbufs s)(q \<mapsto> c\<lparr>gp_flags := gp_flags c OR PBUF_FLAG_GLUED\<rparr>),
             payloads := (payloads s)(gp_payload c \<mapsto> raw)\<rparr>, Some (q, gp_payload c)))"

text \<open>\<open>res\<close> is what the \<open>input\<close> function of lwIP 2 answers.\<close>

definition esp2glue_ethernet_input ::
  "git_errs \<Rightarrow> err_t \<Rightarrow> nat \<Rightarrow> ptr \<Rightarrow> glue \<Rightarrow> (glue \<times> err_glue) option" where
  "esp2glue_ethernet_input E res netif_idx received s =
     do { _ \<leftarrow> arr_get (netif_git s) netif_idx;
          Some (glue_call (Git_netif_input netif_idx received) s, git2glue_err E res) }"

definition ethernet_input ::
  "git_errs \<Rightarrow> (ptr \<times> git_pbuf \<times> u8 list) option \<Rightarrow> err_t \<Rightarrow> ptr \<Rightarrow> ptr \<Rightarrow> glue \<Rightarrow> (glue \<times> err_t) option" where
  "ethernet_input E recv res p np s =
     do { b \<leftarrow> deref (pbufs s) p;
          netif \<leftarrow> deref (esp_netifs s) np;
          let (s1, g) = esp2glue_alloc_for_recv recv s;
          let s2 = (if phy_capture s1
                    then glue_call (Phy_capture (en_num netif) (pb_payload b) (pb_len b) False (g \<noteq> None)) s1
                    else s1);
          s3 \<leftarrow> (case g of
                   None \<Rightarrow> Some s2
                 | Some (q, data) \<Rightarrow> do {
                     src \<leftarrow> deref (payloads s2) (pb_payload b);
                     bytes \<leftarrow> arr_read src 0 (unat (pb_len b));
                     dst \<leftarrow> deref (payloads s2) data;
                     dst' \<leftarrow> arr_write dst 0 bytes;
                     Some (s2\<lparr>payloads := (payloads s2)(data \<mapsto> dst')\<rparr>) });
          (s4, _) \<leftarrow> pbuf_free p s3;
          (case g of
             None \<Rightarrow> Some (s4, ERR_MEM)
           | Some (q, data) \<Rightarrow> do {
               (s5, e) \<leftarrow> esp2glue_ethernet_input E res (unat (en_num netif)) q s4;
               Some (s5, glue2esp_err e) }) }"

section \<open>References\<close>

text \<open>
  How many references the glue holds on a pbuf of lwIP 2: it takes one with \<open>pbuf_ref\<close> or
  by cloning and gives one back with \<open>pbuf_free\<close>.
\<close>

fun ref_change :: "ptr \<Rightarrow> glue_call \<Rightarrow> int" where
  "ref_change p (Git_pbuf_ref q) = (if q = p then 1 else 0)"
| "ref_change p (Git_pbuf_clone _ q) = (if q = p then 1 else 0)"
| "ref_change p (Git_pbuf_free q) = (if q = p then -1 else 0)"
| "ref_change p _ = 0"

definition refs_held :: "glue_call list \<Rightarrow> ptr \<Rightarrow> int" where
  "refs_held cs p = sum_list (map (ref_change p) cs)"

lemma refs_held_simps [simp]:
  "refs_held [] p = 0" "refs_held (cs @ cs') p = refs_held cs p + refs_held cs' p"
  "refs_held (c # cs) p = ref_change p c + refs_held cs p"
  by (simp_all add: refs_held_def)

text \<open>
  The pool is sound: the free wrappers form a list, every wrapper has the constant fields
  that the code asserts, and the glue holds exactly one reference on a pbuf of lwIP 2 for
  each wrapper that travels with it.
\<close>

definition in_flight :: "glue \<Rightarrow> ptr list \<Rightarrow> ptr set" where
  "in_flight s fl = dom (wraps s) - set fl"

definition pooled :: "glue \<Rightarrow> bool" where
  "pooled s \<longleftrightarrow> finite (dom (wraps s)) \<and> NULL \<notin> dom (wraps s)
     \<and> (\<forall>w\<in>dom (wraps s). \<exists>b. pbufs s w = Some b \<and> pb_type b = PBUF_CUSTOM_TYPE_POOLED
          \<and> pb_flags b = 0 \<and> pb_next b = NULL \<and> pb_eb b = NULL)"

definition saved :: "glue \<Rightarrow> ptr \<Rightarrow> ptr option" where
  "saved s w = map_option ref2save (wraps s w)"

definition travelling :: "glue \<Rightarrow> ptr list \<Rightarrow> ptr \<Rightarrow> ptr set" where
  "travelling s fl q = {w \<in> in_flight s fl. saved s w = Some q}"

definition pool_ok :: "glue \<Rightarrow> ptr list \<Rightarrow> bool" where
  "pool_ok s fl \<longleftrightarrow> pooled s \<and> path wnext (wraps s) (pbuf_wrapper_head s) fl NULL
     \<and> (\<forall>q. refs_held (glue_calls s) q = int (card (travelling s fl q)))"

text \<open>A new block of eight wrappers: none of its addresses is in use.\<close>

definition block_free :: "glue \<Rightarrow> ptr \<Rightarrow> bool" where
  "block_free s a \<longleftrightarrow> a = NULL
     \<or> (\<forall>i<PBUF_WRAPPER_BLOCK. pbufs s (a + SIZEOF_PBUF_WRAPPER * i) = None
          \<and> wraps s (a + SIZEOF_PBUF_WRAPPER * i) = None)"

interpretation wrapper: linked wnext "\<lambda>p w. w\<lparr>wnext := p\<rparr>"
  by unfold_locales simp_all

subsection \<open>A new block\<close>

abbreviation block_addr :: "ptr \<Rightarrow> nat \<Rightarrow> ptr" where
  "block_addr a i \<equiv> a + SIZEOF_PBUF_WRAPPER * i"

lemma block_addr_inj [simp]: "block_addr a i = block_addr a j \<longleftrightarrow> i = j"
  by (simp add: SIZEOF_PBUF_WRAPPER_def SIZEOF_PBUF_def)

lemma block_addr_pred: "0 < i \<Longrightarrow> block_addr a i - SIZEOF_PBUF_WRAPPER = block_addr a (i - 1)"
  by (cases i) simp_all

definition same_rest :: "glue \<Rightarrow> glue \<Rightarrow> bool" where
  "same_rest s s' \<longleftrightarrow>
     s' = s\<lparr>pbufs := pbufs s', wraps := wraps s', pbuf_wrapper_head := pbuf_wrapper_head s'\<rparr>"

lemma same_rest_refl [simp]: "same_rest s s"
  by (simp add: same_rest_def)

lemma same_rest_trans: "same_rest s s' \<Longrightarrow> same_rest s' s'' \<Longrightarrow> same_rest s s''"
  unfolding same_rest_def by (cases s, cases s', cases s'') simp

lemma same_rest_sel:
  assumes "same_rest s s'"
  shows "glue_calls s' = glue_calls s" "netif_esp s' = netif_esp s" "esp_netifs s' = esp_netifs s"
    "phy_capture s' = phy_capture s" "git_pbufs s' = git_pbufs s" "payloads s' = payloads s"
    "netif_git s' = netif_git s"
  by (subst assms [unfolded same_rest_def], simp)+

lemma same_rest_upd:
  "same_rest s s' \<Longrightarrow> same_rest s (s'\<lparr>pbufs := x, wraps := y\<rparr>)"
  "same_rest s s' \<Longrightarrow> same_rest s (s'\<lparr>pbuf_wrapper_head := z\<rparr>)"
  unfolding same_rest_def by (cases s, cases s', simp)+

lemma init_block_rest: "same_rest s (init_block raw a n s)"
  by (induction n) (simp_all add: Let_def same_rest_upd)

lemma init_block_frame:
  "x \<notin> block_addr a ` {..<n} \<Longrightarrow> wraps (init_block raw a n s) x = wraps s x"
  "x \<notin> block_addr a ` {..<n} \<Longrightarrow> pbufs (init_block raw a n s) x = pbufs s x"
  by (induction n) (simp_all add: Let_def lessThan_Suc)

lemma init_block_dom: "dom (wraps (init_block raw a n s)) = block_addr a ` {..<n} \<union> dom (wraps s)"
  by (induction n) (simp_all add: Let_def lessThan_Suc del: fun_upd_apply)

lemma init_block_head [simp]: "pbuf_wrapper_head (init_block raw a n s) = pbuf_wrapper_head s"
  by (induction n) (simp_all add: Let_def)

lemma init_block_path:
  "a \<noteq> NULL \<Longrightarrow> path wnext (wraps (init_block raw a (Suc n) s)) (block_addr a n)
     (rev (map (block_addr a) [0..<Suc n])) NULL"
proof (induction n)
  case (Suc n)
  have "block_addr a (Suc n) \<notin> set (rev (map (block_addr a) [0..<Suc n]))"
    by (auto simp: SIZEOF_PBUF_WRAPPER_def SIZEOF_PBUF_def)
  with Suc have p: "path wnext ((wraps (init_block raw a (Suc n) s))(block_addr a (Suc n) := v)) (block_addr a n)
     (rev (map (block_addr a) [0..<Suc n])) NULL" for v
    by (subst path_upd) simp_all
  define v where "v = (snd (raw (Suc n)))\<lparr>wnext := block_addr a n\<rparr>"
  have w: "wraps (init_block raw a (Suc (Suc n)) s)
      = (wraps (init_block raw a (Suc n) s))(block_addr a (Suc n) \<mapsto> v)"
    by (simp add: init_block.simps(2) [of raw a "Suc n"] Let_def v_def del: init_block.simps)
  have "wnext v = block_addr a n" "block_addr a (Suc n) \<noteq> NULL" using Suc.prems by (simp_all add: v_def)
  with p [of "Some v"] show ?case unfolding w
    by (simp only: upt_Suc_append [of 0 "Suc n"] map_append rev_append list.map rev.simps append.simps
        path.simps deref_upd) simp
qed (simp add: Let_def)

lemma init_block_pooled:
  assumes "a \<noteq> NULL" "pooled s"
  shows "pooled (init_block raw a n s)"
proof (induction n)
  case 0
  then show ?case using assms(2) by simp
next
  case (Suc n)
  have "block_addr a n \<noteq> NULL" using assms(1) by simp
  with Suc show ?case by (auto simp: pooled_def Let_def)
qed

subsection \<open>Taking and giving back a wrapper\<close>

lemma path_head_NULL: "path nx h p as NULL \<Longrightarrow> p = NULL \<longleftrightarrow> as = []"
  by (cases as) (auto dest: deref_SomeD)

lemma path_in_dom: "path nx h p as q \<Longrightarrow> set as \<subseteq> dom h"
  by (induction as arbitrary: p) (auto dest!: deref_SomeD)

text \<open>The pool with the free list \<open>fl\<close>, without the accounting of references.\<close>

definition pool_list :: "glue \<Rightarrow> ptr list \<Rightarrow> bool" where
  "pool_list s fl \<longleftrightarrow> pooled s \<and> path wnext (wraps s) (pbuf_wrapper_head s) fl NULL"

definition taken :: "glue \<Rightarrow> ptr list \<Rightarrow> glue \<Rightarrow> ptr list \<Rightarrow> ptr \<Rightarrow> bool" where
  "taken s fl s' fl' p \<longleftrightarrow> pool_list s' fl' \<and> p \<noteq> NULL \<and> p \<in> dom (wraps s') \<and> p \<notin> in_flight s fl
     \<and> in_flight s' fl' = insert p (in_flight s fl) \<and> (\<forall>x\<in>in_flight s fl. wraps s' x = wraps s x)
     \<and> same_rest s s' \<and> (\<forall>x. x \<notin> dom (wraps s') \<longrightarrow> pbufs s' x = pbufs s x)"

lemma take_head:
  assumes "pool_list s (p # fl)"
  shows "\<exists>w. deref (wraps s) (pbuf_wrapper_head s) = Some w \<and> pbuf_wrapper_head s = p
    \<and> taken s (p # fl) (s\<lparr>pbuf_wrapper_head := wnext w\<rparr>) fl p"
proof -
  have pa: "path wnext (wraps s) (pbuf_wrapper_head s) (p # fl) NULL"
    using assms by (simp add: pool_list_def)
  then obtain w where w: "pbuf_wrapper_head s = p" "deref (wraps s) p = Some w" "path wnext (wraps s) (wnext w) fl NULL"
    by auto
  have "p \<notin> set fl" using path_distinct [OF pa] by simp
  with w assms show ?thesis
    by (auto simp: taken_def pool_list_def pooled_def in_flight_def same_rest_def dest: deref_SomeD)
qed

lemma wrapper_get_ok:
  assumes "pool_list s fl" "block_free s a"
  shows "(pbuf_wrapper_get a raw s = Some (s, NULL) \<and> fl = [] \<and> a = NULL)
    \<or> (\<exists>s' p fl'. pbuf_wrapper_get a raw s = Some (s', p) \<and> taken s fl s' fl' p)"
proof (cases fl)
  case (Cons p fl')
  with assms take_head [of s p fl'] have "pbuf_wrapper_head s \<noteq> NULL"
    by (auto dest: deref_SomeD)
  with Cons assms take_head [of s p fl'] show ?thesis
    by (auto simp: pbuf_wrapper_get_def)
next
  case Nil
  then have h: "pbuf_wrapper_head s = NULL" using assms(1) by (simp add: pool_list_def)
  show ?thesis
  proof (cases "a = NULL")
    case True
    with h Nil show ?thesis by (simp add: pbuf_wrapper_get_def)
  next
    case False
    define s1 where "s1 = (init_block raw a PBUF_WRAPPER_BLOCK s)\<lparr>pbuf_wrapper_head :=
        block_addr a (PBUF_WRAPPER_BLOCK - 1)\<rparr>"
    let ?bl = "rev (map (block_addr a) [0..<PBUF_WRAPPER_BLOCK])"
    have "path wnext (wraps s1) (pbuf_wrapper_head s1) ?bl NULL"
      using init_block_path [OF False, of raw "PBUF_WRAPPER_BLOCK - 1" s]
      by (simp add: s1_def PBUF_WRAPPER_BLOCK_def del: init_block.simps upt_Suc)
    moreover have "pooled s1"
      using init_block_pooled [OF False, of s raw PBUF_WRAPPER_BLOCK] assms(1)
      by (simp add: pool_list_def s1_def pooled_def)
    ultimately have pl: "pool_list s1 ?bl" by (simp add: pool_list_def)
    obtain p fl' where bl: "?bl = p # fl'" by (cases ?bl) (simp_all add: PBUF_WRAPPER_BLOCK_def)
    have sb: "set ?bl = block_addr a ` {..<PBUF_WRAPPER_BLOCK}" by auto
    have new: "dom (wraps s) \<inter> block_addr a ` {..<PBUF_WRAPPER_BLOCK} = {}"
      using assms(2) False by (auto simp: block_free_def)
    have d1: "dom (wraps s1) = set ?bl \<union> dom (wraps s)"
      unfolding sb s1_def by (simp add: init_block_dom)
    have fl1: "in_flight s1 ?bl = in_flight s fl"
      using new Nil unfolding in_flight_def d1 sb by auto
    from take_head [of s1 p fl'] pl bl obtain w where
      t: "deref (wraps s1) (pbuf_wrapper_head s1) = Some w" "pbuf_wrapper_head s1 = p"
        "taken s1 ?bl (s1\<lparr>pbuf_wrapper_head := wnext w\<rparr>) fl' p" by auto
    have "same_rest s s1"
      unfolding s1_def by (intro same_rest_upd init_block_rest)
    moreover have "wraps s1 x = wraps s x" if "x \<in> dom (wraps s)" for x
      using init_block_frame(1) [of x a PBUF_WRAPPER_BLOCK raw s] new that by (auto simp: s1_def)
    moreover have "pbufs s1 x = pbufs s x" if "x \<notin> dom (wraps s1)" for x
      using init_block_frame(2) [of x a PBUF_WRAPPER_BLOCK raw s] that unfolding d1 sb by (auto simp: s1_def)
    ultimately have "taken s fl (s1\<lparr>pbuf_wrapper_head := wnext w\<rparr>) fl' p"
      using t(3) unfolding taken_def fl1 by (auto simp: in_flight_def intro: same_rest_trans)
    moreover have "pbuf_wrapper_get a raw s = Some (s1\<lparr>pbuf_wrapper_head := wnext w\<rparr>, p)"
      using h False t(1,2) by (simp add: pbuf_wrapper_get_def s1_def)
    ultimately show ?thesis by blast
  qed
qed

lemma release_ok:
  assumes "pool_list s fl" "p \<in> in_flight s fl"
  shows "\<exists>w. wraps s p = Some w \<and> p \<noteq> NULL
    \<and> pbuf_wrapper_release p s = Some (s\<lparr>wraps := (wraps s)(p \<mapsto> w\<lparr>wnext := pbuf_wrapper_head s\<rparr>),
                                        pbuf_wrapper_head := p\<rparr>)
    \<and> pool_list (s\<lparr>wraps := (wraps s)(p \<mapsto> w\<lparr>wnext := pbuf_wrapper_head s\<rparr>), pbuf_wrapper_head := p\<rparr>) (p # fl)"
proof -
  from assms obtain w where w: "wraps s p = Some w" "p \<noteq> NULL" "p \<notin> set fl"
    by (auto simp: in_flight_def pool_list_def pooled_def)
  with assms show ?thesis
    by (auto simp: pbuf_wrapper_release_def deref_def pool_list_def pooled_def)
qed

lemma pool_ok_list: "pool_ok s fl \<Longrightarrow> pool_list s fl"
  by (simp add: pool_ok_def pool_list_def)

subsection \<open>Counting\<close>

lemma travelling_insert:
  assumes "pooled s'" "in_flight s' fl' = insert p (in_flight s fl)" "p \<notin> in_flight s fl"
    and "\<forall>x\<in>in_flight s fl. saved s' x = saved s x"
    and "saved s' p = Some r"
  shows "card (travelling s' fl' q) = card (travelling s fl q) + (if q = r then 1 else 0)"
proof -
  have "finite (in_flight s' fl')" using assms(1) by (simp add: in_flight_def pooled_def)
  then have "finite (in_flight s fl)" using assms(2) by simp
  then have f: "finite (travelling s fl q)" by (simp add: travelling_def)
  have "travelling s' fl' q = (if q = r then insert p (travelling s fl q) else travelling s fl q)"
    using assms by (auto simp: travelling_def)
  moreover have "p \<notin> travelling s fl q" using assms(3) by (simp add: travelling_def)
  ultimately show ?thesis using f by (cases "q = r") simp_all
qed

lemma travelling_same:
  assumes "in_flight s' fl' = in_flight s fl"
    and "\<forall>x\<in>in_flight s fl. saved s' x = saved s x"
  shows "travelling s' fl' q = travelling s fl q"
  using assms by (auto simp: travelling_def)

subsection \<open>Sending\<close>

definition sends_to :: "glue \<Rightarrow> nat \<Rightarrow> ptr \<Rightarrow> esp_netif \<Rightarrow> bool" where
  "sends_to s num np netif \<longleftrightarrow> arr_get (netif_esp s) num = Some np
     \<and> (np \<noteq> NULL \<longrightarrow> esp_netifs s np = Some netif)"

text \<open>What the binary and the capture hook see of a packet.\<close>

definition shown :: "link_env \<Rightarrow> glue \<Rightarrow> ptr \<Rightarrow> esp_netif \<Rightarrow> ptr \<Rightarrow> ptr \<Rightarrow> u16 \<Rightarrow> glue_call list" where
  "shown env s np netif p data len = Blob_linkoutput np p data len
     # (if phy_capture s then [Phy_capture (en_num netif) data len True (le_linkoutput env = ERR_OK)] else [])"

lemma refs_held_shown [simp]: "refs_held (shown env s np netif p data len) q = 0"
  by (simp add: shown_def refs_held_def)

text \<open>\<open>stays\<close>: the packets under way are the same; \<open>leaves\<close>: one more, in the wrapper \<open>p\<close>.\<close>

definition stays :: "glue \<Rightarrow> ptr list \<Rightarrow> glue \<Rightarrow> ptr list \<Rightarrow> bool" where
  "stays s fl s' fl' \<longleftrightarrow> pool_list s' fl' \<and> in_flight s' fl' = in_flight s fl
     \<and> (\<forall>x\<in>in_flight s fl. wraps s' x = wraps s x)"

definition leaves :: "glue \<Rightarrow> ptr list \<Rightarrow> glue \<Rightarrow> ptr list \<Rightarrow> ptr \<Rightarrow> ptr \<Rightarrow> ptr \<Rightarrow> u16 \<Rightarrow> bool" where
  "leaves s fl s' fl' p ref data len \<longleftrightarrow> pool_list s' fl' \<and> p \<notin> in_flight s fl
     \<and> in_flight s' fl' = insert p (in_flight s fl)
     \<and> (\<forall>x\<in>in_flight s fl. wraps s' x = wraps s x) \<and> saved s' p = Some ref
     \<and> (\<exists>b. pbufs s' p = Some b \<and> pb_payload b = data \<and> pb_len b = len \<and> pb_tot_len b = len
          \<and> pb_type b = PBUF_CUSTOM_TYPE_POOLED \<and> pb_flags b = 0 \<and> pb_next b = NULL \<and> pb_eb b = NULL)"

lemma pooled_upd:
  assumes "pooled s" "wraps s p = Some w" "pbufs s p = Some b"
  shows "pooled (s\<lparr>pbufs := (pbufs s)(p \<mapsto> b\<lparr>pb_payload := data, pb_len := len, pb_tot_len := len',
                               pb_ref := r\<rparr>), wraps := (wraps s)(p \<mapsto> w'), glue_calls := cs\<rparr>)"
proof -
  have "insert p (dom (wraps s)) = dom (wraps s)" using assms(2) by auto
  moreover have "pb_type b = PBUF_CUSTOM_TYPE_POOLED \<and> pb_flags b = 0 \<and> pb_next b = NULL \<and> pb_eb b = NULL"
  proof -
    have "p \<in> dom (wraps s)" using assms(2) by auto
    with assms(1) obtain b' where "pbufs s p = Some b'" "pb_type b' = PBUF_CUSTOM_TYPE_POOLED
        \<and> pb_flags b' = 0 \<and> pb_next b' = NULL \<and> pb_eb b' = NULL"
      unfolding pooled_def by blast
    with assms(3) show ?thesis by simp
  qed
  ultimately show ?thesis using assms(1) by (simp add: pooled_def)
qed

lemma linkoutput_ok:
  assumes "pool_list s fl" "block_free s (le_block env)" "sends_to s num np netif"
  shows "\<exists>s' e fl'. glue2esp_linkoutput env num ref data sz s = Some (s', e)
    \<and> (if e = GLUE_ERR_OK
       then \<exists>p. leaves s fl s' fl' p ref data (ucast sz)
              \<and> glue_calls s' = glue_calls s @ shown env s np netif p data (ucast sz)
              \<and> le_linkoutput env = ERR_OK \<and> np \<noteq> NULL \<and> en_flags netif AND NETIF_FLAG_LINK_UP \<noteq> 0
       else stays s fl s' fl'
          \<and> (glue_calls s' = glue_calls s
             \<or> (\<exists>p. glue_calls s' = glue_calls s @ shown env s np netif p data (ucast sz)
                   \<and> e = esp2glue_err (le_linkoutput env))))"
proof -
  let ?up = "np \<noteq> NULL \<and> en_flags netif AND NETIF_FLAG_LINK_UP \<noteq> 0"
  have np: "arr_get (netif_esp s) num = Some np" "np \<noteq> NULL \<Longrightarrow> deref (esp_netifs s) np = Some netif"
    using assms(3) by (auto simp: sends_to_def deref_def)
  have st: "stays s fl s fl" using assms(1) by (simp add: stays_def)
  from wrapper_get_ok [OF assms(1,2), of "le_raw env"] show ?thesis
  proof
    assume g: "pbuf_wrapper_get (le_block env) (le_raw env) s = Some (s, NULL) \<and> fl = [] \<and> le_block env = NULL"
    show ?thesis using np st
      by (cases ?up) (auto simp: glue2esp_linkoutput_def g [THEN conjunct1] intro!: exI [of _ s] exI [of _ fl])
  next
    assume "\<exists>s' p fl'. pbuf_wrapper_get (le_block env) (le_raw env) s = Some (s', p) \<and> taken s fl s' fl' p"
    then obtain s1 p fl1 where g: "pbuf_wrapper_get (le_block env) (le_raw env) s = Some (s1, p)"
      "taken s fl s1 fl1 p" by blast
    then have t: "pool_list s1 fl1" "p \<noteq> NULL" "p \<in> dom (wraps s1)" "p \<notin> in_flight s fl"
      "in_flight s1 fl1 = insert p (in_flight s fl)" "\<forall>x\<in>in_flight s fl. wraps s1 x = wraps s x" "same_rest s s1"
      by (auto simp: taken_def)
    then obtain w where w: "wraps s1 p = Some w" by auto
    then obtain b where b: "pbufs s1 p = Some b" "pb_type b = PBUF_CUSTOM_TYPE_POOLED"
      "pb_flags b = 0" "pb_next b = NULL" "pb_eb b = NULL"
      using t(1) unfolding pool_list_def pooled_def by blast
    have pfl: "p \<notin> set fl1" using t(5) by (auto simp: in_flight_def)
    define s4 where "s4 = s1\<lparr>pbufs := (pbufs s1)(p \<mapsto> b\<lparr>pb_payload := data, pb_len := ucast sz,
          pb_tot_len := ucast sz, pb_ref := 0\<rparr>), wraps := (wraps s1)(p \<mapsto> w\<lparr>ref2save := ref\<rparr>),
        glue_calls := glue_calls s @ shown env s np netif p data (ucast sz)\<rparr>"
    have pl4: "pool_list s4 fl1"
      using pooled_upd [OF _ w b(1)] t(1) pfl by (simp add: pool_list_def s4_def)
    have if4: "in_flight s4 fl1 = insert p (in_flight s fl)" "\<forall>x\<in>in_flight s fl. wraps s4 x = wraps s x"
      using t(4,5,6) w by (auto simp: s4_def in_flight_def)
    have e: "glue2esp_linkoutput env num ref data sz s = (if ?up then do {
        s5 \<leftarrow> (if le_linkoutput env \<noteq> ERR_OK then pbuf_wrapper_release p s4 else Some s4);
        Some (s5, esp2glue_err (le_linkoutput env)) } else Some (s, GLUE_ERR_IF))"
      using np g t(2) w b(1) same_rest_sel(1,4) [OF t(7)]
      by (auto simp: glue2esp_linkoutput_def s4_def glue_call_def shown_def deref_def Let_def)
    show ?thesis
    proof (cases "?up \<and> le_linkoutput env \<noteq> ERR_OK")
      case True
      have "p \<in> in_flight s4 fl1" using if4 by simp
      from release_ok [OF pl4 this] obtain w4 where r:
        "pbuf_wrapper_release p s4 = Some (s4\<lparr>wraps := (wraps s4)(p \<mapsto> w4\<lparr>wnext := pbuf_wrapper_head s4\<rparr>),
                                               pbuf_wrapper_head := p\<rparr>)"
        "pool_list (s4\<lparr>wraps := (wraps s4)(p \<mapsto> w4\<lparr>wnext := pbuf_wrapper_head s4\<rparr>),
                       pbuf_wrapper_head := p\<rparr>) (p # fl1)" "wraps s4 p = Some w4" by auto
      have "stays s fl (s4\<lparr>wraps := (wraps s4)(p \<mapsto> w4\<lparr>wnext := pbuf_wrapper_head s4\<rparr>),
                           pbuf_wrapper_head := p\<rparr>) (p # fl1)"
        using r(2,3) if4 t(4) by (auto simp: stays_def in_flight_def)
      with True r(1) show ?thesis
        by (auto simp: e esp2glue_ok s4_def intro!: exI [of _ "p # fl1"])
    next
      case False
      have "leaves s fl s4 fl1 p ref data (ucast sz)"
        using pl4 if4 t(4) b by (auto simp: leaves_def s4_def saved_def)
      moreover have "glue_calls s4 = glue_calls s @ shown env s np netif p data (ucast sz)"
        by (simp add: s4_def)
      ultimately show ?thesis
        using False st by (auto simp: e esp2glue_ok)
    qed
  qed
qed

lemma in_flight_upd [simp]:
  "in_flight (s\<lparr>git_pbufs := g\<rparr>) fl = in_flight s fl" "in_flight (glue_call c s) fl = in_flight s fl"
  by (simp_all add: in_flight_def glue_call_def)

lemma saved_upd [simp]:
  "saved (s\<lparr>git_pbufs := g\<rparr>) = saved s" "saved (glue_call c s) = saved s"
  by (simp_all add: saved_def glue_call_def fun_eq_iff)

lemma glue_call_sel [simp]:
  "pbufs (glue_call c s) = pbufs s" "wraps (glue_call c s) = wraps s" "payloads (glue_call c s) = payloads s"
  "git_pbufs (glue_call c s) = git_pbufs s" "pbuf_wrapper_head (glue_call c s) = pbuf_wrapper_head s"
  "netif_esp (glue_call c s) = netif_esp s" "esp_netifs (glue_call c s) = esp_netifs s"
  "phy_capture (glue_call c s) = phy_capture s" "netif_git (glue_call c s) = netif_git s"
  "glue_calls (glue_call c s) = glue_calls s @ [c]"
  by (simp_all add: glue_call_def)

lemma pool_list_upd [simp]:
  "pool_list (s\<lparr>git_pbufs := g\<rparr>) fl = pool_list s fl" "pool_list (glue_call c s) fl = pool_list s fl"
  by (simp_all add: pool_list_def pooled_def)

lemma stays_saved: "stays s fl s' fl' \<Longrightarrow> travelling s' fl' q = travelling s fl q"
  by (rule travelling_same) (auto simp: stays_def saved_def)

lemma leaves_saved: "leaves s fl s' fl' w r data len \<Longrightarrow>
    card (travelling s' fl' q) = card (travelling s fl q) + (if q = r then 1 else 0)"
  by (rule travelling_insert) (auto simp: leaves_def saved_def pool_list_def)

lemma stays_upd [simp]:
  "stays (s\<lparr>git_pbufs := g\<rparr>) fl s' fl' = stays s fl s' fl'" "stays (glue_call c s) fl s' fl' = stays s fl s' fl'"
  "stays s fl (glue_call c s') fl' = stays s fl s' fl'"
  by (simp_all add: stays_def)

lemma leaves_upd [simp]:
  "leaves (s\<lparr>git_pbufs := g\<rparr>) fl s' fl' = leaves s fl s' fl'"
  "leaves (glue_call c s) fl s' fl' = leaves s fl s' fl'"
  by (simp_all add: leaves_def fun_eq_iff)

text \<open>What \<open>new_linkoutput\<close> does with the settled packet \<open>q\<close>, on which it has one more reference.\<close>

definition accounted :: "git_errs \<Rightarrow> link_env \<Rightarrow> glue \<Rightarrow> ptr list \<Rightarrow> ptr \<Rightarrow> git_pbuf \<Rightarrow> glue \<Rightarrow> err_t \<Rightarrow> bool" where
  "accounted E env s fl q c s' r \<longleftrightarrow> (\<exists>fl'. pool_ok s' fl'
     \<and> (if r = git_ok E
        then le_linkoutput env = ERR_OK \<and> (\<exists>w. leaves s fl s' fl' w q (gp_payload c) (gp_len c))
        else stays s fl s' fl')
     \<and> (\<forall>x. refs_held (glue_calls s') x
          = refs_held (glue_calls s) x + (if r = git_ok E \<and> x = q then 1 else 0)))"

lemma linkoutput_send_ok:
  assumes "errs_ok E" "pool_ok s fl" "block_free s (le_block env)" "sends_to s num np netif"
    and "deref (git_pbufs s1) q = Some c" "s1 = glue_call k (s\<lparr>git_pbufs := g\<rparr>)"
    and "\<And>x. ref_change x k = (if x = q then 1 else 0)"
  shows "\<exists>s' r. linkoutput_send E env num q s1 = Some (s', r) \<and> accounted E env s fl q c s' r"
proof -
  have pl: "pool_list s1 fl" using assms(2,6) by (simp add: pool_ok_list)
  have pre: "block_free s1 (le_block env)" "sends_to s1 num np netif"
    using assms(3,4,6) by (simp_all add: block_free_def sends_to_def)
  have rs: "refs_held (glue_calls s1) x = refs_held (glue_calls s) x + (if x = q then 1 else 0)" for x
    using assms(6,7) by simp
  have rt: "refs_held (glue_calls s) x = int (card (travelling s fl x))" for x
    using assms(2) by (simp add: pool_ok_def)
  have u: "ucast (ucast (gp_len c) :: u32) = gp_len c"
    by (rule bit_word_eqI) (simp add: bit_simps)
  have up: "leaves s1 fl = leaves s fl" "stays s1 fl = stays s fl"
    by (simp_all add: assms(6) fun_eq_iff)
  from linkoutput_ok [OF pl pre, of q "gp_payload c" "ucast (gp_len c)", unfolded u up] obtain s2 e fl' where g:
    "glue2esp_linkoutput env num q (gp_payload c) (ucast (gp_len c)) s1 = Some (s2, e)"
    "if e = GLUE_ERR_OK then (\<exists>p. leaves s fl s2 fl' p q (gp_payload c) (gp_len c)
         \<and> glue_calls s2 = glue_calls s1 @ shown env s1 np netif p (gp_payload c) (gp_len c)
         \<and> le_linkoutput env = ERR_OK \<and> np \<noteq> NULL \<and> en_flags netif AND NETIF_FLAG_LINK_UP \<noteq> 0)
     else stays s fl s2 fl' \<and> (glue_calls s2 = glue_calls s1
        \<or> (\<exists>p. glue_calls s2 = glue_calls s1 @ shown env s1 np netif p (gp_payload c) (gp_len c)
              \<and> e = esp2glue_err (le_linkoutput env)))"
    by blast
  have e: "linkoutput_send E env num q s1
      = Some (if e \<noteq> GLUE_ERR_OK then glue_call (Git_pbuf_free q) s2 else s2, glue2git_err E e)"
    using assms(1,5) g(1) by (simp add: linkoutput_send_def glue2git_ok Let_def)
  show ?thesis
  proof (cases "e = GLUE_ERR_OK")
    case True
    with g(2) obtain p where p: "leaves s fl s2 fl' p q (gp_payload c) (gp_len c)"
      "\<And>x. refs_held (glue_calls s2) x = refs_held (glue_calls s1) x" "le_linkoutput env = ERR_OK" by auto
    then have "pool_ok s2 fl'"
      using leaves_saved [OF p(1)] rs rt by (simp add: pool_ok_def leaves_def pool_list_def)
    with True e p rs show ?thesis by (auto simp: accounted_def)
  next
    case False
    with g(2) have p: "stays s fl s2 fl'" "\<And>x. refs_held (glue_calls s2) x = refs_held (glue_calls s1) x"
      by auto
    let ?s' = "glue_call (Git_pbuf_free q) s2"
    have ref: "refs_held (glue_calls ?s') x = refs_held (glue_calls s) x" for x
      using p(2) rs by simp
    moreover have st: "stays s fl ?s' fl'" using p(1) by simp
    then have "pool_ok ?s' fl'"
      using stays_saved [OF st] ref rt by (simp add: pool_ok_def stays_def pool_list_def)
    ultimately show ?thesis using p(1) False e assms(1) by (auto simp: accounted_def glue2git_ok)
  qed
qed

lemma new_linkoutput_ok:
  assumes "errs_ok E" "pool_ok s fl" "block_free s (le_block env)" "sends_to s num np netif"
    and "p \<noteq> NULL" "git_pbufs s p = Some b" "\<And>q c. clone = Some (q, c) \<Longrightarrow> q \<noteq> NULL"
  shows "case (if gp_next b \<noteq> NULL \<or> gp_flags b AND PBUF_FLAG_GLUED \<noteq> 0 then clone else Some (p, b)) of
      None \<Rightarrow> new_linkoutput E env clone num p s = Some (s, git_mem E)
    | Some (q, c) \<Rightarrow> \<exists>s' r. new_linkoutput E env clone num p s = Some (s', r) \<and> accounted E env s fl q c s' r"
proof (cases "gp_next b \<noteq> NULL \<or> gp_flags b AND PBUF_FLAG_GLUED \<noteq> 0")
  case False
  have g: "glue_call k s = glue_call k (s\<lparr>git_pbufs := git_pbufs s\<rparr>)" for k by simp
  from False assms(5,6) linkoutput_send_ok [OF assms(1-4) _ g, of "Git_pbuf_ref p" p b] show ?thesis
    by (simp add: new_linkoutput_def deref_def)
next
  case True
  show ?thesis
  proof (cases clone)
    case None
    with True assms(5,6) show ?thesis by (auto simp: new_linkoutput_def deref_def)
  next
    case (Some qc)
    obtain q c where qc: "qc = (q, c)" by (cases qc)
    from True Some qc assms(5,6,7) linkoutput_send_ok [OF assms(1-4) _ refl,
        of "Git_pbuf_clone p q" "(git_pbufs s)(q \<mapsto> c)" q c]
    show ?thesis by (auto simp: new_linkoutput_def deref_def)
  qed
qed

subsection \<open>The binary is done with a packet\<close>

lemma pbuf_free_wrapper:
  assumes "pool_ok s fl" "p \<in> in_flight s fl"
  shows "\<exists>s' q. pbuf_free p s = Some (s', 1) \<and> saved s p = Some q \<and> pool_ok s' (p # fl)
    \<and> in_flight s' (p # fl) = in_flight s fl - {p} \<and> glue_calls s' = glue_calls s @ [Git_pbuf_free q]"
proof -
  from assms obtain b where b: "p \<noteq> NULL" "pbufs s p = Some b" "pb_type b = PBUF_CUSTOM_TYPE_POOLED"
    unfolding pool_ok_def pooled_def in_flight_def by fastforce
  from release_ok [of "esp2glue_pbuf_freed q s" fl p for q] assms pool_ok_list [OF assms(1)] obtain w where
    w: "wraps s p = Some w" by (auto simp: esp2glue_pbuf_freed_def)
  let ?s1 = "esp2glue_pbuf_freed (ref2save w) s"
  have "pool_list ?s1 fl" "p \<in> in_flight ?s1 fl"
    using assms pool_ok_list by (simp_all add: esp2glue_pbuf_freed_def)
  from release_ok [OF this] w obtain s' where r: "pbuf_wrapper_release p ?s1 = Some s'"
    "s' = ?s1\<lparr>wraps := (wraps s)(p \<mapsto> w\<lparr>wnext := pbuf_wrapper_head s\<rparr>), pbuf_wrapper_head := p\<rparr>"
    "pool_list s' (p # fl)" by (auto simp: esp2glue_pbuf_freed_def)
  have f: "in_flight s' (p # fl) = in_flight s fl - {p}"
    using w by (auto simp: r(2) in_flight_def esp2glue_pbuf_freed_def)
  have sv: "saved s p = Some (ref2save w)" using w by (simp add: saved_def)
  have "card (travelling s fl q) = card (travelling s' (p # fl) q) + (if q = ref2save w then 1 else 0)" for q
  proof (rule travelling_insert)
    show "pooled s" using assms(1) by (simp add: pool_ok_def)
    show "in_flight s fl = insert p (in_flight s' (p # fl))" using f assms(2) by auto
    show "\<forall>x\<in>in_flight s' (p # fl). saved s x = saved s' x"
      using f by (auto simp: r(2) saved_def)
  qed (use f sv in auto)
  moreover have calls: "glue_calls s' = glue_calls s @ [Git_pbuf_free (ref2save w)]"
    by (simp add: r(2) esp2glue_pbuf_freed_def)
  ultimately have "refs_held (glue_calls s') q = int (card (travelling s' (p # fl) q))" for q
    using assms(1) by (simp add: pool_ok_def)
  then have "pool_ok s' (p # fl)" using r(3) by (simp add: pool_ok_def pool_list_def)
  moreover have "pbuf_free p s = Some (s', 1)"
    using b w r(1) by (simp add: pbuf_free_def deref_def)
  ultimately show ?thesis using sv f calls by blast
qed

end
