(* ===== verification/Link_Properties.thy ===== *)
theory Link_Properties
  imports Link_Layer
begin

text \<open>
  The properties of the packet path: what sending does in every case, what happens when
  the SDK's binary gives a packet back, what receiving does, and that over every sequence
  of these the pool of wrappers stays sound and the references on packets of lwIP 2 add
  up: none is leaked, none is given back twice.
\<close>

section \<open>Sequences of packets\<close>

definition link_ok :: "glue \<Rightarrow> bool" where
  "link_ok s \<longleftrightarrow> (\<exists>fl. pool_ok s fl)"

definition under_way :: "glue \<Rightarrow> ptr \<Rightarrow> bool" where
  "under_way s w \<longleftrightarrow> (\<exists>fl. path wnext (wraps s) (pbuf_wrapper_head s) fl NULL \<and> w \<in> in_flight s fl)"

text \<open>
  The two sides at work: lwIP 2 sends a packet; the binary gives a packet back that is
  under way (its contract: once); it allocates, references and frees pbufs of its own and
  hands in received ones; interfaces change.
\<close>

inductive link_step :: "git_errs \<Rightarrow> glue \<Rightarrow> glue \<Rightarrow> bool" for E where
  send: "block_free s (le_block env) \<Longrightarrow> sends_to s num np netif \<Longrightarrow> p \<noteq> NULL \<Longrightarrow> git_pbufs s p = Some b \<Longrightarrow>
         (\<And>q c. clone = Some (q, c) \<Longrightarrow> q \<noteq> NULL) \<Longrightarrow>
         new_linkoutput E env clone num p s = Some (s', r) \<Longrightarrow> link_step E s s'"
| give_back: "under_way s w \<Longrightarrow> pbuf_free w s = Some (s', r) \<Longrightarrow> link_step E s s'"
| alloc_pbuf: "(\<And>n. pbufs s (malloc n) = None) \<Longrightarrow> pbuf_alloc malloc raw layer len type s = (s', a) \<Longrightarrow>
         link_step E s s'"
| free_pbuf: "p \<notin> dom (wraps s) \<Longrightarrow> pbuf_free p s = Some (s', r) \<Longrightarrow> link_step E s s'"
| ref_pbuf: "pbuf_ref p s = Some s' \<Longrightarrow> link_step E s s'"
| receive: "p \<notin> dom (wraps s) \<Longrightarrow> ethernet_input E recv res p np s = Some (s', r) \<Longrightarrow> link_step E s s'"
| other: "link_step E s (s\<lparr>git_pbufs := g, esp_netifs := n, netif_esp := ns, payloads := y\<rparr>)"

lemma pool_ok_upd:
  assumes "pool_ok s fl" "wraps s' = wraps s" "pbuf_wrapper_head s' = pbuf_wrapper_head s"
    and "\<forall>x\<in>dom (wraps s). \<exists>b. pbufs s' x = Some b \<and> pb_type b = PBUF_CUSTOM_TYPE_POOLED \<and> pb_flags b = 0
           \<and> pb_next b = NULL \<and> pb_eb b = NULL"
    and "\<forall>q. refs_held (glue_calls s') q = refs_held (glue_calls s) q"
  shows "pool_ok s' fl"
  using assms by (simp add: pool_ok_def pooled_def travelling_def in_flight_def saved_def)

lemma pool_ok_pbufs:
  assumes "pool_ok s fl" "wraps s' = wraps s" "pbuf_wrapper_head s' = pbuf_wrapper_head s"
    and "\<forall>x\<in>dom (wraps s). pbufs s' x = pbufs s x"
    and "\<forall>q. refs_held (glue_calls s') q = refs_held (glue_calls s) q"
  shows "pool_ok s' fl"
  using pool_ok_upd [OF assms(1-3) _ assms(5)] assms(1,4) by (simp add: pool_ok_def pooled_def)

lemma pbuf_alloc_keeps:
  assumes "pool_ok s fl" "\<And>n. pbufs s (malloc n) = None"
  shows "pool_ok (fst (pbuf_alloc malloc raw layer len type s)) fl"
proof (rule pool_ok_pbufs [OF assms(1)])
  have "malloc n \<notin> dom (wraps s)" for n
    using assms by (auto simp: pool_ok_def pooled_def dest: bspec)
  then show "\<forall>x\<in>dom (wraps s). pbufs (fst (pbuf_alloc malloc raw layer len type s)) x = pbufs s x"
    by (auto simp: pbuf_alloc_def Let_def)
qed (simp_all add: pbuf_alloc_def Let_def)

text \<open>Freeing a pbuf that is not a wrapper.\<close>

lemma pbuf_free_plain:
  assumes "p \<notin> dom (wraps s)" "pbuf_free p s = Some (s', r)"
  shows "wraps s' = wraps s \<and> pbuf_wrapper_head s' = pbuf_wrapper_head s
    \<and> (\<forall>x. x \<noteq> p \<longrightarrow> pbufs s' x = pbufs s x) \<and> (\<forall>q. refs_held (glue_calls s') q = refs_held (glue_calls s) q)"
  using assms
  by (auto simp: pbuf_free_def bind_eq_Some_conv Let_def deref_def os_free_def split: if_splits)

lemma ethernet_input_plain:
  assumes "p \<notin> dom (wraps s)" "ethernet_input E recv res p np s = Some (s', r)"
  shows "wraps s' = wraps s \<and> pbuf_wrapper_head s' = pbuf_wrapper_head s
    \<and> (\<forall>x. x \<noteq> p \<longrightarrow> pbufs s' x = pbufs s x) \<and> (\<forall>q. refs_held (glue_calls s') q = refs_held (glue_calls s) q)"
proof -
  obtain s1 g where a: "esp2glue_alloc_for_recv recv s = (s1, g)" by fastforce
  then have 1: "wraps s1 = wraps s \<and> pbuf_wrapper_head s1 = pbuf_wrapper_head s \<and> pbufs s1 = pbufs s
      \<and> glue_calls s1 = glue_calls s"
    by (auto simp: esp2glue_alloc_for_recv_def split: option.splits)
  have f: "wraps s4 = wraps s \<and> pbuf_wrapper_head s4 = pbuf_wrapper_head s3 \<and> (\<forall>x. x \<noteq> p \<longrightarrow> pbufs s4 x = pbufs s3 x)
      \<and> (\<forall>q. refs_held (glue_calls s4) q = refs_held (glue_calls s3) q)"
    if "pbuf_free p s3 = Some (s4, c)" "wraps s3 = wraps s" for s3 s4 c
    using pbuf_free_plain [of p s3 s4 c] that assms(1) by auto
  show ?thesis
    using assms(2) a 1
    by (cases g) (auto simp: ethernet_input_def esp2glue_ethernet_input_def bind_eq_Some_conv Let_def
        split: if_splits prod.splits dest!: f)
qed

lemma link_step_keeps:
  assumes "errs_ok E" "link_ok s" "link_step E s s'"
  shows "link_ok s'"
proof -
  from assms(2) obtain fl where fl: "pool_ok s fl" by (auto simp: link_ok_def)
  from assms(3) show ?thesis
  proof cases
    case (send env num np netif p b clone r)
    from new_linkoutput_ok [OF assms(1) fl send(1,2,3,4), of clone] send(5,6) fl show ?thesis
      by (auto simp: link_ok_def accounted_def split: option.splits if_splits)
  next
    case (give_back w r)
    then obtain fl' where "path wnext (wraps s) (pbuf_wrapper_head s) fl' NULL" "w \<in> in_flight s fl'"
      by (auto simp: under_way_def)
    moreover from this fl have "fl' = fl" using path_unique by (auto simp: pool_ok_def)
    ultimately show ?thesis
      using pbuf_free_wrapper [OF fl, of w] give_back(2) by (auto simp: link_ok_def)
  next
    case (alloc_pbuf malloc raw layer len type a)
    from pbuf_alloc_keeps [of s fl malloc raw layer len type, OF fl alloc_pbuf(1)] alloc_pbuf(2) show ?thesis
      by (auto simp: link_ok_def)
  next
    case (free_pbuf p r)
    from pool_ok_pbufs [OF fl] pbuf_free_plain [OF free_pbuf] free_pbuf(1) show ?thesis
      unfolding link_ok_def by metis
  next
    case (ref_pbuf p)
    then obtain b where b: "pbufs s p = Some b"
      "s' = s\<lparr>pbufs := (pbufs s)(p \<mapsto> b\<lparr>pb_ref := pb_ref b + 1\<rparr>)\<rparr>"
      by (auto simp: pbuf_ref_def bind_eq_Some_conv dest: deref_SomeD)
    have "pool_ok s' fl"
    proof (rule pool_ok_upd [OF fl])
      show "\<forall>x\<in>dom (wraps s). \<exists>b. pbufs s' x = Some b \<and> pb_type b = PBUF_CUSTOM_TYPE_POOLED
          \<and> pb_flags b = 0 \<and> pb_next b = NULL \<and> pb_eb b = NULL"
      proof
        fix x assume "x \<in> dom (wraps s)"
        with fl obtain b' where "pbufs s x = Some b'" "pb_type b' = PBUF_CUSTOM_TYPE_POOLED"
          "pb_flags b' = 0" "pb_next b' = NULL" "pb_eb b' = NULL"
          unfolding pool_ok_def pooled_def by blast
        then show "\<exists>b. pbufs s' x = Some b \<and> pb_type b = PBUF_CUSTOM_TYPE_POOLED \<and> pb_flags b = 0
            \<and> pb_next b = NULL \<and> pb_eb b = NULL"
          using b by (cases "x = p") auto
      qed
    qed (simp_all add: b)
    then show ?thesis by (auto simp: link_ok_def)
  next
    case (receive p recv res np r)
    from pool_ok_pbufs [OF fl] ethernet_input_plain [OF receive] receive(1) show ?thesis
      unfolding link_ok_def by metis
  next
    case other
    have "pool_ok s' fl" by (rule pool_ok_pbufs [OF fl]) (simp_all add: other)
    then show ?thesis by (auto simp: link_ok_def)
  qed
qed

text \<open>The state at boot.\<close>

definition glue_init :: glue where
  "glue_init = \<lparr>pbufs = Map.empty, wraps = Map.empty, payloads = Map.empty, git_pbufs = Map.empty,
     pbuf_wrapper_head = NULL, netif_esp = [NULL, NULL], esp_netifs = Map.empty, esp_netif_default = NULL,
     phy_capture = False, netif_git = replicate 2 \<lparr>gn_ip = 0, gn_netmask = 0, gn_gw = 0, gn_flags = 0,
       gn_hwaddr_len = 0, gn_hwaddr = replicate 6 0, gn_mtu = 0, gn_num = 0,
       gn_name = [], gn_hostname = NULL, gn_callback = No_callback\<rparr>,
     git_default = None, netif_enabled = [False, False], glue_calls = []\<rparr>"

lemma link_ok_init: "link_ok glue_init"
  unfolding link_ok_def
  by (intro exI [of _ "[]"]) (simp add: pool_ok_def pooled_def glue_init_def travelling_def in_flight_def)

definition sound_step :: "git_errs \<Rightarrow> glue \<Rightarrow> glue \<Rightarrow> bool" where
  "sound_step E s s' \<longleftrightarrow> errs_ok E \<and> link_step E s s'"

interpretation link_run: step_invariant "sound_step E" link_ok for E
  by unfold_locales (auto simp: sound_step_def intro: link_step_keeps)

lemma link_run_ok: "errs_ok E \<Longrightarrow> (link_step E)\<^sup>*\<^sup>* s s' \<Longrightarrow> link_ok s \<Longrightarrow> link_ok s'"
  using link_run.run_keeps [of E] by (simp add: sound_step_def [abs_def])

lemma references_of_pool:
  assumes "pool_ok s fl"
  shows "0 \<le> refs_held (glue_calls s) q \<and>
    (0 < refs_held (glue_calls s) q \<longleftrightarrow> (\<exists>w. under_way s w \<and> saved s w = Some q))"
proof -
  have r: "refs_held (glue_calls s) q = int (card (travelling s fl q))"
    and f: "finite (travelling s fl q)"
    and p: "path wnext (wraps s) (pbuf_wrapper_head s) fl NULL"
    using assms by (simp_all add: pool_ok_def pooled_def travelling_def in_flight_def)
  have "travelling s fl q = {w. under_way s w \<and> saved s w = Some q}"
  proof -
    have "under_way s w \<longleftrightarrow> w \<in> in_flight s fl" for w
      using p path_unique [OF p] unfolding under_way_def by metis
    then show ?thesis by (simp add: travelling_def)
  qed
  with r f show ?thesis by (auto simp: card_gt_0_iff)
qed

section \<open>Properties\<close>

text \<open>
  C25: No leak, no double release: after every sequence of packets sent, given back and
  received, the glue holds a reference on a packet of lwIP 2 exactly as long as a wrapper
  with it is under way, and it never gives back more references than it took. The pool of
  wrappers stays sound: the free list is a list, no wrapper is both free and under way,
  and the constant fields that the code asserts are as asserted.
\<close>

theorem link_run_accounts:
  assumes "errs_ok E" "link_ok s" "(link_step E)\<^sup>*\<^sup>* s s'"
  shows "link_ok s' \<and> 0 \<le> refs_held (glue_calls s') q
    \<and> (0 < refs_held (glue_calls s') q \<longleftrightarrow> (\<exists>w. under_way s' w \<and> saved s' w = Some q))"
proof -
  from assms have ok: "link_ok s'" by (metis link_run_ok)
  then obtain fl where "pool_ok s' fl" by (auto simp: link_ok_def)
  from references_of_pool [OF this, of q] ok show ?thesis by blast
qed

text \<open>An interface that is up, a packet to send and a binary that takes it.\<close>

definition sample_netif :: esp_netif where
  "sample_netif = \<lparr>en_next = NULL, en_ip_addr = 0, en_netmask = 0, en_gw = 0, en_input = True,
     en_state = NULL, en_dhcp = NULL, en_dhcps_pcb = NULL, en_igmp_mac_filter = NULL, en_mtu = 1500,
     en_hwaddr_len = 6, en_hwaddr = [1, 2, 3, 4, 5, 6], en_flags = NETIF_FLAG_LINK_UP, en_num = 0\<rparr>"

definition sample_glue :: glue where
  "sample_glue = glue_init\<lparr>netif_esp := [7, NULL], esp_netifs := [7 \<mapsto> sample_netif],
     git_pbufs := [5 \<mapsto> \<lparr>gp_next = NULL, gp_flags = 0, gp_payload = 9, gp_len = 60\<rparr>]\<rparr>"

definition sample_link :: link_env where
  "sample_link = \<lparr>le_block = 1000, le_raw = (\<lambda>_. (\<lparr>pb_next = 0, pb_payload = 0, pb_tot_len = 0, pb_len = 0,
     pb_type = 0, pb_flags = 0, pb_ref = 0, pb_eb = 0\<rparr>, \<lparr>ref2save = 0, wnext = 0\<rparr>)), le_linkoutput = ERR_OK\<rparr>"

lemma sample_pool: "pool_ok sample_glue []"
  by (simp add: pool_ok_def pooled_def sample_glue_def glue_init_def travelling_def in_flight_def)

lemma sample_block: "block_free sample_glue (le_block sample_link)"
  by (simp add: block_free_def sample_glue_def glue_init_def)

lemma sample_sends: "sends_to sample_glue 0 7 sample_netif"
  by (simp add: sends_to_def sample_glue_def arr_get_def)

lemma sample_packet:
  "git_pbufs sample_glue 5 = Some \<lparr>gp_next = NULL, gp_flags = 0, gp_payload = 9, gp_len = 60\<rparr>"
  by (simp add: sample_glue_def)

lemma sample_run: "(link_step lwip2_errs)\<^sup>*\<^sup>* sample_glue sample_glue"
  by simp

theorem link_run_accounts_witness:
  "\<exists>s'. new_linkoutput lwip2_errs sample_link None 0 5 sample_glue = Some (s', 0)
     \<and> 0 < refs_held (glue_calls s') 5 \<and> (\<exists>w. under_way s' w \<and> saved s' w = Some 5)"
proof -
  have c: "map_option (\<lambda>(s, r). (glue_calls s, r)) (new_linkoutput lwip2_errs sample_link None 0 5 sample_glue)
      = Some ([Git_pbuf_ref 5, Blob_linkoutput 7 1196 9 60], 0)" by code_simp
  then obtain s' where s': "new_linkoutput lwip2_errs sample_link None 0 5 sample_glue = Some (s', 0)"
    "glue_calls s' = [Git_pbuf_ref 5, Blob_linkoutput 7 1196 9 60]" by auto
  have "link_step lwip2_errs sample_glue s'"
    using link_step.send [OF sample_block sample_sends _ sample_packet _ s'(1)] by simp
  then have run: "(link_step lwip2_errs)\<^sup>*\<^sup>* sample_glue s'" by blast
  have "link_ok sample_glue" using sample_pool by (auto simp: link_ok_def)
  from link_run_accounts [OF lwip2_errs_ok this run, of 5] s' show ?thesis by auto
qed



text \<open>
  C27: \<open>ethernet_input\<close>: the pbuf of the SDK is freed exactly once, and its receive buffer
  recycled, whatever happens; without a receive buffer of lwIP 2 the packet is lost with
  \<open>ERR_MEM\<close> and lwIP 2 is not called; otherwise the bytes of the packet are the first bytes
  of the new buffer, the buffer is marked so that it will never be sent without a copy, and
  lwIP 2 is called once, with its answer translated.
\<close>

theorem ethernet_input_spec:
  assumes "p \<noteq> NULL" "pbufs s p = Some b" "pb_type b \<in> {PBUF_RAM, PBUF_REF}" "pb_next b = NULL" "pb_ref b = 1"
    and "np \<noteq> NULL" "esp_netifs s np = Some netif" "unat (en_num netif) < length (netif_git s)"
    and "pb_payload b \<noteq> NULL" "payloads s (pb_payload b) = Some src" "unat (pb_len b) \<le> length src"
    and "\<And>q c raw. recv = Some (q, c, raw) \<Longrightarrow> gp_payload c \<noteq> NULL \<and> gp_payload c \<noteq> pb_payload b
           \<and> unat (pb_len b) \<le> length raw"
  shows "\<exists>s' r. ethernet_input E recv res p np s = Some (s', r) \<and> pbufs s' = (pbufs s)(p := None)
    \<and> glue_calls s' = glue_calls s
        @ (if phy_capture s then [Phy_capture (en_num netif) (pb_payload b) (pb_len b) False (recv \<noteq> None)] else [])
        @ (if pb_eb b \<noteq> NULL then [Recycle_rx_pkt (pb_eb b)] else []) @ [Port_free p]
        @ (case recv of None \<Rightarrow> [] | Some (q, _) \<Rightarrow> [Git_netif_input (unat (en_num netif)) q])
    \<and> (case recv of
         None \<Rightarrow> r = ERR_MEM
       | Some (q, c, raw) \<Rightarrow> r = glue2esp_err (git2glue_err E res)
           \<and> payloads s' (gp_payload c) = Some (take (unat (pb_len b)) src @ drop (unat (pb_len b)) raw)
           \<and> (\<exists>g. git_pbufs s' q = Some g \<and> gp_flags g AND PBUF_FLAG_GLUED \<noteq> 0))"
proof -
  let ?n = "unat (pb_len b)"
  have f: "pbuf_free p s3 = Some (glue_call (Port_free p)
      ((if pb_eb b \<noteq> NULL then glue_call (Recycle_rx_pkt (pb_eb b)) s3 else s3)\<lparr>pbufs := (pbufs s3)(p := None)\<rparr>), 1)"
    if "pbufs s3 = pbufs s" for s3
    using assms(1-5) that
    by (auto simp: pbuf_free_def deref_def os_free_def PBUF_RAM_def PBUF_REF_def PBUF_CUSTOM_TYPE_POOLED_def Let_def)
  have d: "deref (pbufs s) p = Some b" "deref (esp_netifs s) np = Some netif" "deref (payloads s) (pb_payload b) = Some src"
    using assms by (simp_all add: deref_def)
  show ?thesis
  proof (cases recv)
    case None
    with d f show ?thesis
      by (simp add: ethernet_input_def esp2glue_alloc_for_recv_def Let_def)
  next
    case (Some x)
    obtain q c raw where x: "x = (q, c, raw)" by (cases x)
    with Some assms(12) have c: "gp_payload c \<noteq> NULL" "gp_payload c \<noteq> pb_payload b" "?n \<le> length raw" by auto
    have w: "arr_read src 0 ?n = Some (take ?n src)" "arr_write raw 0 (take ?n src) = Some (take ?n src @ drop ?n raw)"
      using assms(11) c(3) by (simp_all add: arr_read_def arr_write_def min_absorb2)
    have i: "\<exists>g. arr_get (netif_git s) (unat (en_num netif)) = Some g"
      using assms(8) by (simp add: arr_get_def)
    have "bit (PBUF_FLAG_GLUED AND (gp_flags c OR PBUF_FLAG_GLUED)) 6"
      by (simp add: bit_simps PBUF_FLAG_GLUED_def bit_numeral_rec)
    then have g: "(gp_flags c OR PBUF_FLAG_GLUED) AND PBUF_FLAG_GLUED \<noteq> 0"
      by (metis and.commute bit_0_eq bot_apply bot_bool_def)
    show ?thesis
      using Some x d f c w i g assms(9)
      by (auto simp: ethernet_input_def esp2glue_alloc_for_recv_def esp2glue_ethernet_input_def Let_def deref_def)
  qed
qed

definition sample_recv :: "(ptr \<times> git_pbuf \<times> u8 list) option" where
  "sample_recv = Some (5, \<lparr>gp_next = NULL, gp_flags = 0, gp_payload = 9, gp_len = 3\<rparr>, [0, 0, 0])"

definition sample_rx_pbuf :: esp_pbuf where
  "sample_rx_pbuf = \<lparr>pb_next = NULL, pb_payload = 8, pb_tot_len = 2, pb_len = 2, pb_type = PBUF_REF,
     pb_flags = 0, pb_ref = 1, pb_eb = 3\<rparr>"

definition sample_rx :: glue where
  "sample_rx = sample_glue\<lparr>pbufs := [4 \<mapsto> sample_rx_pbuf], payloads := [8 \<mapsto> [1, 2]]\<rparr>"

theorem ethernet_input_witness:
  "\<exists>s' r. ethernet_input lwip2_errs sample_recv 0 4 7 sample_rx = Some (s', r)
     \<and> payloads s' 9 = Some [1, 2, 0] \<and> glue_calls s' = [Recycle_rx_pkt 3, Port_free 4, Git_netif_input 0 5]"
proof -
  note d = sample_rx_def sample_rx_pbuf_def sample_glue_def sample_netif_def glue_init_def sample_recv_def
  have "4 \<noteq> NULL" "pbufs sample_rx 4 = Some sample_rx_pbuf" "pb_type sample_rx_pbuf \<in> {PBUF_RAM, PBUF_REF}"
    "pb_next sample_rx_pbuf = NULL" "pb_ref sample_rx_pbuf = 1" "(7 :: ptr) \<noteq> NULL"
    "esp_netifs sample_rx 7 = Some sample_netif" "unat (en_num sample_netif) < length (netif_git sample_rx)"
    "pb_payload sample_rx_pbuf \<noteq> NULL" "payloads sample_rx (pb_payload sample_rx_pbuf) = Some [1, 2]"
    "unat (pb_len sample_rx_pbuf) \<le> length [1 :: u8, 2]"
    by (simp_all add: d)
  from ethernet_input_spec [OF this, of sample_recv lwip2_errs 0] show ?thesis
    by (auto simp: d)
qed

end
