(* ===== verification/Netif.thy ===== *)
theory Netif
  imports Link_Properties
begin

text \<open>
  The interfaces. The SDK manages two interfaces of lwIP 1.4 (station and access point)
  through \<^verbatim>\<open>glue-esp/lwip-esp.c\<close>; the glue mirrors them in two interfaces of lwIP 2, which
  \<^verbatim>\<open>glue-lwip/lwip-git.c\<close> manages. Calls go both ways: an address set by the SDK is passed
  on to lwIP 2 (\<open>esp2glue_netif_update\<close>); an address that lwIP 2 gets (from its DHCP
  client) comes back through the status callback and \<open>glue2esp_ifupdown\<close>.

  What lwIP 2 does with one of its interfaces is a parameter: a function on the
  interface, with a flag that says whether lwIP 2 calls the status callback.
\<close>

section \<open>The environment\<close>

definition STATION_IF :: nat where "STATION_IF = 0"
definition SOFTAP_IF :: nat where "SOFTAP_IF = 1"
definition NETIF_MAX_HWADDR_LEN :: nat where "NETIF_MAX_HWADDR_LEN = 6"

type_synonym git_op = "git_netif \<Rightarrow> git_netif \<times> bool"

record git_env =
  ge_errs :: git_errs
  ge_sta_if :: ptr
  ge_ap_if :: ptr
  ge_ip_info :: "u8 \<Rightarrow> u32 \<times> u32 \<times> u32"
  ge_hostname :: ptr
  ge_flag_up :: u8
  ge_flag_link_up :: u8
  ge_flag_igmp :: u8
  ge_flag_etharp :: u8
  ge_flag_broadcast :: u8
  ge_netif_add :: "nat \<Rightarrow> git_netif \<Rightarrow> git_netif"
  ge_set_addr :: "u32 \<Rightarrow> u32 \<Rightarrow> u32 \<Rightarrow> git_op"
  ge_set_up :: git_op
  ge_set_down :: git_op
  ge_link_up :: git_op
  ge_link_down :: git_op
  ge_release_and_stop :: git_op
  ge_dhcp_start :: "git_netif \<Rightarrow> git_netif \<times> err_t"
  ge_dhcp_stop :: "git_netif \<Rightarrow> git_netif"
  ge_set_default :: "nat option \<Rightarrow> nat option"

section \<open>From lwIP 2 to the SDK\<close>

definition glue2esp_ifupdown :: "nat \<Rightarrow> u32 \<Rightarrow> u32 \<Rightarrow> u32 \<Rightarrow> glue \<Rightarrow> glue option" where
  "glue2esp_ifupdown netif_idx ip nm gw s =
     do { np \<leftarrow> arr_get (netif_esp s) netif_idx;
          n \<leftarrow> deref (esp_netifs s) np;
          let n1 = n\<lparr>en_ip_addr := ip, en_netmask := nm, en_gw := gw\<rparr>;
          Some (if ip \<noteq> 0
                then glue_call (System_station_got_ip_set (en_ip_addr n) (en_netmask n) (en_gw n))
                       (s\<lparr>esp_netifs := (esp_netifs s)(np \<mapsto>
                            n1\<lparr>en_flags := en_flags n1 OR NETIF_FLAG_UP\<rparr>)\<rparr>)
                else s\<lparr>esp_netifs := (esp_netifs s)(np \<mapsto>
                            n1\<lparr>en_flags := en_flags n1 AND NOT NETIF_FLAG_UP\<rparr>)\<rparr>) }"

definition git_set_default :: "git_env \<Rightarrow> nat option \<Rightarrow> glue \<Rightarrow> glue" where
  "git_set_default G d s = glue_call (Git_set_default d) (s\<lparr>git_default := ge_set_default G d\<rparr>)"

definition netif_sta_status_callback :: "git_env \<Rightarrow> nat \<Rightarrow> glue \<Rightarrow> glue option" where
  "netif_sta_status_callback G i s =
     do { n \<leftarrow> arr_get (netif_git s) i;
          s1 \<leftarrow> glue2esp_ifupdown (unat (gn_num n)) (gn_ip n) (gn_netmask n) (gn_gw n) s;
          let s2 = (if gn_flags n AND ge_flag_up G \<noteq> 0
                    then let s2 = (if git_default s1 = None \<and> gn_gw n \<noteq> 0 then git_set_default G (Some i) s1
                                   else s1)
                         in if gn_ip n \<noteq> 0 then glue_call Sntp_init (glue_call Sntp_stop s2) else s2
                    else if git_default s1 = Some i then git_set_default G None s1 else s1);
          Some (glue_call (Status_changed i) s2) }"

text \<open>A call into lwIP 2 that changes interface \<open>i\<close>, with the status callback it may make.\<close>

definition git_do :: "git_env \<Rightarrow> nat \<Rightarrow> git_op \<Rightarrow> glue \<Rightarrow> glue option" where
  "git_do G i f s =
     do { n \<leftarrow> arr_get (netif_git s) i;
          let s1 = s\<lparr>netif_git := (netif_git s)[i := fst (f n)]\<rparr>;
          if snd (f n)
          then (case gn_callback (fst (f n)) of
                  No_callback \<Rightarrow> Some s1
                | Sta_status_callback \<Rightarrow> netif_sta_status_callback G i s1
                | Netif_status_changed \<Rightarrow> Some (glue_call (Status_changed i) s1))
          else Some s1 }"

text \<open>A change of interface \<open>i\<close> by the glue itself.\<close>

definition git_upd :: "nat \<Rightarrow> (git_netif \<Rightarrow> git_netif) \<Rightarrow> glue \<Rightarrow> glue option" where
  "git_upd i f s =
     do { n \<leftarrow> arr_get (netif_git s) i; Some (s\<lparr>netif_git := (netif_git s)[i := f n]\<rparr>) }"

section \<open>The interfaces of lwIP 2\<close>

definition esp2glue_netif_set_default :: "git_env \<Rightarrow> nat \<Rightarrow> glue \<Rightarrow> glue" where
  "esp2glue_netif_set_default G netif_idx s =
     (if netif_idx = STATION_IF \<or> netif_idx = SOFTAP_IF then git_set_default G (Some netif_idx) s
      else git_set_default G None s)"

definition netif_init_common :: "git_env \<Rightarrow> git_netif \<Rightarrow> git_netif" where
  "netif_init_common G n = n\<lparr>gn_flags := gn_flags n OR ge_flag_igmp G, gn_hostname := ge_hostname G\<rparr>"

definition netif_init_sta :: "git_env \<Rightarrow> git_netif \<Rightarrow> git_netif" where
  "netif_init_sta G n = netif_init_common G (n\<lparr>gn_name := ''st'', gn_callback := Sta_status_callback\<rparr>)"

definition netif_init_ap :: "git_env \<Rightarrow> git_netif \<Rightarrow> git_netif" where
  "netif_init_ap G n = netif_init_common G (n\<lparr>gn_name := ''ap'', gn_callback := Netif_status_changed\<rparr>)"

definition lwip_init_one :: "git_env \<Rightarrow> nat \<Rightarrow> glue \<Rightarrow> glue option" where
  "lwip_init_one G i s =
     do { s1 \<leftarrow> git_upd i (\<lambda>n. (if i = STATION_IF then netif_init_sta G else netif_init_ap G) (ge_netif_add G i n))
                 (glue_call (Git_netif_add i) s);
          git_upd i (\<lambda>n. n\<lparr>gn_hwaddr_len := of_nat NETIF_MAX_HWADDR_LEN,
                           gn_hwaddr := replicate NETIF_MAX_HWADDR_LEN 0\<rparr>) s1 }"

definition esp2glue_lwip_init :: "git_env \<Rightarrow> glue \<Rightarrow> glue option" where
  "esp2glue_lwip_init G s =
     do { s1 \<leftarrow> lwip_init_one G 0 (glue_call Git_lwip_init s);
          s2 \<leftarrow> lwip_init_one G 1 s1;
          Some (glue_call Sntp_setup s2) }"

definition esp2glue_dhcp_start :: "git_env \<Rightarrow> nat \<Rightarrow> glue \<Rightarrow> (glue \<times> err_glue) option" where
  "esp2glue_dhcp_start G i s =
     do { s1 \<leftarrow> git_do G i (ge_link_up G) s;
          s2 \<leftarrow> git_do G i (ge_set_up G) s1;
          s3 \<leftarrow> git_upd i (\<lambda>n. n\<lparr>gn_hostname := ge_hostname G\<rparr>) s2;
          n \<leftarrow> arr_get (netif_git s3) i;
          s4 \<leftarrow> git_upd i (\<lambda>n. fst (ge_dhcp_start G n)) (glue_call (Git_dhcp_start i) s3);
          Some (s4, git2glue_err (ge_errs G) (snd (ge_dhcp_start G n))) }"

definition esp2glue_dhcp_stop :: "git_env \<Rightarrow> nat \<Rightarrow> glue \<Rightarrow> glue option" where
  "esp2glue_dhcp_stop G i s = git_upd i (ge_dhcp_stop G) (glue_call (Git_dhcp_stop i) s)"

definition esp2glue_netif_set_up1down0 :: "git_env \<Rightarrow> nat \<Rightarrow> bool \<Rightarrow> glue \<Rightarrow> glue option" where
  "esp2glue_netif_set_up1down0 G i up s =
     (if up
      then do { s1 \<leftarrow> git_do G i (ge_link_up G) s;
                s2 \<leftarrow> git_upd i (\<lambda>n. n\<lparr>gn_flags := gn_flags n OR ge_flag_up G\<rparr>) s1;
                Some (s2\<lparr>netif_enabled := (netif_enabled s2)[i := True]\<rparr>) }
      else do { s1 \<leftarrow> git_do G i (ge_release_and_stop G) s;
                s2 \<leftarrow> git_upd i (\<lambda>n. n\<lparr>gn_ip := 0, gn_netmask := 0, gn_gw := 0\<rparr>) s1;
                s3 \<leftarrow> git_do G i (ge_link_down G) s2;
                s4 \<leftarrow> git_do G i (ge_set_down G) s3;
                let s5 = (if git_default s4 = Some i then git_set_default G None s4 else s4);
                Some (s5\<lparr>netif_enabled := (netif_enabled s5)[i := False]\<rparr>) })"

text \<open>\<open>memcpy\<close> of \<open>hwlen\<close> bytes, at most six.\<close>

definition esp2glue_netif_update ::
  "git_env \<Rightarrow> nat \<Rightarrow> u32 \<Rightarrow> u32 \<Rightarrow> u32 \<Rightarrow> u32 \<Rightarrow> u8 list \<Rightarrow> u16 \<Rightarrow> glue \<Rightarrow> glue option" where
  "esp2glue_netif_update G i ip nm gw hwlen hwaddr mtu s =
     do { n \<leftarrow> arr_get (netif_git s) i;
          n1 \<leftarrow> (if hwlen \<noteq> 0 \<and> unat hwlen \<le> NETIF_MAX_HWADDR_LEN
                 then do { src \<leftarrow> arr_read hwaddr 0 (unat (ucast hwlen :: u8));
                           hw \<leftarrow> arr_write (gn_hwaddr n) 0 src;
                           Some (n\<lparr>gn_hwaddr_len := ucast hwlen, gn_hwaddr := hw\<rparr>) }
                 else Some n);
          let n2 = n1\<lparr>gn_flags := gn_flags n1 OR ge_flag_link_up G\<rparr>;
          let n3 = (if ip \<noteq> 0 then n2\<lparr>gn_flags := gn_flags n2 OR ge_flag_up G\<rparr>
                    else n2\<lparr>gn_flags := gn_flags n2 AND NOT (ge_flag_up G)\<rparr>);
          let n4 = n3\<lparr>gn_mtu := mtu, gn_hostname := ge_hostname G\<rparr>;
          s1 \<leftarrow> git_do G i (ge_set_addr G ip nm gw) (s\<lparr>netif_git := (netif_git s)[i := n4]\<rparr>);
          s2 \<leftarrow> esp2glue_netif_set_up1down0 G i True s1;
          s3 \<leftarrow> git_upd i (\<lambda>n. n\<lparr>gn_flags := gn_flags n OR ge_flag_etharp G\<rparr>) s2;
          git_upd i (\<lambda>n. n\<lparr>gn_flags := gn_flags n OR ge_flag_broadcast G\<rparr>) s3 }"

section \<open>The interfaces of the SDK\<close>

definition esp_upd :: "ptr \<Rightarrow> (esp_netif \<Rightarrow> esp_netif) \<Rightarrow> glue \<Rightarrow> glue option" where
  "esp_upd np f s =
     do { n \<leftarrow> deref (esp_netifs s) np; Some (s\<lparr>esp_netifs := (esp_netifs s)(np \<mapsto> f n)\<rparr>) }"

definition netif_is_new :: "git_env \<Rightarrow> ptr \<Rightarrow> glue \<Rightarrow> (glue \<times> bool) option" where
  "netif_is_new G np s =
     do { let num = (if np = ge_sta_if G then STATION_IF else SOFTAP_IF);
          s1 \<leftarrow> esp_upd np (\<lambda>n. n\<lparr>en_num := of_nat num\<rparr>) s;
          known \<leftarrow> arr_get (netif_esp s1) num;
          if known = np then Some (s1, False)
          else do { s2 \<leftarrow> esp_upd np (\<lambda>n. n\<lparr>en_next := if num = STATION_IF then ge_ap_if G else NULL\<rparr>) s1;
                    Some (s2\<lparr>netif_esp := (netif_esp s2)[num := np]\<rparr>, True) } }"

text \<open>The fields that \<open>netif_add\<close> sets before it calls \<open>init\<close>.\<close>

definition netif_add_fields :: "ptr \<Rightarrow> esp_netif \<Rightarrow> esp_netif" where
  "netif_add_fields st n = n\<lparr>en_ip_addr := 0, en_netmask := 0, en_gw := 0, en_flags := 0, en_dhcp := NULL,
     en_dhcps_pcb := NULL, en_igmp_mac_filter := NULL, en_state := st, en_input := True\<rparr>"

text \<open>
  \<open>netif_set_addr\<close> calls \<open>netif_add\<close> (with an \<open>init\<close> that does nothing) for an interface it
  does not know, and that calls \<open>netif_set_addr\<close> again.
\<close>

partial_function (option) netif_set_addr ::
  "git_env \<Rightarrow> ptr \<Rightarrow> u32 \<Rightarrow> u32 \<Rightarrow> u32 \<Rightarrow> glue \<Rightarrow> glue option" where
  "netif_set_addr G np ip nm gw s =
     do { (s1, new) \<leftarrow> netif_is_new G np s;
          n \<leftarrow> deref (esp_netifs s1) np;
          if new
          then do { s2 \<leftarrow> esp_upd np (netif_add_fields (en_state n)) s1;
                    netif_set_addr G np ip nm gw s2 }
          else do {
            s2 \<leftarrow> esp_upd np (\<lambda>n. n\<lparr>en_ip_addr := ip, en_netmask := nm, en_gw := gw\<rparr>) s1;
            let s3 = (if ge_ip_info G (en_num n) \<noteq> (ip, nm, gw)
                      then glue_call (Wifi_set_ip_info (en_num n) ip nm gw) s2 else s2);
            s4 \<leftarrow> esp_upd np (\<lambda>n. n\<lparr>en_flags := if ip \<noteq> 0 then en_flags n OR NETIF_FLAG_LINK_UP
                                                 else en_flags n AND NOT NETIF_FLAG_LINK_UP\<rparr>) s3;
            n4 \<leftarrow> deref (esp_netifs s4) np;
            esp2glue_netif_update G (unat (en_num n4)) ip nm gw (ucast (en_hwaddr_len n4)) (en_hwaddr n4)
              (en_mtu n4) s4 } }"

text \<open>\<open>init\<close> is the function of the SDK that sets the interface up; it may refuse.\<close>

definition netif_add ::
  "git_env \<Rightarrow> (esp_netif \<Rightarrow> esp_netif \<times> err_t) \<Rightarrow> ptr \<Rightarrow> u32 \<Rightarrow> u32 \<Rightarrow> u32 \<Rightarrow> ptr \<Rightarrow> glue \<Rightarrow> (glue \<times> ptr) option" where
  "netif_add G init np ip nm gw st s =
     do { s1 \<leftarrow> esp_upd np (netif_add_fields st) s;
          n \<leftarrow> deref (esp_netifs s1) np;
          s2 \<leftarrow> esp_upd np (\<lambda>_. fst (init n)) s1;
          if snd (init n) \<noteq> ERR_OK then Some (s2, NULL)
          else do { s3 \<leftarrow> netif_set_addr G np ip nm gw s2; Some (s3, np) } }"

definition esp_set_default :: "ptr \<Rightarrow> glue \<Rightarrow> glue" where
  "esp_set_default np s = s\<lparr>esp_netif_default := np\<rparr>"

definition netif_set_down :: "git_env \<Rightarrow> ptr \<Rightarrow> glue \<Rightarrow> glue option" where
  "netif_set_down G np s =
     do { s1 \<leftarrow> esp_upd np (\<lambda>n. n\<lparr>en_flags := en_flags n AND NOT (NETIF_FLAG_UP OR NETIF_FLAG_LINK_UP)\<rparr>) s;
          n \<leftarrow> deref (esp_netifs s1) np;
          esp2glue_netif_set_up1down0 G (unat (en_num n)) False s1 }"

definition netif_set_up :: "git_env \<Rightarrow> ptr \<Rightarrow> glue \<Rightarrow> glue option" where
  "netif_set_up G np s =
     do { s1 \<leftarrow> esp_upd np (\<lambda>n. n\<lparr>en_flags := en_flags n OR (NETIF_FLAG_UP OR NETIF_FLAG_LINK_UP)\<rparr>) s;
          n \<leftarrow> deref (esp_netifs s1) np;
          esp2glue_netif_set_up1down0 G (unat (en_num n)) True s1 }"

definition netif_remove :: "git_env \<Rightarrow> ptr \<Rightarrow> glue \<Rightarrow> glue option" where
  "netif_remove = netif_set_down"

section \<open>DHCP calls of the SDK\<close>

definition esp_dhcp_start :: "git_env \<Rightarrow> ptr \<Rightarrow> glue \<Rightarrow> (glue \<times> err_t) option" where
  "esp_dhcp_start G np s =
     do { s1 \<leftarrow> esp_upd np (\<lambda>n. n\<lparr>en_flags := en_flags n OR NETIF_FLAG_LINK_UP\<rparr>) s;
          n \<leftarrow> deref (esp_netifs s1) np;
          (s2, e) \<leftarrow> esp2glue_dhcp_start G (unat (en_num n)) s1;
          Some (s2, glue2esp_err e) }"

definition esp_dhcp_stop :: "git_env \<Rightarrow> ptr \<Rightarrow> glue \<Rightarrow> glue option" where
  "esp_dhcp_stop G np s =
     do { n \<leftarrow> deref (esp_netifs s) np; esp2glue_dhcp_stop G (unat (en_num n)) s }"

text \<open>\<open>dhcps_start\<close> on the SDK's side: bring the access point up, start the server of \<open>Dhcp_Server\<close>.\<close>

definition esp_dhcps_start :: "git_env \<Rightarrow> u32 \<times> u32 \<times> u32 \<Rightarrow> glue \<Rightarrow> glue option" where
  "esp_dhcps_start G info s =
     do { np \<leftarrow> arr_get (netif_esp s) SOFTAP_IF;
          s1 \<leftarrow> (if np \<noteq> NULL
                 then do { n \<leftarrow> deref (esp_netifs s) np;
                           esp2glue_netif_set_up1down0 G (unat (en_num n)) True s }
                 else Some s);
          Some (glue_call (Git_dhcps_start (fst info) (fst (snd info)) (snd (snd info))) s1) }"

text \<open>Calls of the SDK that the glue answers without doing anything.\<close>

definition etharp_output :: "ptr \<Rightarrow> ptr \<Rightarrow> ptr \<Rightarrow> err_t" where
  "etharp_output netif q ipaddr = ERR_ABRT"

definition dhcp_release :: "ptr \<Rightarrow> err_t" where
  "dhcp_release netif = ERR_ABRT"

section \<open>Hooks of lwIP 2\<close>

text \<open>
  The client identifier that the hook adds to the options of a DHCP message: the options
  array, the current length (a \<open>u16_t\<close>); a write outside the array is undefined.
\<close>

fun put_options :: "u8 list \<Rightarrow> u8 list \<times> u16 \<Rightarrow> (u8 list \<times> u16) option" where
  "put_options [] st = Some st"
| "put_options (b # bs) st =
     (if unat (snd st) < length (fst st)
      then put_options bs ((fst st)[unat (snd st) := b], snd st + 1) else None)"

definition lwip_hook_dhcp_amend_options ::
  "u8 \<Rightarrow> git_netif \<Rightarrow> u8 list \<times> u16 \<Rightarrow> (u8 list \<times> u16) option" where
  "lwip_hook_dhcp_amend_options client_id n st =
     do { hw \<leftarrow> arr_read (gn_hwaddr n) 0 (unat (gn_hwaddr_len n));
          put_options (client_id # (1 + gn_hwaddr_len n) # 0x01 # hw) st }"

text \<open>The default of the hook for packets that lwIP 2 does not know: not recognised.\<close>

definition lwip_unhandled_packet :: "git_env \<Rightarrow> ptr \<Rightarrow> nat \<Rightarrow> err_t" where
  "lwip_unhandled_packet G pbuf netif = git_arg (ge_errs G)"

end
