(* ===== verification/Netif_Properties.thy ===== *)
theory Netif_Properties
  imports Netif
begin

text \<open>
  The properties of the interface glue: the two sides agree on the addresses that the SDK
  sets, setting an interface down takes it off lwIP 2, and the default route is never the
  access point. What lwIP 2 is relied on is \<open>lwip2_ok\<close>.
\<close>

section \<open>What is relied on\<close>

definition same_if :: "git_netif \<Rightarrow> git_netif \<Rightarrow> bool" where
  "same_if n n' \<longleftrightarrow> gn_num n' = gn_num n \<and> gn_callback n' = gn_callback n
     \<and> length (gn_hwaddr n') = length (gn_hwaddr n)"

definition same_addr :: "git_netif \<Rightarrow> git_netif \<Rightarrow> bool" where
  "same_addr n n' \<longleftrightarrow> gn_ip n' = gn_ip n \<and> gn_netmask n' = gn_netmask n \<and> gn_gw n' = gn_gw n"

text \<open>
  \<open>netif_set_addr\<close> of lwIP 2 sets the three addresses, the link and up functions leave
  them alone, none of these functions renumbers an interface, changes its callback or the
  size of its hardware address, and \<open>netif_set_default\<close> sets the default interface.
\<close>

definition lwip2_ok :: "git_env \<Rightarrow> bool" where
  "lwip2_ok G \<longleftrightarrow>
     (\<forall>ip nm gw n. same_if n (fst (ge_set_addr G ip nm gw n)) \<and> gn_ip (fst (ge_set_addr G ip nm gw n)) = ip
        \<and> gn_netmask (fst (ge_set_addr G ip nm gw n)) = nm \<and> gn_gw (fst (ge_set_addr G ip nm gw n)) = gw)
     \<and> (\<forall>f\<in>{ge_set_up G, ge_set_down G, ge_link_up G, ge_link_down G}.
          \<forall>n. same_if n (fst (f n)) \<and> same_addr n (fst (f n)))
     \<and> (\<forall>n. same_if n (fst (ge_release_and_stop G n)) \<and> same_if n (fst (ge_dhcp_start G n))
          \<and> same_if n (ge_dhcp_stop G n))
     \<and> (\<forall>d. ge_set_default G d = d)
     \<and> ge_sta_if G \<noteq> NULL \<and> ge_ap_if G \<noteq> NULL \<and> ge_sta_if G \<noteq> ge_ap_if G"

section \<open>The shape of the two sides\<close>

definition if_ptr :: "git_env \<Rightarrow> nat \<Rightarrow> ptr" where
  "if_ptr G i = (if i = STATION_IF then ge_sta_if G else ge_ap_if G)"

definition git_ok_at :: "nat \<Rightarrow> git_netif \<Rightarrow> bool" where
  "git_ok_at i n \<longleftrightarrow> gn_num n = of_nat i \<and> length (gn_hwaddr n) = NETIF_MAX_HWADDR_LEN
     \<and> gn_callback n = (if i = STATION_IF then Sta_status_callback else Netif_status_changed)"

definition net_ok :: "git_env \<Rightarrow> glue \<Rightarrow> bool" where
  "net_ok G s \<longleftrightarrow> length (netif_git s) = 2 \<and> (\<forall>i<2. git_ok_at i (netif_git s ! i))
     \<and> length (netif_esp s) = 2 \<and> (\<forall>i<2. netif_esp s ! i \<in> {NULL, if_ptr G i})
     \<and> (\<forall>i<2. \<exists>n. esp_netifs s (if_ptr G i) = Some n \<and> length (en_hwaddr n) = NETIF_MAX_HWADDR_LEN)
     \<and> git_default s \<in> {None, Some STATION_IF}"

lemma if_ptr_facts:
  assumes "lwip2_ok G"
  shows "if_ptr G i \<noteq> NULL" "i < 2 \<Longrightarrow> j < 2 \<Longrightarrow> if_ptr G i = if_ptr G j \<longleftrightarrow> i = j"
  using assms by (auto simp: lwip2_ok_def if_ptr_def STATION_IF_def less_2_cases_iff)

lemma net_ok_call [simp]: "net_ok G (glue_call c s) = net_ok G s"
  by (simp add: net_ok_def glue_call_def)

lemma glue_call_more [simp]:
  "netif_enabled (glue_call c s) = netif_enabled s" "git_default (glue_call c s) = git_default s"
  by (simp_all add: glue_call_def)

lemma net_ok_enabled [simp]: "net_ok G (s\<lparr>netif_enabled := x\<rparr>) = net_ok G s"
  by (simp add: net_ok_def)

lemma arr_get_git: "net_ok G s \<Longrightarrow> i < 2 \<Longrightarrow> arr_get (netif_git s) i = Some (netif_git s ! i)"
  by (simp add: net_ok_def arr_get_def)

lemma net_okD:
  assumes "net_ok G s" "i < 2"
  shows "git_ok_at i (netif_git s ! i)" "netif_esp s ! i \<in> {NULL, if_ptr G i}"
    "\<exists>n. esp_netifs s (if_ptr G i) = Some n \<and> length (en_hwaddr n) = NETIF_MAX_HWADDR_LEN"
    "arr_get (netif_esp s) i = Some (netif_esp s ! i)"
  using assms unfolding net_ok_def by (simp_all add: arr_get_def)

lemma net_ok_git_upd:
  assumes "net_ok G s" "i < 2" "same_if (netif_git s ! i) n"
  shows "net_ok G (s\<lparr>netif_git := (netif_git s)[i := n]\<rparr>)"
  using assms by (auto simp: net_ok_def git_ok_at_def same_if_def nth_list_update)

lemma net_ok_esp_upd:
  assumes "net_ok G s" "i < 2" "length (en_hwaddr n) = NETIF_MAX_HWADDR_LEN"
  shows "net_ok G (s\<lparr>esp_netifs := (esp_netifs s)(if_ptr G i \<mapsto> n)\<rparr>)"
  using assms by (auto simp: net_ok_def)

lemma esp_upd_ok:
  assumes "lwip2_ok G" "net_ok G s" "i < 2" "\<And>n. en_hwaddr (f n) = en_hwaddr n"
  shows "\<exists>n. esp_netifs s (if_ptr G i) = Some n
    \<and> esp_upd (if_ptr G i) f s = Some (s\<lparr>esp_netifs := (esp_netifs s)(if_ptr G i \<mapsto> f n)\<rparr>)
    \<and> net_ok G (s\<lparr>esp_netifs := (esp_netifs s)(if_ptr G i \<mapsto> f n)\<rparr>)"
proof -
  from assms(2,3) obtain n where n: "esp_netifs s (if_ptr G i) = Some n"
    "length (en_hwaddr n) = NETIF_MAX_HWADDR_LEN" by (auto simp: net_ok_def)
  with net_ok_esp_upd [OF assms(2,3), of "f n"] if_ptr_facts [OF assms(1), of i] assms(4) show ?thesis
    by (simp add: esp_upd_def deref_def)
qed

section \<open>Calls into lwIP 2\<close>

text \<open>Everything but the station's interface of the SDK, the default route and the calls stays.\<close>

definition sta_only :: "git_env \<Rightarrow> glue \<Rightarrow> glue \<Rightarrow> bool" where
  "sta_only G s s' \<longleftrightarrow> netif_git s' = netif_git s \<and> netif_esp s' = netif_esp s
     \<and> netif_enabled s' = netif_enabled s \<and> (\<forall>x. x \<noteq> if_ptr G STATION_IF \<longrightarrow> esp_netifs s' x = esp_netifs s x)"

text \<open>Setting the up flag and clearing it do not change whether the link is up.\<close>

lemma link_up_bit:
  "(w OR NETIF_FLAG_UP) AND NETIF_FLAG_LINK_UP = w AND NETIF_FLAG_LINK_UP"
  "(w AND NOT NETIF_FLAG_UP) AND NETIF_FLAG_LINK_UP = w AND NETIF_FLAG_LINK_UP"
  by (rule bit_word_eqI, auto simp: bit_simps NETIF_FLAG_UP_def NETIF_FLAG_LINK_UP_def bit_numeral_rec
      split: nat.splits)+

lemma sta_callback_ok:
  assumes "lwip2_ok G" "net_ok G s" "netif_esp s ! STATION_IF \<noteq> NULL"
  shows "\<exists>s' n n'. netif_sta_status_callback G STATION_IF s = Some s' \<and> net_ok G s' \<and> sta_only G s s'
    \<and> esp_netifs s (if_ptr G STATION_IF) = Some n \<and> esp_netifs s' (if_ptr G STATION_IF) = Some n'
    \<and> en_ip_addr n' = gn_ip (netif_git s ! STATION_IF) \<and> en_netmask n' = gn_netmask (netif_git s ! STATION_IF)
    \<and> en_gw n' = gn_gw (netif_git s ! STATION_IF)
    \<and> en_flags n' AND NETIF_FLAG_LINK_UP = en_flags n AND NETIF_FLAG_LINK_UP \<and> en_num n' = en_num n"
proof -
  let ?g = "netif_git s ! STATION_IF" and ?np = "if_ptr G STATION_IF"
  have "STATION_IF < 2" by (simp add: STATION_IF_def)
  note d = net_okD [OF assms(2) this] arr_get_git [OF assms(2) this]
  from d(3) obtain n where n: "arr_get (netif_esp s) STATION_IF = Some ?np"
    "esp_netifs s ?np = Some n" "length (en_hwaddr n) = NETIF_MAX_HWADDR_LEN" "gn_num ?g = 0"
    "arr_get (netif_git s) STATION_IF = Some ?g"
    using d(1,2,4,5) assms(3) by (auto simp: git_ok_at_def STATION_IF_def)
  define n' where "n' = n\<lparr>en_ip_addr := gn_ip ?g, en_netmask := gn_netmask ?g, en_gw := gn_gw ?g,
     en_flags := if gn_ip ?g \<noteq> 0 then en_flags n OR NETIF_FLAG_UP else en_flags n AND NOT NETIF_FLAG_UP\<rparr>"
  define s1 where "s1 = (if gn_ip ?g \<noteq> 0
     then glue_call (System_station_got_ip_set (en_ip_addr n) (en_netmask n) (en_gw n))
            (s\<lparr>esp_netifs := (esp_netifs s)(?np \<mapsto> n')\<rparr>)
     else s\<lparr>esp_netifs := (esp_netifs s)(?np \<mapsto> n')\<rparr>)"
  have up: "glue2esp_ifupdown (unat (gn_num ?g)) (gn_ip ?g) (gn_netmask ?g) (gn_gw ?g) s = Some s1"
    using n if_ptr_facts [OF assms(1)]
    by (simp add: glue2esp_ifupdown_def deref_def s1_def n'_def STATION_IF_def)
  have ok1: "net_ok G s1" "sta_only G s s1" "esp_netifs s1 ?np = Some n'"
    using net_ok_esp_upd [OF assms(2) \<open>STATION_IF < 2\<close>, of n'] n(3)
    by (auto simp: s1_def n'_def sta_only_def)
  have d: "ge_set_default G x = x" for x using assms(1) by (simp add: lwip2_ok_def)
  have sd: "net_ok G (git_set_default G x t)" "sta_only G s (git_set_default G x t)"
      "esp_netifs (git_set_default G x t) = esp_netifs t"
    if "net_ok G t" "sta_only G s t" "x \<in> {None, Some STATION_IF}" for x t
    using that by (auto simp: git_set_default_def d net_ok_def sta_only_def glue_call_def)
  have sc: "sta_only G s (glue_call c t) = sta_only G s t" for c t by (simp add: sta_only_def)
  define s' where "s' = glue_call (Status_changed STATION_IF)
      (if gn_flags ?g AND ge_flag_up G \<noteq> 0
       then let s2 = (if git_default s1 = None \<and> gn_gw ?g \<noteq> 0 then git_set_default G (Some STATION_IF) s1 else s1)
            in if gn_ip ?g \<noteq> 0 then glue_call Sntp_init (glue_call Sntp_stop s2) else s2
       else if git_default s1 = Some STATION_IF then git_set_default G None s1 else s1)"
  have "netif_sta_status_callback G STATION_IF s = Some s'"
    using n(5) up by (simp add: netif_sta_status_callback_def s'_def)
  moreover have "net_ok G s' \<and> sta_only G s s' \<and> esp_netifs s' ?np = Some n'"
    using ok1 sd [OF ok1(1,2)] by (simp add: s'_def Let_def sc)
  ultimately show ?thesis using n(2) link_up_bit by (auto simp: n'_def)
qed

subsection \<open>Steps on one interface\<close>

definition git_addr :: "git_netif \<Rightarrow> u32 \<times> u32 \<times> u32" where
  "git_addr n = (gn_ip n, gn_netmask n, gn_gw n)"

definition esp_addr :: "esp_netif \<Rightarrow> u32 \<times> u32 \<times> u32" where
  "esp_addr n = (en_ip_addr n, en_netmask n, en_gw n)"

text \<open>A step on interface \<open>i\<close>: the other interface is not touched on either side.\<close>

definition moved :: "git_env \<Rightarrow> nat \<Rightarrow> glue \<Rightarrow> glue \<Rightarrow> bool" where
  "moved G i s s' \<longleftrightarrow> net_ok G s' \<and> netif_esp s' = netif_esp s
     \<and> (\<forall>j. j \<noteq> i \<longrightarrow> netif_git s' ! j = netif_git s ! j)
     \<and> (\<forall>x. x \<noteq> if_ptr G i \<longrightarrow> esp_netifs s' x = esp_netifs s x)
     \<and> (\<exists>n n'. esp_netifs s (if_ptr G i) = Some n \<and> esp_netifs s' (if_ptr G i) = Some n'
          \<and> en_flags n' AND NETIF_FLAG_LINK_UP = en_flags n AND NETIF_FLAG_LINK_UP \<and> en_num n' = en_num n)"

lemma moved_trans: "moved G i s s' \<Longrightarrow> moved G i s' s'' \<Longrightarrow> moved G i s s''"
  unfolding moved_def by fastforce

lemma moved_refl: "net_ok G s \<Longrightarrow> i < 2 \<Longrightarrow> moved G i s s"
  by (auto simp: moved_def net_ok_def)

definition registered :: "nat \<Rightarrow> glue \<Rightarrow> bool" where
  "registered i s \<longleftrightarrow> (i = STATION_IF \<longrightarrow> netif_esp s ! i \<noteq> NULL)"

lemma registered_moved: "moved G i s s' \<Longrightarrow> registered j s' = registered j s"
  by (simp add: moved_def registered_def)

text \<open>Both sides of interface \<open>i\<close> have the addresses \<open>a\<close>.\<close>

definition agree :: "git_env \<Rightarrow> nat \<Rightarrow> u32 \<times> u32 \<times> u32 \<Rightarrow> glue \<Rightarrow> bool" where
  "agree G i a s \<longleftrightarrow> git_addr (netif_git s ! i) = a \<and> map_option esp_addr (esp_netifs s (if_ptr G i)) = Some a"

lemma git_upd_ok:
  assumes "net_ok G s" "i < 2" "same_if (netif_git s ! i) (f (netif_git s ! i))"
  shows "git_upd i f s = Some (s\<lparr>netif_git := (netif_git s)[i := f (netif_git s ! i)]\<rparr>)
    \<and> moved G i s (s\<lparr>netif_git := (netif_git s)[i := f (netif_git s ! i)]\<rparr>)"
  using net_ok_git_upd [OF assms] arr_get_git [OF assms(1,2)] net_okD(3) [OF assms(1,2)]
  by (auto simp: git_upd_def moved_def)

lemma git_do_ok:
  assumes "lwip2_ok G" "net_ok G s" "i < 2" "registered i s"
    and "same_if (netif_git s ! i) (fst (f (netif_git s ! i)))"
  shows "\<exists>s'. git_do G i f s = Some s' \<and> moved G i s s'
    \<and> netif_git s' = (netif_git s)[i := fst (f (netif_git s ! i))] \<and> netif_enabled s' = netif_enabled s
    \<and> map_option esp_addr (esp_netifs s' (if_ptr G i))
        \<in> {map_option esp_addr (esp_netifs s (if_ptr G i)), Some (git_addr (fst (f (netif_git s ! i))))}"
proof -
  let ?g = "fst (f (netif_git s ! i))"
  define s1 where "s1 = s\<lparr>netif_git := (netif_git s)[i := ?g]\<rparr>"
  have ok: "net_ok G s1" using net_ok_git_upd [OF assms(2,3,5)] by (simp add: s1_def)
  have g: "netif_git s1 ! i = ?g" using assms(2,3) by (simp add: s1_def net_ok_def)
  from net_okD(1) [OF ok assms(3)] have cb: "gn_callback ?g = (if i = STATION_IF then Sta_status_callback
      else Netif_status_changed)" by (simp add: g git_ok_at_def)
  from net_okD(3) [OF assms(2,3)] obtain n where n: "esp_netifs s (if_ptr G i) = Some n" by auto
  have m1: "moved G i s s1" using ok n by (auto simp: moved_def s1_def)
  have e: "git_do G i f s = (if snd (f (netif_git s ! i))
      then (if i = STATION_IF then netif_sta_status_callback G i s1 else Some (glue_call (Status_changed i) s1))
      else Some s1)"
    using arr_get_git [OF assms(2,3)] by (simp add: git_do_def s1_def cb Let_def)
  show ?thesis
  proof (cases "snd (f (netif_git s ! i)) \<and> i = STATION_IF")
    case False
    then show ?thesis using e m1 ok
      by (auto simp: s1_def moved_def)
  next
    case True
    then have "netif_esp s1 ! STATION_IF \<noteq> NULL" using assms(4) by (simp add: registered_def s1_def)
    from sta_callback_ok [OF assms(1) ok this] obtain s' m m' where c:
      "netif_sta_status_callback G STATION_IF s1 = Some s'" "net_ok G s'" "sta_only G s1 s'"
      "esp_netifs s1 (if_ptr G STATION_IF) = Some m" "esp_netifs s' (if_ptr G STATION_IF) = Some m'"
      "esp_addr m' = git_addr ?g" "en_flags m' AND NETIF_FLAG_LINK_UP = en_flags m AND NETIF_FLAG_LINK_UP"
      "en_num m' = en_num m"
      using True g by (auto simp: esp_addr_def git_addr_def)
    then have "moved G i s1 s'" using True by (auto simp: moved_def sta_only_def)
    with m1 have "moved G i s s'" by (rule moved_trans)
    with c True e show ?thesis by (auto simp: sta_only_def s1_def)
  qed
qed

lemma git_do_agree:
  assumes "lwip2_ok G" "net_ok G s" "i < 2" "registered i s" "agree G i a s"
    and "f \<in> {ge_set_up G, ge_set_down G, ge_link_up G, ge_link_down G}"
  shows "\<exists>s'. git_do G i f s = Some s' \<and> moved G i s s' \<and> agree G i a s' \<and> netif_enabled s' = netif_enabled s"
proof -
  have k: "same_if (netif_git s ! i) (fst (f (netif_git s ! i)))" "same_addr (netif_git s ! i) (fst (f (netif_git s ! i)))"
    using assms(1,6) unfolding lwip2_ok_def by blast+
  then have a: "git_addr (fst (f (netif_git s ! i))) = a"
    using assms(5) by (simp add: agree_def git_addr_def same_addr_def)
  have "i < length (netif_git s)" using assms(2,3) by (simp add: net_ok_def)
  with git_do_ok [of G s i f, OF assms(1-4) k(1)] a assms(5) show ?thesis by (auto simp: agree_def)
qed

lemma git_upd_agree:
  assumes "net_ok G s" "i < 2" "agree G i a s"
    and "\<And>n. same_if n (f n) \<and> git_addr (f n) = git_addr n"
  shows "\<exists>s'. git_upd i f s = Some s' \<and> moved G i s s' \<and> agree G i a s' \<and> netif_enabled s' = netif_enabled s"
proof -
  have "i < length (netif_git s)" using assms(1,2) by (simp add: net_ok_def)
  with git_upd_ok [OF assms(1,2), of f] assms(3,4) show ?thesis by (auto simp: agree_def)
qed

lemma set_up_agree:
  assumes "lwip2_ok G" "net_ok G s" "i < 2" "registered i s" "agree G i a s"
  shows "\<exists>s'. esp2glue_netif_set_up1down0 G i True s = Some s' \<and> moved G i s s' \<and> agree G i a s'
    \<and> netif_enabled s' = (netif_enabled s)[i := True]"
proof -
  from git_do_agree [OF assms, of "ge_link_up G"] obtain s1 where
    1: "git_do G i (ge_link_up G) s = Some s1" "moved G i s s1" "agree G i a s1" "netif_enabled s1 = netif_enabled s"
    by auto
  have "net_ok G s1" using 1(2) by (simp add: moved_def)
  from git_upd_agree [OF this assms(3) 1(3), of "\<lambda>n. n\<lparr>gn_flags := gn_flags n OR ge_flag_up G\<rparr>"] obtain s2 where
    2: "git_upd i (\<lambda>n. n\<lparr>gn_flags := gn_flags n OR ge_flag_up G\<rparr>) s1 = Some s2" "moved G i s1 s2" "agree G i a s2"
      "netif_enabled s2 = netif_enabled s1"
    by (auto simp: same_if_def git_addr_def)
  have "moved G i s s2" using 1(2) 2(2) by (rule moved_trans)
  with 1 2 show ?thesis
    by (auto simp: esp2glue_netif_set_up1down0_def moved_def agree_def)
qed

lemma moved_netif_git:
  assumes "net_ok G s" "i < 2" "same_if (netif_git s ! i) n"
  shows "moved G i s (s\<lparr>netif_git := (netif_git s)[i := n]\<rparr>)"
  using net_ok_git_upd [OF assms] net_okD(3) [OF assms(1,2)] by (auto simp: moved_def)

lemma netif_update_ok:
  assumes "lwip2_ok G" "net_ok G s" "i < 2" "registered i s"
    and "map_option esp_addr (esp_netifs s (if_ptr G i)) = Some (ip, nm, gw)" "length hw = NETIF_MAX_HWADDR_LEN"
  shows "\<exists>s'. esp2glue_netif_update G i ip nm gw hwlen hw mtu s = Some s' \<and> moved G i s s'
    \<and> agree G i (ip, nm, gw) s' \<and> netif_enabled s' = (netif_enabled s)[i := True]"
proof -
  let ?n = "netif_git s ! i"
  have il: "i < length (netif_git s)" using assms(2,3) by (simp add: net_ok_def)
  have hl: "length (gn_hwaddr ?n) = NETIF_MAX_HWADDR_LEN"
    using net_okD(1) [OF assms(2,3)] by (simp add: git_ok_at_def)
  have "\<exists>n1. (if hwlen \<noteq> 0 \<and> unat hwlen \<le> NETIF_MAX_HWADDR_LEN
       then do { src \<leftarrow> arr_read hw 0 (unat (ucast hwlen :: u8)); hw \<leftarrow> arr_write (gn_hwaddr ?n) 0 src;
                 Some (?n\<lparr>gn_hwaddr_len := ucast hwlen, gn_hwaddr := hw\<rparr>) }
       else Some ?n) = Some n1 \<and> same_if ?n n1"
  proof (cases "hwlen \<noteq> 0 \<and> unat hwlen \<le> NETIF_MAX_HWADDR_LEN")
    case True
    then have "unat (ucast hwlen :: u8) \<le> NETIF_MAX_HWADDR_LEN"
      by (simp add: unsigned_ucast_eq take_bit_eq_mod order_trans [OF mod_less_eq_dividend])
    with True assms(6) hl show ?thesis
      by (simp add: arr_read_def arr_write_def same_if_def)
  qed (auto simp: same_if_def)
  then obtain n1 where n1: "(if hwlen \<noteq> 0 \<and> unat hwlen \<le> NETIF_MAX_HWADDR_LEN
       then do { src \<leftarrow> arr_read hw 0 (unat (ucast hwlen :: u8)); hw \<leftarrow> arr_write (gn_hwaddr ?n) 0 src;
                 Some (?n\<lparr>gn_hwaddr_len := ucast hwlen, gn_hwaddr := hw\<rparr>) }
       else Some ?n) = Some n1" "same_if ?n n1" by blast
  define n4 where "n4 = (let n2 = n1\<lparr>gn_flags := gn_flags n1 OR ge_flag_link_up G\<rparr>;
        n3 = (if ip \<noteq> 0 then n2\<lparr>gn_flags := gn_flags n2 OR ge_flag_up G\<rparr>
              else n2\<lparr>gn_flags := gn_flags n2 AND NOT (ge_flag_up G)\<rparr>)
     in n3\<lparr>gn_mtu := mtu, gn_hostname := ge_hostname G\<rparr>)"
  define s0 where "s0 = s\<lparr>netif_git := (netif_git s)[i := n4]\<rparr>"
  have "same_if ?n n4" using n1(2) by (simp add: n4_def same_if_def Let_def)
  from moved_netif_git [OF assms(2,3) this] have m0: "moved G i s s0" by (simp add: s0_def)
  then have ok0: "net_ok G s0" by (simp add: moved_def)
  have g0: "netif_git s0 ! i = n4" using il by (simp add: s0_def)
  have k: "same_if n4 (fst (ge_set_addr G ip nm gw n4))" "git_addr (fst (ge_set_addr G ip nm gw n4)) = (ip, nm, gw)"
    using assms(1) by (simp_all add: lwip2_ok_def git_addr_def)
  from git_do_ok [of G s0 i "ge_set_addr G ip nm gw", OF assms(1) ok0 assms(3)] k registered_moved [OF m0, of i] assms(4)
  obtain s1 where 1: "git_do G i (ge_set_addr G ip nm gw) s0 = Some s1" "moved G i s0 s1"
    "netif_git s1 = (netif_git s0)[i := fst (ge_set_addr G ip nm gw n4)]" "netif_enabled s1 = netif_enabled s0"
    "map_option esp_addr (esp_netifs s1 (if_ptr G i)) = Some (ip, nm, gw)"
    using assms(5) by (auto simp: g0) (simp add: s0_def)
  have a1: "agree G i (ip, nm, gw) s1" using 1(3,5) k il by (simp add: agree_def s0_def)
  have ok1: "net_ok G s1" using 1(2) by (simp add: moved_def)
  have r1: "registered i s1" using registered_moved [OF moved_trans [OF m0 1(2)]] assms(4) by simp
  from set_up_agree [OF assms(1) ok1 assms(3) r1 a1] obtain s2 where
    2: "esp2glue_netif_set_up1down0 G i True s1 = Some s2" "moved G i s1 s2" "agree G i (ip, nm, gw) s2"
      "netif_enabled s2 = (netif_enabled s1)[i := True]" by auto
  have ok2: "net_ok G s2" using 2(2) by (simp add: moved_def)
  from git_upd_agree [OF ok2 assms(3) 2(3), of "\<lambda>n. n\<lparr>gn_flags := gn_flags n OR ge_flag_etharp G\<rparr>"] obtain s3 where
    3: "git_upd i (\<lambda>n. n\<lparr>gn_flags := gn_flags n OR ge_flag_etharp G\<rparr>) s2 = Some s3" "moved G i s2 s3"
      "agree G i (ip, nm, gw) s3" "netif_enabled s3 = netif_enabled s2"
    by (auto simp: same_if_def git_addr_def)
  have ok3: "net_ok G s3" using 3(2) by (simp add: moved_def)
  from git_upd_agree [OF ok3 assms(3) 3(3), of "\<lambda>n. n\<lparr>gn_flags := gn_flags n OR ge_flag_broadcast G\<rparr>"] obtain s4 where
    4: "git_upd i (\<lambda>n. n\<lparr>gn_flags := gn_flags n OR ge_flag_broadcast G\<rparr>) s3 = Some s4" "moved G i s3 s4"
      "agree G i (ip, nm, gw) s4" "netif_enabled s4 = netif_enabled s3"
    by (auto simp: same_if_def git_addr_def)
  have "esp2glue_netif_update G i ip nm gw hwlen hw mtu s = Some s4"
    using arr_get_git [OF assms(2,3)] n1(1) 1(1) 2(1) 3(1) 4(1)
    by (simp add: esp2glue_netif_update_def s0_def n4_def Let_def cong del: bind_weak_cong)
  moreover have "moved G i s s4"
    using m0 1(2) 2(2) 3(2) 4(2) by (blast intro: moved_trans)
  ultimately show ?thesis using 4(3,4) 3(4) 2(4) 1(4) by (simp add: s0_def)
qed

section \<open>Setting an address\<close>

text \<open>What a call for interface \<open>i\<close> leaves alone.\<close>

definition only_if :: "git_env \<Rightarrow> nat \<Rightarrow> glue \<Rightarrow> glue \<Rightarrow> bool" where
  "only_if G i s s' \<longleftrightarrow> (\<forall>j. j \<noteq> i \<longrightarrow> netif_git s' ! j = netif_git s ! j \<and> netif_esp s' ! j = netif_esp s ! j)
     \<and> (\<forall>x. x \<noteq> if_ptr G i \<longrightarrow> esp_netifs s' x = esp_netifs s x)"

lemma only_if_trans: "only_if G i s s' \<Longrightarrow> only_if G i s' s'' \<Longrightarrow> only_if G i s s''"
  by (simp add: only_if_def)

lemma moved_only_if: "moved G i s s' \<Longrightarrow> only_if G i s s'"
  by (simp add: moved_def only_if_def)

lemma netif_num:
  assumes "lwip2_ok G" "i < 2"
  shows "(if if_ptr G i = ge_sta_if G then STATION_IF else SOFTAP_IF) = i"
  using assms by (auto simp: if_ptr_def lwip2_ok_def STATION_IF_def SOFTAP_IF_def less_2_cases_iff)

lemma netif_is_new_ok:
  assumes "lwip2_ok G" "net_ok G s" "i < 2"
  shows "\<exists>s' n n'. netif_is_new G (if_ptr G i) s = Some (s', netif_esp s ! i = NULL) \<and> net_ok G s' \<and> only_if G i s s'
    \<and> netif_esp s' ! i = if_ptr G i \<and> netif_git s' = netif_git s \<and> netif_enabled s' = netif_enabled s
    \<and> glue_calls s' = glue_calls s
    \<and> esp_netifs s (if_ptr G i) = Some n \<and> esp_netifs s' (if_ptr G i) = Some n'
    \<and> n' = n\<lparr>en_num := of_nat i, en_next := en_next n'\<rparr>"
proof -
  let ?np = "if_ptr G i"
  from esp_upd_ok [OF assms, of "\<lambda>n. n\<lparr>en_num := of_nat i\<rparr>"] obtain n s1 where 1:
    "esp_netifs s ?np = Some n" "esp_upd ?np (\<lambda>n. n\<lparr>en_num := of_nat i\<rparr>) s = Some s1"
    "s1 = s\<lparr>esp_netifs := (esp_netifs s)(?np \<mapsto> n\<lparr>en_num := of_nat i\<rparr>)\<rparr>" "net_ok G s1" by auto
  note k = net_okD [OF 1(4) assms(3)]
  show ?thesis
  proof (cases "netif_esp s ! i = ?np")
    case True
    then have "netif_esp s ! i \<noteq> NULL" using if_ptr_facts [OF assms(1)] by simp
    with True 1 k netif_num [OF assms(1,3)] show ?thesis
      by (auto simp: netif_is_new_def only_if_def Let_def)
  next
    case False
    then have new: "netif_esp s ! i = NULL" using net_okD(2) [OF assms(2,3)] by auto
    from esp_upd_ok [OF assms(1) 1(4) assms(3), of "\<lambda>n. n\<lparr>en_next := if i = STATION_IF then ge_ap_if G else NULL\<rparr>"]
    obtain s2 where 2: "esp_upd ?np (\<lambda>n. n\<lparr>en_next := if i = STATION_IF then ge_ap_if G else NULL\<rparr>) s1 = Some s2"
      "s2 = s1\<lparr>esp_netifs := (esp_netifs s1)(?np \<mapsto> n\<lparr>en_num := of_nat i,
         en_next := if i = STATION_IF then ge_ap_if G else NULL\<rparr>)\<rparr>" "net_ok G s2"
      using 1(3) by auto
    have "net_ok G (s2\<lparr>netif_esp := (netif_esp s2)[i := ?np]\<rparr>)"
      using 2(3) assms(3) by (auto simp: net_ok_def nth_list_update)
    moreover have "i < length (netif_esp s2)" using 2(3) assms(3) by (simp add: net_ok_def)
    ultimately show ?thesis
      using new 1 2 k netif_num [OF assms(1,3)] if_ptr_facts(1) [OF assms(1), of i]
      by (auto simp: netif_is_new_def only_if_def Let_def)
  qed
qed

text \<open>The addresses are in place on both sides, and the link is up exactly with an address.\<close>

definition addr_set :: "git_env \<Rightarrow> nat \<Rightarrow> u32 \<times> u32 \<times> u32 \<Rightarrow> glue \<Rightarrow> bool" where
  "addr_set G i a s \<longleftrightarrow> net_ok G s \<and> agree G i a s \<and> netif_esp s ! i = if_ptr G i
     \<and> (\<exists>n. esp_netifs s (if_ptr G i) = Some n \<and> en_num n = of_nat i
          \<and> (en_flags n AND NETIF_FLAG_LINK_UP \<noteq> 0 \<longleftrightarrow> fst a \<noteq> 0))"

lemma link_flag_set:
  "(w OR NETIF_FLAG_LINK_UP) AND NETIF_FLAG_LINK_UP \<noteq> 0" "(w AND NOT NETIF_FLAG_LINK_UP) AND NETIF_FLAG_LINK_UP = 0"
proof -
  have "bit (NETIF_FLAG_LINK_UP AND (w OR NETIF_FLAG_LINK_UP)) 4"
    by (simp add: bit_simps NETIF_FLAG_LINK_UP_def bit_numeral_rec)
  then show "(w OR NETIF_FLAG_LINK_UP) AND NETIF_FLAG_LINK_UP \<noteq> 0"
    by (metis and.commute bit_0_eq bot_apply bot_bool_def)
  show "(w AND NOT NETIF_FLAG_LINK_UP) AND NETIF_FLAG_LINK_UP = 0"
    by (rule bit_word_eqI) (auto simp: bit_and_iff bit_not_iff)
qed

lemma set_addr_known:
  assumes "lwip2_ok G" "net_ok G s" "i < 2" "netif_esp s ! i = if_ptr G i"
  shows "\<exists>s'. netif_set_addr G (if_ptr G i) ip nm gw s = Some s' \<and> addr_set G i (ip, nm, gw) s' \<and> only_if G i s s'
    \<and> netif_enabled s' = (netif_enabled s)[i := True]"
proof -
  let ?np = "if_ptr G i"
  have nn: "?np \<noteq> NULL" using if_ptr_facts [OF assms(1)] by simp
  from netif_is_new_ok [OF assms(1-3)] assms(4) nn obtain s1 n where 1:
    "netif_is_new G ?np s = Some (s1, False)" "net_ok G s1" "only_if G i s s1" "netif_esp s1 ! i = ?np"
    "netif_enabled s1 = netif_enabled s" "esp_netifs s1 ?np = Some n" "en_num n = of_nat i"
    by (auto simp: assms(4)) (metis esp_netif.select_convs(14) esp_netif.surjective esp_netif.update_convs(1,14))
  define n2 where "n2 = n\<lparr>en_ip_addr := ip, en_netmask := nm, en_gw := gw\<rparr>"
  from esp_upd_ok [OF assms(1) 1(2) assms(3), of "\<lambda>n. n\<lparr>en_ip_addr := ip, en_netmask := nm, en_gw := gw\<rparr>"] 1(6)
  obtain s2 where 2: "esp_upd ?np (\<lambda>n. n\<lparr>en_ip_addr := ip, en_netmask := nm, en_gw := gw\<rparr>) s1 = Some s2"
    "s2 = s1\<lparr>esp_netifs := (esp_netifs s1)(?np \<mapsto> n2)\<rparr>" "net_ok G s2" by (auto simp: n2_def)
  define s3 where "s3 = (if ge_ip_info G (en_num n) \<noteq> (ip, nm, gw)
      then glue_call (Wifi_set_ip_info (en_num n) ip nm gw) s2 else s2)"
  have ok3: "net_ok G s3" using 2(3) by (simp add: s3_def)
  define n4 where "n4 = n2\<lparr>en_flags := if ip \<noteq> 0 then en_flags n2 OR NETIF_FLAG_LINK_UP
      else en_flags n2 AND NOT NETIF_FLAG_LINK_UP\<rparr>"
  have "esp_netifs s3 ?np = Some n2" by (simp add: s3_def 2(2))
  with esp_upd_ok [OF assms(1) ok3 assms(3), of "\<lambda>n. n\<lparr>en_flags := if ip \<noteq> 0 then en_flags n OR NETIF_FLAG_LINK_UP
      else en_flags n AND NOT NETIF_FLAG_LINK_UP\<rparr>"]
  obtain s4 where 4: "esp_upd ?np (\<lambda>n. n\<lparr>en_flags := if ip \<noteq> 0 then en_flags n OR NETIF_FLAG_LINK_UP
      else en_flags n AND NOT NETIF_FLAG_LINK_UP\<rparr>) s3 = Some s4"
    "s4 = s3\<lparr>esp_netifs := (esp_netifs s3)(?np \<mapsto> n4)\<rparr>" "net_ok G s4" by (auto simp: n4_def)
  have e4: "netif_esp s4 = netif_esp s1" "netif_enabled s4 = netif_enabled s1" "netif_git s4 = netif_git s1"
    by (simp_all add: 4(2) s3_def 2(2))
  have n4: "esp_netifs s4 ?np = Some n4" "esp_addr n4 = (ip, nm, gw)" "en_num n4 = of_nat i"
    using 1(7) by (simp_all add: 4(2) n4_def n2_def esp_addr_def)
  have hw: "length (en_hwaddr n4) = NETIF_MAX_HWADDR_LEN" using net_okD(3) [OF 4(3) assms(3)] n4(1) by simp
  have r: "registered i s4" using 1(4) nn by (auto simp: registered_def e4)
  have u: "unat (en_num n4) = i" using n4(3) assms(3) by (auto simp: less_2_cases_iff)
  from netif_update_ok [OF assms(1) 4(3) assms(3) r _ hw, of ip nm gw "ucast (en_hwaddr_len n4)" "en_mtu n4"] n4
  obtain s5 where 5: "esp2glue_netif_update G i ip nm gw (ucast (en_hwaddr_len n4)) (en_hwaddr n4) (en_mtu n4) s4 = Some s5"
    "moved G i s4 s5" "agree G i (ip, nm, gw) s5" "netif_enabled s5 = (netif_enabled s4)[i := True]" by auto
  have "netif_set_addr G ?np ip nm gw s = Some s5"
    using 1(1,6) 2(1) 4(1) 5(1) n4(1) nn u
    by (subst netif_set_addr.simps) (simp add: deref_def s3_def Let_def cong del: bind_weak_cong)
  moreover have "only_if G i s1 s4" by (simp add: only_if_def e4 4(2) s3_def 2(2))
  then have "only_if G i s s5" using 1(3) moved_only_if [OF 5(2)] by (blast intro: only_if_trans)
  moreover have "addr_set G i (ip, nm, gw) s5"
  proof -
    from 5(2) n4 obtain n5 where "esp_netifs s5 ?np = Some n5" "en_num n5 = of_nat i"
      "en_flags n5 AND NETIF_FLAG_LINK_UP = en_flags n4 AND NETIF_FLAG_LINK_UP" by (auto simp: moved_def)
    moreover have "en_flags n4 AND NETIF_FLAG_LINK_UP \<noteq> 0 \<longleftrightarrow> ip \<noteq> 0"
      using link_flag_set by (simp add: n4_def)
    moreover have "net_ok G s5" "netif_esp s5 ! i = ?np" using 5(2) 1(4) by (simp_all add: moved_def e4)
    ultimately show ?thesis using 5(3) by (simp add: addr_set_def)
  qed
  ultimately show ?thesis using 5(4) e4(2) 1(5) by auto
qed

section \<open>Sequences of calls\<close>

lemma set_addr_ok:
  assumes "lwip2_ok G" "net_ok G s" "i < 2"
  shows "\<exists>s'. netif_set_addr G (if_ptr G i) ip nm gw s = Some s' \<and> addr_set G i (ip, nm, gw) s' \<and> only_if G i s s'
    \<and> netif_enabled s' = (netif_enabled s)[i := True]"
proof (cases "netif_esp s ! i = if_ptr G i")
  case True
  with set_addr_known [OF assms] show ?thesis by blast
next
  case False
  let ?np = "if_ptr G i"
  from False net_okD(2) [OF assms(2,3)] have "netif_esp s ! i = NULL" by simp
  with netif_is_new_ok [OF assms] obtain s1 n where 1:
    "netif_is_new G ?np s = Some (s1, True)" "net_ok G s1" "only_if G i s s1" "netif_esp s1 ! i = ?np"
    "netif_enabled s1 = netif_enabled s" "esp_netifs s1 ?np = Some n" by auto
  from esp_upd_ok [OF assms(1) 1(2) assms(3), of "netif_add_fields (en_state n)"] obtain s2 m where 2:
    "esp_upd ?np (netif_add_fields (en_state n)) s1 = Some s2" "net_ok G s2"
    "s2 = s1\<lparr>esp_netifs := (esp_netifs s1)(?np \<mapsto> m)\<rparr>" by (auto simp: netif_add_fields_def)
  have k: "netif_esp s2 ! i = ?np" using 1(4) by (simp add: 2(3))
  have o: "only_if G i s1 s2" by (simp add: only_if_def 2(3))
  have "netif_set_addr G ?np ip nm gw s = netif_set_addr G ?np ip nm gw s2"
    using 1(1,6) 2(1) if_ptr_facts(1) [OF assms(1), of i]
    by (subst netif_set_addr.simps) (simp add: deref_def)
  with set_addr_known [OF assms(1) 2(2) assms(3) k, of ip nm gw] 1(3,5) o show ?thesis
    by (auto intro: only_if_trans simp: 2(3))
qed

lemma moved_keeps: "moved G i s s' \<Longrightarrow> registered j s \<Longrightarrow> net_ok G s' \<and> registered j s'"
  by (simp add: moved_def registered_def)

lemma git_upd_moved:
  assumes "net_ok G s" "i < 2" "\<And>n. same_if n (f n)"
  shows "\<exists>s'. git_upd i f s = Some s' \<and> moved G i s s' \<and> netif_git s' = (netif_git s)[i := f (netif_git s ! i)]
    \<and> netif_enabled s' = netif_enabled s \<and> git_default s' = git_default s"
  using git_upd_ok [OF assms(1,2), of f] assms(3) by simp

lemma set_down_ok:
  assumes "lwip2_ok G" "net_ok G s" "i < 2" "registered i s" "length (netif_enabled s) = 2"
  shows "\<exists>s'. esp2glue_netif_set_up1down0 G i False s = Some s' \<and> moved G i s s'
    \<and> git_addr (netif_git s' ! i) = (0, 0, 0) \<and> git_default s' \<noteq> Some i \<and> netif_enabled s' = (netif_enabled s)[i := False]"
proof -
  have k: "same_if n (fst (ge_release_and_stop G n))" "same_if n (fst (ge_link_down G n))"
    "same_if n (fst (ge_set_down G n))" "same_addr n (fst (ge_link_down G n))" "same_addr n (fst (ge_set_down G n))"
    "ge_set_default G d = d" for n d
    using assms(1) by (auto simp: lwip2_ok_def)
  from git_do_ok [of G s i "ge_release_and_stop G", OF assms(1-4) k(1)] obtain s1 where
    1: "git_do G i (ge_release_and_stop G) s = Some s1" "moved G i s s1" "netif_enabled s1 = netif_enabled s" by auto
  have ok1: "net_ok G s1" "registered i s1" using moved_keeps [OF 1(2) assms(4)] by auto
  have z: "same_if n (n\<lparr>gn_ip := 0, gn_netmask := 0, gn_gw := 0\<rparr>)" for n by (simp add: same_if_def)
  from git_upd_moved [OF ok1(1) assms(3) z] obtain s2 where
    2: "git_upd i (\<lambda>n. n\<lparr>gn_ip := 0, gn_netmask := 0, gn_gw := 0\<rparr>) s1 = Some s2" "moved G i s1 s2"
      "netif_enabled s2 = netif_enabled s1"
      "netif_git s2 = (netif_git s1)[i := (netif_git s1 ! i)\<lparr>gn_ip := 0, gn_netmask := 0, gn_gw := 0\<rparr>]" by auto
  have ok2: "net_ok G s2" "registered i s2" using moved_keeps [OF 2(2) ok1(2)] by auto
  have l1: "i < length (netif_git s1)" "i < length (netif_git s2)"
    using ok1(1) ok2(1) assms(3) by (simp_all add: net_ok_def)
  have a2: "git_addr (netif_git s2 ! i) = (0, 0, 0)" using l1 by (simp add: 2(4) git_addr_def)
  from git_do_ok [of G s2 i "ge_link_down G", OF assms(1) ok2(1) assms(3) ok2(2) k(2)] obtain s3 where
    3: "git_do G i (ge_link_down G) s2 = Some s3" "moved G i s2 s3" "netif_enabled s3 = netif_enabled s2"
      "netif_git s3 = (netif_git s2)[i := fst (ge_link_down G (netif_git s2 ! i))]" by auto
  have ok3: "net_ok G s3" "registered i s3" using moved_keeps [OF 3(2) ok2(2)] by auto
  have a3: "git_addr (netif_git s3 ! i) = (0, 0, 0)"
    using l1 a2 k(4) by (simp add: 3(4) git_addr_def same_addr_def)
  from git_do_ok [of G s3 i "ge_set_down G", OF assms(1) ok3(1) assms(3) ok3(2) k(3)] obtain s4 where
    4: "git_do G i (ge_set_down G) s3 = Some s4" "moved G i s3 s4" "netif_enabled s4 = netif_enabled s3"
      "netif_git s4 = (netif_git s3)[i := fst (ge_set_down G (netif_git s3 ! i))]" by auto
  have "i < length (netif_git s3)" using ok3(1) assms(3) by (simp add: net_ok_def)
  then have a4: "git_addr (netif_git s4 ! i) = (0, 0, 0)"
    using a3 k(5) by (simp add: 4(4) git_addr_def same_addr_def)
  define s5 where "s5 = (if git_default s4 = Some i then git_set_default G None s4 else s4)"
  have m4: "moved G i s s4" using 1(2) 2(2) 3(2) 4(2) by (blast intro: moved_trans)
  then have "moved G i s (s5\<lparr>netif_enabled := (netif_enabled s5)[i := False]\<rparr>)"
    by (simp add: s5_def moved_def git_set_default_def) (auto simp: net_ok_def glue_call_def k(6))
  moreover have "git_default s5 \<noteq> Some i" "netif_git s5 = netif_git s4" "netif_enabled s5 = netif_enabled s"
    using 1(3) 2(3) 3(3) 4(3) by (auto simp: s5_def git_set_default_def k(6) glue_call_def)
  ultimately show ?thesis
    using 1(1) 2(1) 3(1) 4(1) a4 by (simp add: esp2glue_netif_set_up1down0_def s5_def Let_def)
qed

text \<open>
  The SDK sets an address, adds an interface (its \<open>init\<close> keeps the hardware address a
  six-byte array), sets interfaces up and down, starts DHCP; lwIP 2 works on an interface
  of its own accord, for example when its DHCP client gets an address.
\<close>

inductive netif_step :: "git_env \<Rightarrow> glue \<Rightarrow> glue \<Rightarrow> bool" for G where
  set_addr: "i < 2 \<Longrightarrow> netif_set_addr G (if_ptr G i) ip nm gw s = Some s' \<Longrightarrow> netif_step G s s'"
| add: "i < 2 \<Longrightarrow> (\<And>n. length (en_hwaddr (fst (init n))) = NETIF_MAX_HWADDR_LEN) \<Longrightarrow>
        netif_add G init (if_ptr G i) ip nm gw st s = Some (s', r) \<Longrightarrow> netif_step G s s'"
| set_up: "i < 2 \<Longrightarrow> registered i s \<Longrightarrow> esp2glue_netif_set_up1down0 G i True s = Some s' \<Longrightarrow> netif_step G s s'"
| set_down: "i < 2 \<Longrightarrow> registered i s \<Longrightarrow> length (netif_enabled s) = 2 \<Longrightarrow>
        esp2glue_netif_set_up1down0 G i False s = Some s' \<Longrightarrow> netif_step G s s'"
| dhcp: "i < 2 \<Longrightarrow> registered i s \<Longrightarrow> esp2glue_dhcp_start G i s = Some (s', e) \<Longrightarrow> netif_step G s s'"
| lwip2: "i < 2 \<Longrightarrow> registered i s \<Longrightarrow> (\<And>n. same_if n (fst (f n))) \<Longrightarrow> git_do G i f s = Some s' \<Longrightarrow>
        netif_step G s s'"

lemma dhcp_start_ok:
  assumes "lwip2_ok G" "net_ok G s" "i < 2" "registered i s"
  shows "\<exists>s' e. esp2glue_dhcp_start G i s = Some (s', e) \<and> moved G i s s'"
proof -
  have k: "same_if n (fst (ge_link_up G n))" "same_if n (fst (ge_set_up G n))" "same_if n (fst (ge_dhcp_start G n))" for n
    using assms(1) by (auto simp: lwip2_ok_def)
  from git_do_ok [of G s i "ge_link_up G", OF assms k(1)] obtain s1 where
    1: "git_do G i (ge_link_up G) s = Some s1" "moved G i s s1" by auto
  have ok1: "net_ok G s1" "registered i s1" using moved_keeps [OF 1(2) assms(4)] by auto
  from git_do_ok [of G s1 i "ge_set_up G", OF assms(1) ok1(1) assms(3) ok1(2) k(2)] obtain s2 where
    2: "git_do G i (ge_set_up G) s1 = Some s2" "moved G i s1 s2" by auto
  have ok2: "net_ok G s2" using 2(2) by (simp add: moved_def)
  have "same_if n (n\<lparr>gn_hostname := ge_hostname G\<rparr>)" for n by (simp add: same_if_def)
  from git_upd_moved [OF ok2 assms(3) this] obtain s3 where
    3: "git_upd i (\<lambda>n. n\<lparr>gn_hostname := ge_hostname G\<rparr>) s2 = Some s3" "moved G i s2 s3" by auto
  let ?s3 = "glue_call (Git_dhcp_start i) s3" and ?f = "\<lambda>n. fst (ge_dhcp_start G n)"
  have ok3: "net_ok G s3" "net_ok G ?s3" using 3(2) by (simp_all add: moved_def)
  have "same_if (netif_git ?s3 ! i) (?f (netif_git ?s3 ! i))" using k(3) by simp
  from git_upd_ok [of G ?s3 i ?f, OF ok3(2) assms(3) this] have
    4: "\<exists>s4. git_upd i ?f ?s3 = Some s4 \<and> moved G i ?s3 s4" by auto
  then obtain s4 where s4: "git_upd i ?f ?s3 = Some s4" "moved G i ?s3 s4" by auto
  have "moved G i s3 ?s3" using moved_refl [OF ok3(1) assms(3)] by (simp add: moved_def)
  then have "moved G i s s4" using 1(2) 2(2) 3(2) s4(2) by (blast intro: moved_trans)
  with 1(1) 2(1) 3(1) s4(1) arr_get_git [OF ok3(1) assms(3)] show ?thesis
    by (simp add: esp2glue_dhcp_start_def)
qed

lemma netif_add_ok:
  assumes "lwip2_ok G" "net_ok G s" "i < 2" "\<And>n. length (en_hwaddr (fst (init n))) = NETIF_MAX_HWADDR_LEN"
  shows "\<exists>s' r. netif_add G init (if_ptr G i) ip nm gw st s = Some (s', r) \<and> net_ok G s'"
proof -
  let ?np = "if_ptr G i"
  have nn: "?np \<noteq> NULL" using if_ptr_facts(1) [OF assms(1)] .
  from esp_upd_ok [OF assms(1-3), of "netif_add_fields st"] obtain n s1 where 1:
    "esp_upd ?np (netif_add_fields st) s = Some s1" "net_ok G s1" "esp_netifs s1 ?np = Some n"
    by (auto simp: netif_add_fields_def)
  define s2 where "s2 = s1\<lparr>esp_netifs := (esp_netifs s1)(?np \<mapsto> fst (init n))\<rparr>"
  have ok2: "net_ok G s2" using net_ok_esp_upd [OF 1(2) assms(3,4)] by (simp add: s2_def)
  have "esp_upd ?np (\<lambda>_. fst (init n)) s1 = Some s2" using 1(3) nn by (simp add: esp_upd_def deref_def s2_def)
  with 1 nn set_addr_ok [OF assms(1) ok2 assms(3), of ip nm gw] show ?thesis
    by (auto simp: netif_add_def deref_def addr_set_def ok2)
qed

lemma netif_step_keeps:
  assumes "lwip2_ok G" "net_ok G s" "netif_step G s s'"
  shows "net_ok G s'"
  using assms(3)
proof cases
  case (set_addr i ip nm gw)
  with set_addr_ok [OF assms(1,2), of i ip nm gw] show ?thesis by (auto simp: addr_set_def)
next
  case (add i init ip nm gw st r)
  with netif_add_ok [of G s i init ip nm gw st, OF assms(1,2) add(1) add(2)] show ?thesis by auto
next
  case (set_up i)
  have k: "same_if n (fst (ge_link_up G n))" for n using assms(1) by (auto simp: lwip2_ok_def)
  from git_do_ok [of G s i "ge_link_up G", OF assms(1,2) set_up(1,2) k] obtain s1 where
    1: "git_do G i (ge_link_up G) s = Some s1" "moved G i s s1" by auto
  have ok1: "net_ok G s1" using 1(2) by (simp add: moved_def)
  have "same_if n (n\<lparr>gn_flags := gn_flags n OR ge_flag_up G\<rparr>)" for n by (simp add: same_if_def)
  from git_upd_moved [OF ok1 set_up(1) this] set_up(3) 1(1) show ?thesis
    by (auto simp: esp2glue_netif_set_up1down0_def moved_def)
next
  case (set_down i)
  with set_down_ok [OF assms(1,2), of i] show ?thesis by (auto simp: moved_def)
next
  case (dhcp i e)
  with dhcp_start_ok [OF assms(1,2), of i] show ?thesis by (auto simp: moved_def)
next
  case (lwip2 i f)
  from git_do_ok [of G s i f, OF assms(1,2) lwip2(1,2,3)] lwip2(4) show ?thesis by (auto simp: moved_def)
qed

definition sound_netif_step :: "git_env \<Rightarrow> glue \<Rightarrow> glue \<Rightarrow> bool" where
  "sound_netif_step G s s' \<longleftrightarrow> lwip2_ok G \<and> netif_step G s s'"

interpretation netif_run: step_invariant "sound_netif_step G" "net_ok G" for G
  by unfold_locales (auto simp: sound_netif_step_def intro: netif_step_keeps)

lemma netif_run_ok: "lwip2_ok G \<Longrightarrow> (netif_step G)\<^sup>*\<^sup>* s s' \<Longrightarrow> net_ok G s \<Longrightarrow> net_ok G s'"
  using netif_run.run_keeps [of G] by (simp add: sound_netif_step_def [abs_def])

section \<open>Properties\<close>


text \<open>An lwIP 2 that does what the documentation says and calls back on every change.\<close>

definition sample_git :: git_env where
  "sample_git = \<lparr>ge_errs = lwip2_errs, ge_sta_if = 7, ge_ap_if = 8, ge_ip_info = (\<lambda>_. (0, 0, 0)), ge_hostname = 3,
     ge_flag_up = 1, ge_flag_link_up = 4, ge_flag_igmp = 32, ge_flag_etharp = 8, ge_flag_broadcast = 2,
     ge_netif_add = (\<lambda>i n. n\<lparr>gn_num := of_nat i\<rparr>),
     ge_set_addr = (\<lambda>ip nm gw n. (n\<lparr>gn_ip := ip, gn_netmask := nm, gn_gw := gw\<rparr>, True)),
     ge_set_up = (\<lambda>n. (n\<lparr>gn_flags := gn_flags n OR 1\<rparr>, True)),
     ge_set_down = (\<lambda>n. (n\<lparr>gn_flags := gn_flags n AND NOT 1\<rparr>, True)),
     ge_link_up = (\<lambda>n. (n\<lparr>gn_flags := gn_flags n OR 4\<rparr>, False)),
     ge_link_down = (\<lambda>n. (n\<lparr>gn_flags := gn_flags n AND NOT 4\<rparr>, False)),
     ge_release_and_stop = (\<lambda>n. (n\<lparr>gn_ip := 0, gn_netmask := 0, gn_gw := 0\<rparr>, True)),
     ge_dhcp_start = (\<lambda>n. (n, 0)), ge_dhcp_stop = (\<lambda>n. n), ge_set_default = (\<lambda>d. d)\<rparr>"

lemma sample_git_ok: "lwip2_ok sample_git"
  by (auto simp: lwip2_ok_def sample_git_def same_if_def same_addr_def)

text \<open>The state after \<open>esp2glue_lwip_init\<close>, before the SDK has added an interface.\<close>

definition booted :: glue where
  "booted = glue_init\<lparr>esp_netifs := [7 \<mapsto> sample_netif, 8 \<mapsto> sample_netif],
     netif_git := map (\<lambda>i. (if i = STATION_IF then netif_init_sta sample_git else netif_init_ap sample_git)
       \<lparr>gn_ip = 0, gn_netmask = 0, gn_gw = 0, gn_flags = 0, gn_hwaddr_len = 6, gn_hwaddr = replicate 6 0,
        gn_mtu = 0, gn_num = of_nat i, gn_name = [], gn_hostname = NULL, gn_callback = No_callback\<rparr>) [0, 1]\<rparr>"

lemma all_less_2: "(\<forall>i<2. P i) \<longleftrightarrow> P 0 \<and> P (1 :: nat)"
  by (auto simp: less_2_cases_iff)

lemma booted_ok: "net_ok sample_git booted"
  by (simp add: net_ok_def all_less_2 booted_def glue_init_def git_ok_at_def netif_init_sta_def netif_init_ap_def
      netif_init_common_def STATION_IF_def NETIF_MAX_HWADDR_LEN_def if_ptr_def sample_git_def sample_netif_def)


text \<open>
  \<open>netif_set_down\<close> of the SDK takes a known interface off lwIP 2: whatever callbacks
  lwIP 2 makes meanwhile, afterwards the interface has no address there, it is not the
  default route, it is not enabled, its link is down on the SDK's side, and the other
  interface is not touched.
\<close>

theorem netif_set_down_spec:
  assumes "lwip2_ok G" "net_ok G s" "i < 2" "netif_esp s ! i = if_ptr G i" "length (netif_enabled s) = 2"
    and "map_option en_num (esp_netifs s (if_ptr G i)) = Some (of_nat i)"
  shows "\<exists>s' n. netif_set_down G (if_ptr G i) s = Some s' \<and> net_ok G s'
    \<and> git_addr (netif_git s' ! i) = (0, 0, 0) \<and> git_default s' \<noteq> Some i \<and> \<not> netif_enabled s' ! i
    \<and> esp_netifs s' (if_ptr G i) = Some n \<and> en_flags n AND NETIF_FLAG_LINK_UP = 0
    \<and> (\<forall>j. j \<noteq> i \<longrightarrow> netif_git s' ! j = netif_git s ! j)
    \<and> (\<forall>x. x \<noteq> if_ptr G i \<longrightarrow> esp_netifs s' x = esp_netifs s x)"
proof -
  let ?np = "if_ptr G i" and ?f = "\<lambda>n. n\<lparr>en_flags := en_flags n AND NOT (NETIF_FLAG_UP OR NETIF_FLAG_LINK_UP)\<rparr>"
  have nn: "?np \<noteq> NULL" using if_ptr_facts(1) [OF assms(1)] .
  from esp_upd_ok [OF assms(1-3), of ?f] obtain n s1 where 1:
    "esp_netifs s ?np = Some n" "esp_upd ?np ?f s = Some s1" "s1 = s\<lparr>esp_netifs := (esp_netifs s)(?np \<mapsto> ?f n)\<rparr>"
    "net_ok G s1" by auto
  have u: "unat (en_num n) = i" using assms(3,6) 1(1) by (auto simp: less_2_cases_iff)
  have r: "registered i s1" using assms(4) nn by (auto simp: registered_def 1(3))
  have l: "length (netif_enabled s1) = 2" using assms(5) by (simp add: 1(3))
  from set_down_ok [OF assms(1) 1(4) assms(3) r l] obtain s' where
    2: "esp2glue_netif_set_up1down0 G i False s1 = Some s'" "moved G i s1 s'" "git_addr (netif_git s' ! i) = (0, 0, 0)"
      "git_default s' \<noteq> Some i" "netif_enabled s' = (netif_enabled s1)[i := False]" by auto
  have "netif_set_down G ?np s = Some s'"
    using 1(2,3) 2(1) nn u by (simp add: netif_set_down_def deref_def)
  moreover have "(w AND NOT (NETIF_FLAG_UP OR NETIF_FLAG_LINK_UP)) AND NETIF_FLAG_LINK_UP = 0" for w :: u8
    by (rule bit_word_eqI) (auto simp: bit_and_iff bit_or_iff bit_not_iff)
  ultimately show ?thesis using 2 assms(3) l by (auto simp: moved_def 1(3))
qed

definition with_address :: glue where
  "with_address = booted\<lparr>netif_esp := [7, NULL], git_default := Some 0, netif_enabled := [True, False]\<rparr>"

theorem netif_set_down_witness:
  "\<exists>s'. netif_set_down sample_git 7 with_address = Some s' \<and> git_default s' \<noteq> Some 0 \<and> \<not> netif_enabled s' ! 0"
proof -
  have 7: "if_ptr sample_git 0 = 7" by (simp add: if_ptr_def STATION_IF_def sample_git_def)
  have "net_ok sample_git with_address"
    using booted_ok 7 by (simp add: net_ok_def with_address_def STATION_IF_def all_less_2)
  moreover have "netif_esp with_address ! 0 = if_ptr sample_git 0" "length (netif_enabled with_address) = 2"
    "map_option en_num (esp_netifs with_address (if_ptr sample_git 0)) = Some (of_nat 0)"
    by (simp_all add: 7 with_address_def booted_def sample_netif_def)
  ultimately show ?thesis
    using netif_set_down_spec [OF sample_git_ok, of with_address 0] by (auto simp: 7)
qed



end
