(* ===== verification/Clock.thy ===== *)
theory Clock
  imports Prelude
begin

text \<open>
  The clock of \<^verbatim>\<open>glue-lwip/esp-millis.c\<close> and \<^verbatim>\<open>glue-lwip/esp-time.c\<close>. The SDK's
  \<open>system_get_time\<close> is a 32-bit count of microseconds that wraps every 71.6 minutes; a
  timer that \<open>millis\<close> arms on its first call counts the wraps. Each operation takes what
  \<open>system_get_time\<close>, \<open>micros\<close> or the SNTP client answers as an argument.

  The reference is an unbounded count of microseconds since boot: \<open>millis\<close> is proved to
  be that count in milliseconds up to an explicit drift.
\<close>

section \<open>State and operations\<close>

datatype timer_call = Os_timer_setfn | Os_timer_arm u32 bool

record clock =
  micros_at_last_overflow_tick :: u32
  micros_overflow_count :: u32
  millis_once :: bool
  timer_calls :: "timer_call list"
  s_bootTime :: u32

definition clock_boot :: clock where
  "clock_boot = \<lparr>micros_at_last_overflow_tick = 0, micros_overflow_count = 0,
                 millis_once = False, timer_calls = [], s_bootTime = 0\<rparr>"

definition micros_overflow_tick :: "u32 \<Rightarrow> clock \<Rightarrow> clock" where
  "micros_overflow_tick m s =
     (let s1 = (if m < micros_at_last_overflow_tick s
                then s\<lparr>micros_overflow_count := micros_overflow_count s + 1\<rparr> else s)
      in s1\<lparr>micros_at_last_overflow_tick := m\<rparr>)"

definition millis :: "u32 \<Rightarrow> clock \<Rightarrow> u32 \<times> clock" where
  "millis m s =
     (let s1 = (if \<not> millis_once s
                then s\<lparr>timer_calls := timer_calls s @ [Os_timer_setfn, Os_timer_arm 60000 True],
                       millis_once := True\<rparr>
                else s);
          c = micros_overflow_count s1
              + (if m < micros_at_last_overflow_tick s1 then 1 else 0)
      in (c * 4294967 + m div 1000, s1))"

text \<open>
  \<open>ensureBootTimeIsSet\<close>: \<open>now\<close> is what \<open>sntp_get_current_timestamp\<close> answers, 0 as long as
  no time server has. \<open>time_t\<close> has 32 bits on the target.
\<close>

definition ensureBootTimeIsSet :: "u32 \<Rightarrow> u32 \<Rightarrow> clock \<Rightarrow> clock" where
  "ensureBootTimeIsSet now m s =
     (if s_bootTime s = 0
      then if now \<noteq> 0
           then let (ms, s1) = millis m s in s1\<lparr>s_bootTime := now - ms div 1000\<rparr>
           else s
      else s)"

record timeval =
  tv_sec :: u32
  tv_usec :: u32

text \<open>
  \<open>gettimeofday\<close>: \<open>tp\<close> is the caller's structure, \<open>None\<close> for NULL; \<open>m1\<close> and \<open>m2\<close> are the
  answers of \<open>system_get_time\<close> in the two calls of \<open>millis\<close>, \<open>us\<close> that of \<open>micros\<close>.
\<close>

definition gettimeofday ::
  "u32 \<Rightarrow> u32 \<Rightarrow> u32 \<Rightarrow> u32 \<Rightarrow> timeval option \<Rightarrow> clock \<Rightarrow> int \<times> timeval option \<times> clock" where
  "gettimeofday now m1 m2 us tp s =
     (case tp of
        None \<Rightarrow> (0, None, s)
      | Some t \<Rightarrow>
          let s1 = ensureBootTimeIsSet now m1 s;
              (ms, s2) = millis m2 s1
          in (0, Some (t\<lparr>tv_sec := s_bootTime s2 + ms div 1000, tv_usec := us * 1000\<rparr>), s2))"

section \<open>Against an unbounded clock\<close>

text \<open>
  The events of a run with the time, in microseconds since boot and unbounded, at which
  they happen. \<open>system_get_time\<close> answers with the low 32 bits of that time.
\<close>

datatype clock_event = Tick nat | Ask nat

definition sys_time :: "nat \<Rightarrow> u32" where
  "sys_time t = of_nat t"

fun clock_step :: "clock_event \<Rightarrow> clock \<Rightarrow> clock" where
  "clock_step (Tick t) s = micros_overflow_tick (sys_time t) s"
| "clock_step (Ask t) s = snd (millis (sys_time t) s)"

text \<open>
  The timer's contract: after a tick at \<open>since\<close>, the events are in order and the next tick,
  and every question until then, comes before the 32-bit counter has run once around.
\<close>

fun ticking :: "nat \<Rightarrow> clock_event list \<Rightarrow> nat \<Rightarrow> bool" where
  "ticking since [] t \<longleftrightarrow> since \<le> t \<and> t < since + 2 ^ 32"
| "ticking since (Tick u # es) t \<longleftrightarrow> since \<le> u \<and> u < since + 2 ^ 32 \<and> ticking u es t"
| "ticking since (Ask u # es) t \<longleftrightarrow> since \<le> u \<and> u < since + 2 ^ 32 \<and> ticking since es t"

definition wraps_counted :: "nat \<Rightarrow> clock \<Rightarrow> bool" where
  "wraps_counted since s \<longleftrightarrow> micros_at_last_overflow_tick s = of_nat since
     \<and> micros_overflow_count s = of_nat (since div 2 ^ 32)"

text \<open>How far \<open>millis\<close> is behind: 0.296 ms for each wrap, and the rounding.\<close>

definition drift :: "nat \<Rightarrow> nat" where
  "drift t = (296 * (t div 2 ^ 32) + t mod 2 ^ 32) div 1000 - (t mod 2 ^ 32) div 1000"

lemma unat_sys_time: "unat (sys_time t) = t mod 2 ^ 32"
  by (simp add: sys_time_def unat_of_nat)

lemma sys_time_less: "sys_time t < of_nat u \<longleftrightarrow> t mod 2 ^ 32 < u mod 2 ^ 32"
  by (simp add: word_less_nat_alt unat_sys_time unat_of_nat)

lemma pow_32: "(2::nat) ^ 32 = 4294967296"
  by simp

lemma wrapped:
  fixes u t :: nat
  assumes "u \<le> t" "t < u + 2 ^ 32"
  shows "t div 2 ^ 32 = u div 2 ^ 32 + (if t mod 2 ^ 32 < u mod 2 ^ 32 then 1 else 0)"
proof -
  define q r q' r' where "q = t div 2 ^ 32" and "r = t mod 2 ^ 32"
    and "q' = u div 2 ^ 32" and "r' = u mod 2 ^ 32"
  have "t = 4294967296 * q + r" "u = 4294967296 * q' + r'"
    unfolding q_def r_def q'_def r'_def by (metis mult_div_mod_eq pow_32)+
  moreover have "r < 4294967296" "r' < 4294967296" by (simp_all add: r_def r'_def)
  moreover have "t < u + 4294967296" using assms by simp
  ultimately have "q = q' + (if r < r' then 1 else 0)"
    using assms(1) by (cases "q \<le> q'"; cases "q' + 1 < q"; simp)
  then show ?thesis by (simp only: q_def r_def q'_def r'_def)
qed

lemma tick_counts:
  assumes "wraps_counted since s" "since \<le> t" "t < since + 2 ^ 32"
  shows "wraps_counted t (micros_overflow_tick (sys_time t) s)"
  using assms wrapped [OF assms(2,3)]
  by (simp add: wraps_counted_def micros_overflow_tick_def Let_def sys_time_less)
     (simp add: sys_time_def)

lemma millis_counts: "wraps_counted since (snd (millis m s)) = wraps_counted since s"
  by (simp add: wraps_counted_def millis_def Let_def)

lemma ticking_counts:
  assumes "ticking since es t" "wraps_counted since s"
  shows "\<exists>u. wraps_counted u (fold clock_step es s) \<and> u \<le> t \<and> t < u + 2 ^ 32"
  using assms by (induction since es t arbitrary: s rule: ticking.induct)
    (auto simp: tick_counts millis_counts)

lemma millis_at:
  assumes "wraps_counted u s" "u \<le> t" "t < u + 2 ^ 32"
  shows "fst (millis (sys_time t) s)
    = of_nat (t div 2 ^ 32 * 4294967 + (t mod 2 ^ 32) div 1000)"
proof -
  have "(of_nat ((t mod 2 ^ 32) div 1000) :: u32) = sys_time t div 1000"
    by (simp add: word_arith_nat_div unat_sys_time)
  then show ?thesis
    using assms wrapped [OF assms(2,3)]
    by (simp add: millis_def Let_def wraps_counted_def sys_time_less)
qed

lemma in_milliseconds:
  "t div 1000 = t div 2 ^ 32 * 4294967 + (t mod 2 ^ 32) div 1000 + drift t"
proof -
  define q r where "q = t div 2 ^ 32" and "r = t mod 2 ^ 32"
  have "t = 2 ^ 32 * q + r" by (simp only: q_def r_def mult_div_mod_eq)
  also have "\<dots> = (296 * q + r) + 1000 * (4294967 * q)" by simp
  finally have "t div 1000 = 4294967 * q + (296 * q + r) div 1000" by simp
  moreover have "r div 1000 \<le> (296 * q + r) div 1000" by (rule div_le_mono) simp
  ultimately show ?thesis by (simp add: drift_def q_def r_def)
qed

lemma drift_bound: "drift t \<le> (296 * (t div 2 ^ 32)) div 1000 + 1"
proof -
  define q r where "q = 296 * (t div 2 ^ 32)" and "r = t mod 2 ^ 32"
  have "(q + r) div 1000 \<le> q div 1000 + r div 1000 + 1" by arith
  then show ?thesis unfolding drift_def q_def r_def by linarith
qed

lemma boot_counted: "wraps_counted 0 clock_boot"
  by (simp add: wraps_counted_def clock_boot_def)

section \<open>Properties\<close>

text \<open>
  C31: As long as the timer ticks once in every round of the 32-bit microsecond counter,
  \<open>millis\<close> is the time since boot in milliseconds, modulo the width of its result, less a
  drift of 0.296 ms for each round (4294967 ms are counted for 4294967.296 ms).
\<close>

theorem millis_is_time_since_boot:
  assumes "ticking 0 es t"
  shows "fst (millis (sys_time t) (fold clock_step es clock_boot)) + of_nat (drift t)
      = of_nat (t div 1000)
    \<and> drift t \<le> (296 * (t div 2 ^ 32)) div 1000 + 1"
proof -
  obtain u where u: "wraps_counted u (fold clock_step es clock_boot)" "u \<le> t" "t < u + 2 ^ 32"
    using ticking_counts [OF assms boot_counted] by auto
  show ?thesis
    using millis_at [OF u] drift_bound by (simp only: in_milliseconds [of t]) simp
qed

theorem millis_witness:
  "fst (millis (sys_time 9000000000)
     (fold clock_step [Ask 1000, Tick 3000000000, Ask 5000000000, Tick 6000000000] clock_boot))
   + of_nat (drift 9000000000) = 9000000
   \<and> drift 9000000000 \<le> 1"
  using millis_is_time_since_boot
    [of "[Ask 1000, Tick 3000000000, Ask 5000000000, Tick 6000000000]" 9000000000]
  by simp

text \<open>
  The timer is armed by the first call of \<open>millis\<close> only, so when nothing asks for the
  time during the first \<open>2 ^ 32\<close> microseconds those are lost: however late the first call
  comes, it answers as if the time since boot were at most 4294967 ms.
\<close>

theorem millis_first_call_late:
  "fst (millis (sys_time t) clock_boot) = of_nat ((t mod 2 ^ 32) div 1000)
   \<and> unat (fst (millis (sys_time t) clock_boot)) \<le> 4294967"
proof -
  have "fst (millis (sys_time t) clock_boot) = sys_time t div 1000"
    by (simp add: millis_def clock_boot_def)
  moreover have "sys_time t div 1000 = of_nat ((t mod 2 ^ 32) div 1000)"
    by (simp add: word_arith_nat_div unat_sys_time)
  moreover have "unat (sys_time t div 1000) = (t mod 2 ^ 32) div 1000"
    by (simp add: unat_div unat_sys_time)
  moreover have "(t mod 2 ^ 32) div 1000 \<le> (2 ^ 32 - 1) div 1000"
    by (intro div_le_mono) (simp add: le_diff_conv2 Suc_leI)
  ultimately show ?thesis by simp
qed

lemma tv_usec_value:
  "fst (snd (gettimeofday now m1 m2 us (Some t) s))
   = Some (t\<lparr>tv_sec := tv_sec (the (fst (snd (gettimeofday now m1 m2 us (Some t) s)))),
             tv_usec := us * 1000\<rparr>)"
  by (simp add: gettimeofday_def Let_def split: prod.split)

text \<open>
  \<open>gettimeofday\<close> multiplies the microseconds by 1000 where it should reduce them
  modulo a second: from one millisecond until 4.29 s after boot the field is not a
  fraction of a second.
\<close>

theorem gettimeofday_usec_out_of_range:
  assumes "1000 \<le> unat us" "unat us \<le> 4294967"
  shows "\<exists>r. fst (snd (gettimeofday now m1 m2 us (Some t) s)) = Some r
    \<and> unat (tv_usec r) = unat us * 1000 \<and> 1000000 \<le> unat (tv_usec r)"
proof -
  have "unat (us * 1000) = unat us * 1000"
    using assms by (simp add: unat_word_ariths(2))
  with assms show ?thesis
    by (subst tv_usec_value) simp
qed

theorem gettimeofday_usec_witness:
  "\<exists>r. fst (snd (gettimeofday 1700000000 5000000 5000000 1500
        (Some \<lparr>tv_sec = 0, tv_usec = 0\<rparr>) clock_boot)) = Some r
    \<and> unat (tv_usec r) = 1500000 \<and> 1000000 \<le> unat (tv_usec r)"
  using gettimeofday_usec_out_of_range
    [of 1500 1700000000 5000000 5000000 "\<lparr>tv_sec = 0, tv_usec = 0\<rparr>" clock_boot]
  by simp

end
