(* ===== verification/Ping.thy ===== *)
theory Ping
  imports C_Heap
begin

text \<open>
  The ping application of \<^verbatim>\<open>glue-lwip/esp-ping.c\<close> over the raw interface of lwIP 2. A
  session is a \<open>ping_msg\<close> that two timers carry along: \<open>ping_coarse_tmr\<close> sends the next
  request or ends the session, \<open>ping_timeout\<close> counts a request that was not answered.
  Calls out of the file (lwIP, its timers, the application's two functions) are recorded
  in \<open>ping_calls\<close>; what they answer is in the record \<open>ping_answers\<close> that an operation
  takes.
\<close>

section \<open>Constants and data of ping.h\<close>

definition PING_COARSE :: u32 where "PING_COARSE = 1000"
definition PING_ID :: u16 where "PING_ID = 0xAFAF"
definition PING_DATA_SIZE :: nat where "PING_DATA_SIZE = 32"
definition DEFAULT_PING_MAX_COUNT :: u32 where "DEFAULT_PING_MAX_COUNT = 4"
definition PING_TIMEOUT_MS :: u32 where "PING_TIMEOUT_MS = 1000"

record ping_option =
  po_count :: u32
  po_ip :: u32
  po_coarse_time :: u32
  po_recv_function :: ptr
  po_sent_function :: ptr
  po_reverse :: ptr

record ping_msg =
  pm_ping_opt :: ptr
  pm_ping_pcb :: ptr
  pm_ping_start :: u32
  pm_ping_sent :: u32
  pm_timeout_count :: u32
  pm_max_count :: u32
  pm_sent_count :: u32
  pm_coarse_time :: u32

definition ping_msg_zero :: ping_msg where
  "ping_msg_zero = \<lparr>pm_ping_opt = NULL, pm_ping_pcb = NULL, pm_ping_start = 0,
     pm_ping_sent = 0, pm_timeout_count = 0, pm_max_count = 0, pm_sent_count = 0,
     pm_coarse_time = 0\<rparr>"

record ping_resp =
  pr_total_count :: u32
  pr_resp_time :: u32
  pr_seqno :: u32
  pr_timeout_count :: u32
  pr_bytes :: u32
  pr_total_bytes :: u32
  pr_total_time :: u32
  pr_ping_err :: "8 word"

definition ping_resp_zero :: ping_resp where
  "ping_resp_zero = \<lparr>pr_total_count = 0, pr_resp_time = 0, pr_seqno = 0,
     pr_timeout_count = 0, pr_bytes = 0, pr_total_bytes = 0, pr_total_time = 0,
     pr_ping_err = 0\<rparr>"

text \<open>An ICMP echo message (RFC 792): lwIP's \<open>icmp_echo_hdr\<close> and the data behind it.\<close>

record icmp_echo =
  ie_type :: u8
  ie_code :: u8
  ie_chksum :: u16
  ie_id :: u16
  ie_seqno :: u16
  ie_data :: "u8 list"

definition ICMP_ECHO :: u8 where "ICMP_ECHO = 8"
definition ICMP_ER :: u8 where "ICMP_ER = 0"

section \<open>State\<close>

datatype ping_handler = Ping_timeout | Ping_coarse_tmr

datatype ping_call =
    Raw_recv ptr ptr
  | Raw_bind ptr
  | Raw_sendto ptr u32 icmp_echo
  | Raw_remove ptr
  | Sys_timeout u32 ping_handler ptr
  | Sys_untimeout ping_handler ptr
  | Recv_function ptr ptr ping_resp
  | Sent_function ptr ptr ping_resp
  | Eat_pbuf ptr

record ping =
  ping_seq_num :: u16
  ping_time :: u32
  recv_seqno :: u16
  ping_opts :: "ptr \<rightharpoonup> ping_option"
  ping_msgs :: "ptr \<rightharpoonup> ping_msg"
  ping_calls :: "ping_call list"

text \<open>
  What the outside answers during one operation: \<open>system_get_time\<close>, \<open>sys_now\<close>,
  \<open>system_relative_time\<close>, \<open>inet_chksum\<close>, and for \<open>pbuf_alloc\<close> whether it returns a pbuf
  and whether that is a single segment, with the bytes it happens to hold.
\<close>

record ping_answers =
  pa_time :: u32
  pa_now :: u32
  pa_relative :: "u32 \<Rightarrow> u32"
  pa_chksum :: "icmp_echo \<Rightarrow> nat \<Rightarrow> u16"
  pa_pbuf :: "(bool \<times> icmp_echo) option"

definition ping_do :: "ping_call \<Rightarrow> ping \<Rightarrow> ping" where
  "ping_do c s = s\<lparr>ping_calls := ping_calls s @ [c]\<rparr>"

section \<open>Operations\<close>

text \<open>\<open>ping_timeout\<close>: the timer of one request has run out.\<close>

definition ping_timeout :: "ptr \<Rightarrow> ping \<Rightarrow> ping option" where
  "ping_timeout pingmsg s =
     do { m \<leftarrow> deref (ping_msgs s) pingmsg;
          let s1 = s\<lparr>ping_msgs := (ping_msgs s)(pingmsg \<mapsto>
                       m\<lparr>pm_timeout_count := pm_timeout_count m + 1\<rparr>)\<rparr>;
          opt \<leftarrow> deref (ping_opts s1) (pm_ping_opt m);
          Some (if po_recv_function opt = NULL then s1
                else ping_do (Recv_function (po_recv_function opt) (pm_ping_opt m)
                       (ping_resp_zero\<lparr>pr_ping_err := -1\<rparr>)) s1) }"

text \<open>\<open>(char)i\<close> for each byte of the data behind the header.\<close>

definition echo_data :: "nat \<Rightarrow> u8 list" where
  "echo_data n = map of_nat [0..<n]"

definition ping_prepare_echo ::
  "(icmp_echo \<Rightarrow> nat \<Rightarrow> u16) \<Rightarrow> icmp_echo \<Rightarrow> nat \<Rightarrow> ping \<Rightarrow> icmp_echo \<times> ping" where
  "ping_prepare_echo chksum iecho len s =
     (let data_len = len - 8;
          seq1 = ping_seq_num s + 1;
          seq = (if seq1 = 0x7fff then 0 else seq1);
          s1 = s\<lparr>ping_seq_num := seq\<rparr>;
          e = iecho\<lparr>ie_type := ICMP_ECHO, ie_code := 0, ie_chksum := 0, ie_id := PING_ID,
                    ie_seqno := htons seq, ie_data := echo_data data_len\<rparr>
      in (e\<lparr>ie_chksum := chksum e len\<rparr>, s1))"

definition ping_send :: "ping_answers \<Rightarrow> ptr \<Rightarrow> u32 \<Rightarrow> ping \<Rightarrow> ping" where
  "ping_send A raw addr s =
     (let ping_size = 8 + PING_DATA_SIZE
      in case pa_pbuf A of
           None \<Rightarrow> s
         | Some (single, payload) \<Rightarrow>
             if single
             then let (iecho, s1) = ping_prepare_echo (pa_chksum A) payload ping_size s
                  in (ping_do (Raw_sendto raw addr iecho) s1)\<lparr>ping_time := pa_now A\<rparr>
             else s)"

text \<open>
  \<open>ping_recv\<close>: \<open>hdr\<close> is the ICMP message behind the IP header, \<open>None\<close> when \<open>pbuf_header\<close>
  refuses to move there. The result says whether the packet is eaten.
\<close>

definition ping_recv ::
  "ping_answers \<Rightarrow> ptr \<Rightarrow> ptr \<Rightarrow> icmp_echo option \<Rightarrow> ping \<Rightarrow> (u8 \<times> ping) option" where
  "ping_recv A pingmsg p hdr s =
     (case hdr of
        None \<Rightarrow> Some (0, s)
      | Some iecho \<Rightarrow>
          if ie_id iecho = PING_ID \<and> ie_seqno iecho = htons (ping_seq_num s) \<and> ie_type iecho = ICMP_ER
          then do {
            s3 \<leftarrow> (if ie_seqno iecho \<noteq> recv_seqno s
                   then do {
                     let s1 = ping_do (Sys_untimeout Ping_timeout pingmsg) s;
                     m \<leftarrow> deref (ping_msgs s1) pingmsg;
                     let delay = pa_relative A (pm_ping_sent m) div PING_COARSE;
                     opt \<leftarrow> deref (ping_opts s1) (pm_ping_opt m);
                     let s2 = (if po_recv_function opt = NULL then s1
                               else ping_do (Recv_function (po_recv_function opt) (pm_ping_opt m)
                                      (ping_resp_zero\<lparr>pr_bytes := of_nat PING_DATA_SIZE,
                                         pr_resp_time := delay,
                                         pr_seqno := ucast (ntohs (ie_seqno iecho)),
                                         pr_ping_err := 0\<rparr>)) s1);
                     Some (s2\<lparr>recv_seqno := ie_seqno iecho\<rparr>) }
                   else Some s);
            Some (1, ping_do (Eat_pbuf p) s3) }
          else Some (0, s))"

definition ping_coarse_tmr :: "ping_answers \<Rightarrow> ptr \<Rightarrow> ping \<Rightarrow> ping option" where
  "ping_coarse_tmr A pingmsg s =
     do { m0 \<leftarrow> deref (ping_msgs s) pingmsg;
          opt \<leftarrow> deref (ping_opts s) (pm_ping_opt m0);
          let ping_target = po_ip opt;
          let m = m0\<lparr>pm_sent_count := pm_sent_count m0 - 1\<rparr>;
          if pm_sent_count m \<noteq> 0
          then let s1 = s\<lparr>ping_msgs := (ping_msgs s)(pingmsg \<mapsto> m\<lparr>pm_ping_sent := pa_time A\<rparr>)\<rparr>;
                   s2 = ping_send A (pm_ping_pcb m) ping_target s1
               in Some (ping_do (Sys_timeout (pm_coarse_time m) Ping_coarse_tmr pingmsg)
                          (ping_do (Sys_timeout PING_TIMEOUT_MS Ping_timeout pingmsg) s2))
          else do {
            let s1 = s\<lparr>ping_msgs := (ping_msgs s)(pingmsg \<mapsto> m)\<rparr>;
            let delay = pa_relative A (pm_ping_start m) div PING_COARSE;
            let pingresp = ping_resp_zero\<lparr>pr_total_count := pm_max_count m,
                  pr_timeout_count := pm_timeout_count m,
                  pr_total_bytes := of_nat PING_DATA_SIZE * (pm_max_count m - pm_timeout_count m),
                  pr_total_time := delay, pr_ping_err := 0\<rparr>;
            let s2 = ping_do (Raw_remove (pm_ping_pcb m))
                       (ping_do (Sys_untimeout Ping_coarse_tmr pingmsg) s1);
            msgs \<leftarrow> os_free (ping_msgs s2) pingmsg;
            let s3 = s2\<lparr>ping_msgs := msgs\<rparr>;
            Some (if po_sent_function opt = NULL then s3
                  else ping_do (Sent_function (po_sent_function opt) (pm_ping_opt m0) pingresp) s3) } }"

text \<open>
  \<open>ping_raw_init\<close>: \<open>pcb\<close> is what \<open>raw_new\<close> returns; its assertion is compiled out, so NULL
  is dereferenced by lwIP.
\<close>

definition ping_raw_init :: "ping_answers \<Rightarrow> ptr \<Rightarrow> ptr \<Rightarrow> ping \<Rightarrow> (bool \<times> ping) option" where
  "ping_raw_init A pcb pingmsg s =
     (if pingmsg = NULL then Some (False, s)
      else do {
        m \<leftarrow> deref (ping_msgs s) pingmsg;
        if pcb = NULL then None
        else do {
          let s1 = ping_do (Raw_bind pcb) (ping_do (Raw_recv pcb pingmsg) s);
          opt \<leftarrow> deref (ping_opts s1) (pm_ping_opt m);
          let s2 = s1\<lparr>ping_msgs := (ping_msgs s1)(pingmsg \<mapsto>
                       m\<lparr>pm_ping_pcb := pcb, pm_ping_sent := pa_time A\<rparr>)\<rparr>;
          let s3 = ping_send A pcb (po_ip opt) s2;
          Some (True, ping_do (Sys_timeout (pm_coarse_time m) Ping_coarse_tmr pingmsg)
                        (ping_do (Sys_timeout PING_TIMEOUT_MS Ping_timeout pingmsg) s3)) } })"

text \<open>\<open>ping_start\<close>: \<open>a\<close> is what \<open>os_zalloc\<close> returns.\<close>

definition ping_start :: "ping_answers \<Rightarrow> ptr \<Rightarrow> ptr \<Rightarrow> ptr \<Rightarrow> ping \<Rightarrow> (bool \<times> ping) option" where
  "ping_start A a pcb ping_opt s =
     (let s1 = s\<lparr>ping_msgs := alloc (ping_msgs s) a ping_msg_zero\<rparr>
      in if a = NULL \<or> ping_opt = NULL then Some (False, s1)
         else do {
           opt \<leftarrow> deref (ping_opts s1) ping_opt;
           let maxc = (if po_count opt \<noteq> 0 then po_count opt else DEFAULT_PING_MAX_COUNT);
           let coarse = (if po_coarse_time opt \<noteq> 0 then po_coarse_time opt * PING_COARSE
                         else PING_COARSE);
           ping_raw_init A pcb a
             (s1\<lparr>ping_msgs := (ping_msgs s1)(a \<mapsto>
                ping_msg_zero\<lparr>pm_ping_opt := ping_opt, pm_max_count := maxc,
                  pm_coarse_time := coarse, pm_ping_start := pa_time A,
                  pm_sent_count := maxc\<rparr>)\<rparr>) })"

definition ping_regist_recv :: "ptr \<Rightarrow> ptr \<Rightarrow> ping \<Rightarrow> (bool \<times> ping) option" where
  "ping_regist_recv ping_opt f s =
     (if ping_opt = NULL then Some (False, s)
      else do { opt \<leftarrow> deref (ping_opts s) ping_opt;
                Some (True, s\<lparr>ping_opts := (ping_opts s)(ping_opt \<mapsto>
                              opt\<lparr>po_recv_function := f\<rparr>)\<rparr>) })"

definition ping_regist_sent :: "ptr \<Rightarrow> ptr \<Rightarrow> ping \<Rightarrow> (bool \<times> ping) option" where
  "ping_regist_sent ping_opt f s =
     (if ping_opt = NULL then Some (False, s)
      else do { opt \<leftarrow> deref (ping_opts s) ping_opt;
                Some (True, s\<lparr>ping_opts := (ping_opts s)(ping_opt \<mapsto>
                              opt\<lparr>po_sent_function := f\<rparr>)\<rparr>) })"

end
