(* ===== verification/Ping_Properties.thy ===== *)
theory Ping_Properties
  imports Ping
begin

text \<open>
  What a ping session does as a whole. The timers of lwIP are described by their contract:
  the pending ones are a queue in the order of their due times (equal times in the order of
  registration), \<open>sys_timeout\<close> adds one, \<open>sys_untimeout\<close> takes the first for that handler
  and argument away, and only the first of the queue fires. A session is run against an
  arbitrary list of events: the first timer fires, or a packet arrives.
\<close>

section \<open>The timer queue and the events of a session\<close>

type_synonym timer_queue = "(nat \<times> ping_handler \<times> ptr) list"

fun enqueue :: "nat \<times> ping_handler \<times> ptr \<Rightarrow> timer_queue \<Rightarrow> timer_queue" where
  "enqueue t [] = [t]"
| "enqueue t (u # q) = (if fst u \<le> fst t then u # enqueue t q else t # u # q)"

fun cancel :: "ping_handler \<times> ptr \<Rightarrow> timer_queue \<Rightarrow> timer_queue" where
  "cancel h [] = []"
| "cancel h (u # q) = (if snd u = h then q else u # cancel h q)"

fun after_call :: "nat \<Rightarrow> ping_call \<Rightarrow> timer_queue \<Rightarrow> timer_queue" where
  "after_call t (Sys_timeout ms h p) q = enqueue (t + unat ms, h, p) q"
| "after_call t (Sys_untimeout h p) q = cancel (h, p) q"
| "after_call t _ q = q"

text \<open>Who receives the packets: set by \<open>raw_recv\<close>, until the control block is removed.\<close>

fun listening :: "ping_call \<Rightarrow> (ptr \<times> ptr) option \<Rightarrow> (ptr \<times> ptr) option" where
  "listening (Raw_recv pcb a) l = Some (pcb, a)"
| "listening (Raw_remove pcb) l = (if map_option fst l = Some pcb then None else l)"
| "listening _ l = l"

definition listener :: "ping \<Rightarrow> (ptr \<times> ptr) option" where
  "listener s = fold listening (ping_calls s) None"

datatype ping_event =
    Fire nat ping_answers
  | Packet nat ping_answers ptr "icmp_echo option"

definition new_calls :: "ping \<Rightarrow> ping \<Rightarrow> ping_call list" where
  "new_calls s s' = drop (length (ping_calls s)) (ping_calls s')"

fun handle_event :: "ping_event \<Rightarrow> ping \<times> timer_queue \<Rightarrow> (ping \<times> timer_queue) option" where
  "handle_event (Fire t A) (s, []) = Some (s, [])"
| "handle_event (Fire t A) (s, (d, h, p) # q) =
     do { s' \<leftarrow> (case h of Ping_timeout \<Rightarrow> ping_timeout p s
                         | Ping_coarse_tmr \<Rightarrow> ping_coarse_tmr A p s);
          Some (s', fold (after_call t) (new_calls s s') q) }"
| "handle_event (Packet t A p hdr) (s, q) =
     (case listener s of
        None \<Rightarrow> Some (s, q)
      | Some (pcb, a) \<Rightarrow>
          do { (eaten, s') \<leftarrow> ping_recv A a p hdr s;
               Some (s', fold (after_call t) (new_calls s s') q) })"

primrec run_events :: "ping_event list \<Rightarrow> ping \<times> timer_queue \<Rightarrow> (ping \<times> timer_queue) option" where
  "run_events [] sq = Some sq"
| "run_events (e # es) sq = Option.bind (handle_event e sq) (run_events es)"

fun fires :: "ping_event list \<Rightarrow> nat" where
  "fires [] = 0"
| "fires (Fire t A # es) = Suc (fires es)"
| "fires (Packet t A p hdr # es) = fires es"

fun is_sendto :: "ping_call \<Rightarrow> bool" where
  "is_sendto (Raw_sendto pcb ip e) = True"
| "is_sendto _ = False"

fun is_finish :: "ping_call \<Rightarrow> bool" where
  "is_finish (Sent_function f opt r) = True"
| "is_finish _ = False"

definition requests :: "ping \<Rightarrow> nat" where
  "requests s = length (filter is_sendto (ping_calls s))"

definition finishes :: "ping \<Rightarrow> nat" where
  "finishes s = length (filter is_finish (ping_calls s))"

text \<open>\<open>pbuf_alloc\<close> gives the request its buffer.\<close>

definition buffer_given :: "ping_answers \<Rightarrow> bool" where
  "buffer_given A \<longleftrightarrow> (\<exists>e. pa_pbuf A = Some (True, e))"

fun event_answers :: "ping_event \<Rightarrow> ping_answers" where
  "event_answers (Fire t A) = A"
| "event_answers (Packet t A p hdr) = A"

section \<open>The invariant of a session\<close>

text \<open>
  A session at \<open>a\<close> with \<open>n\<close> requests in all. While it is active with \<open>k\<close> requests left to
  count down, its coarse timer is pending and the timer of the last request may be, always
  before the coarse one; \<open>w\<close> bounds how often the timers can still fire. Once it has ended
  the message is freed and nothing refers to it any more.
\<close>

definition queue_of :: "ptr \<Rightarrow> timer_queue \<Rightarrow> nat \<Rightarrow> nat \<Rightarrow> bool" where
  "queue_of a q k w \<longleftrightarrow>
     (\<exists>c. q = [(c, Ping_coarse_tmr, a)] \<and> w = 2 * k - 1)
     \<or> (\<exists>d c. d \<le> c \<and> q = [(d, Ping_timeout, a), (c, Ping_coarse_tmr, a)] \<and> w = 2 * k)"

definition active ::
  "bool \<Rightarrow> ptr \<Rightarrow> ptr \<Rightarrow> ptr \<Rightarrow> nat \<Rightarrow> nat \<Rightarrow> ping \<times> timer_queue \<Rightarrow> bool" where
  "active G a pcb po n w sq \<longleftrightarrow>
     (\<exists>m k. ping_msgs (fst sq) a = Some m \<and> unat (pm_sent_count m) = k \<and> 1 \<le> k \<and> k \<le> n
        \<and> pm_ping_opt m = po \<and> pm_ping_pcb m = pcb \<and> 1000 \<le> unat (pm_coarse_time m)
        \<and> listener (fst sq) = Some (pcb, a) \<and> queue_of a (snd sq) k w
        \<and> finishes (fst sq) = 0
        \<and> requests (fst sq) \<le> Suc n - k \<and> (G \<longrightarrow> requests (fst sq) = Suc n - k))"

definition ended :: "bool \<Rightarrow> ptr \<Rightarrow> ping_option \<Rightarrow> nat \<Rightarrow> ping \<times> timer_queue \<Rightarrow> bool" where
  "ended G a opt n sq \<longleftrightarrow>
     ping_msgs (fst sq) a = None \<and> listener (fst sq) = None \<and> snd sq = []
     \<and> finishes (fst sq) = (if po_sent_function opt = NULL then 0 else 1)
     \<and> requests (fst sq) \<le> n \<and> (G \<longrightarrow> requests (fst sq) = n)"

definition session ::
  "bool \<Rightarrow> ptr \<Rightarrow> ptr \<Rightarrow> ptr \<Rightarrow> ping_option \<Rightarrow> nat \<Rightarrow> nat \<Rightarrow> ping \<times> timer_queue \<Rightarrow> bool" where
  "session G a pcb po opt n w sq \<longleftrightarrow>
     a \<noteq> NULL \<and> po \<noteq> NULL \<and> ping_opts (fst sq) po = Some opt
     \<and> (if w = 0 then ended G a opt n sq else active G a pcb po n w sq)"

lemma ping_do_sel [simp]:
  "ping_msgs (ping_do c s) = ping_msgs s" "ping_opts (ping_do c s) = ping_opts s"
  "ping_seq_num (ping_do c s) = ping_seq_num s" "recv_seqno (ping_do c s) = recv_seqno s"
  "ping_calls (ping_do c s) = ping_calls s @ [c]"
  by (simp_all add: ping_do_def)

lemma send_sel [simp]:
  "ping_msgs (ping_send A raw ip s) = ping_msgs s"
  "ping_opts (ping_send A raw ip s) = ping_opts s"
  "recv_seqno (ping_send A raw ip s) = recv_seqno s"
  by (simp_all add: ping_send_def ping_prepare_echo_def Let_def split: option.split)

lemma send_calls:
  "\<exists>cs. ping_calls (ping_send A raw ip s) = ping_calls s @ cs
    \<and> (buffer_given A \<longrightarrow> (\<exists>e. cs = [Raw_sendto raw ip e]))
    \<and> (\<not> buffer_given A \<longrightarrow> cs = [])"
  by (auto simp: ping_send_def ping_prepare_echo_def buffer_given_def Let_def split: option.split)

lemma new_calls_append:
  "ping_calls s' = ping_calls s @ cs \<Longrightarrow> new_calls s s' = cs"
  by (simp add: new_calls_def)

lemma counts_append:
  assumes "ping_calls s' = ping_calls s @ cs"
  shows "requests s' = requests s + length (filter is_sendto cs)"
    and "finishes s' = finishes s + length (filter is_finish cs)"
    and "listener s' = fold listening cs (listener s)"
  using assms by (simp_all add: requests_def finishes_def listener_def)

section \<open>Every event keeps it\<close>

lemma fire_timeout:
  assumes S: "session G a pcb po opt n w (s, (d, Ping_timeout, a) # q)"
    and q: "q = [(c, Ping_coarse_tmr, a)]"
  shows "\<exists>s'. ping_timeout a s = Some s'
    \<and> session G a pcb po opt n (w - 1) (s', fold (after_call t) (new_calls s s') q)"
proof -
  from S have w: "w \<noteq> 0" by (cases "w = 0") (auto simp: session_def ended_def)
  with S obtain m k where m: "ping_msgs s a = Some m" "unat (pm_sent_count m) = k" "1 \<le> k"
    "w = 2 * k" "pm_ping_opt m = po" and opt: "ping_opts s po = Some opt" "po \<noteq> NULL" "a \<noteq> NULL"
    by (auto simp: session_def active_def queue_of_def)
  define s1 where "s1 = s\<lparr>ping_msgs := (ping_msgs s)(a \<mapsto>
                            m\<lparr>pm_timeout_count := pm_timeout_count m + 1\<rparr>)\<rparr>"
  define cs where "cs = (if po_recv_function opt = NULL then []
    else [Recv_function (po_recv_function opt) po (ping_resp_zero\<lparr>pr_ping_err := -1\<rparr>)])"
  define s' where "s' = s1\<lparr>ping_calls := ping_calls s @ cs\<rparr>"
  have r: "ping_timeout a s = Some s'"
    using m opt by (simp add: ping_timeout_def deref_def s1_def s'_def cs_def ping_do_def Let_def)
  have calls: "ping_calls s' = ping_calls s @ cs" by (simp add: s'_def)
  have "fold (after_call t) cs q = q" "fold listening cs (listener s) = listener s"
    "filter is_sendto cs = []" "filter is_finish cs = []"
    by (simp_all add: cs_def)
  with S w q m opt have "session G a pcb po opt n (w - 1) (s', fold (after_call t) (new_calls s s') q)"
    by (simp add: session_def active_def queue_of_def counts_append [OF calls]
        new_calls_append [OF calls]) (auto simp: s'_def s1_def)
  with r show ?thesis by blast
qed

lemma fire_coarse:
  assumes S: "session G a pcb po opt n w (s, [(c, Ping_coarse_tmr, a)])"
    and G: "G \<Longrightarrow> buffer_given A"
  shows "\<exists>s'. ping_coarse_tmr A a s = Some s'
    \<and> session G a pcb po opt n (w - 1) (s', fold (after_call t) (new_calls s s') [])"
proof -
  from S have w: "w \<noteq> 0" by (cases "w = 0") (auto simp: session_def ended_def)
  with S obtain m k where m: "ping_msgs s a = Some m" "unat (pm_sent_count m) = k" "1 \<le> k" "k \<le> n"
    "w = 2 * k - 1" "pm_ping_opt m = po" "pm_ping_pcb m = pcb" "1000 \<le> unat (pm_coarse_time m)"
    and opt: "ping_opts s po = Some opt" "po \<noteq> NULL" "a \<noteq> NULL"
    and l: "listener s = Some (pcb, a)" "finishes s = 0" "requests s \<le> Suc n - k"
      "G \<longrightarrow> requests s = Suc n - k"
    by (auto simp: session_def active_def queue_of_def)
  have k1: "unat (pm_sent_count m - 1) = k - 1"
    using m(2,3) by (metis One_nat_def Suc_le_eq measure_unat unat_1 unat_sub_if' word_le_nat_alt)
  show ?thesis
  proof (cases "k = 1")
    case True
    then have z: "pm_sent_count m = 1" using m(2) by (simp add: word_unat_eq_iff)
    define cs where "cs = [Sys_untimeout Ping_coarse_tmr a, Raw_remove pcb]
      @ (if po_sent_function opt = NULL then []
         else [Sent_function (po_sent_function opt) po
                (ping_resp_zero\<lparr>pr_total_count := pm_max_count m,
                  pr_timeout_count := pm_timeout_count m,
                  pr_total_bytes := of_nat PING_DATA_SIZE * (pm_max_count m - pm_timeout_count m),
                  pr_total_time := pa_relative A (pm_ping_start m) div PING_COARSE,
                  pr_ping_err := 0\<rparr>)])"
    define s' where "s' = s\<lparr>ping_msgs := (ping_msgs s)(a := None), ping_calls := ping_calls s @ cs\<rparr>"
    have r: "ping_coarse_tmr A a s = Some s'"
      using m opt z
      by (simp add: ping_coarse_tmr_def deref_def s'_def cs_def ping_do_def os_free_def Let_def)
    have calls: "ping_calls s' = ping_calls s @ cs" by (simp add: s'_def)
    have "session G a pcb po opt n (w - 1) (s', fold (after_call t) (new_calls s s') [])"
      using True m l opt
      by (simp add: session_def ended_def counts_append [OF calls] new_calls_append [OF calls])
         (simp add: s'_def cs_def)
    with r show ?thesis by blast
  next
    case False
    define m1 where "m1 = m\<lparr>pm_sent_count := pm_sent_count m - 1, pm_ping_sent := pa_time A\<rparr>"
    define s1 where "s1 = s\<lparr>ping_msgs := (ping_msgs s)(a \<mapsto> m1)\<rparr>"
    define s2 where "s2 = ping_send A pcb (po_ip opt) s1"
    obtain cs where cs: "ping_calls s2 = ping_calls s @ cs"
      "buffer_given A \<longrightarrow> (\<exists>e. cs = [Raw_sendto pcb (po_ip opt) e])" "\<not> buffer_given A \<longrightarrow> cs = []"
      using send_calls [of A pcb "po_ip opt" s1] by (auto simp: s2_def s1_def)
    define ts where "ts = [Sys_timeout PING_TIMEOUT_MS Ping_timeout a,
                           Sys_timeout (pm_coarse_time m) Ping_coarse_tmr a]"
    define s' where "s' = s2\<lparr>ping_calls := ping_calls s2 @ ts\<rparr>"
    have nz: "pm_sent_count m - 1 \<noteq> 0" using k1 False m(3) by auto
    have r: "ping_coarse_tmr A a s = Some s'"
      using m opt nz
      by (simp add: ping_coarse_tmr_def deref_def s'_def s2_def s1_def m1_def ts_def ping_do_def Let_def)
    have calls: "ping_calls s' = ping_calls s @ (cs @ ts)" by (simp add: s'_def cs)
    have fs: "fold (after_call t) cs [] = []" "fold listening cs (listener s) = listener s"
      "filter is_finish cs = []" "length (filter is_sendto cs) = (if buffer_given A then 1 else 0)"
      using cs by (cases "buffer_given A"; auto)+
    have q: "fold (after_call t) (cs @ ts) []
      = [(t + 1000, Ping_timeout, a), (t + unat (pm_coarse_time m), Ping_coarse_tmr, a)]"
      using m(8) fs by (simp add: ts_def PING_TIMEOUT_MS_def)
    have msgs: "ping_msgs s' a = Some m1" "ping_opts s' po = Some opt"
      using opt by (simp_all add: s'_def s2_def s1_def)
    have "session G a pcb po opt n (w - 1) (s', fold (after_call t) (new_calls s s') [])"
    proof -
      have "queue_of a (fold (after_call t) (cs @ ts) []) (k - 1) (w - 1)"
        unfolding q using m(3,5,8) False by (simp add: queue_of_def)
      then show ?thesis
        using False m l opt msgs G fs k1 unfolding session_def active_def
        by (simp add: counts_append [OF calls] new_calls_append [OF calls] m1_def)
           (auto simp: ts_def)
    qed
    with r show ?thesis by blast
  qed
qed

text \<open>The reply to the last request, when it comes for the first time.\<close>

lemma recv_answer:
  assumes "ie_id e = PING_ID" "ie_seqno e = htons (ping_seq_num s)" "ie_type e = ICMP_ER"
    and "ie_seqno e \<noteq> recv_seqno s"
    and "ping_msgs s a = Some m" "ping_opts s (pm_ping_opt m) = Some opt"
    and "a \<noteq> NULL" "pm_ping_opt m \<noteq> NULL"
  shows "ping_recv A a p (Some e) s = Some (1, s\<lparr>recv_seqno := ie_seqno e,
    ping_calls := ping_calls s @ Sys_untimeout Ping_timeout a
      # (if po_recv_function opt = NULL then []
         else [Recv_function (po_recv_function opt) (pm_ping_opt m)
           (ping_resp_zero\<lparr>pr_bytes := of_nat PING_DATA_SIZE,
              pr_resp_time := pa_relative A (pm_ping_sent m) div PING_COARSE,
              pr_seqno := ucast (ntohs (ie_seqno e)), pr_ping_err := 0\<rparr>)]) @ [Eat_pbuf p]\<rparr>)"
  using assms
  by (cases "po_recv_function opt = NULL")
     (simp_all add: ping_recv_def ping_do_def deref_def Let_def cong del: bind_weak_cong if_weak_cong)

lemma recv_again:
  assumes "ie_id e = PING_ID" "ie_seqno e = htons (ping_seq_num s)" "ie_type e = ICMP_ER"
    and "ie_seqno e = recv_seqno s"
  shows "ping_recv A a p (Some e) s = Some (1, s\<lparr>ping_calls := ping_calls s @ [Eat_pbuf p]\<rparr>)"
  using assms by (simp add: ping_recv_def ping_do_def)

lemma recv_not_ours:
  assumes "\<not> (ie_id e = PING_ID \<and> ie_seqno e = htons (ping_seq_num s) \<and> ie_type e = ICMP_ER)"
  shows "ping_recv A a p (Some e) s = Some (0, s)"
  by (simp only: ping_recv_def option.case if_not_P [OF assms])

lemma packet_kept:
  assumes S: "session G a pcb po opt n w (s, q)"
  shows "\<exists>s' q' w'. handle_event (Packet t A p hdr) (s, q) = Some (s', q')
    \<and> session G a pcb po opt n w' (s', q') \<and> w' \<le> w"
proof (cases "w = 0")
  case True
  with S show ?thesis by (auto simp: session_def ended_def)
next
  case False
  with S obtain m k where m: "ping_msgs s a = Some m" "unat (pm_sent_count m) = k" "1 \<le> k"
    "pm_ping_opt m = po" and opt: "ping_opts s po = Some opt" "po \<noteq> NULL" "a \<noteq> NULL"
    and l: "listener s = Some (pcb, a)" and q: "queue_of a q k w"
    by (auto simp: session_def active_def)
  define reply where "reply e = (if po_recv_function opt = NULL then []
    else [Recv_function (po_recv_function opt) po
           (ping_resp_zero\<lparr>pr_bytes := of_nat PING_DATA_SIZE,
              pr_resp_time := pa_relative A (pm_ping_sent m) div PING_COARSE,
              pr_seqno := ucast (ntohs (ie_seqno e)), pr_ping_err := 0\<rparr>)])" for e :: icmp_echo
  have keep: "session G a pcb po opt n w' (s\<lparr>recv_seqno := x, ping_calls := ping_calls s @ cs\<rparr>, q')"
    if "fold listening cs (listener s) = listener s" "filter is_sendto cs = []"
      "filter is_finish cs = []" "queue_of a q' k w'" for cs q' w' x
  proof -
    define s1 where "s1 = s\<lparr>recv_seqno := x, ping_calls := ping_calls s @ cs\<rparr>"
    have c: "ping_calls s1 = ping_calls s @ cs" by (simp add: s1_def)
    have "w' \<noteq> 0" using that(4) m(3) by (auto simp: queue_of_def)
    with S False that have "session G a pcb po opt n w' (s1, q')"
      unfolding session_def active_def counts_append [OF c] using m
      by (simp add: counts_append [OF c]) (auto simp: s1_def)
    then show ?thesis by (simp only: s1_def)
  qed
  consider (not_ours) "ping_recv A a p hdr s = Some (0, s)"
    | (again) "ping_recv A a p hdr s = Some (1, s\<lparr>ping_calls := ping_calls s @ [Eat_pbuf p]\<rparr>)"
    | (answer) e where "ping_recv A a p hdr s = Some (1, s\<lparr>recv_seqno := ie_seqno e,
          ping_calls := ping_calls s @ Sys_untimeout Ping_timeout a # reply e @ [Eat_pbuf p]\<rparr>)"
  proof (cases hdr)
    case None
    then show ?thesis using not_ours by (simp add: ping_recv_def)
  next
    case (Some e)
    define ours where "ours \<longleftrightarrow> ie_id e = PING_ID \<and> ie_seqno e = htons (ping_seq_num s)
      \<and> ie_type e = ICMP_ER"
    show ?thesis
    proof (cases "ours \<and> ie_seqno e \<noteq> recv_seqno s")
      case True
      then have "ping_recv A a p hdr s = Some (1, s\<lparr>recv_seqno := ie_seqno e,
          ping_calls := ping_calls s @ Sys_untimeout Ping_timeout a # reply e @ [Eat_pbuf p]\<rparr>)"
        unfolding Some reply_def using recv_answer [of e s a m opt A p] m opt ours_def by blast
      then show ?thesis by (rule answer)
    next
      case False
      show ?thesis
      proof (cases ours)
        case True
        with False have "ie_seqno e = recv_seqno s" by simp
        with recv_again [of e s A a p] True Some show ?thesis by (intro again) (simp add: ours_def)
      next
        case False
        with recv_not_ours [of e s A a p] Some show ?thesis by (intro not_ours) (simp add: ours_def)
      qed
    qed
  qed
  then show ?thesis
  proof cases
    case not_ours
    with S l show ?thesis by (auto simp: new_calls_def)
  next
    case again
    with keep [of "[Eat_pbuf p]" q w "recv_seqno s"] l q show ?thesis
      by (auto simp: new_calls_def)
  next
    case answer
    define cs where "cs = Sys_untimeout Ping_timeout a # reply e @ [Eat_pbuf p]"
    have f: "fold (after_call t) cs q = cancel (Ping_timeout, a) q"
      "fold listening cs (listener s) = listener s"
      "filter is_sendto cs = []" "filter is_finish cs = []"
      by (simp_all add: cs_def reply_def)
    from q obtain w' where "queue_of a (cancel (Ping_timeout, a) q) k w'" "w' \<le> w"
      by (auto simp: queue_of_def)
    with keep [of cs _ w' "ie_seqno e"] f l answer show ?thesis
      by (auto simp: new_calls_def cs_def)
  qed
qed

lemma event_kept:
  assumes S: "session G a pcb po opt n w sq" and G: "G \<Longrightarrow> buffer_given (event_answers e)"
  shows "\<exists>sq' w'. handle_event e sq = Some sq' \<and> session G a pcb po opt n w' sq'
    \<and> w' \<le> w - fires [e]"
proof -
  obtain s q where sq: "sq = (s, q)" by (cases sq)
  show ?thesis
  proof (cases e)
    case (Packet t A p hdr)
    with packet_kept [of G a pcb po opt n w s q t A p hdr] S sq show ?thesis by auto
  next
    case (Fire t A)
    show ?thesis
    proof (cases "w = 0")
      case True
      with S sq Fire show ?thesis by (auto simp: session_def ended_def)
    next
      case False
      with S sq obtain k where "queue_of a q k w" by (auto simp: session_def active_def)
      then consider (coarse) c where "q = [(c, Ping_coarse_tmr, a)]"
        | (timeout) d c where "q = [(d, Ping_timeout, a), (c, Ping_coarse_tmr, a)]"
        by (auto simp: queue_of_def)
      then show ?thesis
      proof cases
        case coarse
        with fire_coarse [of G a pcb po opt n w s c A t] S sq Fire G show ?thesis by auto
      next
        case timeout
        with fire_timeout [of G a pcb po opt n w s d _ c t] S sq Fire show ?thesis by auto
      qed
    qed
  qed
qed

lemma run_kept:
  assumes "session G a pcb po opt n w sq" "G \<Longrightarrow> \<forall>e \<in> set es. buffer_given (event_answers e)"
  shows "\<exists>sq' w'. run_events es sq = Some sq' \<and> session G a pcb po opt n w' sq'
    \<and> w' \<le> w - fires es"
  using assms
proof (induction es arbitrary: w sq)
  case Nil
  then show ?case by auto
next
  case (Cons e es)
  obtain sq1 w1 where e: "handle_event e sq = Some sq1" "session G a pcb po opt n w1 sq1"
    "w1 \<le> w - fires [e]"
    using event_kept [of G a pcb po opt n w sq e] Cons.prems by auto
  obtain sq2 w2 where r: "run_events es sq1 = Some sq2" "session G a pcb po opt n w2 sq2"
    "w2 \<le> w1 - fires es"
    using Cons.IH [OF e(2)] Cons.prems(2) by auto
  have "fires (e # es) = fires [e] + fires es" by (cases e) auto
  with e r show ?case by auto
qed

section \<open>Starting a session\<close>

definition ping_total :: "ping_option \<Rightarrow> nat" where
  "ping_total opt = (if po_count opt = 0 then 4 else unat (po_count opt))"

text \<open>The interval in milliseconds, which the code keeps in 32 bits, without overflow.\<close>

definition interval_fits :: "ping_option \<Rightarrow> bool" where
  "interval_fits opt \<longleftrightarrow> unat (po_coarse_time opt) * 1000 < 2 ^ 32"

lemma start_session:
  assumes opt: "ping_opts s po = Some opt" "po \<noteq> NULL" and a: "a \<noteq> NULL" and pcb: "pcb \<noteq> NULL"
    and calls: "ping_calls s = []" and fits: "interval_fits opt"
    and G: "G \<Longrightarrow> buffer_given A"
  shows "\<exists>s'. ping_start A a pcb po s = Some (True, s')
    \<and> session G a pcb po opt (ping_total opt) (2 * ping_total opt)
        (s', fold (after_call t) (new_calls s s') [])"
proof -
  define n where "n = (if po_count opt \<noteq> 0 then po_count opt else DEFAULT_PING_MAX_COUNT)"
  define C where "C = (if po_coarse_time opt \<noteq> 0 then po_coarse_time opt * PING_COARSE else PING_COARSE)"
  have n: "unat n = ping_total opt" "1 \<le> ping_total opt"
    by (simp_all add: n_def ping_total_def DEFAULT_PING_MAX_COUNT_def Suc_le_eq unat_gt_0)
  have C: "1000 \<le> unat C"
  proof (cases "po_coarse_time opt = 0")
    case True
    then show ?thesis by (simp add: C_def PING_COARSE_def)
  next
    case False
    then have "1 \<le> unat (po_coarse_time opt)" by (simp add: Suc_le_eq unat_gt_0)
    moreover have "unat (po_coarse_time opt * 1000) = unat (po_coarse_time opt) * 1000"
      using fits by (simp add: interval_fits_def unat_word_ariths(2))
    ultimately show ?thesis using False by (simp add: C_def PING_COARSE_def)
  qed
  define m where "m = ping_msg_zero\<lparr>pm_ping_opt := po, pm_max_count := n, pm_coarse_time := C,
    pm_ping_start := pa_time A, pm_sent_count := n, pm_ping_pcb := pcb, pm_ping_sent := pa_time A\<rparr>"
  define s1 where "s1 = s\<lparr>ping_calls := [Raw_recv pcb a, Raw_bind pcb],
                          ping_msgs := (ping_msgs s)(a \<mapsto> m)\<rparr>"
  define s2 where "s2 = ping_send A pcb (po_ip opt) s1"
  obtain cs where cs: "ping_calls s2 = [Raw_recv pcb a, Raw_bind pcb] @ cs"
    "buffer_given A \<longrightarrow> (\<exists>e. cs = [Raw_sendto pcb (po_ip opt) e])" "\<not> buffer_given A \<longrightarrow> cs = []"
    using send_calls [of A pcb "po_ip opt" s1] by (auto simp: s2_def s1_def)
  define ts where "ts = [Sys_timeout PING_TIMEOUT_MS Ping_timeout a,
                         Sys_timeout C Ping_coarse_tmr a]"
  define s' where "s' = s2\<lparr>ping_calls := ping_calls s2 @ ts\<rparr>"
  have r: "ping_start A a pcb po s = Some (True, s')"
    using opt a pcb calls
    by (simp add: ping_start_def ping_raw_init_def deref_def alloc_def s'_def s2_def s1_def m_def
        ts_def n_def [symmetric] C_def [symmetric] ping_do_def Let_def)
  have nc: "ping_calls s' = ping_calls s @ ([Raw_recv pcb a, Raw_bind pcb] @ cs @ ts)"
    by (simp add: s'_def cs calls)
  have z: "requests s = 0" "finishes s = 0" "listener s = None"
    by (simp_all add: requests_def finishes_def listener_def calls)
  have fs: "fold (after_call t) cs [] = []" "fold listening cs l = l"
    "filter is_finish cs = []" "length (filter is_sendto cs) = (if buffer_given A then 1 else 0)" for l
    using cs by (cases "buffer_given A"; auto)+
  have q: "fold (after_call t) ([Raw_recv pcb a, Raw_bind pcb] @ cs @ ts) []
      = [(t + 1000, Ping_timeout, a), (t + unat C, Ping_coarse_tmr, a)]"
    using C fs by (simp add: ts_def PING_TIMEOUT_MS_def)
  have "queue_of a [(t + 1000, Ping_timeout, a), (t + unat C, Ping_coarse_tmr, a)]
          (ping_total opt) (2 * ping_total opt)"
    using C by (simp add: queue_of_def)
  moreover have "ping_msgs s' a = Some m" "ping_opts s' po = Some opt"
    using opt by (simp_all add: s'_def s2_def s1_def)
  ultimately have "session G a pcb po opt (ping_total opt) (2 * ping_total opt)
      (s', fold (after_call t) (new_calls s s') [])"
    using opt a n C fs z G unfolding session_def active_def
    by (simp add: counts_append [OF nc] new_calls_append [OF nc] q m_def) (auto simp: ts_def PING_TIMEOUT_MS_def)
  with r show ?thesis by blast
qed

section \<open>Properties\<close>

text \<open>
  C32: A ping session always ends, and without a memory error. After \<open>ping_start\<close>, whatever
  packets arrive and however late the timers fire, no event goes wrong; at most as many
  requests as asked for (4 when the option asks for 0) are sent; and once the timers have
  fired twice per request the session is over: the message is freed, no timer refers to it,
  its control block is removed, the application has been told exactly once, and exactly the
  requests asked for were sent (when every \<open>pbuf_alloc\<close> succeeds). The interval must not
  overflow its 32 bits of milliseconds.
\<close>

theorem ping_session_ends:
  assumes "ping_opts s po = Some opt" "po \<noteq> NULL" "a \<noteq> NULL" "pcb \<noteq> NULL"
    and "ping_calls s = []" "interval_fits opt"
  shows "\<exists>s0 s1 q. ping_start A a pcb po s = Some (True, s0)
    \<and> run_events es (s0, fold (after_call t) (new_calls s s0) []) = Some (s1, q)
    \<and> requests s1 \<le> ping_total opt
    \<and> (2 * ping_total opt \<le> fires es \<longrightarrow>
         ping_msgs s1 a = None \<and> q = [] \<and> listener s1 = None
         \<and> finishes s1 = (if po_sent_function opt = NULL then 0 else 1)
         \<and> ((\<forall>B \<in> set (A # map event_answers es). buffer_given B)
              \<longrightarrow> requests s1 = ping_total opt))"
proof -
  define G where "G \<longleftrightarrow> (\<forall>B \<in> set (A # map event_answers es). buffer_given B)"
  then have G: "G \<Longrightarrow> buffer_given A" "G \<Longrightarrow> \<forall>e \<in> set es. buffer_given (event_answers e)" by auto
  obtain s0 where s0: "ping_start A a pcb po s = Some (True, s0)"
    "session G a pcb po opt (ping_total opt) (2 * ping_total opt)
       (s0, fold (after_call t) (new_calls s s0) [])"
    using start_session [OF assms G(1)] by blast
  obtain s1 q w where r:
    "run_events es (s0, fold (after_call t) (new_calls s s0) []) = Some (s1, q)"
    "session G a pcb po opt (ping_total opt) w (s1, q)" "w \<le> 2 * ping_total opt - fires es"
    using run_kept [OF s0(2), of es] G(2) by (metis surj_pair)
  show ?thesis
  proof (cases "w = 0")
    case True
    with r s0(1) show ?thesis
      unfolding G_def [symmetric] by (auto simp: session_def ended_def)
  next
    case False
    with r have "requests s1 \<le> ping_total opt" "fires es < 2 * ping_total opt"
      by (auto simp: session_def active_def)
    with r(1) s0(1) show ?thesis by auto
  qed
qed

definition sample_opt :: "u32 \<Rightarrow> ping_option" where
  "sample_opt coarse = \<lparr>po_count = 1, po_ip = 0x0104A8C0, po_coarse_time = coarse,
     po_recv_function = NULL, po_sent_function = 7, po_reverse = NULL\<rparr>"

definition sample_ping :: "u32 \<Rightarrow> ping" where
  "sample_ping coarse = \<lparr>ping_seq_num = 0, ping_time = 0, recv_seqno = 0,
     ping_opts = [64 \<mapsto> sample_opt coarse], ping_msgs = Map.empty, ping_calls = []\<rparr>"

definition sample_answers :: ping_answers where
  "sample_answers = \<lparr>pa_time = 5, pa_now = 5, pa_relative = (\<lambda>t. 2000), pa_chksum = (\<lambda>e n. 0),
     pa_pbuf = Some (True, \<lparr>ie_type = 0, ie_code = 0, ie_chksum = 0, ie_id = 0, ie_seqno = 0,
                            ie_data = []\<rparr>)\<rparr>"

theorem ping_session_ends_witness:
  "\<exists>s0 s1 q. ping_start sample_answers 80 96 64 (sample_ping 1) = Some (True, s0)
    \<and> run_events [Packet 10 sample_answers 5 None, Fire 1000 sample_answers, Fire 1000 sample_answers]
        (s0, fold (after_call 0) (new_calls (sample_ping 1) s0) []) = Some (s1, q)
    \<and> ping_msgs s1 80 = None \<and> q = [] \<and> finishes s1 = 1 \<and> requests s1 = 1"
  using ping_session_ends [of "sample_ping 1" 64 "sample_opt 1" 80 96 sample_answers
      "[Packet 10 sample_answers 5 None, Fire 1000 sample_answers, Fire 1000 sample_answers]" 0]
  by (auto simp: sample_ping_def sample_opt_def interval_fits_def ping_total_def
      buffer_given_def sample_answers_def)

text \<open>
  C33: The interval is multiplied into 32 bits. When \<open>coarse_time\<close> overflows to less than the
  timeout of a request, the session ends and frees its message while the timer of the last
  request is still pending, and that timer then runs on freed memory. For instance an
  interval of 4294968 s, with a single request, ends after 704 ms.
\<close>

theorem ping_interval_overflow_use_after_free:
  assumes "unat (po_coarse_time opt) * 1000 = 2 ^ 32 + ms" "ms < 1000"
    and "ping_opts s po = Some opt" "po \<noteq> NULL" "a \<noteq> NULL" "pcb \<noteq> NULL"
    and "ping_calls s = []" "po_count opt = 1"
  shows "\<exists>s0. ping_start A a pcb po s = Some (True, s0)
    \<and> run_events [Fire u B, Fire v C] (s0, fold (after_call t) (new_calls s s0) []) = None"
proof -
  define w where "w = po_coarse_time opt * PING_COARSE"
  have nz: "po_coarse_time opt \<noteq> 0" using assms(1) by auto
  have w: "unat w = ms"
  proof -
    have "unat w = unat (po_coarse_time opt) * 1000 mod 2 ^ 32"
      by (simp add: w_def PING_COARSE_def unat_word_ariths(2))
    then show ?thesis unfolding assms(1) using assms(2) by simp
  qed
  define m where "m = ping_msg_zero\<lparr>pm_ping_opt := po, pm_max_count := 1, pm_coarse_time := w,
    pm_ping_start := pa_time A, pm_sent_count := 1, pm_ping_pcb := pcb, pm_ping_sent := pa_time A\<rparr>"
  define s1 where "s1 = s\<lparr>ping_calls := [Raw_recv pcb a, Raw_bind pcb],
                          ping_msgs := (ping_msgs s)(a \<mapsto> m)\<rparr>"
  define s2 where "s2 = ping_send A pcb (po_ip opt) s1"
  obtain cs where cs: "ping_calls s2 = [Raw_recv pcb a, Raw_bind pcb] @ cs"
    "fold (after_call t) cs [] = []"
    using send_calls [of A pcb "po_ip opt" s1]
    by (cases "buffer_given A") (auto simp: s2_def s1_def)
  define s' where "s' = s2\<lparr>ping_calls := ping_calls s2
    @ [Sys_timeout PING_TIMEOUT_MS Ping_timeout a, Sys_timeout w Ping_coarse_tmr a]\<rparr>"
  have r: "ping_start A a pcb po s = Some (True, s')"
    using assms nz
    by (simp add: ping_start_def ping_raw_init_def deref_def alloc_def s'_def s2_def s1_def m_def
        w_def [symmetric] ping_do_def Let_def)
  have "new_calls s s' = [Raw_recv pcb a, Raw_bind pcb] @ cs
      @ [Sys_timeout PING_TIMEOUT_MS Ping_timeout a, Sys_timeout w Ping_coarse_tmr a]"
    using cs assms by (simp add: new_calls_def s'_def)
  then have q: "fold (after_call t) (new_calls s s') []
      = [(t + ms, Ping_coarse_tmr, a), (t + 1000, Ping_timeout, a)]"
    using cs(2) w assms(2) by (simp add: PING_TIMEOUT_MS_def)
  have st: "ping_msgs s' a = Some m" "ping_opts s' po = Some opt"
    using assms by (simp_all add: s'_def s2_def s1_def)
  then obtain s3 where s3: "ping_coarse_tmr B a s' = Some s3" "ping_msgs s3 a = None"
      "\<exists>ds. ping_calls s3 = ping_calls s' @ ds
          \<and> (\<forall>q. fold (after_call u) ds q = cancel (Ping_coarse_tmr, a) q)"
    using assms(4,5)
    by (cases "po_sent_function opt = NULL")
       (simp_all add: ping_coarse_tmr_def deref_def os_free_def m_def ping_do_def Let_def)
  then have "fold (after_call u) (new_calls s' s3) [(t + 1000, Ping_timeout, a)]
      = [(t + 1000, Ping_timeout, a)]"
    using new_calls_append by fastforce
  with s3 have "run_events [Fire u B, Fire v C] (s', [(t + ms, Ping_coarse_tmr, a), (t + 1000, Ping_timeout, a)])
      = None"
    by (simp add: ping_timeout_def deref_def)
  with r q show ?thesis by simp
qed

theorem ping_interval_overflow_witness:
  "\<exists>s0. ping_start sample_answers 80 96 64 (sample_ping 4294968) = Some (True, s0)
    \<and> run_events [Fire 704 sample_answers, Fire 1000 sample_answers]
        (s0, fold (after_call 0) (new_calls (sample_ping 4294968) s0) []) = None"
  using ping_interval_overflow_use_after_free [of "sample_opt 4294968" 704 "sample_ping 4294968" 64
      80 96 sample_answers 704 sample_answers 1000 sample_answers 0]
  by (simp add: sample_ping_def sample_opt_def)

end
