(* ===== verification/Espconn_State.thy ===== *)
theory Espconn_State
  imports C_Heap Ring_Buffer Glue_Error
begin

text \<open>
  Data of the espconn interface (\<^verbatim>\<open>lwip/apps-esp/espconn.h\<close>): the application's connection
  descriptors, the control messages that \<^verbatim>\<open>espconn.c\<close>, \<^verbatim>\<open>espconn_tcp.c\<close> and
  \<^verbatim>\<open>espconn_udp.c\<close> keep for them in two linked lists, and the buffers still to be sent.
  Every structure type that is reached through pointers has a heap. Of the control blocks
  of lwIP 2 the model has the fields that espconn reads or writes; the functions of lwIP 2
  and of the SDK, and the callbacks of the application, are the environment \<open>ec_env\<close>, and
  all calls of them are recorded in order.
\<close>

section \<open>Constants\<close>

definition ESPCONN_OK :: err_t where "ESPCONN_OK = 0"
definition ESPCONN_MEM :: err_t where "ESPCONN_MEM = -1"
definition ESPCONN_TIMEOUT :: err_t where "ESPCONN_TIMEOUT = -3"
definition ESPCONN_RTE :: err_t where "ESPCONN_RTE = -4"
definition ESPCONN_INPROGRESS :: err_t where "ESPCONN_INPROGRESS = -5"
definition ESPCONN_MAXNUM :: err_t where "ESPCONN_MAXNUM = -7"
definition ESPCONN_CLSD :: err_t where "ESPCONN_CLSD = -10"
definition ESPCONN_CONN :: err_t where "ESPCONN_CONN = -11"
definition ESPCONN_ARG :: err_t where "ESPCONN_ARG = -12"
definition ESPCONN_IF :: err_t where "ESPCONN_IF = -14"
definition ESPCONN_ISCONN :: err_t where "ESPCONN_ISCONN = -15"

lemmas espconn_errs = ESPCONN_OK_def ESPCONN_MEM_def ESPCONN_TIMEOUT_def ESPCONN_RTE_def
  ESPCONN_INPROGRESS_def ESPCONN_MAXNUM_def ESPCONN_CLSD_def ESPCONN_CONN_def ESPCONN_ARG_def
  ESPCONN_IF_def ESPCONN_ISCONN_def

definition ESPCONN_STA :: u8 where "ESPCONN_STA = 1"
definition ESPCONN_AP :: u8 where "ESPCONN_AP = 2"
definition ESPCONN_AP_STA :: u8 where "ESPCONN_AP_STA = 3"

datatype espconn_type = ESPCONN_INVALID | ESPCONN_TCP | ESPCONN_UDP

datatype espconn_state =
    ESPCONN_NONE | ESPCONN_WAIT | ESPCONN_LISTEN | ESPCONN_CONNECT
  | ESPCONN_WRITE | ESPCONN_READ | ESPCONN_CLOSE

text \<open>The bits of \<open>enum espconn_option\<close>, the levels of the keep-alive and the modes.\<close>

definition ESPCONN_REUSEADDR :: u32 where "ESPCONN_REUSEADDR = 0x01"
definition ESPCONN_NODELAY :: u32 where "ESPCONN_NODELAY = 0x02"
definition ESPCONN_COPY :: u32 where "ESPCONN_COPY = 0x04"
definition ESPCONN_KEEPALIVE :: u32 where "ESPCONN_KEEPALIVE = 0x08"
definition ESPCONN_MANUALRECV :: u32 where "ESPCONN_MANUALRECV = 0x10"

definition ESPCONN_KEEPIDLE :: u8 where "ESPCONN_KEEPIDLE = 0"
definition ESPCONN_KEEPINTVL :: u8 where "ESPCONN_KEEPINTVL = 1"
definition ESPCONN_KEEPCNT :: u8 where "ESPCONN_KEEPCNT = 2"

definition ESPCONN_TCPSERVER_MODE :: u8 where "ESPCONN_TCPSERVER_MODE = 1"
definition ESPCONN_TCPCLIENT_MODE :: u8 where "ESPCONN_TCPCLIENT_MODE = 2"

definition linkMax :: nat where "linkMax = 15"

datatype espconn_sig = SIG_ESPCONN_WRITE | SIG_ESPCONN_ERRER | SIG_ESPCONN_CLOSE

section \<open>Structures\<close>

text \<open>A C \<open>int\<close> that is only copied and compared is a 32-bit word.\<close>

record esp_tcp =
  et_remote_port :: u32
  et_local_port :: u32
  et_local_ip :: "u8 list"
  et_remote_ip :: "u8 list"
  et_connect_callback :: ptr
  et_reconnect_callback :: ptr
  et_disconnect_callback :: ptr
  et_write_finish_fn :: ptr

record esp_udp =
  eu_remote_port :: u32
  eu_local_port :: u32
  eu_local_ip :: "u8 list"
  eu_remote_ip :: "u8 list"

record remot_info =
  ri_state :: espconn_state
  ri_remote_port :: u32
  ri_remote_ip :: "u8 list"

text \<open>\<open>es_proto\<close> is the union of the pointers to \<open>esp_tcp\<close> and \<open>esp_udp\<close>.\<close>

record espconn =
  es_type :: espconn_type
  es_state :: espconn_state
  es_proto :: ptr
  es_recv_callback :: ptr
  es_sent_callback :: ptr
  es_link_cnt :: u8
  es_reverse :: ptr

record espconn_packet =
  ep_sent_length :: u16
  ep_snd_buf_size :: u16
  ep_snd_queuelen :: u16
  ep_total_queuelen :: u16
  ep_packseqno :: u32
  ep_packseq_nxt :: u32
  ep_packnum :: u32

record espconn_buf =
  eb_payload :: ptr
  eb_punsent :: ptr
  eb_unsent :: u16
  eb_len :: u16
  eb_tot_len :: u16
  eb_pnext :: ptr

record comon_pkt =
  cp_pcb :: ptr
  cp_remote_port :: u32
  cp_remote_ip :: "u8 list"
  cp_local_port :: u32
  cp_local_ip :: u32
  cp_pbuf :: ptr
  cp_ptail :: ptr
  cp_ptrbuf :: ptr
  cp_cntr :: u16
  cp_err :: err_t
  cp_timeout :: u32
  cp_recv_check :: u32
  cp_pbuf_num :: u8
  cp_packet_info :: espconn_packet
  cp_write_flag :: bool
  cp_espconn_opt :: u32

record espconn_msg =
  ms_pespconn :: ptr
  ms_pcommon :: comon_pkt
  ms_count_opt :: u8
  ms_espconn_mode :: u8
  ms_hs_status :: u16
  ms_preverse :: ptr
  ms_pssl :: ptr
  ms_pnext :: ptr
  ms_recv_hold_flag :: u8
  ms_recv_holded_buf_Len :: u16
  ms_readbuf :: "ringbuf option"

definition packet_zero :: espconn_packet where
  "packet_zero = \<lparr>ep_sent_length = 0, ep_snd_buf_size = 0, ep_snd_queuelen = 0,
     ep_total_queuelen = 0, ep_packseqno = 0, ep_packseq_nxt = 0, ep_packnum = 0\<rparr>"

definition remot_zero :: remot_info where
  "remot_zero = \<lparr>ri_state = ESPCONN_NONE, ri_remote_port = 0, ri_remote_ip = [0, 0, 0, 0]\<rparr>"

text \<open>What \<open>os_zalloc\<close> makes of the structures.\<close>

definition buf_zero :: espconn_buf where
  "buf_zero = \<lparr>eb_payload = NULL, eb_punsent = NULL, eb_unsent = 0, eb_len = 0, eb_tot_len = 0,
     eb_pnext = NULL\<rparr>"

definition msg_zero :: espconn_msg where
  "msg_zero = \<lparr>ms_pespconn = NULL,
     ms_pcommon = \<lparr>cp_pcb = NULL, cp_remote_port = 0, cp_remote_ip = [0, 0, 0, 0],
       cp_local_port = 0, cp_local_ip = 0, cp_pbuf = NULL, cp_ptail = NULL, cp_ptrbuf = NULL,
       cp_cntr = 0, cp_err = 0, cp_timeout = 0, cp_recv_check = 0, cp_pbuf_num = 0,
       cp_packet_info = packet_zero, cp_write_flag = False, cp_espconn_opt = 0\<rparr>,
     ms_count_opt = 0, ms_espconn_mode = 0, ms_hs_status = 0, ms_preverse = NULL,
     ms_pssl = NULL, ms_pnext = NULL, ms_recv_hold_flag = 0, ms_recv_holded_buf_Len = 0,
     ms_readbuf = None\<rparr>"

definition espconn_zero :: espconn where
  "espconn_zero = \<lparr>es_type = ESPCONN_INVALID, es_state = ESPCONN_NONE, es_proto = NULL,
     es_recv_callback = NULL, es_sent_callback = NULL, es_link_cnt = 0, es_reverse = NULL\<rparr>"

definition esp_tcp_zero :: esp_tcp where
  "esp_tcp_zero = \<lparr>et_remote_port = 0, et_local_port = 0, et_local_ip = [0, 0, 0, 0],
     et_remote_ip = [0, 0, 0, 0], et_connect_callback = NULL, et_reconnect_callback = NULL,
     et_disconnect_callback = NULL, et_write_finish_fn = NULL\<rparr>"

section \<open>Control blocks of lwIP 2\<close>

datatype tcp_state =
    CLOSED | LISTEN | SYN_SENT | SYN_RCVD | ESTABLISHED | FIN_WAIT_1 | FIN_WAIT_2
  | CLOSE_WAIT | CLOSING | LAST_ACK | TIME_WAIT

record tcp_pcb =
  tp_state :: tcp_state
  tp_local_port :: u16
  tp_remote_port :: u16
  tp_local_ip :: u32
  tp_remote_ip :: u32
  tp_snd_buf :: u16
  tp_snd_queuelen :: u16
  tp_mss :: u16
  tp_nrtx :: u8
  tp_rcv_nxt :: u32
  tp_snd_nxt :: u32
  tp_nodelay :: bool
  tp_keepalive :: bool
  tp_keep_idle :: u32
  tp_keep_intvl :: u32
  tp_keep_cnt :: u32
  tp_tmr :: u32
  tp_next :: ptr

record udp_pcb =
  up_remote_ip :: u32
  up_remote_port :: u16

record pbuf_seg =
  sg_payload :: "u8 list"
  sg_next :: ptr
  sg_tot_len :: u16
  sg_ref :: nat

record lwip =
  lw_pbufs :: "ptr \<rightharpoonup> pbuf_seg"
  lw_tcp :: "ptr \<rightharpoonup> tcp_pcb"
  lw_udp :: "ptr \<rightharpoonup> udp_pcb"
  lw_bound :: ptr
  lw_active :: ptr
  lw_tw :: ptr
  lw_ticks :: u32

section \<open>State and environment\<close>

datatype lwip_handler =
    No_handler | Client_recv | Client_sent | Client_err | Client_connect
  | Server_recv | Server_sent | Server_poll | Server_err | Accept_handler | Tcp_recv_handler
  | Udp_recv_handler

datatype (plugins only: code size) ec_call =
    Connect_callback ptr ptr
  | Reconnect_callback ptr ptr err_t
  | Disconnect_callback ptr ptr
  | Write_finish_fn ptr ptr
  | Recv_callback ptr ptr "u8 list option" nat
  | Sent_callback ptr ptr
  | Ets_post espconn_sig ptr
  | Tcp_new | Tcp_arg ptr ptr | Tcp_bind ptr u16 | Tcp_connect ptr u32 u16 | Tcp_listen ptr
  | Tcp_accept ptr lwip_handler | Tcp_recv ptr lwip_handler | Tcp_sent ptr lwip_handler
  | Tcp_err ptr lwip_handler | Tcp_poll ptr lwip_handler nat | Tcp_recved ptr u16
  | Tcp_write ptr ptr u16 u8 | Tcp_output ptr | Tcp_close ptr | Tcp_abort ptr
  | Tcp_abandon ptr | Tcp_pcb_remove ptr | Tcp_pcb_purge ptr | Memp_free ptr
  | Udp_new | Udp_bind ptr u16 | Udp_recv ptr ptr | Udp_send ptr "u8 list"
  | Udp_sendto ptr "u8 list" u32 u16 | Udp_disconnect ptr | Udp_remove ptr
  | Set_default ptr | Pbuf_alloc nat | Pbuf_copy ptr ptr | Pbuf_copy_partial ptr nat
  | Free_pbuf ptr
  | Igmp_leavegroup u32 u32 | Igmp_joingroup u32 u32
  | Dns_setserver u8 u32 | Dns_gethostbyname ptr ptr
  | Answered ec_call err_t

record ec =
  espconns :: "ptr \<rightharpoonup> espconn"
  esp_tcps :: "ptr \<rightharpoonup> esp_tcp"
  esp_udps :: "ptr \<rightharpoonup> esp_udp"
  ec_msgs :: "ptr \<rightharpoonup> espconn_msg"
  ec_bufs :: "ptr \<rightharpoonup> espconn_buf"
  plink_active :: ptr
  pserver_list :: ptr
  premot :: "remot_info list"
  pktinfo :: "espconn_packet list"
  ec_lwip :: lwip
  ec_calls :: "ec_call list"

text \<open>
  The environment. The error codes of lwIP 2, and the maximum segment
  size and \<open>IP_FRAG_MAX_MTU\<close> of the build; what
  a call answers (an error, a pointer, bytes), what a call does to the structures of lwIP,
  and what a callback of the application does to the state; the memory of the application
  that is sent from; and what the SDK answers about the interfaces.
\<close>

record ec_env =
  ee_errs :: git_errs
  ee_mss :: nat
  ee_frag_mtu :: nat
  ee_err :: "ec_call \<Rightarrow> ec \<Rightarrow> err_t"
  ee_ptr :: "ec_call \<Rightarrow> ec \<Rightarrow> ptr"
  ee_bytes :: "ec_call \<Rightarrow> ec \<Rightarrow> u8 list"
  ee_lwip :: "ec_call \<Rightarrow> ec \<Rightarrow> lwip"
  ee_user :: "ec_call \<Rightarrow> ec \<Rightarrow> ec"
  ee_mem :: "ptr \<Rightarrow> u8"
  ee_opmode :: u8
  ee_default_interface :: u8
  ee_getif :: "nat \<Rightarrow> ptr"
  ee_is_up :: "ptr \<Rightarrow> bool"
  ee_isbroadcast :: "u32 \<Rightarrow> ptr \<Rightarrow> bool"
  ee_ip_info :: "nat \<Rightarrow> u32 \<times> u32"
  ee_connect_status :: u8
  ee_station_got_ip :: u8
  ee_station_idle :: u8

text \<open>A call of lwIP, those with an answer (a call that returns an error is recorded with it),
  and a callback of the application.\<close>

definition ec_do :: "ec_env \<Rightarrow> ec_call \<Rightarrow> ec \<Rightarrow> ec" where
  "ec_do E c s = s\<lparr>ec_lwip := ee_lwip E c s, ec_calls := ec_calls s @ [c]\<rparr>"

definition ec_ask :: "ec_env \<Rightarrow> ec_call \<Rightarrow> ec \<Rightarrow> err_t \<times> ec" where
  "ec_ask E c s = (ee_err E c s,
     s\<lparr>ec_lwip := ee_lwip E c s, ec_calls := ec_calls s @ [Answered c (ee_err E c s)]\<rparr>)"

definition ec_new :: "ec_env \<Rightarrow> ec_call \<Rightarrow> ec \<Rightarrow> ptr \<times> ec" where
  "ec_new E c s = (ee_ptr E c s, ec_do E c s)"

definition ec_read :: "ec_env \<Rightarrow> ec_call \<Rightarrow> ec \<Rightarrow> u8 list \<times> ec" where
  "ec_read E c s = (ee_bytes E c s, ec_do E c s)"

definition ec_user :: "ec_env \<Rightarrow> ec_call \<Rightarrow> ec \<Rightarrow> ec" where
  "ec_user E c s = ee_user E c (s\<lparr>ec_calls := ec_calls s @ [c]\<rparr>)"

text \<open>Assignments to fields of objects on the heaps.\<close>

definition upd_msg :: "ptr \<Rightarrow> (espconn_msg \<Rightarrow> espconn_msg) \<Rightarrow> ec \<Rightarrow> ec option" where
  "upd_msg p f s = do { m \<leftarrow> deref (ec_msgs s) p; Some (s\<lparr>ec_msgs := (ec_msgs s)(p \<mapsto> f m)\<rparr>) }"

definition upd_common :: "ptr \<Rightarrow> (comon_pkt \<Rightarrow> comon_pkt) \<Rightarrow> ec \<Rightarrow> ec option" where
  "upd_common p f = upd_msg p (\<lambda>m. m\<lparr>ms_pcommon := f (ms_pcommon m)\<rparr>)"

definition upd_espconn :: "ptr \<Rightarrow> (espconn \<Rightarrow> espconn) \<Rightarrow> ec \<Rightarrow> ec option" where
  "upd_espconn p f s =
     do { e \<leftarrow> deref (espconns s) p; Some (s\<lparr>espconns := (espconns s)(p \<mapsto> f e)\<rparr>) }"

definition upd_tcp :: "ptr \<Rightarrow> (esp_tcp \<Rightarrow> esp_tcp) \<Rightarrow> ec \<Rightarrow> ec option" where
  "upd_tcp p f s =
     do { t \<leftarrow> deref (esp_tcps s) p; Some (s\<lparr>esp_tcps := (esp_tcps s)(p \<mapsto> f t)\<rparr>) }"

definition upd_pcb :: "ptr \<Rightarrow> (tcp_pcb \<Rightarrow> tcp_pcb) \<Rightarrow> ec \<Rightarrow> ec option" where
  "upd_pcb p f s =
     do { b \<leftarrow> deref (lw_tcp (ec_lwip s)) p;
          Some (s\<lparr>ec_lwip := (ec_lwip s)\<lparr>lw_tcp := (lw_tcp (ec_lwip s))(p \<mapsto> f b)\<rparr>\<rparr>) }"

lemmas ec_upd_defs = upd_msg_def upd_common_def upd_espconn_def upd_tcp_def upd_pcb_def

lemma ec_do_sel [simp]:
  "espconns (ec_do E c s) = espconns s" "esp_tcps (ec_do E c s) = esp_tcps s"
  "esp_udps (ec_do E c s) = esp_udps s" "ec_msgs (ec_do E c s) = ec_msgs s"
  "ec_bufs (ec_do E c s) = ec_bufs s" "plink_active (ec_do E c s) = plink_active s"
  "pserver_list (ec_do E c s) = pserver_list s" "premot (ec_do E c s) = premot s"
  "pktinfo (ec_do E c s) = pktinfo s" "ec_calls (ec_do E c s) = ec_calls s @ [c]"
  "ec_lwip (ec_do E c s) = ee_lwip E c s"
  by (simp_all add: ec_do_def)

lemma ec_ask_sel [simp]:
  "espconns (snd (ec_ask E c s)) = espconns s" "esp_tcps (snd (ec_ask E c s)) = esp_tcps s"
  "esp_udps (snd (ec_ask E c s)) = esp_udps s" "ec_msgs (snd (ec_ask E c s)) = ec_msgs s"
  "ec_bufs (snd (ec_ask E c s)) = ec_bufs s" "plink_active (snd (ec_ask E c s)) = plink_active s"
  "pserver_list (snd (ec_ask E c s)) = pserver_list s" "premot (snd (ec_ask E c s)) = premot s"
  "pktinfo (snd (ec_ask E c s)) = pktinfo s"
  "ec_calls (snd (ec_ask E c s)) = ec_calls s @ [Answered c (ee_err E c s)]"
  "ec_lwip (snd (ec_ask E c s)) = ee_lwip E c s"
  "fst (ec_ask E c s) = ee_err E c s"
  by (simp_all add: ec_ask_def)

lemma ec_new_sel [simp]: "fst (ec_new E c s) = ee_ptr E c s" "snd (ec_new E c s) = ec_do E c s"
  by (simp_all add: ec_new_def)

lemma ec_read_sel [simp]: "fst (ec_read E c s) = ee_bytes E c s" "snd (ec_read E c s) = ec_do E c s"
  by (simp_all add: ec_read_def)

text \<open>The options of a connection: the macros \<open>espconn_copy_disabled\<close> and so on test the bit.\<close>

definition has_opt :: "u32 \<Rightarrow> espconn_msg \<Rightarrow> bool" where
  "has_opt b m \<longleftrightarrow> cp_espconn_opt (ms_pcommon m) AND b \<noteq> 0"

definition espconn_delay_disabled :: "espconn_msg \<Rightarrow> bool" where
  "espconn_delay_disabled = has_opt ESPCONN_NODELAY"

definition espconn_reuse_disabled :: "espconn_msg \<Rightarrow> bool" where
  "espconn_reuse_disabled = has_opt ESPCONN_REUSEADDR"

definition espconn_copy_disabled :: "espconn_msg \<Rightarrow> bool" where
  "espconn_copy_disabled = has_opt ESPCONN_COPY"

definition espconn_keepalive_disabled :: "espconn_msg \<Rightarrow> bool" where
  "espconn_keepalive_disabled = has_opt ESPCONN_KEEPALIVE"

definition espconn_manual_recv_disabled :: "espconn_msg \<Rightarrow> bool" where
  "espconn_manual_recv_disabled = has_opt ESPCONN_MANUALRECV"

end
