(* ===== verification/Espconn_Base.thy ===== *)
theory Espconn_Base
  imports Espconn_State
begin

text \<open>
  The operations of \<^verbatim>\<open>espconn.c\<close> that do not call the TCP or UDP side: the lists of control
  messages and of buffers, the search for a connection, the settings and the callbacks that
  the application registers.
\<close>

section \<open>Lists\<close>

abbreviation set_msg_next :: "ptr \<Rightarrow> espconn_msg \<Rightarrow> espconn_msg" where
  "set_msg_next p m \<equiv> m\<lparr>ms_pnext := p\<rparr>"

abbreviation set_buf_next :: "ptr \<Rightarrow> espconn_buf \<Rightarrow> espconn_buf" where
  "set_buf_next p b \<equiv> b\<lparr>eb_pnext := p\<rparr>"

text \<open>
  \<open>espconn_list_creat\<close> and \<open>espconn_list_delete\<close> take the address of one of the two head
  pointers; they return the heap and the new head. The buffer functions are the same code
  on the other node type.
\<close>

definition espconn_list_creat ::
  "(ptr \<rightharpoonup> espconn_msg) \<Rightarrow> ptr \<Rightarrow> ptr \<Rightarrow> ((ptr \<rightharpoonup> espconn_msg) \<times> ptr) option" where
  "espconn_list_creat h phead pinsert = list_append ms_pnext set_msg_next h phead pinsert"

definition espconn_list_delete ::
  "(ptr \<rightharpoonup> espconn_msg) \<Rightarrow> ptr \<Rightarrow> ptr \<Rightarrow> ((ptr \<rightharpoonup> espconn_msg) \<times> ptr) option" where
  "espconn_list_delete h phead pdelete = list_delete ms_pnext set_msg_next (\<lambda>d. d) h phead pdelete"

definition espconn_pbuf_create ::
  "(ptr \<rightharpoonup> espconn_buf) \<Rightarrow> ptr \<Rightarrow> ptr \<Rightarrow> ((ptr \<rightharpoonup> espconn_buf) \<times> ptr) option" where
  "espconn_pbuf_create h phead pinsert = list_append eb_pnext set_buf_next h phead pinsert"

definition espconn_pbuf_delete ::
  "(ptr \<rightharpoonup> espconn_buf) \<Rightarrow> ptr \<Rightarrow> ptr \<Rightarrow> ((ptr \<rightharpoonup> espconn_buf) \<times> ptr) option" where
  "espconn_pbuf_delete h phead pdelete = list_delete eb_pnext set_buf_next (\<lambda>d. d) h phead pdelete"

interpretation msgs: linked ms_pnext set_msg_next
  by unfold_locales simp_all

interpretation bufs: linked eb_pnext set_buf_next
  by unfold_locales simp_all

text \<open>The calls with \<open>&plink_active\<close>, \<open>&pserver_list\<close> and \<open>&m->pcommon.pbuf\<close>.\<close>

definition active_append :: "ptr \<Rightarrow> ec \<Rightarrow> ec option" where
  "active_append p s =
     do { (h, hd) \<leftarrow> espconn_list_creat (ec_msgs s) (plink_active s) p;
          Some (s\<lparr>ec_msgs := h, plink_active := hd\<rparr>) }"

definition active_delete :: "ptr \<Rightarrow> ec \<Rightarrow> ec option" where
  "active_delete p s =
     do { (h, hd) \<leftarrow> espconn_list_delete (ec_msgs s) (plink_active s) p;
          Some (s\<lparr>ec_msgs := h, plink_active := hd\<rparr>) }"

definition server_append :: "ptr \<Rightarrow> ec \<Rightarrow> ec option" where
  "server_append p s =
     do { (h, hd) \<leftarrow> espconn_list_creat (ec_msgs s) (pserver_list s) p;
          Some (s\<lparr>ec_msgs := h, pserver_list := hd\<rparr>) }"

definition server_delete :: "ptr \<Rightarrow> ec \<Rightarrow> ec option" where
  "server_delete p s =
     do { (h, hd) \<leftarrow> espconn_list_delete (ec_msgs s) (pserver_list s) p;
          Some (s\<lparr>ec_msgs := h, pserver_list := hd\<rparr>) }"

definition pbuf_append :: "ptr \<Rightarrow> ptr \<Rightarrow> ec \<Rightarrow> ec option" where
  "pbuf_append msg b s =
     do { m \<leftarrow> deref (ec_msgs s) msg;
          (h, hd) \<leftarrow> espconn_pbuf_create (ec_bufs s) (cp_pbuf (ms_pcommon m)) b;
          upd_common msg (\<lambda>c. c\<lparr>cp_pbuf := hd\<rparr>) (s\<lparr>ec_bufs := h\<rparr>) }"

definition pbuf_delete :: "ptr \<Rightarrow> ptr \<Rightarrow> ec \<Rightarrow> ec option" where
  "pbuf_delete msg b s =
     do { m \<leftarrow> deref (ec_msgs s) msg;
          (h, hd) \<leftarrow> espconn_pbuf_delete (ec_bufs s) (cp_pbuf (ms_pcommon m)) b;
          upd_common msg (\<lambda>c. c\<lparr>cp_pbuf := hd\<rparr>) (s\<lparr>ec_bufs := h\<rparr>) }"

section \<open>Copying a descriptor\<close>

definition espconn_copy_partial :: "ptr \<Rightarrow> ptr \<Rightarrow> ec \<Rightarrow> ec option" where
  "espconn_copy_partial pesp_dest pesp_source s =
     do { src \<leftarrow> deref (espconns s) pesp_source;
          s1 \<leftarrow> upd_espconn pesp_dest (\<lambda>e. e\<lparr>es_type := es_type src, es_state := es_state src\<rparr>) s;
          dst \<leftarrow> deref (espconns s1) pesp_dest;
          s2 \<leftarrow> (if es_type src = ESPCONN_TCP
                 then do {
                   t \<leftarrow> deref (esp_tcps s1) (es_proto src);
                   upd_tcp (es_proto dst) (\<lambda>d. d\<lparr>et_remote_port := et_remote_port t,
                     et_local_port := et_local_port t, et_remote_ip := et_remote_ip t,
                     et_local_ip := et_local_ip t, et_connect_callback := et_connect_callback t,
                     et_reconnect_callback := et_reconnect_callback t,
                     et_disconnect_callback := et_disconnect_callback t\<rparr>) s1 }
                 else do {
                   u \<leftarrow> deref (esp_udps s1) (es_proto src);
                   d \<leftarrow> deref (esp_udps s1) (es_proto dst);
                   Some (s1\<lparr>esp_udps := (esp_udps s1)(es_proto dst \<mapsto>
                     d\<lparr>eu_remote_port := eu_remote_port u, eu_local_port := eu_local_port u,
                       eu_remote_ip := eu_remote_ip u, eu_local_ip := eu_local_ip u\<rparr>)\<rparr>) });
          upd_espconn pesp_dest (\<lambda>e. e\<lparr>es_recv_callback := es_recv_callback src,
            es_sent_callback := es_sent_callback src, es_link_cnt := es_link_cnt src,
            es_reverse := es_reverse src\<rparr>) s2 }"

section \<open>Finding a connection\<close>

text \<open>The result: found or not, and \<open>*pnode\<close> when found.\<close>

definition espconn_find_connection :: "ptr \<Rightarrow> ec \<Rightarrow> (bool \<times> ptr) option" where
  "espconn_find_connection pespconn s =
     (if pespconn = NULL then Some (False, NULL)
      else do {
        n \<leftarrow> find_node ms_pnext (ec_msgs s) (\<lambda>_ m. pespconn = ms_pespconn m) (plink_active s);
        if n \<noteq> NULL then Some (True, n)
        else do {
          sv \<leftarrow> find_node ms_pnext (ec_msgs s) (\<lambda>_ m. pespconn = ms_pespconn m) (pserver_list s);
          if sv = NULL then Some (False, NULL)
          else do {
            e \<leftarrow> deref (espconns s) pespconn;
            if es_proto e = NULL then Some (False, NULL)
            else do {
              t \<leftarrow> deref (esp_tcps s) (es_proto e);
              let ip_remot = word4 (et_remote_ip t);
              if ip_remot = 0 \<or> et_remote_port t = 0 then Some (False, NULL)
              else do {
                c \<leftarrow> find_node ms_pnext (ec_msgs s)
                       (\<lambda>_ m. word4 (cp_remote_ip (ms_pcommon m)) = ip_remot
                              \<and> et_remote_port t = cp_remote_port (ms_pcommon m))
                       (plink_active s);
                Some (if c \<noteq> NULL then (True, c) else (False, NULL)) } } } } })"

text \<open>\<open>espconn_get_acticve_num\<close>: a \<open>uint8\<close> counter.\<close>

partial_function (option) acticve_num_loop :: "ec \<Rightarrow> espconn_type \<Rightarrow> ptr \<Rightarrow> u8 \<Rightarrow> u8 option" where
  "acticve_num_loop s ty plist n =
     (if plist = NULL then Some n
      else do {
        m \<leftarrow> deref (ec_msgs s) plist;
        hit \<leftarrow> (if ms_pespconn m \<noteq> NULL
                then map_option (\<lambda>e. es_type e = ty) (deref (espconns s) (ms_pespconn m))
                else Some False);
        acticve_num_loop s ty (ms_pnext m) (if hit then n + 1 else n) })"

declare acticve_num_loop.simps [code]

definition espconn_get_acticve_num :: "espconn_type \<Rightarrow> ec \<Rightarrow> u8 option" where
  "espconn_get_acticve_num ty s = acticve_num_loop s ty (plink_active s) 0"

text \<open>
  The loop of \<open>espconn_connect\<close>, \<open>espconn_create\<close> and \<open>espconn_accept\<close> that looks for an
  active connection of the type with the same local port.
\<close>

definition local_port :: "espconn_type \<Rightarrow> ptr \<Rightarrow> ec \<Rightarrow> u32 option" where
  "local_port ty proto s =
     (if ty = ESPCONN_UDP then map_option eu_local_port (deref (esp_udps s) proto)
      else map_option et_local_port (deref (esp_tcps s) proto))"

partial_function (option) port_taken :: "ec \<Rightarrow> espconn_type \<Rightarrow> ptr \<Rightarrow> ptr \<Rightarrow> bool option" where
  "port_taken s ty pespconn plist =
     (if plist = NULL then Some False
      else do {
        m \<leftarrow> deref (ec_msgs s) plist;
        hit \<leftarrow> (if ms_pespconn m \<noteq> NULL
                then do {
                  e \<leftarrow> deref (espconns s) (ms_pespconn m);
                  if es_type e = ty
                  then do { me \<leftarrow> deref (espconns s) pespconn;
                            p \<leftarrow> local_port ty (es_proto me) s;
                            q \<leftarrow> local_port ty (es_proto e) s;
                            Some (p = q) }
                  else Some False }
                else Some False);
        if hit then Some True else port_taken s ty pespconn (ms_pnext m) })"

declare port_taken.simps [code]

section \<open>Settings\<close>

text \<open>
  The limits of the stack: constants of the build in lwIP 2, so that their setters refuse.
  \<open>MEMP_NUM_TCP_PCB\<close>, \<open>TCP_MAXRTX\<close>, \<open>TCP_SYNMAXRTX\<close> and \<open>TCP_SND_QUEUELEN\<close> are those of
  \<^verbatim>\<open>arduino/lwipopts.h\<close>, where a window is four segments.
\<close>

definition MEMP_NUM_TCP_PCB :: u8 where "MEMP_NUM_TCP_PCB = 5"
definition TCP_MAXRTX :: u8 where "TCP_MAXRTX = 12"
definition TCP_SYNMAXRTX :: u8 where "TCP_SYNMAXRTX = 6"
definition TCP_SND_BUF :: "nat \<Rightarrow> nat" where "TCP_SND_BUF mss = 2 * mss"
definition TCP_WND :: "nat \<Rightarrow> nat" where "TCP_WND mss = 4 * mss"

definition TCP_SND_QUEUELEN :: "nat \<Rightarrow> nat" where
  "TCP_SND_QUEUELEN mss = (4 * TCP_SND_BUF mss + (mss - 1)) div mss"

definition espconn_tcp_get_wnd :: "ec_env \<Rightarrow> u8" where
  "espconn_tcp_get_wnd E = of_nat (TCP_WND (ee_mss E) div ee_mss E)"

definition espconn_tcp_get_mss :: "ec_env \<Rightarrow> u16" where
  "espconn_tcp_get_mss E = of_nat (ee_mss E)"

definition espconn_tcp_get_max_con :: u8 where
  "espconn_tcp_get_max_con = MEMP_NUM_TCP_PCB"

definition espconn_tcp_get_max_retran :: u8 where
  "espconn_tcp_get_max_retran = TCP_MAXRTX"

definition espconn_tcp_get_max_syn :: u8 where
  "espconn_tcp_get_max_syn = TCP_SYNMAXRTX"

definition espconn_tcp_set_wnd :: "u8 \<Rightarrow> err_t" where
  "espconn_tcp_set_wnd num = ESPCONN_ARG"

definition espconn_tcp_set_max_con :: "u8 \<Rightarrow> err_t" where
  "espconn_tcp_set_max_con num = ESPCONN_ARG"

definition espconn_tcp_set_max_retran :: "u8 \<Rightarrow> err_t" where
  "espconn_tcp_set_max_retran num = ESPCONN_ARG"

definition espconn_tcp_set_max_syn :: "u8 \<Rightarrow> err_t" where
  "espconn_tcp_set_max_syn num = ESPCONN_ARG"

text \<open>How many connections a server accepts: a \<open>uint8\<close> returned as \<open>sint8\<close>.\<close>

definition espconn_tcp_get_max_con_allow :: "ptr \<Rightarrow> ec \<Rightarrow> err_t option" where
  "espconn_tcp_get_max_con_allow pesp s =
     (if pesp = NULL then Some ESPCONN_ARG
      else do {
        e \<leftarrow> deref (espconns s) pesp;
        if es_type e = ESPCONN_UDP then Some ESPCONN_ARG
        else do {
          n \<leftarrow> find_node ms_pnext (ec_msgs s) (\<lambda>_ m. ms_pespconn m = pesp) (pserver_list s);
          if n = NULL then Some ESPCONN_ARG
          else map_option (\<lambda>m. sint (ms_count_opt m)) (deref (ec_msgs s) n) } })"

definition espconn_tcp_set_max_con_allow :: "ptr \<Rightarrow> u8 \<Rightarrow> ec \<Rightarrow> (err_t \<times> ec) option" where
  "espconn_tcp_set_max_con_allow pesp num s =
     (if pesp = NULL \<or> num > MEMP_NUM_TCP_PCB then Some (ESPCONN_ARG, s)
      else do {
        e \<leftarrow> deref (espconns s) pesp;
        if es_type e = ESPCONN_UDP then Some (ESPCONN_ARG, s)
        else do {
          n \<leftarrow> find_node ms_pnext (ec_msgs s) (\<lambda>_ m. ms_pespconn m = pesp) (pserver_list s);
          if n = NULL then Some (ESPCONN_ARG, s)
          else do { s1 \<leftarrow> upd_msg n (\<lambda>m. m\<lparr>ms_count_opt := num\<rparr>) s;
                    Some (ESPCONN_OK, s1) } } })"

definition espconn_tcp_set_buf_count :: "ec_env \<Rightarrow> ptr \<Rightarrow> u8 \<Rightarrow> ec \<Rightarrow> (err_t \<times> ec) option" where
  "espconn_tcp_set_buf_count E pesp num s =
     (if pesp = NULL \<or> unat num > TCP_SND_QUEUELEN (ee_mss E) then Some (ESPCONN_ARG, s)
      else do {
        n \<leftarrow> find_node ms_pnext (ec_msgs s) (\<lambda>_ m. ms_pespconn m = pesp) (plink_active s);
        if n = NULL then Some (ESPCONN_ARG, s)
        else do {
          e \<leftarrow> deref (espconns s) pesp;
          if es_type e = ESPCONN_TCP
          then do { s1 \<leftarrow> upd_common n (\<lambda>c. c\<lparr>cp_pbuf_num := num\<rparr>) s;
                    Some (ESPCONN_OK, s1) }
          else Some (ESPCONN_ARG, s) } })"

text \<open>\<open>espconn_tcp_get_buf_count\<close>: the length of a buffer list, in a \<open>uint8\<close>.\<close>

partial_function (option) buf_count_loop :: "(ptr \<rightharpoonup> espconn_buf) \<Rightarrow> ptr \<Rightarrow> u8 \<Rightarrow> u8 option" where
  "buf_count_loop h pbuf_list n =
     (if pbuf_list = NULL then Some n
      else do { b \<leftarrow> deref h pbuf_list; buf_count_loop h (eb_pnext b) (n + 1) })"

declare buf_count_loop.simps [code]

definition espconn_tcp_get_buf_count :: "ptr \<Rightarrow> ec \<Rightarrow> u8 option" where
  "espconn_tcp_get_buf_count pesp_buf s = buf_count_loop (ec_bufs s) pesp_buf 0"

section \<open>Callbacks of the application\<close>

definition espconn_regist_sentcb :: "ptr \<Rightarrow> ptr \<Rightarrow> ec \<Rightarrow> (err_t \<times> ec) option" where
  "espconn_regist_sentcb pesp sent_cb s =
     (if pesp = NULL then Some (ESPCONN_ARG, s)
      else do { s1 \<leftarrow> upd_espconn pesp (\<lambda>e. e\<lparr>es_sent_callback := sent_cb\<rparr>) s;
                Some (ESPCONN_OK, s1) })"

definition espconn_regist_recvcb :: "ptr \<Rightarrow> ptr \<Rightarrow> ec \<Rightarrow> (err_t \<times> ec) option" where
  "espconn_regist_recvcb pesp recv_cb s =
     (if pesp = NULL then Some (ESPCONN_ARG, s)
      else do { s1 \<leftarrow> upd_espconn pesp (\<lambda>e. e\<lparr>es_recv_callback := recv_cb\<rparr>) s;
                Some (ESPCONN_OK, s1) })"

definition espconn_regist_write_finish :: "ptr \<Rightarrow> ptr \<Rightarrow> ec \<Rightarrow> (err_t \<times> ec) option" where
  "espconn_regist_write_finish pesp f s =
     (if pesp = NULL then Some (ESPCONN_ARG, s)
      else do {
        e \<leftarrow> deref (espconns s) pesp;
        if es_proto e = NULL \<or> es_type e = ESPCONN_UDP then Some (ESPCONN_ARG, s)
        else do { s1 \<leftarrow> upd_tcp (es_proto e) (\<lambda>t. t\<lparr>et_write_finish_fn := f\<rparr>) s;
                  Some (ESPCONN_OK, s1) } })"

text \<open>
  The other three write through \<open>proto.tcp\<close> without looking at the type; for a UDP
  connection that is an object without the field, so the write is undefined.
\<close>

definition espconn_regist_connectcb :: "ptr \<Rightarrow> ptr \<Rightarrow> ec \<Rightarrow> (err_t \<times> ec) option" where
  "espconn_regist_connectcb pesp connect_cb s =
     (if pesp = NULL then Some (ESPCONN_ARG, s)
      else do { e \<leftarrow> deref (espconns s) pesp;
                s1 \<leftarrow> upd_tcp (es_proto e) (\<lambda>t. t\<lparr>et_connect_callback := connect_cb\<rparr>) s;
                Some (ESPCONN_OK, s1) })"

definition espconn_regist_reconcb :: "ptr \<Rightarrow> ptr \<Rightarrow> ec \<Rightarrow> (err_t \<times> ec) option" where
  "espconn_regist_reconcb pesp recon_cb s =
     (if pesp = NULL then Some (ESPCONN_ARG, s)
      else do { e \<leftarrow> deref (espconns s) pesp;
                s1 \<leftarrow> upd_tcp (es_proto e) (\<lambda>t. t\<lparr>et_reconnect_callback := recon_cb\<rparr>) s;
                Some (ESPCONN_OK, s1) })"

definition espconn_regist_disconcb :: "ptr \<Rightarrow> ptr \<Rightarrow> ec \<Rightarrow> (err_t \<times> ec) option" where
  "espconn_regist_disconcb pesp discon_cb s =
     (if pesp = NULL then Some (ESPCONN_ARG, s)
      else do { e \<leftarrow> deref (espconns s) pesp;
                s1 \<leftarrow> upd_tcp (es_proto e) (\<lambda>t. t\<lparr>et_disconnect_callback := discon_cb\<rparr>) s;
                Some (ESPCONN_OK, s1) })"

section \<open>Information about connections\<close>

text \<open>
  The loops of \<open>espconn_get_connection_info\<close>: an entry of \<open>premot\<close> for every message of the
  descriptor. A write behind the \<open>linkMax\<close> entries of the array is undefined.
\<close>

partial_function (option) connection_info_loop :: "ptr \<Rightarrow> espconn_type \<Rightarrow> ptr \<Rightarrow> ec \<Rightarrow> ec option" where
  "connection_info_loop pespconn ty plist s =
     (if plist = NULL then Some s
      else do {
        m \<leftarrow> deref (ec_msgs s) plist;
        s1 \<leftarrow> (if (if ty = ESPCONN_TCP then ms_preverse m else ms_pespconn m) = pespconn
               then do {
                 own \<leftarrow> deref (espconns s) (ms_pespconn m);
                 e \<leftarrow> deref (espconns s) pespconn;
                 pm \<leftarrow> arr_write (premot s) (unat (es_link_cnt e))
                        [\<lparr>ri_state = es_state own, ri_remote_port = cp_remote_port (ms_pcommon m),
                          ri_remote_ip = cp_remote_ip (ms_pcommon m)\<rparr>];
                 upd_espconn pespconn (\<lambda>e. e\<lparr>es_link_cnt := es_link_cnt e + 1\<rparr>)
                   (s\<lparr>premot := pm\<rparr>) }
               else Some s);
        connection_info_loop pespconn ty (ms_pnext m) s1 })"

declare connection_info_loop.simps [code]

definition espconn_get_connection_info :: "ptr \<Rightarrow> ec \<Rightarrow> (err_t \<times> ec) option" where
  "espconn_get_connection_info pespconn s =
     (if pespconn = NULL then Some (ESPCONN_ARG, s)
      else do {
        s1 \<leftarrow> upd_espconn pespconn (\<lambda>e. e\<lparr>es_link_cnt := 0\<rparr>)
               (s\<lparr>premot := replicate linkMax remot_zero\<rparr>);
        e \<leftarrow> deref (espconns s1) pespconn;
        s2 \<leftarrow> (if es_type e = ESPCONN_INVALID then Some s1
               else connection_info_loop pespconn (es_type e) (plink_active s1) s1);
        e2 \<leftarrow> deref (espconns s2) pespconn;
        Some (if es_link_cnt e2 = 0 then ESPCONN_ARG else ESPCONN_OK, s2) })"

definition espconn_regist_time :: "ptr \<Rightarrow> u32 \<Rightarrow> u8 \<Rightarrow> ec \<Rightarrow> (err_t \<times> ec) option" where
  "espconn_regist_time pesp interval type_flag s =
     (if pesp = NULL \<or> type_flag > 1 then Some (ESPCONN_ARG, s)
      else if type_flag = 1
      then do {
        (value, pnode) \<leftarrow> espconn_find_connection pesp s;
        if value then do { s1 \<leftarrow> upd_common pnode (\<lambda>c. c\<lparr>cp_timeout := interval\<rparr>) s;
                           Some (ESPCONN_OK, s1) }
        else Some (ESPCONN_ARG, s) }
      else do {
        n \<leftarrow> find_node ms_pnext (ec_msgs s) (\<lambda>_ m. ms_pespconn m = pesp) (pserver_list s);
        if n \<noteq> NULL then do { s1 \<leftarrow> upd_common n (\<lambda>c. c\<lparr>cp_timeout := interval\<rparr>) s;
                              Some (ESPCONN_OK, s1) }
        else Some (ESPCONN_ARG, s) })"

text \<open>
  \<open>espconn_get_packet_info\<close>: \<open>info\<close> says whether \<open>infoarg\<close> is not NULL; the result has what
  is stored there.
\<close>

definition espconn_get_packet_info ::
  "ec_env \<Rightarrow> ptr \<Rightarrow> bool \<Rightarrow> ec \<Rightarrow> (err_t \<times> espconn_packet option \<times> ec) option" where
  "espconn_get_packet_info E pesp info s =
     (if pesp = NULL \<or> \<not> info then Some (ESPCONN_ARG, None, s)
      else do {
        e \<leftarrow> deref (espconns s) pesp;
        if es_type e \<noteq> ESPCONN_TCP then Some (ESPCONN_ARG, None, s)
        else do {
          (value, pnode) \<leftarrow> espconn_find_connection pesp s;
          if value
          then do {
            m \<leftarrow> deref (ec_msgs s) pnode;
            if cp_pcb (ms_pcommon m) = NULL then Some (ESPCONN_ARG, None, s)
            else do {
              b \<leftarrow> deref (lw_tcp (ec_lwip s)) (cp_pcb (ms_pcommon m));
              let total = of_nat (TCP_SND_QUEUELEN (ee_mss E));
              let pk = (cp_packet_info (ms_pcommon m))\<lparr>ep_packseq_nxt := tp_rcv_nxt b,
                    ep_packseqno := tp_snd_nxt b, ep_snd_buf_size := tp_snd_buf b,
                    ep_total_queuelen := total, ep_snd_queuelen := total - tp_snd_queuelen b\<rparr>;
              s1 \<leftarrow> upd_common pnode (\<lambda>c. c\<lparr>cp_packet_info := pk\<rparr>) s;
              Some (ESPCONN_OK, Some pk, s1) } }
          else case es_state e of
                 ESPCONN_CLOSE \<Rightarrow> map_option (\<lambda>pk. (ESPCONN_OK, Some pk, s)) (arr_get (pktinfo s) 0)
               | ESPCONN_NONE \<Rightarrow> map_option (\<lambda>pk. (ESPCONN_OK, Some pk, s)) (arr_get (pktinfo s) 1)
               | _ \<Rightarrow> Some (ESPCONN_ARG, None, s) } })"

section \<open>Options\<close>

definition espconn_set_opt :: "ptr \<Rightarrow> u8 \<Rightarrow> ec \<Rightarrow> (err_t \<times> ec) option" where
  "espconn_set_opt pesp opt s =
     (if pesp = NULL then Some (ESPCONN_ARG, s)
      else do {
        e \<leftarrow> deref (espconns s) pesp;
        if es_type e \<noteq> ESPCONN_TCP then Some (ESPCONN_ARG, s)
        else do {
          (value, pnode) \<leftarrow> espconn_find_connection pesp s;
          if value
          then do {
            s1 \<leftarrow> upd_common pnode (\<lambda>c. c\<lparr>cp_espconn_opt := cp_espconn_opt c OR ucast opt\<rparr>) s;
            m \<leftarrow> deref (ec_msgs s1) pnode;
            let tpcb = cp_pcb (ms_pcommon m);
            if tpcb = NULL then Some (ESPCONN_OK, s1)
            else do {
              s2 \<leftarrow> (if espconn_delay_disabled m then upd_pcb tpcb (\<lambda>b. b\<lparr>tp_nodelay := True\<rparr>) s1
                     else Some s1);
              s3 \<leftarrow> (if espconn_keepalive_disabled m
                     then upd_pcb tpcb (\<lambda>b. b\<lparr>tp_keepalive := True\<rparr>) s2 else Some s2);
              Some (ESPCONN_OK, s3) } }
          else Some (ESPCONN_ARG, s) } })"

definition espconn_clear_opt :: "ptr \<Rightarrow> u8 \<Rightarrow> ec \<Rightarrow> (err_t \<times> ec) option" where
  "espconn_clear_opt pesp opt s =
     (if pesp = NULL then Some (ESPCONN_ARG, s)
      else do {
        e \<leftarrow> deref (espconns s) pesp;
        if es_type e \<noteq> ESPCONN_TCP then Some (ESPCONN_ARG, s)
        else do {
          (value, pnode) \<leftarrow> espconn_find_connection pesp s;
          if value
          then do {
            s1 \<leftarrow> upd_common pnode (\<lambda>c. c\<lparr>cp_espconn_opt := cp_espconn_opt c AND NOT (ucast opt)\<rparr>) s;
            m \<leftarrow> deref (ec_msgs s1) pnode;
            let tpcb = cp_pcb (ms_pcommon m);
            if tpcb = NULL then Some (ESPCONN_OK, s1)
            else do {
              s2 \<leftarrow> (if \<not> espconn_keepalive_disabled m
                     then upd_pcb tpcb (\<lambda>b. b\<lparr>tp_keepalive := False\<rparr>) s1 else Some s1);
              s3 \<leftarrow> (if \<not> espconn_delay_disabled m then upd_pcb tpcb (\<lambda>b. b\<lparr>tp_nodelay := False\<rparr>) s2
                     else Some s2);
              Some (ESPCONN_OK, s3) } }
          else Some (ESPCONN_ARG, s) } })"

text \<open>The keep-alive times; \<open>optarg\<close> is the caller's \<open>int\<close>, \<open>None\<close> for NULL.\<close>

definition espconn_set_keepalive :: "ptr \<Rightarrow> u8 \<Rightarrow> u32 option \<Rightarrow> ec \<Rightarrow> (err_t \<times> ec) option" where
  "espconn_set_keepalive pesp level optarg s =
     (case optarg of
        None \<Rightarrow> Some (ESPCONN_ARG, s)
      | Some v \<Rightarrow>
          if pesp = NULL then Some (ESPCONN_ARG, s)
          else do {
            e \<leftarrow> deref (espconns s) pesp;
            if es_type e \<noteq> ESPCONN_TCP then Some (ESPCONN_ARG, s)
            else do {
              (value, pnode) \<leftarrow> espconn_find_connection pesp s;
              if value
              then do {
                m \<leftarrow> deref (ec_msgs s) pnode;
                if espconn_keepalive_disabled m
                then let pcb = cp_pcb (ms_pcommon m)
                     in if level = ESPCONN_KEEPIDLE
                        then map_option (Pair ESPCONN_OK) (upd_pcb pcb (\<lambda>b. b\<lparr>tp_keep_idle := 1000 * v\<rparr>) s)
                        else if level = ESPCONN_KEEPINTVL
                        then map_option (Pair ESPCONN_OK) (upd_pcb pcb (\<lambda>b. b\<lparr>tp_keep_intvl := 1000 * v\<rparr>) s)
                        else if level = ESPCONN_KEEPCNT
                        then map_option (Pair ESPCONN_OK) (upd_pcb pcb (\<lambda>b. b\<lparr>tp_keep_cnt := v\<rparr>) s)
                        else Some (ESPCONN_ARG, s)
                else Some (ESPCONN_ARG, s) }
              else Some (ESPCONN_ARG, s) } })"

definition espconn_get_keepalive ::
  "ptr \<Rightarrow> u8 \<Rightarrow> u32 option \<Rightarrow> ec \<Rightarrow> (err_t \<times> u32 option) option" where
  "espconn_get_keepalive pesp level optarg s =
     (if pesp = NULL \<or> optarg = None then Some (ESPCONN_ARG, optarg)
      else do {
        e \<leftarrow> deref (espconns s) pesp;
        if es_type e \<noteq> ESPCONN_TCP then Some (ESPCONN_ARG, optarg)
        else do {
          (value, pnode) \<leftarrow> espconn_find_connection pesp s;
          if value
          then do {
            m \<leftarrow> deref (ec_msgs s) pnode;
            if espconn_keepalive_disabled m
            then if level \<in> {ESPCONN_KEEPIDLE, ESPCONN_KEEPINTVL, ESPCONN_KEEPCNT}
                 then do {
                   b \<leftarrow> deref (lw_tcp (ec_lwip s)) (cp_pcb (ms_pcommon m));
                   Some (ESPCONN_OK, Some
                     (if level = ESPCONN_KEEPIDLE then tp_keep_idle b div 1000
                      else if level = ESPCONN_KEEPINTVL then tp_keep_intvl b div 1000
                      else tp_keep_cnt b)) }
                 else Some (ESPCONN_ARG, optarg)
            else Some (ESPCONN_ARG, optarg) }
          else Some (ESPCONN_ARG, optarg) } })"

section \<open>Fetching received data\<close>

text \<open>
  \<open>espconn_recv\<close>: \<open>mem\<close> says whether the caller's buffer is not NULL; the result has the
  bytes that are stored there.
\<close>

definition espconn_recv :: "ec_env \<Rightarrow> ptr \<Rightarrow> bool \<Rightarrow> nat \<Rightarrow> ec \<Rightarrow> (err_t \<times> u8 list \<times> ec) option" where
  "espconn_recv E pesp mem len0 s =
     (if pesp = NULL \<or> \<not> mem \<or> len0 = 0 then Some (ESPCONN_ARG, [], s)
      else do {
        (value, pnode) \<leftarrow> espconn_find_connection pesp s;
        tcp \<leftarrow> (if value then map_option (\<lambda>e. es_type e = ESPCONN_TCP) (deref (espconns s) pesp)
                else Some False);
        if tcp
        then do {
          m \<leftarrow> deref (ec_msgs s) pnode;
          case ms_readbuf m of
            None \<Rightarrow> Some (ESPCONN_MEM, [], s)
          | Some rb \<Rightarrow>
              let bytes_used = ringbuf_bytes_used rb
              in if bytes_used \<noteq> 0
                 then do {
                   let len = (if to_int len0 > int bytes_used then bytes_used else len0);
                   (rb1, t, bs) \<leftarrow> ringbuf_memcpy_from rb len;
                   s1 \<leftarrow> upd_msg pnode (\<lambda>m. m\<lparr>ms_readbuf := Some rb1\<rparr>) s;
                   let tpcb = cp_pcb (ms_pcommon m);
                   s2 \<leftarrow> (if tpcb \<noteq> NULL
                          then do { b \<leftarrow> deref (lw_tcp (ec_lwip s1)) tpcb;
                                    Some (if tp_state b = ESTABLISHED
                                          then ec_do E (Tcp_recved tpcb (of_nat len)) s1 else s1) }
                          else Some s1);
                   Some (sint (of_nat len :: u16), bs, s2) }
                 else Some (ESPCONN_OK, [], s) }
        else Some (ESPCONN_ARG, [], s) })"

section \<open>Ports and names\<close>

text \<open>
  \<open>espconn_port\<close>: \<open>rnd\<close> are the numbers that \<open>os_random\<close> returns, \<open>randnum\<close> the port of the
  call before; the loop draws until it gets another one.
\<close>

definition port_of_random :: "u32 \<Rightarrow> u32" where
  "port_of_random r = (let port = r mod 0xc350 in if port < 0x400 then port + 0x400 else port)"

partial_function (option) espconn_port :: "(nat \<Rightarrow> u32) \<Rightarrow> nat \<Rightarrow> u32 \<Rightarrow> (u32 \<times> u32) option" where
  "espconn_port rnd i randnum =
     (let port = port_of_random (rnd i)
      in if port = randnum then espconn_port rnd (i + 1) randnum else Some (port, port))"

declare espconn_port.simps [code]

text \<open>\<open>dns\<close> is the address that \<open>dns_gethostbyname\<close> stores, \<open>None\<close> when it is not of IPv4.\<close>

definition espconn_gethostbyname ::
  "ec_env \<Rightarrow> ptr \<Rightarrow> ptr \<Rightarrow> u32 option \<Rightarrow> u32 \<Rightarrow> ec \<Rightarrow> err_t \<times> u32 \<times> ec" where
  "espconn_gethostbyname E pespconn hostname dns addr s =
     (let (err, s1) = ec_ask E (Dns_gethostbyname hostname pespconn) s
      in if err = git_ok (ee_errs E)
         then case dns of Some a \<Rightarrow> (err, a, s1) | None \<Rightarrow> (git_timeout (ee_errs E), addr, s1)
         else (err, addr, s1))"

definition espconn_dns_setserver :: "ec_env \<Rightarrow> u8 \<Rightarrow> u32 \<Rightarrow> ec \<Rightarrow> ec" where
  "espconn_dns_setserver E numdns dnsserver s = ec_do E (Dns_setserver numdns dnsserver) s"

end
