(* ===== verification/Espconn_Tcp.thy ===== *)
theory Espconn_Tcp
  imports Espconn_Base
begin

text \<open>
  The TCP side of espconn (\<^verbatim>\<open>espconn_tcp.c\<close>): the callbacks that lwIP makes for a connection,
  sending from a list of buffers, receiving into the application or into a ring buffer, and
  the task that finishes closed and broken connections. A function that allocates takes what
  \<open>os_zalloc\<close> returns as arguments.
\<close>

section \<open>Old control blocks\<close>

text \<open>The three loops of \<open>espconn_kill_oldest\<close>: the block of the kind with the oldest timer.\<close>

partial_function (option) oldest_pcb_loop ::
  "(tcp_pcb \<Rightarrow> bool) \<Rightarrow> u32 \<Rightarrow> (ptr \<rightharpoonup> tcp_pcb) \<Rightarrow> ptr \<Rightarrow> u32 \<Rightarrow> ptr \<Rightarrow> ptr option" where
  "oldest_pcb_loop P ticks h pcb inactivity inactive =
     (if pcb = NULL then Some inactive
      else do {
        b \<leftarrow> deref h pcb;
        if P b \<and> inactivity \<le> ticks - tp_tmr b
        then oldest_pcb_loop P ticks h (tp_next b) (ticks - tp_tmr b) pcb
        else oldest_pcb_loop P ticks h (tp_next b) inactivity inactive })"

declare oldest_pcb_loop.simps [code]

definition oldest_pcb :: "(tcp_pcb \<Rightarrow> bool) \<Rightarrow> ptr \<Rightarrow> ec \<Rightarrow> ptr option" where
  "oldest_pcb P pcbs s =
     oldest_pcb_loop P (lw_ticks (ec_lwip s)) (lw_tcp (ec_lwip s)) pcbs 0 NULL"

definition remove_pcb :: "ec_env \<Rightarrow> ptr \<Rightarrow> ec \<Rightarrow> ec" where
  "remove_pcb E pcb s = ec_do E (Memp_free pcb) (ec_do E (Tcp_pcb_remove pcb) s)"

definition espconn_kill_oldest :: "ec_env \<Rightarrow> ec \<Rightarrow> ec option" where
  "espconn_kill_oldest E s =
     do {
       i \<leftarrow> oldest_pcb (\<lambda>b. True) (lw_tw (ec_lwip s)) s;
       let s1 = (if i \<noteq> NULL then ec_do E (Tcp_abort i) s else s);
       j \<leftarrow> oldest_pcb (\<lambda>b. tp_state b = FIN_WAIT_1 \<or> tp_state b = FIN_WAIT_2)
              (lw_active (ec_lwip s1)) s1;
       let s2 = (if j \<noteq> NULL then remove_pcb E j s1 else s1);
       k \<leftarrow> oldest_pcb (\<lambda>b. tp_state b = LAST_ACK) (lw_active (ec_lwip s2)) s2;
       Some (if k \<noteq> NULL then remove_pcb E k s2 else s2) }"

partial_function (option) fin_count_loop :: "(ptr \<rightharpoonup> tcp_pcb) \<Rightarrow> ptr \<Rightarrow> u8 \<Rightarrow> u8 option" where
  "fin_count_loop h cpcb n =
     (if cpcb = NULL then Some n
      else do {
        b \<leftarrow> deref h cpcb;
        if tp_state b \<in> {TIME_WAIT, FIN_WAIT_1, FIN_WAIT_2, LAST_ACK}
        then if n + 1 = MEMP_NUM_TCP_PCB then Some (n + 1)
             else fin_count_loop h (tp_next b) (n + 1)
        else fin_count_loop h (tp_next b) n })"

declare fin_count_loop.simps [code]

definition espconn_kill_oldest_pcb :: "ec_env \<Rightarrow> ec \<Rightarrow> ec option" where
  "espconn_kill_oldest_pcb E s =
     do {
       n \<leftarrow> fin_count_loop (lw_tcp (ec_lwip s)) (lw_active (ec_lwip s)) 0;
       s1 \<leftarrow> (if n = MEMP_NUM_TCP_PCB then espconn_kill_oldest E s else Some s);
       n2 \<leftarrow> fin_count_loop (lw_tcp (ec_lwip s1)) (lw_tw (ec_lwip s1)) 0;
       if n2 = MEMP_NUM_TCP_PCB then espconn_kill_oldest E s1 else Some s1 }"

partial_function (option) kill_port_loop :: "ec_env \<Rightarrow> u16 \<Rightarrow> ptr \<Rightarrow> ec \<Rightarrow> ec option" where
  "kill_port_loop E port cpcb s =
     (if cpcb = NULL then Some s
      else do {
        b \<leftarrow> deref (lw_tcp (ec_lwip s)) cpcb;
        kill_port_loop E port (tp_next b)
          (if tp_local_port b = port then remove_pcb E cpcb s else s) })"

declare kill_port_loop.simps [code]

definition espconn_kill_pcb :: "ec_env \<Rightarrow> u16 \<Rightarrow> ec \<Rightarrow> ec option" where
  "espconn_kill_pcb E port s =
     do {
       s1 \<leftarrow> kill_port_loop E port (lw_bound (ec_lwip s)) s;
       s2 \<leftarrow> kill_port_loop E port (lw_active (ec_lwip s1)) s1;
       kill_port_loop E port (lw_tw (ec_lwip s2)) s2 }"

definition espconn_find_current_pcb :: "ptr \<Rightarrow> ec \<Rightarrow> ptr option" where
  "espconn_find_current_pcb pcurrent_msg s =
     do {
       m \<leftarrow> deref (ec_msgs s) pcurrent_msg;
       let c = ms_pcommon m;
       let l_port = (ucast (cp_local_port c) :: u16);
       let l_ip = cp_local_ip c;
       let r_port = (ucast (cp_remote_port c) :: u16);
       let r_ip = word4 (cp_remote_ip c);
       let server = (ms_preverse m = NULL);
       let P = (\<lambda>b. tp_remote_port b = r_port \<and> tp_remote_ip b = r_ip
                   \<and> (server \<longrightarrow> tp_local_port b = l_port \<and> tp_local_ip b = l_ip));
       if (if server then l_ip = 0 \<or> l_port = 0 else r_ip = 0 \<or> r_port = 0) then Some (cp_pcb c)
       else do {
         i \<leftarrow> find_node tp_next (lw_tcp (ec_lwip s)) (\<lambda>_. P) (lw_active (ec_lwip s));
         if i \<noteq> NULL then Some i
         else find_node tp_next (lw_tcp (ec_lwip s)) (\<lambda>_. P) (lw_tw (ec_lwip s)) } }"

section \<open>The end of a connection\<close>

definition espconn_tcp_memp_free :: "ptr \<Rightarrow> ec \<Rightarrow> ec option" where
  "espconn_tcp_memp_free pmemp s =
     (if pmemp = NULL then Some s
      else do {
        m0 \<leftarrow> deref (ec_msgs s) pmemp;
        s1 \<leftarrow> (if espconn_manual_recv_disabled m0 then active_delete pmemp s else Some s);
        m \<leftarrow> deref (ec_msgs s1) pmemp;
        s2 \<leftarrow> (if ms_espconn_mode m = ESPCONN_TCPSERVER_MODE
               then do {
                 e \<leftarrow> deref (espconns s1) (ms_pespconn m);
                 tcps \<leftarrow> os_free (esp_tcps s1) (es_proto e);
                 es \<leftarrow> os_free (espconns s1) (ms_pespconn m);
                 upd_msg pmemp (\<lambda>m. m\<lparr>ms_pespconn := NULL\<rparr>) (s1\<lparr>esp_tcps := tcps, espconns := es\<rparr>) }
               else Some s1);
        s3 \<leftarrow> upd_msg pmemp (\<lambda>m. m\<lparr>ms_readbuf := ringbuf_free (ms_readbuf m)\<rparr>) s2;
        h \<leftarrow> os_free (ec_msgs s3) pmemp;
        Some (s3\<lparr>ec_msgs := h\<rparr>) })"

text \<open>The loops that free the buffers of a message.\<close>

partial_function (option) free_bufs_loop :: "ptr \<Rightarrow> ptr \<Rightarrow> ec \<Rightarrow> ec option" where
  "free_bufs_loop msg buf s =
     (if buf = NULL then Some s
      else do {
        b \<leftarrow> deref (ec_bufs s) buf;
        s1 \<leftarrow> pbuf_delete msg buf s;
        h \<leftarrow> os_free (ec_bufs s1) buf;
        free_bufs_loop msg (eb_pnext b) (s1\<lparr>ec_bufs := h\<rparr>) })"

declare free_bufs_loop.simps [code]

text \<open>Free the buffers, keep the packet information for the application: both functions below.\<close>

definition finish_bufs :: "nat \<Rightarrow> ptr \<Rightarrow> ec \<Rightarrow> ec option" where
  "finish_bufs i msg s =
     do {
       m \<leftarrow> deref (ec_msgs s) msg;
       s1 \<leftarrow> free_bufs_loop msg (cp_pbuf (ms_pcommon m)) s;
       m1 \<leftarrow> deref (ec_msgs s1) msg;
       pk \<leftarrow> arr_write (pktinfo s1) i [cp_packet_info (ms_pcommon m1)];
       Some (s1\<lparr>pktinfo := pk\<rparr>) }"

definition espconn_tcp_reconnect :: "ec_env \<Rightarrow> ptr \<Rightarrow> ec \<Rightarrow> ec option" where
  "espconn_tcp_reconnect E arg s =
     do {
       s1 \<leftarrow> espconn_kill_oldest_pcb E s;
       if arg = NULL then Some s1
       else do {
         m \<leftarrow> deref (ec_msgs s1) arg;
         let re_err = cp_err (ms_pcommon m);
         (pesp, s2) \<leftarrow>
           (if ms_pespconn m \<noteq> NULL
            then if ms_preverse m \<noteq> NULL
                 then do {
                   own \<leftarrow> deref (espconns s1) (ms_pespconn m);
                   s2 \<leftarrow> (if es_proto own \<noteq> NULL
                          then espconn_copy_partial (ms_preverse m) (ms_pespconn m) s1 else Some s1);
                   Some (ms_preverse m, s2) }
                 else Some (ms_pespconn m, s1)
            else Some (ms_preverse m, s1));
         s3 \<leftarrow> finish_bufs 1 arg s2;
         s4 \<leftarrow> (if pesp \<noteq> NULL
                then do {
                  e \<leftarrow> deref (espconns s3) pesp;
                  if es_proto e \<noteq> NULL
                  then do {
                    t \<leftarrow> deref (esp_tcps s3) (es_proto e);
                    Some (if et_reconnect_callback t \<noteq> NULL
                          then ec_user E (Reconnect_callback (et_reconnect_callback t) pesp re_err) s3
                          else s3) }
                  else Some s3 }
                else Some s3);
         espconn_tcp_memp_free arg s4 } }"

text \<open>With \<open>ESPCONN_REUSEADDR\<close> the blocks in TIME_WAIT with the same local port are unlinked.\<close>

partial_function (option) tw_remove_loop ::
  "ec_env \<Rightarrow> ptr \<Rightarrow> ptr \<Rightarrow> ptr \<Rightarrow> ec \<Rightarrow> ec option" where
  "tw_remove_loop E pcb prev cpcb s =
     (if cpcb = NULL then Some s
      else do {
        c \<leftarrow> deref (lw_tcp (ec_lwip s)) cpcb;
        b \<leftarrow> deref (lw_tcp (ec_lwip s)) pcb;
        if tp_local_port c = tp_local_port b
        then do {
          let s1 = ec_do E (Tcp_pcb_purge cpcb) s;
          c1 \<leftarrow> deref (lw_tcp (ec_lwip s1)) cpcb;
          s2 \<leftarrow> (if prev \<noteq> NULL then upd_pcb prev (\<lambda>d. d\<lparr>tp_next := tp_next c1\<rparr>) s1
                 else Some (s1\<lparr>ec_lwip := (ec_lwip s1)\<lparr>lw_tw := tp_next c1\<rparr>\<rparr>));
          tw_remove_loop E pcb prev (tp_next c1) (ec_do E (Memp_free cpcb) s2) }
        else tw_remove_loop E pcb cpcb (tp_next c) s })"

declare tw_remove_loop.simps [code]

definition espconn_tcp_disconnect_successful :: "ec_env \<Rightarrow> ptr \<Rightarrow> ec \<Rightarrow> ec option" where
  "espconn_tcp_disconnect_successful E arg s =
     do {
       s1 \<leftarrow> espconn_kill_oldest_pcb E s;
       if arg = NULL then Some s1
       else do {
         m \<leftarrow> deref (ec_msgs s1) arg;
         (pesp, s3) \<leftarrow>
           (if ms_pespconn m \<noteq> NULL
            then do {
              (pesp, s2) \<leftarrow>
                (if ms_preverse m \<noteq> NULL
                 then do {
                   own \<leftarrow> deref (espconns s1) (ms_pespconn m);
                   srv \<leftarrow> deref (espconns s1) (ms_preverse m);
                   s2 \<leftarrow> (if es_proto own \<noteq> NULL \<and> es_proto srv \<noteq> NULL
                          then espconn_copy_partial (ms_preverse m) (ms_pespconn m) s1 else Some s1);
                   Some (ms_preverse m, s2) }
                 else Some (ms_pespconn m, s1));
              pcb \<leftarrow> espconn_find_current_pcb arg s2;
              s3 \<leftarrow> (if pcb \<noteq> NULL
                     then do {
                       m2 \<leftarrow> deref (ec_msgs s2) arg;
                       if espconn_reuse_disabled m2
                       then tw_remove_loop E pcb NULL (lw_tw (ec_lwip s2)) s2
                       else Some (ec_do E (Tcp_err pcb No_handler) (ec_do E (Tcp_arg pcb NULL) s2)) }
                     else Some s2);
              Some (pesp, s3) }
            else Some (ms_preverse m, s1));
         s4 \<leftarrow> finish_bufs 0 arg s3;
         e \<leftarrow> deref (espconns s4) pesp;
         s5 \<leftarrow> (if es_proto e \<noteq> NULL
                then do {
                  t \<leftarrow> deref (esp_tcps s4) (es_proto e);
                  Some (if et_disconnect_callback t \<noteq> NULL
                        then ec_user E (Disconnect_callback (et_disconnect_callback t) pesp) s4
                        else s4) }
                else Some s4);
         espconn_tcp_memp_free arg s5 } }"

text \<open>\<open>espconn_Task\<close>: an event is handled only while its message is on the active list.\<close>

definition espconn_Task :: "ec_env \<Rightarrow> espconn_sig \<Rightarrow> ptr \<Rightarrow> ec \<Rightarrow> ec option" where
  "espconn_Task E sig par s =
     do {
       n \<leftarrow> find_node ms_pnext (ec_msgs s) (\<lambda>a _. par = a) (plink_active s);
       if n = NULL then Some s
       else do {
         m \<leftarrow> deref (ec_msgs s) par;
         case sig of
           SIG_ESPCONN_WRITE \<Rightarrow>
             if ms_pespconn m = NULL then Some s
             else do {
               e \<leftarrow> deref (espconns s) (ms_pespconn m);
               t \<leftarrow> deref (esp_tcps s) (es_proto e);
               Some (if et_write_finish_fn t \<noteq> NULL
                     then ec_user E (Write_finish_fn (et_write_finish_fn t) (ms_pespconn m)) s
                     else s) }
         | SIG_ESPCONN_ERRER \<Rightarrow> do {
             s1 \<leftarrow> (if \<not> espconn_manual_recv_disabled m then active_delete par s else Some s);
             espconn_tcp_reconnect E par s1 }
         | SIG_ESPCONN_CLOSE \<Rightarrow> do {
             s1 \<leftarrow> (if \<not> espconn_manual_recv_disabled m then active_delete par s else Some s);
             espconn_tcp_disconnect_successful E par s1 } } }"

section \<open>Sending\<close>

text \<open>The loop around \<open>tcp_write\<close>, which tries shorter pieces while lwIP is out of memory.\<close>

partial_function (option) tcp_write_loop ::
  "ec_env \<Rightarrow> ptr \<Rightarrow> ptr \<Rightarrow> u8 \<Rightarrow> u16 \<Rightarrow> ec \<Rightarrow> (err_t \<times> u16 \<times> ec) option" where
  "tcp_write_loop E pcb psent flag len s =
     (let (err, s1) = ec_ask E (Tcp_write pcb psent len flag) s;
          len1 = (if err = git_mem (ee_errs E) then if len < 3 then len - 1 else len div 2 else len)
      in if err = git_mem (ee_errs E) \<and> len1 > 0 then tcp_write_loop E pcb psent flag len1 s1
         else Some (err, len1, s1))"

declare tcp_write_loop.simps [code]

definition espconn_tcp_sent :: "ec_env \<Rightarrow> ptr \<Rightarrow> ptr \<Rightarrow> u16 \<Rightarrow> ec \<Rightarrow> (err_t \<times> ec) option" where
  "espconn_tcp_sent E arg psent len s =
     (if arg = NULL \<or> psent = NULL \<or> len = 0 then Some (ESPCONN_ARG, s)
      else do {
        m \<leftarrow> deref (ec_msgs s) arg;
        let pcb = cp_pcb (ms_pcommon m);
        b \<leftarrow> deref (lw_tcp (ec_lwip s)) pcb;
        let len0 = (if tp_snd_buf b < len then tp_snd_buf b else len);
        let len1 = (if unat len0 > 2 * unat (tp_mss b) then of_nat (2 * unat (tp_mss b)) else len0);
        (err, n, s1) \<leftarrow> tcp_write_loop E pcb psent (if espconn_copy_disabled m then 1 else 0) len1 s;
        if err = git_ok (ee_errs E)
        then do {
          let tail = cp_ptail (ms_pcommon m);
          t \<leftarrow> deref (ec_bufs s1) tail;
          let unsent = len - n;
          let s2 = s1\<lparr>ec_bufs := (ec_bufs s1)(tail \<mapsto>
                        t\<lparr>eb_punsent := psent + unat n, eb_unsent := unsent\<rparr>)\<rparr>;
          let (err1, s3) = ec_ask E (Tcp_output pcb) s2;
          s4 \<leftarrow> (if espconn_copy_disabled m \<and> unsent = 0
                 then do { s4 \<leftarrow> upd_common arg (\<lambda>c. c\<lparr>cp_write_flag := True\<rparr>) s3;
                           Some (ec_do E (Ets_post SIG_ESPCONN_WRITE arg) s4) }
                 else Some s3);
          Some (err1, s4) }
        else Some (err, s1) })"

text \<open>\<open>espconn_tcp_write\<close>: hand over the buffers while lwIP has room to send.\<close>

partial_function (option) tcp_write_all :: "ec_env \<Rightarrow> ptr \<Rightarrow> ptr \<Rightarrow> err_t \<Rightarrow> ec \<Rightarrow> (err_t \<times> ec) option" where
  "tcp_write_all E arg pcb err s =
     do {
       b \<leftarrow> deref (lw_tcp (ec_lwip s)) pcb;
       if tp_snd_buf b = 0 then Some (err, s)
       else do {
         m \<leftarrow> deref (ec_msgs s) arg;
         let tail = cp_ptail (ms_pcommon m);
         if tail = NULL then Some (err, s)
         else do {
           t \<leftarrow> deref (ec_bufs s) tail;
           if eb_unsent t = 0
           then do {
             s1 \<leftarrow> upd_common arg (\<lambda>c. c\<lparr>cp_ptail := eb_pnext t\<rparr>) s;
             tcp_write_all E arg pcb err s1 }
           else do {
             (err1, s1) \<leftarrow> espconn_tcp_sent E arg (eb_punsent t) (eb_unsent t) s;
             if err1 \<noteq> git_ok (ee_errs E) then Some (err1, s1)
             else tcp_write_all E arg pcb err1 s1 } } } }"

declare tcp_write_all.simps [code]

definition espconn_tcp_write :: "ec_env \<Rightarrow> ptr \<Rightarrow> ec \<Rightarrow> (err_t \<times> ec) option" where
  "espconn_tcp_write E arg s =
     do {
       m \<leftarrow> deref (ec_msgs s) arg;
       let pcb = cp_pcb (ms_pcommon m);
       b \<leftarrow> deref (lw_tcp (ec_lwip s)) pcb;
       if tp_nodelay b \<and> unat (tp_snd_queuelen b) \<ge> TCP_SND_QUEUELEN (ee_mss E)
       then Some (ESPCONN_MEM, s)
       else tcp_write_all E arg pcb (git_ok (ee_errs E)) s }"

text \<open>
  \<open>espconn_tcp_finish\<close>: the loop frees the buffers that are acknowledged completely; \<open>len\<close> is
  the part of the acknowledgement that goes beyond the buffer.
\<close>

partial_function (option) tcp_finish_loop :: "ec_env \<Rightarrow> ptr \<Rightarrow> u16 \<Rightarrow> ec \<Rightarrow> ec option" where
  "tcp_finish_loop E arg len s =
     do {
       m \<leftarrow> deref (ec_msgs s) arg;
       let premove = cp_pbuf (ms_pcommon m);
       if premove = NULL then Some s
       else do {
         b0 \<leftarrow> deref (ec_bufs s) premove;
         let b = b0\<lparr>eb_tot_len := eb_tot_len b0 + len\<rparr>;
         let s1 = s\<lparr>ec_bufs := (ec_bufs s)(premove \<mapsto> b)\<rparr>;
         if eb_tot_len b \<ge> eb_len b
         then do {
           s2 \<leftarrow> pbuf_delete arg premove s1;
           let len1 = eb_tot_len b - eb_len b;
           s3 \<leftarrow> upd_common arg (\<lambda>c. c\<lparr>cp_packet_info := (cp_packet_info c)\<lparr>ep_sent_length := eb_len b\<rparr>\<rparr>) s2;
           h \<leftarrow> os_free (ec_bufs s3) premove;
           s4 \<leftarrow> upd_espconn (ms_pespconn m) (\<lambda>e. e\<lparr>es_state := ESPCONN_CONNECT\<rparr>) (s3\<lparr>ec_bufs := h\<rparr>);
           e \<leftarrow> deref (espconns s4) (ms_pespconn m);
           let s5 = (if es_sent_callback e \<noteq> NULL
                     then ec_user E (Sent_callback (es_sent_callback e) (ms_pespconn m)) s4 else s4);
           s6 \<leftarrow> upd_common arg (\<lambda>c. c\<lparr>cp_packet_info := (cp_packet_info c)\<lparr>ep_sent_length := len1\<rparr>\<rparr>) s5;
           tcp_finish_loop E arg len1 s6 }
         else Some s1 } }"

declare tcp_finish_loop.simps [code]

definition espconn_tcp_finish :: "ec_env \<Rightarrow> ptr \<Rightarrow> ec \<Rightarrow> ec option" where
  "espconn_tcp_finish E arg s =
     do { (_, s1) \<leftarrow> espconn_tcp_write E arg s; tcp_finish_loop E arg 0 s1 }"

text \<open>\<open>espconn_client_sent\<close> and \<open>espconn_server_sent\<close>: \<open>len\<close> bytes are acknowledged.\<close>

definition acknowledge :: "(comon_pkt \<Rightarrow> comon_pkt) \<Rightarrow> ec_env \<Rightarrow> ptr \<Rightarrow> ptr \<Rightarrow> u16 \<Rightarrow> ec \<Rightarrow> (err_t \<times> ec) option" where
  "acknowledge f E arg pcb len s =
     do {
       s1 \<leftarrow> upd_common arg (\<lambda>c. f (c\<lparr>cp_pcb := pcb\<rparr>)) s;
       m \<leftarrow> deref (ec_msgs s1) arg;
       b \<leftarrow> deref (ec_bufs s1) (cp_pbuf (ms_pcommon m));
       s2 \<leftarrow> upd_common arg (\<lambda>c. c\<lparr>cp_packet_info := (cp_packet_info c)\<lparr>ep_sent_length := len\<rparr>\<rparr>)
               (s1\<lparr>ec_bufs := (ec_bufs s1)(cp_pbuf (ms_pcommon m) \<mapsto> b\<lparr>eb_tot_len := eb_tot_len b + len\<rparr>)\<rparr>);
       s3 \<leftarrow> espconn_tcp_finish E arg s2;
       Some (git_ok (ee_errs E), s3) }"

definition espconn_client_sent :: "ec_env \<Rightarrow> ptr \<Rightarrow> ptr \<Rightarrow> u16 \<Rightarrow> ec \<Rightarrow> (err_t \<times> ec) option" where
  "espconn_client_sent = acknowledge (\<lambda>c. c)"

definition espconn_server_sent :: "ec_env \<Rightarrow> ptr \<Rightarrow> ptr \<Rightarrow> u16 \<Rightarrow> ec \<Rightarrow> (err_t \<times> ec) option" where
  "espconn_server_sent = acknowledge (\<lambda>c. c\<lparr>cp_recv_check := 0\<rparr>)"

end
