(* ===== verification/Espconn_Connection.thy ===== *)
theory Espconn_Connection
  imports Espconn_Tcp
begin

text \<open>
  The rest of \<^verbatim>\<open>espconn_tcp.c\<close>: closing, receiving, errors, and how connections come to be
  (a client that connects, a server that accepts).
\<close>

section \<open>Closing\<close>

definition espconn_client_close :: "ec_env \<Rightarrow> ptr \<Rightarrow> ptr \<Rightarrow> u8 \<Rightarrow> ec \<Rightarrow> ec option" where
  "espconn_client_close E arg pcb type s =
     do {
       s1 \<leftarrow> upd_common arg (\<lambda>c. c\<lparr>cp_pcb := pcb\<rparr>) s;
       let s2 = ec_do E (Tcp_recv pcb No_handler) s1;
       let (err, s3) = (if type = 0 then ec_ask E (Tcp_close pcb) s2
                        else (git_ok (ee_errs E), ec_do E (Tcp_abort pcb)
                               (ec_do E (Tcp_err pcb No_handler)
                                 (ec_do E (Tcp_sent pcb No_handler) s2))));
       if err \<noteq> git_ok (ee_errs E) then Some (ec_do E (Tcp_recv pcb Client_recv) s3)
       else do {
         let s4 = (if type = 0 then ec_do E (Tcp_err pcb No_handler)
                                      (ec_do E (Tcp_sent pcb No_handler) s3) else s3);
         m \<leftarrow> deref (ec_msgs s4) arg;
         s5 \<leftarrow> upd_espconn (ms_pespconn m) (\<lambda>e. e\<lparr>es_state := ESPCONN_CLOSE\<rparr>) s4;
         Some (ec_do E (Ets_post SIG_ESPCONN_CLOSE arg) s5) } }"

definition espconn_server_close :: "ec_env \<Rightarrow> ptr \<Rightarrow> ptr \<Rightarrow> u8 \<Rightarrow> ec \<Rightarrow> ec option" where
  "espconn_server_close E arg pcb type s =
     do {
       s1 \<leftarrow> upd_common arg (\<lambda>c. c\<lparr>cp_pcb := pcb\<rparr>) s;
       let s2 = ec_do E (Tcp_recv pcb No_handler) s1;
       let (err, s3) = (if type = 0 then ec_ask E (Tcp_close pcb) s2
                        else (git_ok (ee_errs E), ec_do E (Tcp_abort pcb)
                               (ec_do E (Tcp_err pcb No_handler)
                                 (ec_do E (Tcp_sent pcb No_handler)
                                   (ec_do E (Tcp_poll pcb No_handler 0) s2)))));
       if err \<noteq> git_ok (ee_errs E) then Some (ec_do E (Tcp_recv pcb Server_recv) s3)
       else do {
         let s4 = (if type = 0
                   then ec_do E (Tcp_err pcb No_handler) (ec_do E (Tcp_sent pcb No_handler)
                          (ec_do E (Tcp_poll pcb No_handler 0) s3)) else s3);
         m \<leftarrow> deref (ec_msgs s4) arg;
         s5 \<leftarrow> upd_espconn (ms_pespconn m) (\<lambda>e. e\<lparr>es_state := ESPCONN_CLOSE\<rparr>) s4;
         Some (ec_do E (Ets_post SIG_ESPCONN_CLOSE arg) s5) } }"

definition espconn_tcp_disconnect :: "ec_env \<Rightarrow> ptr \<Rightarrow> u8 \<Rightarrow> ec \<Rightarrow> ec option" where
  "espconn_tcp_disconnect E pdiscon type s =
     (if pdiscon \<noteq> NULL
      then do {
        m \<leftarrow> deref (ec_msgs s) pdiscon;
        if ms_preverse m \<noteq> NULL
        then espconn_server_close E pdiscon (cp_pcb (ms_pcommon m)) type s
        else espconn_client_close E pdiscon (cp_pcb (ms_pcommon m)) type s }
      else Some s)"

section \<open>Holding received data\<close>

definition espconn_recv_hold :: "ptr \<Rightarrow> ec \<Rightarrow> (err_t \<times> ec) option" where
  "espconn_recv_hold pesp s =
     (if pesp = NULL then Some (ESPCONN_ARG, s)
      else do {
        (value, pnode) \<leftarrow> espconn_find_connection pesp s;
        if \<not> value then Some (ESPCONN_ARG, s)
        else do {
          m \<leftarrow> deref (ec_msgs s) pnode;
          if ms_recv_hold_flag m = 0
          then do { s1 \<leftarrow> upd_msg pnode (\<lambda>m. m\<lparr>ms_recv_hold_flag := 1, ms_recv_holded_buf_Len := 0\<rparr>) s;
                    Some (ESPCONN_OK, s1) }
          else Some (ESPCONN_OK, s) } })"

definition espconn_recv_unhold :: "ec_env \<Rightarrow> ptr \<Rightarrow> ec \<Rightarrow> (err_t \<times> ec) option" where
  "espconn_recv_unhold E pesp s =
     (if pesp = NULL then Some (ESPCONN_ARG, s)
      else do {
        (value, pnode) \<leftarrow> espconn_find_connection pesp s;
        if \<not> value then Some (ESPCONN_ARG, s)
        else do {
          m \<leftarrow> deref (ec_msgs s) pnode;
          if ms_recv_hold_flag m = 1
          then do {
            e \<leftarrow> deref (espconns s) pesp;
            let s1 = (if es_type e = ESPCONN_TCP
                      then ec_do E (Tcp_recved (cp_pcb (ms_pcommon m)) (ms_recv_holded_buf_Len m)) s
                      else s);
            s2 \<leftarrow> upd_msg pnode (\<lambda>m. m\<lparr>ms_recv_holded_buf_Len := 0, ms_recv_hold_flag := 0\<rparr>) s1;
            Some (ESPCONN_OK, s2) }
          else Some (ESPCONN_OK, s) } })"

text \<open>\<open>a1\<close>, \<open>a2\<close>: whether the two allocations of \<open>ringbuf_new\<close> succeed.\<close>

definition espconn_lock_recv :: "ec_env \<Rightarrow> bool \<Rightarrow> bool \<Rightarrow> ptr \<Rightarrow> ec \<Rightarrow> (err_t \<times> ec) option" where
  "espconn_lock_recv E a1 a2 plockmsg s =
     (if plockmsg = NULL then Some (ESPCONN_ARG, s)
      else do {
        m \<leftarrow> deref (ec_msgs s) plockmsg;
        if ms_pespconn m = NULL then Some (ESPCONN_ARG, s)
        else do {
          e \<leftarrow> deref (espconns s) (ms_pespconn m);
          if es_recv_callback e = NULL
          then if ms_readbuf m = None
               then case ringbuf_new a1 a2 (TCP_WND (ee_mss E)) of
                      None \<Rightarrow> Some (ESPCONN_MEM, s)
                    | Some rb \<Rightarrow> do {
                        s1 \<leftarrow> upd_msg plockmsg (\<lambda>m. m\<lparr>ms_readbuf := Some rb\<rparr>) s;
                        espconn_recv_hold (ms_pespconn m) s1 }
               else espconn_recv_hold (ms_pespconn m) s
          else Some (ESPCONN_OK, s) } })"

definition espconn_unlock_recv :: "ec_env \<Rightarrow> ptr \<Rightarrow> ec \<Rightarrow> (err_t \<times> ec) option" where
  "espconn_unlock_recv E punlockmsg s =
     (if punlockmsg = NULL then Some (ESPCONN_ARG, s)
      else do {
        m \<leftarrow> deref (ec_msgs s) punlockmsg;
        if ms_pespconn m = NULL then Some (ESPCONN_ARG, s)
        else do {
          e \<leftarrow> deref (espconns s) (ms_pespconn m);
          if es_recv_callback e \<noteq> NULL then espconn_recv_unhold E (ms_pespconn m) s
          else Some (ESPCONN_OK, s) } })"

section \<open>Receiving\<close>

text \<open>
  The loops that store a chain of pbufs in the ring buffer read the next field of a pbuf
  after they have freed it. \<open>stop\<close> says whether the loop ends when \<open>ringbuf_memcpy_into\<close>
  returns NULL (without freeing that pbuf).
\<close>

partial_function (option) ring_store_loop :: "ec_env \<Rightarrow> bool \<Rightarrow> ptr \<Rightarrow> ptr \<Rightarrow> ec \<Rightarrow> ec option" where
  "ring_store_loop E stop arg pthis s =
     (if pthis = NULL then Some s
      else do {
        seg \<leftarrow> deref (lw_pbufs (ec_lwip s)) pthis;
        m \<leftarrow> deref (ec_msgs s) arg;
        rb \<leftarrow> ms_readbuf m;
        (rb1, ring) \<leftarrow> ringbuf_memcpy_into rb (sg_payload seg) (length (sg_payload seg));
        s1 \<leftarrow> upd_msg arg (\<lambda>m. m\<lparr>ms_readbuf := Some rb1\<rparr>) s;
        if stop \<and> ring = None then Some s1
        else do {
          let s2 = ec_do E (Free_pbuf pthis) s1;
          seg2 \<leftarrow> deref (lw_pbufs (ec_lwip s2)) pthis;
          ring_store_loop E stop arg (sg_next seg2) s2 } })"

declare ring_store_loop.simps [code]

definition espconn_tcp_recv ::
  "ec_env \<Rightarrow> bool \<Rightarrow> bool \<Rightarrow> ptr \<Rightarrow> ptr \<Rightarrow> ptr \<Rightarrow> err_t \<Rightarrow> ec \<Rightarrow> (err_t \<times> ec) option" where
  "espconn_tcp_recv E a1 a2 arg pcb p err s =
     do {
       let s1 = ec_do E (Tcp_arg pcb arg) s;
       m \<leftarrow> deref (ec_msgs s1) arg;
       case (case ms_readbuf m of Some rb \<Rightarrow> Some rb | None \<Rightarrow> ringbuf_new a1 a2 (TCP_WND (ee_mss E))) of
         None \<Rightarrow> Some (ESPCONN_MEM, s1)
       | Some rb \<Rightarrow> do {
           s2 \<leftarrow> upd_msg arg (\<lambda>m. m\<lparr>ms_readbuf := Some rb\<rparr>) s1;
           if err = git_ok (ee_errs E)
           then do {
             s3 \<leftarrow> upd_common arg (\<lambda>c. c\<lparr>cp_recv_check := 0\<rparr>) s2;
             if p \<noteq> NULL
             then do {
               s4 \<leftarrow> ring_store_loop E True arg p s3;
               m4 \<leftarrow> deref (ec_msgs s4) arg;
               rb4 \<leftarrow> ms_readbuf m4;
               s5 \<leftarrow> upd_espconn (ms_pespconn m4) (\<lambda>e. e\<lparr>es_state := ESPCONN_READ\<rparr>) s4;
               s6 \<leftarrow> upd_common arg (\<lambda>c. c\<lparr>cp_pcb := pcb\<rparr>) s5;
               e \<leftarrow> deref (espconns s6) (ms_pespconn m4);
               let s7 = (if es_recv_callback e \<noteq> NULL
                         then ec_user E (Recv_callback (es_recv_callback e) (ms_pespconn m4) None
                                (ringbuf_bytes_used rb4)) s6 else s6);
               b \<leftarrow> deref (lw_tcp (ec_lwip s7)) pcb;
               s8 \<leftarrow> (if tp_state b = ESTABLISHED
                      then upd_espconn (ms_pespconn m4) (\<lambda>e. e\<lparr>es_state := ESPCONN_CONNECT\<rparr>) s7
                      else Some s7);
               Some (git_ok (ee_errs E), s8) }
             else do {
               m3 \<leftarrow> deref (ec_msgs s3) arg;
               s4 \<leftarrow> (if ms_preverse m3 \<noteq> NULL then espconn_server_close E arg pcb 0 s3
                      else espconn_client_close E arg pcb 0 s3);
               Some (git_ok (ee_errs E), s4) } }
           else Some (git_ok (ee_errs E), s2) } }"

text \<open>
  The body that \<open>espconn_client_recv\<close> and \<open>espconn_server_recv\<close> share, but for the counter
  that the server clears (\<open>f\<close>) and for the closing function.
\<close>

definition stream_recv ::
  "(comon_pkt \<Rightarrow> comon_pkt) \<Rightarrow> (ptr \<Rightarrow> ptr \<Rightarrow> u8 \<Rightarrow> ec \<Rightarrow> ec option) \<Rightarrow> ec_env \<Rightarrow> bool \<Rightarrow> bool
    \<Rightarrow> ptr \<Rightarrow> ptr \<Rightarrow> ptr \<Rightarrow> err_t \<Rightarrow> ec \<Rightarrow> (err_t \<times> ec) option" where
  "stream_recv f close E a1 a2 arg pcb p err s =
     do {
       (_, s1) \<leftarrow> espconn_lock_recv E a1 a2 arg (ec_do E (Tcp_arg pcb arg) s);
       s2 \<leftarrow> (if p \<noteq> NULL
              then do {
                seg \<leftarrow> deref (lw_pbufs (ec_lwip s1)) p;
                m \<leftarrow> deref (ec_msgs s1) arg;
                if ms_recv_hold_flag m = 0 then Some (ec_do E (Tcp_recved pcb (sg_tot_len seg)) s1)
                else upd_msg arg (\<lambda>m. m\<lparr>ms_recv_holded_buf_Len :=
                       ms_recv_holded_buf_Len m + sg_tot_len seg\<rparr>) s1 }
              else Some s1);
       m \<leftarrow> deref (ec_msgs s2) arg;
       e \<leftarrow> deref (espconns s2) (ms_pespconn m);
       s6 \<leftarrow>
         (if es_recv_callback e \<noteq> NULL
          then if err = git_ok (ee_errs E) \<and> p \<noteq> NULL
               then do {
                 s3 \<leftarrow> upd_common arg f s2;
                 seg \<leftarrow> deref (lw_pbufs (ec_lwip s3)) p;
                 let (bs, s4) = ec_read E (Pbuf_copy_partial p (unat (sg_tot_len seg))) s3;
                 let s5 = ec_do E (Free_pbuf p) s4;
                 if bs \<noteq> []
                 then do {
                   s6 \<leftarrow> upd_espconn (ms_pespconn m) (\<lambda>e. e\<lparr>es_state := ESPCONN_READ\<rparr>) s5;
                   s7 \<leftarrow> upd_common arg (\<lambda>c. c\<lparr>cp_pcb := pcb\<rparr>) s6;
                   let s8 = ec_user E (Recv_callback (es_recv_callback e) (ms_pespconn m)
                                         (Some bs) (length bs)) s7;
                   b \<leftarrow> deref (lw_tcp (ec_lwip s8)) pcb;
                   if tp_state b = ESTABLISHED
                   then upd_espconn (ms_pespconn m) (\<lambda>e. e\<lparr>es_state := ESPCONN_CONNECT\<rparr>) s8
                   else Some s8 }
                 else Some s5 }
               else Some s2
          else ring_store_loop E False arg p s2);
       s9 \<leftarrow> (if err = git_ok (ee_errs E) \<and> p = NULL then close arg pcb 0 s6 else Some s6);
       Some (git_ok (ee_errs E), s9) }"

definition espconn_client_recv ::
  "ec_env \<Rightarrow> bool \<Rightarrow> bool \<Rightarrow> ptr \<Rightarrow> ptr \<Rightarrow> ptr \<Rightarrow> err_t \<Rightarrow> ec \<Rightarrow> (err_t \<times> ec) option" where
  "espconn_client_recv E = stream_recv (\<lambda>c. c) (espconn_client_close E) E"

definition espconn_server_recv ::
  "ec_env \<Rightarrow> bool \<Rightarrow> bool \<Rightarrow> ptr \<Rightarrow> ptr \<Rightarrow> ptr \<Rightarrow> err_t \<Rightarrow> ec \<Rightarrow> (err_t \<times> ec) option" where
  "espconn_server_recv E = stream_recv (\<lambda>c. c\<lparr>cp_recv_check := 0\<rparr>) (espconn_server_close E) E"

section \<open>Errors and polling\<close>

definition client_err_code :: "tcp_pcb \<Rightarrow> err_t \<Rightarrow> err_t" where
  "client_err_code b err =
     (case tp_state b of
        SYN_SENT \<Rightarrow> if tp_nrtx b = TCP_SYNMAXRTX then ESPCONN_CONN else err
      | ESTABLISHED \<Rightarrow> if tp_nrtx b = TCP_MAXRTX then ESPCONN_TIMEOUT else err
      | FIN_WAIT_1 \<Rightarrow> if tp_nrtx b = TCP_MAXRTX then ESPCONN_CLSD else err
      | FIN_WAIT_2 \<Rightarrow> ESPCONN_CLSD
      | CLOSED \<Rightarrow> ESPCONN_CONN
      | _ \<Rightarrow> err)"

definition espconn_client_err :: "ec_env \<Rightarrow> ptr \<Rightarrow> err_t \<Rightarrow> ec \<Rightarrow> ec option" where
  "espconn_client_err E arg err s =
     (if arg = NULL then Some s
      else do {
        m \<leftarrow> deref (ec_msgs s) arg;
        s1 \<leftarrow> upd_espconn (ms_pespconn m) (\<lambda>e. e\<lparr>es_state := ESPCONN_CLOSE\<rparr>) s;
        code \<leftarrow> (if err = git_abrt (ee_errs E)
                 then do { b \<leftarrow> deref (lw_tcp (ec_lwip s1)) (cp_pcb (ms_pcommon m));
                           Some (client_err_code b err) }
                 else Some err);
        s2 \<leftarrow> upd_common arg (\<lambda>c. c\<lparr>cp_err := code\<rparr>) s1;
        Some (ec_do E (Ets_post SIG_ESPCONN_ERRER arg) s2) })"

text \<open>The server's table leaves the old error code in the states it does not list.\<close>

definition server_err_code :: "tcp_pcb \<Rightarrow> err_t \<Rightarrow> err_t \<Rightarrow> err_t" where
  "server_err_code b old err =
     (case tp_state b of
        SYN_RCVD \<Rightarrow> if tp_nrtx b = TCP_SYNMAXRTX then ESPCONN_CONN else err
      | ESTABLISHED \<Rightarrow> if tp_nrtx b = TCP_MAXRTX then ESPCONN_TIMEOUT else err
      | CLOSE_WAIT \<Rightarrow> if tp_nrtx b = TCP_MAXRTX then ESPCONN_CLSD else err
      | LAST_ACK \<Rightarrow> ESPCONN_CLSD
      | CLOSED \<Rightarrow> ESPCONN_CONN
      | _ \<Rightarrow> old)"

definition esponn_server_err :: "ec_env \<Rightarrow> ptr \<Rightarrow> err_t \<Rightarrow> ec \<Rightarrow> ec option" where
  "esponn_server_err E arg err s =
     (if arg = NULL then Some s
      else do {
        m \<leftarrow> deref (ec_msgs s) arg;
        s1 \<leftarrow> upd_espconn (ms_pespconn m) (\<lambda>e. e\<lparr>es_state := ESPCONN_CLOSE\<rparr>) s;
        code \<leftarrow> (if err = git_abrt (ee_errs E)
                 then do { b \<leftarrow> deref (lw_tcp (ec_lwip s1)) (cp_pcb (ms_pcommon m));
                           Some (server_err_code b (cp_err (ms_pcommon m)) err) }
                 else Some err);
        s2 \<leftarrow> upd_common arg (\<lambda>c. c\<lparr>cp_err := code\<rparr>) s1;
        Some (ec_do E (Ets_post SIG_ESPCONN_ERRER arg) s2) })"

definition espconn_server_poll :: "ec_env \<Rightarrow> ptr \<Rightarrow> ptr \<Rightarrow> ec \<Rightarrow> (err_t \<times> ec) option" where
  "espconn_server_poll E arg pcb s =
     (if arg = NULL
      then Some (git_ok (ee_errs E),
                 ec_do E (Tcp_poll pcb No_handler 0) (ec_do E (Tcp_abandon pcb) s))
      else do {
        s1 \<leftarrow> upd_common arg (\<lambda>c. c\<lparr>cp_pcb := pcb\<rparr>) s;
        b \<leftarrow> deref (lw_tcp (ec_lwip s1)) pcb;
        s4 \<leftarrow>
          (if tp_state b = ESTABLISHED
           then do {
             s2 \<leftarrow> upd_common arg (\<lambda>c. c\<lparr>cp_recv_check := cp_recv_check c + 1\<rparr>) s1;
             m \<leftarrow> deref (ec_msgs s2) arg;
             let check = cp_recv_check (ms_pcommon m);
             if cp_timeout (ms_pcommon m) \<noteq> 0
             then if check \<ge> cp_timeout (ms_pcommon m)
                  then do { s3 \<leftarrow> upd_common arg (\<lambda>c. c\<lparr>cp_recv_check := 0\<rparr>) s2;
                            espconn_server_close E arg pcb 0 s3 }
                  else Some s2
             else do {
               n \<leftarrow> find_node ms_pnext (ec_msgs s2) (\<lambda>_ t. ms_pespconn t = ms_preverse m)
                      (pserver_list s2);
               if n = NULL then Some s2
               else do {
                 t \<leftarrow> deref (ec_msgs s2) n;
                 if cp_timeout (ms_pcommon t) \<noteq> 0
                 then if check \<ge> cp_timeout (ms_pcommon t)
                      then do { s3 \<leftarrow> upd_common arg (\<lambda>c. c\<lparr>cp_recv_check := 0\<rparr>) s2;
                                espconn_server_close E arg pcb 0 s3 }
                      else Some s2
                 else upd_common arg (\<lambda>c. c\<lparr>cp_recv_check := 0\<rparr>) s2 } } }
           else espconn_server_close E arg pcb 0 s1);
        Some (git_ok (ee_errs E), s4) })"

section \<open>A client connects\<close>

definition espconn_client_connect :: "ec_env \<Rightarrow> ptr \<Rightarrow> ptr \<Rightarrow> err_t \<Rightarrow> ec \<Rightarrow> (err_t \<times> ec) option" where
  "espconn_client_connect E arg tpcb err s =
     (if err \<noteq> git_ok (ee_errs E) then Some (err, s)
      else do {
        m \<leftarrow> deref (ec_msgs s) arg;
        s1 \<leftarrow> upd_espconn (ms_pespconn m) (\<lambda>e. e\<lparr>es_state := ESPCONN_CONNECT\<rparr>) s;
        b \<leftarrow> deref (lw_tcp (ec_lwip s1)) tpcb;
        s2 \<leftarrow> upd_common arg (\<lambda>c. c\<lparr>cp_err := err, cp_pcb := tpcb,
                 cp_local_port := ucast (tp_local_port b), cp_local_ip := tp_local_ip b,
                 cp_remote_port := ucast (tp_remote_port b), cp_remote_ip := bytes4 (tp_remote_ip b),
                 cp_write_flag := True\<rparr>) s1;
        let s3 = ec_do E (Tcp_recv tpcb Client_recv) (ec_do E (Tcp_sent tpcb Client_sent)
                   (ec_do E (Tcp_arg tpcb arg) s2));
        s4 \<leftarrow> upd_pcb tpcb (\<lambda>b. b\<lparr>tp_nodelay := True\<rparr>) s3;
        (_, s5) \<leftarrow> espconn_tcp_set_buf_count E (ms_pespconn m) 1 s4;
        e \<leftarrow> deref (espconns s5) (ms_pespconn m);
        t \<leftarrow> deref (esp_tcps s5) (es_proto e);
        let s6 = (if et_connect_callback t \<noteq> NULL
                  then ec_user E (Connect_callback (et_connect_callback t) (ms_pespconn m)) s5 else s5);
        m6 \<leftarrow> deref (ec_msgs s6) arg;
        let s7 = (if espconn_manual_recv_disabled m6
                  then ec_do E (Tcp_recv tpcb Tcp_recv_handler) s6 else s6);
        s8 \<leftarrow> (if espconn_keepalive_disabled m6
               then upd_pcb tpcb (\<lambda>b. b\<lparr>tp_keepalive := True\<rparr>) s7 else Some s7);
        Some (err, s8) })"

definition espconn_tcp_client :: "ec_env \<Rightarrow> ptr \<Rightarrow> ptr \<Rightarrow> ec \<Rightarrow> (err_t \<times> ec) option" where
  "espconn_tcp_client E a pesp s =
     (if a = NULL then Some (ESPCONN_MEM, s)
      else do {
        let s1 = s\<lparr>ec_msgs := alloc (ec_msgs s) a msg_zero\<rparr>;
        e \<leftarrow> deref (espconns s1) pesp;
        t \<leftarrow> deref (esp_tcps s1) (es_proto e);
        let ipaddr = word4 (et_remote_ip t);
        let (pcb, s2) = ec_new E Tcp_new s1;
        if pcb = NULL
        then do { h \<leftarrow> os_free (ec_msgs s2) a; Some (ESPCONN_MEM, s2\<lparr>ec_msgs := h\<rparr>) }
        else do {
          s3 \<leftarrow> active_append a s2;
          let s4 = ec_do E (Tcp_err pcb Client_err) (ec_do E (Tcp_arg pcb a) s3);
          s5 \<leftarrow> upd_msg a (\<lambda>m. m\<lparr>ms_preverse := NULL, ms_pespconn := pesp,
                   ms_espconn_mode := ESPCONN_TCPCLIENT_MODE,
                   ms_pcommon := (ms_pcommon m)\<lparr>cp_pcb := pcb\<rparr>\<rparr>) s4;
          s6 \<leftarrow> upd_espconn pesp (\<lambda>e. e\<lparr>es_state := ESPCONN_WAIT\<rparr>) s5;
          let s7 = ec_do E (Tcp_bind pcb (ucast (et_local_port t))) s6;
          let (err, s8) = ec_ask E (Tcp_connect pcb ipaddr (ucast (et_remote_port t))) s7;
          s9 \<leftarrow> upd_common a (\<lambda>c. c\<lparr>cp_err := err\<rparr>) s8;
          if err = git_rte (ee_errs E)
          then do {
            s10 \<leftarrow> active_delete a s9;
            b \<leftarrow> deref (lw_tcp (ec_lwip s10)) pcb;
            s11 \<leftarrow> espconn_kill_pcb E (tp_local_port b) s10;
            h \<leftarrow> os_free (ec_msgs s11) a;
            Some (ESPCONN_RTE, s11\<lparr>ec_msgs := h\<rparr>) }
          else Some (err, s9) } })"

section \<open>A server accepts\<close>

text \<open>
  The two last parts of \<open>espconn_tcp_accept\<close>: the new message \<open>a\<close> and its descriptor \<open>a1\<close> get
  the addresses and the settings of the server \<open>pesp\<close>, whose TCP part is at \<open>proto\<close>; then lwIP
  gets the handlers and the application is told.
\<close>

definition accept_fill :: "ptr \<Rightarrow> ptr \<Rightarrow> ptr \<Rightarrow> ptr \<Rightarrow> ptr \<Rightarrow> ec \<Rightarrow> ec option" where
  "accept_fill a a1 pesp proto pcb s =
     do {
       b \<leftarrow> deref (lw_tcp (ec_lwip s)) pcb;
       s1 \<leftarrow> upd_common a (\<lambda>c. c\<lparr>cp_pcb := pcb, cp_remote_port := ucast (tp_remote_port b),
                cp_remote_ip := bytes4 (tp_remote_ip b), cp_write_flag := True\<rparr>) s;
       s2 \<leftarrow> upd_tcp proto (\<lambda>t. t\<lparr>et_remote_ip := bytes4 (tp_remote_ip b),
                et_remote_port := ucast (tp_remote_port b)\<rparr>) s1;
       s3 \<leftarrow> upd_espconn pesp (\<lambda>e. e\<lparr>es_state := ESPCONN_CONNECT\<rparr>) s2;
       espconn_copy_partial a1 pesp s3 }"

definition accept_ready :: "ec_env \<Rightarrow> ptr \<Rightarrow> ptr \<Rightarrow> ptr \<Rightarrow> ptr \<Rightarrow> ec \<Rightarrow> (err_t \<times> ec) option" where
  "accept_ready E a a1 a2 pcb s =
     do {
       let s1 = ec_do E (Tcp_poll pcb Server_poll 4) (ec_do E (Tcp_recv pcb Server_recv)
                  (ec_do E (Tcp_sent pcb Server_sent) s));
       s2 \<leftarrow> upd_pcb pcb (\<lambda>b. b\<lparr>tp_nodelay := True\<rparr>) s1;
       (_, s3) \<leftarrow> espconn_tcp_set_buf_count E a1 1 s2;
       t \<leftarrow> deref (esp_tcps s3) a2;
       let s4 = (if et_connect_callback t \<noteq> NULL
                 then ec_user E (Connect_callback (et_connect_callback t) a1) s3 else s3);
       m \<leftarrow> deref (ec_msgs s4) a;
       let s5 = (if espconn_manual_recv_disabled m
                 then ec_do E (Tcp_recv pcb Tcp_recv_handler) s4 else s4);
       s6 \<leftarrow> (if espconn_keepalive_disabled m
              then upd_pcb pcb (\<lambda>b. b\<lparr>tp_keepalive := True\<rparr>) s5 else Some s5);
       Some (git_ok (ee_errs E), s6) }"

text \<open>
  \<open>espconn_tcp_accept\<close>: \<open>a\<close>, \<open>a1\<close>, \<open>a2\<close> are what \<open>os_zalloc\<close> returns for the message, the
  descriptor and its TCP part. When one of the last two is NULL the message stays on the
  active list.
\<close>

definition espconn_tcp_accept ::
  "ec_env \<Rightarrow> ptr \<Rightarrow> ptr \<Rightarrow> ptr \<Rightarrow> ptr \<Rightarrow> ptr \<Rightarrow> ec \<Rightarrow> (err_t \<times> ec) option" where
  "espconn_tcp_accept E a a1 a2 pesp pcb s =
     (if pesp = NULL then Some (git_arg (ee_errs E), s)
      else do {
        e0 \<leftarrow> deref (espconns s) pesp;
        if es_proto e0 = NULL then Some (git_arg (ee_errs E), s)
        else do {
          let s1 = ec_do E (Tcp_err pcb Server_err) (ec_do E (Tcp_arg pcb NULL) s);
          (_, s2) \<leftarrow> espconn_get_connection_info pesp s1;
          e2 \<leftarrow> deref (espconns s2) pesp;
          allow \<leftarrow> espconn_tcp_get_max_con_allow pesp s2;
          if int (unat (es_link_cnt e2)) = allow then Some (git_isconn (ee_errs E), s2)
          else do {
            let s3 = ec_do E (Tcp_arg pcb a) (s2\<lparr>ec_msgs := alloc (ec_msgs s2) a msg_zero\<rparr>);
            if a = NULL then Some (git_mem (ee_errs E), s3)
            else do {
              s4 \<leftarrow> active_append a s3;
              s5 \<leftarrow> upd_msg a (\<lambda>m. m\<lparr>ms_preverse := pesp, ms_espconn_mode := ESPCONN_TCPSERVER_MODE,
                       ms_pespconn := a1\<rparr>)
                     (s4\<lparr>espconns := alloc (espconns s4) a1 espconn_zero\<rparr>);
              if a1 = NULL then Some (git_mem (ee_errs E), s5)
              else do {
                s6 \<leftarrow> upd_espconn a1 (\<lambda>e. e\<lparr>es_proto := a2\<rparr>)
                       (s5\<lparr>esp_tcps := alloc (esp_tcps s5) a2 esp_tcp_zero\<rparr>);
                if a2 = NULL then Some (git_mem (ee_errs E), s6)
                else do {
                  s7 \<leftarrow> accept_fill a a1 pesp (es_proto e0) pcb s6;
                  accept_ready E a a1 a2 pcb s7 } } } } } })"

definition espconn_tcp_server :: "ec_env \<Rightarrow> ptr \<Rightarrow> ptr \<Rightarrow> ec \<Rightarrow> (err_t \<times> ec) option" where
  "espconn_tcp_server E a pesp s =
     (if a = NULL then Some (ESPCONN_MEM, s)
      else do {
        let (pcb, s2) = ec_new E Tcp_new (s\<lparr>ec_msgs := alloc (ec_msgs s) a msg_zero\<rparr>);
        if pcb = NULL
        then do { h \<leftarrow> os_free (ec_msgs s2) a; Some (ESPCONN_MEM, s2\<lparr>ec_msgs := h\<rparr>) }
        else do {
          e \<leftarrow> deref (espconns s2) pesp;
          t \<leftarrow> deref (esp_tcps s2) (es_proto e);
          let (lpcb, s3) = ec_new E (Tcp_listen pcb) (ec_do E (Tcp_bind pcb (ucast (et_local_port t))) s2);
          if lpcb \<noteq> NULL
          then do {
            s4 \<leftarrow> server_append a s3;
            s5 \<leftarrow> upd_msg a (\<lambda>m. m\<lparr>ms_preverse := lpcb, ms_pespconn := pesp,
                     ms_count_opt := MEMP_NUM_TCP_PCB,
                     ms_pcommon := (ms_pcommon m)\<lparr>cp_timeout := 0x0a\<rparr>\<rparr>) s4;
            s6 \<leftarrow> upd_espconn pesp (\<lambda>e. e\<lparr>es_state := ESPCONN_LISTEN\<rparr>) s5;
            Some (ESPCONN_OK, ec_do E (Tcp_accept lpcb Accept_handler)
                                (ec_do E (Tcp_arg lpcb pesp) s6)) }
          else do {
            let s4 = ec_do E (Memp_free pcb) s3;
            h \<leftarrow> os_free (ec_msgs s4) a;
            Some (ESPCONN_MEM, s4\<lparr>ec_msgs := h\<rparr>) } } })"

definition espconn_tcp_delete :: "ec_env \<Rightarrow> ptr \<Rightarrow> ec \<Rightarrow> (err_t \<times> ec) option" where
  "espconn_tcp_delete E pdeletecon s =
     (if pdeletecon = NULL then Some (ESPCONN_ARG, s)
      else do {
        (_, s1) \<leftarrow> espconn_get_connection_info pdeletecon s;
        e \<leftarrow> deref (espconns s1) pdeletecon;
        if es_link_cnt e \<noteq> 0 then Some (ESPCONN_INPROGRESS, s1)
        else do {
          n \<leftarrow> find_node ms_pnext (ec_msgs s1) (\<lambda>_ m. ms_pespconn m = pdeletecon) (pserver_list s1);
          if n = NULL then Some (git_ok (ee_errs E), s1)
          else do {
            s2 \<leftarrow> server_delete n s1;
            m \<leftarrow> deref (ec_msgs s2) n;
            b \<leftarrow> deref (lw_tcp (ec_lwip s2)) (ms_preverse m);
            s3 \<leftarrow> espconn_kill_pcb E (tp_local_port b) s2;
            let (err, s4) = ec_ask E (Tcp_close (ms_preverse m)) s3;
            h \<leftarrow> os_free (ec_msgs s4) n;
            Some (if err = git_ok (ee_errs E) then err else ESPCONN_ARG, s4\<lparr>ec_msgs := h\<rparr>) } } })"

end
