(* ===== verification/Espconn_Udp.thy ===== *)
theory Espconn_Udp
  imports Espconn_Base
begin

text \<open>
  The UDP side of espconn (\<^verbatim>\<open>espconn_udp.c\<close>). Data longer than a frame is sent as several
  datagrams: each of \<open>espconn_udp_sent\<close> and \<open>espconn_udp_sendto\<close> sends the first part, and
  \<open>espconn_data_sent\<close> calls it again for the rest.
\<close>

section \<open>Sending\<close>

datatype send_opt = ESPCONN_SENDTO | ESPCONN_SEND

definition espconn_data_sentcb :: "ec_env \<Rightarrow> ptr \<Rightarrow> ec \<Rightarrow> ec option" where
  "espconn_data_sentcb E pesp s =
     (if pesp = NULL then Some s
      else do {
        e \<leftarrow> deref (espconns s) pesp;
        Some (if es_sent_callback e \<noteq> NULL
              then ec_user E (Sent_callback (es_sent_callback e) pesp) s else s) })"

text \<open>\<open>n\<close> bytes of the application from the address \<open>p\<close>.\<close>

definition app_bytes :: "ec_env \<Rightarrow> ptr \<Rightarrow> nat \<Rightarrow> u8 list" where
  "app_bytes E p n = map (\<lambda>i. ee_mem E (p + i)) [0..<n]"

text \<open>Both interfaces are to get a broadcast: the mode, and the address on both.\<close>

definition both_interfaces :: "ec_env \<Rightarrow> u32 \<Rightarrow> bool" where
  "both_interfaces E ip \<longleftrightarrow>
     ee_opmode E = ESPCONN_AP_STA \<and> ee_default_interface E = ESPCONN_AP_STA
     \<and> ee_getif E 0 \<noteq> NULL \<and> ee_getif E 1 \<noteq> NULL
     \<and> ee_is_up E (ee_getif E 0) \<and> ee_is_up E (ee_getif E 1)
     \<and> ee_isbroadcast E ip (ee_getif E 0) \<and> ee_isbroadcast E ip (ee_getif E 1)"

definition frame_len :: "ec_env \<Rightarrow> u16 \<Rightarrow> u16" where
  "frame_len E len = (if int (ee_frag_mtu E) - 20 - 8 < int (unat len)
                      then of_int (int (ee_frag_mtu E) - 20 - 8) else len)"

text \<open>
  One pass of \<open>espconn_udp_sent\<close> and of \<open>espconn_udp_sendto\<close> up to the call of
  \<open>espconn_data_sent\<close>: \<open>Inl\<close> is an early return, \<open>Inr\<close> the result of the datagram. The pbuf
  of \<open>pbuf_alloc (PBUF_TRANSPORT, datalen, PBUF_RAM)\<close> holds \<open>datalen\<close> bytes, and the copying
  loop fills it with the first \<open>datalen\<close> bytes of the data. The two differ in where the
  destination goes.
\<close>

definition udp_finish_packet ::
  "ptr \<Rightarrow> ptr \<Rightarrow> u16 \<Rightarrow> u16 \<Rightarrow> err_t \<Rightarrow> ptr \<Rightarrow> ec_env \<Rightarrow> ec \<Rightarrow> ((err_t + err_t) \<times> ec) option" where
  "udp_finish_packet arg psent len datalen err p E s =
     do {
       seg \<leftarrow> deref (lw_pbufs (ec_lwip s)) p;
       if sg_ref seg \<noteq> 0
       then do {
         s1 \<leftarrow> upd_common arg (\<lambda>c. c\<lparr>cp_ptrbuf := psent + unat datalen, cp_cntr := len - datalen,
                  cp_err := err\<rparr>) (ec_do E (Free_pbuf p) s);
         Some (Inr err, s1) }
       else Some (Inl ESPCONN_RTE, ec_do E (Free_pbuf p) s) }"

definition udp_sent_packet ::
  "ec_env \<Rightarrow> ptr \<Rightarrow> ptr \<Rightarrow> u16 \<Rightarrow> ec \<Rightarrow> ((err_t + err_t) \<times> ec) option" where
  "udp_sent_packet E arg psent len s =
     do {
       m \<leftarrow> deref (ec_msgs s) arg;
       let upcb = cp_pcb (ms_pcommon m);
       if upcb = NULL \<or> psent = NULL \<or> len = 0 then Some (Inl ESPCONN_ARG, s)
       else do {
         let datalen = frame_len E len;
         let (p, s1) = ec_new E (Pbuf_alloc (unat datalen)) s;
         if p = NULL then Some (Inl ESPCONN_MEM, s1)
         else do {
           let bs = app_bytes E psent (unat datalen);
           e \<leftarrow> deref (espconns s1) (ms_pespconn m);
           u \<leftarrow> deref (esp_udps s1) (es_proto e);
           b \<leftarrow> deref (lw_udp (ec_lwip s1)) upcb;
           let ip = word4 (eu_remote_ip u);
           let s2 = s1\<lparr>ec_lwip := (ec_lwip s1)\<lparr>lw_udp := (lw_udp (ec_lwip s1))(upcb \<mapsto>
                       b\<lparr>up_remote_port := ucast (eu_remote_port u), up_remote_ip := ip\<rparr>)\<rparr>\<rparr>;
           if both_interfaces E ip
           then do {
             let (p_temp, s3) = ec_new E (Pbuf_alloc (unat datalen)) s2;
             let (cerr, s4) = ec_ask E (Pbuf_copy p_temp p) s3;
             if cerr \<noteq> git_ok (ee_errs E) then Some (Inl ESPCONN_ARG, s4)
             else do {
               let (err0, s5) = ec_ask E (Udp_send upcb bs) (ec_do E (Set_default (ee_getif E 0)) s4);
               let s6 = ec_do E (Set_default (ee_getif E 1)) (ec_do E (Free_pbuf p_temp) s5);
               let (err, s7) = ec_ask E (Udp_send upcb bs) s6;
               udp_finish_packet arg psent len datalen err p E s7 } }
           else do {
             let (err, s3) = ec_ask E (Udp_send upcb bs) s2;
             udp_finish_packet arg psent len datalen err p E s3 } } } }"

definition udp_sendto_packet ::
  "ec_env \<Rightarrow> ptr \<Rightarrow> ptr \<Rightarrow> u16 \<Rightarrow> ec \<Rightarrow> ((err_t + err_t) \<times> ec) option" where
  "udp_sendto_packet E arg psent len s =
     do {
       m \<leftarrow> deref (ec_msgs s) arg;
       let upcb = cp_pcb (ms_pcommon m);
       if upcb = NULL \<or> psent = NULL \<or> len = 0 then Some (Inl ESPCONN_ARG, s)
       else do {
         let datalen = frame_len E len;
         let (p, s1) = ec_new E (Pbuf_alloc (unat datalen)) s;
         if p = NULL then Some (Inl ESPCONN_MEM, s1)
         else do {
           let bs = app_bytes E psent (unat datalen);
           e \<leftarrow> deref (espconns s1) (ms_pespconn m);
           u \<leftarrow> deref (esp_udps s1) (es_proto e);
           let dst_port = ucast (eu_remote_port u);
           let dst_ip = word4 (eu_remote_ip u);
           b \<leftarrow> deref (lw_udp (ec_lwip s1)) upcb;
           if both_interfaces E (up_remote_ip b)
           then do {
             let (p_temp, s3) = ec_new E (Pbuf_alloc (unat datalen)) s1;
             let (cerr, s4) = ec_ask E (Pbuf_copy p_temp p) s3;
             if cerr \<noteq> git_ok (ee_errs E) then Some (Inl ESPCONN_ARG, s4)
             else do {
               let (err0, s5) = ec_ask E (Udp_sendto upcb bs dst_ip dst_port)
                                  (ec_do E (Set_default (ee_getif E 0)) s4);
               let s6 = ec_do E (Set_default (ee_getif E 1)) (ec_do E (Free_pbuf p_temp) s5);
               let (err, s7) = ec_ask E (Udp_sendto upcb bs dst_ip dst_port) s6;
               udp_finish_packet arg psent len datalen err p E s7 } }
           else do {
             let (err, s3) = ec_ask E (Udp_sendto upcb bs dst_ip dst_port) s1;
             udp_finish_packet arg psent len datalen err p E s3 } } } }"

text \<open>
  The recursion through \<open>espconn_data_sent\<close>. What the inner call returns is dropped, as in the
  code: the result is that of the first datagram.
\<close>

partial_function (option) udp_send_all ::
  "ec_env \<Rightarrow> send_opt \<Rightarrow> ptr \<Rightarrow> ptr \<Rightarrow> u16 \<Rightarrow> ec \<Rightarrow> (err_t \<times> ec) option" where
  "udp_send_all E opt arg psent len s =
     do {
       (r, s1) \<leftarrow> (case opt of ESPCONN_SEND \<Rightarrow> udp_sent_packet E arg psent len s
                              | ESPCONN_SENDTO \<Rightarrow> udp_sendto_packet E arg psent len s);
       case r of
         Inl err \<Rightarrow> Some (err, s1)
       | Inr err \<Rightarrow> do {
           m \<leftarrow> deref (ec_msgs s1) arg;
           s2 \<leftarrow> (if cp_cntr (ms_pcommon m) = 0
                  then do {
                    s2 \<leftarrow> upd_espconn (ms_pespconn m) (\<lambda>e. e\<lparr>es_state := ESPCONN_CONNECT\<rparr>) s1;
                    if cp_err (ms_pcommon m) = 0 then espconn_data_sentcb E (ms_pespconn m) s2
                    else Some s2 }
                  else do {
                    (_, s2) \<leftarrow> udp_send_all E opt arg (cp_ptrbuf (ms_pcommon m))
                                (cp_cntr (ms_pcommon m)) s1;
                    Some s2 });
           Some (if err > 0 then ESPCONN_IF else err, s2) } }"

declare udp_send_all.simps [code]

definition espconn_udp_sent :: "ec_env \<Rightarrow> ptr \<Rightarrow> ptr \<Rightarrow> u16 \<Rightarrow> ec \<Rightarrow> (err_t \<times> ec) option" where
  "espconn_udp_sent E = udp_send_all E ESPCONN_SEND"

definition espconn_udp_sendto :: "ec_env \<Rightarrow> ptr \<Rightarrow> ptr \<Rightarrow> u16 \<Rightarrow> ec \<Rightarrow> (err_t \<times> ec) option" where
  "espconn_udp_sendto E = udp_send_all E ESPCONN_SENDTO"

section \<open>Receiving\<close>

definition espconn_udp_recv ::
  "ec_env \<Rightarrow> ptr \<Rightarrow> ptr \<Rightarrow> ptr \<Rightarrow> u32 \<Rightarrow> u16 \<Rightarrow> ec \<Rightarrow> ec option" where
  "espconn_udp_recv E arg upcb p addr port s =
     do {
       s1 \<leftarrow> upd_common arg (\<lambda>c. c\<lparr>cp_remote_ip := bytes4 addr, cp_remote_port := ucast port,
                                   cp_pcb := upcb\<rparr>) s;
       let ipconfig =
         (if ee_opmode E \<noteq> 1
          then let (ip, netmask) = ee_ip_info E 1
               in if addr AND netmask = ip AND netmask then ip else fst (ee_ip_info E 0)
          else fst (ee_ip_info E 0));
       m \<leftarrow> deref (ec_msgs s1) arg;
       e \<leftarrow> deref (espconns s1) (ms_pespconn m);
       u \<leftarrow> deref (esp_udps s1) (es_proto e);
       let s2 = s1\<lparr>esp_udps := (esp_udps s1)(es_proto e \<mapsto> u\<lparr>eu_local_ip := bytes4 ipconfig\<rparr>)\<rparr>;
       if p = NULL then Some s2
       else do {
         seg \<leftarrow> deref (lw_pbufs (ec_lwip s2)) p;
         let (bs, s3) = ec_read E (Pbuf_copy_partial p (unat (sg_tot_len seg))) s2;
         let s4 = ec_do E (Free_pbuf p) s3;
         Some (if bs \<noteq> [] \<and> es_recv_callback e \<noteq> NULL
               then ec_user E (Recv_callback (es_recv_callback e) (ms_pespconn m) (Some bs) (length bs)) s4
               else s4) } }"

section \<open>Creating and removing a connection, multicast\<close>

definition espconn_udp_disconnect :: "ec_env \<Rightarrow> ptr \<Rightarrow> ec \<Rightarrow> ec option" where
  "espconn_udp_disconnect E pdiscon s =
     (if pdiscon = NULL then Some s
      else do {
        m \<leftarrow> deref (ec_msgs s) pdiscon;
        let upcb = cp_pcb (ms_pcommon m);
        s1 \<leftarrow> active_delete pdiscon (ec_do E (Udp_remove upcb) (ec_do E (Udp_disconnect upcb) s));
        h \<leftarrow> os_free (ec_msgs s1) pdiscon;
        Some (s1\<lparr>ec_msgs := h\<rparr>) })"

text \<open>\<open>a\<close> is what \<open>os_zalloc\<close> returns for the message.\<close>

definition espconn_udp_server :: "ec_env \<Rightarrow> ptr \<Rightarrow> ptr \<Rightarrow> ec \<Rightarrow> (err_t \<times> ec) option" where
  "espconn_udp_server E a pesp s =
     (let (upcb, s1) = ec_new E Udp_new s
      in if upcb = NULL then Some (ESPCONN_MEM, s1)
         else if a = NULL then Some (ESPCONN_MEM, ec_do E (Udp_remove upcb) s1)
         else do {
           s2 \<leftarrow> upd_msg a (\<lambda>m. m\<lparr>ms_pcommon := (ms_pcommon m)\<lparr>cp_pcb := upcb\<rparr>,
                                 ms_pespconn := pesp\<rparr>)
                  (s1\<lparr>ec_msgs := alloc (ec_msgs s1) a msg_zero\<rparr>);
           s3 \<leftarrow> active_append a s2;
           e \<leftarrow> deref (espconns s3) pesp;
           u \<leftarrow> deref (esp_udps s3) (es_proto e);
           Some (ESPCONN_OK, ec_do E (Udp_recv upcb a)
                              (ec_do E (Udp_bind upcb (ucast (eu_local_port u))) s3)) })"

definition espconn_igmp_leave :: "ec_env \<Rightarrow> u32 \<Rightarrow> u32 \<Rightarrow> ec \<Rightarrow> err_t \<times> ec" where
  "espconn_igmp_leave E host_ip multicast_ip s =
     (let (err, s1) = ec_ask E (Igmp_leavegroup host_ip multicast_ip) s
      in (if err \<noteq> git_ok (ee_errs E) then -1 else ESPCONN_OK, s1))"

definition espconn_igmp_join :: "ec_env \<Rightarrow> u32 \<Rightarrow> u32 \<Rightarrow> ec \<Rightarrow> err_t \<times> ec" where
  "espconn_igmp_join E host_ip multicast_ip s =
     (let (err, s1) = ec_ask E (Igmp_joingroup host_ip multicast_ip) s
      in (if err \<noteq> git_ok (ee_errs E) then -1 else ESPCONN_OK, s1))"

end
