(* ===== verification/Espconn_Api.thy ===== *)
theory Espconn_Api
  imports Espconn_Connection Espconn_Udp
begin

text \<open>
  The calls of \<^verbatim>\<open>espconn.c\<close> with which the application connects, listens, sends and
  disconnects: they check their arguments and the state and go on in the TCP or UDP side.
\<close>

section \<open>Connecting and listening\<close>

text \<open>The check of the interfaces in \<open>espconn_connect\<close>: \<open>Some\<close> error, or \<open>None\<close> to go on.\<close>

definition connect_route :: "ec_env \<Rightarrow> u32 \<Rightarrow> err_t option" where
  "connect_route E remote =
     (if ee_opmode E = ESPCONN_STA
      then if fst (ee_ip_info E 0) = 0 then Some ESPCONN_RTE else None
      else if ee_opmode E = ESPCONN_AP
      then if fst (ee_ip_info E 1) = 0 then Some ESPCONN_RTE else None
      else if ee_opmode E = ESPCONN_AP_STA
      then if push_bit 8 remote \<noteq> push_bit 8 (fst (ee_ip_info E 1))
           then if ee_connect_status E = ee_station_got_ip E
                then if fst (ee_ip_info E 0) = 0 then Some ESPCONN_RTE else None
                else if ee_connect_status E = ee_station_idle E then Some ESPCONN_RTE
                else Some (sint (ee_connect_status E))
           else None
      else None)"

definition espconn_connect :: "ec_env \<Rightarrow> ptr \<Rightarrow> ptr \<Rightarrow> ec \<Rightarrow> (err_t \<times> ec) option" where
  "espconn_connect E a pesp s =
     (if pesp = NULL then Some (ESPCONN_ARG, s)
      else do {
        e \<leftarrow> deref (espconns s) pesp;
        if es_type e \<noteq> ESPCONN_TCP then Some (ESPCONN_ARG, s)
        else do {
          n \<leftarrow> espconn_get_acticve_num ESPCONN_TCP s;
          if n \<ge> espconn_tcp_get_max_con then Some (ESPCONN_ISCONN, s)
          else do {
            remote \<leftarrow> (if ee_opmode E = ESPCONN_AP_STA
                       then map_option (\<lambda>t. word4 (et_remote_ip t)) (deref (esp_tcps s) (es_proto e))
                       else Some 0);
            case connect_route E remote of
              Some err \<Rightarrow> Some (err, s)
            | None \<Rightarrow> do {
                taken \<leftarrow> port_taken s ESPCONN_TCP pesp (plink_active s);
                if taken then Some (ESPCONN_ISCONN, s) else espconn_tcp_client E a pesp s } } } })"

definition espconn_create :: "ec_env \<Rightarrow> ptr \<Rightarrow> ptr \<Rightarrow> ec \<Rightarrow> (err_t \<times> ec) option" where
  "espconn_create E a pesp s =
     (if pesp = NULL then Some (ESPCONN_ARG, s)
      else do {
        e \<leftarrow> deref (espconns s) pesp;
        if es_type e \<noteq> ESPCONN_UDP then Some (ESPCONN_ARG, s)
        else do {
          taken \<leftarrow> port_taken s ESPCONN_UDP pesp (plink_active s);
          if taken then Some (ESPCONN_ISCONN, s) else espconn_udp_server E a pesp s } })"

definition espconn_accept :: "ec_env \<Rightarrow> ptr \<Rightarrow> ptr \<Rightarrow> ec \<Rightarrow> (err_t \<times> ec) option" where
  "espconn_accept E a pesp s =
     (if pesp = NULL then Some (ESPCONN_ARG, s)
      else do {
        e \<leftarrow> deref (espconns s) pesp;
        if es_type e \<noteq> ESPCONN_TCP then Some (ESPCONN_ARG, s)
        else do {
          taken \<leftarrow> port_taken s ESPCONN_TCP pesp (plink_active s);
          if taken then Some (ESPCONN_ISCONN, s) else espconn_tcp_server E a pesp s } })"

section \<open>Sending\<close>

text \<open>\<open>a\<close>: what \<open>os_zalloc\<close> returns for the buffer.\<close>

definition espconn_sent_tcp :: "ec_env \<Rightarrow> ptr \<Rightarrow> ptr \<Rightarrow> ptr \<Rightarrow> u16 \<Rightarrow> ec \<Rightarrow> (err_t \<times> ec) option" where
  "espconn_sent_tcp E a pnode psent len s =
     do {
       m \<leftarrow> deref (ec_msgs s) pnode;
       if cp_write_flag (ms_pcommon m)
       then do {
         full \<leftarrow> (if \<not> espconn_copy_disabled m
                  then map_option (\<lambda>n. n \<ge> cp_pbuf_num (ms_pcommon m))
                         (espconn_tcp_get_buf_count (cp_pbuf (ms_pcommon m)) s)
                  else map_option (\<lambda>b. unat (tp_snd_queuelen b) \<ge> TCP_SND_QUEUELEN (ee_mss E))
                         (deref (lw_tcp (ec_lwip s)) (cp_pcb (ms_pcommon m))));
         if full then Some (ESPCONN_MAXNUM, s)
         else if a = NULL then Some (ESPCONN_MEM, s)
         else do {
           s1 \<leftarrow> pbuf_append pnode a (s\<lparr>ec_bufs := alloc (ec_bufs s) a
                   (buf_zero\<lparr>eb_payload := psent, eb_punsent := psent, eb_unsent := len, eb_len := len\<rparr>)\<rparr>);
           s2 \<leftarrow> upd_common pnode (\<lambda>c. if cp_ptail c = NULL then c\<lparr>cp_ptail := a\<rparr> else c) s1;
           s3 \<leftarrow> (if espconn_copy_disabled m
                  then upd_common pnode (\<lambda>c. c\<lparr>cp_write_flag := False\<rparr>) s2 else Some s2);
           espconn_tcp_write E pnode s3 } }
       else Some (ESPCONN_ARG, s) }"

definition espconn_sent :: "ec_env \<Rightarrow> ptr \<Rightarrow> ptr \<Rightarrow> ptr \<Rightarrow> u16 \<Rightarrow> ec \<Rightarrow> (err_t \<times> ec) option" where
  "espconn_sent E a pesp psent len s =
     (if pesp = NULL \<or> psent = NULL \<or> len = 0 then Some (ESPCONN_ARG, s)
      else do {
        (value, pnode) \<leftarrow> espconn_find_connection pesp s;
        if value
        then do {
          s1 \<leftarrow> upd_espconn pesp (\<lambda>e. e\<lparr>es_state := ESPCONN_WRITE\<rparr>) s;
          e \<leftarrow> deref (espconns s1) pesp;
          case es_type e of
            ESPCONN_TCP \<Rightarrow> espconn_sent_tcp E a pnode psent len s1
          | ESPCONN_UDP \<Rightarrow> espconn_udp_sent E pnode psent len s1
          | ESPCONN_INVALID \<Rightarrow> Some (ESPCONN_ARG, s1) }
        else Some (ESPCONN_ARG, s) })"

definition espconn_sendto :: "ec_env \<Rightarrow> ptr \<Rightarrow> ptr \<Rightarrow> u16 \<Rightarrow> ec \<Rightarrow> (err_t \<times> ec) option" where
  "espconn_sendto E pesp psent len s =
     (if pesp = NULL \<or> psent = NULL \<or> len = 0 then Some (ESPCONN_ARG, s)
      else do {
        (value, pnode) \<leftarrow> espconn_find_connection pesp s;
        udp \<leftarrow> (if value then map_option (\<lambda>e. es_type e = ESPCONN_UDP) (deref (espconns s) pesp)
                else Some False);
        if udp then espconn_udp_sendto E pnode psent len s else Some (ESPCONN_ARG, s) })"

section \<open>Disconnecting\<close>

definition espconn_disconnect :: "ec_env \<Rightarrow> ptr \<Rightarrow> ec \<Rightarrow> (err_t \<times> ec) option" where
  "espconn_disconnect E pesp s =
     (if pesp = NULL then Some (ESPCONN_ARG, s)
      else do {
        e \<leftarrow> deref (espconns s) pesp;
        if es_type e \<noteq> ESPCONN_TCP then Some (ESPCONN_ARG, s)
        else do {
          (value, pnode) \<leftarrow> espconn_find_connection pesp s;
          if value
          then do {
            m \<leftarrow> deref (ec_msgs s) pnode;
            if ms_preverse m = NULL \<and> es_state e = ESPCONN_CLOSE then Some (ESPCONN_INPROGRESS, s)
            else do { s1 \<leftarrow> espconn_tcp_disconnect E pnode 0 s; Some (ESPCONN_OK, s1) } }
          else Some (ESPCONN_ARG, s) } })"

definition espconn_abort :: "ec_env \<Rightarrow> ptr \<Rightarrow> ec \<Rightarrow> (err_t \<times> ec) option" where
  "espconn_abort E pesp s =
     (if pesp = NULL then Some (ESPCONN_ARG, s)
      else do {
        e \<leftarrow> deref (espconns s) pesp;
        if es_type e \<noteq> ESPCONN_TCP then Some (ESPCONN_ARG, s)
        else do {
          (value, pnode) \<leftarrow> espconn_find_connection pesp s;
          if value
          then if es_state e = ESPCONN_CLOSE then Some (ESPCONN_INPROGRESS, s)
               else do { s1 \<leftarrow> espconn_tcp_disconnect E pnode 1 s; Some (ESPCONN_OK, s1) }
          else Some (ESPCONN_ARG, s) } })"

definition espconn_delete :: "ec_env \<Rightarrow> ptr \<Rightarrow> ec \<Rightarrow> (err_t \<times> ec) option" where
  "espconn_delete E pesp s =
     (if pesp = NULL then Some (ESPCONN_ARG, s)
      else do {
        e \<leftarrow> deref (espconns s) pesp;
        if es_type e \<noteq> ESPCONN_UDP then espconn_tcp_delete E pesp s
        else do {
          (value, pnode) \<leftarrow> espconn_find_connection pesp s;
          if value
          then do { s1 \<leftarrow> espconn_udp_disconnect E pnode s; Some (ESPCONN_OK, s1) }
          else Some (ESPCONN_ARG, s) } })"

end
