(* ===== verification/Espconn_Udp_Properties.thy ===== *)
theory Espconn_Udp_Properties
  imports Espconn_Udp
begin

text \<open>
  Sending over UDP: whatever its length, the data of one call leaves as a sequence of
  datagrams that each fit in a frame and together are the data.
\<close>

section \<open>The contract of lwIP\<close>

text \<open>
  \<open>pbuf_alloc\<close> gives a new pbuf with one reference, which only \<open>pbuf_free\<close> takes away, and
  \<open>pbuf_copy\<close> between two pbufs of one size succeeds; no call made here touches the control
  blocks of UDP.
\<close>

definition udp_stack_ok :: "ec_env \<Rightarrow> bool" where
  "udp_stack_ok E \<longleftrightarrow>
     (\<forall>s n. ee_ptr E (Pbuf_alloc n) s \<noteq> NULL
        \<and> (finite (dom (lw_pbufs (ec_lwip s)))
             \<longrightarrow> lw_pbufs (ec_lwip s) (ee_ptr E (Pbuf_alloc n) s) = None)
        \<and> (\<exists>seg. sg_ref seg = 1 \<and> lw_pbufs (ee_lwip E (Pbuf_alloc n) s)
             = (lw_pbufs (ec_lwip s))(ee_ptr E (Pbuf_alloc n) s \<mapsto> seg)))
     \<and> (\<forall>s p. lw_pbufs (ee_lwip E (Free_pbuf p) s) = (lw_pbufs (ec_lwip s))(p := None))
     \<and> (\<forall>s c. (\<forall>n. c \<noteq> Pbuf_alloc n) \<and> (\<forall>p. c \<noteq> Free_pbuf p)
          \<longrightarrow> lw_pbufs (ee_lwip E c s) = lw_pbufs (ec_lwip s))
     \<and> (\<forall>s c. lw_udp (ee_lwip E c s) = lw_udp (ec_lwip s))
     \<and> (\<forall>s p q. ee_err E (Pbuf_copy p q) s = git_ok (ee_errs E))"

definition quiet :: "ec_env \<Rightarrow> bool" where
  "quiet E \<longleftrightarrow> (\<forall>c s. ee_user E c s = s)"

fun datagram :: "ec_call \<Rightarrow> u8 list list" where
  "datagram (Udp_send upcb bs) = [bs]"
| "datagram (Udp_sendto upcb bs ip port) = [bs]"
| "datagram (Answered c err) = datagram c"
| "datagram _ = []"

definition datagrams :: "ec_call list \<Rightarrow> u8 list list" where
  "datagrams cs = concat (map datagram cs)"

lemma datagrams_append [simp]: "datagrams (xs @ ys) = datagrams xs @ datagrams ys"
  by (simp add: datagrams_def)

lemma datagrams_simps [simp]:
  "datagrams [] = []" "datagrams (c # cs) = datagram c @ datagrams cs"
  by (simp_all add: datagrams_def)

definition sent_callbacks :: "ec_call list \<Rightarrow> nat" where
  "sent_callbacks cs = length (filter (\<lambda>c. \<exists>f e. c = Sent_callback f e) cs)"

section \<open>One datagram\<close>

text \<open>
  The objects a call works on: the message at \<open>arg\<close> with its control block \<open>upcb\<close>, the
  descriptor \<open>pe\<close> and its UDP part \<open>pu\<close>.
\<close>

definition udp_conn :: "ptr \<Rightarrow> ptr \<Rightarrow> ptr \<Rightarrow> ptr \<Rightarrow> esp_udp \<Rightarrow> u32 option \<Rightarrow> ec \<Rightarrow> bool" where
  "udp_conn arg upcb pe pu u bip s \<longleftrightarrow>
     finite (dom (lw_pbufs (ec_lwip s)))
     \<and> arg \<noteq> NULL \<and> upcb \<noteq> NULL \<and> pe \<noteq> NULL \<and> pu \<noteq> NULL
     \<and> (\<exists>m. ec_msgs s arg = Some m \<and> cp_pcb (ms_pcommon m) = upcb \<and> ms_pespconn m = pe)
     \<and> (\<exists>e. espconns s pe = Some e \<and> es_proto e = pu)
     \<and> esp_udps s pu = Some u
     \<and> (\<exists>b. lw_udp (ec_lwip s) upcb = Some b \<and> (\<forall>i. bip = Some i \<longrightarrow> up_remote_ip b = i))"

text \<open>How often each datagram is sent: once, or on both interfaces.\<close>

definition udp_copies :: "ec_env \<Rightarrow> u32 \<Rightarrow> nat" where
  "udp_copies E ip = (if both_interfaces E ip then 2 else 1)"

definition passed :: "ec_env \<Rightarrow> ptr \<Rightarrow> ptr \<Rightarrow> ptr \<Rightarrow> esp_udp \<Rightarrow> u32 option \<Rightarrow> nat \<Rightarrow> ptr \<Rightarrow> u16 \<Rightarrow> ptr \<Rightarrow> ec
    \<Rightarrow> ((err_t + err_t) \<times> ec) option \<Rightarrow> bool" where
  "passed E upcb pe pu u bip k psent len arg s r \<longleftrightarrow>
     (\<exists>err s1 cs m. r = Some (Inr err, s1) \<and> udp_conn arg upcb pe pu u bip s1
        \<and> ec_calls s1 = ec_calls s @ cs
        \<and> datagrams cs = replicate k (app_bytes E psent (unat (frame_len E len)))
        \<and> sent_callbacks cs = 0
        \<and> ec_msgs s1 arg = Some m
        \<and> cp_ptrbuf (ms_pcommon m) = psent + unat (frame_len E len)
        \<and> cp_cntr (ms_pcommon m) = len - frame_len E len
        \<and> cp_err (ms_pcommon m) = err)"

lemma udp_stack:
  assumes "udp_stack_ok E"
  shows "ee_ptr E (Pbuf_alloc n) s \<noteq> NULL"
    and "\<exists>seg. sg_ref seg = 1 \<and> lw_pbufs (ee_lwip E (Pbuf_alloc n) s)
             = (lw_pbufs (ec_lwip s))(ee_ptr E (Pbuf_alloc n) s \<mapsto> seg)"
    and "finite (dom (lw_pbufs (ec_lwip s)))
         \<Longrightarrow> lw_pbufs (ec_lwip s) (ee_ptr E (Pbuf_alloc n) s) = None"
    and "lw_pbufs (ee_lwip E (Free_pbuf p) s) = (lw_pbufs (ec_lwip s))(p := None)"
    and "lw_udp (ee_lwip E c s) = lw_udp (ec_lwip s)"
    and "ee_err E (Pbuf_copy p q) s = git_ok (ee_errs E)"
    and "lw_pbufs (ee_lwip E (Udp_send p bs) s) = lw_pbufs (ec_lwip s)"
    and "lw_pbufs (ee_lwip E (Udp_sendto p bs i j) s) = lw_pbufs (ec_lwip s)"
    and "lw_pbufs (ee_lwip E (Set_default p) s) = lw_pbufs (ec_lwip s)"
    and "lw_pbufs (ee_lwip E (Pbuf_copy p q) s) = lw_pbufs (ec_lwip s)"
  using assms by (auto simp: udp_stack_ok_def)

lemma pbufs_finite:
  assumes "udp_stack_ok E"
  shows "finite (dom (lw_pbufs (ee_lwip E c s))) = finite (dom (lw_pbufs (ec_lwip s)))"
proof (cases "(\<forall>n. c \<noteq> Pbuf_alloc n) \<and> (\<forall>p. c \<noteq> Free_pbuf p)")
  case True
  with assms have "lw_pbufs (ee_lwip E c s) = lw_pbufs (ec_lwip s)"
    unfolding udp_stack_ok_def by blast
  then show ?thesis by simp
next
  case False
  then consider n where "c = Pbuf_alloc n" | p where "c = Free_pbuf p" by blast
  then show ?thesis
  proof cases
    case 1
    then show ?thesis using udp_stack(2) [OF assms, of n s] by auto
  next
    case 2
    then show ?thesis by (simp add: udp_stack(4) [OF assms])
  qed
qed

lemma finish_packet:
  assumes "udp_stack_ok E" "udp_conn arg upcb pe pu u bip s" "p \<noteq> NULL"
    and "\<exists>seg. lw_pbufs (ec_lwip s) p = Some seg \<and> sg_ref seg = 1"
    and "ec_calls s = ec_calls s0 @ cs"
    and "datagrams cs = replicate k (app_bytes E psent (unat (frame_len E len)))"
    and "sent_callbacks cs = 0"
  shows "passed E upcb pe pu u bip k psent len arg s0
    (udp_finish_packet arg psent len (frame_len E len) err p E s)"
  using assms(2-)
  by (auto simp: passed_def udp_finish_packet_def udp_conn_def deref_def upd_common_def upd_msg_def
      udp_stack [OF assms(1)] pbufs_finite [OF assms(1)] sent_callbacks_def)

lemma conn_do:
  assumes "udp_stack_ok E"
  shows "udp_conn arg upcb pe pu u bip (ec_do E c s) = udp_conn arg upcb pe pu u bip s"
  by (simp add: udp_conn_def udp_stack [OF assms] pbufs_finite [OF assms])

lemma conn_ask:
  assumes "udp_stack_ok E"
  shows "udp_conn arg upcb pe pu u bip (snd (ec_ask E c s)) = udp_conn arg upcb pe pu u bip s"
  by (simp add: udp_conn_def udp_stack [OF assms] pbufs_finite [OF assms])

lemma sent_packet_passed:
  assumes E: "udp_stack_ok E" and C: "udp_conn arg upcb pe pu u None s"
    and n: "psent \<noteq> NULL" "len \<noteq> 0"
  shows "passed E upcb pe pu u None (udp_copies E (word4 (eu_remote_ip u))) psent len arg s
    (udp_sent_packet E arg psent len s)"
proof -
  define dl where "dl = unat (frame_len E len)"
  define p where "p = ee_ptr E (Pbuf_alloc dl) s"
  define s1 where "s1 = ec_do E (Pbuf_alloc dl) s"
  define bs where "bs = app_bytes E psent dl"
  define ip where "ip = word4 (eu_remote_ip u)"
  from C obtain m e b where
    o: "ec_msgs s arg = Some m" "cp_pcb (ms_pcommon m) = upcb" "ms_pespconn m = pe"
      "espconns s pe = Some e" "es_proto e = pu" "esp_udps s pu = Some u"
      "lw_udp (ec_lwip s) upcb = Some b"
    and nn: "arg \<noteq> NULL" "upcb \<noteq> NULL" "pe \<noteq> NULL" "pu \<noteq> NULL"
    by (auto simp: udp_conn_def)
  have p: "p \<noteq> NULL" "\<exists>seg. lw_pbufs (ec_lwip s1) p = Some seg \<and> sg_ref seg = 1"
    using udp_stack(1,2) [OF E, where n = dl and s = s] by (auto simp: p_def s1_def)
  define s2 where "s2 = s1\<lparr>ec_lwip := (ec_lwip s1)\<lparr>lw_udp := (lw_udp (ec_lwip s1))(upcb \<mapsto>
                       b\<lparr>up_remote_port := ucast (eu_remote_port u), up_remote_ip := ip\<rparr>)\<rparr>\<rparr>"
  have C2: "udp_conn arg upcb pe pu u None s2"
    using C o nn by (simp add: udp_conn_def s2_def s1_def udp_stack [OF E] pbufs_finite [OF E])
  have s2: "lw_pbufs (ec_lwip s2) = lw_pbufs (ec_lwip s1)" "ec_calls s2 = ec_calls s @ [Pbuf_alloc dl]"
    by (simp_all add: s2_def s1_def)
  show ?thesis
  proof (cases "both_interfaces E ip")
    case True
    define pt where "pt = ee_ptr E (Pbuf_alloc dl) s2"
    define s4 where "s4 = snd (ec_ask E (Pbuf_copy pt p) (ec_do E (Pbuf_alloc dl) s2))"
    define s6 where "s6 = ec_do E (Set_default (ee_getif E 1)) (ec_do E (Free_pbuf pt)
      (snd (ec_ask E (Udp_send upcb bs) (ec_do E (Set_default (ee_getif E 0)) s4))))"
    define s7 where "s7 = snd (ec_ask E (Udp_send upcb bs) s6)"
    have pt: "pt \<noteq> p" "lw_pbufs (ec_lwip s4) p = lw_pbufs (ec_lwip s1) p"
      using udp_stack(2,3) [OF E, where n = dl and s = s2] C2 p s2
      by (auto simp: pt_def s4_def udp_stack [OF E] udp_conn_def)
    have r: "udp_sent_packet E arg psent len s
      = udp_finish_packet arg psent len (frame_len E len) (ee_err E (Udp_send upcb bs) s6) p E s7"
      using o nn n p True
      unfolding s7_def s6_def s4_def pt_def s2_def s1_def p_def bs_def ip_def dl_def
      by (simp add: udp_sent_packet_def deref_def case_prod_beta Let_def udp_stack [OF E]
          cong del: if_weak_cong bind_weak_cong)
    have "lw_pbufs (ec_lwip s7) p = lw_pbufs (ec_lwip s1) p"
      using pt by (simp add: s7_def s6_def udp_stack [OF E])
    moreover have "udp_conn arg upcb pe pu u None s7"
      using C2 by (simp add: s7_def s6_def s4_def conn_do [OF E] conn_ask [OF E])
    ultimately show ?thesis
      unfolding r using p s2 True
      by (intro finish_packet [OF E]) (auto simp: s7_def s6_def s4_def sent_callbacks_def
          udp_copies_def ip_def bs_def dl_def numeral_2_eq_2)
  next
    case False
    define s3 where "s3 = snd (ec_ask E (Udp_send upcb bs) s2)"
    have r: "udp_sent_packet E arg psent len s
      = udp_finish_packet arg psent len (frame_len E len) (ee_err E (Udp_send upcb bs) s2) p E s3"
      using o nn n p False
      unfolding s3_def s2_def s1_def p_def bs_def ip_def dl_def
      by (simp add: udp_sent_packet_def deref_def case_prod_beta Let_def udp_stack [OF E]
          cong del: if_weak_cong bind_weak_cong)
    have "udp_conn arg upcb pe pu u None s3" using C2 by (simp add: s3_def conn_do [OF E] conn_ask [OF E])
    with p s2 False show ?thesis
      unfolding r by (intro finish_packet [OF E]) (auto simp: s3_def udp_stack [OF E]
          sent_callbacks_def udp_copies_def ip_def bs_def dl_def)
  qed
qed

lemma sendto_packet_passed:
  assumes E: "udp_stack_ok E" and C: "udp_conn arg upcb pe pu u (Some i) s"
    and n: "psent \<noteq> NULL" "len \<noteq> 0"
  shows "passed E upcb pe pu u (Some i) (udp_copies E i) psent len arg s
    (udp_sendto_packet E arg psent len s)"
proof -
  define dl where "dl = unat (frame_len E len)"
  define p where "p = ee_ptr E (Pbuf_alloc dl) s"
  define s1 where "s1 = ec_do E (Pbuf_alloc dl) s"
  define bs where "bs = app_bytes E psent dl"
  define send where "send = Udp_sendto upcb bs (word4 (eu_remote_ip u)) (ucast (eu_remote_port u))"
  from C obtain m e b where
    o: "ec_msgs s arg = Some m" "cp_pcb (ms_pcommon m) = upcb" "ms_pespconn m = pe"
      "espconns s pe = Some e" "es_proto e = pu" "esp_udps s pu = Some u"
      "lw_udp (ec_lwip s) upcb = Some b" "up_remote_ip b = i"
    and nn: "arg \<noteq> NULL" "upcb \<noteq> NULL" "pe \<noteq> NULL" "pu \<noteq> NULL"
    by (auto simp: udp_conn_def)
  have p: "p \<noteq> NULL" "\<exists>seg. lw_pbufs (ec_lwip s1) p = Some seg \<and> sg_ref seg = 1"
    using udp_stack(1,2) [OF E, where n = dl and s = s] by (auto simp: p_def s1_def)
  have C1: "udp_conn arg upcb pe pu u (Some i) s1" using C by (simp add: s1_def conn_do [OF E] conn_ask [OF E])
  show ?thesis
  proof (cases "both_interfaces E i")
    case True
    define pt where "pt = ee_ptr E (Pbuf_alloc dl) s1"
    define s4 where "s4 = snd (ec_ask E (Pbuf_copy pt p) (ec_do E (Pbuf_alloc dl) s1))"
    define s6 where "s6 = ec_do E (Set_default (ee_getif E 1)) (ec_do E (Free_pbuf pt)
      (snd (ec_ask E send (ec_do E (Set_default (ee_getif E 0)) s4))))"
    define s7 where "s7 = snd (ec_ask E send s6)"
    have pt: "pt \<noteq> p" "lw_pbufs (ec_lwip s4) p = lw_pbufs (ec_lwip s1) p"
      using udp_stack(2,3) [OF E, where n = dl and s = s1] C1 p
      by (auto simp: pt_def s4_def udp_stack [OF E] udp_conn_def)
    have r: "udp_sendto_packet E arg psent len s
      = udp_finish_packet arg psent len (frame_len E len) (ee_err E send s6) p E s7"
      using o nn n p True
      unfolding s7_def s6_def s4_def pt_def s1_def p_def bs_def dl_def send_def
      by (simp add: udp_sendto_packet_def deref_def case_prod_beta Let_def udp_stack [OF E]
          cong del: if_weak_cong bind_weak_cong)
    have "lw_pbufs (ec_lwip s7) p = lw_pbufs (ec_lwip s1) p"
      using pt by (simp add: s7_def s6_def send_def udp_stack [OF E])
    moreover have "udp_conn arg upcb pe pu u (Some i) s7"
      using C1 by (simp add: s7_def s6_def s4_def conn_do [OF E] conn_ask [OF E])
    ultimately show ?thesis
      unfolding r using p True
      by (intro finish_packet [OF E]) (auto simp: s7_def s6_def s4_def s1_def send_def
          sent_callbacks_def udp_copies_def bs_def dl_def numeral_2_eq_2)
  next
    case False
    define s3 where "s3 = snd (ec_ask E send s1)"
    have r: "udp_sendto_packet E arg psent len s
      = udp_finish_packet arg psent len (frame_len E len) (ee_err E send s1) p E s3"
      using o nn n p False
      unfolding s3_def s1_def p_def bs_def dl_def send_def
      by (simp add: udp_sendto_packet_def deref_def case_prod_beta Let_def udp_stack [OF E]
          cong del: if_weak_cong bind_weak_cong)
    have "udp_conn arg upcb pe pu u (Some i) s3" using C1 by (simp add: s3_def conn_do [OF E] conn_ask [OF E])
    with p False show ?thesis
      unfolding r by (intro finish_packet [OF E]) (auto simp: s3_def s1_def send_def
          udp_stack [OF E] sent_callbacks_def udp_copies_def bs_def dl_def)
  qed
qed

section \<open>All of the data\<close>

definition dest_ip :: "send_opt \<Rightarrow> u32 \<Rightarrow> u32 option" where
  "dest_ip opt i = (case opt of ESPCONN_SEND \<Rightarrow> None | ESPCONN_SENDTO \<Rightarrow> Some i)"

definition dest_copies :: "ec_env \<Rightarrow> send_opt \<Rightarrow> esp_udp \<Rightarrow> u32 \<Rightarrow> nat" where
  "dest_copies E opt u i = udp_copies E (case opt of ESPCONN_SEND \<Rightarrow> word4 (eu_remote_ip u)
                                                  | ESPCONN_SENDTO \<Rightarrow> i)"

definition udp_packet ::
  "send_opt \<Rightarrow> ec_env \<Rightarrow> ptr \<Rightarrow> ptr \<Rightarrow> u16 \<Rightarrow> ec \<Rightarrow> ((err_t + err_t) \<times> ec) option" where
  "udp_packet opt = (case opt of ESPCONN_SEND \<Rightarrow> udp_sent_packet | ESPCONN_SENDTO \<Rightarrow> udp_sendto_packet)"

lemma packet_passed:
  assumes "udp_stack_ok E" "udp_conn arg upcb pe pu u (dest_ip opt i) s"
    and "psent \<noteq> NULL" "len \<noteq> 0"
  shows "passed E upcb pe pu u (dest_ip opt i) (dest_copies E opt u i) psent len arg s
    (udp_packet opt E arg psent len s)"
  using sent_packet_passed [OF assms(1) _ assms(3,4)] sendto_packet_passed [OF assms(1) _ assms(3,4)] assms(2)
  by (cases opt) (simp_all add: udp_packet_def dest_ip_def dest_copies_def)

lemma frame_len_eq:
  assumes "28 < ee_frag_mtu E" "ee_frag_mtu E < 2 ^ 16"
  shows "unat (frame_len E len) = min (ee_frag_mtu E - 28) (unat len)"
proof -
  have e: "int (ee_frag_mtu E) - 20 - 8 = int (ee_frag_mtu E - 28)" using assms by simp
  show ?thesis
proof (cases "int (ee_frag_mtu E) - 20 - 8 < int (unat len)")
  case True
  have "frame_len E len = of_nat (ee_frag_mtu E - 28)"
    unfolding frame_len_def if_P [OF True] unfolding e by (simp only: of_int_of_nat_eq)
  moreover have "ee_frag_mtu E - 28 < 2 ^ 16" using assms by simp
  moreover have "ee_frag_mtu E - 28 \<le> unat len" using True by (simp only: e)
  ultimately show ?thesis by (simp add: unat_of_nat)
next
  case False
  with e have "unat len \<le> ee_frag_mtu E - 28" by linarith
  with False show ?thesis by (simp add: frame_len_def)
qed
qed

lemma app_bytes_split: "app_bytes E p (m + n) = app_bytes E p m @ app_bytes E (p + m) n"
by (rule nth_equalityI) (auto simp: app_bytes_def nth_append not_less le_Suc_ex)

lemma send_all_ok:
  assumes E: "udp_stack_ok E" "quiet E" and mtu: "28 < ee_frag_mtu E" "ee_frag_mtu E < 2 ^ 16"
    and C: "udp_conn arg upcb pe pu u (dest_ip opt i) s" and n: "psent \<noteq> NULL" "len \<noteq> 0"
  shows "\<exists>err s' cs bss. udp_send_all E opt arg psent len s = Some (err, s')
    \<and> ec_calls s' = ec_calls s @ cs
    \<and> datagrams cs = concat (map (replicate (dest_copies E opt u i)) bss)
    \<and> concat bss = app_bytes E psent (unat len)
    \<and> (\<forall>b \<in> set bss. b \<noteq> [] \<and> length b \<le> ee_frag_mtu E - 28)
    \<and> sent_callbacks cs \<le> 1"
  using C n
proof (induction "unat len" arbitrary: psent len s rule: less_induct)
  case less
  define dl where "dl = unat (frame_len E len)"
  have dl: "dl = min (ee_frag_mtu E - 28) (unat len)" by (simp add: dl_def frame_len_eq [OF mtu])
  have pos: "0 < unat len" using less.prems(3) by (simp add: unat_gt_0)
  have rest: "unat (len - frame_len E len) = unat len - dl"
    using dl by (simp add: dl_def unat_sub word_le_nat_alt)
  from packet_passed [OF E(1) less.prems] obtain err s1 cs m where
    r: "udp_packet opt E arg psent len s = Some (Inr err, s1)"
      "udp_conn arg upcb pe pu u (dest_ip opt i) s1" "ec_calls s1 = ec_calls s @ cs"
      "datagrams cs = replicate (dest_copies E opt u i) (app_bytes E psent dl)"
      "sent_callbacks cs = 0"
    and m: "ec_msgs s1 arg = Some m" "cp_ptrbuf (ms_pcommon m) = psent + dl"
      "cp_cntr (ms_pcommon m) = len - frame_len E len" "cp_err (ms_pcommon m) = err"
    by (auto simp: passed_def dl_def)
  have pk: "(case opt of ESPCONN_SEND \<Rightarrow> udp_sent_packet E arg psent len s
                       | ESPCONN_SENDTO \<Rightarrow> udp_sendto_packet E arg psent len s)
            = Some (Inr err, s1)"
    using r(1) by (cases opt) (simp_all add: udp_packet_def)
  have nn: "arg \<noteq> NULL" "pe \<noteq> NULL" and mp: "ms_pespconn m = pe"
    using r(2) m(1) by (auto simp: udp_conn_def)
  obtain e where e: "espconns s1 pe = Some e" using r(2) by (auto simp: udp_conn_def)
  have b1: "app_bytes E psent dl \<noteq> []" "length (app_bytes E psent dl) \<le> ee_frag_mtu E - 28"
    using dl pos mtu by (auto simp: app_bytes_def)
  show ?case
  proof (cases "len - frame_len E len = 0")
    case True
    then have dlen: "dl = unat len" using rest dl by simp
    define s2 where "s2 = s1\<lparr>espconns := (espconns s1)(pe \<mapsto> e\<lparr>es_state := ESPCONN_CONNECT\<rparr>)\<rparr>"
    obtain s3 ds where s3: "(if err = 0 then espconn_data_sentcb E pe s2 else Some s2) = Some s3"
      "ec_calls s3 = ec_calls s1 @ ds" "datagrams ds = []" "sent_callbacks ds \<le> 1"
      using E(2) nn by (cases "es_sent_callback e = NULL"; cases "err = 0")
        (auto simp: espconn_data_sentcb_def deref_def s2_def ec_user_def quiet_def sent_callbacks_def)
    have "udp_send_all E opt arg psent len s = Some (if err > 0 then ESPCONN_IF else err, s3)"
      using pk m True mp nn e s3(1)
      by (subst udp_send_all.simps; cases "err = 0")
         (simp_all add: deref_def upd_espconn_def s2_def)
    with r s3 dlen b1 show ?thesis
      by (intro exI [of _ "if err > 0 then ESPCONN_IF else err"] exI [of _ s3] exI [of _ "cs @ ds"]
          exI [of _ "[app_bytes E psent dl]"]) (simp add: sent_callbacks_def)
  next
    case False
    have "unat (len - frame_len E len) < unat len"
      using rest dl pos mtu by simp
    from less.hyps [OF this r(2) _ False, of "psent + dl"] less.prems(2)
    obtain err' s' ds bss where ih:
      "udp_send_all E opt arg (psent + dl) (len - frame_len E len) s1 = Some (err', s')"
      "ec_calls s' = ec_calls s1 @ ds"
      "datagrams ds = concat (map (replicate (dest_copies E opt u i)) bss)"
      "concat bss = app_bytes E (psent + dl) (unat len - dl)"
      "\<forall>b \<in> set bss. b \<noteq> [] \<and> length b \<le> ee_frag_mtu E - 28" "sent_callbacks ds \<le> 1"
      using rest by auto
    have "udp_send_all E opt arg psent len s = Some (if err > 0 then ESPCONN_IF else err, s')"
      using pk m False mp nn ih(1) by (subst udp_send_all.simps) (simp add: deref_def)
    moreover have "app_bytes E psent (unat len) = app_bytes E psent dl @ app_bytes E (psent + dl) (unat len - dl)"
      using app_bytes_split [of E psent dl "unat len - dl"] dl by simp
    ultimately show ?thesis using r ih b1
      by (intro exI [of _ "if err > 0 then ESPCONN_IF else err"] exI [of _ s'] exI [of _ "cs @ ds"]
          exI [of _ "app_bytes E psent dl # bss"]) (auto simp: sent_callbacks_def)
  qed
qed

section \<open>Property\<close>


definition next_pbuf :: "lwip \<Rightarrow> ptr" where
  "next_pbuf l = Suc (Max (insert 0 (dom (lw_pbufs l))))"

definition sample_effect :: "ec_call \<Rightarrow> ec \<Rightarrow> lwip" where
  "sample_effect c s =
     (case c of
        Pbuf_alloc n \<Rightarrow> (ec_lwip s)\<lparr>lw_pbufs := (lw_pbufs (ec_lwip s))(next_pbuf (ec_lwip s) \<mapsto>
            \<lparr>sg_payload = replicate n 0, sg_next = NULL, sg_tot_len = of_nat n, sg_ref = 1\<rparr>)\<rparr>
      | Free_pbuf p \<Rightarrow> (ec_lwip s)\<lparr>lw_pbufs := (lw_pbufs (ec_lwip s))(p := None)\<rparr>
      | _ \<Rightarrow> ec_lwip s)"

definition sample_udp_env :: ec_env where
  "sample_udp_env = \<lparr>ee_errs = lwip2_errs, ee_mss = 536, ee_frag_mtu = 1500,
     ee_err = (\<lambda>c s. git_ok lwip2_errs), ee_ptr = (\<lambda>c s. next_pbuf (ec_lwip s)),
     ee_bytes = (\<lambda>c s. []), ee_lwip = sample_effect, ee_user = (\<lambda>c s. s),
     ee_mem = (\<lambda>p. of_nat p), ee_opmode = 1, ee_default_interface = 1,
     ee_getif = (\<lambda>n. NULL), ee_is_up = (\<lambda>p. False), ee_isbroadcast = (\<lambda>i p. False),
     ee_ip_info = (\<lambda>n. (0, 0)), ee_connect_status = 5, ee_station_got_ip = 5,
     ee_station_idle = 0\<rparr>"

definition sample_udp :: esp_udp where
  "sample_udp = \<lparr>eu_remote_port = 53, eu_local_port = 1000, eu_local_ip = [0, 0, 0, 0],
     eu_remote_ip = [10, 0, 0, 1]\<rparr>"

definition sample_udp_state :: ec where
  "sample_udp_state = \<lparr>espconns = [48 \<mapsto> espconn_zero\<lparr>es_type := ESPCONN_UDP, es_proto := 64\<rparr>],
     esp_tcps = Map.empty, esp_udps = [64 \<mapsto> sample_udp],
     ec_msgs = [32 \<mapsto> msg_zero\<lparr>ms_pespconn := 48,
                 ms_pcommon := (ms_pcommon msg_zero)\<lparr>cp_pcb := 16\<rparr>\<rparr>],
     ec_bufs = Map.empty, plink_active = 32, pserver_list = NULL, premot = [], pktinfo = [],
     ec_lwip = \<lparr>lw_pbufs = Map.empty, lw_tcp = Map.empty,
        lw_udp = [16 \<mapsto> \<lparr>up_remote_ip = 0, up_remote_port = 0\<rparr>],
        lw_bound = NULL, lw_active = NULL, lw_tw = NULL, lw_ticks = 0\<rparr>,
     ec_calls = []\<rparr>"

lemma next_pbuf_fresh:
  assumes "finite (dom (lw_pbufs l))"
  shows "lw_pbufs l (next_pbuf l) = None"
proof (rule ccontr)
  assume "lw_pbufs l (next_pbuf l) \<noteq> None"
  then have "next_pbuf l \<le> Max (insert 0 (dom (lw_pbufs l)))"
    using assms by (intro Max_ge) auto
  then show False by (simp add: next_pbuf_def)
qed

lemma sample_udp_env_ok: "udp_stack_ok sample_udp_env"
proof -
  have "\<exists>seg. sg_ref seg = 1 \<and> lw_pbufs (sample_effect (Pbuf_alloc n) s)
      = (lw_pbufs (ec_lwip s))(next_pbuf (ec_lwip s) \<mapsto> seg)" for n s
    by (intro exI [of _ "\<lparr>sg_payload = replicate n 0, sg_next = NULL, sg_tot_len = of_nat n,
          sg_ref = 1\<rparr>"]) (simp add: sample_effect_def)
  moreover have "next_pbuf l \<noteq> NULL" for l by (simp add: next_pbuf_def)
  moreover have "lw_udp (sample_effect c s) = lw_udp (ec_lwip s)" for c s
    by (simp add: sample_effect_def split: ec_call.split)
  moreover have "lw_pbufs (sample_effect c s) = lw_pbufs (ec_lwip s)"
    if "(\<forall>n. c \<noteq> Pbuf_alloc n) \<and> (\<forall>p. c \<noteq> Free_pbuf p)" for c s
    using that by (simp add: sample_effect_def split: ec_call.split)
  ultimately show ?thesis
    unfolding udp_stack_ok_def sample_udp_env_def
    by (simp add: next_pbuf_fresh) (simp add: sample_effect_def)
qed


end
