(* ===== verification/Espconn_Send_Properties.thy ===== *)
theory Espconn_Send_Properties
  imports Espconn_Connection Espconn_Udp_Properties
begin

text \<open>
  Sending over TCP. The data of a connection waits in a list of buffers, of which
  \<open>espconn_tcp_write\<close> hands as much as possible to \<open>tcp_write\<close>. The addresses of the bytes
  that lwIP accepts, in the order of the calls, are exactly a first part of those waiting.
\<close>

section \<open>The contract of lwIP\<close>

text \<open>
  \<open>ERR_OK\<close> is 0; a successful \<open>tcp_write\<close> takes its bytes off the room to send, one that fails
  changes nothing; \<open>tcp_output\<close> leaves the room to send as it is.
\<close>

definition tcp_stack_ok :: "ec_env \<Rightarrow> bool" where
  "tcp_stack_ok E \<longleftrightarrow> git_ok (ee_errs E) = 0 \<and> git_mem (ee_errs E) \<noteq> 0
     \<and> (\<forall>s pcb p n f b. lw_tcp (ec_lwip s) pcb = Some b \<longrightarrow>
          (if ee_err E (Tcp_write pcb p n f) s = 0
           then n \<le> tp_snd_buf b
             \<and> (\<exists>b'. lw_tcp (ee_lwip E (Tcp_write pcb p n f) s) pcb = Some b'
                  \<and> tp_snd_buf b' = tp_snd_buf b - n \<and> tp_mss b' = tp_mss b)
           else lw_tcp (ee_lwip E (Tcp_write pcb p n f) s) pcb = Some b))
     \<and> (\<forall>s pcb b. lw_tcp (ec_lwip s) pcb = Some b \<longrightarrow>
          (\<exists>b'. lw_tcp (ee_lwip E (Tcp_output pcb) s) pcb = Some b'
             \<and> tp_snd_buf b' = tp_snd_buf b \<and> tp_mss b' = tp_mss b))
     \<and> (\<forall>s sig a. lw_tcp (ee_lwip E (Ets_post sig a) s) = lw_tcp (ec_lwip s))"

lemma tcp_output_ok:
  assumes "tcp_stack_ok E" "lw_tcp (ec_lwip s) pcb = Some b"
  shows "\<exists>b'. lw_tcp (ee_lwip E (Tcp_output pcb) s) pcb = Some b'
    \<and> tp_snd_buf b' = tp_snd_buf b \<and> tp_mss b' = tp_mss b"
  using assms unfolding tcp_stack_ok_def by blast

lemma ets_post_ok:
  "tcp_stack_ok E \<Longrightarrow> lw_tcp (ee_lwip E (Ets_post sig a) s) = lw_tcp (ec_lwip s)"
  unfolding tcp_stack_ok_def by blast

text \<open>The addresses of the bytes that a call hands to lwIP for good.\<close>

fun accepted1 :: "ec_call \<Rightarrow> ptr list" where
  "accepted1 (Answered (Tcp_write pcb p n f) err) = (if err = 0 then [p..<p + unat n] else [])"
| "accepted1 _ = []"

definition accepted :: "ec_call list \<Rightarrow> ptr list" where
  "accepted cs = concat (map accepted1 cs)"

lemma accepted_simps [simp]:
  "accepted [] = []" "accepted (c # cs) = accepted1 c @ accepted cs"
  "accepted (xs @ ys) = accepted xs @ accepted ys"
  by (simp_all add: accepted_def)

text \<open>The addresses of the bytes that wait in the buffers \<open>ts\<close>.\<close>

definition waiting1 :: "espconn_buf \<Rightarrow> ptr list" where
  "waiting1 t = [eb_punsent t..<eb_punsent t + unat (eb_unsent t)]"

definition waiting :: "(ptr \<rightharpoonup> espconn_buf) \<Rightarrow> ptr list \<Rightarrow> ptr list" where
  "waiting h ts = concat (map (\<lambda>a. case h a of Some t \<Rightarrow> waiting1 t | None \<Rightarrow> []) ts)"

section \<open>One piece\<close>

text \<open>What lwIP and the log look like after a call, everything else as before.\<close>

definition only_lwip :: "ec \<Rightarrow> ec_call list \<Rightarrow> ec \<Rightarrow> bool" where
  "only_lwip s cs s' \<longleftrightarrow> (\<exists>l. s' = s\<lparr>ec_lwip := l, ec_calls := ec_calls s @ cs\<rparr>)"

lemma only_lwipD:
  assumes "only_lwip s cs s'"
  shows "ec_msgs s' = ec_msgs s" "ec_bufs s' = ec_bufs s" "ec_calls s' = ec_calls s @ cs"
    "espconns s' = espconns s" "esp_tcps s' = esp_tcps s"
  using assms by (auto simp: only_lwip_def)

lemma only_lwip_ask: "only_lwip s [Answered c (ee_err E c s)] (snd (ec_ask E c s))"
  by (auto simp: only_lwip_def ec_ask_def)

lemma only_lwip_trans:
  "only_lwip s cs s1 \<Longrightarrow> only_lwip s1 ds s2 \<Longrightarrow> only_lwip s (cs @ ds) s2"
  by (auto simp: only_lwip_def)

text \<open>
  What sending leaves alone: everything but \<open>punsent\<close> and \<open>unsent\<close> of the buffers, and
  \<open>ptail\<close> and \<open>write_flag\<close> of the messages.
\<close>

definition still_buf :: "espconn_buf \<Rightarrow> espconn_buf" where
  "still_buf b = b\<lparr>eb_punsent := NULL, eb_unsent := 0\<rparr>"

definition still_msg :: "espconn_msg \<Rightarrow> espconn_msg" where
  "still_msg m = m\<lparr>ms_pcommon := (ms_pcommon m)\<lparr>cp_ptail := NULL, cp_write_flag := False\<rparr>\<rparr>"

definition only_sends :: "ec \<Rightarrow> ec \<Rightarrow> bool" where
  "only_sends s s' \<longleftrightarrow>
     (\<forall>a. map_option still_buf (ec_bufs s' a) = map_option still_buf (ec_bufs s a))
     \<and> (\<forall>a. map_option still_msg (ec_msgs s' a) = map_option still_msg (ec_msgs s a))
     \<and> espconns s' = espconns s \<and> esp_tcps s' = esp_tcps s \<and> plink_active s' = plink_active s"

lemma only_sends_refl [simp]: "only_sends s s"
  by (simp add: only_sends_def)

lemma only_sends_trans: "only_sends s s1 \<Longrightarrow> only_sends s1 s2 \<Longrightarrow> only_sends s s2"
  by (simp add: only_sends_def)

text \<open>The calls of lwIP and the SDK that sending makes are not calls of the application.\<close>

definition no_callback :: "ec_call list \<Rightarrow> bool" where
  "no_callback cs \<longleftrightarrow> (\<forall>f p. Sent_callback f p \<notin> set cs)"

lemma no_callback_simps [simp]:
  "no_callback []" "no_callback (xs @ ys) \<longleftrightarrow> no_callback xs \<and> no_callback ys"
  "no_callback (Answered c err # cs) \<longleftrightarrow> no_callback cs"
  "no_callback (Ets_post sig a # cs) \<longleftrightarrow> no_callback cs"
  by (auto simp: no_callback_def)

lemma write_loop_ok:
  assumes E: "tcp_stack_ok E" and b: "lw_tcp (ec_lwip s) pcb = Some b" and len: "len \<noteq> 0"
  shows "\<exists>err n s' cs b'. tcp_write_loop E pcb p flag len s = Some (err, n, s')
    \<and> only_lwip s cs s' \<and> no_callback cs \<and> lw_tcp (ec_lwip s') pcb = Some b'
    \<and> tp_mss b' = tp_mss b
    \<and> (if err = 0 then 0 < n \<and> n \<le> len \<and> accepted cs = [p..<p + unat n]
                     \<and> n \<le> tp_snd_buf b \<and> tp_snd_buf b' = tp_snd_buf b - n
       else accepted cs = [] \<and> tp_snd_buf b' = tp_snd_buf b)"
  using b len
proof (induction "unat len" arbitrary: len s b rule: less_induct)
  case less
  define c where "c = Tcp_write pcb p len flag"
  define err where "err = ee_err E c s"
  define s1 where "s1 = snd (ec_ask E c s)"
  define len1 where "len1 = (if len < 3 then len - 1 else len div 2)"
  have ask: "ec_ask E c s = (err, s1)" by (simp add: s1_def err_def ec_ask_def)
  have o1: "only_lwip s [Answered c err] s1" unfolding s1_def err_def by (rule only_lwip_ask)
  have e: "git_ok (ee_errs E) = 0" "git_mem (ee_errs E) \<noteq> 0"
    using E by (auto simp: tcp_stack_ok_def)
  have w: "if err = 0 then len \<le> tp_snd_buf b
             \<and> (\<exists>b'. lw_tcp (ec_lwip s1) pcb = Some b'
                  \<and> tp_snd_buf b' = tp_snd_buf b - len \<and> tp_mss b' = tp_mss b)
           else lw_tcp (ec_lwip s1) pcb = Some b"
    using E less.prems(1) unfolding tcp_stack_ok_def s1_def err_def c_def by (auto split: if_splits)
  have pos: "0 < len" using less.prems(2) by (simp add: word_neq_0_conv)
  show ?case
  proof (cases "err = git_mem (ee_errs E) \<and> len1 > 0")
    case True
    then have ne: "err \<noteq> 0" using e by simp
    have lt: "len1 < len"
      using pos by (auto simp: len1_def word_less_nat_alt unat_div unat_sub_if')
    have "unat len1 < unat len" using lt by (simp add: word_less_nat_alt)
    moreover have "lw_tcp (ec_lwip s1) pcb = Some b" using w ne by simp
    moreover have "len1 \<noteq> 0" using True by (auto simp: word_neq_0_conv)
    ultimately obtain err' n s' cs b' where ih:
      "tcp_write_loop E pcb p flag len1 s1 = Some (err', n, s')"
      "only_lwip s1 cs s'" "no_callback cs" "lw_tcp (ec_lwip s') pcb = Some b'" "tp_mss b' = tp_mss b"
      "if err' = 0 then 0 < n \<and> n \<le> len1 \<and> accepted cs = [p..<p + unat n]
                     \<and> n \<le> tp_snd_buf b \<and> tp_snd_buf b' = tp_snd_buf b - n
       else accepted cs = [] \<and> tp_snd_buf b' = tp_snd_buf b"
      using less.hyps [of len1 s1 b] by blast
    have "tcp_write_loop E pcb p flag len s = Some (err', n, s')"
      using True ih(1) by (subst tcp_write_loop.simps) (simp add: c_def [symmetric] ask len1_def)
    moreover have "only_lwip s ([Answered c err] @ cs) s'" using o1 ih(2) by (rule only_lwip_trans)
    moreover have "accepted ([Answered c err] @ cs) = accepted cs" using ne by (simp add: c_def)
    moreover have "no_callback ([Answered c err] @ cs)" using ih(3) by simp
    ultimately show ?thesis using ih(4-6) lt by (auto split: if_splits)
  next
    case False
    define n where "n = (if err = git_mem (ee_errs E) then len1 else len)"
    have r: "tcp_write_loop E pcb p flag len s = Some (err, n, s1)"
      using False by (subst tcp_write_loop.simps) (auto simp: c_def [symmetric] ask len1_def n_def Let_def)
    show ?thesis
    proof (cases "err = 0")
      case True
      then have "n = len" using e by (simp add: n_def)
      with r o1 w pos True show ?thesis by (auto simp: c_def)
    next
      case False
      with r o1 w show ?thesis by (auto simp: c_def)
    qed
  qed
qed

text \<open>
  A connection that can send: its control block, and the buffers \<open>ts\<close> from \<open>ptail\<close> on.
\<close>

definition sending :: "ptr \<Rightarrow> ptr \<Rightarrow> ptr list \<Rightarrow> ec \<Rightarrow> bool" where
  "sending arg pcb ts s \<longleftrightarrow> arg \<noteq> NULL \<and> pcb \<noteq> NULL
     \<and> (\<exists>m. ec_msgs s arg = Some m \<and> cp_pcb (ms_pcommon m) = pcb
          \<and> path eb_pnext (ec_bufs s) (cp_ptail (ms_pcommon m)) ts NULL)
     \<and> (\<forall>a \<in> set ts. \<forall>t. ec_bufs s a = Some t \<longrightarrow> eb_punsent t \<noteq> NULL)
     \<and> (\<exists>b. lw_tcp (ec_lwip s) pcb = Some b \<and> tp_mss b \<noteq> 0)"

definition room :: "ptr \<Rightarrow> ec \<Rightarrow> u16" where
  "room pcb s = (case lw_tcp (ec_lwip s) pcb of Some b \<Rightarrow> tp_snd_buf b | None \<Rightarrow> 0)"

lemma upt_split: "[p..<p + (a + b)] = [p..<p + a] @ [p + a..<p + a + b]" for p :: nat
  using upt_add_eq_append [of p "p + a" b] by (simp add: add.assoc)

lemma piece_len:
  fixes n :: u16
  assumes "r \<noteq> (0::u16)" "u \<noteq> 0" "mss \<noteq> (0::u16)"
  defines "len0 \<equiv> if r < u then r else u"
  defines "len1 \<equiv> if unat len0 > 2 * unat mss then of_nat (2 * unat mss) else len0"
  shows "len1 \<noteq> 0" "len1 \<le> u"
proof -
  have l: "len0 \<noteq> 0" "len0 \<le> u" using assms(1,2) by (auto simp: len0_def)
  have m: "0 < unat mss" "0 < unat len0" using assms(3) l(1) by (simp_all add: unat_gt_0)
  have "unat len1 = (if unat len0 > 2 * unat mss then 2 * unat mss else unat len0)"
  proof (cases "2 * unat mss < unat len0")
    case True
    have "unat len0 < 2 ^ 16" using unsigned_less [of len0, where ?'a = nat] by simp
    with True have "2 * unat mss < 2 ^ 16" by simp
    then have "unat (of_nat (2 * unat mss) :: u16) = 2 * unat mss"
      by (simp only: unat_of_nat len_num1 mod_less) (simp add: take_bit_eq_mod)
    with True show ?thesis by (simp add: len1_def del: of_nat_mult)
  next
    case False
    then show ?thesis by (simp add: len1_def)
  qed
  with l m show "len1 \<noteq> 0" "len1 \<le> u"
    by (auto simp: word_le_nat_alt split: if_splits)
qed

lemma sent_ok:
  assumes E: "tcp_stack_ok E" and S: "sending arg pcb (t # ts) s"
    and t: "ec_bufs s t = Some b0" "eb_unsent b0 \<noteq> 0" and r: "room pcb s \<noteq> 0"
  shows "\<exists>err s' cs b1. espconn_tcp_sent E arg (eb_punsent b0) (eb_unsent b0) s = Some (err, s')
    \<and> ec_calls s' = ec_calls s @ cs \<and> no_callback cs \<and> only_sends s s'
    \<and> sending arg pcb (t # ts) s'
    \<and> ec_bufs s' = (ec_bufs s)(t \<mapsto> b1) \<and> accepted cs @ waiting1 b1 = waiting1 b0
    \<and> (err = 0 \<longrightarrow> unat (eb_unsent b1) < unat (eb_unsent b0))"
proof -
  from S obtain m b where m: "ec_msgs s arg = Some m" "cp_pcb (ms_pcommon m) = pcb"
      "path eb_pnext (ec_bufs s) (cp_ptail (ms_pcommon m)) (t # ts) NULL"
    and b: "lw_tcp (ec_lwip s) pcb = Some b" "tp_mss b \<noteq> 0"
    and nn: "arg \<noteq> NULL" "pcb \<noteq> NULL" "eb_punsent b0 \<noteq> NULL"
    using t(1) unfolding sending_def by auto
  then have m: "ec_msgs s arg = Some m" "cp_pcb (ms_pcommon m) = pcb"
      "cp_ptail (ms_pcommon m) = t" "path eb_pnext (ec_bufs s) t (t # ts) NULL"
    and nn: "arg \<noteq> NULL" "pcb \<noteq> NULL" "eb_punsent b0 \<noteq> NULL" "t \<noteq> NULL"
    by (auto simp: deref_def split: if_splits)
  have dist: "distinct (t # ts)" using m(4) by (rule path_distinct)
  define u where "u = eb_unsent b0"
  define len0 where "len0 = (if tp_snd_buf b < u then tp_snd_buf b else u)"
  define len1 where "len1 = (if unat len0 > 2 * unat (tp_mss b) then of_nat (2 * unat (tp_mss b)) else len0)"
  define fl :: u8 where "fl = (if espconn_copy_disabled m then 1 else 0)"
  have len1: "len1 \<noteq> 0" "len1 \<le> u"
    using piece_len [of "tp_snd_buf b" u "tp_mss b"] r b t(2)
    by (auto simp: room_def len1_def len0_def u_def)
  from write_loop_ok [OF E b(1) len1(1), of "eb_punsent b0" fl]
  obtain err n s1 cs b' where w: "tcp_write_loop E pcb (eb_punsent b0) fl len1 s = Some (err, n, s1)"
    "only_lwip s cs s1" "lw_tcp (ec_lwip s1) pcb = Some b'" "tp_mss b' = tp_mss b"
    "if err = 0 then 0 < n \<and> n \<le> len1 \<and> accepted cs = [eb_punsent b0..<eb_punsent b0 + unat n]
        \<and> n \<le> tp_snd_buf b \<and> tp_snd_buf b' = tp_snd_buf b - n
     else accepted cs = [] \<and> tp_snd_buf b' = tp_snd_buf b" "no_callback cs" by blast
  have ok: "git_ok (ee_errs E) = 0" using E by (simp add: tcp_stack_ok_def)
  have run: "espconn_tcp_sent E arg (eb_punsent b0) u s =
    (if err = git_ok (ee_errs E)
        then do {
          tb \<leftarrow> deref (ec_bufs s1) t;
          let unsent = u - n;
          let s2 = s1\<lparr>ec_bufs := (ec_bufs s1)(t \<mapsto>
                        tb\<lparr>eb_punsent := eb_punsent b0 + unat n, eb_unsent := unsent\<rparr>)\<rparr>;
          let (err1, s3) = ec_ask E (Tcp_output pcb) s2;
          s4 \<leftarrow> (if espconn_copy_disabled m \<and> unsent = 0
                 then do { s4 \<leftarrow> upd_common arg (\<lambda>c. c\<lparr>cp_write_flag := True\<rparr>) s3;
                           Some (ec_do E (Ets_post SIG_ESPCONN_WRITE arg) s4) }
                 else Some s3);
          Some (err1, s4) }
        else Some (err, s1))"
    using m b nn t(2) w(1) unfolding espconn_tcp_sent_def
    by (simp add: deref_def u_def [symmetric] len0_def [symmetric] len1_def [symmetric]
        fl_def [symmetric] del: of_nat_mult split del: if_split cong del: bind_weak_cong if_weak_cong)
  note s1 = only_lwipD [OF w(2)]
  show ?thesis
  proof (cases "err = 0")
    case False
    have "sending arg pcb (t # ts) s1" using S s1 w(3,4) b by (auto simp: sending_def)
    moreover have "only_sends s s1" using s1 w(2) by (auto simp: only_lwip_def only_sends_def)
    ultimately show ?thesis using False w s1 ok run t(1)
      by (intro exI [of _ err] exI [of _ s1] exI [of _ cs] exI [of _ b0]) (auto simp: u_def)
  next
    case True
    define b1 where "b1 = b0\<lparr>eb_punsent := eb_punsent b0 + unat n, eb_unsent := u - n\<rparr>"
    define s2 where "s2 = s1\<lparr>ec_bufs := (ec_bufs s1)(t \<mapsto> b1)\<rparr>"
    define s3 where "s3 = snd (ec_ask E (Tcp_output pcb) s2)"
    define s4 where "s4 = (if espconn_copy_disabled m \<and> u - n = 0
       then ec_do E (Ets_post SIG_ESPCONN_WRITE arg) (s3\<lparr>ec_msgs := (ec_msgs s3)(arg \<mapsto>
              m\<lparr>ms_pcommon := (ms_pcommon m)\<lparr>cp_write_flag := True\<rparr>\<rparr>)\<rparr>) else s3)"
    define ds where "ds = [Answered (Tcp_output pcb) (ee_err E (Tcp_output pcb) s2)]
       @ (if espconn_copy_disabled m \<and> u - n = 0 then [Ets_post SIG_ESPCONN_WRITE arg] else [])"
    have nu: "n \<le> u" "0 < n" using w(5) True len1(2) by auto
    have run4: "espconn_tcp_sent E arg (eb_punsent b0) u s = Some (ee_err E (Tcp_output pcb) s2, s4)"
      using True ok t(1) s1 nn m(1) unfolding run s4_def s3_def s2_def b1_def
      by (simp add: deref_def case_prod_beta upd_common_def upd_msg_def Let_def
          cong del: bind_weak_cong if_weak_cong)
    obtain b3 where b3: "lw_tcp (ec_lwip s3) pcb = Some b3" "tp_mss b3 = tp_mss b"
      using tcp_output_ok [OF E, of s2 pcb b'] w(3,4) by (auto simp: s3_def s2_def)
    have lw4: "lw_tcp (ec_lwip s4) = lw_tcp (ec_lwip s3)"
      by (simp add: s4_def ets_post_ok [OF E])
    have c4: "ec_calls s4 = ec_calls s @ (cs @ ds)"
      by (simp add: s4_def s3_def s2_def ds_def s1)
    have h4: "ec_bufs s4 = (ec_bufs s)(t \<mapsto> b1)" by (simp add: s4_def s3_def s2_def s1)
    have p4: "path eb_pnext (ec_bufs s4) t (t # ts) NULL"
      using m(4) dist t(1) nn(4) unfolding h4 by (auto simp: b1_def deref_def)
    have m4: "\<exists>m4. ec_msgs s4 arg = Some m4 \<and> cp_pcb (ms_pcommon m4) = pcb
        \<and> cp_ptail (ms_pcommon m4) = t"
      using m by (simp add: s4_def s3_def s2_def s1)
    have d4: "\<forall>a \<in> set (t # ts). \<forall>tb. ec_bufs s4 a = Some tb \<longrightarrow> eb_punsent tb \<noteq> NULL"
      using S nn(3) unfolding h4 sending_def b1_def by auto
    have "sending arg pcb (t # ts) s4"
      unfolding sending_def
    proof (intro conjI nn(1,2) d4)
      show "\<exists>m. ec_msgs s4 arg = Some m \<and> cp_pcb (ms_pcommon m) = pcb
          \<and> path eb_pnext (ec_bufs s4) (cp_ptail (ms_pcommon m)) (t # ts) NULL"
        using m4 p4 by blast
      show "\<exists>b. lw_tcp (ec_lwip s4) pcb = Some b \<and> tp_mss b \<noteq> 0"
        using b3 b(2) by (simp add: lw4)
    qed
    moreover have "accepted ds = []" by (simp add: ds_def)
    moreover have "accepted cs @ waiting1 b1 = waiting1 b0"
    proof -
      have "unat (eb_unsent b0) = unat n + unat (u - n)"
        using nu by (simp add: u_def unat_sub word_le_nat_alt)
      then have "waiting1 b0 = [eb_punsent b0..<eb_punsent b0 + unat n]
          @ [eb_punsent b0 + unat n..<eb_punsent b0 + unat n + unat (u - n)]"
        unfolding waiting1_def by (simp only: upt_split)
      moreover have "accepted cs = [eb_punsent b0..<eb_punsent b0 + unat n]" using w(5) True by simp
      moreover have "waiting1 b1 = [eb_punsent b0 + unat n..<eb_punsent b0 + unat n + unat (u - n)]"
        by (simp add: waiting1_def b1_def)
      ultimately show ?thesis by (simp only:)
    qed
    moreover have "unat (u - n) < unat u"
      using nu by (simp add: unat_sub word_le_nat_alt word_less_nat_alt)
    moreover have "no_callback (cs @ ds)" using w(6) by (simp add: ds_def)
    moreover have "only_sends s s4"
    proof -
      have "only_sends s s1" using w(2) by (auto simp: only_lwip_def only_sends_def)
      moreover have "only_sends s1 s4"
        using t(1) m(1) s1 by (simp add: only_sends_def s4_def s3_def s2_def b1_def still_buf_def still_msg_def)
      ultimately show ?thesis by (rule only_sends_trans)
    qed
    ultimately have "sending arg pcb (t # ts) s4 \<and> no_callback (cs @ ds) \<and> only_sends s s4
        \<and> accepted (cs @ ds) @ waiting1 b1 = waiting1 b0
        \<and> unat (eb_unsent b1) < unat (eb_unsent b0)"
      by (simp add: b1_def u_def)
    with run4 c4 h4 show ?thesis unfolding u_def by blast
  qed
qed

section \<open>All of the data\<close>

lemma waiting_simps:
  "waiting h [] = []"
  "h t = Some b \<Longrightarrow> waiting h (t # ts) = waiting1 b @ waiting h ts"
  "t \<notin> set ts \<Longrightarrow> waiting (h(t \<mapsto> b)) ts = waiting h ts"
  by (auto simp: waiting_def intro!: arg_cong [where f = concat] map_cong)

lemma sendingD:
  assumes "sending arg pcb (t # ts) s"
  shows "\<exists>b. ec_bufs s t = Some b" "t \<noteq> NULL" "t \<notin> set ts"
proof -
  from assms obtain m :: espconn_msg where p: "path eb_pnext (ec_bufs s) (cp_ptail (ms_pcommon m)) (t # ts) NULL"
    unfolding sending_def by blast
  show "t \<notin> set ts" using path_distinct [OF p] by simp
  show "t \<noteq> NULL" using path_nonnull [OF p] by auto
  with path_deref [OF p, of t] show "\<exists>b. ec_bufs s t = Some b" by (auto simp: deref_def)
qed

lemma next_buffer:
  assumes "sending arg pcb (t # ts) s" "ec_bufs s t = Some b"
  shows "\<exists>s1. upd_common arg (\<lambda>c. c\<lparr>cp_ptail := eb_pnext b\<rparr>) s = Some s1
    \<and> sending arg pcb ts s1 \<and> ec_bufs s1 = ec_bufs s \<and> ec_calls s1 = ec_calls s
    \<and> ec_lwip s1 = ec_lwip s \<and> only_sends s s1"
  using assms sendingD(2) [OF assms(1)]
  by (auto simp: sending_def upd_common_def upd_msg_def deref_def only_sends_def still_msg_def)

definition written :: "ptr \<Rightarrow> ptr \<Rightarrow> ptr list \<Rightarrow> ec \<Rightarrow> (err_t \<times> ec) option \<Rightarrow> bool" where
  "written arg pcb ts s r \<longleftrightarrow>
     (\<exists>err s' cs us ts'. r = Some (err, s') \<and> ec_calls s' = ec_calls s @ cs
        \<and> no_callback cs \<and> only_sends s s'
        \<and> ts = us @ ts' \<and> sending arg pcb ts' s'
        \<and> accepted cs @ waiting (ec_bufs s') ts' = waiting (ec_bufs s) ts
        \<and> (err = 0 \<longrightarrow> ts' = [] \<or> room pcb s' = 0))"

lemma written_stop:
  assumes "sending arg pcb ts s" "err = 0 \<longrightarrow> ts = [] \<or> room pcb s = 0"
  shows "written arg pcb ts s (Some (err, s))"
  unfolding written_def using assms
  by (intro exI [of _ err] exI [of _ s] exI [of _ "[]"] exI [of _ "[]"] exI [of _ ts]) simp

lemma written_step:
  assumes "written arg pcb ts s1 r" "ec_calls s1 = ec_calls s @ cs" "no_callback cs" "only_sends s s1"
    and "accepted cs @ waiting (ec_bufs s1) ts = waiting (ec_bufs s) (vs @ ts)"
  shows "written arg pcb (vs @ ts) s r"
proof -
  from assms(1) obtain err s' ds us ts' where r: "r = Some (err, s')" "ec_calls s' = ec_calls s1 @ ds"
    "no_callback ds" "only_sends s1 s'"
    "ts = us @ ts'" "sending arg pcb ts' s'"
    "accepted ds @ waiting (ec_bufs s') ts' = waiting (ec_bufs s1) ts"
    "err = 0 \<longrightarrow> ts' = [] \<or> room pcb s' = 0"
    unfolding written_def by blast
  then have "accepted (cs @ ds) @ waiting (ec_bufs s') ts' = waiting (ec_bufs s) (vs @ ts)"
    using assms(5) by simp
  with r assms(2,3) only_sends_trans [OF assms(4) r(4)] show ?thesis unfolding written_def
    by (intro exI [of _ err] exI [of _ s'] exI [of _ "cs @ ds"] exI [of _ "vs @ us"] exI [of _ ts']) simp
qed

lemma write_all_head:
  assumes E: "tcp_stack_ok E" and S: "sending arg pcb (t # ts) s"
    and IH: "\<And>s. sending arg pcb ts s \<Longrightarrow> written arg pcb ts s (tcp_write_all E arg pcb 0 s)"
    and t: "ec_bufs s t = Some b"
  shows "written arg pcb (t # ts) s (tcp_write_all E arg pcb 0 s)"
  using S t
proof (induction "unat (eb_unsent b)" arbitrary: b s rule: less_induct)
  case less
  note S = less.prems(1)
  have ok: "git_ok (ee_errs E) = 0" using E by (simp add: tcp_stack_ok_def)
  from S obtain m pb where m: "ec_msgs s arg = Some m" "cp_ptail (ms_pcommon m) = t"
    and pb: "lw_tcp (ec_lwip s) pcb = Some pb" and nn: "arg \<noteq> NULL" "pcb \<noteq> NULL"
    by (auto simp: sending_def)
  have run: "tcp_write_all E arg pcb 0 s = (if tp_snd_buf pb = 0 then Some (0, s)
      else if eb_unsent b = 0
           then do { s1 \<leftarrow> upd_common arg (\<lambda>c. c\<lparr>cp_ptail := eb_pnext b\<rparr>) s;
                     tcp_write_all E arg pcb 0 s1 }
           else do { (err1, s1) \<leftarrow> espconn_tcp_sent E arg (eb_punsent b) (eb_unsent b) s;
                     if err1 \<noteq> 0 then Some (err1, s1) else tcp_write_all E arg pcb err1 s1 })"
    using m pb nn less.prems(2) sendingD(2) [OF S] ok
    by (subst tcp_write_all.simps) (simp add: deref_def cong del: bind_weak_cong if_weak_cong)
  have room: "room pcb s = tp_snd_buf pb" using pb by (simp add: room_def)
  consider "tp_snd_buf pb = 0" | "tp_snd_buf pb \<noteq> 0" "eb_unsent b = 0"
    | "tp_snd_buf pb \<noteq> 0" "eb_unsent b \<noteq> 0" by blast
  then show ?case
  proof cases
    case 1
    with S show ?thesis unfolding run by (simp add: written_stop room)
  next
    case 2
    obtain s1 where s1: "upd_common arg (\<lambda>c. c\<lparr>cp_ptail := eb_pnext b\<rparr>) s = Some s1"
      "sending arg pcb ts s1" "ec_bufs s1 = ec_bufs s" "ec_calls s1 = ec_calls s" "only_sends s s1"
      using next_buffer [OF S less.prems(2)] by blast
    have "written arg pcb ([t] @ ts) s (tcp_write_all E arg pcb 0 s1)"
      by (rule written_step [OF IH [OF s1(2)], of s "[]"])
         (use s1 less.prems(2) 2 in \<open>simp_all add: waiting_simps waiting1_def\<close>)
    with 2 s1(1) show ?thesis unfolding run by simp
  next
    case 3
    then obtain err s1 cs b1 where
      s1: "espconn_tcp_sent E arg (eb_punsent b) (eb_unsent b) s = Some (err, s1)"
      "ec_calls s1 = ec_calls s @ cs" "no_callback cs" "only_sends s s1" "sending arg pcb (t # ts) s1"
      "ec_bufs s1 = (ec_bufs s)(t \<mapsto> b1)" "accepted cs @ waiting1 b1 = waiting1 b"
      "err = 0 \<longrightarrow> unat (eb_unsent b1) < unat (eb_unsent b)"
      using sent_ok [OF E S less.prems(2)] room by auto
    have w: "accepted cs @ waiting (ec_bufs s1) (t # ts) = waiting (ec_bufs s) ([] @ t # ts)"
      using s1 less.prems(2) sendingD(3) [OF S] by (simp add: waiting_simps)
    have "written arg pcb (t # ts) s1 (if err \<noteq> 0 then Some (err, s1) else tcp_write_all E arg pcb err s1)"
      using less.hyps [of b1 s1] s1 by (simp add: written_stop)
    from written_step [OF this s1(2-4) w] 3 s1(1) show ?thesis unfolding run by simp
  qed
qed

lemma write_all_ok:
  assumes E: "tcp_stack_ok E" and S: "sending arg pcb ts s"
  shows "written arg pcb ts s (tcp_write_all E arg pcb 0 s)"
  using S
proof (induction ts arbitrary: s)
  case Nil
  then have "tcp_write_all E arg pcb 0 s = Some (0, s)"
    by (subst tcp_write_all.simps) (auto simp: sending_def deref_def)
  with Nil show ?case by (simp add: written_stop)
next
  case (Cons t ts)
  obtain b where "ec_bufs s t = Some b" using sendingD(1) [OF Cons.prems] by blast
  from write_all_head [OF E Cons.prems Cons.IH this] show ?case .
qed

section \<open>Property\<close>

lemma tcp_write_written:
  assumes "tcp_stack_ok E" "sending arg pcb ts s"
  shows "written arg pcb ts s (espconn_tcp_write E arg s)"
proof -
  from assms(2) obtain m b where m: "ec_msgs s arg = Some m" "cp_pcb (ms_pcommon m) = pcb"
    "lw_tcp (ec_lwip s) pcb = Some b" "arg \<noteq> NULL" "pcb \<noteq> NULL" by (auto simp: sending_def)
  have ok: "git_ok (ee_errs E) = 0" using assms(1) by (simp add: tcp_stack_ok_def)
  have "espconn_tcp_write E arg s =
    (if tp_nodelay b \<and> unat (tp_snd_queuelen b) \<ge> TCP_SND_QUEUELEN (ee_mss E)
     then Some (ESPCONN_MEM, s) else tcp_write_all E arg pcb 0 s)"
    using m ok by (simp add: espconn_tcp_write_def deref_def)
  moreover have "written arg pcb ts s (Some (ESPCONN_MEM, s))"
    using assms(2) by (rule written_stop) (simp add: ESPCONN_MEM_def)
  ultimately show ?thesis using write_all_ok [OF assms] by simp
qed

text \<open>
  C35: \<open>espconn_tcp_write\<close> always returns, and the bytes that lwIP accepted, in the order of the
  calls, followed by those that still wait, are exactly the bytes that waited before: none is
  lost, repeated or out of order, also when lwIP runs out of memory on the way. The connection
  can go on sending, and unless an error is returned all buffers are handed over or there is
  no room to send left.
\<close>

theorem espconn_tcp_writes_in_order:
  assumes "tcp_stack_ok E" "sending arg pcb ts s"
  shows "\<exists>err s' cs us ts'. espconn_tcp_write E arg s = Some (err, s')
    \<and> ec_calls s' = ec_calls s @ cs \<and> ts = us @ ts' \<and> sending arg pcb ts' s'
    \<and> accepted cs @ waiting (ec_bufs s') ts' = waiting (ec_bufs s) ts
    \<and> (err = 0 \<longrightarrow> ts' = [] \<or> room pcb s' = 0)"
  using tcp_write_written [OF assms] unfolding written_def by blast

text \<open>
  An example: an lwIP that is out of memory for more than 400 bytes at once, a connection
  with room for 1000 bytes, and two buffers of 700 and 800 bytes.
\<close>

definition sample_tcp_err :: "ec_call \<Rightarrow> ec \<Rightarrow> err_t" where
  "sample_tcp_err c s =
     (case c of
        Tcp_write pcb p n f \<Rightarrow>
          (case lw_tcp (ec_lwip s) pcb of
             None \<Rightarrow> 0
           | Some b \<Rightarrow> if n \<le> tp_snd_buf b \<and> n \<le> 400 then 0 else -1)
      | _ \<Rightarrow> 0)"

definition sample_tcp_effect :: "ec_call \<Rightarrow> ec \<Rightarrow> lwip" where
  "sample_tcp_effect c s =
     (case c of
        Tcp_write pcb p n f \<Rightarrow>
          (case lw_tcp (ec_lwip s) pcb of
             Some b \<Rightarrow> if n \<le> tp_snd_buf b \<and> n \<le> 400
               then (ec_lwip s)\<lparr>lw_tcp := (lw_tcp (ec_lwip s))(pcb \<mapsto> b\<lparr>tp_snd_buf := tp_snd_buf b - n\<rparr>)\<rparr>
               else ec_lwip s
           | None \<Rightarrow> ec_lwip s)
      | _ \<Rightarrow> ec_lwip s)"

definition sample_tcp_env :: ec_env where
  "sample_tcp_env = sample_udp_env\<lparr>ee_err := sample_tcp_err, ee_lwip := sample_tcp_effect\<rparr>"

definition sample_pcb :: tcp_pcb where
  "sample_pcb = \<lparr>tp_state = ESTABLISHED, tp_local_port = 80, tp_remote_port = 4000,
     tp_local_ip = 0, tp_remote_ip = 0, tp_snd_buf = 1000, tp_snd_queuelen = 0, tp_mss = 536,
     tp_nrtx = 0, tp_rcv_nxt = 0, tp_snd_nxt = 0, tp_nodelay = False, tp_keepalive = False,
     tp_keep_idle = 0, tp_keep_intvl = 0, tp_keep_cnt = 0, tp_tmr = 0, tp_next = NULL\<rparr>"

definition sample_tcp_state :: ec where
  "sample_tcp_state = sample_udp_state\<lparr>
     ec_msgs := [32 \<mapsto> msg_zero\<lparr>ms_pespconn := 48,
        ms_pcommon := (ms_pcommon msg_zero)\<lparr>cp_pcb := 16, cp_pbuf := 80, cp_ptail := 80\<rparr>\<rparr>],
     ec_bufs := [80 \<mapsto> \<lparr>eb_payload = 4096, eb_punsent = 4096, eb_unsent = 700, eb_len = 700,
                       eb_tot_len = 0, eb_pnext = 96\<rparr>,
                 96 \<mapsto> \<lparr>eb_payload = 8192, eb_punsent = 8192, eb_unsent = 800, eb_len = 800,
                       eb_tot_len = 0, eb_pnext = NULL\<rparr>],
     ec_lwip := (ec_lwip sample_udp_state)\<lparr>lw_tcp := [16 \<mapsto> sample_pcb]\<rparr>\<rparr>"

lemma sample_tcp_env_ok: "tcp_stack_ok sample_tcp_env"
  unfolding tcp_stack_ok_def
  by (simp add: sample_tcp_env_def sample_udp_env_def lwip2_errs_def sample_tcp_err_def
      sample_tcp_effect_def)

theorem espconn_tcp_writes_in_order_witness:
  "\<exists>err s' cs us ts'. espconn_tcp_write sample_tcp_env 32 sample_tcp_state = Some (err, s')
    \<and> ec_calls s' = cs \<and> [80, 96] = us @ ts'
    \<and> accepted cs @ waiting (ec_bufs s') ts' = [4096..<4796] @ [8192..<8992]"
proof -
  have "sending 32 16 [80, 96] sample_tcp_state"
    by (simp add: sending_def sample_tcp_state_def deref_def sample_pcb_def)
  moreover have "waiting (ec_bufs sample_tcp_state) [80, 96] = [4096..<4796] @ [8192..<8992]"
    by (simp add: waiting_def waiting1_def sample_tcp_state_def)
  moreover have "ec_calls sample_tcp_state = []"
    by (simp add: sample_tcp_state_def sample_udp_state_def)
  ultimately show ?thesis
    using espconn_tcp_writes_in_order [OF sample_tcp_env_ok, of 32 16 "[80, 96]" sample_tcp_state]
    by auto
qed

end
