(* ===== verification/Espconn_Ack_Properties.thy ===== *)
theory Espconn_Ack_Properties
  imports Espconn_Send_Properties
begin

text \<open>
  Acknowledged data. lwIP reports how many bytes the peer has acknowledged; espconn counts
  them against the buffers of the connection in the order they were sent, frees those that
  are complete and tells the application once for each.
\<close>

section \<open>The loop\<close>

definition buf_lens :: "(ptr \<rightharpoonup> espconn_buf) \<Rightarrow> ptr list \<Rightarrow> nat list" where
  "buf_lens h bs = map (\<lambda>a. unat (eb_len (the (h a)))) bs"

text \<open>Only the first buffer of a connection has acknowledged bytes.\<close>

definition acked_first :: "(ptr \<rightharpoonup> espconn_buf) \<Rightarrow> ptr list \<Rightarrow> bool" where
  "acked_first h bs \<longleftrightarrow> (\<forall>a \<in> set (tl bs). \<forall>b. h a = Some b \<longrightarrow> eb_tot_len b = 0)"

definition acked :: "(ptr \<rightharpoonup> espconn_buf) \<Rightarrow> ptr list \<Rightarrow> nat" where
  "acked h bs = (case bs of [] \<Rightarrow> 0 | a # _ \<Rightarrow> unat (eb_tot_len (the (h a))))"

text \<open>A message with its buffers \<open>bs\<close>, its descriptor \<open>pe\<close> and the sent callback \<open>f\<close>.\<close>

definition conn_bufs :: "ptr \<Rightarrow> ptr list \<Rightarrow> ptr \<Rightarrow> ptr \<Rightarrow> ec \<Rightarrow> bool" where
  "conn_bufs arg bs pe f s \<longleftrightarrow> arg \<noteq> NULL \<and> pe \<noteq> NULL
     \<and> (\<exists>m. ec_msgs s arg = Some m \<and> ms_pespconn m = pe
          \<and> path eb_pnext (ec_bufs s) (cp_pbuf (ms_pcommon m)) bs NULL)
     \<and> (\<exists>e. espconns s pe = Some e \<and> es_sent_callback e = f)"

text \<open>
  What is promised: the first \<open>n\<close> buffers, as many as the \<open>tot\<close> acknowledged bytes cover,
  are freed with one callback each; the rest of the bytes counts for the next buffer.
\<close>

definition settled :: "ptr \<Rightarrow> ptr list \<Rightarrow> ptr \<Rightarrow> ptr \<Rightarrow> nat \<Rightarrow> ec \<Rightarrow> nat \<Rightarrow> ec \<Rightarrow> bool" where
  "settled arg bs pe f tot s n s' \<longleftrightarrow>
     n \<le> length bs \<and> sum_list (take n (buf_lens (ec_bufs s) bs)) \<le> tot
     \<and> (n < length bs \<longrightarrow> tot < sum_list (take (Suc n) (buf_lens (ec_bufs s) bs))
          \<and> acked (ec_bufs s') (drop n bs) = tot - sum_list (take n (buf_lens (ec_bufs s) bs)))
     \<and> conn_bufs arg (drop n bs) pe f s' \<and> acked_first (ec_bufs s') (drop n bs)
     \<and> (\<forall>a \<in> set (take n bs). ec_bufs s' a = None)
     \<and> (\<forall>a. a \<notin> set bs \<longrightarrow> ec_bufs s' a = ec_bufs s a)"

definition sent_calls :: "ptr \<Rightarrow> ptr \<Rightarrow> nat \<Rightarrow> ec_call list" where
  "sent_calls f pe n = (if f = NULL then [] else replicate n (Sent_callback f pe))"

lemma ec_user_quiet: "quiet E \<Longrightarrow> ec_user E c s = s\<lparr>ec_calls := ec_calls s @ [c]\<rparr>"
  by (simp add: ec_user_def quiet_def)

lemma settled_stop:
  assumes "conn_bufs arg (a # bs) pe f s" "ec_bufs s a = Some b" "ec_bufs s' = (ec_bufs s)(a \<mapsto> b')"
    and "ec_msgs s' = ec_msgs s" "espconns s' = espconns s" "eb_pnext b' = eb_pnext b"
    and "tot = unat (eb_tot_len b')" "tot < unat (eb_len b)" "acked_first (ec_bufs s) (a # bs)"
  shows "settled arg (a # bs) pe f tot s 0 s'"
proof -
  from assms(1) have "a \<notin> set bs"
    using path_distinct [of eb_pnext "ec_bufs s" _ "a # bs"] by (auto simp: conn_bufs_def)
  with assms show ?thesis
    by (auto simp: settled_def conn_bufs_def buf_lens_def acked_def acked_first_def deref_def split: if_splits)
qed

lemma settled_free:
  assumes "settled arg bs pe f (tot - unat (eb_len b)) s1 n s'"
    and "ec_bufs s a = Some b" "unat (eb_len b) \<le> tot" "a \<notin> set bs"
    and "ec_bufs s1 = (ec_bufs s)(a := None)"
  shows "settled arg (a # bs) pe f tot s (Suc n) s'"
proof -
  have "buf_lens (ec_bufs s1) bs = buf_lens (ec_bufs s) bs"
    using assms(4,5) by (auto simp: buf_lens_def)
  moreover have "buf_lens (ec_bufs s) (a # bs) = unat (eb_len b) # buf_lens (ec_bufs s) bs"
    using assms(2) by (simp add: buf_lens_def)
  ultimately show ?thesis using assms(1,3,4,5) by (auto simp: settled_def)
qed

lemma finish_loop_ok:
  assumes E: "quiet E" and C: "conn_bufs arg bs pe f s" and A: "acked_first (ec_bufs s) bs"
    and o: "acked (ec_bufs s) bs + unat len < 2 ^ 16"
  shows "\<exists>n s'. tcp_finish_loop E arg len s = Some s' \<and> ec_calls s' = ec_calls s @ sent_calls f pe n
    \<and> settled arg bs pe f (if bs = [] then 0 else acked (ec_bufs s) bs + unat len) s n s'"
  using C A o
proof (induction bs arbitrary: s len)
  case Nil
  then have "tcp_finish_loop E arg len s = Some s"
    by (subst tcp_finish_loop.simps) (auto simp: conn_bufs_def deref_def)
  with Nil.prems(1) show ?case
    by (intro exI [of _ 0] exI [of _ s]) (simp add: sent_calls_def settled_def buf_lens_def acked_first_def)
next
  case (Cons a bs)
  from Cons.prems(1) obtain m e where m: "ec_msgs s arg = Some m" "ms_pespconn m = pe"
      "path eb_pnext (ec_bufs s) (cp_pbuf (ms_pcommon m)) (a # bs) NULL"
    and e: "espconns s pe = Some e" "es_sent_callback e = f" and nn: "arg \<noteq> NULL" "pe \<noteq> NULL"
    by (auto simp: conn_bufs_def)
  from m(3) obtain b where b: "ec_bufs s a = Some b" "a \<noteq> NULL" "cp_pbuf (ms_pcommon m) = a"
      "path eb_pnext (ec_bufs s) (eb_pnext b) bs NULL" by (auto dest: deref_SomeD)
  have a: "a \<notin> set bs" using path_distinct [OF m(3)] by simp
  define tot where "tot = unat (eb_tot_len b) + unat len"
  define b1 where "b1 = b\<lparr>eb_tot_len := eb_tot_len b + len\<rparr>"
  have tt: "unat (eb_tot_len b1) = tot" "acked (ec_bufs s) (a # bs) + unat len = tot"
    using Cons.prems(3) b(1) by (simp_all add: acked_def tot_def b1_def unat_word_ariths)
  show ?case
  proof (cases "eb_tot_len b1 \<ge> eb_len b1")
    case False
    have "tcp_finish_loop E arg len s = Some (s\<lparr>ec_bufs := (ec_bufs s)(a \<mapsto> b1)\<rparr>)"
      using False m(1) b nn by (subst tcp_finish_loop.simps) (simp add: deref_def b1_def Let_def)
    moreover have "settled arg (a # bs) pe f tot s 0 (s\<lparr>ec_bufs := (ec_bufs s)(a \<mapsto> b1)\<rparr>)"
      using False tt(1) by (intro settled_stop [OF Cons.prems(1) b(1), of _ b1])
        (simp_all add: b1_def word_le_nat_alt Cons.prems(2))
    ultimately show ?thesis using tt(2)
      by (intro exI [of _ 0] exI [of _ "s\<lparr>ec_bufs := (ec_bufs s)(a \<mapsto> b1)\<rparr>"]) (simp add: sent_calls_def)
  next
    case True
    define len1 where "len1 = eb_tot_len b1 - eb_len b"
    define m6 where "m6 = m\<lparr>ms_pcommon := (ms_pcommon m)\<lparr>cp_pbuf := eb_pnext b,
      cp_packet_info := (cp_packet_info (ms_pcommon m))\<lparr>ep_sent_length := len1\<rparr>\<rparr>\<rparr>"
    define s6 where "s6 = s\<lparr>ec_bufs := (ec_bufs s)(a := None),
      espconns := (espconns s)(pe \<mapsto> e\<lparr>es_state := ESPCONN_CONNECT\<rparr>),
      ec_calls := ec_calls s @ sent_calls f pe 1, ec_msgs := (ec_msgs s)(arg \<mapsto> m6)\<rparr>"
    have le: "unat (eb_len b) \<le> tot" using True tt(1) by (simp add: b1_def word_le_nat_alt)
    have len1: "unat len1 = tot - unat (eb_len b)"
      using True tt(1) by (simp add: len1_def unat_sub b1_def)
    have run: "tcp_finish_loop E arg len s = tcp_finish_loop E arg len1 s6"
      using True m(1,2) b nn e
      by (subst tcp_finish_loop.simps) (simp add: deref_def b1_def Let_def pbuf_delete_def
          espconn_pbuf_delete_def list_delete_def upd_common_def upd_msg_def os_free_def
          upd_espconn_def ec_user_quiet [OF E] s6_def m6_def len1_def sent_calls_def)
    have C6: "conn_bufs arg bs pe f s6"
      using nn m b(4) e(2) a by (simp add: conn_bufs_def s6_def m6_def)
    have z: "\<forall>x \<in> set bs. \<forall>d. ec_bufs s x = Some d \<longrightarrow> eb_tot_len d = 0"
      using Cons.prems(2) by (simp add: acked_first_def)
    have A6: "acked_first (ec_bufs s6) bs"
      using z a by (cases bs) (simp_all add: acked_first_def s6_def)
    have z6: "acked (ec_bufs s6) bs = 0"
    proof (cases bs)
      case (Cons c cs)
      then obtain d where "ec_bufs s c = Some d" using b(4) by (auto dest: deref_SomeD)
      with Cons z a show ?thesis by (auto simp: acked_def s6_def)
    qed (simp add: acked_def)
    have "acked (ec_bufs s6) bs + unat len1 < 2 ^ 16"
      using z6 unsigned_less [of len1, where ?'a = nat] by simp
    from Cons.IH [OF C6 A6 this, unfolded z6 add_0] obtain n s' where ih:
      "tcp_finish_loop E arg len1 s6 = Some s'" "ec_calls s' = ec_calls s6 @ sent_calls f pe n"
      "settled arg bs pe f (if bs = [] then 0 else unat len1) s6 n s'"
      by blast
    have "settled arg bs pe f (tot - unat (eb_len b)) s6 n s'"
      using ih(3) len1 by (auto simp: settled_def split: if_splits)
    then have "settled arg (a # bs) pe f tot s (Suc n) s'"
      by (rule settled_free) (use b(1) le a in \<open>simp_all add: s6_def\<close>)
    with ih run tt(2) show ?thesis
      by (intro exI [of _ "Suc n"] exI [of _ s']) (simp add: s6_def sent_calls_def replicate_app_Cons_same)
  qed
qed

section \<open>An acknowledgement\<close>

lemma still_sel:
  "still_buf b' = still_buf b \<Longrightarrow> eb_pnext b' = eb_pnext b \<and> eb_len b' = eb_len b \<and> eb_tot_len b' = eb_tot_len b"
  "still_msg m' = still_msg m \<Longrightarrow> ms_pespconn m' = ms_pespconn m \<and> cp_pbuf (ms_pcommon m') = cp_pbuf (ms_pcommon m)"
  by (cases b; cases b'; simp add: still_buf_def)
     (cases m; cases m'; cases "ms_pcommon m"; cases "ms_pcommon m'"; simp add: still_msg_def)

lemma only_sendsD:
  assumes "only_sends s s'"
  shows "ec_bufs s a = None \<Longrightarrow> ec_bufs s' a = None"
    and "ec_bufs s a = Some b \<Longrightarrow> \<exists>b'. ec_bufs s' a = Some b' \<and> eb_pnext b' = eb_pnext b
          \<and> eb_len b' = eb_len b \<and> eb_tot_len b' = eb_tot_len b"
    and "ec_msgs s p = Some m \<Longrightarrow> \<exists>m'. ec_msgs s' p = Some m' \<and> ms_pespconn m' = ms_pespconn m
          \<and> cp_pbuf (ms_pcommon m') = cp_pbuf (ms_pcommon m)"
    and "espconns s' = espconns s"
proof -
  show "ec_bufs s a = None \<Longrightarrow> ec_bufs s' a = None" "espconns s' = espconns s"
    using assms unfolding only_sends_def by (auto dest!: spec [where x = a])
  show "ec_bufs s a = Some b \<Longrightarrow> \<exists>b'. ec_bufs s' a = Some b' \<and> eb_pnext b' = eb_pnext b
          \<and> eb_len b' = eb_len b \<and> eb_tot_len b' = eb_tot_len b"
    using assms unfolding only_sends_def by (auto dest!: spec [where x = a] still_sel)
  show "ec_msgs s p = Some m \<Longrightarrow> \<exists>m'. ec_msgs s' p = Some m' \<and> ms_pespconn m' = ms_pespconn m
          \<and> cp_pbuf (ms_pcommon m') = cp_pbuf (ms_pcommon m)"
    using assms unfolding only_sends_def by (auto dest!: spec [where x = p] still_sel)
qed

lemma still_conn:
  assumes S: "only_sends s s'" and C: "conn_bufs arg bs pe f s"
  shows "conn_bufs arg bs pe f s'" "buf_lens (ec_bufs s') bs = buf_lens (ec_bufs s) bs"
    "acked (ec_bufs s') bs = acked (ec_bufs s) bs"
    "acked_first (ec_bufs s) bs \<Longrightarrow> acked_first (ec_bufs s') bs"
    "\<And>a. ec_bufs s' a = None \<longleftrightarrow> ec_bufs s a = None"
proof -
  from C obtain m e where m: "ec_msgs s arg = Some m" "ms_pespconn m = pe"
      "path eb_pnext (ec_bufs s) (cp_pbuf (ms_pcommon m)) bs NULL"
    and e: "espconns s pe = Some e" "es_sent_callback e = f" and nn: "arg \<noteq> NULL" "pe \<noteq> NULL"
    by (auto simp: conn_bufs_def)
  obtain m' where m': "ec_msgs s' arg = Some m'" "ms_pespconn m' = pe"
    "cp_pbuf (ms_pcommon m') = cp_pbuf (ms_pcommon m)"
    using only_sendsD(3) [OF S m(1)] m(2) by auto
  have b: "\<exists>b b'. ec_bufs s a = Some b \<and> ec_bufs s' a = Some b' \<and> eb_pnext b' = eb_pnext b
      \<and> eb_len b' = eb_len b \<and> eb_tot_len b' = eb_tot_len b" if "a \<in> set bs" for a
    using path_deref [OF m(3) that] only_sendsD(2) [OF S] by (auto dest!: deref_SomeD)
  have "path eb_pnext (ec_bufs s') (cp_pbuf (ms_pcommon m)) bs NULL"
    using m(3) by (rule path_same_next) (use b in fastforce)
  then show "conn_bufs arg bs pe f s'"
    using m' e nn only_sendsD(4) [OF S] by (auto simp: conn_bufs_def)
  show "buf_lens (ec_bufs s') bs = buf_lens (ec_bufs s) bs"
    using b by (fastforce simp: buf_lens_def)
  show "acked (ec_bufs s') bs = acked (ec_bufs s) bs"
    using b by (cases bs) (fastforce simp: acked_def)+
  show "acked_first (ec_bufs s) bs \<Longrightarrow> acked_first (ec_bufs s') bs"
    using b by (cases bs) (fastforce simp: acked_first_def)+
  show "ec_bufs s' a = None \<longleftrightarrow> ec_bufs s a = None" for a
    using only_sendsD(1,2) [OF S, of a] by (cases "ec_bufs s a") auto
qed

definition sent_count :: "ptr \<Rightarrow> ptr \<Rightarrow> ec_call list \<Rightarrow> nat" where
  "sent_count f pe cs = length (filter (\<lambda>c. c = Sent_callback f pe) cs)"

lemma sent_count_settled:
  "no_callback cs \<Longrightarrow> f \<noteq> NULL \<Longrightarrow> sent_count f pe (cs @ sent_calls f pe n) = n"
  by (auto simp: sent_count_def sent_calls_def no_callback_def filter_empty_conv)

text \<open>What is freed: the buffers that are settled.\<close>

lemma settled_none:
  assumes S: "settled arg bs pe f tot s n s'" and a: "\<And>a. a \<in> set bs \<Longrightarrow> ec_bufs s a \<noteq> None"
  shows "ec_bufs s' a = None \<longleftrightarrow> ec_bufs s a = None \<or> a \<in> set (take n bs)"
proof (cases "a \<in> set bs")
  case True
  then have "a \<in> set (take n bs) \<or> a \<in> set (drop n bs)"
    by (metis Un_iff append_take_drop_id set_append)
  then show ?thesis
  proof
    assume "a \<in> set (drop n bs)"
    moreover obtain q where "path eb_pnext (ec_bufs s') q (drop n bs) NULL"
      using S unfolding settled_def conn_bufs_def by blast
    ultimately have "ec_bufs s' a \<noteq> None"
      using path_deref by (fastforce simp: deref_def split: if_splits)
    moreover from this have "a \<notin> set (take n bs)" using S by (auto simp: settled_def)
    ultimately show ?thesis using a [OF True] by blast
  qed (use S in \<open>auto simp: settled_def\<close>)
qed (use S in \<open>auto simp: settled_def dest: in_set_takeD\<close>)

text \<open>
  The run of an acknowledgement: the bytes are added to the first buffer (\<open>s2\<close>), what waits is
  sent (\<open>s3\<close>), and what is complete is settled.
\<close>

definition counted_in :: "ptr \<Rightarrow> ptr \<Rightarrow> ptr \<Rightarrow> u16 \<Rightarrow> ec \<Rightarrow> ec \<Rightarrow> bool" where
  "counted_in arg pcb b len s s2 \<longleftrightarrow> (\<exists>m m2 d. ec_msgs s arg = Some m \<and> ec_bufs s b = Some d
     \<and> s2 = s\<lparr>ec_bufs := (ec_bufs s)(b \<mapsto> d\<lparr>eb_tot_len := eb_tot_len d + len\<rparr>), ec_msgs := (ec_msgs s)(arg \<mapsto> m2)\<rparr>
     \<and> cp_pcb (ms_pcommon m2) = pcb
     \<and> (\<exists>c. m2 = m\<lparr>ms_pcommon := c\<rparr> \<and> cp_pbuf c = cp_pbuf (ms_pcommon m) \<and> cp_ptail c = cp_ptail (ms_pcommon m)))"

lemma ack_counted:
  assumes C: "conn_bufs arg (b # bs) pe f s"
    and g: "\<And>c. cp_pbuf (g c) = cp_pbuf c" "\<And>c. cp_ptail (g c) = cp_ptail c" "\<And>c. cp_pcb (g c) = cp_pcb c"
  shows "\<exists>s2. counted_in arg pcb b len s s2
    \<and> acknowledge g E arg pcb len s = do { s3 \<leftarrow> espconn_tcp_finish E arg s2; Some (git_ok (ee_errs E), s3) }"
proof -
  from C obtain m where m: "ec_msgs s arg = Some m" "arg \<noteq> NULL"
    "path eb_pnext (ec_bufs s) (cp_pbuf (ms_pcommon m)) (b # bs) NULL" by (auto simp: conn_bufs_def)
  then obtain d where d: "ec_bufs s b = Some d" "b \<noteq> NULL" "cp_pbuf (ms_pcommon m) = b"
    by (auto dest: deref_SomeD)
  let ?c = "g ((ms_pcommon m)\<lparr>cp_pcb := pcb\<rparr>)"
  let ?m2 = "m\<lparr>ms_pcommon := ?c\<lparr>cp_packet_info := (cp_packet_info ?c)\<lparr>ep_sent_length := len\<rparr>\<rparr>\<rparr>"
  let ?s2 = "s\<lparr>ec_bufs := (ec_bufs s)(b \<mapsto> d\<lparr>eb_tot_len := eb_tot_len d + len\<rparr>), ec_msgs := (ec_msgs s)(arg \<mapsto> ?m2)\<rparr>"
  have "acknowledge g E arg pcb len s = do { s3 \<leftarrow> espconn_tcp_finish E arg ?s2; Some (git_ok (ee_errs E), s3) }"
    using m d g by (simp add: acknowledge_def upd_common_def upd_msg_def deref_def cong del: bind_weak_cong)
  moreover have "counted_in arg pcb b len s ?s2"
    unfolding counted_in_def using m d g by (intro exI [of _ m] exI [of _ ?m2] exI [of _ d]) auto
  ultimately show ?thesis by blast
qed

lemma counted_keeps:
  assumes A: "counted_in arg pcb b len s s2" and C: "conn_bufs arg (b # bs) pe f s"
    and o: "acked (ec_bufs s) (b # bs) + unat len < 2 ^ 16"
  shows "sending arg pcb0 ts s \<Longrightarrow> pcb0 = pcb \<Longrightarrow> sending arg pcb ts s2"
    and "conn_bufs arg (b # bs) pe f s2"
    and "buf_lens (ec_bufs s2) (b # bs) = buf_lens (ec_bufs s) (b # bs)"
    and "acked (ec_bufs s2) (b # bs) = acked (ec_bufs s) (b # bs) + unat len"
    and "acked_first (ec_bufs s) (b # bs) \<Longrightarrow> acked_first (ec_bufs s2) (b # bs)"
    and "ec_bufs s2 a = None \<longleftrightarrow> ec_bufs s a = None" and "ec_calls s2 = ec_calls s"
proof -
  from A obtain m c d where a: "ec_msgs s arg = Some m" "ec_bufs s b = Some d"
    and s2: "s2 = s\<lparr>ec_bufs := (ec_bufs s)(b \<mapsto> d\<lparr>eb_tot_len := eb_tot_len d + len\<rparr>),
      ec_msgs := (ec_msgs s)(arg \<mapsto> m\<lparr>ms_pcommon := c\<rparr>)\<rparr>"
    and c: "cp_pcb c = pcb" "cp_pbuf c = cp_pbuf (ms_pcommon m)" "cp_ptail c = cp_ptail (ms_pcommon m)"
    unfolding counted_in_def by auto
  have px: "path eb_pnext (ec_bufs s2) q as r" if "path eb_pnext (ec_bufs s) q as r" for q as r
    using that by (rule path_same_next) (use a in \<open>simp add: s2\<close>)
  from C a have p: "path eb_pnext (ec_bufs s) (cp_pbuf (ms_pcommon m)) (b # bs) NULL" by (simp add: conn_bufs_def)
  have b: "b \<notin> set bs" using path_distinct [OF p] by simp
  show "sending arg pcb0 ts s \<Longrightarrow> pcb0 = pcb \<Longrightarrow> sending arg pcb ts s2"
    using a c px unfolding sending_def by (auto simp: s2 split: if_splits)
  show "conn_bufs arg (b # bs) pe f s2"
    using C a c px [OF p] by (simp add: conn_bufs_def s2)
  show "buf_lens (ec_bufs s2) (b # bs) = buf_lens (ec_bufs s) (b # bs)"
    using a by (simp add: buf_lens_def s2)
  show "acked (ec_bufs s2) (b # bs) = acked (ec_bufs s) (b # bs) + unat len"
    using a o by (simp add: acked_def s2 unat_word_ariths)
  show "acked_first (ec_bufs s) (b # bs) \<Longrightarrow> acked_first (ec_bufs s2) (b # bs)"
    using b by (auto simp: acked_first_def s2)
  show "ec_bufs s2 a = None \<longleftrightarrow> ec_bufs s a = None" "ec_calls s2 = ec_calls s"
    using a by (auto simp: s2)
qed

lemma acknowledged:
  assumes E: "tcp_stack_ok E" "quiet E" and S: "sending arg pcb ts s"
    and C: "conn_bufs arg (b # bs) pe f s" "acked_first (ec_bufs s) (b # bs)"
    and o: "acked (ec_bufs s) (b # bs) + unat len < 2 ^ 16"
    and g: "\<And>c. cp_pbuf (g c) = cp_pbuf c" "\<And>c. cp_ptail (g c) = cp_ptail c" "\<And>c. cp_pcb (g c) = cp_pcb c"
  shows "\<exists>s2 err s3 s' n cs. acknowledge g E arg pcb len s = Some (0, s') \<and> counted_in arg pcb b len s s2
    \<and> espconn_tcp_write E arg s2 = Some (err, s3) \<and> tcp_finish_loop E arg 0 s3 = Some s'
    \<and> only_sends s2 s3 \<and> ec_calls s' = ec_calls s @ cs \<and> (f \<noteq> NULL \<longrightarrow> sent_count f pe cs = n)
    \<and> settled arg (b # bs) pe f (acked (ec_bufs s) (b # bs) + unat len) s3 n s'
    \<and> buf_lens (ec_bufs s3) (b # bs) = buf_lens (ec_bufs s) (b # bs)
    \<and> (\<forall>a. ec_bufs s3 a = None \<longleftrightarrow> ec_bufs s a = None)"
proof -
  have ok: "git_ok (ee_errs E) = 0" using E(1) by (simp add: tcp_stack_ok_def)
  obtain s2 where s2: "counted_in arg pcb b len s s2"
    "acknowledge g E arg pcb len s = do { s3 \<leftarrow> espconn_tcp_finish E arg s2; Some (git_ok (ee_errs E), s3) }"
    using ack_counted [OF C(1) g] by blast
  note K = counted_keeps [OF s2(1) C(1) o]
  obtain err s3 cs where w: "espconn_tcp_write E arg s2 = Some (err, s3)" "ec_calls s3 = ec_calls s2 @ cs"
    "no_callback cs" "only_sends s2 s3"
    using tcp_write_written [OF E(1) K(1) [OF S refl]] unfolding written_def by auto
  note W = still_conn [OF w(4) K(2)]
  have "acked (ec_bufs s3) (b # bs) + unat (0::u16) < 2 ^ 16" using W(3) K(4) o by simp
  from finish_loop_ok [OF E(2) W(1) W(4) this] K(5) [OF C(2)] obtain n s' where
    f: "tcp_finish_loop E arg 0 s3 = Some s'" "ec_calls s' = ec_calls s3 @ sent_calls f pe n"
      "settled arg (b # bs) pe f (acked (ec_bufs s) (b # bs) + unat len) s3 n s'"
    using W(3) K(4) by auto
  have "acknowledge g E arg pcb len s = Some (0, s')"
    using s2(2) w(1) f(1) ok by (simp add: espconn_tcp_finish_def)
  with s2(1) w f K W(2,5) sent_count_settled [OF w(3)] show ?thesis
    by (intro exI [of _ s2] exI [of _ err] exI [of _ s3] exI [of _ s'] exI [of _ n]
        exI [of _ "cs @ sent_calls f pe n"]) simp
qed

text \<open>
  C37: When lwIP reports \<open>len\<close> acknowledged bytes on a connection, espconn returns, sends more of
  what waits, and settles exactly the buffers that are complete: the first \<open>n\<close> buffers of the
  connection, \<open>n\<close> being the most whose lengths the acknowledged bytes cover, are freed, each
  with one call of the sent callback, and taken off the list; the remaining bytes are counted
  for the next buffer, and no other buffer is freed.
\<close>

theorem espconn_acknowledged:
  assumes E: "tcp_stack_ok E" "quiet E" and S: "sending arg pcb ts s"
    and C: "conn_bufs arg (b # bs) pe f s" "acked_first (ec_bufs s) (b # bs)"
    and o: "acked (ec_bufs s) (b # bs) + unat len < 2 ^ 16"
  shows "\<exists>s' n cs. (if server then espconn_server_sent E arg pcb len s else espconn_client_sent E arg pcb len s)
        = Some (0, s')
    \<and> ec_calls s' = ec_calls s @ cs \<and> (f \<noteq> NULL \<longrightarrow> sent_count f pe cs = n)
    \<and> n \<le> Suc (length bs)
    \<and> sum_list (take n (buf_lens (ec_bufs s) (b # bs))) \<le> acked (ec_bufs s) (b # bs) + unat len
    \<and> (n \<le> length bs \<longrightarrow>
         acked (ec_bufs s) (b # bs) + unat len < sum_list (take (Suc n) (buf_lens (ec_bufs s) (b # bs)))
         \<and> acked (ec_bufs s') (drop n (b # bs)) + sum_list (take n (buf_lens (ec_bufs s) (b # bs)))
             = acked (ec_bufs s) (b # bs) + unat len)
    \<and> conn_bufs arg (drop n (b # bs)) pe f s'
    \<and> (\<forall>a. ec_bufs s' a = None \<longleftrightarrow> ec_bufs s a = None \<or> a \<in> set (take n (b # bs)))"
proof -
  have g: "cp_pbuf (if server then c\<lparr>cp_recv_check := 0\<rparr> else c) = cp_pbuf c"
    "cp_ptail (if server then c\<lparr>cp_recv_check := 0\<rparr> else c) = cp_ptail c"
    "cp_pcb (if server then c\<lparr>cp_recv_check := 0\<rparr> else c) = cp_pcb c" for c
    by simp_all
  have "(if server then espconn_server_sent E arg pcb len s else espconn_client_sent E arg pcb len s)
      = acknowledge (\<lambda>c. if server then c\<lparr>cp_recv_check := 0\<rparr> else c) E arg pcb len s"
    by (simp add: espconn_server_sent_def espconn_client_sent_def)
  moreover have some: "ec_bufs s x \<noteq> None" if "x \<in> set (b # bs)" for x
    using C(1) path_deref [OF _ that] by (fastforce simp: conn_bufs_def dest: deref_SomeD)
  moreover obtain s2 err s3 s' n cs where
    r: "acknowledge (\<lambda>c. if server then c\<lparr>cp_recv_check := 0\<rparr> else c) E arg pcb len s = Some (0, s')"
      "ec_calls s' = ec_calls s @ cs" "f \<noteq> NULL \<longrightarrow> sent_count f pe cs = n"
      "settled arg (b # bs) pe f (acked (ec_bufs s) (b # bs) + unat len) s3 n s'"
      "buf_lens (ec_bufs s3) (b # bs) = buf_lens (ec_bufs s) (b # bs)"
      "\<forall>a. ec_bufs s3 a = None \<longleftrightarrow> ec_bufs s a = None"
    using acknowledged [OF E S C o g] by blast
  moreover have "\<forall>a. ec_bufs s' a = None \<longleftrightarrow> ec_bufs s a = None \<or> a \<in> set (take n (b # bs))"
    using settled_none [OF r(4)] r(6) some by simp
  ultimately show ?thesis
    by (intro exI [of _ s'] exI [of _ n] exI [of _ cs] conjI impI) (simp_all add: settled_def)
qed

text \<open>
  An example: three buffers of 10, 20 and 30 bytes wait to be acknowledged, 12 bytes are.
\<close>

definition sample_ack_state :: ec where
  "sample_ack_state = sample_tcp_state\<lparr>
     espconns := [48 \<mapsto> espconn_zero\<lparr>es_type := ESPCONN_TCP, es_sent_callback := 7\<rparr>],
     ec_msgs := [32 \<mapsto> msg_zero\<lparr>ms_pespconn := 48,
        ms_pcommon := (ms_pcommon msg_zero)\<lparr>cp_pcb := 16, cp_pbuf := 80\<rparr>\<rparr>],
     ec_bufs := [80 \<mapsto> buf_zero\<lparr>eb_len := 10, eb_pnext := 96\<rparr>,
                 96 \<mapsto> buf_zero\<lparr>eb_len := 20, eb_pnext := 112\<rparr>,
                 112 \<mapsto> buf_zero\<lparr>eb_len := 30\<rparr>]\<rparr>"

theorem espconn_acknowledged_witness:
  "\<exists>s' cs. espconn_client_sent sample_tcp_env 32 16 12 sample_ack_state = Some (0, s')
     \<and> ec_calls s' = cs \<and> sent_count 7 48 cs = 1
     \<and> ec_bufs s' 80 = None \<and> acked (ec_bufs s') [96, 112] = 2"
proof -
  have c: "conn_bufs 32 [80, 96, 112] 48 7 sample_ack_state"
    by (simp add: conn_bufs_def sample_ack_state_def deref_def buf_zero_def msg_zero_def)
  have t: "sending 32 16 [] sample_ack_state"
    by (simp add: sending_def sample_ack_state_def sample_tcp_state_def sample_pcb_def msg_zero_def)
  have f: "acked_first (ec_bufs sample_ack_state) [80, 96, 112]"
    "acked (ec_bufs sample_ack_state) [80, 96, 112] = 0"
    "buf_lens (ec_bufs sample_ack_state) [80, 96, 112] = [10, 20, 30]"
    "ec_calls sample_ack_state = []"
    by (simp_all add: acked_first_def acked_def buf_lens_def sample_ack_state_def buf_zero_def
        sample_tcp_state_def sample_udp_state_def)
  have q: "quiet sample_tcp_env" by (simp add: quiet_def sample_tcp_env_def sample_udp_env_def)
  from espconn_acknowledged [OF sample_tcp_env_ok q t c f(1), of 12 False] f
  obtain s' n cs where r: "espconn_client_sent sample_tcp_env 32 16 12 sample_ack_state = Some (0, s')"
    "ec_calls s' = cs" "sent_count 7 48 cs = n" "n \<le> 3" "sum_list (take n [10, 20, 30]) \<le> (12::nat)"
    "n \<le> 2 \<longrightarrow> (12::nat) < sum_list (take (Suc n) [10, 20, 30])
       \<and> acked (ec_bufs s') (drop n [80, 96, 112]) + sum_list (take n [10, 20, 30]) = 12"
    "\<forall>a. ec_bufs s' a = None \<longleftrightarrow> ec_bufs sample_ack_state a = None \<or> a \<in> set (take n [80, 96, 112])"
    by (auto simp del: take_Suc_Cons)
  from r(4) consider "n = 0" | "n = 1" | "n = 2" | "n = 3" by linarith
  then have "n = 1" using r(5,6) by cases (simp_all add: numeral_eq_Suc)
  with r show ?thesis by auto
qed

end
