(* ===== verification/Espconn_Close_Properties.thy ===== *)
theory Espconn_Close_Properties
  imports Espconn_Ack_Properties
begin

text \<open>
  The end of a connection. When a connection is closed or breaks, an event is posted to the
  task of espconn, which takes the connection off the list, frees everything that belongs to
  it and tells the application.
\<close>

section \<open>The contract of lwIP\<close>

text \<open>The lists of control blocks stay finite, whatever lwIP does in a call.\<close>

definition pcb_lists :: "lwip \<Rightarrow> bool" where
  "pcb_lists l \<longleftrightarrow> (\<exists>as. path tp_next (lw_tcp l) (lw_active l) as NULL)
     \<and> (\<exists>ws. path tp_next (lw_tcp l) (lw_tw l) ws NULL)
     \<and> (\<exists>bs. path tp_next (lw_tcp l) (lw_bound l) bs NULL)"

definition lists_stay :: "ec_env \<Rightarrow> bool" where
  "lists_stay E \<longleftrightarrow> (\<forall>c s. pcb_lists (ec_lwip s) \<longrightarrow> pcb_lists (ee_lwip E c s))"

text \<open>The calls that end control blocks and take espconn's handlers off them.\<close>

definition pcb_call :: "ec_call \<Rightarrow> bool" where
  "pcb_call c \<longleftrightarrow>
     (\<exists>p. c \<in> {Tcp_abort p, Tcp_pcb_remove p, Memp_free p, Tcp_arg p NULL, Tcp_err p No_handler})"

lemma pcb_calls [simp]:
  "pcb_call (Tcp_abort p)" "pcb_call (Tcp_pcb_remove p)" "pcb_call (Memp_free p)"
  "pcb_call (Tcp_arg p NULL)" "pcb_call (Tcp_err p No_handler)"
  by (auto simp: pcb_call_def)

text \<open>A result where only lwIP and the log have changed.\<close>

definition lwip_only :: "ec \<Rightarrow> ec option \<Rightarrow> bool" where
  "lwip_only s r \<longleftrightarrow> (\<exists>s' cs. r = Some s' \<and> only_lwip s cs s' \<and> pcb_lists (ec_lwip s')
     \<and> (\<forall>c \<in> set cs. pcb_call c))"

lemma lwip_only_refl: "pcb_lists (ec_lwip s) \<Longrightarrow> lwip_only s (Some s)"
  unfolding lwip_only_def by (intro exI [of _ s] exI [of _ "[]"])
    (auto simp: only_lwip_def intro: exI [of _ "ec_lwip s"])

lemma lwip_only_bind:
  assumes "lwip_only s r" "\<And>s1. r = Some s1 \<Longrightarrow> pcb_lists (ec_lwip s1) \<Longrightarrow> lwip_only s1 (f s1)"
  shows "lwip_only s (r \<bind> f)"
proof -
  from assms(1) obtain s1 cs where r: "r = Some s1" "only_lwip s cs s1" "pcb_lists (ec_lwip s1)"
    "\<forall>c \<in> set cs. pcb_call c"
    unfolding lwip_only_def by blast
  from assms(2) [OF r(1,3)] obtain s2 ds where f: "f s1 = Some s2" "only_lwip s1 ds s2"
    "pcb_lists (ec_lwip s2)"
    "\<forall>c \<in> set ds. pcb_call c"
    unfolding lwip_only_def by blast
  show ?thesis unfolding lwip_only_def
    using r f only_lwip_trans [OF r(2) f(2)] by (intro exI [of _ s2] exI [of _ "cs @ ds"]) auto
qed

lemma lwip_only_do:
  assumes "lists_stay E" "pcb_lists (ec_lwip s)"
    and "pcb_call c"
  shows "lwip_only s (Some (ec_do E c s))"
  unfolding lwip_only_def
  using assms by (intro exI [of _ "ec_do E c s"] exI [of _ "[c]"])
    (auto simp: only_lwip_def ec_do_def lists_stay_def)

section \<open>Old control blocks\<close>

lemma fin_count_returns: "path tp_next h p as NULL \<Longrightarrow> \<exists>n. fin_count_loop h p k = Some n"
proof (induction as arbitrary: p k)
  case Nil
  then show ?case by (simp add: fin_count_loop.simps)
next
  case (Cons a as)
  then show ?case by (subst fin_count_loop.simps) (auto dest: deref_nonnull)
qed

lemma oldest_returns: "path tp_next h p as NULL \<Longrightarrow> \<exists>i. oldest_pcb_loop P t h p k j = Some i"
proof (induction as arbitrary: p k j)
  case Nil
  then show ?case by (simp add: oldest_pcb_loop.simps)
next
  case (Cons a as)
  then show ?case by (subst oldest_pcb_loop.simps) (auto dest: deref_nonnull)
qed

lemma oldest_pcb_returns:
  assumes "pcb_lists (ec_lwip s)" "pcbs \<in> {lw_active (ec_lwip s), lw_tw (ec_lwip s)}"
  shows "\<exists>i. oldest_pcb P pcbs s = Some i"
  using assms oldest_returns unfolding pcb_lists_def oldest_pcb_def by blast

lemma kill_one:
  assumes E: "lists_stay E" and s: "pcb_lists (ec_lwip s)"
  shows "lwip_only s (Some (if b then ec_do E (Tcp_abort i) s else s))"
    and "lwip_only s (Some (if b then remove_pcb E i s else s))"
proof -
  show "lwip_only s (Some (if b then ec_do E (Tcp_abort i) s else s))"
    using lwip_only_do [OF E s] lwip_only_refl [OF s] by auto
  have "lwip_only s (Some (ec_do E (Tcp_pcb_remove i) s) \<bind> (\<lambda>s1. Some (ec_do E (Memp_free i) s1)))"
    by (intro lwip_only_bind lwip_only_do E s pcb_calls)
  then show "lwip_only s (Some (if b then remove_pcb E i s else s))"
    using lwip_only_refl [OF s] by (simp add: remove_pcb_def)
qed

lemma kill_oldest_ok:
  assumes E: "lists_stay E" and s: "pcb_lists (ec_lwip s)"
  shows "lwip_only s (espconn_kill_oldest E s)"
proof -
  obtain i where i: "oldest_pcb (\<lambda>b. True) (lw_tw (ec_lwip s)) s = Some i"
    using oldest_pcb_returns [OF s] by blast
  define s1 where "s1 = (if i \<noteq> NULL then ec_do E (Tcp_abort i) s else s)"
  have 1: "lwip_only s (Some s1)" unfolding s1_def by (rule kill_one [OF E s])
  then have p1: "pcb_lists (ec_lwip s1)" by (auto simp: lwip_only_def)
  obtain j where j: "oldest_pcb (\<lambda>b. tp_state b = FIN_WAIT_1 \<or> tp_state b = FIN_WAIT_2)
      (lw_active (ec_lwip s1)) s1 = Some j" using oldest_pcb_returns [OF p1] by blast
  define s2 where "s2 = (if j \<noteq> NULL then remove_pcb E j s1 else s1)"
  have 2: "lwip_only s1 (Some s2)" unfolding s2_def by (rule kill_one [OF E p1])
  then have p2: "pcb_lists (ec_lwip s2)" by (auto simp: lwip_only_def)
  obtain k where k: "oldest_pcb (\<lambda>b. tp_state b = LAST_ACK) (lw_active (ec_lwip s2)) s2 = Some k"
    using oldest_pcb_returns [OF p2] by blast
  have 3: "lwip_only s2 (Some (if k \<noteq> NULL then remove_pcb E k s2 else s2))" by (rule kill_one [OF E p2])
  have "lwip_only s (Some s1 \<bind> (\<lambda>s1. Some s2 \<bind>
      (\<lambda>s2. Some (if k \<noteq> NULL then remove_pcb E k s2 else s2))))"
    by (intro lwip_only_bind 1) (use 2 3 in \<open>auto simp: lwip_only_bind\<close>)
  then show ?thesis
    using i j k by (simp add: espconn_kill_oldest_def s1_def s2_def Let_def cong del: bind_weak_cong if_weak_cong)
qed

lemma kill_oldest_pcb_ok:
  assumes E: "lists_stay E" and s: "pcb_lists (ec_lwip s)"
  shows "lwip_only s (espconn_kill_oldest_pcb E s)"
proof -
  obtain n where n: "fin_count_loop (lw_tcp (ec_lwip s)) (lw_active (ec_lwip s)) 0 = Some n"
    using s fin_count_returns unfolding pcb_lists_def by blast
  have "lwip_only s1 (fin_count_loop (lw_tcp (ec_lwip s1)) (lw_tw (ec_lwip s1)) 0 \<bind>
      (\<lambda>n2. if n2 = MEMP_NUM_TCP_PCB then espconn_kill_oldest E s1 else Some s1))"
    if p: "pcb_lists (ec_lwip s1)" for s1
  proof -
    obtain n2 where "fin_count_loop (lw_tcp (ec_lwip s1)) (lw_tw (ec_lwip s1)) 0 = Some n2"
      using p fin_count_returns unfolding pcb_lists_def by blast
    with kill_oldest_ok [OF E p] lwip_only_refl [OF p] show ?thesis by simp
  qed
  moreover have "lwip_only s (if n = MEMP_NUM_TCP_PCB then espconn_kill_oldest E s else Some s)"
    using kill_oldest_ok [OF E s] lwip_only_refl [OF s] by simp
  ultimately show ?thesis
    using n lwip_only_bind by (simp add: espconn_kill_oldest_pcb_def cong del: bind_weak_cong if_weak_cong)
qed

lemma find_current_pcb_returns:
  assumes "pcb_lists (ec_lwip s)" "ec_msgs s arg = Some m" "arg \<noteq> NULL"
  shows "\<exists>p. espconn_find_current_pcb arg s = Some p"
proof -
  from assms(1) obtain as ws where p: "path tp_next (lw_tcp (ec_lwip s)) (lw_active (ec_lwip s)) as NULL"
    "path tp_next (lw_tcp (ec_lwip s)) (lw_tw (ec_lwip s)) ws NULL" by (auto simp: pcb_lists_def)
  show ?thesis
    using assms(2,3) find_node_path [OF p(1)] find_node_path [OF p(2)]
    by (simp add: espconn_find_current_pcb_def deref_def Let_def cong del: bind_weak_cong if_weak_cong)
qed

section \<open>Freeing what belongs to a connection\<close>

definition without :: "(ptr \<rightharpoonup> 'a) \<Rightarrow> ptr list \<Rightarrow> (ptr \<rightharpoonup> 'a)" where
  "without h bs = (\<lambda>a. if a \<in> set bs then None else h a)"

lemma without_simps [simp]:
  "without h [] = h" "without h [a] = h(a := None)" "without (h(a := None)) bs = without h (a # bs)"
  "a \<in> set bs \<Longrightarrow> without h bs a = None" "a \<notin> set bs \<Longrightarrow> without h bs a = h a"
  by (auto simp: without_def)

lemma dom_without: "dom (without h bs) = dom h - set bs"
  by (auto simp: without_def split: if_splits)

definition no_bufs :: "espconn_msg \<Rightarrow> espconn_msg" where
  "no_bufs m = m\<lparr>ms_pcommon := (ms_pcommon m)\<lparr>cp_pbuf := NULL\<rparr>\<rparr>"

lemma no_bufs_sel [simp]:
  "ms_pnext (no_bufs m) = ms_pnext m" "ms_pespconn (no_bufs m) = ms_pespconn m"
  "ms_espconn_mode (no_bufs m) = ms_espconn_mode m"
  "espconn_manual_recv_disabled (no_bufs m) = espconn_manual_recv_disabled m"
  "cp_packet_info (ms_pcommon (no_bufs m)) = cp_packet_info (ms_pcommon m)"
  by (simp_all add: no_bufs_def espconn_manual_recv_disabled_def has_opt_def)

lemma free_bufs_ok:
  assumes "ec_msgs s msg = Some m" "msg \<noteq> NULL"
    and "path eb_pnext (ec_bufs s) (cp_pbuf (ms_pcommon m)) bs NULL"
  shows "free_bufs_loop msg (cp_pbuf (ms_pcommon m)) s = Some (s\<lparr>
    ec_msgs := (ec_msgs s)(msg \<mapsto> no_bufs m), ec_bufs := without (ec_bufs s) bs\<rparr>)"
  using assms
proof (induction bs arbitrary: s m)
  case Nil
  then have "no_bufs m = m" by (cases m; cases "ms_pcommon m") (simp add: no_bufs_def)
  with Nil show ?case by (simp add: free_bufs_loop.simps fun_upd_idem)
next
  case (Cons a bs)
  define m1 where "m1 = m\<lparr>ms_pcommon := (ms_pcommon m)\<lparr>cp_pbuf := eb_pnext (the (ec_bufs s a))\<rparr>\<rparr>"
  define s1 where "s1 = s\<lparr>ec_msgs := (ec_msgs s)(msg \<mapsto> m1), ec_bufs := (ec_bufs s)(a := None)\<rparr>"
  from Cons.prems(3) obtain b where b: "ec_bufs s a = Some b" "a \<noteq> NULL" "cp_pbuf (ms_pcommon m) = a"
      "path eb_pnext (ec_bufs s) (eb_pnext b) bs NULL" by (auto dest: deref_SomeD)
  have a: "a \<notin> set bs" using path_distinct [OF Cons.prems(3)] by simp
  have "free_bufs_loop msg a s = free_bufs_loop msg (eb_pnext b) s1"
    using b Cons.prems(1,2)
    by (subst free_bufs_loop.simps) (simp add: deref_def pbuf_delete_def espconn_pbuf_delete_def
        list_delete_def upd_common_def upd_msg_def os_free_def s1_def m1_def)
  moreover have "free_bufs_loop msg (cp_pbuf (ms_pcommon m1)) s1 = Some (s1\<lparr>
      ec_msgs := (ec_msgs s1)(msg \<mapsto> no_bufs m1), ec_bufs := without (ec_bufs s1) bs\<rparr>)"
  proof (rule Cons.IH)
    have "path eb_pnext ((ec_bufs s)(a := None)) (eb_pnext b) bs NULL" using b(4) a by simp
    then show "path eb_pnext (ec_bufs s1) (cp_pbuf (ms_pcommon m1)) bs NULL"
      using b(1) by (simp add: s1_def m1_def)
  qed (use Cons.prems(2) in \<open>simp_all add: s1_def\<close>)
  moreover have "no_bufs m1 = no_bufs m" by (simp add: m1_def no_bufs_def)
  moreover have "cp_pbuf (ms_pcommon m1) = eb_pnext b" using b(1) by (simp add: m1_def)
  ultimately show ?case using b(3) by (simp add: s1_def) (simp add: fun_upd_def)
qed

lemma finish_bufs_ok:
  assumes "ec_msgs s msg = Some m" "msg \<noteq> NULL" "i < length (pktinfo s)"
    and "path eb_pnext (ec_bufs s) (cp_pbuf (ms_pcommon m)) bs NULL"
  shows "finish_bufs i msg s = Some (s\<lparr>
    ec_msgs := (ec_msgs s)(msg \<mapsto> no_bufs m), ec_bufs := without (ec_bufs s) bs,
    pktinfo := (pktinfo s)[i := cp_packet_info (ms_pcommon m)]\<rparr>)"
  using assms free_bufs_ok [OF assms(1,2,4)]
  by (simp add: finish_bufs_def deref_def arr_write_def upd_conv_take_nth_drop)

text \<open>Taking the message off the list of active connections.\<close>

lemma active_delete_ok:
  assumes "path ms_pnext (ec_msgs s) (plink_active s) as NULL" "arg \<in> set as" "ec_msgs s arg = Some m"
  shows "\<exists>h p. active_delete arg s = Some (s\<lparr>ec_msgs := h, plink_active := p\<rparr>)
    \<and> h arg = Some m \<and> erase set_msg_next h = erase set_msg_next (ec_msgs s)
    \<and> path ms_pnext h p (remove1 arg as) NULL \<and> (\<forall>b. b \<notin> set as \<longrightarrow> h b = ec_msgs s b)"
proof -
  have "\<exists>q. m = set_msg_next q m" for m :: espconn_msg by (rule exI [of _ "ms_pnext m"]) simp
  from msgs.delete_ok [OF assms(1,2), of "\<lambda>d. d", OF this] assms(3)
  obtain h p d where "list_delete ms_pnext set_msg_next (\<lambda>d. d) (ec_msgs s) (plink_active s) arg = Some (h, p)"
    "path ms_pnext h p (remove1 arg as) NULL" "erase set_msg_next h = erase set_msg_next (ec_msgs s)"
    "deref (ec_msgs s) arg = Some d" "h arg = Some d" "\<forall>b. b \<notin> set as \<longrightarrow> h b = ec_msgs s b" by blast
  with assms(3) show ?thesis
    by (intro exI [of _ h] exI [of _ p]) (auto simp: active_delete_def espconn_list_delete_def dest: deref_SomeD)
qed

definition on_list :: "ptr \<Rightarrow> espconn_msg \<Rightarrow> ptr list \<Rightarrow> ptr list" where
  "on_list arg m as = (if espconn_manual_recv_disabled m then as else remove1 arg as)"

lemma erase_free: "erase f (h(a := None)) = (erase f h)(a := None)"
  by (auto simp: erase_def)

definition freed_own :: "bool \<Rightarrow> ptr \<Rightarrow> ptr list" where
  "freed_own server p = (if server then [p] else [])"

lemma freed_set: "set (freed_own b p) = (if b then {p} else {})"
  by (simp add: freed_own_def)

lemma memp_free_ok:
  assumes m: "ec_msgs s arg = Some m" "arg \<noteq> NULL"
    and p: "path ms_pnext (ec_msgs s) (plink_active s) (on_list arg m as) NULL" "arg \<in> set as" "distinct as"
    and own: "ms_espconn_mode m = ESPCONN_TCPSERVER_MODE \<Longrightarrow>
       ms_pespconn m \<noteq> NULL \<and> espconns s (ms_pespconn m) = Some e \<and> es_proto e \<noteq> NULL
       \<and> esp_tcps s (es_proto e) \<noteq> None"
  defines "server \<equiv> ms_espconn_mode m = ESPCONN_TCPSERVER_MODE"
  shows "\<exists>h q. espconn_tcp_memp_free arg s = Some (s\<lparr>plink_active := q,
      esp_tcps := without (esp_tcps s) (freed_own server (es_proto e)),
      espconns := without (espconns s) (freed_own server (ms_pespconn m)), ec_msgs := h\<rparr>)
    \<and> path ms_pnext h q (remove1 arg as) NULL
    \<and> erase set_msg_next h = (erase set_msg_next (ec_msgs s))(arg := None)
    \<and> (\<forall>b. b \<notin> set as \<longrightarrow> h b = ec_msgs s b)"
proof -
  obtain h q where d: "(if espconn_manual_recv_disabled m then active_delete arg s else Some s)
      = Some (s\<lparr>ec_msgs := h, plink_active := q\<rparr>)" "h arg = Some m"
    "erase set_msg_next h = erase set_msg_next (ec_msgs s)" "path ms_pnext h q (remove1 arg as) NULL"
    "\<forall>b. b \<notin> set as \<longrightarrow> h b = ec_msgs s b"
  proof (cases "espconn_manual_recv_disabled m")
    case True
    with p have "path ms_pnext (ec_msgs s) (plink_active s) as NULL" by (simp add: on_list_def)
    from active_delete_ok [OF this p(2) m(1)] True that show ?thesis by auto
  next
    case False
    with p m that [of "plink_active s" "ec_msgs s"] show ?thesis by (simp add: on_list_def)
  qed
  have "espconn_tcp_memp_free arg s = Some (s\<lparr>plink_active := q,
      esp_tcps := without (esp_tcps s) (freed_own server (es_proto e)),
      espconns := without (espconns s) (freed_own server (ms_pespconn m)), ec_msgs := h(arg := None)\<rparr>)"
  proof (cases server)
    case True
    with own d(1,2) m show ?thesis
      by (simp add: espconn_tcp_memp_free_def deref_def server_def freed_own_def os_free_def upd_msg_def
          cong del: bind_weak_cong if_weak_cong)
  next
    case False
    with d(1,2) m show ?thesis
      by (simp add: espconn_tcp_memp_free_def deref_def server_def freed_own_def os_free_def upd_msg_def
          cong del: bind_weak_cong if_weak_cong)
  qed
  moreover have "path ms_pnext (h(arg := None)) q (remove1 arg as) NULL"
    using d(4) p(3) by simp
  moreover have "erase set_msg_next (h(arg := None)) = (erase set_msg_next (ec_msgs s))(arg := None)"
    by (simp add: erase_free d(3))
  moreover have "\<forall>b. b \<notin> set as \<longrightarrow> (h(arg := None)) b = ec_msgs s b" using d(5) p(2) by auto
  ultimately show ?thesis by blast
qed

section \<open>The end of a connection\<close>

text \<open>
  A TCP connection: its message, its descriptor with the TCP part, and the descriptor \<open>pesp\<close>
  that the application knows: its own for a client, the listening one for a connection that
  a server accepted, whose own descriptor belongs to espconn.
\<close>

definition is_server :: "espconn_msg \<Rightarrow> bool" where
  "is_server m \<longleftrightarrow> ms_espconn_mode m = ESPCONN_TCPSERVER_MODE"

definition tcp_conn :: "ptr \<Rightarrow> espconn_msg \<Rightarrow> espconn \<Rightarrow> esp_tcp \<Rightarrow> ptr \<Rightarrow> ec \<Rightarrow> bool" where
  "tcp_conn arg m e t pesp s \<longleftrightarrow> arg \<noteq> NULL \<and> ec_msgs s arg = Some m
     \<and> ms_pespconn m \<noteq> NULL \<and> espconns s (ms_pespconn m) = Some e \<and> es_type e = ESPCONN_TCP
     \<and> es_proto e \<noteq> NULL \<and> esp_tcps s (es_proto e) = Some t
     \<and> (if ms_preverse m = NULL then pesp = ms_pespconn m \<and> \<not> is_server m
        else pesp = ms_preverse m \<and> is_server m \<and> pesp \<noteq> ms_pespconn m
          \<and> (\<exists>ed td. espconns s pesp = Some ed \<and> es_proto ed \<noteq> NULL \<and> es_proto ed \<noteq> es_proto e
               \<and> esp_tcps s (es_proto ed) = Some td))"

text \<open>Of the descriptors only the type of the server's may be written.\<close>

definition kept_descs :: "ptr \<Rightarrow> (ptr \<rightharpoonup> espconn) \<Rightarrow> (ptr \<rightharpoonup> espconn) \<Rightarrow> bool" where
  "kept_descs p h h' \<longleftrightarrow> (\<forall>d e e'. h d = Some e \<longrightarrow> h' d = Some e' \<longrightarrow> es_proto e' = es_proto e
     \<and> (es_type e' = es_type e \<or> d = p \<and> es_type e' = ESPCONN_TCP))"

lemma kept_descs_refl [simp]: "kept_descs p h h"
  by (simp add: kept_descs_def)

lemma kept_descs_without: "kept_descs p h h' \<Longrightarrow> kept_descs p h (without h' xs)"
  by (auto simp: kept_descs_def without_def split: if_splits)

definition ended ::
  "ptr \<Rightarrow> ptr list \<Rightarrow> ptr list \<Rightarrow> espconn_msg \<Rightarrow> espconn \<Rightarrow> ptr \<Rightarrow> ec \<Rightarrow> ec \<Rightarrow> bool" where
  "ended arg as bs m e pesp s s' \<longleftrightarrow>
     path ms_pnext (ec_msgs s') (plink_active s') (remove1 arg as) NULL
     \<and> erase set_msg_next (ec_msgs s') = (erase set_msg_next (ec_msgs s))(arg := None)
     \<and> ec_bufs s' = without (ec_bufs s) bs
     \<and> dom (espconns s') = dom (espconns s) - set (freed_own (is_server m) (ms_pespconn m))
     \<and> dom (esp_tcps s') = dom (esp_tcps s) - set (freed_own (is_server m) (es_proto e))
     \<and> (\<forall>b. b \<notin> set as \<longrightarrow> ec_msgs s' b = ec_msgs s b) \<and> pserver_list s' = pserver_list s
     \<and> esp_udps s' = esp_udps s \<and> premot s' = premot s \<and> kept_descs pesp (espconns s) (espconns s')
     \<and> pcb_lists (ec_lwip s')"

lemma copy_partial_ok:
  assumes "espconns s d = Some ed" "es_proto ed \<noteq> NULL" "esp_tcps s (es_proto ed) = Some td"
    and "espconns s p = Some ep" "es_proto ep \<noteq> NULL" "esp_tcps s (es_proto ep) = Some t"
    and "es_type ep = ESPCONN_TCP" "d \<noteq> NULL" "p \<noteq> NULL" "d \<noteq> p"
  shows "\<exists>ed' td'. espconn_copy_partial d p s
      = Some (s\<lparr>esp_tcps := (esp_tcps s)(es_proto ed \<mapsto> td'), espconns := (espconns s)(d \<mapsto> ed')\<rparr>)
    \<and> es_proto ed' = es_proto ed \<and> et_disconnect_callback td' = et_disconnect_callback t
    \<and> et_reconnect_callback td' = et_reconnect_callback t \<and> es_type ed' = ESPCONN_TCP"
proof -
  define td' where "td' = td\<lparr>et_remote_port := et_remote_port t, et_local_port := et_local_port t,
    et_remote_ip := et_remote_ip t, et_local_ip := et_local_ip t,
    et_connect_callback := et_connect_callback t, et_reconnect_callback := et_reconnect_callback t,
    et_disconnect_callback := et_disconnect_callback t\<rparr>"
  define ed' where "ed' = ed\<lparr>es_type := ESPCONN_TCP, es_state := es_state ep,
    es_recv_callback := es_recv_callback ep, es_sent_callback := es_sent_callback ep,
    es_link_cnt := es_link_cnt ep, es_reverse := es_reverse ep\<rparr>"
  have "espconn_copy_partial d p s
      = Some (s\<lparr>esp_tcps := (esp_tcps s)(es_proto ed \<mapsto> td'), espconns := (espconns s)(d \<mapsto> ed')\<rparr>)"
    using assms
    by (simp add: espconn_copy_partial_def deref_def upd_espconn_def upd_tcp_def td'_def ed'_def
        cong del: bind_weak_cong if_weak_cong)
  then show ?thesis by (intro exI [of _ ed'] exI [of _ td']) (simp add: td'_def ed'_def)
qed

text \<open>
  The descriptor that the application is told about: the own one, or the server's, which
  gets a copy of the connection's settings.
\<close>

definition told :: "ptr \<Rightarrow> esp_tcp \<Rightarrow> ptr \<Rightarrow> ec \<Rightarrow> ec \<Rightarrow> bool" where
  "told arg t pesp s s' \<longleftrightarrow>
     (\<exists>ep tp. espconns s' pesp = Some ep \<and> es_proto ep \<noteq> NULL \<and> esp_tcps s' (es_proto ep) = Some tp
        \<and> et_disconnect_callback tp = et_disconnect_callback t
        \<and> et_reconnect_callback tp = et_reconnect_callback t)
     \<and> ec_msgs s' = ec_msgs s \<and> ec_bufs s' = ec_bufs s \<and> plink_active s' = plink_active s
     \<and> pktinfo s' = pktinfo s \<and> ec_lwip s' = ec_lwip s \<and> ec_calls s' = ec_calls s
     \<and> dom (espconns s') = dom (espconns s) \<and> dom (esp_tcps s') = dom (esp_tcps s)
     \<and> pserver_list s' = pserver_list s \<and> esp_udps s' = esp_udps s \<and> premot s' = premot s
     \<and> kept_descs pesp (espconns s) (espconns s')"

lemma told_copy:
  assumes C: "tcp_conn arg m e t pesp s" and p: "ms_preverse m \<noteq> NULL"
  shows "\<exists>s'. espconn_copy_partial (ms_preverse m) (ms_pespconn m) s = Some s' \<and> told arg t pesp s s'
    \<and> espconns s' (ms_pespconn m) = Some e \<and> esp_tcps s' (es_proto e) = Some t"
proof -
  from C p obtain ed td where d: "espconns s pesp = Some ed" "es_proto ed \<noteq> NULL"
      "es_proto ed \<noteq> es_proto e" "esp_tcps s (es_proto ed) = Some td" "pesp = ms_preverse m"
      "pesp \<noteq> ms_pespconn m" by (auto simp: tcp_conn_def)
  from C have o: "espconns s (ms_pespconn m) = Some e" "es_proto e \<noteq> NULL" "es_type e = ESPCONN_TCP"
      "esp_tcps s (es_proto e) = Some t" "ms_pespconn m \<noteq> NULL" by (auto simp: tcp_conn_def)
  obtain ed' td' where c: "espconn_copy_partial pesp (ms_pespconn m) s
      = Some (s\<lparr>esp_tcps := (esp_tcps s)(es_proto ed \<mapsto> td'), espconns := (espconns s)(pesp \<mapsto> ed')\<rparr>)"
    "es_proto ed' = es_proto ed" "et_disconnect_callback td' = et_disconnect_callback t"
    "et_reconnect_callback td' = et_reconnect_callback t" "es_type ed' = ESPCONN_TCP"
    using copy_partial_ok [OF d(1,2,4) o(1,2,4,3)] d(5,6) p o(5) by blast
  have "told arg t pesp s (s\<lparr>esp_tcps := (esp_tcps s)(es_proto ed \<mapsto> td'), espconns := (espconns s)(pesp \<mapsto> ed')\<rparr>)"
    unfolding told_def using c d by (auto simp: insert_absorb domI kept_descs_def)
  with c d o show ?thesis by auto
qed

lemma told_own:
  assumes "tcp_conn arg m e t pesp s" "ms_preverse m = NULL"
  shows "told arg t pesp s s"
  using assms by (cases s) (auto simp: told_def tcp_conn_def)

lemma ended_ok:
  assumes C: "tcp_conn arg m e t pesp s" and b: "path eb_pnext (ec_bufs s) (cp_pbuf (ms_pcommon m)) bs NULL"
    and p: "path ms_pnext (ec_msgs s) (plink_active s) (on_list arg m as) NULL" "arg \<in> set as" "distinct as"
    and s3: "ec_msgs s3 = (ec_msgs s)(arg \<mapsto> no_bufs m)" "plink_active s3 = plink_active s"
      "ec_bufs s3 = without (ec_bufs s) bs" "dom (espconns s3) = dom (espconns s)"
      "dom (esp_tcps s3) = dom (esp_tcps s)" "espconns s3 (ms_pespconn m) = Some e"
      "pserver_list s3 = pserver_list s" "esp_udps s3 = esp_udps s" "premot s3 = premot s"
      "kept_descs pesp (espconns s) (espconns s3)" "pcb_lists (ec_lwip s3)"
  shows "\<exists>s'. espconn_tcp_memp_free arg s3 = Some s' \<and> ended arg as bs m e pesp s s' \<and> ec_calls s' = ec_calls s3
    \<and> pktinfo s' = pktinfo s3"
proof -
  from C have c: "arg \<noteq> NULL" "ec_msgs s arg = Some m" "ms_pespconn m \<noteq> NULL" "es_proto e \<noteq> NULL"
    "esp_tcps s (es_proto e) = Some t" by (auto simp: tcp_conn_def)
  have n: "ec_msgs s3 arg = Some (no_bufs m)" by (simp add: s3)
  have "path ms_pnext (ec_msgs s3) (plink_active s3) (on_list arg (no_bufs m) as) NULL"
    unfolding s3(2) by (rule path_same_next [where h = "ec_msgs s"])
      (use p(1) c(2) in \<open>simp_all add: on_list_def s3(1)\<close>)
  moreover have "esp_tcps s3 (es_proto e) \<noteq> None" using c(5) s3(5) by blast
  ultimately obtain h q where r: "espconn_tcp_memp_free arg s3 = Some (s3\<lparr>plink_active := q,
      esp_tcps := without (esp_tcps s3) (freed_own (is_server m) (es_proto e)),
      espconns := without (espconns s3) (freed_own (is_server m) (ms_pespconn m)), ec_msgs := h\<rparr>)"
    "path ms_pnext h q (remove1 arg as) NULL"
    "erase set_msg_next h = (erase set_msg_next (ec_msgs s3))(arg := None)"
    "\<forall>b. b \<notin> set as \<longrightarrow> h b = ec_msgs s3 b"
    using memp_free_ok [OF n c(1) _ p(2,3), of e] c(3,4) s3(6) by (auto simp: is_server_def)
  have "erase set_msg_next h = (erase set_msg_next (ec_msgs s))(arg := None)"
    unfolding r(3) s3(1) by (auto simp: erase_def)
  moreover have "\<forall>b. b \<notin> set as \<longrightarrow> h b = ec_msgs s b" using r(4) s3(1) p(2) by auto
  ultimately show ?thesis using r(1,2) s3(2-) kept_descs_without [OF s3(10)]
    unfolding ended_def by (simp add: dom_without)
qed

text \<open>The calls of the application's functions.\<close>

fun app_call :: "ec_call \<Rightarrow> bool" where
  "app_call (Connect_callback f p) = True"
| "app_call (Reconnect_callback f p err) = True"
| "app_call (Disconnect_callback f p) = True"
| "app_call (Write_finish_fn f p) = True"
| "app_call (Recv_callback f p bs n) = True"
| "app_call (Sent_callback f p) = True"
| "app_call _ = False"

lemma pcb_not_app: "pcb_call c \<Longrightarrow> \<not> app_call c"
  by (auto simp: pcb_call_def)

lemma lwip_onlyD:
  assumes "lwip_only s r"
  obtains s' cs where "r = Some s'" "only_lwip s cs s'" "pcb_lists (ec_lwip s')"
    "filter app_call cs = []"
  using assms pcb_not_app unfolding lwip_only_def by (auto simp: filter_empty_conv)

lemma only_lwip_sel:
  assumes "only_lwip s cs s'"
  shows "ec_msgs s' = ec_msgs s" "ec_bufs s' = ec_bufs s" "ec_calls s' = ec_calls s @ cs"
    "espconns s' = espconns s" "esp_tcps s' = esp_tcps s" "plink_active s' = plink_active s"
    "pktinfo s' = pktinfo s" "pserver_list s' = pserver_list s" "esp_udps s' = esp_udps s" "premot s' = premot s"
  using assms by (auto simp: only_lwip_def)

text \<open>What a connection at its end needs: no \<open>ESPCONN_REUSEADDR\<close>, its buffers and its place.\<close>

definition ending :: "ec_env \<Rightarrow> ptr \<Rightarrow> ptr list \<Rightarrow> ptr list \<Rightarrow> espconn_msg \<Rightarrow> espconn \<Rightarrow> esp_tcp \<Rightarrow> ptr \<Rightarrow> ec \<Rightarrow> bool" where
  "ending E arg as bs m e t pesp s \<longleftrightarrow>
     lists_stay E \<and> quiet E \<and> pcb_lists (ec_lwip s) \<and> tcp_conn arg m e t pesp s
     \<and> \<not> espconn_reuse_disabled m \<and> length (pktinfo s) = 2
     \<and> path eb_pnext (ec_bufs s) (cp_pbuf (ms_pcommon m)) bs NULL
     \<and> arg \<in> set as \<and> distinct as"

lemma tcp_conn_cong:
  assumes "ec_msgs s' arg = ec_msgs s arg" "espconns s' = espconns s" "esp_tcps s' = esp_tcps s"
  shows "tcp_conn arg m e t pesp s' = tcp_conn arg m e t pesp s"
  by (simp only: tcp_conn_def assms)

lemma ending_lwip:
  assumes "ending E arg as bs m e t pesp s" "only_lwip s cs s'" "pcb_lists (ec_lwip s')"
  shows "ending E arg as bs m e t pesp s'"
  using assms only_lwip_sel [OF assms(2)] tcp_conn_cong [of s' arg s] by (simp add: ending_def)

text \<open>
  The common start: old control blocks are given up, and the server's descriptor gets the
  settings of an accepted connection.
\<close>

definition copy_to_server :: "espconn_msg \<Rightarrow> ec \<Rightarrow> ec option" where
  "copy_to_server m s =
     (if ms_preverse m \<noteq> NULL then espconn_copy_partial (ms_preverse m) (ms_pespconn m) s else Some s)"

lemma ending_start:
  assumes A: "ending E arg as bs m e t pesp s"
  obtains s1 cs1 s2 where "espconn_kill_oldest_pcb E s = Some s1" "only_lwip s cs1 s1"
    "pcb_lists (ec_lwip s1)" "filter app_call cs1 = []" "ending E arg as bs m e t pesp s1"
    "copy_to_server m s1 = Some s2" "told arg t pesp s1 s2" "espconns s2 (ms_pespconn m) = Some e"
proof -
  from A have E: "lists_stay E" and l: "pcb_lists (ec_lwip s)" by (auto simp: ending_def)
  obtain s1 cs1 where k: "espconn_kill_oldest_pcb E s = Some s1" "only_lwip s cs1 s1"
    "pcb_lists (ec_lwip s1)" "filter app_call cs1 = []"
    using kill_oldest_pcb_ok [OF E l] by (rule lwip_onlyD)
  have A1: "ending E arg as bs m e t pesp s1" using ending_lwip [OF A k(2,3)] .
  then have C: "tcp_conn arg m e t pesp s1" by (simp add: ending_def)
  have "\<exists>s2. copy_to_server m s1 = Some s2 \<and> told arg t pesp s1 s2 \<and> espconns s2 (ms_pespconn m) = Some e"
  proof (cases "ms_preverse m = NULL")
    case True
    with told_own [OF C True] C show ?thesis by (simp add: copy_to_server_def tcp_conn_def)
  next
    case False
    with told_copy [OF C False] show ?thesis by (auto simp: copy_to_server_def)
  qed
  with k A1 that show thesis by blast
qed

text \<open>The buffers are freed, and the descriptor to be told is there.\<close>

lemma ending_bufs:
  assumes A: "ending E arg as bs m e t pesp s1" and T: "told arg t pesp s1 s2" and i: "i < 2"
    and s3: "ec_msgs s3 = ec_msgs s2" "ec_bufs s3 = ec_bufs s2" "espconns s3 = espconns s2"
      "esp_tcps s3 = esp_tcps s2" "pktinfo s3 = pktinfo s2"
  shows "\<exists>s4 ep tp. finish_bufs i arg s3 = Some s4
    \<and> s4 = s3\<lparr>ec_msgs := (ec_msgs s1)(arg \<mapsto> no_bufs m), ec_bufs := without (ec_bufs s1) bs,
          pktinfo := (pktinfo s1)[i := cp_packet_info (ms_pcommon m)]\<rparr>
    \<and> espconns s4 pesp = Some ep \<and> es_proto ep \<noteq> NULL \<and> esp_tcps s4 (es_proto ep) = Some tp
    \<and> et_disconnect_callback tp = et_disconnect_callback t
    \<and> et_reconnect_callback tp = et_reconnect_callback t"
proof -
  from T have t: "ec_msgs s2 = ec_msgs s1" "ec_bufs s2 = ec_bufs s1" "pktinfo s2 = pktinfo s1"
    by (simp_all add: told_def)
  have "finish_bufs i arg s3 = Some (s3\<lparr>ec_msgs := (ec_msgs s3)(arg \<mapsto> no_bufs m),
      ec_bufs := without (ec_bufs s3) bs, pktinfo := (pktinfo s3)[i := cp_packet_info (ms_pcommon m)]\<rparr>)"
    by (rule finish_bufs_ok) (use A i s3 t in \<open>simp_all add: ending_def tcp_conn_def\<close>)
  with T s3 t show ?thesis by (auto simp: told_def)
qed

text \<open>The common start as the two functions write it.\<close>

lemma descriptor_told:
  assumes C: "tcp_conn arg m e t pesp s" and c: "copy_to_server m s = Some s2"
  shows "(if ms_preverse m \<noteq> NULL
          then do {
            own \<leftarrow> deref (espconns s) (ms_pespconn m);
            srv \<leftarrow> deref (espconns s) (ms_preverse m);
            s2 \<leftarrow> (if es_proto own \<noteq> NULL \<and> es_proto srv \<noteq> NULL
                   then espconn_copy_partial (ms_preverse m) (ms_pespconn m) s else Some s);
            Some (ms_preverse m, s2) }
          else Some (ms_pespconn m, s)) = Some (pesp, s2)" (is ?disc)
    and "(if ms_preverse m \<noteq> NULL
          then do {
            own \<leftarrow> deref (espconns s) (ms_pespconn m);
            s2 \<leftarrow> (if es_proto own \<noteq> NULL
                   then espconn_copy_partial (ms_preverse m) (ms_pespconn m) s else Some s);
            Some (ms_preverse m, s2) }
          else Some (ms_pespconn m, s)) = Some (pesp, s2)" (is ?rec)
proof -
  from C have own: "deref (espconns s) (ms_pespconn m) = Some e" "es_proto e \<noteq> NULL"
    by (simp_all add: tcp_conn_def deref_def)
  have "?disc \<and> ?rec"
  proof (cases "ms_preverse m = NULL")
    case True
    with C c show ?thesis by (simp add: tcp_conn_def copy_to_server_def)
  next
    case False
    with C obtain ed where "deref (espconns s) (ms_preverse m) = Some ed" "es_proto ed \<noteq> NULL"
      "pesp = ms_preverse m" by (auto simp: tcp_conn_def deref_def)
    with own False c show ?thesis by (simp add: copy_to_server_def)
  qed
  then show ?disc ?rec by blast+
qed

lemma disconnect_ok:
  assumes A: "ending E arg as bs m e t pesp s"
    and p: "path ms_pnext (ec_msgs s) (plink_active s) (on_list arg m as) NULL"
  shows "\<exists>s' cs. espconn_tcp_disconnect_successful E arg s = Some s' \<and> ended arg as bs m e pesp s s'
    \<and> ec_calls s' = ec_calls s @ cs
    \<and> filter app_call cs = (if et_disconnect_callback t = NULL then []
                            else [Disconnect_callback (et_disconnect_callback t) pesp])
    \<and> pktinfo s' = (pktinfo s)[0 := cp_packet_info (ms_pcommon m)]"
proof -
  from A have E: "quiet E" by (simp add: ending_def)
  obtain s1 cs1 s2 where k: "espconn_kill_oldest_pcb E s = Some s1" "only_lwip s cs1 s1"
    "pcb_lists (ec_lwip s1)" "filter app_call cs1 = []" and A1: "ending E arg as bs m e t pesp s1"
    and s2: "copy_to_server m s1 = Some s2" "told arg t pesp s1 s2" "espconns s2 (ms_pespconn m) = Some e"
    using ending_start [OF A] .
  note k1 = only_lwip_sel [OF k(2)]
  have C: "tcp_conn arg m e t pesp s1" using A1 by (simp add: ending_def)
  have t2: "ec_msgs s2 = ec_msgs s1" "ec_lwip s2 = ec_lwip s1" using s2(2) by (simp_all add: told_def)
  obtain pcb where pcb: "espconn_find_current_pcb arg s2 = Some pcb"
    using find_current_pcb_returns [of s2 arg m] k(3) C t2 by (auto simp: tcp_conn_def)
  define s3 where "s3 = (if pcb \<noteq> NULL then ec_do E (Tcp_err pcb No_handler) (ec_do E (Tcp_arg pcb NULL) s2) else s2)"
  define cs3 where "cs3 = (if pcb \<noteq> NULL then [Tcp_arg pcb NULL, Tcp_err pcb No_handler] else [])"
  have s3: "ec_msgs s3 = ec_msgs s2" "ec_bufs s3 = ec_bufs s2" "espconns s3 = espconns s2" "esp_tcps s3 = esp_tcps s2"
    "pktinfo s3 = pktinfo s2" "plink_active s3 = plink_active s2" "ec_calls s3 = ec_calls s2 @ cs3"
    "pserver_list s3 = pserver_list s2" "esp_udps s3 = esp_udps s2" "premot s3 = premot s2"
    by (simp_all add: s3_def cs3_def)
  have l3: "pcb_lists (ec_lwip s3)"
    using k(3) t2 A1 by (simp add: s3_def ending_def lists_stay_def)
  obtain s4 ep tp where f: "finish_bufs 0 arg s3 = Some s4"
    "s4 = s3\<lparr>ec_msgs := (ec_msgs s1)(arg \<mapsto> no_bufs m), ec_bufs := without (ec_bufs s1) bs,
          pktinfo := (pktinfo s1)[0 := cp_packet_info (ms_pcommon m)]\<rparr>"
    and ep: "espconns s4 pesp = Some ep" "es_proto ep \<noteq> NULL" "esp_tcps s4 (es_proto ep) = Some tp"
      "et_disconnect_callback tp = et_disconnect_callback t"
    using ending_bufs [OF A1 s2(2) _ s3(1-5), of 0] by auto
  define s5 where "s5 = (if et_disconnect_callback t \<noteq> NULL
    then s4\<lparr>ec_calls := ec_calls s4 @ [Disconnect_callback (et_disconnect_callback t) pesp]\<rparr> else s4)"
  have pn: "pesp \<noteq> NULL" using C by (auto simp: tcp_conn_def split: if_splits)
  have c: "arg \<noteq> NULL" "deref (ec_msgs s1) arg = Some m" "deref (ec_msgs s2) arg = Some m" "ms_pespconn m \<noteq> NULL"
    "\<not> espconn_reuse_disabled m" using C A t2 by (simp_all add: tcp_conn_def ending_def deref_def)
  have ed: "deref (espconns s4) pesp = Some ep" "deref (esp_tcps s4) (es_proto ep) = Some tp"
    using ep pn by (simp_all add: deref_def)
  have "espconn_tcp_disconnect_successful E arg s = espconn_tcp_memp_free arg s5"
    using k(1) c pcb f(1) [unfolded s3_def] ep(2,4) ed pn descriptor_told(1) [OF C s2(1)]
    by (cases "pcb = NULL"; cases "et_disconnect_callback t = NULL")
      (simp_all add: espconn_tcp_disconnect_successful_def s5_def
        ec_user_quiet [OF E] cong del: bind_weak_cong if_weak_cong)
  moreover have "\<exists>s'. espconn_tcp_memp_free arg s5 = Some s' \<and> ended arg as bs m e pesp s1 s'
      \<and> ec_calls s' = ec_calls s5 \<and> pktinfo s' = pktinfo s5"
    by (rule ended_ok [OF C])
      (use A1 p k1 s2(2,3) s3 l3 f(2) in \<open>simp_all add: s5_def told_def ending_def\<close>)
  ultimately show ?thesis
    using k1 s2(2) s3 k(4) f(2) by (auto simp: ended_def s5_def told_def cs3_def)
qed

lemma reconnect_ok:
  assumes A: "ending E arg as bs m e t pesp s"
    and p: "path ms_pnext (ec_msgs s) (plink_active s) (on_list arg m as) NULL"
  shows "\<exists>s' cs. espconn_tcp_reconnect E arg s = Some s' \<and> ended arg as bs m e pesp s s'
    \<and> ec_calls s' = ec_calls s @ cs
    \<and> filter app_call cs = (if et_reconnect_callback t = NULL then []
         else [Reconnect_callback (et_reconnect_callback t) pesp (cp_err (ms_pcommon m))])
    \<and> pktinfo s' = (pktinfo s)[1 := cp_packet_info (ms_pcommon m)]"
proof -
  from A have E: "quiet E" by (simp add: ending_def)
  obtain s1 cs1 s2 where k: "espconn_kill_oldest_pcb E s = Some s1" "only_lwip s cs1 s1"
    "pcb_lists (ec_lwip s1)" "filter app_call cs1 = []" and A1: "ending E arg as bs m e t pesp s1"
    and s2: "copy_to_server m s1 = Some s2" "told arg t pesp s1 s2" "espconns s2 (ms_pespconn m) = Some e"
    using ending_start [OF A] .
  note k1 = only_lwip_sel [OF k(2)]
  have C: "tcp_conn arg m e t pesp s1" using A1 by (simp add: ending_def)
  obtain s4 ep tp where f: "finish_bufs 1 arg s2 = Some s4"
    "s4 = s2\<lparr>ec_msgs := (ec_msgs s1)(arg \<mapsto> no_bufs m), ec_bufs := without (ec_bufs s1) bs,
          pktinfo := (pktinfo s1)[1 := cp_packet_info (ms_pcommon m)]\<rparr>"
    and ep: "espconns s4 pesp = Some ep" "es_proto ep \<noteq> NULL" "esp_tcps s4 (es_proto ep) = Some tp"
      "et_reconnect_callback tp = et_reconnect_callback t"
    using ending_bufs [OF A1 s2(2), of 1 s2] by auto
  define s5 where "s5 = (if et_reconnect_callback t \<noteq> NULL
    then s4\<lparr>ec_calls := ec_calls s4
           @ [Reconnect_callback (et_reconnect_callback t) pesp (cp_err (ms_pcommon m))]\<rparr> else s4)"
  have pn: "pesp \<noteq> NULL" using C by (auto simp: tcp_conn_def split: if_splits)
  have c: "arg \<noteq> NULL" "deref (ec_msgs s1) arg = Some m" "ms_pespconn m \<noteq> NULL"
    using C by (simp_all add: tcp_conn_def deref_def)
  have ed: "deref (espconns s4) pesp = Some ep" "deref (esp_tcps s4) (es_proto ep) = Some tp"
    using ep pn by (simp_all add: deref_def)
  have "espconn_tcp_reconnect E arg s = espconn_tcp_memp_free arg s5"
    using k(1) c f(1) ep(2,4) ed pn descriptor_told(2) [OF C s2(1)]
    by (cases "et_reconnect_callback t = NULL")
      (simp_all add: espconn_tcp_reconnect_def s5_def
        ec_user_quiet [OF E] Let_def cong del: bind_weak_cong if_weak_cong)
  moreover have "\<exists>s'. espconn_tcp_memp_free arg s5 = Some s' \<and> ended arg as bs m e pesp s1 s'
      \<and> ec_calls s' = ec_calls s5 \<and> pktinfo s' = pktinfo s5"
    by (rule ended_ok [OF C])
      (use A1 p k1 s2(2,3) f(2) in \<open>simp_all add: s5_def told_def ending_def\<close>)
  ultimately show ?thesis
    using k1 s2(2) k(4) f(2) by (auto simp: ended_def s5_def told_def)
qed

text \<open>The task takes the message off the list first, unless it receives by hand.\<close>

lemma task_detaches:
  assumes A: "ending E arg as bs m e t pesp s"
    and p: "path ms_pnext (ec_msgs s) (plink_active s) as NULL"
  shows "\<exists>s1. (if \<not> espconn_manual_recv_disabled m then active_delete arg s else Some s) = Some s1
    \<and> ending E arg as bs m e t pesp s1 \<and> path ms_pnext (ec_msgs s1) (plink_active s1) (on_list arg m as) NULL
    \<and> ec_calls s1 = ec_calls s \<and> pktinfo s1 = pktinfo s
    \<and> (\<forall>s'. ended arg as bs m e pesp s1 s' \<longrightarrow> ended arg as bs m e pesp s s')"
proof (cases "espconn_manual_recv_disabled m")
  case True
  with A p show ?thesis by (auto simp: on_list_def)
next
  case False
  from A have m: "ec_msgs s arg = Some m" "arg \<in> set as" by (simp_all add: ending_def tcp_conn_def)
  from active_delete_ok [OF p m(2,1)] obtain h q where
    d: "active_delete arg s = Some (s\<lparr>ec_msgs := h, plink_active := q\<rparr>)" "h arg = Some m"
      "erase set_msg_next h = erase set_msg_next (ec_msgs s)" "path ms_pnext h q (remove1 arg as) NULL"
      "\<forall>b. b \<notin> set as \<longrightarrow> h b = ec_msgs s b" by blast
  have "ending E arg as bs m e t pesp (s\<lparr>ec_msgs := h, plink_active := q\<rparr>)"
    using A d(2) m(1) tcp_conn_cong [of "s\<lparr>ec_msgs := h, plink_active := q\<rparr>" arg s]
    by (simp add: ending_def)
  with d False show ?thesis by (simp add: on_list_def ended_def)
qed

text \<open>The task ends the connection of the message.\<close>

definition end_calls :: "espconn_sig \<Rightarrow> espconn_msg \<Rightarrow> esp_tcp \<Rightarrow> ptr \<Rightarrow> ec_call list" where
  "end_calls sig m t pesp =
     (if sig = SIG_ESPCONN_CLOSE
      then if et_disconnect_callback t = NULL then []
           else [Disconnect_callback (et_disconnect_callback t) pesp]
      else if et_reconnect_callback t = NULL then []
           else [Reconnect_callback (et_reconnect_callback t) pesp (cp_err (ms_pcommon m))])"

lemma task_ends:
  assumes A: "ending E arg as bs m e t pesp s"
    and p: "path ms_pnext (ec_msgs s) (plink_active s) as NULL"
    and sig: "sig \<in> {SIG_ESPCONN_CLOSE, SIG_ESPCONN_ERRER}"
  shows "\<exists>s' cs. espconn_Task E sig arg s = Some s' \<and> ended arg as bs m e pesp s s'
    \<and> ec_calls s' = ec_calls s @ cs \<and> filter app_call cs = end_calls sig m t pesp
    \<and> pktinfo s' = (pktinfo s)[if sig = SIG_ESPCONN_CLOSE then 0 else 1 := cp_packet_info (ms_pcommon m)]"
proof -
  from A have m: "ec_msgs s arg = Some m" "arg \<noteq> NULL" "arg \<in> set as" by (simp_all add: ending_def tcp_conn_def)
  have n: "find_node ms_pnext (ec_msgs s) (\<lambda>a _. arg = a) (plink_active s) = Some arg"
    using find_node_path [OF p, of "\<lambda>a _. arg = a"] m(3)
    by (auto split: list.split simp: filter_empty_conv dest!: arg_cong [where f = set])
  from task_detaches [OF A p] obtain s1 where s1:
    "(if \<not> espconn_manual_recv_disabled m then active_delete arg s else Some s) = Some s1"
    "ending E arg as bs m e t pesp s1" "path ms_pnext (ec_msgs s1) (plink_active s1) (on_list arg m as) NULL"
    "ec_calls s1 = ec_calls s" "pktinfo s1 = pktinfo s"
    "\<And>s'. ended arg as bs m e pesp s1 s' \<Longrightarrow> ended arg as bs m e pesp s s'" by blast
  show ?thesis
  proof (cases "sig = SIG_ESPCONN_CLOSE")
    case True
    have "espconn_Task E sig arg s = espconn_tcp_disconnect_successful E arg s1"
      using True n m s1(1) by (simp add: espconn_Task_def deref_def cong del: bind_weak_cong if_weak_cong)
    moreover obtain s' cs where "espconn_tcp_disconnect_successful E arg s1 = Some s'"
      "ended arg as bs m e pesp s1 s'" "ec_calls s' = ec_calls s1 @ cs"
      "filter app_call cs = (if et_disconnect_callback t = NULL then []
                            else [Disconnect_callback (et_disconnect_callback t) pesp])"
      "pktinfo s' = (pktinfo s1)[0 := cp_packet_info (ms_pcommon m)]"
      using disconnect_ok [OF s1(2,3)] by blast
    ultimately show ?thesis
      using True s1(4,5) s1(6) [of s'] by (intro exI [of _ s'] exI [of _ cs]) (simp add: end_calls_def)
  next
    case False
    with sig have f: "sig = SIG_ESPCONN_ERRER" by simp
    have "espconn_Task E sig arg s = espconn_tcp_reconnect E arg s1"
      using f n m s1(1) by (simp add: espconn_Task_def deref_def cong del: bind_weak_cong if_weak_cong)
    moreover obtain s' cs where "espconn_tcp_reconnect E arg s1 = Some s'"
      "ended arg as bs m e pesp s1 s'" "ec_calls s' = ec_calls s1 @ cs"
      "filter app_call cs = (if et_reconnect_callback t = NULL then []
         else [Reconnect_callback (et_reconnect_callback t) pesp (cp_err (ms_pcommon m))])"
      "pktinfo s' = (pktinfo s1)[1 := cp_packet_info (ms_pcommon m)]"
      using reconnect_ok [OF s1(2,3)] by blast
    ultimately show ?thesis
      using f s1(4,5) s1(6) [of s'] by (intro exI [of _ s'] exI [of _ cs]) (simp add: end_calls_def)
  qed
qed

section \<open>Property\<close>

text \<open>
  C36: The task of espconn ends a connection that is closed or broken completely and exactly
  once, client connections as well as those a server accepted: the call returns without a
  memory error; the message is off the list of active connections, whose other members stay
  in order, and freed, as are all buffers of the connection, and of the descriptors and
  their TCP parts exactly those that espconn had allocated for an accepted connection;
  nothing else is freed. The application is called once, with the descriptor it knows, if it
  registered a callback, and the last packet information is kept for it.
\<close>

theorem espconn_Task_ends_connection:
  assumes A: "ending E arg as bs m e t pesp s"
    and p: "path ms_pnext (ec_msgs s) (plink_active s) as NULL"
    and sig: "sig \<in> {SIG_ESPCONN_CLOSE, SIG_ESPCONN_ERRER}"
  shows "\<exists>s' cs. espconn_Task E sig arg s = Some s' \<and> ec_calls s' = ec_calls s @ cs
    \<and> path ms_pnext (ec_msgs s') (plink_active s') (remove1 arg as) NULL
    \<and> erase set_msg_next (ec_msgs s') = (erase set_msg_next (ec_msgs s))(arg := None)
    \<and> ec_bufs s' = without (ec_bufs s) bs
    \<and> dom (espconns s') = dom (espconns s) - (if is_server m then {ms_pespconn m} else {})
    \<and> dom (esp_tcps s') = dom (esp_tcps s) - (if is_server m then {es_proto e} else {})
    \<and> filter app_call cs = (if sig = SIG_ESPCONN_CLOSE
         then if et_disconnect_callback t = NULL then []
              else [Disconnect_callback (et_disconnect_callback t) pesp]
         else if et_reconnect_callback t = NULL then []
              else [Reconnect_callback (et_reconnect_callback t) pesp (cp_err (ms_pcommon m))])
    \<and> pktinfo s' = (pktinfo s)[if sig = SIG_ESPCONN_CLOSE then 0 else 1 := cp_packet_info (ms_pcommon m)]"
  using task_ends [OF A p sig] unfolding end_calls_def
  by (elim exE conjE) (intro exI conjI, assumption+, simp_all add: ended_def freed_set)

text \<open>
  An example: a connection that a server accepted, with the own descriptor at 176, between
  two others on the list, and with two buffers.
\<close>

definition sample_close_env :: ec_env where
  "sample_close_env = sample_udp_env\<lparr>ee_lwip := \<lambda>c s. ec_lwip s\<rparr>"

definition sample_close_msg :: espconn_msg where
  "sample_close_msg = msg_zero\<lparr>ms_pespconn := 176, ms_preverse := 48,
     ms_espconn_mode := ESPCONN_TCPSERVER_MODE, ms_pnext := 34,
     ms_pcommon := (ms_pcommon msg_zero)\<lparr>cp_pcb := 16, cp_pbuf := 80\<rparr>\<rparr>"

definition sample_close_own :: espconn where
  "sample_close_own = espconn_zero\<lparr>es_type := ESPCONN_TCP, es_proto := 192\<rparr>"

definition sample_close_state :: ec where
  "sample_close_state = sample_udp_state\<lparr>
     espconns := [48 \<mapsto> espconn_zero\<lparr>es_type := ESPCONN_TCP, es_proto := 64\<rparr>, 176 \<mapsto> sample_close_own],
     esp_tcps := [64 \<mapsto> esp_tcp_zero, 192 \<mapsto> esp_tcp_zero\<lparr>et_disconnect_callback := 9\<rparr>],
     ec_msgs := [32 \<mapsto> msg_zero\<lparr>ms_pnext := 33\<rparr>, 33 \<mapsto> sample_close_msg, 34 \<mapsto> msg_zero],
     ec_bufs := [80 \<mapsto> buf_zero\<lparr>eb_pnext := 96\<rparr>, 96 \<mapsto> buf_zero, 112 \<mapsto> buf_zero],
     plink_active := 32, pktinfo := [packet_zero, packet_zero]\<rparr>"

theorem espconn_Task_ends_connection_witness:
  "\<exists>s' cs. espconn_Task sample_close_env SIG_ESPCONN_CLOSE 33 sample_close_state = Some s'
    \<and> ec_calls s' = cs \<and> path ms_pnext (ec_msgs s') (plink_active s') [32, 34] NULL
    \<and> dom (espconns s') = {48} \<and> dom (esp_tcps s') = {64} \<and> ec_bufs s' = [112 \<mapsto> buf_zero]
    \<and> filter app_call cs = [Disconnect_callback 9 48]"
proof -
  have m: "\<not> espconn_reuse_disabled sample_close_msg"
    by (simp add: espconn_reuse_disabled_def has_opt_def sample_close_msg_def msg_zero_def)
  have "lists_stay sample_close_env" "quiet sample_close_env"
    by (simp_all add: lists_stay_def quiet_def sample_close_env_def sample_udp_env_def)
  moreover have "pcb_lists (ec_lwip sample_close_state)"
    by (simp add: pcb_lists_def sample_close_state_def sample_udp_state_def)
  moreover have "tcp_conn 33 sample_close_msg sample_close_own
      (esp_tcp_zero\<lparr>et_disconnect_callback := 9\<rparr>) 48 sample_close_state"
    by (simp add: tcp_conn_def sample_close_state_def sample_close_msg_def sample_close_own_def is_server_def)
  moreover have "path eb_pnext (ec_bufs sample_close_state) (cp_pbuf (ms_pcommon sample_close_msg)) [80, 96] NULL"
    by (simp add: sample_close_state_def sample_close_msg_def deref_def buf_zero_def)
  moreover have "length (pktinfo sample_close_state) = 2" by (simp add: sample_close_state_def)
  ultimately have e: "ending sample_close_env 33 [32, 33, 34] [80, 96] sample_close_msg sample_close_own
      (esp_tcp_zero\<lparr>et_disconnect_callback := 9\<rparr>) 48 sample_close_state"
    using m by (simp add: ending_def)
  have p: "path ms_pnext (ec_msgs sample_close_state) (plink_active sample_close_state) [32, 33, 34] NULL"
    by (simp add: sample_close_state_def deref_def sample_close_msg_def msg_zero_def)
  have f: "is_server sample_close_msg" "ms_pespconn sample_close_msg = 176" "es_proto sample_close_own = 192"
    "ec_calls sample_close_state = []" "dom (espconns sample_close_state) - {176} = {48}"
    "dom (esp_tcps sample_close_state) - {192} = {64}"
    by (auto simp: is_server_def sample_close_msg_def sample_close_own_def sample_close_state_def sample_udp_state_def)
  have b: "without (ec_bufs sample_close_state) [80, 96] = [112 \<mapsto> buf_zero]"
    by (auto simp: without_def sample_close_state_def)
  show ?thesis
    using espconn_Task_ends_connection [OF e p, of SIG_ESPCONN_CLOSE] f b by auto
qed

end
