(* ===== verification/Espconn_Accept_Properties.thy ===== *)
theory Espconn_Accept_Properties
  imports Espconn_Close_Properties Espconn_Api
begin

text \<open>
  Accepting a connection: what is left behind when memory runs out halfway, and the limit on
  the number of connections of a server.
\<close>

section \<open>The table of connections\<close>

text \<open>What \<open>espconn_get_connection_info\<close> leaves alone.\<close>

definition info_frame :: "ec \<Rightarrow> ec \<Rightarrow> bool" where
  "info_frame s s' \<longleftrightarrow> ec_msgs s' = ec_msgs s \<and> plink_active s' = plink_active s
     \<and> pserver_list s' = pserver_list s \<and> ec_lwip s' = ec_lwip s \<and> ec_bufs s' = ec_bufs s
     \<and> (\<forall>p. map_option (\<lambda>e. e\<lparr>es_link_cnt := 0\<rparr>) (espconns s' p)
           = map_option (\<lambda>e. e\<lparr>es_link_cnt := 0\<rparr>) (espconns s p))"

lemma info_frame_refl [simp]: "info_frame s s"
  by (simp add: info_frame_def)

lemma info_frame_trans: "info_frame s s1 \<Longrightarrow> info_frame s1 s2 \<Longrightarrow> info_frame s s2"
  by (simp add: info_frame_def)

lemma info_frame_type:
  assumes "info_frame s s'" "espconns s p = Some e"
  shows "\<exists>e'. espconns s' p = Some e' \<and> es_type e' = es_type e \<and> es_proto e' = es_proto e"
proof -
  have "map_option (\<lambda>e. e\<lparr>es_link_cnt := 0\<rparr>) (espconns s' p) = Some (e\<lparr>es_link_cnt := 0\<rparr>)"
    using assms by (simp add: info_frame_def)
  then obtain e' where e': "espconns s' p = Some e'" "e'\<lparr>es_link_cnt := 0\<rparr> = e\<lparr>es_link_cnt := 0\<rparr>"
    by auto
  have "es_type (e'\<lparr>es_link_cnt := 0\<rparr>) = es_type (e\<lparr>es_link_cnt := 0\<rparr>)"
    "es_proto (e'\<lparr>es_link_cnt := 0\<rparr>) = es_proto (e\<lparr>es_link_cnt := 0\<rparr>)"
    by (simp_all only: e'(2))
  with e'(1) show ?thesis by simp
qed

lemma info_frame_count:
  assumes "upd_espconn p (\<lambda>e. e\<lparr>es_link_cnt := f e\<rparr>) (s\<lparr>premot := pm\<rparr>) = Some s'"
  shows "info_frame s s'"
  using assms by (auto simp: upd_espconn_def info_frame_def deref_def split: if_splits bind_splits)

text \<open>One message of the loop.\<close>

definition info_step :: "ptr \<Rightarrow> espconn_type \<Rightarrow> espconn_msg \<Rightarrow> ec \<Rightarrow> ec option" where
  "info_step pe ty m s =
     (if (if ty = ESPCONN_TCP then ms_preverse m else ms_pespconn m) = pe
               then do {
                 own \<leftarrow> deref (espconns s) (ms_pespconn m);
                 e \<leftarrow> deref (espconns s) pe;
                 pm \<leftarrow> arr_write (premot s) (unat (es_link_cnt e))
                        [\<lparr>ri_state = es_state own, ri_remote_port = cp_remote_port (ms_pcommon m),
                          ri_remote_ip = cp_remote_ip (ms_pcommon m)\<rparr>];
                 upd_espconn pe (\<lambda>e. e\<lparr>es_link_cnt := es_link_cnt e + 1\<rparr>)
                   (s\<lparr>premot := pm\<rparr>) }
               else Some s)"

lemma info_step_frame: "info_step pe ty m s = Some s' \<Longrightarrow> info_frame s s'"
  by (auto simp: info_step_def split: if_splits bind_splits intro: info_frame_count)

lemma info_loop_Nil: "connection_info_loop pe ty NULL s = Some s"
  by (subst connection_info_loop.simps) simp

lemma info_loop_Cons:
  assumes "ec_msgs s a = Some m" "a \<noteq> NULL"
  shows "connection_info_loop pe ty a s
    = do { s1 \<leftarrow> info_step pe ty m s; connection_info_loop pe ty (ms_pnext m) s1 }"
  using assms by (subst connection_info_loop.simps) (simp add: deref_def info_step_def)

lemma info_loop_frame:
  assumes "path ms_pnext (ec_msgs s) p as NULL" "connection_info_loop pe ty p s = Some s'"
  shows "info_frame s s'"
  using assms
proof (induction as arbitrary: p s)
  case Nil
  then show ?case by (simp add: connection_info_loop.simps)
next
  case (Cons a as)
  then obtain m where m: "ec_msgs s a = Some m" "a \<noteq> NULL" "p = a"
    "path ms_pnext (ec_msgs s) (ms_pnext m) as NULL" by (auto dest: deref_SomeD)
  with Cons.prems(2) obtain s1 where s1: "info_step pe ty m s = Some s1"
    "connection_info_loop pe ty (ms_pnext m) s1 = Some s'"
    by (auto simp: info_loop_Cons split: bind_splits)
  have f: "info_frame s s1" using s1(1) by (rule info_step_frame)
  moreover have "ec_msgs s1 = ec_msgs s" using f by (simp add: info_frame_def)
  with m(4) Cons.IH s1(2) have "info_frame s1 s'" by simp
  ultimately show ?case by (rule info_frame_trans)
qed

lemma get_info_frame:
  assumes "path ms_pnext (ec_msgs s) (plink_active s) as NULL"
    and "espconn_get_connection_info pe s = Some (err, s')"
  shows "info_frame s s'"
proof (cases "pe = NULL")
  case True
  with assms(2) show ?thesis by (simp add: espconn_get_connection_info_def)
next
  case False
  then obtain s1 and e :: espconn and s2 where r:
    "upd_espconn pe (\<lambda>e. e\<lparr>es_link_cnt := 0\<rparr>) (s\<lparr>premot := replicate linkMax remot_zero\<rparr>) = Some s1"
    "(if es_type e = ESPCONN_INVALID then Some s1
      else connection_info_loop pe (es_type e) (plink_active s1) s1) = Some s2" "s2 = s'"
    using assms(2) by (auto simp: espconn_get_connection_info_def split: bind_splits)
  have f: "info_frame s s1" using r(1) by (rule info_frame_count)
  then have "path ms_pnext (ec_msgs s1) (plink_active s1) as NULL"
    using assms(1) by (simp add: info_frame_def)
  with r(2,3) have "info_frame s1 s'" by (auto split: if_splits intro: info_loop_frame)
  with f show ?thesis by (rule info_frame_trans)
qed

text \<open>A connection of the server without a descriptor stops every walk over the list.\<close>

lemma info_loop_null:
  assumes "path ms_pnext (ec_msgs s) p as NULL" "a \<in> set as" "ec_msgs s a = Some m"
    and "ms_preverse m = pe" "ms_pespconn m = NULL"
  shows "connection_info_loop pe ESPCONN_TCP p s = None"
  using assms(1-3)
proof (induction as arbitrary: p s)
  case Nil
  then show ?case by simp
next
  case (Cons b as)
  then obtain n where n: "ec_msgs s b = Some n" "b \<noteq> NULL" "p = b"
    "path ms_pnext (ec_msgs s) (ms_pnext n) as NULL" by (auto dest: deref_SomeD)
  show ?case
  proof (cases "b = a")
    case True
    with n Cons.prems(3) assms(4,5) show ?thesis by (simp add: info_loop_Cons info_step_def)
  next
    case False
    have "connection_info_loop pe ESPCONN_TCP (ms_pnext n) s1 = None"
      if "info_step pe ESPCONN_TCP n s = Some s1" for s1
    proof -
      have "ec_msgs s1 = ec_msgs s" using info_step_frame [OF that] by (simp add: info_frame_def)
      with Cons.IH [of s1 "ms_pnext n"] n(4) Cons.prems(2,3) False show ?thesis by auto
    qed
    with n show ?thesis by (auto simp: info_loop_Cons split: bind_splits)
  qed
qed

lemma get_info_null:
  assumes "path ms_pnext (ec_msgs s) (plink_active s) as NULL" "a \<in> set as" "ec_msgs s a = Some m"
    and "ms_preverse m = pe" "ms_pespconn m = NULL" "pe \<noteq> NULL"
    and "espconns s pe = Some e" "es_type e = ESPCONN_TCP"
  shows "espconn_get_connection_info pe s = None"
proof -
  define s1 where "s1 = s\<lparr>premot := replicate linkMax remot_zero,
    espconns := (espconns s)(pe \<mapsto> e\<lparr>es_link_cnt := 0\<rparr>)\<rparr>"
  have "connection_info_loop pe ESPCONN_TCP (plink_active s1) s1 = None"
    using assms by (intro info_loop_null [of s1 _ as a m]) (simp_all add: s1_def)
  with assms(6-8) show ?thesis
    by (simp add: espconn_get_connection_info_def upd_espconn_def deref_def s1_def)
qed

lemma active_append_ok:
  assumes "path ms_pnext (ec_msgs s) (plink_active s) as NULL" "a \<notin> set as" "ec_msgs s a = Some m"
    and "a \<noteq> NULL" "active_append a s = Some s'"
  shows "path ms_pnext (ec_msgs s') (plink_active s') (as @ [a]) NULL \<and> espconns s' = espconns s"
proof -
  have "deref (ec_msgs s) a = Some m" using assms(3,4) by (simp add: deref_def)
  from msgs.append_ok [OF assms(1) this assms(2)] assms(5) show ?thesis
    by (auto simp: active_append_def espconn_list_creat_def)
qed

section \<open>Property\<close>

text \<open>
  C40: When memory runs out while a connection is accepted, after its message is allocated but
  before its descriptor is, the message stays on the list of active connections without a
  descriptor. From then on the server is unusable: listing its connections, accepting
  another one and deleting it all dereference the NULL pointer.
\<close>

theorem espconn_accept_out_of_memory:
  assumes p: "path ms_pnext (ec_msgs s) (plink_active s) as NULL"
    and a: "ec_msgs s a = None" "a \<noteq> NULL" and e: "espconns s pesp = Some e" "es_type e = ESPCONN_TCP"
    and run: "espconn_tcp_accept E a NULL a2 pesp pcb s = Some (err, s')" "ec_msgs s' a \<noteq> None"
  shows "err = git_mem (ee_errs E) \<and> espconn_get_connection_info pesp s' = None
    \<and> espconn_tcp_accept E b b1 b2 pesp pcb s' = None \<and> espconn_delete E pesp s' = None"
proof -
  have an: "a \<notin> set as" using path_deref [OF p, of a] a(1) by (auto simp: deref_def split: if_splits)
  define s1 where "s1 = ec_do E (Tcp_err pcb Server_err) (ec_do E (Tcp_arg pcb NULL) s)"
  have p1: "path ms_pnext (ec_msgs s1) (plink_active s1) as NULL" using p by (simp add: s1_def)
  have pn: "pesp \<noteq> NULL" "es_proto e \<noteq> NULL"
    using run a(1) e(1) by (auto simp: espconn_tcp_accept_def deref_def split: if_splits)
  obtain i s2 where i: "espconn_get_connection_info pesp s1 = Some (i, s2)"
    using run(1) pn e(1) by (auto simp: espconn_tcp_accept_def deref_def s1_def split: bind_splits)
  have f: "info_frame s1 s2" using get_info_frame [OF p1 i] .
  have s2: "ec_msgs s2 = ec_msgs s" "plink_active s2 = plink_active s"
    using f by (simp_all add: info_frame_def s1_def)
  obtain e2 where e2: "espconns s2 pesp = Some e2" "es_type e2 = ESPCONN_TCP" "es_proto e2 = es_proto e"
    using info_frame_type [OF f, of pesp e] e by (auto simp: s1_def)
  define s3 where "s3 = ec_do E (Tcp_arg pcb a) (s2\<lparr>ec_msgs := alloc (ec_msgs s2) a msg_zero\<rparr>)"
  have s3: "ec_msgs s3 = (ec_msgs s)(a \<mapsto> msg_zero)" "plink_active s3 = plink_active s" "espconns s3 = espconns s2"
    using s2 a(2) by (simp_all add: s3_def alloc_def)
  obtain allow where r: "err = git_mem (ee_errs E)"
     "(do { s4 \<leftarrow> active_append a s3;
            upd_msg a (\<lambda>m. m\<lparr>ms_preverse := pesp, ms_espconn_mode := ESPCONN_TCPSERVER_MODE,
                       ms_pespconn := NULL\<rparr>)
                     (s4\<lparr>espconns := alloc (espconns s4) NULL espconn_zero\<rparr>) }) = Some s'"
    using run pn e(1) i s2 a e2(1)
    by (auto simp: espconn_tcp_accept_def deref_def s1_def [symmetric] s3_def split: bind_splits if_splits)
  then obtain s4 m where s4: "active_append a s3 = Some s4" "ec_msgs s4 a = Some m"
    "s' = s4\<lparr>ec_msgs := (ec_msgs s4)(a \<mapsto> m\<lparr>ms_preverse := pesp,
       ms_espconn_mode := ESPCONN_TCPSERVER_MODE, ms_pespconn := NULL\<rparr>)\<rparr>"
    by (auto simp: upd_msg_def alloc_def deref_def split: bind_splits if_splits)
  have "path ms_pnext (ec_msgs s3) (plink_active s3) as NULL" using p an s3 by simp
  then have p4: "path ms_pnext (ec_msgs s4) (plink_active s4) (as @ [a]) NULL" "espconns s4 = espconns s2"
    using active_append_ok [of s3 as a msg_zero s4] an a(2) s4(1) s3 by auto
  have p': "path ms_pnext (ec_msgs s') (plink_active s') (as @ [a]) NULL"
    using path_same_next [OF p4(1), of "ec_msgs s'"] s4(2,3) by auto
  have null: "espconn_get_connection_info pesp t = None"
    if "ec_msgs t = ec_msgs s'" "plink_active t = plink_active s'" "espconns t = espconns s'" for t
  proof (rule get_info_null [of t "as @ [a]" a "m\<lparr>ms_preverse := pesp,
       ms_espconn_mode := ESPCONN_TCPSERVER_MODE, ms_pespconn := NULL\<rparr>"])
    show "ec_msgs t a = Some (m\<lparr>ms_preverse := pesp,
       ms_espconn_mode := ESPCONN_TCPSERVER_MODE, ms_pespconn := NULL\<rparr>)" using that(1) s4(3) by simp
  qed (use p' that p4(2) e2 pn s4(3) in simp_all)
  have e': "espconns s' pesp = Some e2" using s4(3) p4(2) e2(1) by simp
  have "espconn_tcp_accept E b b1 b2 pesp pcb s' = None"
    using pn e' e2(3) null by (simp add: espconn_tcp_accept_def deref_def)
  moreover have "espconn_delete E pesp s' = None"
    using pn e' e2(2) null by (simp add: espconn_delete_def espconn_tcp_delete_def deref_def)
  ultimately show ?thesis using r(1) null by simp
qed

text \<open>An example: a server that allows five connections and has none, and no memory is left.\<close>

definition sample_listen_state :: ec where
  "sample_listen_state = sample_udp_state\<lparr>
     espconns := [48 \<mapsto> espconn_zero\<lparr>es_type := ESPCONN_TCP, es_proto := 64\<rparr>],
     esp_tcps := [64 \<mapsto> esp_tcp_zero],
     ec_msgs := [32 \<mapsto> msg_zero\<lparr>ms_pespconn := 48, ms_count_opt := 5\<rparr>],
     plink_active := NULL, pserver_list := 32\<rparr>"

theorem espconn_accept_out_of_memory_witness:
  "\<exists>s'. espconn_tcp_accept sample_close_env 33 NULL NULL 48 16 sample_listen_state = Some (-1, s')
     \<and> espconn_get_connection_info 48 s' = None"
proof -
  have n: "find_node ms_pnext [32 \<mapsto> msg_zero\<lparr>ms_pespconn := 48, ms_count_opt := 5\<rparr>]
      (\<lambda>_ m. ms_pespconn m = 48) 32 = Some 32"
    by (simp add: find_node.simps deref_def)
  have L: "espconns sample_listen_state = [48 \<mapsto> espconn_zero\<lparr>es_type := ESPCONN_TCP, es_proto := 64\<rparr>]"
    "ec_msgs sample_listen_state = [32 \<mapsto> msg_zero\<lparr>ms_pespconn := 48, ms_count_opt := 5\<rparr>]"
    "plink_active sample_listen_state = NULL" "pserver_list sample_listen_state = 32"
    by (simp_all add: sample_listen_state_def)
  have m: "git_mem (ee_errs sample_close_env) = -1"
    by (simp add: sample_close_env_def sample_udp_env_def lwip2_errs_def)
  have "\<exists>s'. espconn_tcp_accept sample_close_env 33 NULL NULL 48 16 sample_listen_state = Some (-1, s')
      \<and> ec_msgs s' 33 \<noteq> None"
    by (simp add: espconn_tcp_accept_def L m deref_def espconn_get_connection_info_def
        info_loop_Nil upd_espconn_def espconn_tcp_get_max_con_allow_def n alloc_def
        active_append_def espconn_list_creat_def list_append_def upd_msg_def
        cong del: bind_weak_cong if_weak_cong)
  then obtain s' where r: "espconn_tcp_accept sample_close_env 33 NULL NULL 48 16 sample_listen_state
      = Some (-1, s')" "ec_msgs s' 33 \<noteq> None" by blast
  have "path ms_pnext (ec_msgs sample_listen_state) (plink_active sample_listen_state) [] NULL"
    "ec_msgs sample_listen_state 33 = None"
    "espconns sample_listen_state 48 = Some (espconn_zero\<lparr>es_type := ESPCONN_TCP, es_proto := 64\<rparr>)"
    by (simp_all add: sample_listen_state_def)
  from espconn_accept_out_of_memory [OF this(1,2) _ this(3) _ r] r(1) show ?thesis by auto
qed

end
