(* ===== verification/Espconn_Lookup_Properties.thy ===== *)
theory Espconn_Lookup_Properties
  imports Espconn_Accept_Properties
begin

text \<open>
  The searches of espconn: for the connection of a descriptor, for the control block to give
  up when there are too many, and for a free port.
\<close>

section \<open>Connections\<close>

text \<open>The messages of a list with their addresses.\<close>

definition messages :: "ptr list \<Rightarrow> ec \<Rightarrow> (ptr \<times> espconn_msg) list" where
  "messages as s = map (\<lambda>a. (a, the (ec_msgs s a))) as"

definition first_msg :: "(espconn_msg \<Rightarrow> bool) \<Rightarrow> (ptr \<times> espconn_msg) list \<Rightarrow> ptr option" where
  "first_msg P ms = map_option fst (find (\<lambda>(a, m). P m) ms)"

text \<open>
  The connection of a descriptor: the first active message that has it; failing that, for a
  listening descriptor, the first active message with the peer that the descriptor names.
\<close>

definition connection_of :: "ptr list \<Rightarrow> ptr list \<Rightarrow> ptr \<Rightarrow> espconn \<Rightarrow> esp_tcp \<Rightarrow> ec \<Rightarrow> ptr option" where
  "connection_of as bs pe e t s =
     (case first_msg (\<lambda>m. pe = ms_pespconn m) (messages as s) of
        Some a \<Rightarrow> Some a
      | None \<Rightarrow>
          if first_msg (\<lambda>m. pe = ms_pespconn m) (messages bs s) = None \<or> es_proto e = NULL
             \<or> word4 (et_remote_ip t) = 0 \<or> et_remote_port t = 0
          then None
          else first_msg (\<lambda>m. word4 (cp_remote_ip (ms_pcommon m)) = word4 (et_remote_ip t)
                              \<and> et_remote_port t = cp_remote_port (ms_pcommon m)) (messages as s))"

lemma first_msg_mem:
  assumes "first_msg P (messages as s) = Some a"
  shows "a \<in> set as"
  using assms by (induction as) (auto simp: first_msg_def messages_def split: if_splits)

lemma first_msg_nonnull:
  assumes "path ms_pnext (ec_msgs s) p as NULL" "first_msg P (messages as s) = Some a"
  shows "a \<noteq> NULL"
  using first_msg_mem [OF assms(2)] path_nonnull [OF assms(1)] by metis

lemma find_node_first:
  assumes "path ms_pnext (ec_msgs s) p as NULL"
  shows "find_node ms_pnext (ec_msgs s) (\<lambda>_ m. P m) p
    = Some (case first_msg P (messages as s) of None \<Rightarrow> NULL | Some a \<Rightarrow> a)"
proof -
  have "first_msg P (messages as s) = (case filter (\<lambda>a. P (the (ec_msgs s a))) as of [] \<Rightarrow> None | a # _ \<Rightarrow> Some a)"
    by (induction as) (auto simp: first_msg_def messages_def)
  with find_node_path [OF assms, of "\<lambda>_ m. P m"] show ?thesis
    by (auto split: list.split)
qed

text \<open>
  C38: \<open>espconn_find_connection\<close>, through which every call of the application finds its
  connection, always returns and agrees with the reference: the first message of the
  descriptor, or for a listening descriptor the first one with the peer it names. What it
  finds is on the list of active connections, never a listening message.
\<close>

theorem espconn_find_connection_equiv:
  assumes "path ms_pnext (ec_msgs s) (plink_active s) as NULL"
    and "path ms_pnext (ec_msgs s) (pserver_list s) bs NULL"
    and "pe \<noteq> NULL" "espconns s pe = Some e" "es_proto e \<noteq> NULL \<longrightarrow> esp_tcps s (es_proto e) = Some t"
  shows "espconn_find_connection pe s
      = Some (case connection_of as bs pe e t s of None \<Rightarrow> (False, NULL) | Some a \<Rightarrow> (True, a))
    \<and> (\<forall>a. connection_of as bs pe e t s = Some a \<longrightarrow> a \<in> set as)"
proof -
  let ?own = "first_msg (\<lambda>m. pe = ms_pespconn m)"
  let ?peer = "first_msg (\<lambda>m. word4 (cp_remote_ip (ms_pcommon m)) = word4 (et_remote_ip t)
    \<and> et_remote_port t = cp_remote_port (ms_pcommon m)) (messages as s)"
  note A = find_node_first [OF assms(1)] and B = find_node_first [OF assms(2)]
  note N = first_msg_nonnull [OF assms(1)] first_msg_nonnull [OF assms(2)]
  have "espconn_find_connection pe s
      = Some (case connection_of as bs pe e t s of None \<Rightarrow> (False, NULL) | Some a \<Rightarrow> (True, a))"
  proof (cases "?own (messages as s)")
    case (Some a)
    with N(1) [OF Some] assms(3) show ?thesis
      by (simp add: espconn_find_connection_def A connection_of_def)
  next
    case own: None
    show ?thesis
    proof (cases "?own (messages bs s)")
      case None
      with own assms(3) show ?thesis
        by (simp add: espconn_find_connection_def A B connection_of_def)
    next
      case (Some b)
      note b = Some N(2) [OF Some]
      show ?thesis
      proof (cases "es_proto e = NULL \<or> word4 (et_remote_ip t) = 0 \<or> et_remote_port t = 0")
        case True
        with b own assms(3-5) show ?thesis
          by (cases "es_proto e = NULL")
            (auto simp: espconn_find_connection_def A B connection_of_def deref_def)
      next
        case False
        with b own assms(3-5) N(1) [of _ "the ?peer"] N(1) show ?thesis
          by (cases ?peer) (simp_all add: espconn_find_connection_def A B connection_of_def deref_def)
      qed
    qed
  qed
  moreover have "\<forall>a. connection_of as bs pe e t s = Some a \<longrightarrow> a \<in> set as"
    by (auto simp: connection_of_def split: option.splits if_splits dest: first_msg_mem)
  ultimately show ?thesis by blast
qed

theorem espconn_find_connection_witness:
  "\<exists>r. espconn_find_connection 176 sample_close_state = Some r \<and> r = (True, 33)"
proof -
  have "path ms_pnext (ec_msgs sample_close_state) (plink_active sample_close_state) [32, 33, 34] NULL"
    "path ms_pnext (ec_msgs sample_close_state) (pserver_list sample_close_state) [] NULL"
    "espconns sample_close_state 176 = Some sample_close_own"
    "esp_tcps sample_close_state (es_proto sample_close_own) = Some (esp_tcp_zero\<lparr>et_disconnect_callback := 9\<rparr>)"
    by (simp_all add: sample_close_state_def deref_def sample_close_msg_def msg_zero_def
        sample_udp_state_def sample_close_own_def)
  moreover have "connection_of [32, 33, 34] [] 176 sample_close_own
      (esp_tcp_zero\<lparr>et_disconnect_callback := 9\<rparr>) sample_close_state = Some 33"
    by (simp add: connection_of_def first_msg_def messages_def sample_close_state_def
        sample_close_msg_def msg_zero_def)
  ultimately show ?thesis
    using espconn_find_connection_equiv [of sample_close_state "[32, 33, 34]" "[]" 176 sample_close_own
        "esp_tcp_zero\<lparr>et_disconnect_callback := 9\<rparr>"] by simp
qed

section \<open>The oldest control block\<close>

text \<open>How long a control block has been idle.\<close>

definition idle :: "ec \<Rightarrow> ptr \<Rightarrow> u32" where
  "idle s a = lw_ticks (ec_lwip s) - tp_tmr (the (lw_tcp (ec_lwip s) a))"

definition candidates :: "(tcp_pcb \<Rightarrow> bool) \<Rightarrow> ec \<Rightarrow> ptr list \<Rightarrow> ptr list" where
  "candidates P s as = filter (\<lambda>a. P (the (lw_tcp (ec_lwip s) a))) as"

definition oldest_of :: "ec \<Rightarrow> ptr list \<Rightarrow> ptr \<Rightarrow> bool" where
  "oldest_of s cs i \<longleftrightarrow> i \<in> set cs \<and> (\<forall>a \<in> set cs. idle s a \<le> idle s i)"

lemma oldest_loop_spec:
  assumes "path tp_next (lw_tcp (ec_lwip s)) p as NULL"
  shows "\<exists>i. oldest_pcb_loop P (lw_ticks (ec_lwip s)) (lw_tcp (ec_lwip s)) p k j = Some i
    \<and> (if \<forall>a \<in> set (candidates P s as). idle s a < k then i = j
       else oldest_of s (candidates P s as) i \<and> k \<le> idle s i)"
  using assms
proof (induction as arbitrary: p k j)
  case Nil
  then show ?case by (simp add: oldest_pcb_loop.simps candidates_def)
next
  case (Cons a as)
  then obtain b where b: "p = a" "lw_tcp (ec_lwip s) a = Some b" "a \<noteq> NULL"
    "path tp_next (lw_tcp (ec_lwip s)) (tp_next b) as NULL" by (auto dest: deref_SomeD)
  have d: "idle s a = lw_ticks (ec_lwip s) - tp_tmr b" using b(2) by (simp add: idle_def)
  note run = oldest_pcb_loop.simps [of P "lw_ticks (ec_lwip s)" "lw_tcp (ec_lwip s)" a k j]
  show ?case
  proof (cases "P b \<and> k \<le> idle s a")
    case True
    with run b d have r: "oldest_pcb_loop P (lw_ticks (ec_lwip s)) (lw_tcp (ec_lwip s)) p k j
        = oldest_pcb_loop P (lw_ticks (ec_lwip s)) (lw_tcp (ec_lwip s)) (tp_next b) (idle s a) a"
      by (simp add: deref_def)
    from True b(2) have c: "candidates P s (a # as) = a # candidates P s as" by (simp add: candidates_def)
    have k: "\<not> (\<forall>x \<in> set (a # candidates P s as). idle s x < k)" using True by (auto simp: not_less)
    obtain i where i: "oldest_pcb_loop P (lw_ticks (ec_lwip s)) (lw_tcp (ec_lwip s)) (tp_next b) (idle s a) a = Some i"
      "if \<forall>x \<in> set (candidates P s as). idle s x < idle s a then i = a
       else oldest_of s (candidates P s as) i \<and> idle s a \<le> idle s i"
      using Cons.IH [OF b(4), of "idle s a" a] by blast
    have "oldest_of s (a # candidates P s as) i" "idle s a \<le> idle s i"
      using i(2) by (auto simp: oldest_of_def order.strict_implies_order split: if_splits)
    with i(1) k True show ?thesis unfolding r c by auto
  next
    case False
    with run b d have r: "oldest_pcb_loop P (lw_ticks (ec_lwip s)) (lw_tcp (ec_lwip s)) p k j
        = oldest_pcb_loop P (lw_ticks (ec_lwip s)) (lw_tcp (ec_lwip s)) (tp_next b) k j"
      by (auto simp: deref_def)
    obtain i where i: "oldest_pcb_loop P (lw_ticks (ec_lwip s)) (lw_tcp (ec_lwip s)) (tp_next b) k j = Some i"
      "if \<forall>x \<in> set (candidates P s as). idle s x < k then i = j
       else oldest_of s (candidates P s as) i \<and> k \<le> idle s i"
      using Cons.IH [OF b(4), of k j] by blast
    show ?thesis
    proof (cases "P b")
      case True
      with False b(2) have c: "candidates P s (a # as) = a # candidates P s as" "idle s a < k"
        by (simp_all add: candidates_def not_le)
      then have "idle s a \<le> idle s i" if "k \<le> idle s i" using that by simp
      with i c(2) show ?thesis unfolding r c(1) by (auto simp: oldest_of_def split: if_splits)
    next
      case False
      with b(2) have "candidates P s (a # as) = candidates P s as" by (simp add: candidates_def)
      with i show ?thesis unfolding r by metis
    qed
  qed
qed

text \<open>
  \<open>espconn_kill_oldest\<close> gives up the right control block: the search returns for every
  list, NULL exactly when no block of the list is in one of the states asked for, and
  otherwise one that has been idle for the longest time.
\<close>

lemma oldest_pcb_is_oldest:
  assumes "path tp_next (lw_tcp (ec_lwip s)) pcbs as NULL"
  shows "\<exists>i. oldest_pcb P pcbs s = Some i
    \<and> (if candidates P s as = [] then i = NULL else oldest_of s (candidates P s as) i)"
proof -
  obtain i where i: "oldest_pcb P pcbs s = Some i"
    "if \<forall>a \<in> set (candidates P s as). idle s a < 0 then i = NULL else oldest_of s (candidates P s as) i"
    using oldest_loop_spec [OF assms, of P 0 NULL] unfolding oldest_pcb_def by metis
  moreover have "(\<forall>a \<in> set (candidates P s as). idle s a < 0) \<longleftrightarrow> candidates P s as = []"
    by (cases "candidates P s as") auto
  ultimately show ?thesis by metis
qed

end
