(* ===== verification/Espconn_Types.thy ===== *)
theory Espconn_Types
  imports Espconn_Api Espconn_Udp_Properties
begin

text \<open>
  The tagged union of espconn: \<open>proto\<close> of a descriptor points to a \<open>esp_tcp\<close> or a \<open>esp_udp\<close>
  as \<open>type\<close> says. Which calls respect the tag, and which write through the wrong member.
\<close>

section \<open>Well-typed descriptors\<close>

definition descriptor_typed :: "ec \<Rightarrow> espconn \<Rightarrow> bool" where
  "descriptor_typed s e \<longleftrightarrow>
     (es_type e = ESPCONN_TCP \<longrightarrow> es_proto e \<noteq> NULL \<and> es_proto e \<in> dom (esp_tcps s))
     \<and> (es_type e = ESPCONN_UDP \<longrightarrow> es_proto e \<noteq> NULL \<and> es_proto e \<in> dom (esp_udps s))"

text \<open>An object is a \<open>esp_tcp\<close> or a \<open>esp_udp\<close>, not both, and every descriptor has the right one.\<close>

definition ec_typed :: "ec \<Rightarrow> bool" where
  "ec_typed s \<longleftrightarrow> dom (esp_tcps s) \<inter> dom (esp_udps s) = {}
     \<and> (\<forall>p e. espconns s p = Some e \<longrightarrow> descriptor_typed s e)"

lemma typed_espconn:
  assumes "ec_typed s" "espconns s p = Some e" "es_type e' = es_type e" "es_proto e' = es_proto e"
  shows "ec_typed (s\<lparr>espconns := (espconns s)(p \<mapsto> e')\<rparr>)"
  using assms by (auto simp: ec_typed_def descriptor_typed_def)

lemma typed_tcp:
  assumes "ec_typed s" "esp_tcps s p = Some t"
  shows "ec_typed (s\<lparr>esp_tcps := (esp_tcps s)(p \<mapsto> t')\<rparr>)"
proof -
  have "dom ((esp_tcps s)(p \<mapsto> t')) = dom (esp_tcps s)" using assms(2) by auto
  with assms(1) show ?thesis by (simp add: ec_typed_def descriptor_typed_def)
qed

lemma typedD:
  assumes "ec_typed s" "espconns s p = Some e"
  shows "es_type e = ESPCONN_TCP \<Longrightarrow>
           es_proto e \<noteq> NULL \<and> (\<exists>t. esp_tcps s (es_proto e) = Some t)"
    and "es_type e = ESPCONN_UDP \<Longrightarrow>
           es_proto e \<noteq> NULL \<and> esp_tcps s (es_proto e) = None
           \<and> (\<exists>u. esp_udps s (es_proto e) = Some u)"
  using assms by (auto simp: ec_typed_def descriptor_typed_def dom_def)

text \<open>A result keeps the types: it is defined, and its state is well typed.\<close>

definition keeps_types :: "(err_t \<times> ec) option \<Rightarrow> bool" where
  "keeps_types r \<longleftrightarrow> (\<exists>err s'. r = Some (err, s') \<and> ec_typed s')"

lemma keeps_types_Some [simp]: "keeps_types (Some (err, s)) \<longleftrightarrow> ec_typed s"
  by (simp add: keeps_types_def)

lemma not_keeps_types_None [simp]: "\<not> keeps_types None"
  by (simp add: keeps_types_def)

section \<open>Property\<close>

text \<open>
  C39: Registering a callback keeps descriptors well typed and is defined for every descriptor
  for the sent, the receive and the write-finish callback. The connect, the reconnect and
  the disconnect callback are written through \<open>proto.tcp\<close> whatever the type: registering
  one is defined exactly for the TCP descriptors, and for a UDP descriptor it writes past
  the end of its \<open>esp_udp\<close>.
\<close>

theorem espconn_regist_types:
  assumes "ec_typed s" "pesp \<noteq> NULL" "espconns s pesp = Some e" "es_type e \<noteq> ESPCONN_INVALID"
  shows "keeps_types (espconn_regist_sentcb pesp f s) \<and> keeps_types (espconn_regist_recvcb pesp f s)
    \<and> keeps_types (espconn_regist_write_finish pesp f s)
    \<and> (if es_type e = ESPCONN_TCP
       then keeps_types (espconn_regist_connectcb pesp f s)
         \<and> keeps_types (espconn_regist_reconcb pesp f s)
         \<and> keeps_types (espconn_regist_disconcb pesp f s)
       else espconn_regist_connectcb pesp f s = None \<and> espconn_regist_reconcb pesp f s = None
         \<and> espconn_regist_disconcb pesp f s = None)"
proof -
  note D = typedD [OF assms(1,3)]
  note defs = espconn_regist_sentcb_def espconn_regist_recvcb_def espconn_regist_write_finish_def
    espconn_regist_connectcb_def espconn_regist_reconcb_def espconn_regist_disconcb_def
    upd_espconn_def upd_tcp_def deref_def
  have "keeps_types (espconn_regist_sentcb pesp f s)" "keeps_types (espconn_regist_recvcb pesp f s)"
    using assms by (auto simp: defs intro!: typed_espconn)
  moreover have "keeps_types (espconn_regist_write_finish pesp f s)"
    using assms D by (cases "es_type e") (auto simp: defs intro!: typed_tcp)
  ultimately show ?thesis
    using assms D by (cases "es_type e") (auto simp: defs intro!: typed_tcp)
qed

theorem espconn_regist_types_witness:
  "keeps_types (espconn_regist_recvcb 48 7 sample_udp_state)
    \<and> espconn_regist_disconcb 48 7 sample_udp_state = None"
proof -
  have "ec_typed sample_udp_state"
    by (simp add: ec_typed_def descriptor_typed_def sample_udp_state_def)
  moreover have "espconns sample_udp_state 48
      = Some (espconn_zero\<lparr>es_type := ESPCONN_UDP, es_proto := 64\<rparr>)"
    by (simp add: sample_udp_state_def)
  ultimately show ?thesis
    using espconn_regist_types [of sample_udp_state 48
        "espconn_zero\<lparr>es_type := ESPCONN_UDP, es_proto := 64\<rparr>" 7] by simp
qed

end
