(* ===== verification/Espconn_Frame.thy ===== *)
theory Espconn_Frame
  imports Espconn_Lookup_Properties
begin

text \<open>
  Running the operations of espconn on a state whose structure is known. Most of them change
  only settings of the connections; this theory states what they leave alone (\<open>same\<close>) and
  under what they return (\<open>returns\<close>), with one rule for every elementary step of the code, so
  that the operations follow by applying the rules in the order of their steps.
\<close>

section \<open>Returning\<close>

definition returns :: "'a option \<Rightarrow> ('a \<Rightarrow> bool) \<Rightarrow> bool" where
  "returns r P \<longleftrightarrow> (\<exists>x. r = Some x \<and> P x)"

lemma returns_Some [simp]: "returns (Some x) P = P x"
  by (simp add: returns_def)

lemma returns_SomeI: "P x \<Longrightarrow> returns (Some x) P"
  by simp

lemma returns_bind: "returns r Q \<Longrightarrow> (\<And>x. Q x \<Longrightarrow> returns (f x) P) \<Longrightarrow> returns (r \<bind> f) P"
  by (auto simp: returns_def)

lemma returns_if: "(b \<Longrightarrow> returns x P) \<Longrightarrow> (\<not> b \<Longrightarrow> returns y P) \<Longrightarrow> returns (if b then x else y) P"
  by simp

lemma returns_pair: "(\<And>a b. x = (a, b) \<Longrightarrow> returns (f a b) P) \<Longrightarrow> returns (case x of (a, b) \<Rightarrow> f a b) P"
  by (cases x) simp

lemma returns_option:
  "(x = None \<Longrightarrow> returns n P) \<Longrightarrow> (\<And>v. x = Some v \<Longrightarrow> returns (f v) P)
    \<Longrightarrow> returns (case x of None \<Rightarrow> n | Some v \<Rightarrow> f v) P"
  by (cases x) simp_all

lemma returns_mono: "returns r Q \<Longrightarrow> (\<And>x. Q x \<Longrightarrow> P x) \<Longrightarrow> returns r P"
  by (auto simp: returns_def)

lemma returns_map: "returns (map_option f r) P = returns r (\<lambda>x. P (f x))"
  by (cases r) (simp_all add: returns_def)

section \<open>What stays the same\<close>

text \<open>The structure of messages and descriptors.\<close>

definition msg_core :: "espconn_msg \<Rightarrow> ptr \<times> ptr \<times> u8 \<times> u8 \<times> ptr \<times> ptr" where
  "msg_core m = (ms_pespconn m, ms_preverse m, ms_espconn_mode m, ms_count_opt m,
     cp_pbuf (ms_pcommon m), cp_ptail (ms_pcommon m))"

definition msg_shape :: "espconn_msg \<Rightarrow> ptr \<times> ptr \<times> ptr \<times> u8 \<times> u8 \<times> ptr \<times> ptr" where
  "msg_shape m = (ms_pnext m, msg_core m)"

definition esp_shape :: "espconn \<Rightarrow> espconn_type \<times> ptr" where
  "esp_shape e = (es_type e, es_proto e)"

definition same :: "ec \<Rightarrow> ec \<Rightarrow> bool" where
  "same s s' \<longleftrightarrow>
     (\<forall>a. map_option msg_shape (ec_msgs s' a) = map_option msg_shape (ec_msgs s a))
     \<and> (\<forall>d. map_option esp_shape (espconns s' d) = map_option esp_shape (espconns s d))
     \<and> dom (esp_tcps s') = dom (esp_tcps s) \<and> dom (esp_udps s') = dom (esp_udps s)
     \<and> ec_bufs s' = ec_bufs s \<and> plink_active s' = plink_active s \<and> pserver_list s' = pserver_list s
     \<and> length (premot s') = length (premot s) \<and> length (pktinfo s') = length (pktinfo s)"

lemma same_refl [simp]: "same s s"
  by (simp add: same_def)

lemma same_trans: "same s s1 \<Longrightarrow> same s1 s2 \<Longrightarrow> same s s2"
  by (simp add: same_def)

lemma msg_shape_sel:
  assumes "msg_shape m' = msg_shape m"
  shows "ms_pnext m' = ms_pnext m" "ms_pespconn m' = ms_pespconn m" "ms_preverse m' = ms_preverse m"
    "ms_espconn_mode m' = ms_espconn_mode m" "ms_count_opt m' = ms_count_opt m"
    "cp_pbuf (ms_pcommon m') = cp_pbuf (ms_pcommon m)" "cp_ptail (ms_pcommon m') = cp_ptail (ms_pcommon m)"
  using assms by (simp_all add: msg_shape_def msg_core_def)

lemma esp_shape_sel:
  assumes "esp_shape e' = esp_shape e"
  shows "es_type e' = es_type e" "es_proto e' = es_proto e"
  using assms by (simp_all add: esp_shape_def)

lemma same_msg:
  assumes "same s s'" "ec_msgs s a = Some m"
  obtains m' where "ec_msgs s' a = Some m'" "msg_shape m' = msg_shape m"
proof -
  have "map_option msg_shape (ec_msgs s' a) = Some (msg_shape m)" using assms by (simp add: same_def)
  with that show thesis by auto
qed

lemma same_esp:
  assumes "same s s'" "espconns s d = Some e"
  obtains e' where "espconns s' d = Some e'" "esp_shape e' = esp_shape e"
proof -
  have "map_option esp_shape (espconns s' d) = Some (esp_shape e)" using assms by (simp add: same_def)
  with that show thesis by auto
qed

lemma same_dom:
  assumes "same s s'"
  shows "ec_msgs s' a = None \<longleftrightarrow> ec_msgs s a = None" "espconns s' d = None \<longleftrightarrow> espconns s d = None"
    "esp_tcps s' p = None \<longleftrightarrow> esp_tcps s p = None" "esp_udps s' p = None \<longleftrightarrow> esp_udps s p = None"
proof -
  from assms have "map_option msg_shape (ec_msgs s' a) = map_option msg_shape (ec_msgs s a)"
    "map_option esp_shape (espconns s' d) = map_option esp_shape (espconns s d)"
    "dom (esp_tcps s') = dom (esp_tcps s)" "dom (esp_udps s') = dom (esp_udps s)"
    by (simp_all add: same_def)
  then show "ec_msgs s' a = None \<longleftrightarrow> ec_msgs s a = None" "espconns s' d = None \<longleftrightarrow> espconns s d = None"
    "esp_tcps s' p = None \<longleftrightarrow> esp_tcps s p = None" "esp_udps s' p = None \<longleftrightarrow> esp_udps s p = None"
    by (auto dest: arg_cong [where f = "\<lambda>x. x = None"])
qed

lemma same_path:
  "same s s' \<Longrightarrow> path ms_pnext (ec_msgs s) p as q \<Longrightarrow> path ms_pnext (ec_msgs s') p as q"
proof (erule path_same_next)
  fix a assume "same s s'"
  then have "map_option msg_shape (ec_msgs s' a) = map_option msg_shape (ec_msgs s a)" by (simp add: same_def)
  then have "map_option fst (map_option msg_shape (ec_msgs s' a)) = map_option fst (map_option msg_shape (ec_msgs s a))"
    by simp
  then show "map_option ms_pnext (ec_msgs s' a) = map_option ms_pnext (ec_msgs s a)"
    by (simp add: option.map_comp comp_def msg_shape_def)
qed

section \<open>The contract of lwIP\<close>

text \<open>
  The structures of lwIP that espconn reads, and those that a call may free: making a new
  control block may give up any other.
\<close>

datatype lwip_obj = Tcp_block ptr | Udp_block ptr | Packet ptr

fun there :: "lwip \<Rightarrow> lwip_obj \<Rightarrow> bool" where
  "there l (Tcp_block p) \<longleftrightarrow> p \<noteq> NULL \<and> lw_tcp l p \<noteq> None"
| "there l (Udp_block p) \<longleftrightarrow> p \<noteq> NULL \<and> lw_udp l p \<noteq> None"
| "there l (Packet p) \<longleftrightarrow> p \<noteq> NULL \<and> lw_pbufs l p \<noteq> None"

fun ends :: "ec_call \<Rightarrow> lwip_obj set" where
  "ends (Tcp_close p) = {Tcp_block p}"
| "ends (Tcp_abort p) = {Tcp_block p}"
| "ends (Tcp_abandon p) = {Tcp_block p}"
| "ends (Tcp_pcb_remove p) = {Tcp_block p}"
| "ends (Memp_free p) = {Tcp_block p}"
| "ends (Tcp_listen p) = {Tcp_block p}"
| "ends Tcp_new = range Tcp_block"
| "ends (Udp_remove p) = {Udp_block p}"
| "ends (Free_pbuf p) = {Packet p}"
| "ends _ = {}"

text \<open>What lwIP makes in a call.\<close>

fun makes :: "ec_call \<Rightarrow> ptr \<Rightarrow> lwip_obj set" where
  "makes Tcp_new p = {Tcp_block p}"
| "makes (Tcp_listen _) p = {Tcp_block p}"
| "makes Udp_new p = {Udp_block p}"
| "makes (Pbuf_alloc _) p = {Packet p}"
| "makes _ _ = {}"

text \<open>
  lwIP frees nothing else in a call and keeps its lists; taking a block off a list leaves the
  rest of the list; what it makes is there; the application's callbacks do not call espconn
  back; and a window fits in a ring buffer.
\<close>

definition calm :: "ec_env \<Rightarrow> bool" where
  "calm E \<longleftrightarrow> quiet E \<and> lists_stay E \<and> TCP_WND (ee_mss E) < 2 ^ 31 - 1
     \<and> (\<forall>c s x. there (ec_lwip s) x \<and> x \<notin> ends c \<longrightarrow> there (ee_lwip E c s) x)
     \<and> (\<forall>c s x. ee_ptr E c s \<noteq> NULL \<and> x \<in> makes c (ee_ptr E c s) \<longrightarrow> there (ee_lwip E c s) x)
     \<and> (\<forall>c p s q as. c \<in> {Tcp_pcb_remove p, Memp_free p} \<and> p \<notin> set as
          \<and> path tp_next (lw_tcp (ec_lwip s)) q as NULL
          \<longrightarrow> path tp_next (lw_tcp (ee_lwip E c s)) q as NULL)"

lemma calmD:
  assumes "calm E"
  shows "quiet E" "lists_stay E" "TCP_WND (ee_mss E) < 2 ^ 31 - 1"
    "there (ec_lwip s) x \<Longrightarrow> x \<notin> ends c \<Longrightarrow> there (ee_lwip E c s) x"
    "ee_ptr E c s \<noteq> NULL \<Longrightarrow> x \<in> makes c (ee_ptr E c s) \<Longrightarrow> there (ee_lwip E c s) x"
    "c \<in> {Tcp_pcb_remove p, Memp_free p} \<Longrightarrow> path tp_next (lw_tcp (ec_lwip s)) q as NULL \<Longrightarrow> p \<notin> set as
      \<Longrightarrow> path tp_next (lw_tcp (ee_lwip E c s)) q as NULL"
  using assms unfolding calm_def by blast+

text \<open>The ring buffers are sound.\<close>

definition rings :: "ec \<Rightarrow> bool" where
  "rings s \<longleftrightarrow> (\<forall>a m rb. ec_msgs s a = Some m \<longrightarrow> ms_readbuf m = Some rb \<longrightarrow> rb_ok rb)"

text \<open>A state that an operation reaches from \<open>s0\<close> while the structures \<open>Z\<close> of lwIP exist.\<close>

definition held :: "lwip_obj set \<Rightarrow> ec \<Rightarrow> ec \<Rightarrow> bool" where
  "held Z s0 s \<longleftrightarrow> same s0 s \<and> rings s \<and> pcb_lists (ec_lwip s)
     \<and> (\<forall>x \<in> Z. there (ec_lwip s) x)"

lemma held_mono: "held Z s0 s \<Longrightarrow> Z' \<subseteq> Z \<Longrightarrow> held Z' s0 s"
  by (auto simp: held_def)

lemma held_trans: "held Z s0 s \<Longrightarrow> held Z' s s' \<Longrightarrow> held Z' s0 s'"
  by (auto simp: held_def intro: same_trans)

section \<open>The elementary steps\<close>

lemma held_do:
  assumes "calm E" "held Z s0 s" "ends c \<inter> Z = {}"
  shows "held Z s0 (ec_do E c s)"
proof -
  have "there (ee_lwip E c s) x" if "x \<in> Z" for x
    using assms that by (intro calmD(4)) (auto simp: held_def)
  moreover have "pcb_lists (ee_lwip E c s)"
    using assms(2) calmD(2) [OF assms(1)] by (simp add: held_def lists_stay_def)
  ultimately show ?thesis using assms(2) by (auto simp: held_def same_def rings_def)
qed

lemma held_ask:
  assumes "calm E" "held Z s0 s" "ends c \<inter> Z = {}"
  shows "held Z s0 (snd (ec_ask E c s))"
proof -
  have "snd (ec_ask E c s) = (ec_do E c s)\<lparr>ec_calls := ec_calls s @ [Answered c (ee_err E c s)]\<rparr>"
    by (simp add: ec_ask_def ec_do_def)
  with held_do [OF assms] show ?thesis by (simp add: held_def same_def rings_def)
qed

lemma held_user: "calm E \<Longrightarrow> held Z s0 s \<Longrightarrow> held Z s0 (ec_user E c s)"
  by (simp add: calm_def ec_user_quiet held_def same_def rings_def)

lemma held_if: "(b \<Longrightarrow> held Z s0 s) \<Longrightarrow> (\<not> b \<Longrightarrow> held Z s0 s') \<Longrightarrow> held Z s0 (if b then s else s')"
  by simp

lemma held_msg:
  assumes "held Z s0 s" "ec_msgs s0 a = Some m0" "a \<noteq> NULL"
  shows "returns (deref (ec_msgs s) a) (\<lambda>m. ec_msgs s a = Some m \<and> msg_shape m = msg_shape m0)"
  using assms by (auto simp: held_def returns_def deref_def elim: same_msg)

lemma held_esp:
  assumes "held Z s0 s" "espconns s0 d = Some e0" "d \<noteq> NULL"
  shows "returns (deref (espconns s) d) (\<lambda>e. espconns s d = Some e \<and> esp_shape e = esp_shape e0)"
  using assms by (auto simp: held_def returns_def deref_def elim: same_esp)

lemma held_tcp:
  assumes "held Z s0 s" "esp_tcps s0 p \<noteq> None" "p \<noteq> NULL"
  shows "returns (deref (esp_tcps s) p) (\<lambda>t. esp_tcps s p = Some t)"
  using assms same_dom(3) [of s0 s p] by (auto simp: held_def returns_def deref_def)

lemma held_pcb:
  assumes "held Z s0 s" "Tcp_block p \<in> Z"
  shows "returns (deref (lw_tcp (ec_lwip s)) p) (\<lambda>b. lw_tcp (ec_lwip s) p = Some b)"
  using assms by (auto simp: held_def returns_def deref_def dest!: bspec)

lemma held_packet:
  assumes "held Z s0 s" "Packet p \<in> Z"
  shows "returns (deref (lw_pbufs (ec_lwip s)) p) (\<lambda>b. lw_pbufs (ec_lwip s) p = Some b)"
  using assms by (auto simp: held_def returns_def deref_def dest!: bspec)

lemma held_udp_pcb:
  assumes "held Z s0 s" "Udp_block p \<in> Z"
  shows "returns (deref (lw_udp (ec_lwip s)) p) (\<lambda>b. lw_udp (ec_lwip s) p = Some b)"
  using assms by (auto simp: held_def returns_def deref_def dest!: bspec)

lemma held_upd_msg:
  assumes "held Z s0 s" "ec_msgs s0 a \<noteq> None" "a \<noteq> NULL"
    and "\<And>m. msg_shape (f m) = msg_shape m"
    and "\<And>m rb. ec_msgs s a = Some m \<Longrightarrow> ms_readbuf (f m) = Some rb \<Longrightarrow> rb_ok rb"
  shows "returns (upd_msg a f s) (held Z s0)"
proof -
  from assms(1,2) obtain m where m: "ec_msgs s a = Some m"
    using same_dom(1) [of s0 s a] by (auto simp: held_def)
  then have "upd_msg a f s = Some (s\<lparr>ec_msgs := (ec_msgs s)(a \<mapsto> f m)\<rparr>)"
    using assms(3) by (simp add: upd_msg_def deref_def)
  moreover have "map_option msg_shape (((ec_msgs s)(a \<mapsto> f m)) x) = map_option msg_shape (ec_msgs s x)" for x
    using m assms(4) by simp
  ultimately show ?thesis
    using assms(1,5) m by (simp add: held_def same_def rings_def)
qed

lemma held_upd_common:
  assumes "held Z s0 s" "ec_msgs s0 a \<noteq> None" "a \<noteq> NULL"
    and "\<And>c. cp_pbuf (f c) = cp_pbuf c" "\<And>c. cp_ptail (f c) = cp_ptail c"
  shows "returns (upd_common a f s) (held Z s0)"
  unfolding upd_common_def using assms(1-3)
  by (rule held_upd_msg) (use assms in \<open>auto simp: msg_shape_def msg_core_def held_def rings_def\<close>)

lemma held_upd_esp:
  assumes "held Z s0 s" "espconns s0 d \<noteq> None" "d \<noteq> NULL"
    and "\<And>e. es_type (f e) = es_type e" "\<And>e. es_proto (f e) = es_proto e"
  shows "returns (upd_espconn d f s) (held Z s0)"
proof -
  from assms(1,2) obtain e where e: "espconns s d = Some e"
    using same_dom(2) [of s0 s d] by (auto simp: held_def)
  then have "upd_espconn d f s = Some (s\<lparr>espconns := (espconns s)(d \<mapsto> f e)\<rparr>)"
    using assms(3) by (simp add: upd_espconn_def deref_def)
  moreover have "map_option esp_shape (((espconns s)(d \<mapsto> f e)) x) = map_option esp_shape (espconns s x)" for x
    using e assms(4,5) by (simp add: esp_shape_def)
  ultimately show ?thesis using assms(1) by (simp add: held_def same_def rings_def)
qed

lemma held_upd_tcp:
  assumes "held Z s0 s" "esp_tcps s0 p \<noteq> None" "p \<noteq> NULL"
  shows "returns (upd_tcp p f s) (held Z s0)"
proof -
  from assms(1,2) obtain t where t: "esp_tcps s p = Some t"
    using same_dom(3) [of s0 s p] by (auto simp: held_def)
  then have "dom ((esp_tcps s)(p \<mapsto> f t)) = dom (esp_tcps s)" by auto
  with assms t show ?thesis by (simp add: upd_tcp_def deref_def held_def same_def rings_def)
qed

lemma held_upd_pcb:
  assumes "held Z s0 s" "Tcp_block p \<in> Z" "\<And>b. tp_next (f b) = tp_next b"
  shows "returns (upd_pcb p f s) (held Z s0)"
proof -
  from assms(1,2) have "there (ec_lwip s) (Tcp_block p)" unfolding held_def by blast
  then obtain b where b: "lw_tcp (ec_lwip s) p = Some b" "p \<noteq> NULL" by auto
  define l where "l = (ec_lwip s)\<lparr>lw_tcp := (lw_tcp (ec_lwip s))(p \<mapsto> f b)\<rparr>"
  have "path tp_next (lw_tcp l) q as NULL" if "path tp_next (lw_tcp (ec_lwip s)) q as NULL" for q as
    using that by (rule path_same_next) (use b assms(3) in \<open>simp add: l_def\<close>)
  with assms(1) have "pcb_lists l" by (auto simp: held_def pcb_lists_def l_def)
  moreover have "there l x" if "there (ec_lwip s) x" for x
    using that by (cases x) (simp_all add: l_def)
  ultimately have "held Z s0 (s\<lparr>ec_lwip := l\<rparr>)"
    using assms(1) by (simp add: held_def same_def rings_def)
  with b show ?thesis by (simp add: upd_pcb_def deref_def l_def)
qed

lemma first_msg_holds: "first_msg P (messages as s) = Some a \<Longrightarrow> P (the (ec_msgs s a))"
  by (auto simp: first_msg_def messages_def find_Some_iff)

lemma held_find:
  assumes "held Z s0 s" "path ms_pnext (ec_msgs s0) p as NULL"
  shows "returns (find_node ms_pnext (ec_msgs s) (\<lambda>_ m. P m) p)
    (\<lambda>n. n = NULL \<or> n \<in> set as \<and> P (the (ec_msgs s n)))"
proof -
  have "path ms_pnext (ec_msgs s) p as NULL" using assms by (auto simp: held_def intro: same_path)
  from find_node_first [OF this, of P] first_msg_mem [of P as s] first_msg_holds [of P as s] show ?thesis
    by (auto simp: returns_def split: option.split)
qed

section \<open>Running a handler\<close>

text \<open>
  The rules of the control flow. A step that yields a state keeps \<open>held\<close>, one that asks lwIP
  as well; the other steps are rules of their own.
\<close>

lemma returns_state:
  "returns r (held Z s0) \<Longrightarrow> (\<And>x. held Z s0 x \<Longrightarrow> returns (f x) P) \<Longrightarrow> returns (r \<bind> f) P"
  by (rule returns_bind)

lemma returns_answer:
  "returns r (\<lambda>(_, x). held Z s0 x) \<Longrightarrow> (\<And>y x. held Z s0 x \<Longrightarrow> returns (f y x) P)
    \<Longrightarrow> returns (r \<bind> (\<lambda>(y, x). f y x)) P"
  by (erule returns_bind) auto

lemma returns_ask:
  "calm E \<Longrightarrow> held Z s0 s \<Longrightarrow> ends c \<inter> Z = {} \<Longrightarrow> (\<And>err x. held Z s0 x \<Longrightarrow> returns (f err x) P)
    \<Longrightarrow> returns (case ec_ask E c s of (err, x) \<Rightarrow> f err x) P"
  using held_ask [of E Z s0 s c] by (cases "ec_ask E c s") auto

lemma returns_read:
  "calm E \<Longrightarrow> held Z s0 s \<Longrightarrow> ends c \<inter> Z = {} \<Longrightarrow> (\<And>bs x. held Z s0 x \<Longrightarrow> returns (f bs x) P)
    \<Longrightarrow> returns (case ec_read E c s of (bs, x) \<Rightarrow> f bs x) P"
  using held_do [of E Z s0 s c] by (simp add: ec_read_def)

lemma returns_case_if:
  "(b \<Longrightarrow> returns (case x of (p, q) \<Rightarrow> f p q) P) \<Longrightarrow> (\<not> b \<Longrightarrow> returns (case y of (p, q) \<Rightarrow> f p q) P)
    \<Longrightarrow> returns (case (if b then x else y) of (p, q) \<Rightarrow> f p q) P"
  by simp

lemma returns_case_Pair: "returns (f p q) P \<Longrightarrow> returns (case (p, q) of (x, y) \<Rightarrow> f x y) P"
  by simp

lemma returns_held_Some: "held Z s0 s \<Longrightarrow> returns (Some s) (held Z s0)"
  by simp

lemma returns_held_answer: "held Z s0 s \<Longrightarrow> returns (Some (y, s)) (\<lambda>(_, x). held Z s0 x)"
  by simp

text \<open>A value that a branch computes: the rest of the handler is run in each branch.\<close>

lemma returns_bind_if:
  fixes x y :: "'v option"
  shows "(b \<Longrightarrow> returns (x \<bind> f) P) \<Longrightarrow> (\<not> b \<Longrightarrow> returns (y \<bind> f) P)
    \<Longrightarrow> returns ((if b then x else y) \<bind> f) P"
  by simp

lemma returns_bind_Some:
  fixes x :: "'v"
  shows "returns (f x) P \<Longrightarrow> returns (Some x \<bind> f) P"
  by simp

lemma returns_bind_bind:
  fixes g :: "'w \<Rightarrow> 'v option"
  shows "returns (r \<bind> (\<lambda>x. g x \<bind> f)) P \<Longrightarrow> returns (r \<bind> g \<bind> f) P"
  by (simp add: Option.bind_assoc)

lemmas branch = returns_bind_if returns_bind_Some returns_bind_bind

lemmas flow = returns_if returns_case_if returns_case_Pair
lemmas held_flow = returns_state returns_answer returns_ask returns_read returns_held_Some
  returns_held_answer held_if held_do held_user

end
