(* ===== verification/Espconn_Invariant.thy ===== *)
theory Espconn_Invariant
  imports Espconn_Frame
begin

text \<open>
  The invariant of espconn: the lists of messages and of buffers are well formed and nothing is
  allocated that is not on one of them; every message has a descriptor of its type; what
  espconn allocated for an accepted connection belongs to that connection alone; a server has
  no more connections than it allows; and the next buffer to send is still there.
\<close>

section \<open>Connections\<close>

text \<open>The message \<open>a\<close> with its descriptor.\<close>

definition conn_at :: "ec \<Rightarrow> ptr \<Rightarrow> espconn_msg \<Rightarrow> espconn \<Rightarrow> bool" where
  "conn_at s a m e \<longleftrightarrow> a \<noteq> NULL \<and> ec_msgs s a = Some m \<and> ms_pespconn m \<noteq> NULL
     \<and> espconns s (ms_pespconn m) = Some e"

text \<open>The descriptor of the message \<open>a\<close>, and the server's descriptor for an accepted connection.\<close>

definition desc :: "ec \<Rightarrow> ptr \<Rightarrow> ptr" where
  "desc s a = ms_pespconn (the (ec_msgs s a))"

definition srv :: "ec \<Rightarrow> ptr \<Rightarrow> ptr" where
  "srv s a = ms_preverse (the (ec_msgs s a))"

definition typed :: "ec \<Rightarrow> bool" where
  "typed s \<longleftrightarrow> (\<forall>d e. espconns s d = Some e \<longrightarrow>
     (es_type e = ESPCONN_TCP \<longrightarrow> es_proto e \<noteq> NULL \<and> esp_tcps s (es_proto e) \<noteq> None)
     \<and> (es_type e = ESPCONN_UDP \<longrightarrow> es_proto e \<noteq> NULL \<and> esp_udps s (es_proto e) \<noteq> None))"

lemma typedE:
  assumes "typed s" "espconns s d = Some e" "es_type e = ESPCONN_TCP"
  obtains t where "es_proto e \<noteq> NULL" "esp_tcps s (es_proto e) = Some t"
  using assms unfolding typed_def by blast

lemma typed_udpE:
  assumes "typed s" "espconns s d = Some e" "es_type e = ESPCONN_UDP"
  obtains u where "es_proto e \<noteq> NULL" "esp_udps s (es_proto e) = Some u"
  using assms unfolding typed_def by blast

definition tcp_desc :: "ec \<Rightarrow> ptr \<Rightarrow> bool" where
  "tcp_desc s d \<longleftrightarrow> d \<noteq> NULL \<and> (\<exists>e. espconns s d = Some e \<and> es_type e = ESPCONN_TCP)"

definition active_ok :: "ec \<Rightarrow> ptr \<Rightarrow> bool" where
  "active_ok s a \<longleftrightarrow> (\<exists>m e. conn_at s a m e \<and> es_type e \<noteq> ESPCONN_INVALID
     \<and> (is_server m \<longleftrightarrow> ms_preverse m \<noteq> NULL)
     \<and> (is_server m \<longrightarrow> es_type e = ESPCONN_TCP \<and> tcp_desc s (ms_preverse m))
     \<and> (es_type e = ESPCONN_UDP \<longrightarrow> cp_pbuf (ms_pcommon m) = NULL))"

definition listen_ok :: "ec \<Rightarrow> ptr \<Rightarrow> bool" where
  "listen_ok s n \<longleftrightarrow> (\<exists>m e. conn_at s n m e \<and> es_type e = ESPCONN_TCP
     \<and> ms_count_opt m \<le> MEMP_NUM_TCP_PCB)"

section \<open>Ownership and limits\<close>

text \<open>
  No two active connections share a descriptor, and the descriptor and the TCP part of an
  accepted connection are nobody else's.
\<close>

definition owned :: "ptr list \<Rightarrow> ptr list \<Rightarrow> ec \<Rightarrow> bool" where
  "owned as sv s \<longleftrightarrow> inj_on (desc s) (set as)
     \<and> (\<forall>a \<in> set as. srv s a \<noteq> NULL \<longrightarrow>
          (\<forall>b \<in> set as. srv s b \<noteq> desc s a) \<and> (\<forall>n \<in> set sv. desc s n \<noteq> desc s a)
          \<and> (\<forall>d e. espconns s d = Some e \<longrightarrow> d \<noteq> desc s a \<longrightarrow> es_type e = ESPCONN_TCP
               \<longrightarrow> es_proto e \<noteq> es_proto (the (espconns s (desc s a)))))"

definition conn_count :: "ec \<Rightarrow> ptr list \<Rightarrow> ptr \<Rightarrow> nat" where
  "conn_count s as d = length (filter (\<lambda>a. srv s a = d) as)"

definition allowed :: "ec \<Rightarrow> ptr list \<Rightarrow> ptr \<Rightarrow> nat" where
  "allowed s sv d = (case find (\<lambda>n. desc s n = d) sv of
     None \<Rightarrow> 0 | Some n \<Rightarrow> unat (ms_count_opt (the (ec_msgs s n))))"

definition within_limits :: "ptr list \<Rightarrow> ptr list \<Rightarrow> ec \<Rightarrow> bool" where
  "within_limits as sv s \<longleftrightarrow> (\<forall>d. d \<noteq> NULL \<longrightarrow> conn_count s as d \<le> allowed s sv d)"

section \<open>Buffers\<close>

text \<open>
  The buffers \<open>bs\<close> of a message: those before \<open>ptail\<close> are handed to lwIP completely, those
  from it on have data, and those after it are not handed over at all; none is empty, and
  only the first has acknowledged bytes.
\<close>

definition queue_ok :: "(ptr \<rightharpoonup> espconn_buf) \<Rightarrow> espconn_msg \<Rightarrow> ptr list \<Rightarrow> bool" where
  "queue_ok h m bs \<longleftrightarrow> path eb_pnext h (cp_pbuf (ms_pcommon m)) bs NULL
     \<and> (\<exists>us ts. bs = us @ ts \<and> path eb_pnext h (cp_ptail (ms_pcommon m)) ts NULL
          \<and> (\<forall>a \<in> set us. \<forall>b. h a = Some b \<longrightarrow> eb_unsent b = 0)
          \<and> (\<forall>a \<in> set ts. \<forall>b. h a = Some b \<longrightarrow> eb_punsent b \<noteq> NULL)
          \<and> (\<forall>a \<in> set (tl ts). \<forall>b. h a = Some b \<longrightarrow> eb_unsent b = eb_len b))
     \<and> (\<forall>a \<in> set bs. \<forall>b. h a = Some b \<longrightarrow> eb_len b \<noteq> 0 \<and> eb_unsent b \<le> eb_len b)
     \<and> acked_first h bs"

definition queues :: "ptr list \<Rightarrow> (ptr \<Rightarrow> ptr list) \<Rightarrow> ec \<Rightarrow> bool" where
  "queues as bl s \<longleftrightarrow> (\<forall>a \<in> set as. queue_ok (ec_bufs s) (the (ec_msgs s a)) (bl a))
     \<and> (\<forall>a \<in> set as. \<forall>b \<in> set as. a \<noteq> b \<longrightarrow> set (bl a) \<inter> set (bl b) = {})
     \<and> dom (ec_bufs s) = (\<Union>a \<in> set as. set (bl a))"

section \<open>The invariant\<close>

definition lists_ok :: "ptr list \<Rightarrow> ptr list \<Rightarrow> ec \<Rightarrow> bool" where
  "lists_ok as sv s \<longleftrightarrow> path ms_pnext (ec_msgs s) (plink_active s) as NULL
     \<and> path ms_pnext (ec_msgs s) (pserver_list s) sv NULL
     \<and> set as \<inter> set sv = {} \<and> dom (ec_msgs s) = set as \<union> set sv"

definition tables_ok :: "ec \<Rightarrow> bool" where
  "tables_ok s \<longleftrightarrow> length (premot s) = linkMax \<and> length (pktinfo s) = 2 \<and> rings s \<and> pcb_lists (ec_lwip s)"

definition espconn_inv :: "ptr list \<Rightarrow> ptr list \<Rightarrow> (ptr \<Rightarrow> ptr list) \<Rightarrow> ec \<Rightarrow> bool" where
  "espconn_inv as sv bl s \<longleftrightarrow> lists_ok as sv s \<and> typed s \<and> (\<forall>a \<in> set as. active_ok s a)
     \<and> (\<forall>n \<in> set sv. listen_ok s n) \<and> owned as sv s \<and> within_limits as sv s
     \<and> queues as bl s \<and> tables_ok s"

section \<open>What an operation keeps\<close>

text \<open>
  Messages and descriptors whose structure stays: all of them when only settings change, and
  all but those of one connection when it is added or ends.
\<close>

definition kept :: "ptr set \<Rightarrow> ptr set \<Rightarrow> ec \<Rightarrow> ec \<Rightarrow> bool" where
  "kept A D s s' \<longleftrightarrow> (\<forall>a \<in> A. map_option msg_core (ec_msgs s' a) = map_option msg_core (ec_msgs s a))
     \<and> (\<forall>d \<in> D. map_option esp_shape (espconns s' d) = map_option esp_shape (espconns s d))"

lemma msg_core_sel:
  assumes "msg_core m' = msg_core m"
  shows "ms_pespconn m' = ms_pespconn m" "ms_preverse m' = ms_preverse m"
    "ms_espconn_mode m' = ms_espconn_mode m" "ms_count_opt m' = ms_count_opt m"
    "cp_pbuf (ms_pcommon m') = cp_pbuf (ms_pcommon m)" "cp_ptail (ms_pcommon m') = cp_ptail (ms_pcommon m)"
  using assms by (simp_all add: msg_core_def)

lemma same_kept: "same s s' \<Longrightarrow> kept A D s s'"
proof -
  assume S: "same s s'"
  have c: "map_option msg_core x = map_option msg_core y" if "map_option msg_shape x = map_option msg_shape y" for x y
    using that by (cases x; cases y) (simp_all add: msg_shape_def)
  have "map_option msg_core (ec_msgs s' a) = map_option msg_core (ec_msgs s a)" for a
    by (rule c) (use S in \<open>simp add: same_def\<close>)
  with S show ?thesis unfolding kept_def same_def by blast
qed

lemma kept_msg:
  assumes "kept A D s s'" "a \<in> A" "ec_msgs s a = Some m"
  obtains m' where "ec_msgs s' a = Some m'" "msg_core m' = msg_core m"
proof -
  have "map_option msg_core (ec_msgs s' a) = Some (msg_core m)" using assms by (simp add: kept_def)
  with that show thesis by auto
qed

lemma kept_esp:
  assumes "kept A D s s'" "d \<in> D" "espconns s d = Some e"
  obtains e' where "espconns s' d = Some e'" "es_type e' = es_type e" "es_proto e' = es_proto e"
proof -
  have "map_option esp_shape (espconns s' d) = Some (esp_shape e)" using assms by (simp add: kept_def)
  with that show thesis by (auto simp: esp_shape_def)
qed

lemma kept_the:
  assumes "kept A D s s'" "a \<in> A" "ec_msgs s a \<noteq> None"
  shows "msg_core (the (ec_msgs s' a)) = msg_core (the (ec_msgs s a))"
proof -
  from assms(3) obtain m where m: "ec_msgs s a = Some m" by blast
  obtain m' where "ec_msgs s' a = Some m'" "msg_core m' = msg_core m" by (rule kept_msg [OF assms(1,2) m])
  with m show ?thesis by simp
qed

lemma kept_desc:
  assumes "kept A D s s'" "a \<in> A" "ec_msgs s a \<noteq> None"
  shows "desc s' a = desc s a" "srv s' a = srv s a"
  using msg_core_sel(1,2) [OF kept_the [OF assms]] by (simp_all add: desc_def srv_def)

lemma kept_conn:
  assumes K: "kept A D s s'" and c: "conn_at s a m e" and d: "a \<in> A" "ms_pespconn m \<in> D"
  obtains m' e' where "conn_at s' a m' e'" "msg_core m' = msg_core m" "es_type e' = es_type e"
proof -
  from c have h: "ec_msgs s a = Some m" "espconns s (ms_pespconn m) = Some e" by (simp_all add: conn_at_def)
  obtain m' where m': "ec_msgs s' a = Some m'" "msg_core m' = msg_core m" by (rule kept_msg [OF K d(1) h(1)])
  obtain e' where e': "espconns s' (ms_pespconn m) = Some e'" "es_type e' = es_type e"
    by (rule kept_esp [OF K d(2) h(2)])
  have "conn_at s' a m' e'" using c m' e' msg_core_sel(1) [OF m'(2)] by (simp add: conn_at_def)
  with m' e' that show thesis by blast
qed

lemma tcp_desc_kept:
  assumes "kept A D s s'" "d \<in> D" "tcp_desc s d"
  shows "tcp_desc s' d"
proof -
  from assms(3) obtain e where e: "espconns s d = Some e" "es_type e = ESPCONN_TCP" "d \<noteq> NULL"
    by (auto simp: tcp_desc_def)
  obtain e' where "espconns s' d = Some e'" "es_type e' = es_type e" by (rule kept_esp [OF assms(1,2) e(1)])
  with e show ?thesis by (auto simp: tcp_desc_def)
qed

lemma tcp_desc_same: "same s s' \<Longrightarrow> tcp_desc s d \<Longrightarrow> tcp_desc s' d"
  using tcp_desc_kept [OF same_kept, of s s' d "{d}"] by simp

lemma active_ok_kept:
  assumes K: "kept A D s s'" and A: "active_ok s a" and a: "a \<in> A" "desc s a \<in> D" "srv s a \<noteq> NULL \<Longrightarrow> srv s a \<in> D"
  shows "active_ok s' a"
proof -
  from A obtain m e where c: "conn_at s a m e" "es_type e \<noteq> ESPCONN_INVALID"
    "is_server m \<longleftrightarrow> ms_preverse m \<noteq> NULL"
    "is_server m \<longrightarrow> es_type e = ESPCONN_TCP \<and> tcp_desc s (ms_preverse m)"
    "es_type e = ESPCONN_UDP \<longrightarrow> cp_pbuf (ms_pcommon m) = NULL"
    by (auto simp: active_ok_def)
  then have d: "desc s a = ms_pespconn m" "srv s a = ms_preverse m" by (simp_all add: conn_at_def desc_def srv_def)
  obtain m' e' where c': "conn_at s' a m' e'" "msg_core m' = msg_core m" "es_type e' = es_type e"
    using kept_conn [OF K c(1) a(1)] a(2) d by metis
  with c d a tcp_desc_kept [OF K, of "ms_preverse m"] msg_core_sel(2,3,5) [OF c'(2)] show ?thesis
    unfolding active_ok_def by (intro exI [of _ m'] exI [of _ e']) (auto simp: is_server_def)
qed

lemma listen_ok_kept:
  assumes K: "kept A D s s'" and A: "listen_ok s n" and n: "n \<in> A" "desc s n \<in> D"
  shows "listen_ok s' n"
proof -
  from A obtain m e where c: "conn_at s n m e" "es_type e = ESPCONN_TCP"
    "ms_count_opt m \<le> MEMP_NUM_TCP_PCB" by (auto simp: listen_ok_def)
  then have "desc s n = ms_pespconn m" by (simp add: conn_at_def desc_def)
  with n obtain m' e' where c': "conn_at s' n m' e'" "msg_core m' = msg_core m" "es_type e' = es_type e"
    using kept_conn [OF K c(1)] by metis
  with c msg_core_sel(4) [OF c'(2)] show ?thesis
    unfolding listen_ok_def by (intro exI [of _ m'] exI [of _ e']) simp
qed

lemma conn_count_cong:
  "(\<And>a. a \<in> set as \<Longrightarrow> srv s' a = srv s a) \<Longrightarrow> conn_count s' as d = conn_count s as d"
  unfolding conn_count_def by (intro arg_cong [where f = length] filter_cong) auto

lemma allowed_kept:
  assumes "kept A D s s'" "set sv \<subseteq> A" "\<And>a. a \<in> set sv \<Longrightarrow> ec_msgs s a \<noteq> None"
  shows "allowed s' sv d = allowed s sv d"
proof -
  have "find (\<lambda>n. desc s' n = d) sv = find (\<lambda>n. desc s n = d) sv"
    using kept_desc(1) [OF assms(1)] assms(2,3) by (intro find_cong) auto
  moreover have "ms_count_opt (the (ec_msgs s' n)) = ms_count_opt (the (ec_msgs s n))" if "n \<in> set sv" for n
    using msg_core_sel(4) [OF kept_the [OF assms(1)]] assms(2,3) that by auto
  moreover have "n \<in> set sv" if "find (\<lambda>n. desc s n = d) sv = Some n" for n
    using that by (auto simp: find_Some_iff)
  ultimately show ?thesis
    by (cases "find (\<lambda>n. desc s n = d) sv") (simp_all add: allowed_def)
qed

text \<open>A queue depends only on its own buffers and on the two pointers of the message.\<close>

lemma queue_ok_cong:
  assumes "cp_pbuf (ms_pcommon m') = cp_pbuf (ms_pcommon m)" "cp_ptail (ms_pcommon m') = cp_ptail (ms_pcommon m)"
    and "\<And>a. a \<in> set bs \<Longrightarrow> h' a = h a" and Q: "queue_ok h m bs"
  shows "queue_ok h' m' bs"
proof -
  from Q obtain us ts where u: "bs = us @ ts" "path eb_pnext h (cp_ptail (ms_pcommon m)) ts NULL"
    "\<forall>a \<in> set us. \<forall>b. h a = Some b \<longrightarrow> eb_unsent b = 0"
    "\<forall>a \<in> set ts. \<forall>b. h a = Some b \<longrightarrow> eb_punsent b \<noteq> NULL"
    "\<forall>a \<in> set (tl ts). \<forall>b. h a = Some b \<longrightarrow> eb_unsent b = eb_len b"
    and r: "path eb_pnext h (cp_pbuf (ms_pcommon m)) bs NULL" "acked_first h bs"
      "\<forall>a \<in> set bs. \<forall>b. h a = Some b \<longrightarrow> eb_len b \<noteq> 0 \<and> eb_unsent b \<le> eb_len b"
    unfolding queue_ok_def by blast
  have "path eb_pnext h' (cp_pbuf (ms_pcommon m')) bs NULL"
    unfolding assms(1) using r(1) by (rule path_agree) (rule assms(3))
  moreover have "path eb_pnext h' (cp_ptail (ms_pcommon m')) ts NULL"
    unfolding assms(2) using u(2) by (rule path_agree) (simp add: u(1) assms(3))
  moreover have "acked_first h' bs"
    using r(2) assms(3) by (cases bs) (auto simp: acked_first_def)
  moreover have "h' a = h a" if "a \<in> set us \<union> set ts" for a using that u(1) assms(3) by auto
  then have "\<forall>a \<in> set us. \<forall>b. h' a = Some b \<longrightarrow> eb_unsent b = 0"
    "\<forall>a \<in> set ts. \<forall>b. h' a = Some b \<longrightarrow> eb_punsent b \<noteq> NULL"
    "\<forall>a \<in> set (tl ts). \<forall>b. h' a = Some b \<longrightarrow> eb_unsent b = eb_len b"
    "\<forall>a \<in> set bs. \<forall>b. h' a = Some b \<longrightarrow> eb_len b \<noteq> 0 \<and> eb_unsent b \<le> eb_len b"
    using u r(3) list.set_sel(2) [of ts] by (cases ts; simp)+
  ultimately show ?thesis using u(1) unfolding queue_ok_def by blast
qed

lemma queues_kept:
  assumes K: "kept A D s s'" and Q: "queues as bl s" and a: "set as' \<subseteq> set as" "set as' \<subseteq> A"
    and m: "\<And>a. a \<in> set as' \<Longrightarrow> ec_msgs s a \<noteq> None"
    and b: "\<And>a x. a \<in> set as' \<Longrightarrow> x \<in> set (bl a) \<Longrightarrow> ec_bufs s' x = ec_bufs s x"
      "dom (ec_bufs s') = (\<Union>a \<in> set as'. set (bl a))"
  shows "queues as' bl s'"
proof -
  have "queue_ok (ec_bufs s') (the (ec_msgs s' x)) (bl x)"
    if x: "x \<in> set as'" and k: "msg_core (the (ec_msgs s' x)) = msg_core (the (ec_msgs s x))" for x
    by (rule queue_ok_cong [OF msg_core_sel(5) [OF k] msg_core_sel(6) [OF k] b(1) [OF x]])
      (use x a Q in \<open>auto simp: queues_def\<close>)
  moreover have "msg_core (the (ec_msgs s' x)) = msg_core (the (ec_msgs s x))" if "x \<in> set as'" for x
    using kept_the [OF K _ m [OF that]] a(2) that by auto
  ultimately have "\<forall>x \<in> set as'. queue_ok (ec_bufs s') (the (ec_msgs s' x)) (bl x)" by simp
  with Q a(1) b(2) show ?thesis unfolding queues_def by blast
qed

section \<open>Connections that end, and settings\<close>

text \<open>
  The descriptors of the new state are some of the old ones, with their types and TCP or UDP
  parts.
\<close>

definition descs_from :: "ec \<Rightarrow> ec \<Rightarrow> bool" where
  "descs_from s s' \<longleftrightarrow> (\<forall>p e'. espconns s' p = Some e' \<longrightarrow>
     (\<exists>e. espconns s p = Some e \<and> es_type e' = es_type e \<and> es_proto e' = es_proto e)
     \<and> (es_type e' = ESPCONN_TCP \<longrightarrow> esp_tcps s (es_proto e') \<noteq> None \<longrightarrow> esp_tcps s' (es_proto e') \<noteq> None)
     \<and> (es_type e' = ESPCONN_UDP \<longrightarrow> esp_udps s (es_proto e') \<noteq> None \<longrightarrow> esp_udps s' (es_proto e') \<noteq> None))"

lemma descs_fromE:
  assumes "descs_from s s'" "espconns s' p = Some e'"
  obtains e where "espconns s p = Some e" "es_type e' = es_type e" "es_proto e' = es_proto e"
  using assms unfolding descs_from_def by blast

lemma typed_from:
  assumes F: "descs_from s s'" and T: "typed s"
  shows "typed s'"
  unfolding typed_def
proof (intro allI impI)
  fix p e' assume e': "espconns s' p = Some e'"
  then obtain e where e: "espconns s p = Some e" "es_type e' = es_type e" "es_proto e' = es_proto e"
    by (rule descs_fromE [OF F])
  from F e' have "es_type e' = ESPCONN_TCP \<longrightarrow> esp_tcps s (es_proto e') \<noteq> None \<longrightarrow> esp_tcps s' (es_proto e') \<noteq> None"
    "es_type e' = ESPCONN_UDP \<longrightarrow> esp_udps s (es_proto e') \<noteq> None \<longrightarrow> esp_udps s' (es_proto e') \<noteq> None"
    unfolding descs_from_def by blast+
  with T e show "(es_type e' = ESPCONN_TCP \<longrightarrow> es_proto e' \<noteq> NULL \<and> esp_tcps s' (es_proto e') \<noteq> None)
     \<and> (es_type e' = ESPCONN_UDP \<longrightarrow> es_proto e' \<noteq> NULL \<and> esp_udps s' (es_proto e') \<noteq> None)"
    unfolding typed_def by auto
qed

lemma owned_from:
  assumes F: "descs_from s s'" and O: "owned as sv s" and a: "set as' \<subseteq> set as" "set sv' \<subseteq> set sv"
    and d: "\<And>a. a \<in> set as' \<union> set sv' \<Longrightarrow> desc s' a = desc s a \<and> srv s' a = srv s a"
    and e: "\<And>a. a \<in> set as' \<Longrightarrow> espconns s' (desc s a) \<noteq> None"
  shows "owned as' sv' s'"
proof -
  have "es_proto e' \<noteq> es_proto (the (espconns s' (desc s' a)))"
    if x: "a \<in> set as'" "srv s' a \<noteq> NULL" "espconns s' p = Some e'" "p \<noteq> desc s' a" "es_type e' = ESPCONN_TCP"
    for a p e'
  proof -
    obtain f' where f': "espconns s' (desc s a) = Some f'" using e [OF x(1)] by blast
    obtain f where f: "espconns s (desc s a) = Some f" "es_proto f' = es_proto f" by (rule descs_fromE [OF F f'])
    obtain e where e: "espconns s p = Some e" "es_type e' = es_type e" "es_proto e' = es_proto e"
      by (rule descs_fromE [OF F x(3)])
    have y: "a \<in> set as" "srv s a \<noteq> NULL" "p \<noteq> desc s a" "es_type e = ESPCONN_TCP"
      using x d [of a] a e by auto
    then have "es_proto e \<noteq> es_proto (the (espconns s (desc s a)))"
      using O e(1) unfolding owned_def by blast
    then have "es_proto e \<noteq> es_proto f" using f by simp
    with e f f' d [of a] x(1) show ?thesis by simp
  qed
  moreover have "inj_on (desc s') (set as')"
  proof -
    have "inj_on (desc s) (set as')" using O a by (auto simp: owned_def intro: inj_on_subset)
    with d show ?thesis by (simp cong: inj_on_cong)
  qed
  moreover have "(\<forall>b \<in> set as'. srv s' b \<noteq> desc s' a) \<and> (\<forall>n \<in> set sv'. desc s' n \<noteq> desc s' a)"
    if "a \<in> set as'" "srv s' a \<noteq> NULL" for a
    using O that d a by (auto simp: owned_def subset_iff)
  ultimately show ?thesis unfolding owned_def by blast
qed

text \<open>
  The invariant for some of the connections, when their messages and descriptors stay; the
  second form is for connections that end and for settings.
\<close>

lemma inv_change:
  assumes I: "espconn_inv as sv bl s" and a: "set as' \<subseteq> set as" "set sv' \<subseteq> set sv" and L: "lists_ok as' sv' s'"
    and K: "kept (set as' \<union> set sv') D s s'" and T: "typed s'" and O: "owned as' sv' s'"
    and D: "\<And>x. x \<in> set as' \<Longrightarrow> desc s x \<in> D \<and> (srv s x \<noteq> NULL \<longrightarrow> srv s x \<in> D)"
      "\<And>n. n \<in> set sv' \<Longrightarrow> desc s n \<in> D"
    and c: "\<And>p. p \<noteq> NULL \<Longrightarrow> conn_count s as' p \<le> allowed s sv' p"
    and b: "\<And>x y. x \<in> set as' \<Longrightarrow> y \<in> set (bl x) \<Longrightarrow> ec_bufs s' y = ec_bufs s y"
      "dom (ec_bufs s') = (\<Union>x \<in> set as'. set (bl x))"
    and t: "tables_ok s'"
  shows "espconn_inv as' sv' bl s'"
proof -
  from I have M: "\<And>x. x \<in> set as' \<union> set sv' \<Longrightarrow> ec_msgs s x \<noteq> None"
    using a by (auto simp: espconn_inv_def lists_ok_def)
  have ds: "desc s' x = desc s x" "srv s' x = srv s x" if "x \<in> set as' \<union> set sv'" for x
    using kept_desc [OF K that M [OF that]] .
  have A: "active_ok s' x" if "x \<in> set as'" for x
    using that I a D(1) by (intro active_ok_kept [OF K]) (auto simp: espconn_inv_def)
  have N: "listen_ok s' n" if "n \<in> set sv'" for n
    using that I a(2) D(2) by (intro listen_ok_kept [OF K]) (auto simp: espconn_inv_def)
  have "conn_count s' as' p = conn_count s as' p" for p
    by (rule conn_count_cong) (use ds in simp)
  moreover have "allowed s' sv' p = allowed s sv' p" for p
    by (rule allowed_kept [OF K]) (use M in auto)
  ultimately have W: "within_limits as' sv' s'"
    using c by (simp add: within_limits_def)
  have Q: "queues as' bl s'"
    by (rule queues_kept [OF K _ a(1) _ _ b]) (use I M in \<open>auto simp: espconn_inv_def\<close>)
  with L A N O W T t show ?thesis by (simp add: espconn_inv_def)
qed

lemma inv_shrink:
  assumes I: "espconn_inv as sv bl s" and a: "set as' \<subseteq> set as" and L: "lists_ok as' sv s'"
    and K: "kept (set as' \<union> set sv) D s s'" and F: "descs_from s s'"
    and D: "\<And>x. x \<in> set as' \<Longrightarrow> desc s x \<in> D \<and> (srv s x \<noteq> NULL \<longrightarrow> srv s x \<in> D)"
      "\<And>n. n \<in> set sv \<Longrightarrow> desc s n \<in> D"
    and c: "\<And>p. conn_count s as' p \<le> conn_count s as p"
    and b: "\<And>x y. x \<in> set as' \<Longrightarrow> y \<in> set (bl x) \<Longrightarrow> ec_bufs s' y = ec_bufs s y"
      "dom (ec_bufs s') = (\<Union>x \<in> set as'. set (bl x))"
    and t: "tables_ok s'"
  shows "espconn_inv as' sv bl s'"
proof (rule inv_change [OF I a subset_refl L K _ _ D _ b t])
  show "typed s'" using F I by (auto simp: espconn_inv_def intro: typed_from)
  from I have M: "\<And>x. x \<in> set as' \<union> set sv \<Longrightarrow> ec_msgs s x \<noteq> None"
    using a by (auto simp: espconn_inv_def lists_ok_def)
  have ds: "desc s' x = desc s x" "srv s' x = srv s x" if "x \<in> set as' \<union> set sv" for x
    using kept_desc [OF K that M [OF that]] .
  have "espconns s' (desc s x) \<noteq> None" if x: "x \<in> set as'" for x
  proof -
    have "espconns s (desc s x) \<noteq> None"
    proof -
      have "active_ok s x" using I x a by (auto simp: espconn_inv_def)
      then show ?thesis by (auto simp: active_ok_def conn_at_def desc_def)
    qed
    then obtain e where e: "espconns s (desc s x) = Some e" by blast
    obtain e' where "espconns s' (desc s x) = Some e'" using kept_esp [OF K _ e] D(1) [OF x] by blast
    then show ?thesis by simp
  qed
  then show "owned as' sv s'"
    using I ds by (intro owned_from [OF F _ a subset_refl]) (auto simp: espconn_inv_def)
  show "conn_count s as' p \<le> allowed s sv p" if "p \<noteq> NULL" for p
    using I that by (auto simp: espconn_inv_def within_limits_def intro: le_trans [OF c])
qed

lemma lists_ok_same: "same s s' \<Longrightarrow> lists_ok as sv s \<Longrightarrow> lists_ok as sv s'"
proof -
  assume S: "same s s'" and L: "lists_ok as sv s"
  have "dom (ec_msgs s') = dom (ec_msgs s)" using same_dom(1) [OF S] by (auto simp: dom_def)
  with L same_path [OF S] S show ?thesis by (auto simp: lists_ok_def same_def)
qed

lemma descs_from_same:
  assumes S: "same s s'"
  shows "descs_from s s'"
  unfolding descs_from_def
proof (intro allI impI conjI)
  fix p e' assume e': "espconns s' p = Some e'"
  then obtain e where e: "espconns s p = Some e" using same_dom(2) [OF S, of p] by auto
  obtain f where "espconns s' p = Some f" "esp_shape f = esp_shape e" by (rule same_esp [OF S e])
  with e e' show "\<exists>e. espconns s p = Some e \<and> es_type e' = es_type e \<and> es_proto e' = es_proto e"
    by (auto simp: esp_shape_def)
qed (use same_dom(3,4) [OF S] in simp_all)

text \<open>An operation that only changes settings keeps the invariant.\<close>

lemma inv_held:
  assumes I: "espconn_inv as sv bl s" and H: "held Z s s'"
  shows "espconn_inv as sv bl s'"
proof -
  from H have S: "same s s'" and t: "rings s'" "pcb_lists (ec_lwip s')" by (simp_all add: held_def)
  have b: "ec_bufs s' = ec_bufs s" using S by (simp add: same_def)
  have "tables_ok s'" using I S t by (simp add: espconn_inv_def tables_ok_def same_def)
  then show ?thesis
    by (intro inv_shrink [OF I subset_refl _ same_kept [OF S, of _ UNIV] descs_from_same [OF S]])
      (use I b in \<open>simp_all add: espconn_inv_def lists_ok_same [OF S] queues_def\<close>)
qed

lemma inv_start: "espconn_inv as sv bl s \<Longrightarrow> \<forall>x \<in> Z. there (ec_lwip s) x \<Longrightarrow> held Z s s"
  by (simp add: espconn_inv_def tables_ok_def held_def)

end
