(* ===== verification/Espconn_Queues.thy ===== *)
theory Espconn_Queues
  imports Espconn_Invariant
begin

text \<open>
  Sending and acknowledging over TCP, under the invariant: what these change is the queue of one
  connection, and the queue stays well formed.
\<close>

section \<open>One connection changes\<close>

definition msg_key :: "espconn_msg \<Rightarrow> ptr \<times> ptr \<times> ptr \<times> u8 \<times> u8 \<times> ringbuf option" where
  "msg_key m = (ms_pnext m, ms_pespconn m, ms_preverse m, ms_espconn_mode m, ms_count_opt m, ms_readbuf m)"

definition only_conn :: "ptr \<Rightarrow> ec \<Rightarrow> ec \<Rightarrow> bool" where
  "only_conn a s s' \<longleftrightarrow> (\<forall>x. x \<noteq> a \<longrightarrow> ec_msgs s' x = ec_msgs s x)
     \<and> map_option msg_key (ec_msgs s' a) = map_option msg_key (ec_msgs s a)
     \<and> (\<forall>d. map_option esp_shape (espconns s' d) = map_option esp_shape (espconns s d))
     \<and> esp_tcps s' = esp_tcps s \<and> esp_udps s' = esp_udps s
     \<and> plink_active s' = plink_active s \<and> pserver_list s' = pserver_list s
     \<and> premot s' = premot s \<and> pktinfo s' = pktinfo s
     \<and> (pcb_lists (ec_lwip s) \<longrightarrow> pcb_lists (ec_lwip s'))"

lemma only_conn_refl [simp]: "only_conn a s s"
  by (simp add: only_conn_def)

lemma only_conn_trans: "only_conn a s s1 \<Longrightarrow> only_conn a s1 s2 \<Longrightarrow> only_conn a s s2"
  by (simp add: only_conn_def)

lemma only_conn_some: "only_conn a s s' \<Longrightarrow> ec_msgs s' a = None \<longleftrightarrow> ec_msgs s a = None"
  unfolding only_conn_def by (cases "ec_msgs s a"; cases "ec_msgs s' a") auto

lemma only_conn_lwip:
  assumes "calm E"
  shows "only_conn a s (ec_do E c s)" "only_conn a s (snd (ec_ask E c s))"
  using calmD(2) [OF assms] by (simp_all add: only_conn_def ec_do_def ec_ask_def lists_stay_def)

lemma only_conn_user: "calm E \<Longrightarrow> only_conn a s (ec_user E c s)"
  by (simp add: only_conn_def ec_user_quiet [OF calmD(1)])

lemma upd_commonE:
  assumes "upd_common a f s = Some s'"
  obtains m where "a \<noteq> NULL" "ec_msgs s a = Some m"
    "s' = s\<lparr>ec_msgs := (ec_msgs s)(a \<mapsto> m\<lparr>ms_pcommon := f (ms_pcommon m)\<rparr>)\<rparr>"
  using assms by (cases "ec_msgs s a") (auto simp: upd_common_def upd_msg_def deref_def split: if_splits)

lemma upd_espconnE:
  assumes "upd_espconn d f s = Some s'"
  obtains e where "d \<noteq> NULL" "espconns s d = Some e" "s' = s\<lparr>espconns := (espconns s)(d \<mapsto> f e)\<rparr>"
  using assms by (cases "espconns s d") (auto simp: upd_espconn_def deref_def split: if_splits)

lemma only_conn_common: "upd_common a f s = Some s' \<Longrightarrow> only_conn a s s'"
  by (erule upd_commonE) (simp add: only_conn_def msg_key_def)

lemma only_conn_esp:
  assumes "upd_espconn d f s = Some s'" "\<And>e. es_type (f e) = es_type e" "\<And>e. es_proto (f e) = es_proto e"
  shows "only_conn a s s'"
  using assms(1) by (rule upd_espconnE) (simp add: only_conn_def esp_shape_def assms(2,3))

section \<open>Queues\<close>

text \<open>The queue with its first waiting buffer \<open>t\<close>.\<close>

definition parted :: "(ptr \<rightharpoonup> espconn_buf) \<Rightarrow> espconn_msg \<Rightarrow> ptr list \<Rightarrow> ptr \<Rightarrow> espconn_buf
    \<Rightarrow> ptr list \<Rightarrow> ptr list \<Rightarrow> bool" where
  "parted h m bs t b us ts \<longleftrightarrow> bs = us @ t # ts \<and> path eb_pnext h (eb_pnext b) ts NULL
     \<and> (\<forall>a \<in> set us. \<forall>d. h a = Some d \<longrightarrow> eb_unsent d = 0)
     \<and> (\<forall>a \<in> set ts. \<forall>d. h a = Some d \<longrightarrow> eb_punsent d \<noteq> NULL \<and> eb_unsent d = eb_len d)
     \<and> t \<notin> set us \<and> t \<notin> set ts \<and> eb_punsent b \<noteq> NULL
     \<and> path eb_pnext h (cp_pbuf (ms_pcommon m)) bs NULL \<and> acked_first h bs
     \<and> (\<forall>a \<in> set bs. \<forall>d. h a = Some d \<longrightarrow> eb_len d \<noteq> 0 \<and> eb_unsent d \<le> eb_len d)"

lemma queue_split:
  assumes "queue_ok h m bs" "cp_ptail (ms_pcommon m) = t" "t \<noteq> NULL" "h t = Some b"
  obtains us ts where "parted h m bs t b us ts"
proof -
  from assms(1) obtain us tt where u: "bs = us @ tt" "path eb_pnext h (cp_ptail (ms_pcommon m)) tt NULL"
    "\<forall>a \<in> set us. \<forall>b. h a = Some b \<longrightarrow> eb_unsent b = 0"
    "\<forall>a \<in> set tt. \<forall>b. h a = Some b \<longrightarrow> eb_punsent b \<noteq> NULL"
    "\<forall>a \<in> set (tl tt). \<forall>b. h a = Some b \<longrightarrow> eb_unsent b = eb_len b"
    "path eb_pnext h (cp_pbuf (ms_pcommon m)) bs NULL" "acked_first h bs"
    "\<forall>a \<in> set bs. \<forall>b. h a = Some b \<longrightarrow> eb_len b \<noteq> 0 \<and> eb_unsent b \<le> eb_len b"
    unfolding queue_ok_def by blast
  from u(2) assms(2-4) obtain ts where tt: "tt = t # ts" "path eb_pnext h (eb_pnext b) ts NULL"
    by (cases tt) (auto simp: deref_def)
  have "distinct bs" by (rule path_distinct [OF u(6)])
  with u tt assms(4) have "parted h m bs t b us ts" by (simp add: parted_def)
  then show thesis by (rule that)
qed

lemma acked_first_upd:
  "acked_first h bs \<Longrightarrow> h t = Some b \<Longrightarrow> eb_tot_len b' = eb_tot_len b \<Longrightarrow> acked_first (h(t \<mapsto> b')) bs"
  unfolding acked_first_def by simp

lemma partedD:
  assumes "parted h m bs t b us ts"
  shows "bs = us @ t # ts" "path eb_pnext h (eb_pnext b) ts NULL"
    "a \<in> set us \<Longrightarrow> h a = Some d \<Longrightarrow> eb_unsent d = 0"
    "a \<in> set ts \<Longrightarrow> h a = Some d \<Longrightarrow> eb_punsent d \<noteq> NULL"
    "a \<in> set ts \<Longrightarrow> h a = Some d \<Longrightarrow> eb_unsent d = eb_len d"
    "t \<notin> set us" "t \<notin> set ts" "eb_punsent b \<noteq> NULL"
    "path eb_pnext h (cp_pbuf (ms_pcommon m)) bs NULL" "acked_first h bs"
    "a \<in> set bs \<Longrightarrow> h a = Some d \<Longrightarrow> eb_len d \<noteq> 0 \<and> eb_unsent d \<le> eb_len d"
  using assms unfolding parted_def by blast+

lemma queueI:
  assumes "bs = us @ ts" "path eb_pnext h (cp_pbuf (ms_pcommon m)) bs NULL"
    "path eb_pnext h (cp_ptail (ms_pcommon m)) ts NULL" "acked_first h bs"
    "\<And>a d. a \<in> set us \<Longrightarrow> h a = Some d \<Longrightarrow> eb_unsent d = 0"
    "\<And>a d. a \<in> set ts \<Longrightarrow> h a = Some d \<Longrightarrow> eb_punsent d \<noteq> NULL"
    "\<And>a d. a \<in> set (tl ts) \<Longrightarrow> h a = Some d \<Longrightarrow> eb_unsent d = eb_len d"
    "\<And>a d. a \<in> set bs \<Longrightarrow> h a = Some d \<Longrightarrow> eb_len d \<noteq> 0 \<and> eb_unsent d \<le> eb_len d"
  shows "queue_ok h m bs"
  unfolding queue_ok_def
  by (intro conjI exI [of _ us] exI [of _ ts] ballI allI impI) (simp_all add: assms(1,3), use assms in simp_all)

text \<open>Bytes of the first waiting buffer are handed over, and a buffer is passed.\<close>

lemma queue_sent:
  assumes Q: "queue_ok h m bs" and t: "cp_ptail (ms_pcommon m) = t" "t \<noteq> NULL" "h t = Some b"
    and c: "p \<noteq> NULL" "u \<le> eb_unsent b"
  shows "queue_ok (h(t \<mapsto> b\<lparr>eb_punsent := p, eb_unsent := u\<rparr>)) m bs"
proof -
  let ?h = "h(t \<mapsto> b\<lparr>eb_punsent := p, eb_unsent := u\<rparr>)"
  obtain us ts where q: "parted h m bs t b us ts" by (rule queue_split [OF Q t])
  have px: "path eb_pnext ?h x as r" if "path eb_pnext h x as r" for x as r
    using that by (rule path_same_next) (use t in simp)
  note q = partedD [OF q]
  show ?thesis
  proof (rule queueI [OF q(1)])
    show "path eb_pnext ?h (cp_pbuf (ms_pcommon m)) bs NULL" by (rule px [OF q(9)])
    show "path eb_pnext ?h (cp_ptail (ms_pcommon m)) (t # ts) NULL" using px [OF q(2)] t by (simp add: deref_def)
    show "acked_first ?h bs" by (rule acked_first_upd [OF q(10) t(3)]) simp
    show "eb_len d \<noteq> 0 \<and> eb_unsent d \<le> eb_len d" if "a \<in> set bs" "?h a = Some d" for a d
    proof (cases "a = t")
      case True
      have "eb_len b \<noteq> 0 \<and> eb_unsent b \<le> eb_len b" by (rule q(11) [OF _ t(3)]) (simp add: q(1))
      with True that c(2) show ?thesis by auto
    next
      case False
      with that q(11) [of a d] show ?thesis by simp
    qed
    show "eb_unsent d = 0" if "a \<in> set us" "?h a = Some d" for a d
      using that q(3) [of a d] q(6) by (cases "a = t") simp_all
    show "eb_punsent d \<noteq> NULL" if "a \<in> set (t # ts)" "?h a = Some d" for a d
      using that q(4) [of a d] c(1) by (cases "a = t") auto
    show "eb_unsent d = eb_len d" if "a \<in> set (tl (t # ts))" "?h a = Some d" for a d
      using that q(5) [of a d] q(7) by (cases "a = t") simp_all
  qed
qed

lemma queue_passed:
  assumes Q: "queue_ok h m bs" and t: "cp_ptail (ms_pcommon m) = t" "t \<noteq> NULL" "h t = Some b"
    and c: "eb_unsent b = 0" and m': "cp_pbuf (ms_pcommon m') = cp_pbuf (ms_pcommon m)"
      "cp_ptail (ms_pcommon m') = eb_pnext b"
  shows "queue_ok h m' bs"
proof -
  obtain us ts where q: "parted h m bs t b us ts" by (rule queue_split [OF Q t])
  note q = partedD [OF q]
  have "bs = (us @ [t]) @ ts" using q(1) by simp
  then show ?thesis
  proof (rule queueI)
    show "path eb_pnext h (cp_pbuf (ms_pcommon m')) bs NULL" "path eb_pnext h (cp_ptail (ms_pcommon m')) ts NULL"
      "acked_first h bs" unfolding m' by (rule q)+
    show "eb_unsent d = eb_len d" if "a \<in> set (tl ts)" "h a = Some d" for a d
      using q(5) [OF _ that(2)] that(1) by (cases ts) simp_all
    show "eb_unsent d = 0" if "a \<in> set (us @ [t])" "h a = Some d" for a d
      using that q(3) [of a d] c t(3) by auto
  qed (rule q(4) q(11); assumption)+
qed

lemma queue_settings:
  assumes "queue_ok h m bs" "cp_pbuf (ms_pcommon m') = cp_pbuf (ms_pcommon m)"
    "cp_ptail (ms_pcommon m') = cp_ptail (ms_pcommon m)"
  shows "queue_ok h m' bs"
  by (rule queue_ok_cong [OF assms(2,3) _ assms(1)]) simp

section \<open>Sending\<close>

definition requeued :: "ptr \<Rightarrow> ptr list \<Rightarrow> ec \<Rightarrow> ec \<Rightarrow> bool" where
  "requeued a bs s s' \<longleftrightarrow> only_conn a s s' \<and> dom (ec_bufs s') = dom (ec_bufs s)
     \<and> (\<forall>y. y \<notin> set bs \<longrightarrow> ec_bufs s' y = ec_bufs s y)
     \<and> (queue_ok (ec_bufs s) (the (ec_msgs s a)) bs \<longrightarrow> queue_ok (ec_bufs s') (the (ec_msgs s' a)) bs)"

lemma requeued_refl [simp]: "requeued a bs s s"
  by (simp add: requeued_def)

lemma requeued_trans: "requeued a bs s s1 \<Longrightarrow> requeued a bs s1 s2 \<Longrightarrow> requeued a bs s s2"
  by (auto simp: requeued_def intro: only_conn_trans)

lemma requeued_lwip:
  assumes "calm E"
  shows "requeued a bs s (ec_do E c s)" "requeued a bs s (snd (ec_ask E c s))"
  using only_conn_lwip [OF assms] by (simp_all add: requeued_def ec_do_def ec_ask_def)

lemma requeued_common:
  assumes u: "upd_common a f s = Some s'" and f: "\<And>c. cp_pbuf (f c) = cp_pbuf c" "\<And>c. cp_ptail (f c) = cp_ptail c"
  shows "requeued a bs s s'"
proof -
  from u obtain m where m: "ec_msgs s a = Some m"
    "s' = s\<lparr>ec_msgs := (ec_msgs s)(a \<mapsto> m\<lparr>ms_pcommon := f (ms_pcommon m)\<rparr>)\<rparr>"
    by (rule upd_commonE)
  with only_conn_common [OF u] f show ?thesis by (auto simp: requeued_def intro: queue_settings)
qed

lemmas write_loop_induct = tcp_write_loop.raw_induct [rotated, consumes 1, case_names step]
lemmas write_all_induct = tcp_write_all.raw_induct [rotated, consumes 1, case_names step]
lemmas finish_loop_induct = tcp_finish_loop.raw_induct [rotated, consumes 1, case_names step]

lemma write_loop_requeued:
  "tcp_write_loop E pcb p fl len s = Some (err, n, s') \<Longrightarrow> calm E
    \<Longrightarrow> requeued a bs s s' \<and> ec_msgs s' = ec_msgs s \<and> ec_bufs s' = ec_bufs s"
proof (induction E pcb p fl len s "(err, n, s')" rule: write_loop_induct)
  case (step loop E pcb p fl len s)
  obtain e s1 where s1: "ec_ask E (Tcp_write pcb p len fl) s = (e, s1)" by fastforce
  then have f: "requeued a bs s s1" "ec_msgs s1 = ec_msgs s" "ec_bufs s1 = ec_bufs s"
    using requeued_lwip(2) [OF step.prems, of a bs s "Tcp_write pcb p len fl"] by (simp, auto simp: ec_ask_def)
  have "s1 = s' \<or> (\<exists>len1. loop E pcb p fl len1 s1 = Some (err, n, s'))"
    using step.hyps(2) s1 by (simp add: Let_def split: if_splits) blast+
  with step.hyps(1) [OF _ step.prems] f show ?case by (auto intro: requeued_trans)
qed

text \<open>What one call of \<open>espconn_tcp_sent\<close> leaves alone: \<open>ptail\<close> too.\<close>

definition same_tail :: "ptr \<Rightarrow> ec \<Rightarrow> ec \<Rightarrow> bool" where
  "same_tail a s s' \<longleftrightarrow> (\<forall>m. ec_msgs s a = Some m \<longrightarrow> (\<exists>m'. ec_msgs s' a = Some m'
     \<and> cp_pbuf (ms_pcommon m') = cp_pbuf (ms_pcommon m) \<and> cp_ptail (ms_pcommon m') = cp_ptail (ms_pcommon m)))"

lemma same_tail_refl: "ec_msgs s' = ec_msgs s \<Longrightarrow> same_tail a s s'"
  by (simp add: same_tail_def)

lemma same_tail_trans: "same_tail a s s1 \<Longrightarrow> same_tail a s1 s2 \<Longrightarrow> same_tail a s s2"
  by (fastforce simp: same_tail_def)

text \<open>What holds of a result when there is one: a rule for every construct, as for \<open>returns\<close>.\<close>

definition yields :: "'a option \<Rightarrow> ('a \<Rightarrow> bool) \<Rightarrow> bool" where
  "yields r P \<longleftrightarrow> (\<forall>x. r = Some x \<longrightarrow> P x)"

lemma yieldsD: "yields r P \<Longrightarrow> r = Some x \<Longrightarrow> P x"
  by (simp add: yields_def)

lemma yields_Some: "P x \<Longrightarrow> yields (Some x) P"
  by (simp add: yields_def)

lemma yields_if: "(b \<Longrightarrow> yields x P) \<Longrightarrow> (\<not> b \<Longrightarrow> yields y P) \<Longrightarrow> yields (if b then x else y) P"
  by simp

lemma yields_bind: "yields r Q \<Longrightarrow> (\<And>x. Q x \<Longrightarrow> yields (f x) P) \<Longrightarrow> yields (r \<bind> f) P"
  by (cases r) (simp_all add: yields_def)

lemma yields_deref: "(\<And>x. a \<noteq> NULL \<Longrightarrow> h a = Some x \<Longrightarrow> yields (f x) P) \<Longrightarrow> yields (deref h a \<bind> f) P"
  by (cases "h a") (auto simp: deref_def yields_def)

lemma yields_common:
  "(\<And>s1. upd_common a g s = Some s1 \<Longrightarrow> yields (f s1) P) \<Longrightarrow> yields (upd_common a g s \<bind> f) P"
  by (cases "upd_common a g s") (simp_all add: yields_def)

lemma yields_ask: "(\<And>err x. x = snd (ec_ask E c s) \<Longrightarrow> yields (f err x) P) \<Longrightarrow> yields (case ec_ask E c s of (err, x) \<Rightarrow> f err x) P"
  by (cases "ec_ask E c s") simp

lemma yields_bind3:
  "yields r (\<lambda>(_, _, x). Q x) \<Longrightarrow> (\<And>e n x. Q x \<Longrightarrow> yields (f e n x) P) \<Longrightarrow> yields (r \<bind> (\<lambda>(e, n, x). f e n x)) P"
  by (erule yields_bind) auto

lemma yields_bind2:
  "yields r (\<lambda>(_, x). Q x) \<Longrightarrow> (\<And>e x. Q x \<Longrightarrow> yields (f e x) P) \<Longrightarrow> yields (r \<bind> (\<lambda>(e, x). f e x)) P"
  by (erule yields_bind) auto

lemma yields_Some2: "P x \<Longrightarrow> yields (Some (e, x)) (\<lambda>(_, x). P x)"
  by (simp add: yields_def)

lemma sent_only:
  assumes E: "calm E"
  shows "yields (espconn_tcp_sent E arg p len s) (\<lambda>(_, x). only_conn arg s x \<and> same_tail arg s x)"
proof -
  define P where "P x \<longleftrightarrow> only_conn arg s x \<and> same_tail arg s x" for x
  have s0: "P s" by (simp add: P_def same_tail_refl)
  have dw: "P (ec_do E c x)" if "P x" for c x
    using that only_conn_trans [OF _ only_conn_lwip(1) [OF E]] by (auto simp: P_def same_tail_def ec_do_def)
  have aw: "yields (case ec_ask E c x of (err, y) \<Rightarrow> f err y) Q"
    if "P x" "\<And>err y. P y \<Longrightarrow> yields (f err y) Q" for c x Q and f :: "err_t \<Rightarrow> ec \<Rightarrow> (err_t \<times> ec) option"
  proof -
    have "P (snd (ec_ask E c x))"
      using that(1) only_conn_trans [OF _ only_conn_lwip(2) [OF E]] by (auto simp: P_def same_tail_def ec_ask_def)
    with that(2) show ?thesis by (cases "ec_ask E c x") simp
  qed
  have bf: "P (x\<lparr>ec_bufs := h\<rparr>)" if "P x" for x h
    using that by (simp add: P_def only_conn_def same_tail_def)
  have cm: "yields (upd_common arg (\<lambda>c. c\<lparr>cp_write_flag := True\<rparr>) x) P" if "P x" for x
    unfolding yields_def
  proof (intro allI impI)
    fix y assume u: "upd_common arg (\<lambda>c. c\<lparr>cp_write_flag := True\<rparr>) x = Some y"
    then have "same_tail arg x y" by (auto simp: same_tail_def elim!: upd_commonE)
    with that only_conn_common [OF u] show "P y" unfolding P_def by (blast intro: only_conn_trans same_tail_trans)
  qed
  have wl: "yields (tcp_write_loop E q p fl l s) (\<lambda>(_, _, x). P x)" for q fl l
    using write_loop_requeued [OF _ E, of q p fl l s _ _ _ arg "[]"]
    by (auto simp: P_def yields_def requeued_def same_tail_refl)
  have "yields (espconn_tcp_sent E arg p len s) (\<lambda>(_, x). P x)"
    unfolding espconn_tcp_sent_def Let_def
    by (intro yields_if yields_deref yields_bind3 [OF wl] yields_Some2 yields_bind [where Q = P] aw dw bf cm s0
        yields_Some; assumption)
  then show ?thesis by (simp add: P_def)
qed

text \<open>\<open>tail_new\<close>: the buffer that waits first at the end had bytes to send at the beginning.\<close>

definition tail_new :: "ptr \<Rightarrow> ec \<Rightarrow> ec \<Rightarrow> bool" where
  "tail_new arg s s' \<longleftrightarrow> (\<forall>m. ec_msgs s' arg = Some m \<longrightarrow> cp_ptail (ms_pcommon m) \<noteq> NULL
     \<longrightarrow> (\<exists>b. ec_bufs s (cp_ptail (ms_pcommon m)) = Some b \<and> eb_unsent b \<noteq> 0))"

text \<open>One buffer is passed, and one call of \<open>espconn_tcp_sent\<close>.\<close>

lemma pass_requeued:
  assumes S: "sending arg pcb (t # ts) s" and t: "ec_bufs s t = Some b" "eb_unsent b = 0"
    and u: "upd_common arg (\<lambda>c. c\<lparr>cp_ptail := eb_pnext b\<rparr>) s = Some s1"
  shows "requeued arg bs s s1" "ec_bufs s1 = ec_bufs s" "room pcb s1 = room pcb s"
proof -
  obtain m where m: "ec_msgs s arg = Some m"
    "s1 = s\<lparr>ec_msgs := (ec_msgs s)(arg \<mapsto> m\<lparr>ms_pcommon := (ms_pcommon m)\<lparr>cp_ptail := eb_pnext b\<rparr>\<rparr>)\<rparr>"
    by (rule upd_commonE [OF u]) simp
  have h: "cp_ptail (ms_pcommon m) = t" "t \<noteq> NULL" using S m(1) by (auto simp: sending_def deref_def split: if_splits)
  have "queue_ok (ec_bufs s) (the (ec_msgs s1 arg)) bs" if "queue_ok (ec_bufs s) m bs"
    by (rule queue_passed [OF that h t]) (simp_all add: m(2))
  with m only_conn_common [OF u] show "requeued arg bs s s1" by (simp add: requeued_def)
  show "ec_bufs s1 = ec_bufs s" "room pcb s1 = room pcb s" by (simp_all add: m(2) room_def)
qed

lemma sent_requeued:
  assumes E: "calm E" "tcp_stack_ok E" and S: "sending arg pcb (t # ts) s" and t: "ec_bufs s t = Some b0" "eb_unsent b0 \<noteq> 0"
    and r: "room pcb s \<noteq> 0" and run: "espconn_tcp_sent E arg (eb_punsent b0) (eb_unsent b0) s = Some (err, s1)"
    and bs: "t \<in> set bs"
  shows "requeued arg bs s s1 \<and> sending arg pcb (t # ts) s1 \<and> same_tail arg s s1
    \<and> (\<forall>x. x \<noteq> t \<longrightarrow> ec_bufs s1 x = ec_bufs s x)"
proof -
  obtain b1 cs where b1: "ec_bufs s1 = (ec_bufs s)(t \<mapsto> b1)" "accepted cs @ waiting1 b1 = waiting1 b0"
    "only_sends s s1" "sending arg pcb (t # ts) s1"
    using sent_ok [OF E(2) S t r] run by auto
  have o: "only_conn arg s s1" "same_tail arg s s1" using yieldsD [OF sent_only [OF E(1)] run] by simp_all
  from S obtain m where m: "ec_msgs s arg = Some m" "cp_ptail (ms_pcommon m) = t" "t \<noteq> NULL"
    by (auto simp: sending_def deref_def split: if_splits)
  obtain m1 where m1: "ec_msgs s1 arg = Some m1" "cp_pbuf (ms_pcommon m1) = cp_pbuf (ms_pcommon m)"
    "cp_ptail (ms_pcommon m1) = cp_ptail (ms_pcommon m)" using o(2) m(1) by (auto simp: same_tail_def)
  have "still_buf b1 = still_buf b0"
    using b1(1,3) t(1) unfolding only_sends_def by (auto dest: spec [where x = t])
  then have e: "b1 = b0\<lparr>eb_punsent := eb_punsent b1, eb_unsent := eb_unsent b1\<rparr>"
    by (cases b0; cases b1) (simp add: still_buf_def)
  have "eb_punsent b1 \<noteq> NULL" using b1(1,4) by (auto simp: sending_def)
  moreover have "eb_unsent b1 \<le> eb_unsent b0"
    using arg_cong [OF b1(2), of length] by (simp add: waiting1_def word_le_nat_alt)
  ultimately have "queue_ok (ec_bufs s1) m bs" if "queue_ok (ec_bufs s) m bs"
    using queue_sent [OF that m(2,3) t(1), of "eb_punsent b1" "eb_unsent b1"] e b1(1) by simp
  then have "queue_ok (ec_bufs s1) m1 bs" if "queue_ok (ec_bufs s) m bs"
    using queue_settings [OF _ m1(2,3)] that by blast
  with o b1 bs m m1 t(1) show ?thesis by (auto simp: requeued_def)
qed

lemma write_all_requeued:
  "tcp_write_all E arg pcb err s = Some (e, s') \<Longrightarrow> calm E \<Longrightarrow> tcp_stack_ok E \<Longrightarrow> sending arg pcb ts s
    \<Longrightarrow> set ts \<subseteq> set bs
    \<Longrightarrow> requeued arg bs s s' \<and> (if room pcb s = 0 then s' = s else tail_new arg s s')"
proof (induction E arg pcb err s "(e, s')" arbitrary: ts rule: write_all_induct)
  case (step loop E arg pcb err s)
  from step.prems(3) obtain m b where m: "ec_msgs s arg = Some m" "arg \<noteq> NULL" "pcb \<noteq> NULL"
    "lw_tcp (ec_lwip s) pcb = Some b" "path eb_pnext (ec_bufs s) (cp_ptail (ms_pcommon m)) ts NULL"
    by (auto simp: sending_def)
  then have rm: "room pcb s = tp_snd_buf b" by (simp add: room_def)
  note run = step.hyps(2)
  show ?case
  proof (cases "tp_snd_buf b = 0 \<or> cp_ptail (ms_pcommon m) = NULL")
    case True
    with run m have "s' = s" by (auto simp: deref_def Let_def split: if_splits)
    with True m rm show ?thesis by (auto simp: tail_new_def)
  next
    case False
    then obtain t us where ts: "ts = t # us" "cp_ptail (ms_pcommon m) = t" "t \<noteq> NULL"
      using m(5) by (cases ts) auto
    have S: "sending arg pcb (t # us) s" using step.prems(3) ts(1) by simp
    from sendingD(1) [OF S] obtain d where d: "ec_bufs s t = Some d" by blast
    show ?thesis
    proof (cases "eb_unsent d = 0")
      case True
      obtain s1 where s1: "upd_common arg (\<lambda>c. c\<lparr>cp_ptail := eb_pnext d\<rparr>) s = Some s1" "sending arg pcb us s1"
        using next_buffer [OF S d] by auto
      note p = pass_requeued [OF S d True s1(1)]
      have r: "loop E arg pcb err s1 = Some (e, s')"
        using run m False ts d True s1(1) by (simp add: deref_def)
      from step.hyps(1) [OF r step.prems(1,2) s1(2)] step.prems(3,4) ts p rm False show ?thesis
        by (auto intro: requeued_trans simp: tail_new_def)
    next
      case unsent: False
      obtain e1 s1 where s1: "espconn_tcp_sent E arg (eb_punsent d) (eb_unsent d) s = Some (e1, s1)"
        using run m False ts d unsent
        by (cases "espconn_tcp_sent E arg (eb_punsent d) (eb_unsent d) s") (auto simp: deref_def)
      have q: "requeued arg bs s s1" "sending arg pcb (t # us) s1" "same_tail arg s s1"
        "\<forall>x. x \<noteq> t \<longrightarrow> ec_bufs s1 x = ec_bufs s x"
        using sent_requeued [OF step.prems(1,2) S d unsent _ s1, of bs] step.prems(4) ts rm False by auto
      have st: "tail_new arg s s1" using q(3) m(1) ts(2) d unsent by (auto simp: tail_new_def same_tail_def)
      show ?thesis
      proof (cases "e1 = git_ok (ee_errs E)")
        case False
        with run m \<open>\<not> (tp_snd_buf b = 0 \<or> cp_ptail (ms_pcommon m) = NULL)\<close> ts d unsent s1 have "s' = s1"
          by (simp add: deref_def)
        with q st rm \<open>\<not> (tp_snd_buf b = 0 \<or> cp_ptail (ms_pcommon m) = NULL)\<close> show ?thesis by simp
      next
        case True
        with run m False ts d unsent s1 have r: "loop E arg pcb e1 s1 = Some (e, s')"
          by (simp add: deref_def)
        have IH: "requeued arg bs s1 s'" "if room pcb s1 = 0 then s' = s1 else tail_new arg s1 s'"
          using step.hyps(1) [OF r step.prems(1,2) q(2)] step.prems(4) ts by auto
        have "tail_new arg s s'"
        proof (cases "room pcb s1 = 0")
          case True
          with IH(2) st show ?thesis by simp
        next
          case False
          then have "tail_new arg s1 s'" using IH(2) by simp
          with q(4) d unsent show ?thesis unfolding tail_new_def by metis
        qed
        with IH(1) q(1) rm \<open>\<not> (tp_snd_buf b = 0 \<or> cp_ptail (ms_pcommon m) = NULL)\<close> show ?thesis
          by (auto intro: requeued_trans)
      qed
    qed
  qed
qed

section \<open>The invariant with a new queue\<close>

lemma msg_keyE:
  assumes "only_conn a s s'" "ec_msgs s x = Some m"
  obtains m' where "ec_msgs s' x = Some m'" "msg_key m' = msg_key m"
proof (cases "x = a")
  case True
  have "map_option msg_key (ec_msgs s' a) = Some (msg_key m)" using assms True by (simp add: only_conn_def)
  with that True show thesis by auto
next
  case False
  with assms that show thesis by (simp add: only_conn_def)
qed

lemma only_conn_kept: "only_conn a s s' \<Longrightarrow> kept (- {a}) UNIV s s'"
  by (simp add: only_conn_def kept_def)

lemma only_conn_desc:
  assumes "only_conn a s s'" "ec_msgs s x \<noteq> None"
  shows "desc s' x = desc s x" "srv s' x = srv s x"
proof -
  obtain m where m: "ec_msgs s x = Some m" using assms(2) by blast
  obtain m' where "ec_msgs s' x = Some m'" "msg_key m' = msg_key m" by (rule msg_keyE [OF assms(1) m])
  with m show "desc s' x = desc s x" "srv s' x = srv s x" by (simp_all add: desc_def srv_def msg_key_def)
qed

lemma only_conn_esp_some:
  assumes "only_conn a s s'"
  shows "espconns s' d = None \<longleftrightarrow> espconns s d = None"
proof -
  have "map_option esp_shape (espconns s' d) = map_option esp_shape (espconns s d)"
    using assms by (simp add: only_conn_def)
  then show ?thesis by (auto dest: arg_cong [where f = "\<lambda>x. x = None"])
qed

lemma only_conn_descs:
  assumes o: "only_conn a s s'"
  shows "descs_from s s'"
  unfolding descs_from_def
proof (intro allI impI conjI)
  fix p e' assume e': "espconns s' p = Some e'"
  then obtain e where e: "espconns s p = Some e" using only_conn_esp_some [OF o, of p] by auto
  have "map_option esp_shape (espconns s' p) = map_option esp_shape (espconns s p)" using o by (simp add: only_conn_def)
  with e e' show "\<exists>e. espconns s p = Some e \<and> es_type e' = es_type e \<and> es_proto e' = es_proto e"
    by (simp add: esp_shape_def)
qed (use o in \<open>simp_all add: only_conn_def\<close>)

lemma only_conn_lists:
  assumes o: "only_conn a s s'" and L: "lists_ok as sv s"
  shows "lists_ok as sv s'"
proof -
  have n: "map_option ms_pnext (ec_msgs s' x) = map_option ms_pnext (ec_msgs s x)" for x
  proof (cases "ec_msgs s x")
    case None
    then have "ec_msgs s' x = None"
      using o only_conn_some [OF o] by (cases "x = a") (simp_all add: only_conn_def)
    with None show ?thesis by simp
  next
    case (Some m)
    obtain m' where "ec_msgs s' x = Some m'" "msg_key m' = msg_key m" by (rule msg_keyE [OF o Some])
    with Some show ?thesis by (simp add: msg_key_def)
  qed
  have "ec_msgs s' x = None \<longleftrightarrow> ec_msgs s x = None" for x
    using n [of x] by (cases "ec_msgs s x"; cases "ec_msgs s' x") simp_all
  then have "dom (ec_msgs s') = dom (ec_msgs s)" by (auto simp: dom_def)
  moreover have "path ms_pnext (ec_msgs s') p xs NULL" if "path ms_pnext (ec_msgs s) p xs NULL" for p xs
    using that by (rule path_same_next) (rule n)
  ultimately show ?thesis using L o by (simp add: lists_ok_def only_conn_def)
qed

lemma active_ok_queue:
  assumes o: "only_conn a s s'" and A: "active_ok s a" and T: "tcp_desc s (desc s a)"
  shows "active_ok s' a"
proof -
  note K = only_conn_kept [OF o]
  from A obtain m e where c: "conn_at s a m e" "es_type e \<noteq> ESPCONN_INVALID" "is_server m \<longleftrightarrow> ms_preverse m \<noteq> NULL"
    "is_server m \<longrightarrow> es_type e = ESPCONN_TCP \<and> tcp_desc s (ms_preverse m)" by (auto simp: active_ok_def)
  then have ma: "ec_msgs s a = Some m" by (simp add: conn_at_def)
  obtain m' where m': "ec_msgs s' a = Some m'" "msg_key m' = msg_key m" by (rule msg_keyE [OF o ma])
  obtain e' where e': "espconns s' (ms_pespconn m) = Some e'" "es_type e' = es_type e"
    by (rule kept_esp [OF K, of "ms_pespconn m" e]) (use c in \<open>auto simp: conn_at_def\<close>)
  have "es_type e = ESPCONN_TCP" using T c(1) by (simp add: tcp_desc_def conn_at_def desc_def)
  with c m' e' tcp_desc_kept [OF K, of "ms_preverse m"] show ?thesis
    unfolding active_ok_def by (intro exI [of _ m'] exI [of _ e']) (auto simp: conn_at_def msg_key_def is_server_def)
qed

lemma queues_new:
  assumes q0: "queues as bl s" and a: "a \<in> set as" and o: "only_conn a s s'"
    and Q: "queue_ok (ec_bufs s') (the (ec_msgs s' a)) bs'"
    and B: "\<And>y. y \<notin> set (bl a) \<union> set bs' \<Longrightarrow> ec_bufs s' y = ec_bufs s y"
    and D: "dom (ec_bufs s') = (dom (ec_bufs s) - set (bl a)) \<union> set bs'"
    and N: "set bs' \<inter> (dom (ec_bufs s) - set (bl a)) = {}"
  shows "queues as (bl(a := bs')) s'"
proof -
  have sep: "set (bl x) \<inter> (set (bl a) \<union> set bs') = {}" if "x \<in> set as" "x \<noteq> a" for x
  proof -
    have "set (bl x) \<inter> set (bl a) = {}" "set (bl x) \<subseteq> dom (ec_bufs s)"
      using that q0 a by (auto simp: queues_def)
    with N show ?thesis by blast
  qed
  have qx: "queue_ok (ec_bufs s') (the (ec_msgs s' x)) ((bl(a := bs')) x)" if x: "x \<in> set as" for x
  proof (cases "x = a")
    case False
    then have "ec_msgs s' x = ec_msgs s x" using o by (simp add: only_conn_def)
    then have "queue_ok (ec_bufs s') (the (ec_msgs s' x)) (bl x)"
      using q0 x sep [OF x False] B by (intro queue_ok_cong [of "the (ec_msgs s' x)" "the (ec_msgs s x)" _ _ "ec_bufs s"])
        (auto simp: queues_def)
    with False show ?thesis by simp
  qed (use Q in simp)
  have "dom (ec_bufs s') = (\<Union>x \<in> set as. set ((bl(a := bs')) x))"
  proof -
    have "(\<Union>x \<in> set as. set ((bl(a := bs')) x)) = (\<Union>x \<in> set as - {a}. set (bl x)) \<union> set bs'"
      using a by (auto split: if_splits)
    moreover have "dom (ec_bufs s) - set (bl a) = (\<Union>x \<in> set as - {a}. set (bl x))"
      using q0 a by (auto simp: queues_def)
    ultimately show ?thesis using D by simp
  qed
  moreover have "set ((bl(a := bs')) x) \<inter> set ((bl(a := bs')) y) = {}"
    if "x \<in> set as" "y \<in> set as" "x \<noteq> y" for x y
    using that q0 sep [of x] sep [of y] by (auto simp: queues_def)
  ultimately show "queues as (bl(a := bs')) s'" using qx unfolding queues_def by blast
qed

lemma rings_queue:
  assumes o: "only_conn a s s'" and R: "rings s"
  shows "rings s'"
  unfolding rings_def
proof (intro allI impI)
  fix x m' rb assume x: "ec_msgs s' x = Some m'" "ms_readbuf m' = Some rb"
  then obtain m where m: "ec_msgs s x = Some m" using only_conn_some [OF o] o
    by (cases "x = a"; cases "ec_msgs s x") (auto simp: only_conn_def)
  obtain m2 where "ec_msgs s' x = Some m2" "msg_key m2 = msg_key m" by (rule msg_keyE [OF o m])
  with x m R show "rb_ok rb" by (auto simp: msg_key_def rings_def)
qed

text \<open>The new queue \<open>bs'\<close> of \<open>a\<close> has none of the other connections' buffers.\<close>

lemma inv_queue:
  assumes I: "espconn_inv as sv bl s" and a: "a \<in> set as" and T: "tcp_desc s (desc s a)"
    and o: "only_conn a s s'" and Q: "queue_ok (ec_bufs s') (the (ec_msgs s' a)) bs'"
    and B: "\<And>y. y \<notin> set (bl a) \<union> set bs' \<Longrightarrow> ec_bufs s' y = ec_bufs s y"
    and D: "dom (ec_bufs s') = (dom (ec_bufs s) - set (bl a)) \<union> set bs'"
    and N: "set bs' \<inter> (dom (ec_bufs s) - set (bl a)) = {}"
  shows "espconn_inv as sv (bl(a := bs')) s'"
proof -
  have M: "ec_msgs s x \<noteq> None" if "x \<in> set as \<union> set sv" for x
    using I that by (auto simp: espconn_inv_def lists_ok_def)
  have na: "n \<noteq> a" if "n \<in> set sv" for n using that a I by (auto simp: espconn_inv_def lists_ok_def)
  note ds = only_conn_desc [OF o M]
  note K = only_conn_kept [OF o]
  have L: "lists_ok as sv s'" using I by (intro only_conn_lists [OF o]) (simp add: espconn_inv_def)
  have t: "typed s'" using I by (intro typed_from [OF only_conn_descs [OF o]]) (simp add: espconn_inv_def)
  have A: "active_ok s' x" if x: "x \<in> set as" for x
  proof (cases "x = a")
    case False
    with x I show ?thesis by (intro active_ok_kept [OF K]) (auto simp: espconn_inv_def)
  next
    case True
    with active_ok_queue [OF o _ T] I a show ?thesis by (simp add: espconn_inv_def)
  qed
  have S: "listen_ok s' n" if "n \<in> set sv" for n
    using that na I by (intro listen_ok_kept [OF K]) (auto simp: espconn_inv_def)
  have ow: "owned as sv s'"
    using I ds only_conn_esp_some [OF o]
    by (intro owned_from [OF only_conn_descs [OF o] _ subset_refl subset_refl])
      (auto simp: espconn_inv_def active_ok_def conn_at_def desc_def)
  have "conn_count s' as d = conn_count s as d" for d by (rule conn_count_cong) (use ds in simp)
  moreover have "allowed s' sv d = allowed s sv d" for d by (rule allowed_kept [OF K]) (use na M in auto)
  ultimately have W: "within_limits as sv s'" using I by (simp add: espconn_inv_def within_limits_def)
  have q0: "queues as bl s" using I by (simp add: espconn_inv_def)
  have Qs: "queues as (bl(a := bs')) s'" by (rule queues_new [OF q0 a o Q _ D N]) (rule B)
  have "rings s'" using I by (intro rings_queue [OF o]) (simp add: espconn_inv_def tables_ok_def)
  then have "tables_ok s'" using I o by (simp add: espconn_inv_def tables_ok_def only_conn_def)
  with L t A S ow W Qs show ?thesis by (simp add: espconn_inv_def)
qed

end
