(* ===== verification/Espconn_Handlers.thy ===== *)
theory Espconn_Handlers
  imports Espconn_Invariant
begin

text \<open>
  The callbacks of lwIP and the calls of the application that leave the structure of espconn
  alone: each returns, without a memory error, and changes only settings.
\<close>

section \<open>Steps on messages and descriptors\<close>

lemma inv_nodeE:
  assumes "espconn_inv as sv bl s" "n \<in> set as \<union> set sv"
  obtains m e where "conn_at s n m e"
  using assms by (auto simp: espconn_inv_def active_ok_def listen_ok_def)

text \<open>\<open>m\<close> is what became of the message at \<open>n\<close>.\<close>

definition like :: "ec \<Rightarrow> ptr \<Rightarrow> espconn_msg \<Rightarrow> bool" where
  "like s0 n m \<longleftrightarrow> (\<exists>m0. ec_msgs s0 n = Some m0 \<and> msg_shape m = msg_shape m0)"

lemma like_desc: "like s a m \<Longrightarrow> ms_pespconn m = desc s a"
  by (auto simp: like_def desc_def dest: msg_shape_sel(2))

lemma inv_dom: "espconn_inv as sv bl s \<Longrightarrow> ec_msgs s n = Some m \<Longrightarrow> n \<in> set as \<union> set sv"
  by (auto simp: espconn_inv_def lists_ok_def)

lemma likeE:
  assumes "espconn_inv as sv bl s0" "like s0 n m"
  obtains m0 e0 where "conn_at s0 n m0 e0" "msg_shape m = msg_shape m0"
proof -
  from assms(2) obtain m0 where m0: "ec_msgs s0 n = Some m0" "msg_shape m = msg_shape m0"
    by (auto simp: like_def)
  obtain m1 e0 where "conn_at s0 n m1 e0" by (rule inv_nodeE [OF assms(1) inv_dom [OF assms(1) m0(1)]])
  with m0 that show thesis by (auto simp: conn_at_def)
qed

lemma step_msg:
  assumes I: "espconn_inv as sv bl s0" and H: "held Z s0 s" and n: "n \<in> set as \<union> set sv"
    and f: "\<And>m. ec_msgs s n = Some m \<Longrightarrow> like s0 n m \<Longrightarrow> returns (f m) P"
  shows "returns (deref (ec_msgs s) n \<bind> f) P"
proof -
  obtain m e where "conn_at s0 n m e" by (rule inv_nodeE [OF I n])
  then have m: "ec_msgs s0 n = Some m" "n \<noteq> NULL" by (simp_all add: conn_at_def)
  show ?thesis
    by (rule returns_bind [OF held_msg [OF H m]]) (use m(1) in \<open>auto simp: like_def intro: f\<close>)
qed

lemma step_esp:
  assumes I: "espconn_inv as sv bl s0" and H: "held Z s0 s" and l: "like s0 n m"
    and f: "\<And>e. espconns s (ms_pespconn m) = Some e \<Longrightarrow> returns (f e) P"
  shows "returns (deref (espconns s) (ms_pespconn m) \<bind> f) P"
proof -
  obtain m0 e0 where c: "conn_at s0 n m0 e0" "msg_shape m = msg_shape m0" by (rule likeE [OF I l])
  have d: "ms_pespconn m = ms_pespconn m0" by (rule msg_shape_sel(2) [OF c(2)])
  have "espconns s0 (ms_pespconn m) = Some e0" "ms_pespconn m \<noteq> NULL"
    using c(1) by (simp_all add: d conn_at_def)
  from returns_bind [OF held_esp [OF H this]] f show ?thesis by blast
qed

lemma step_upd:
  assumes I: "espconn_inv as sv bl s0" and H: "held Z s0 s" and n: "n \<in> set as \<union> set sv"
    and "\<And>c. cp_pbuf (f c) = cp_pbuf c" "\<And>c. cp_ptail (f c) = cp_ptail c"
  shows "returns (upd_common n f s) (held Z s0)"
proof -
  obtain m e where "conn_at s0 n m e" by (rule inv_nodeE [OF I n])
  with assms(4,5) show ?thesis by (intro held_upd_common [OF H]) (simp_all add: conn_at_def)
qed

lemma step_upd_msg:
  assumes I: "espconn_inv as sv bl s0" and H: "held Z s0 s" and n: "n \<in> set as \<union> set sv"
    and "\<And>m. msg_shape (f m) = msg_shape m" "\<And>m. ms_readbuf (f m) = ms_readbuf m"
  shows "returns (upd_msg n f s) (held Z s0)"
proof -
  obtain m e where "conn_at s0 n m e" by (rule inv_nodeE [OF I n])
  then have "ec_msgs s0 n \<noteq> None" "n \<noteq> NULL" by (simp_all add: conn_at_def)
  from held_upd_msg [OF H this assms(4)] H assms(5) show ?thesis by (auto simp: held_def rings_def)
qed

lemma step_upd_ring:
  assumes I: "espconn_inv as sv bl s0" and H: "held Z s0 s" and n: "n \<in> set as \<union> set sv"
    and "rb_ok rb"
  shows "returns (upd_msg n (\<lambda>m. m\<lparr>ms_readbuf := Some rb\<rparr>) s) (held Z s0)"
proof -
  obtain m e where "conn_at s0 n m e" by (rule inv_nodeE [OF I n])
  then have c: "ec_msgs s0 n \<noteq> None" "n \<noteq> NULL" by (simp_all add: conn_at_def)
  show ?thesis by (rule held_upd_msg [OF H c]) (use assms(4) in \<open>auto simp: msg_shape_def msg_core_def\<close>)
qed

lemma step_upd_esp:
  assumes I: "espconn_inv as sv bl s0" and H: "held Z s0 s" and l: "like s0 n m"
    and "\<And>e. es_type (f e) = es_type e" "\<And>e. es_proto (f e) = es_proto e"
  shows "returns (upd_espconn (ms_pespconn m) f s) (held Z s0)"
proof -
  obtain m0 e0 where c: "conn_at s0 n m0 e0" "msg_shape m = msg_shape m0" by (rule likeE [OF I l])
  have d: "ms_pespconn m = ms_pespconn m0" by (rule msg_shape_sel(2) [OF c(2)])
  have "espconns s0 (ms_pespconn m) \<noteq> None" "ms_pespconn m \<noteq> NULL"
    using c(1) by (simp_all add: d conn_at_def)
  from held_upd_esp [OF H this assms(4,5)] show ?thesis .
qed

lemma step_desc:
  assumes H: "held Z s0 s" and d: "espconns s0 d \<noteq> None" "d \<noteq> NULL"
    and f: "\<And>e. espconns s d = Some e \<Longrightarrow> returns (f e) P"
  shows "returns (deref (espconns s) d \<bind> f) P"
proof -
  from d(1) obtain e0 where "espconns s0 d = Some e0" by blast
  from returns_bind [OF held_esp [OF H this d(2)]] f show ?thesis by blast
qed

lemma step_pcb:
  assumes H: "held Z s0 s" and p: "Tcp_block p \<in> Z" and f: "\<And>b. lw_tcp (ec_lwip s) p = Some b \<Longrightarrow> returns (f b) P"
  shows "returns (deref (lw_tcp (ec_lwip s)) p \<bind> f) P"
  by (rule returns_bind [OF held_pcb [OF H p]]) (rule f)

lemma step_find_server:
  assumes I: "espconn_inv as sv bl s0" and H: "held Z s0 s"
    and f: "\<And>n. n \<noteq> NULL \<Longrightarrow> n \<in> set sv \<Longrightarrow> Q (the (ec_msgs s n)) \<Longrightarrow> returns (f n) P"
    and "returns (f NULL) P"
  shows "returns (find_node ms_pnext (ec_msgs s) (\<lambda>_ m. Q m) (pserver_list s) \<bind> f) P"
proof -
  have "pserver_list s = pserver_list s0" using H by (simp add: held_def same_def)
  then have "path ms_pnext (ec_msgs s0) (pserver_list s) sv NULL" using I by (simp add: espconn_inv_def lists_ok_def)
  from returns_bind [OF held_find [OF H this]] assms(3,4) show ?thesis by metis
qed

lemma step_find_active:
  assumes I: "espconn_inv as sv bl s0" and H: "held Z s0 s"
    and f: "\<And>n. n \<noteq> NULL \<Longrightarrow> n \<in> set as \<Longrightarrow> Q (the (ec_msgs s n)) \<Longrightarrow> returns (f n) P"
    and "returns (f NULL) P"
  shows "returns (find_node ms_pnext (ec_msgs s) (\<lambda>_ m. Q m) (plink_active s) \<bind> f) P"
proof -
  have "plink_active s = plink_active s0" using H by (simp add: held_def same_def)
  then have "path ms_pnext (ec_msgs s0) (plink_active s) as NULL" using I by (simp add: espconn_inv_def lists_ok_def)
  from returns_bind [OF held_find [OF H this]] assms(3,4) show ?thesis by metis
qed

text \<open>Looking for the connection of a descriptor.\<close>

lemma listen_tcp:
  assumes I: "espconn_inv as sv bl s0" and H: "held Z s0 s" and n: "n \<in> set sv"
  shows "tcp_desc s (ms_pespconn (the (ec_msgs s n)))"
proof -
  have "espconn_inv as sv bl s" by (rule inv_held [OF I H])
  with n show ?thesis by (auto simp: espconn_inv_def listen_ok_def conn_at_def tcp_desc_def)
qed

lemma step_tcp_part:
  assumes "typed s" "espconns s d = Some e" "es_type e = ESPCONN_TCP" and f: "\<And>t. returns (f t) P"
  shows "returns (deref (esp_tcps s) (es_proto e) \<bind> f) P"
proof -
  obtain t where "es_proto e \<noteq> NULL" "esp_tcps s (es_proto e) = Some t" by (rule typedE [OF assms(1-3)])
  with f show ?thesis by (simp add: deref_def)
qed

lemma step_tcp_desc:
  assumes "tcp_desc s d" "\<And>e. espconns s d = Some e \<Longrightarrow> es_type e = ESPCONN_TCP \<Longrightarrow> returns (f e) P"
  shows "returns (deref (espconns s) d \<bind> f) P"
  using assms by (auto simp: tcp_desc_def deref_def)

lemma find_held:
  assumes I: "espconn_inv as sv bl s0" and H: "held Z s0 s"
  shows "returns (espconn_find_connection d s) (\<lambda>(v, n). v \<longrightarrow> n \<in> set as)"
proof -
  have T: "typed s" using inv_held [OF I H] by (simp add: espconn_inv_def)
  show ?thesis
    unfolding espconn_find_connection_def Let_def
    using H listen_tcp [OF I H] T
    by (intro returns_if step_find_active [OF I H] step_find_server [OF I H] step_tcp_desc step_tcp_part)
      (assumption | simp | metis)+
qed

lemma step_find:
  assumes I: "espconn_inv as sv bl s0" and H: "held Z s0 s"
    and f: "\<And>v n. (v \<Longrightarrow> n \<in> set as) \<Longrightarrow> returns (f v n) P"
  shows "returns (espconn_find_connection d s \<bind> (\<lambda>(v, n). f v n)) P"
  by (rule returns_bind [OF find_held [OF I H]]) (use f in auto)

lemmas steps = step_msg step_esp step_upd step_upd_esp step_find_server

section \<open>Closing and errors\<close>

lemma server_close_held:
  assumes E: "calm E" and I: "espconn_inv as sv bl s0" and a: "a \<in> set as" and H: "held {} s0 s"
  shows "returns (espconn_server_close E a pcb ty s) (held {} s0)"
  unfolding espconn_server_close_def Let_def
  using E H a
  by (intro flow held_flow [where Z = "{}" and ?s0.0 = s0] steps [OF I, where Z = "{}"])
    (assumption | simp)+

lemma client_close_held:
  assumes E: "calm E" and I: "espconn_inv as sv bl s0" and a: "a \<in> set as" and H: "held {} s0 s"
  shows "returns (espconn_client_close E a pcb ty s) (held {} s0)"
  unfolding espconn_client_close_def Let_def
  using E H a
  by (intro flow held_flow [where Z = "{}" and ?s0.0 = s0] steps [OF I, where Z = "{}"])
    (assumption | simp)+

lemmas closing = server_close_held client_close_held

lemma tcp_disconnect_held:
  assumes E: "calm E" and I: "espconn_inv as sv bl s0" and a: "a \<in> set as" and H: "held {} s0 s"
  shows "returns (espconn_tcp_disconnect E a ty s) (held {} s0)"
  unfolding espconn_tcp_disconnect_def Let_def
  using E H a
  by (intro flow held_flow [where Z = "{}" and ?s0.0 = s0] steps [OF I, where Z = "{}"] closing [OF E I])
    (assumption | simp)+

text \<open>The error callbacks read the control block when the connection was aborted.\<close>

lemma client_err_held:
  assumes E: "calm E" and I: "espconn_inv as sv bl s" and a: "a \<in> set as"
    and H: "held Z s s" and p: "err = git_abrt (ee_errs E) \<Longrightarrow> Tcp_block (cp_pcb (ms_pcommon (the (ec_msgs s a)))) \<in> Z"
  shows "returns (espconn_client_err E a err s) (held Z s)"
  unfolding espconn_client_err_def Let_def
  using E H a p
  by (intro flow held_flow [where Z = Z and ?s0.0 = s] steps [OF I, where Z = Z] step_pcb [where Z = Z]
      branch [where 'v = err_t])
    (assumption | simp)+

lemma server_err_held:
  assumes E: "calm E" and I: "espconn_inv as sv bl s" and a: "a \<in> set as"
    and H: "held Z s s" and p: "err = git_abrt (ee_errs E) \<Longrightarrow> Tcp_block (cp_pcb (ms_pcommon (the (ec_msgs s a)))) \<in> Z"
  shows "returns (esponn_server_err E a err s) (held Z s)"
  unfolding esponn_server_err_def Let_def
  using E H a p
  by (intro flow held_flow [where Z = Z and ?s0.0 = s] steps [OF I, where Z = Z] step_pcb [where Z = Z]
      branch [where 'v = err_t])
    (assumption | simp)+

section \<open>Polling\<close>

lemma server_poll_held:
  assumes E: "calm E" and I: "espconn_inv as sv bl s" and a: "a \<in> set as" and H: "held {Tcp_block pcb} s s"
  shows "returns (espconn_server_poll E a pcb s) (\<lambda>(_, s'). held {} s s')"
proof -
  obtain s1 where s1: "upd_common a (\<lambda>c. c\<lparr>cp_pcb := pcb\<rparr>) s = Some s1" "held {Tcp_block pcb} s s1"
    using step_upd [OF I H, of a "\<lambda>c. c\<lparr>cp_pcb := pcb\<rparr>"] a by (auto simp: returns_def)
  then obtain b where b: "deref (lw_tcp (ec_lwip s1)) pcb = Some b"
    using held_pcb [OF s1(2)] by (auto simp: returns_def)
  have "a \<noteq> NULL" using I a by (auto simp: espconn_inv_def active_ok_def conn_at_def)
  with s1(1) b show ?thesis
    unfolding espconn_server_poll_def Let_def
    using E H a held_mono [OF s1(2), of "{}"]
    by (simp only: if_False bind.bind_lunit, intro flow held_flow [where Z = "{}" and ?s0.0 = s]
        steps [OF I, where Z = "{}"] closing [OF E I])
      (assumption | simp)+
qed

section \<open>Holding received data\<close>

lemma recv_hold_held:
  assumes I: "espconn_inv as sv bl s0" and H: "held Z s0 s"
  shows "returns (espconn_recv_hold d s) (\<lambda>(_, s'). held Z s0 s')"
  unfolding espconn_recv_hold_def
  using H
  by (intro flow held_flow [where Z = Z and ?s0.0 = s0] steps [OF I, where Z = Z] step_find [OF I, where Z = Z]
      step_upd_msg [OF I, where Z = Z])
    (assumption | simp add: msg_shape_def msg_core_def)+

lemma recv_unhold_held:
  assumes E: "calm E" and I: "espconn_inv as sv bl s0" and H: "held Z s0 s"
    and d: "espconns s d \<noteq> None"
  shows "returns (espconn_recv_unhold E d s) (\<lambda>(_, s'). held Z s0 s')"
  unfolding espconn_recv_unhold_def Let_def
  using E H d same_dom(2) [of s0 s d]
  by (intro flow held_flow [where Z = Z and ?s0.0 = s0] steps [OF I, where Z = Z] step_find [OF I, where Z = Z]
      step_upd_msg [OF I, where Z = Z] step_desc [where Z = Z and d = d and ?s0.0 = s0])
    (assumption | simp add: msg_shape_def msg_core_def held_def)+

lemma new_ring_ok:
  assumes "calm E" "ringbuf_new a1 a2 (TCP_WND (ee_mss E)) = Some rb"
  shows "rb_ok rb"
  using assms(2) new_ok [OF calmD(3) [OF assms(1)]]
  by (auto simp: ringbuf_new_def Let_def split: if_splits)

lemma lock_recv_held:
  assumes E: "calm E" and I: "espconn_inv as sv bl s0" and H: "held Z s0 s" and a: "a \<in> set as"
  shows "returns (espconn_lock_recv E a1 a2 a s) (\<lambda>(_, s'). held Z s0 s')"
  unfolding espconn_lock_recv_def
  using H a new_ring_ok [OF E]
  by (intro flow held_flow [where Z = Z and ?s0.0 = s0] steps [OF I, where Z = Z] returns_option
      step_upd_ring [OF I, where Z = Z] recv_hold_held [OF I])
    (assumption | simp add: msg_shape_def msg_core_def)+

lemma unlock_recv_held:
  assumes E: "calm E" and I: "espconn_inv as sv bl s0" and H: "held Z s0 s" and a: "a \<in> set as"
  shows "returns (espconn_unlock_recv E a s) (\<lambda>(_, s'). held Z s0 s')"
  unfolding espconn_unlock_recv_def
  using H a
  by (intro flow held_flow [where Z = Z and ?s0.0 = s0] steps [OF I, where Z = Z] recv_unhold_held [OF E I])
    (assumption | simp)+

section \<open>Receiving\<close>

lemma ring_store_NULL [simp]: "ring_store_loop E stop a NULL s = Some s"
  by (subst ring_store_loop.simps) simp

lemma step_packet:
  assumes H: "held Z s0 s" and p: "Packet p \<in> Z" and f: "\<And>b. lw_pbufs (ec_lwip s) p = Some b \<Longrightarrow> returns (f b) P"
  shows "returns (deref (lw_pbufs (ec_lwip s)) p \<bind> f) P"
  by (rule returns_bind [OF held_packet [OF H p]]) (rule f)

text \<open>The stream ends: the connection is closed.\<close>

lemma stream_end_held:
  assumes E: "calm E" and I: "espconn_inv as sv bl s0" and a: "a \<in> set as" and H: "held {} s0 s"
    and cl: "\<And>x. held {} s0 x \<Longrightarrow> returns (close a pcb 0 x) (held {} s0)"
  shows "returns (stream_recv f close E a1 a2 a pcb NULL err s) (\<lambda>(_, s'). held {} s0 s')"
  unfolding stream_recv_def Let_def ring_store_NULL if_cancel bind.bind_lunit
  using E H a
  by (intro flow held_flow [where Z = "{}" and ?s0.0 = s0] steps [OF I, where Z = "{}"] lock_recv_held [OF E I] cl)
    (assumption | simp)+

text \<open>Data for an application that has registered a receive callback.\<close>

lemma recv_hold_espconns: "espconn_recv_hold d s = Some (err, s') \<Longrightarrow> espconns s' = espconns s"
  by (auto simp: espconn_recv_hold_def upd_msg_def split: if_splits bind_splits)

lemma lock_recv_espconns: "espconn_lock_recv E a1 a2 a s = Some (err, s') \<Longrightarrow> espconns s' = espconns s"
  by (auto simp: espconn_lock_recv_def upd_msg_def split: if_splits bind_splits option.splits
      dest!: recv_hold_espconns)

lemma step_lock_recv:
  assumes "calm E" "espconn_inv as sv bl s0" "held Z s0 s" "a \<in> set as"
    and "\<And>err x. held Z s0 x \<Longrightarrow> espconns x = espconns s \<Longrightarrow> returns (f err x) P"
  shows "returns (espconn_lock_recv E a1 a2 a s \<bind> (\<lambda>(err, x). f err x)) P"
proof -
  obtain err x where r: "espconn_lock_recv E a1 a2 a s = Some (err, x)" "held Z s0 x"
    using lock_recv_held [OF assms(1-4), of a1 a2] by (auto simp: returns_def)
  from assms(5) [OF r(2) lock_recv_espconns [OF r(1)]] r(1) show ?thesis by simp
qed

text \<open>Counting the bytes against the window, and delivering them.\<close>

lemma stream_count:
  assumes E: "calm E" and I: "espconn_inv as sv bl s" and a: "a \<in> set as"
    and H: "held {Tcp_block pcb, Packet p} s s1"
  shows "returns (do {
        seg \<leftarrow> deref (lw_pbufs (ec_lwip s1)) p;
        m \<leftarrow> deref (ec_msgs s1) a;
        if ms_recv_hold_flag m = 0 then Some (ec_do E (Tcp_recved pcb (sg_tot_len seg)) s1)
        else upd_msg a (\<lambda>m. m\<lparr>ms_recv_holded_buf_Len := ms_recv_holded_buf_Len m + sg_tot_len seg\<rparr>) s1 })
      (\<lambda>s2. held {Tcp_block pcb, Packet p} s s2 \<and> espconns s2 = espconns s1)" (is "returns ?r _")
proof -
  let ?Z = "{Tcp_block pcb, Packet p}"
  have "returns ?r (held ?Z s)"
    using E H a
    by (intro flow held_flow [where Z = ?Z and ?s0.0 = s] steps [OF I, where Z = ?Z]
        step_packet [where Z = ?Z and ?s0.0 = s] step_upd_msg [OF I])
      (assumption | simp add: msg_shape_def msg_core_def)+
  moreover have "espconns s2 = espconns s1" if "?r = Some s2" for s2
    using that by (auto simp: upd_msg_def split: if_splits bind_splits)
  ultimately show ?thesis by (auto simp: returns_def)
qed

lemma stream_deliver:
  assumes E: "calm E" and I: "espconn_inv as sv bl s" and a: "a \<in> set as"
    and H: "held {Tcp_block pcb, Packet p} s s2" and l: "like s a m"
    and f: "\<And>c. cp_pbuf (f c) = cp_pbuf c" "\<And>c. cp_ptail (f c) = cp_ptail c"
  shows "returns (do {
           s3 \<leftarrow> upd_common a f s2;
           seg \<leftarrow> deref (lw_pbufs (ec_lwip s3)) p;
           let (bs, s4) = ec_read E (Pbuf_copy_partial p (unat (sg_tot_len seg))) s3;
           let s5 = ec_do E (Free_pbuf p) s4;
           if bs \<noteq> []
           then do {
             s6 \<leftarrow> upd_espconn (ms_pespconn m) (\<lambda>e. e\<lparr>es_state := ESPCONN_READ\<rparr>) s5;
             s7 \<leftarrow> upd_common a (\<lambda>c. c\<lparr>cp_pcb := pcb\<rparr>) s6;
             let s8 = ec_user E (Recv_callback g (ms_pespconn m) (Some bs) (length bs)) s7;
             b \<leftarrow> deref (lw_tcp (ec_lwip s8)) pcb;
             if tp_state b = ESTABLISHED
             then upd_espconn (ms_pespconn m) (\<lambda>e. e\<lparr>es_state := ESPCONN_CONNECT\<rparr>) s8
             else Some s8 }
           else Some s5 }) (held {} s)"
proof (rule returns_mono [of _ "held {Tcp_block pcb} s"], rule returns_state [OF step_upd [OF I H _ f]], goal_cases)
  case (2 s3)
  show ?case
  proof (rule step_packet [OF 2], goal_cases)
    case (2 seg)
    have "held {Tcp_block pcb} s s3" using \<open>held _ s s3\<close> by (rule held_mono) simp
    then show ?case unfolding Let_def
      using E l a
      by (intro flow held_flow [where Z = "{Tcp_block pcb}" and ?s0.0 = s]
          steps [OF I, where Z = "{Tcp_block pcb}"] step_pcb [where Z = "{Tcp_block pcb}" and ?s0.0 = s])
        (assumption | simp)+
  qed simp
next
  case (3 x)
  then show ?case by (rule held_mono) simp
qed (use a in simp)

lemma stream_data_held:
  assumes E: "calm E" and I: "espconn_inv as sv bl s" and a: "a \<in> set as"
    and H: "held {Tcp_block pcb, Packet p} s s" and p: "p \<noteq> NULL"
    and cb: "\<And>e. espconns s (desc s a) = Some e \<Longrightarrow> es_recv_callback e \<noteq> NULL"
    and f: "\<And>c. cp_pbuf (f c) = cp_pbuf c" "\<And>c. cp_ptail (f c) = cp_ptail c"
  shows "returns (stream_recv f close E a1 a2 a pcb p err s) (\<lambda>(_, s'). held {} s s')"
  unfolding stream_recv_def
proof (rule step_lock_recv [OF E I held_do [OF E H] a], goal_cases)
  case (2 _ s1)
  then have h1: "held {Tcp_block pcb, Packet p} s s1" "espconns s1 = espconns s" by simp_all
  show ?case unfolding if_P [OF p]
  proof (rule returns_bind [OF stream_count [OF E I a h1(1)]], goal_cases)
    case (1 s2)
    then have h2: "held {Tcp_block pcb, Packet p} s s2" "espconns s2 = espconns s" using h1 by simp_all
    show ?case
    proof (rule step_msg [OF I h2(1)], goal_cases)
      case (2 m)
      note l = \<open>like s a m\<close>
      have m: "desc s a = ms_pespconn m" using like_desc [OF l] by simp
      have "held {} s s2" using h2(1) by (rule held_mono) simp
      then have choice: "returns (if es_recv_callback e \<noteq> NULL then if err = git_ok (ee_errs E) \<and> p \<noteq> NULL
          then x else Some s2 else y) (held {} s)"
        if "espconns s2 (ms_pespconn m) = Some e" "returns x (held {} s)" for e x y
        using cb [of e] that h2(2) m by simp
      show ?case using p
        by (intro step_esp [OF I h2(1) l] returns_state [where Z = "{}" and ?s0.0 = s] choice
            stream_deliver [OF E I a h2(1) l f]) (assumption | simp)+
    qed (use a in simp)
  qed
qed simp

text \<open>The end of the stream when the application fetches the data itself.\<close>

lemma manual_end_held:
  assumes E: "calm E" and I: "espconn_inv as sv bl s" and a: "a \<in> set as"
  shows "returns (espconn_tcp_recv E a1 a2 a pcb NULL err s) (\<lambda>(_, s'). held {} s s')"
proof -
  have H: "held {} s s" using I by (rule inv_start) simp
  have ring: "rb_ok rb" if "held {} s x" "ec_msgs x a = Some m"
    "(case ms_readbuf m of None \<Rightarrow> ringbuf_new a1 a2 (TCP_WND (ee_mss E)) | Some rb \<Rightarrow> Some rb) = Some rb" for x m rb
    using that new_ring_ok [OF E, of a1 a2 rb] by (auto simp: held_def rings_def split: option.splits)
  show ?thesis
    unfolding espconn_tcp_recv_def Let_def
    using E H a
    by (intro flow held_flow [where Z = "{}" and ?s0.0 = s] steps [OF I, where Z = "{}"] returns_option
        step_upd_ring [OF I, where Z = "{}"] closing [OF E I])
      (assumption | rule ring | simp)+
qed

section \<open>Settings\<close>

lemma set_buf_count_held:
  assumes I: "espconn_inv as sv bl s0" and H: "held Z s0 s" and d: "espconns s0 d \<noteq> None"
  shows "returns (espconn_tcp_set_buf_count E d num s) (\<lambda>(_, s'). held Z s0 s')"
  unfolding espconn_tcp_set_buf_count_def
  using H d
  by (intro flow held_flow [where Z = Z and ?s0.0 = s0] steps [OF I, where Z = Z]
      step_find_active [OF I, where Z = Z] step_desc [where Z = Z and d = d and ?s0.0 = s0])
    (assumption | simp)+

lemma regist_time_held:
  assumes I: "espconn_inv as sv bl s0" and H: "held Z s0 s"
  shows "returns (espconn_regist_time d interval flag s) (\<lambda>(_, s'). held Z s0 s')"
  unfolding espconn_regist_time_def
  using H
  by (intro flow held_flow [where Z = Z and ?s0.0 = s0] steps [OF I, where Z = Z] step_find [OF I, where Z = Z])
    (assumption | simp)+

lemma regist_sentcb_held:
  assumes H: "held Z s0 s" and d: "espconns s0 d \<noteq> None"
  shows "returns (espconn_regist_sentcb d cb s) (\<lambda>(_, s'). held Z s0 s')"
  unfolding espconn_regist_sentcb_def
  using H d by (intro flow held_flow [where Z = Z and ?s0.0 = s0] held_upd_esp) (assumption | simp)+

lemma regist_recvcb_held:
  assumes H: "held Z s0 s" and d: "espconns s0 d \<noteq> None"
  shows "returns (espconn_regist_recvcb d cb s) (\<lambda>(_, s'). held Z s0 s')"
  unfolding espconn_regist_recvcb_def
  using H d by (intro flow held_flow [where Z = Z and ?s0.0 = s0] held_upd_esp) (assumption | simp)+

text \<open>The options act on the control block of the connection that is found.\<close>

definition found_block :: "ec \<Rightarrow> ptr \<Rightarrow> bool" where
  "found_block s d \<longleftrightarrow> (\<forall>n. espconn_find_connection d s = Some (True, n)
     \<longrightarrow> there (ec_lwip s) (Tcp_block (cp_pcb (ms_pcommon (the (ec_msgs s n))))))"

lemma step_find_block:
  assumes I: "espconn_inv as sv bl s" and B: "found_block s d"
    and f: "\<And>n m. n \<in> set as \<Longrightarrow> ec_msgs s n = Some m \<Longrightarrow> held {Tcp_block (cp_pcb (ms_pcommon m))} s s
      \<Longrightarrow> returns (f True n) P" and "\<And>n. returns (f False n) P"
  shows "returns (espconn_find_connection d s \<bind> (\<lambda>(v, n). f v n)) P"
proof -
  have H: "held {} s s" using I by (rule inv_start) simp
  obtain v n where r: "espconn_find_connection d s = Some (v, n)" "v \<longrightarrow> n \<in> set as"
    using find_held [OF I H, of d] by (auto simp: returns_def)
  show ?thesis
  proof (cases v)
    case True
    with r obtain m e where c: "conn_at s n m e" using inv_nodeE [OF I, of n] by blast
    have "held {Tcp_block (cp_pcb (ms_pcommon m))} s s"
      using B r True c by (intro inv_start [OF I]) (simp add: found_block_def conn_at_def)
    with r c True f show ?thesis by (simp add: conn_at_def)
  qed (use assms(4) r in simp)
qed

lemma step_upd_read:
  assumes I: "espconn_inv as sv bl s0" and H: "held Z s0 s" and n: "n \<in> set as" "ec_msgs s n = Some m0"
    and u: "\<And>c. cp_pbuf (f c) = cp_pbuf c" "\<And>c. cp_ptail (f c) = cp_ptail c"
    and g: "\<And>s1 m. held Z s0 s1 \<Longrightarrow> ms_pcommon m = f (ms_pcommon m0) \<Longrightarrow> returns (g s1 m) P"
  shows "returns (upd_common n f s \<bind> (\<lambda>s1. deref (ec_msgs s1) n \<bind> g s1)) P"
proof -
  have nn: "n \<noteq> NULL" using I n by (auto simp: espconn_inv_def active_ok_def conn_at_def)
  have "returns (upd_common n f s) (held Z s0)" using step_upd [OF I H _ u] n(1) by blast
  with n(2) nn g show ?thesis
    by (auto simp: returns_def upd_common_def upd_msg_def deref_def)
qed

lemma set_opt_held:
  assumes I: "espconn_inv as sv bl s" and d: "espconns s d \<noteq> None" and B: "found_block s d"
  shows "returns (espconn_set_opt d opt s) (\<lambda>(_, s'). held {} s s')"
    and "returns (espconn_clear_opt d opt s) (\<lambda>(_, s'). held {} s s')"
proof -
  have H: "held {} s s" using I by (rule inv_start) simp
  have block: "returns (upd_common n f s \<bind> (\<lambda>s1. deref (ec_msgs s1) n \<bind> (\<lambda>m.
      if cp_pcb (ms_pcommon m) = NULL then Some (ESPCONN_OK, s1)
      else do { s2 \<leftarrow> (if P m then upd_pcb (cp_pcb (ms_pcommon m)) g s1 else Some s1);
                s3 \<leftarrow> (if Q m then upd_pcb (cp_pcb (ms_pcommon m)) h s2 else Some s2);
                Some (ESPCONN_OK, s3) }))) (\<lambda>(_, s'). held {} s s')"
    if n: "n \<in> set as" "ec_msgs s n = Some m" "held {Tcp_block (cp_pcb (ms_pcommon m))} s s"
      and u: "\<And>c. cp_pbuf (f c) = cp_pbuf c" "\<And>c. cp_ptail (f c) = cp_ptail c" "\<And>c. cp_pcb (f c) = cp_pcb c"
        "\<And>b. tp_next (g b) = tp_next b" "\<And>b. tp_next (h b) = tp_next b" for n m f g h P Q
  proof (rule step_upd_read [OF I n(3,1,2) u(1,2)], goal_cases)
    case (1 s1 m1)
    then have "returns (if cp_pcb (ms_pcommon m1) = NULL then Some (ESPCONN_OK, s1)
      else do { s2 \<leftarrow> (if P m1 then upd_pcb (cp_pcb (ms_pcommon m1)) g s1 else Some s1);
                s3 \<leftarrow> (if Q m1 then upd_pcb (cp_pcb (ms_pcommon m1)) h s2 else Some s2);
                Some (ESPCONN_OK, s3) }) (\<lambda>(_, s'). held {Tcp_block (cp_pcb (ms_pcommon m))} s s')"
      using u(3-5) by (intro flow held_flow [where ?s0.0 = s] held_upd_pcb) (assumption | simp)+
    then show ?case by (rule returns_mono) (auto intro: held_mono)
  qed
  show "returns (espconn_set_opt d opt s) (\<lambda>(_, s'). held {} s s')"
    unfolding espconn_set_opt_def Let_def using H d
    by (intro returns_if returns_held_answer step_desc [where Z = "{}" and ?s0.0 = s] step_find_block [OF I B] block)
      (assumption | simp)+
  show "returns (espconn_clear_opt d opt s) (\<lambda>(_, s'). held {} s s')"
    unfolding espconn_clear_opt_def Let_def using H d
    by (intro returns_if returns_held_answer step_desc [where Z = "{}" and ?s0.0 = s] step_find_block [OF I B] block)
      (assumption | simp)+
qed

lemma keepalive_held:
  assumes I: "espconn_inv as sv bl s" and d: "espconns s d \<noteq> None" and B: "found_block s d"
  shows "returns (espconn_set_keepalive d level optarg s) (\<lambda>(_, s'). held {} s s')"
    and "returns (espconn_get_keepalive d level optarg s) (\<lambda>_. True)"
proof -
  have H: "held {} s s" using I by (rule inv_start) simp
  have upd: "returns (map_option (Pair x) (upd_pcb p f s)) (\<lambda>(_, s'). held {} s s')"
    if "held {Tcp_block p} s s" "\<And>b. tp_next (f b) = tp_next b" for p f and x :: err_t
    using held_upd_pcb [OF that(1) _ that(2)]
    by (auto simp: returns_map elim!: returns_mono intro: held_mono)
  have msg: "returns (deref (ec_msgs s) n \<bind> f) P"
    if "n \<in> set as" "ec_msgs s n = Some m" "returns (f m) P" for n m f and P :: "'c \<Rightarrow> bool"
    using that I by (auto simp: deref_def espconn_inv_def active_ok_def conn_at_def)
  show "returns (espconn_set_keepalive d level optarg s) (\<lambda>(_, s'). held {} s s')"
    unfolding espconn_set_keepalive_def Let_def using H d
    by (intro returns_if returns_option returns_held_answer step_desc [where Z = "{}" and ?s0.0 = s]
        step_find_block [OF I B] msg upd) (assumption | simp)+
  show "returns (espconn_get_keepalive d level optarg s) (\<lambda>_. True)"
    unfolding espconn_get_keepalive_def Let_def using H d
    by (intro returns_if returns_SomeI step_desc [where Z = "{}" and ?s0.0 = s]
        step_find_block [OF I B] msg step_pcb [where ?s0.0 = s]) (assumption | simp)+
qed

lemma get_packet_info_held:
  assumes I: "espconn_inv as sv bl s" and d: "espconns s d \<noteq> None" and B: "found_block s d"
  shows "returns (espconn_get_packet_info E d info s) (\<lambda>(_, _, s'). held {} s s')"
proof -
  have H: "held {} s s" using I by (rule inv_start) simp
  have l: "length (pktinfo s) = 2" using I by (simp add: espconn_inv_def tables_ok_def)
  have old: "returns (case es_state e of
        ESPCONN_CLOSE \<Rightarrow> map_option (\<lambda>pk. (ESPCONN_OK, Some pk, s)) (arr_get (pktinfo s) 0)
      | ESPCONN_NONE \<Rightarrow> map_option (\<lambda>pk. (ESPCONN_OK, Some pk, s)) (arr_get (pktinfo s) 1)
      | _ \<Rightarrow> Some (ESPCONN_ARG, None, s)) (\<lambda>(_, _, s'). held {} s s')" for e
    using H l by (cases "es_state e") (simp_all add: arr_get_def)
  have block: "returns (do { m \<leftarrow> deref (ec_msgs s) n;
        if cp_pcb (ms_pcommon m) = NULL then Some (ESPCONN_ARG, None, s)
        else do { b \<leftarrow> deref (lw_tcp (ec_lwip s)) (cp_pcb (ms_pcommon m));
                  s1 \<leftarrow> upd_common n (\<lambda>c. c\<lparr>cp_packet_info := f m b\<rparr>) s;
                  Some (ESPCONN_OK, Some (f m b), s1) } }) (\<lambda>(_, _, s'). held {} s s')"
    if n: "n \<in> set as" "ec_msgs s n = Some m" "held {Tcp_block (cp_pcb (ms_pcommon m))} s s" for n m f
  proof -
    have u: "returns (upd_common n (\<lambda>c. c\<lparr>cp_packet_info := pk\<rparr>) s) (held {} s)" for pk
      by (rule step_upd [OF I H]) (use n(1) in simp_all)
    have "n \<noteq> NULL" using I n by (auto simp: espconn_inv_def active_ok_def conn_at_def)
    with n u H show ?thesis
      by (auto simp: deref_def held_def intro!: returns_bind [OF u])
  qed
  show ?thesis
    unfolding espconn_get_packet_info_def Let_def using H d
    by (intro returns_if step_desc [where Z = "{}" and ?s0.0 = s] step_find_block [OF I B] old block)
      (assumption | simp)+
qed

end
