(* ===== verification/Espconn_Calls.thy ===== *)
theory Espconn_Calls
  imports Espconn_Handlers
begin

text \<open>
  More calls that leave the structure of espconn alone: fetching received data, a client that
  is connected, a datagram that arrives, the callbacks that the application registers, and the
  information about the connections of a descriptor.
\<close>

section \<open>Fetching received data\<close>

lemma memcpy_from_ok:
  assumes "rb_ok rb"
  shows "returns (ringbuf_memcpy_from rb n) (\<lambda>(rb1, _, _). rb_ok rb1)"
  using assms by (auto simp: memcpy_from_eq advance_ok)

lemma espconn_recv_held:
  assumes E: "calm E" and I: "espconn_inv as sv bl s" and d: "espconns s d \<noteq> None" and B: "found_block s d"
  shows "returns (espconn_recv E d mem len s) (\<lambda>(_, _, s'). held {} s s')"
proof -
  have H: "held {} s s" using I by (rule inv_start) simp
  have block: "returns (do { m \<leftarrow> deref (ec_msgs s) n;
          case ms_readbuf m of
            None \<Rightarrow> Some (ESPCONN_MEM, [], s)
          | Some rb \<Rightarrow>
             if ringbuf_bytes_used rb \<noteq> 0
             then do {
               (rb1, t, bs) \<leftarrow> ringbuf_memcpy_from rb (g rb);
               s1 \<leftarrow> upd_msg n (\<lambda>m. m\<lparr>ms_readbuf := Some rb1\<rparr>) s;
               s2 \<leftarrow> (if cp_pcb (ms_pcommon m) \<noteq> NULL
                      then do { b \<leftarrow> deref (lw_tcp (ec_lwip s1)) (cp_pcb (ms_pcommon m));
                                Some (if tp_state b = ESTABLISHED
                                      then ec_do E (Tcp_recved (cp_pcb (ms_pcommon m)) (h rb)) s1 else s1) }
                      else Some s1);
               Some (k rb, bs, s2) }
             else Some (ESPCONN_OK, [], s) }) (\<lambda>(_, _, s'). held {} s s')"
    if n: "n \<in> set as" "ec_msgs s n = Some m" "held {Tcp_block (cp_pcb (ms_pcommon m))} s s" for n m g h k
  proof -
    let ?Z = "{Tcp_block (cp_pcb (ms_pcommon m))}"
    have nn: "n \<noteq> NULL" using I n by (auto simp: espconn_inv_def active_ok_def conn_at_def)
    have ring: "returns (do {
         (rb1, t, bs) \<leftarrow> ringbuf_memcpy_from rb (g rb);
         s1 \<leftarrow> upd_msg n (\<lambda>m. m\<lparr>ms_readbuf := Some rb1\<rparr>) s;
         s2 \<leftarrow> (if cp_pcb (ms_pcommon m) \<noteq> NULL
                then do { b \<leftarrow> deref (lw_tcp (ec_lwip s1)) (cp_pcb (ms_pcommon m));
                          Some (if tp_state b = ESTABLISHED
                                then ec_do E (Tcp_recved (cp_pcb (ms_pcommon m)) (h rb)) s1 else s1) }
                else Some s1);
         Some (k rb, bs, s2) }) (\<lambda>(_, _, s'). held {} s s')" if rb: "ms_readbuf m = Some rb" for rb
    proof -
      have "rb_ok rb" using H n(2) rb by (auto simp: held_def rings_def)
      then obtain rb1 t bs where r: "ringbuf_memcpy_from rb (g rb) = Some (rb1, t, bs)" "rb_ok rb1"
        using memcpy_from_ok [of rb "g rb"] by (auto simp: returns_def)
      have u: "returns (upd_msg n (\<lambda>m. m\<lparr>ms_readbuf := Some rb1\<rparr>) s) (held ?Z s)"
        by (rule step_upd_ring [OF I n(3)]) (use n r in simp_all)
      have "returns (do { b \<leftarrow> deref (lw_tcp (ec_lwip s1)) (cp_pcb (ms_pcommon m));
          Some (if tp_state b = ESTABLISHED
                then ec_do E (Tcp_recved (cp_pcb (ms_pcommon m)) (h rb)) s1 else s1) }) (held ?Z s)"
        if "held ?Z s s1" for s1
        by (intro step_pcb [OF that] returns_held_Some held_if held_do [OF E that]) (simp_all add: that)
      then show ?thesis unfolding r(1) bind.bind_lunit case_prod_conv
        by (intro returns_bind [OF u] returns_bind [of _ "held ?Z s"] returns_if returns_SomeI)
          (auto intro: held_mono)
    qed
    show ?thesis using n nn ring H by (simp add: deref_def split: option.split)
  qed
  have found: "returns ((if True then map_option p (deref (espconns s) d) else Some False) \<bind> f) P"
    if "\<And>b. returns (f b) P" "d \<noteq> NULL" for p P and f :: "bool \<Rightarrow> (err_t \<times> u8 list \<times> ec) option"
    using that d by (auto simp: deref_def)
  have unfound: "returns ((if False then x else Some False) \<bind> f) P" if "returns (f False) P"
    for x P and f :: "bool \<Rightarrow> (err_t \<times> u8 list \<times> ec) option"
    using that by simp
  show ?thesis
    unfolding espconn_recv_def Let_def using H d
    by (intro returns_if step_find_block [OF I B] found unfound block)
      (assumption | simp)+
qed

section \<open>A client is connected\<close>

text \<open>The TCP part of a descriptor of the type TCP.\<close>

lemma step_tcp:
  assumes I: "espconn_inv as sv bl s0" and H: "held Z s0 s" and T: "tcp_desc s0 d"
    and e: "espconns s d = Some e" and f: "\<And>t. returns (f t) P"
  shows "returns (deref (esp_tcps s) (es_proto e) \<bind> f) P"
proof -
  have S: "same s0 s" using H by (simp add: held_def)
  have "typed s" using inv_held [OF I H] by (simp add: espconn_inv_def)
  moreover have "es_type e = ESPCONN_TCP" using tcp_desc_same [OF S T] e by (simp add: tcp_desc_def)
  ultimately show ?thesis using e f by (intro step_tcp_part) simp_all
qed

lemma step_set_buf_count:
  assumes I: "espconn_inv as sv bl s0" and H: "held Z s0 s" and d: "espconns s0 d \<noteq> None"
    and f: "\<And>y x. held Z s0 x \<Longrightarrow> returns (f y x) P"
  shows "returns (espconn_tcp_set_buf_count E d num s \<bind> (\<lambda>(y, x). f y x)) P"
  by (rule returns_answer [OF set_buf_count_held [OF I H d] f])

lemma client_connect_held:
  assumes E: "calm E" and I: "espconn_inv as sv bl s" and a: "a \<in> set as"
    and p: "tpcb \<noteq> NULL" "lw_tcp (ec_lwip s) tpcb \<noteq> None" and T: "tcp_desc s (desc s a)"
  shows "returns (espconn_client_connect E a tpcb err s) (\<lambda>(_, s'). held {} s s')"
proof -
  let ?Z = "{Tcp_block tpcb}"
  have H: "held ?Z s s" using p by (intro inv_start [OF I]) simp
  have d: "espconns s (desc s a) \<noteq> None" using T by (auto simp: tcp_desc_def)
  have "returns (espconn_client_connect E a tpcb err s) (\<lambda>(_, s'). held ?Z s s')"
    unfolding espconn_client_connect_def Let_def
    using E H a d T
    by (intro flow step_set_buf_count [OF I, where Z = ?Z] held_flow [where Z = ?Z and ?s0.0 = s] steps [OF I, where Z = ?Z]
        step_pcb [where Z = ?Z and ?s0.0 = s] step_tcp [OF I, where Z = ?Z] held_upd_pcb)
      (assumption | simp add: like_desc)+
  then show ?thesis by (rule returns_mono) (auto intro: held_mono)
qed

section \<open>A datagram arrives\<close>

definition udp_desc :: "ec \<Rightarrow> ptr \<Rightarrow> bool" where
  "udp_desc s d \<longleftrightarrow> d \<noteq> NULL \<and> (\<exists>e. espconns s d = Some e \<and> es_type e = ESPCONN_UDP)"

lemma udp_desc_same:
  assumes "same s s'" "udp_desc s d"
  shows "udp_desc s' d"
proof -
  from assms(2) obtain e where e: "espconns s d = Some e" "es_type e = ESPCONN_UDP" "d \<noteq> NULL"
    by (auto simp: udp_desc_def)
  obtain e' where "espconns s' d = Some e'" "esp_shape e' = esp_shape e" by (rule same_esp [OF assms(1) e(1)])
  with e show ?thesis by (auto simp: udp_desc_def esp_shape_def)
qed

lemma step_udp:
  assumes I: "espconn_inv as sv bl s0" and H: "held Z s0 s" and T: "udp_desc s0 d"
    and e: "espconns s d = Some e"
    and f: "\<And>u. es_proto e \<noteq> NULL \<Longrightarrow> esp_udps s (es_proto e) = Some u \<Longrightarrow> returns (f u) P"
  shows "returns (deref (esp_udps s) (es_proto e) \<bind> f) P"
proof -
  have S: "same s0 s" using H by (simp add: held_def)
  have "typed s" using inv_held [OF I H] by (simp add: espconn_inv_def)
  moreover have "es_type e = ESPCONN_UDP" using udp_desc_same [OF S T] e by (simp add: udp_desc_def)
  ultimately obtain u where "es_proto e \<noteq> NULL" "esp_udps s (es_proto e) = Some u"
    using e by (elim typed_udpE)
  with f show ?thesis by (simp add: deref_def)
qed

lemma held_set_udp:
  assumes "held Z s0 s" "esp_udps s q = Some u"
  shows "held Z s0 (s\<lparr>esp_udps := (esp_udps s)(q \<mapsto> u')\<rparr>)"
  using assms by (auto simp: held_def same_def rings_def)

lemma udp_recv_held:
  assumes E: "calm E" and I: "espconn_inv as sv bl s" and a: "a \<in> set as" and T: "udp_desc s (desc s a)"
    and p: "p \<noteq> NULL \<Longrightarrow> lw_pbufs (ec_lwip s) p \<noteq> None"
  shows "returns (espconn_udp_recv E a upcb p addr port s) (held {} s)"
proof -
  have H: "held {} s s" using I by (rule inv_start) simp
  have data: "returns (do {
         seg \<leftarrow> deref (lw_pbufs (ec_lwip s2)) p;
         case ec_read E (Pbuf_copy_partial p (g seg)) s2 of (bs, s3) \<Rightarrow>
           Some (if bs \<noteq> [] \<and> es_recv_callback e \<noteq> NULL
                 then ec_user E (h bs) (ec_do E (Free_pbuf p) s3) else ec_do E (Free_pbuf p) s3) }) (held {} s)"
    if "p \<noteq> NULL" "held {} s s2" "ec_lwip s2 = ec_lwip s" for s2 g e h
  proof -
    have h: "held {Packet p} s s2" using that p H by (auto simp: held_def)
    show ?thesis using E that(2) h
      by (intro step_packet [OF h] held_flow [where Z = "{}" and ?s0.0 = s]) (assumption | simp)+
  qed
  have u: "returns (upd_common a f s) (\<lambda>x. held {} s x \<and> ec_lwip x = ec_lwip s)"
    if "\<And>c. cp_pbuf (f c) = cp_pbuf c" "\<And>c. cp_ptail (f c) = cp_ptail c" for f
    using step_upd [OF I H, of a f] a that by (auto simp: returns_def ec_upd_defs split: bind_splits)
  show ?thesis
    unfolding espconn_udp_recv_def Let_def
  proof (rule returns_bind [OF u], goal_cases)
    case (3 s1)
    then have h: "held {} s s1" and lw: "ec_lwip s1 = ec_lwip s" by simp_all
    show ?case
    proof (rule step_msg [OF I h], goal_cases)
      case (2 m)
      show ?case
      proof (rule step_esp [OF I h 2(2)], rule step_udp [OF I h T], goal_cases)
        case (1 e) then show ?case using like_desc [OF 2(2)] by simp
      next
        case (2 e u)
        have "held {} s (s1\<lparr>esp_udps := (esp_udps s1)(es_proto e \<mapsto> u')\<rparr>)" for u'
          using held_set_udp [OF h 2(3)] .
        then show ?case using lw by (intro returns_if data returns_held_Some) simp_all
      qed
    qed (use a in simp)
  qed simp_all
qed

section \<open>Registering callbacks\<close>

lemma regist_held:
  assumes I: "espconn_inv as sv bl s" and d: "d \<noteq> NULL \<Longrightarrow> tcp_desc s d"
  shows "returns (espconn_regist_connectcb d cb s) (\<lambda>(_, s'). held {} s s')"
    and "returns (espconn_regist_reconcb d cb s) (\<lambda>(_, s'). held {} s s')"
    and "returns (espconn_regist_disconcb d cb s) (\<lambda>(_, s'). held {} s s')"
proof -
  have H: "held {} s s" using I by (rule inv_start) simp
  have upd: "returns (if d = NULL then Some (ESPCONN_ARG, s)
      else do { e \<leftarrow> deref (espconns s) d; s1 \<leftarrow> upd_tcp (es_proto e) f s; Some (ESPCONN_OK, s1) })
      (\<lambda>(_, s'). held {} s s')" for f
  proof (rule returns_if)
    assume "d \<noteq> NULL"
    with d obtain e where e: "espconns s d = Some e" "es_type e = ESPCONN_TCP" by (auto simp: tcp_desc_def)
    moreover have "typed s" using I by (simp add: espconn_inv_def)
    ultimately obtain t where "es_proto e \<noteq> NULL" "esp_tcps s (es_proto e) = Some t" by (elim typedE)
    then have "returns (upd_tcp (es_proto e) f s) (held {} s)" by (intro held_upd_tcp [OF H]) simp_all
    with e \<open>d \<noteq> NULL\<close> show "returns (do { e \<leftarrow> deref (espconns s) d; s1 \<leftarrow> upd_tcp (es_proto e) f s;
        Some (ESPCONN_OK, s1) }) (\<lambda>(_, s'). held {} s s')"
      by (auto simp: deref_def intro!: returns_bind returns_held_answer)
  qed (simp add: H)
  show "returns (espconn_regist_connectcb d cb s) (\<lambda>(_, s'). held {} s s')"
    unfolding espconn_regist_connectcb_def by (rule upd)
  show "returns (espconn_regist_reconcb d cb s) (\<lambda>(_, s'). held {} s s')"
    unfolding espconn_regist_reconcb_def by (rule upd)
  show "returns (espconn_regist_disconcb d cb s) (\<lambda>(_, s'). held {} s s')"
    unfolding espconn_regist_disconcb_def by (rule upd)
qed

lemma regist_write_finish_held:
  assumes I: "espconn_inv as sv bl s" and d: "d \<noteq> NULL \<Longrightarrow> tcp_desc s d \<or> udp_desc s d"
  shows "returns (espconn_regist_write_finish d f s) (\<lambda>(_, s'). held {} s s')"
proof (cases "d \<noteq> NULL \<and> tcp_desc s d")
  case True
  have H: "held {} s s" using I by (rule inv_start) simp
  from True obtain e where e: "espconns s d = Some e" "es_type e = ESPCONN_TCP" by (auto simp: tcp_desc_def)
  moreover have "typed s" using I by (simp add: espconn_inv_def)
  ultimately obtain t where "es_proto e \<noteq> NULL" "esp_tcps s (es_proto e) = Some t" by (elim typedE)
  then have "returns (upd_tcp (es_proto e) g s) (held {} s)" for g by (intro held_upd_tcp [OF H]) simp_all
  then have "returns (do { s1 \<leftarrow> upd_tcp (es_proto e) g s; Some (ESPCONN_OK, s1) }) (\<lambda>(_, s'). held {} s s')" for g
    by (rule returns_bind) (rule returns_held_answer)
  with True e \<open>es_proto e \<noteq> NULL\<close> show ?thesis by (simp add: espconn_regist_write_finish_def deref_def)
next
  case False
  moreover have "held {} s s" using I by (rule inv_start) simp
  ultimately show ?thesis using d
    by (auto simp: espconn_regist_write_finish_def deref_def udp_desc_def)
qed

section \<open>The connections of a descriptor\<close>

text \<open>The messages \<open>ds\<close> that are listed for the descriptor \<open>pe\<close>.\<close>

definition listed :: "espconn_type \<Rightarrow> ptr \<Rightarrow> ec \<Rightarrow> ptr list \<Rightarrow> nat" where
  "listed ty pe s ds = length (filter (\<lambda>a. (if ty = ESPCONN_TCP then srv s a else desc s a) = pe) ds)"

definition counted :: "ec \<Rightarrow> ptr \<Rightarrow> nat \<Rightarrow> bool" where
  "counted s pe n \<longleftrightarrow> (\<exists>e. espconns s pe = Some e \<and> unat (es_link_cnt e) = n)"

lemma like_srv: "like s a m \<Longrightarrow> ms_preverse m = srv s a"
  by (auto simp: like_def srv_def dest: msg_shape_sel(3))

lemma info_step_held:
  assumes I: "espconn_inv as sv bl s0" and H: "held Z s0 s" and m: "like s0 a m"
    and pe: "pe \<noteq> NULL" "counted s pe n" "n + listed ty pe s0 [a] \<le> linkMax"
  shows "returns (info_step pe ty m s) (\<lambda>x. held Z s0 x \<and> counted x pe (n + listed ty pe s0 [a]))"
proof (cases "(if ty = ESPCONN_TCP then srv s0 a else desc s0 a) = pe")
  case True
  have hit: "(if ty = ESPCONN_TCP then ms_preverse m else ms_pespconn m) = pe"
    using True like_desc [OF m] like_srv [OF m] by (auto split: if_splits)
  obtain m0 e0 where c: "conn_at s0 a m0 e0" "msg_shape m = msg_shape m0" by (rule likeE [OF I m])
  have "espconns s0 (ms_pespconn m) \<noteq> None" "ms_pespconn m \<noteq> NULL"
    using c msg_shape_sel(2) [OF c(2)] by (simp_all add: conn_at_def)
  then obtain own where own: "deref (espconns s) (ms_pespconn m) = Some own"
    using H same_dom(2) [of s0 s "ms_pespconn m"] by (auto simp: held_def deref_def)
  obtain e where e: "espconns s pe = Some e" "unat (es_link_cnt e) = n" using pe(2) by (auto simp: counted_def)
  have l: "length (premot s) = linkMax"
    using H I by (simp add: held_def same_def espconn_inv_def tables_ok_def)
  have n: "n < linkMax" using pe(3) True by (simp add: listed_def)
  then have cnt: "unat (es_link_cnt e + 1) = n + 1"
    using e(2) by (simp add: unat_word_ariths linkMax_def)
  obtain pm where pm: "arr_write (premot s) n [\<lparr>ri_state = es_state own,
      ri_remote_port = cp_remote_port (ms_pcommon m), ri_remote_ip = cp_remote_ip (ms_pcommon m)\<rparr>] = Some pm"
    "length pm = linkMax" using n l by (simp add: arr_write_def)
  have h: "held Z s0 (s\<lparr>premot := pm\<rparr>)"
    using H pm(2) l by (simp add: held_def same_def rings_def)
  have "espconns s0 pe \<noteq> None" using H e(1) same_dom(2) [of s0 s pe] by (auto simp: held_def)
  from held_upd_esp [OF h this pe(1), of "\<lambda>e. e\<lparr>es_link_cnt := es_link_cnt e + 1\<rparr>"]
  have "returns (upd_espconn pe (\<lambda>e. e\<lparr>es_link_cnt := es_link_cnt e + 1\<rparr>) (s\<lparr>premot := pm\<rparr>)) (held Z s0)" by simp
  then show ?thesis using hit own e pm(1) cnt pe(1) True
    by (auto simp: info_step_def listed_def upd_espconn_def deref_def counted_def)
next
  case False
  then have "(if ty = ESPCONN_TCP then ms_preverse m else ms_pespconn m) \<noteq> pe"
    using like_desc [OF m] like_srv [OF m] by (auto split: if_splits)
  with False H pe(2) show ?thesis by (simp add: info_step_def listed_def)
qed

lemma info_loop_held:
  assumes I: "espconn_inv as sv bl s0" and pe: "pe \<noteq> NULL"
  shows "path ms_pnext (ec_msgs s) p ds NULL \<Longrightarrow> set ds \<subseteq> set as \<Longrightarrow> held Z s0 s \<Longrightarrow> counted s pe n
    \<Longrightarrow> n + listed ty pe s0 ds \<le> linkMax
    \<Longrightarrow> returns (connection_info_loop pe ty p s) (\<lambda>x. held Z s0 x \<and> counted x pe (n + listed ty pe s0 ds))"
proof (induction ds arbitrary: p s n)
  case Nil
  then show ?case by (simp add: info_loop_Nil listed_def)
next
  case (Cons a ds)
  then obtain m where m: "ec_msgs s a = Some m" "a \<noteq> NULL" "p = a"
    "path ms_pnext (ec_msgs s) (ms_pnext m) ds NULL" by (auto dest: deref_SomeD)
  have S: "same s0 s" using Cons.prems by (simp add: held_def)
  obtain m0 e0 where "conn_at s0 a m0 e0" by (rule inv_nodeE [OF I, of a]) (use Cons.prems in auto)
  then have "ec_msgs s0 a = Some m0" by (simp add: conn_at_def)
  from same_msg [OF S this] m(1) have l: "like s0 a m" using \<open>ec_msgs s0 a = Some m0\<close> by (auto simp: like_def)
  have sum: "listed ty pe s0 (a # ds) = listed ty pe s0 [a] + listed ty pe s0 ds" by (simp add: listed_def)
  have "returns (info_step pe ty m s) (\<lambda>x. held Z s0 x \<and> counted x pe (n + listed ty pe s0 [a]))"
    using Cons.prems sum by (intro info_step_held [OF I _ l pe]) simp_all
  then obtain x where x: "info_step pe ty m s = Some x" "held Z s0 x" "counted x pe (n + listed ty pe s0 [a])"
    by (auto simp: returns_def)
  have "ec_msgs x = ec_msgs s" using info_step_frame [OF x(1)] by (simp add: info_frame_def)
  then have "returns (connection_info_loop pe ty (ms_pnext m) x)
      (\<lambda>y. held Z s0 y \<and> counted y pe (n + listed ty pe s0 [a] + listed ty pe s0 ds))"
    using Cons.prems m(4) x sum by (intro Cons.IH) simp_all
  then show ?case using m x(1) sum by (simp add: info_loop_Cons add.assoc)
qed

lemma listed_limit:
  assumes I: "espconn_inv as sv bl s" and pe: "pe \<noteq> NULL"
  shows "listed ty pe s as \<le> linkMax"
proof (cases "ty = ESPCONN_TCP")
  case True
  have "allowed s sv pe \<le> unat MEMP_NUM_TCP_PCB"
  proof (cases "find (\<lambda>n. desc s n = pe) sv")
    case (Some n)
    then have "n \<in> set sv" by (auto simp: find_Some_iff)
    then have "ms_count_opt (the (ec_msgs s n)) \<le> MEMP_NUM_TCP_PCB"
      using I by (auto simp: espconn_inv_def listen_ok_def conn_at_def)
    with Some show ?thesis by (simp add: allowed_def word_le_nat_alt)
  qed (simp add: allowed_def)
  moreover have "conn_count s as pe \<le> allowed s sv pe"
    using I pe by (simp add: espconn_inv_def within_limits_def)
  ultimately show ?thesis using True by (simp add: listed_def conn_count_def linkMax_def MEMP_NUM_TCP_PCB_def)
next
  case False
  have d: "distinct as" using I by (auto simp: espconn_inv_def lists_ok_def intro: path_distinct)
  have "inj_on (desc s) (set as)" using I by (simp add: espconn_inv_def owned_def)
  then have "card {a \<in> set as. desc s a = pe} \<le> 1"
    by (intro card_le_Suc0_iff_eq [THEN iffD2, simplified One_nat_def [symmetric]]) (auto dest: inj_onD)
  moreover have "listed ty pe s as = card {a \<in> set as. desc s a = pe}"
    using d False by (simp add: listed_def distinct_length_filter Int_def conj_commute)
  ultimately show ?thesis by (simp add: linkMax_def)
qed

lemma get_info_held:
  assumes I: "espconn_inv as sv bl s0" and H: "held Z s0 s" and d: "espconns s0 d \<noteq> None" "d \<noteq> NULL"
  shows "returns (espconn_get_connection_info d s) (\<lambda>(_, x). held Z s0 x
    \<and> (\<forall>e. espconns x d = Some e \<longrightarrow> unat (es_link_cnt e)
         = (if es_type e = ESPCONN_INVALID then 0 else listed (es_type e) d s0 as)))"
proof -
  have S: "same s0 s" using H by (simp add: held_def)
  obtain e where e: "espconns s d = Some e" using d same_dom(2) [OF S, of d] by auto
  define s1 where "s1 = s\<lparr>premot := replicate linkMax remot_zero,
    espconns := (espconns s)(d \<mapsto> e\<lparr>es_link_cnt := 0\<rparr>)\<rparr>"
  have h0: "held Z s0 (s\<lparr>premot := replicate linkMax remot_zero\<rparr>)"
    using H I by (simp add: held_def same_def rings_def espconn_inv_def tables_ok_def)
  have u: "upd_espconn d (\<lambda>e. e\<lparr>es_link_cnt := 0\<rparr>) (s\<lparr>premot := replicate linkMax remot_zero\<rparr>) = Some s1"
    using e d(2) by (simp add: upd_espconn_def deref_def s1_def)
  with held_upd_esp [OF h0 d, of "\<lambda>e. e\<lparr>es_link_cnt := 0\<rparr>"] have h1: "held Z s0 s1" by simp
  have c1: "counted s1 d 0" by (simp add: counted_def s1_def)
  have pa: "path ms_pnext (ec_msgs s1) (plink_active s1) as NULL"
    using inv_held [OF I h1] by (simp add: espconn_inv_def lists_ok_def)
  have "returns (if es_type e = ESPCONN_INVALID then Some s1
      else connection_info_loop d (es_type e) (plink_active s1) s1)
    (\<lambda>x. held Z s0 x \<and> counted x d (if es_type e = ESPCONN_INVALID then 0 else listed (es_type e) d s0 as))"
    using info_loop_held [OF I d(2) pa _ h1 c1, of "es_type e"] listed_limit [OF I d(2), of "es_type e"] h1 c1
    by simp
  then obtain x where x: "(if es_type e = ESPCONN_INVALID then Some s1
      else connection_info_loop d (es_type e) (plink_active s1) s1) = Some x" "held Z s0 x"
    "counted x d (if es_type e = ESPCONN_INVALID then 0 else listed (es_type e) d s0 as)"
    by (auto simp: returns_def)
  then obtain ex where ex: "espconns x d = Some ex"
    "unat (es_link_cnt ex) = (if es_type e = ESPCONN_INVALID then 0 else listed (es_type e) d s0 as)"
    by (auto simp: counted_def)
  obtain e0 where e0: "espconns s0 d = Some e0" using d by blast
  have "es_type ex = es_type e"
    using same_esp [OF S e0] same_esp [of s0 x d e0] e0 e ex(1) x(2) esp_shape_sel(1)
    by (metis held_def option.inject)
  with ex x(1,2) u d(2) show ?thesis
    by (auto simp: espconn_get_connection_info_def deref_def s1_def)
qed

end
