(* ===== verification/Espconn_Structure.thy ===== *)
theory Espconn_Structure
  imports Espconn_Calls
begin

text \<open>
  The operations that change the structure of espconn: connections and servers come and go,
  and buffers are queued. Each returns and keeps the invariant, with the lists it leaves.
\<close>

section \<open>A connection ends\<close>

text \<open>The rest of a message when its next field is erased.\<close>

lemma core_of_erased:
  assumes "set_msg_next NULL m = set_msg_next NULL m'"
  shows "msg_core m = msg_core m'" and "ms_readbuf m = ms_readbuf m'"
proof -
  have "msg_core (set_msg_next NULL m) = msg_core (set_msg_next NULL m')"
    "ms_readbuf (set_msg_next NULL m) = ms_readbuf (set_msg_next NULL m')" by (simp_all only: assms)
  then show "msg_core m = msg_core m'" "ms_readbuf m = ms_readbuf m'" by (simp_all add: msg_core_def)
qed

lemma erase_core:
  assumes "erase set_msg_next h x = erase set_msg_next h' x"
  shows "map_option msg_core (h x) = map_option msg_core (h' x)" (is ?core)
    and "map_option ms_readbuf (h x) = map_option ms_readbuf (h' x)" (is ?ring)
proof -
  have "?core \<and> ?ring"
  proof (cases "h x")
    case None
    with assms have "h' x = None" by (simp add: erase_def)
    with None show ?thesis by simp
  next
    case (Some m)
    with assms obtain m' where "h' x = Some m'" "set_msg_next NULL m = set_msg_next NULL m'"
      by (cases "h' x") (simp_all add: erase_def)
    with Some core_of_erased [of m m'] show ?thesis by simp
  qed
  then show ?core ?ring by blast+
qed

text \<open>No descriptor changes its type or its TCP or UDP part.\<close>

definition shaped :: "(ptr \<rightharpoonup> espconn) \<Rightarrow> (ptr \<rightharpoonup> espconn) \<Rightarrow> bool" where
  "shaped h h' \<longleftrightarrow> (\<forall>d e e'. h d = Some e \<longrightarrow> h' d = Some e' \<longrightarrow> es_type e' = es_type e \<and> es_proto e' = es_proto e)"

lemma shaped_refl [simp]: "shaped h h"
  by (simp add: shaped_def)

lemma shapedD: "shaped h h' \<Longrightarrow> h d = Some e \<Longrightarrow> h' d = Some e' \<Longrightarrow> es_type e' = es_type e \<and> es_proto e' = es_proto e"
  unfolding shaped_def by blast

lemma kept_descsD:
  assumes "kept_descs p h h'" "h d = Some e" "h' d = Some e'" "\<And>ed. h p = Some ed \<Longrightarrow> es_type ed = ESPCONN_TCP"
  shows "es_type e' = es_type e" "es_proto e' = es_proto e"
proof -
  from assms(1-3) have "es_proto e' = es_proto e \<and> (es_type e' = es_type e \<or> d = p \<and> es_type e' = ESPCONN_TCP)"
    unfolding kept_descs_def by blast
  with assms(2,4) show "es_type e' = es_type e" "es_proto e' = es_proto e" by auto
qed

lemma conn_count_remove1: "conn_count s (remove1 a as) d \<le> conn_count s as d"
  unfolding conn_count_def by (induction as) auto

lemma inv_distinct: "espconn_inv as sv bl s \<Longrightarrow> distinct as"
  by (auto simp: espconn_inv_def lists_ok_def intro: path_distinct)

lemma inv_connE:
  assumes "espconn_inv as sv bl s" "a \<in> set as"
  obtains m e where "conn_at s a m e" "es_type e \<noteq> ESPCONN_INVALID" "is_server m \<longleftrightarrow> ms_preverse m \<noteq> NULL"
    "is_server m \<longrightarrow> es_type e = ESPCONN_TCP \<and> tcp_desc s (ms_preverse m)"
    "desc s a = ms_pespconn m" "srv s a = ms_preverse m" "ec_msgs s a = Some m" "a \<noteq> NULL"
  using assms by (auto simp: espconn_inv_def active_ok_def conn_at_def desc_def srv_def)

text \<open>What only an accepted connection owns is not shared.\<close>

lemma own_desc:
  assumes I: "espconn_inv as sv bl s" and a: "a \<in> set as" "srv s a \<noteq> NULL"
  shows "\<And>b. b \<in> set as \<Longrightarrow> srv s b \<noteq> desc s a" "\<And>n. n \<in> set sv \<Longrightarrow> desc s n \<noteq> desc s a"
    "\<And>d e. espconns s d = Some e \<Longrightarrow> d \<noteq> desc s a \<Longrightarrow> es_type e = ESPCONN_TCP
      \<Longrightarrow> es_proto e \<noteq> es_proto (the (espconns s (desc s a)))"
  using assms unfolding espconn_inv_def owned_def by blast+

lemma one_desc: "espconn_inv as sv bl s \<Longrightarrow> a \<in> set as \<Longrightarrow> b \<in> set as \<Longrightarrow> desc s a = desc s b \<Longrightarrow> a = b"
  unfolding espconn_inv_def owned_def by (blast dest: inj_onD)

lemma ended_kept:
  assumes E: "ended a as bs m e pesp s s'" and T: "shaped (espconns s) (espconns s')"
  shows "kept (- {a}) (- set (freed_own (is_server m) (ms_pespconn m))) s s'"
  unfolding kept_def
proof (intro conjI ballI)
  fix x assume "x \<in> - {a}"
  then have "erase set_msg_next (ec_msgs s') x = erase set_msg_next (ec_msgs s) x"
    using E by (simp add: ended_def)
  then show "map_option msg_core (ec_msgs s' x) = map_option msg_core (ec_msgs s x)" by (rule erase_core)
next
  fix d assume d: "d \<in> - set (freed_own (is_server m) (ms_pespconn m))"
  show "map_option esp_shape (espconns s' d) = map_option esp_shape (espconns s d)"
  proof (cases "espconns s d")
    case None
    then have "d \<notin> dom (espconns s')" using E by (auto simp: ended_def)
    with None show ?thesis by auto
  next
    case (Some ed)
    then have "d \<in> dom (espconns s')" using E d unfolding ended_def by blast
    then obtain ed' where ed': "espconns s' d = Some ed'" by blast
    show ?thesis using Some ed' shapedD [OF T Some ed'] by (simp add: esp_shape_def)
  qed
qed

lemma ended_lists:
  assumes E: "ended a as bs m e pesp s s'" and L: "lists_ok as sv s" and a: "a \<in> set as"
  shows "lists_ok (remove1 a as) sv s'"
proof -
  have "dom (erase set_msg_next h) = dom h" for h by (auto simp: erase_def)
  moreover have "dom (erase set_msg_next (ec_msgs s')) = dom (erase set_msg_next (ec_msgs s)) - {a}"
    using E by (simp add: ended_def dom_def) auto
  ultimately have d: "dom (ec_msgs s') = dom (ec_msgs s) - {a}" by simp
  have "path ms_pnext (ec_msgs s') (pserver_list s) sv NULL"
    by (rule path_agree [where h = "ec_msgs s"]) (use E L in \<open>auto simp: lists_ok_def ended_def\<close>)
  moreover have "distinct as" using L by (auto simp: lists_ok_def intro: path_distinct)
  ultimately show ?thesis using E L a d by (auto simp: lists_ok_def ended_def)
qed

lemma ended_rings:
  assumes "ended a as bs m e pesp s s'" "rings s"
  shows "rings s'"
  unfolding rings_def
proof (intro allI impI)
  fix x n rb assume n: "ec_msgs s' x = Some n" "ms_readbuf n = Some rb"
  have e: "erase set_msg_next (ec_msgs s') = (erase set_msg_next (ec_msgs s))(a := None)"
    using assms(1) by (simp add: ended_def)
  have "x \<noteq> a" using n(1) fun_cong [OF e, of a] by (auto simp: erase_def)
  then have "erase set_msg_next (ec_msgs s') x = erase set_msg_next (ec_msgs s) x" using e by simp
  from erase_core(2) [OF this] n assms(2) show "rb_ok rb"
    by (cases "ec_msgs s x") (auto simp: rings_def)
qed

lemma ended_descs:
  assumes E: "ended a as bs m e pesp s s'" and I: "espconn_inv as sv bl s" and a: "a \<in> set as"
    and c: "conn_at s a m e" and T: "shaped (espconns s) (espconns s')"
  shows "descs_from s s'"
  unfolding descs_from_def
proof (intro allI impI conjI)
  fix p e' assume e': "espconns s' p = Some e'"
  have D: "dom (espconns s') = dom (espconns s) - set (freed_own (is_server m) (ms_pespconn m))"
    "dom (esp_tcps s') = dom (esp_tcps s) - set (freed_own (is_server m) (es_proto e))"
    using E by (simp_all add: ended_def)
  then obtain e0 where e0: "espconns s p = Some e0" and f: "p \<notin> set (freed_own (is_server m) (ms_pespconn m))"
    using e' by blast
  have sh: "es_type e' = es_type e0" "es_proto e' = es_proto e0"
    using shapedD [OF T e0 e'] by simp_all
  with e0 show "\<exists>e. espconns s p = Some e \<and> es_type e' = es_type e \<and> es_proto e' = es_proto e" by blast
  show "esp_tcps s' (es_proto e') \<noteq> None"
    if t: "es_type e' = ESPCONN_TCP" "esp_tcps s (es_proto e') \<noteq> None"
  proof (cases "is_server m")
    case True
    from c have d: "desc s a = ms_pespconn m" "srv s a = ms_preverse m" "espconns s (ms_pespconn m) = Some e"
      by (simp_all add: conn_at_def desc_def srv_def)
    have "srv s a \<noteq> NULL" using I a c d True by (auto simp: espconn_inv_def active_ok_def conn_at_def)
    from own_desc(3) [OF I a this e0] f True sh t(1) d have "es_proto e' \<noteq> es_proto e"
      by (simp add: freed_set)
    with D(2) t(2) True show ?thesis unfolding freed_set by auto
  next
    case False
    with D(2) t(2) show ?thesis unfolding freed_set by auto
  qed
  show "esp_udps s' (es_proto e') \<noteq> None"
    if "es_type e' = ESPCONN_UDP" "esp_udps s (es_proto e') \<noteq> None"
    using E that by (simp add: ended_def)
qed

lemma inv_ended:
  assumes I: "espconn_inv as sv bl s" and a: "a \<in> set as" and c: "conn_at s a m e"
    and E: "ended a as (bl a) m e pesp s s'" and T: "shaped (espconns s) (espconns s')"
    and p: "length (pktinfo s') = 2"
  shows "espconn_inv (remove1 a as) sv bl s'"
proof (rule inv_shrink [OF I _ _ _ ended_descs [OF E I a c T],
      where D = "- set (freed_own (is_server m) (ms_pespconn m))"])
  have d: "set (remove1 a as) = set as - {a}" using inv_distinct [OF I] by simp
  from I have L: "lists_ok as sv s" and Q: "queues as bl s" and t: "tables_ok s" by (simp_all add: espconn_inv_def)
  have "a \<notin> set sv" using L a by (auto simp: lists_ok_def)
  then show "kept (set (remove1 a as) \<union> set sv) (- set (freed_own (is_server m) (ms_pespconn m))) s s'"
    using ended_kept [OF E T] d by (auto simp: kept_def)
  show "lists_ok (remove1 a as) sv s'" by (rule ended_lists [OF E L a])
  show "set (remove1 a as) \<subseteq> set as" by (rule set_remove1_subset)
  from c have da: "desc s a = ms_pespconn m" "srv s a = ms_preverse m" by (simp_all add: conn_at_def desc_def srv_def)
  have sn: "is_server m \<longrightarrow> srv s a \<noteq> NULL" using I a c da by (auto simp: espconn_inv_def active_ok_def conn_at_def)
  show "desc s x \<in> - set (freed_own (is_server m) (ms_pespconn m))
      \<and> (srv s x \<noteq> NULL \<longrightarrow> srv s x \<in> - set (freed_own (is_server m) (ms_pespconn m)))"
    if x: "x \<in> set (remove1 a as)" for x
    using one_desc [OF I, of x a] own_desc(1) [OF I a, of x] x a d da sn by (auto simp: freed_set)
  show "desc s n \<in> - set (freed_own (is_server m) (ms_pespconn m))" if "n \<in> set sv" for n
    using own_desc(2) [OF I a, of n] that da sn by (auto simp: freed_set)
  show "conn_count s (remove1 a as) q \<le> conn_count s as q" for q by (rule conn_count_remove1)
  have b: "ec_bufs s' = without (ec_bufs s) (bl a)" using E by (simp add: ended_def)
  have dj: "set (bl x) \<inter> set (bl a) = {}" if "x \<in> set as" "x \<noteq> a" for x
    using Q a that unfolding queues_def by blast
  show "ec_bufs s' y = ec_bufs s y" if "x \<in> set (remove1 a as)" "y \<in> set (bl x)" for x y
  proof -
    from that dj [of x] d have "y \<notin> set (bl a)" by blast
    with b show ?thesis by simp
  qed
  have "dom (ec_bufs s') = (\<Union>x \<in> set as. set (bl x)) - set (bl a)"
    using Q b by (simp add: queues_def dom_without)
  also have "\<dots> = (\<Union>x \<in> set (remove1 a as). set (bl x))" using dj a unfolding d by blast
  finally show "dom (ec_bufs s') = (\<Union>x \<in> set (remove1 a as). set (bl x))" .
  show "tables_ok s'"
    using t p E ended_rings [OF E] by (simp add: tables_ok_def ended_def)
qed

section \<open>The task\<close>

text \<open>A connection of the invariant, with its TCP part.\<close>

lemma inv_tcp_conn:
  assumes I: "espconn_inv as sv bl s" and a: "a \<in> set as" and c: "conn_at s a m e" and T: "es_type e = ESPCONN_TCP"
  obtains t where "tcp_conn a m e t (if ms_preverse m = NULL then ms_pespconn m else ms_preverse m) s"
proof -
  from I have ty: "typed s" by (simp add: espconn_inv_def)
  from c have d: "desc s a = ms_pespconn m" "srv s a = ms_preverse m" "espconns s (ms_pespconn m) = Some e"
    "ec_msgs s a = Some m" "a \<noteq> NULL" "ms_pespconn m \<noteq> NULL" by (simp_all add: conn_at_def desc_def srv_def)
  have ok: "is_server m \<longleftrightarrow> ms_preverse m \<noteq> NULL" "is_server m \<longrightarrow> tcp_desc s (ms_preverse m)"
    using I a d by (auto simp: espconn_inv_def active_ok_def conn_at_def)
  obtain t where t: "es_proto e \<noteq> NULL" "esp_tcps s (es_proto e) = Some t" by (rule typedE [OF ty d(3) T])
  show thesis
  proof (cases "ms_preverse m = NULL")
    case True
    with d t T ok that show thesis by (simp add: tcp_conn_def)
  next
    case False
    with ok obtain es where es: "espconns s (ms_preverse m) = Some es" "es_type es = ESPCONN_TCP"
      by (auto simp: tcp_desc_def)
    obtain ts where ts: "es_proto es \<noteq> NULL" "esp_tcps s (es_proto es) = Some ts" by (rule typedE [OF ty es])
    have "srv s a \<noteq> NULL" using False d by simp
    from own_desc(1) [OF I a this a] own_desc(3) [OF I a this es(1) _ es(2)] d
    have "ms_preverse m \<noteq> ms_pespconn m" "es_proto es \<noteq> es_proto e" by auto
    with d t T ok es ts False that show thesis by (simp add: tcp_conn_def)
  qed
qed

definition may_end :: "espconn_sig \<Rightarrow> ec \<Rightarrow> ptr \<Rightarrow> bool" where
  "may_end sig s a \<longleftrightarrow> tcp_desc s (desc s a)
     \<and> (sig = SIG_ESPCONN_WRITE \<or> \<not> espconn_reuse_disabled (the (ec_msgs s a)))"

lemma task_inv:
  assumes E: "calm E" and I: "espconn_inv as sv bl s" and M: "a \<in> set as \<Longrightarrow> may_end sig s a"
  shows "returns (espconn_Task E sig a s) (\<lambda>s'. if a \<in> set as \<and> sig \<noteq> SIG_ESPCONN_WRITE
    then espconn_inv (remove1 a as) sv bl s' else espconn_inv as sv bl s')"
proof -
  have p: "path ms_pnext (ec_msgs s) (plink_active s) as NULL" using I by (simp add: espconn_inv_def lists_ok_def)
  have n: "find_node ms_pnext (ec_msgs s) (\<lambda>b _. a = b) (plink_active s) = Some (if a \<in> set as then a else NULL)"
    using find_node_path [OF p, of "\<lambda>b _. a = b"]
    by (auto split: list.split simp: filter_empty_conv dest!: arg_cong [where f = set])
  show ?thesis
  proof (cases "a \<in> set as")
    case False
    with n I show ?thesis by (simp add: espconn_Task_def)
  next
    case True
    then obtain m e where c: "conn_at s a m e" and d: "desc s a = ms_pespconn m" "ec_msgs s a = Some m" "a \<noteq> NULL"
      by (rule inv_connE [OF I])
    with M [OF True] have T: "es_type e = ESPCONN_TCP" by (auto simp: may_end_def tcp_desc_def conn_at_def)
    obtain t where t: "tcp_conn a m e t (if ms_preverse m = NULL then ms_pespconn m else ms_preverse m) s"
      by (rule inv_tcp_conn [OF I True c T])
    show ?thesis
    proof (cases "sig = SIG_ESPCONN_WRITE")
      case False
      let ?p = "if ms_preverse m = NULL then ms_pespconn m else ms_preverse m"
      have A: "ending E a as (bl a) m e t ?p s"
        using E I t True M [OF True] False d inv_distinct [OF I]
        by (auto simp: ending_def espconn_inv_def tables_ok_def queues_def queue_ok_def may_end_def dest: calmD)
      have ty: "es_type ed = ESPCONN_TCP" if "espconns s ?p = Some ed" for ed
        using that I True c T d
        by (auto simp: espconn_inv_def active_ok_def conn_at_def tcp_desc_def split: if_splits)
      have "sig \<in> {SIG_ESPCONN_CLOSE, SIG_ESPCONN_ERRER}" using False by (cases sig) simp_all
      from task_ends [OF A p this] obtain s' where s': "espconn_Task E sig a s = Some s'"
        "ended a as (bl a) m e ?p s s'" "length (pktinfo s') = length (pktinfo s)" by auto
      moreover have "length (pktinfo s) = 2" using I by (simp add: espconn_inv_def tables_ok_def)
      moreover have k: "kept_descs ?p (espconns s) (espconns s')" using s'(2) by (simp add: ended_def)
      have "shaped (espconns s) (espconns s')" unfolding shaped_def using kept_descsD [OF k _ _ ty] by blast
      ultimately show ?thesis using inv_ended [OF I True c s'(2)] True False by simp
    next
      case W: True
      have H: "held {} s s" using I by (rule inv_start) simp
      have "returns (espconn_Task E sig a s) (held {} s)"
        using n True d c t W held_user [OF E H] H
        by (simp add: espconn_Task_def deref_def tcp_conn_def cong del: bind_weak_cong if_weak_cong)
      then show ?thesis by (rule returns_mono) (use W inv_held [OF I] in simp)
    qed
  qed
qed

section \<open>Blocks of a port\<close>

text \<open>\<open>espconn_kill_pcb\<close> reads the next field of a block before it gives the block up.\<close>

lemma kill_port_ok:
  assumes E: "calm E"
  shows "path tp_next (lw_tcp (ec_lwip s)) q bs NULL \<Longrightarrow> pcb_lists (ec_lwip s)
    \<Longrightarrow> lwip_only s (kill_port_loop E port q s)"
proof (induction bs arbitrary: q s)
  case Nil
  then show ?case by (simp add: kill_port_loop.simps lwip_only_refl)
next
  case (Cons b bs)
  note L = calmD(2) [OF E]
  from Cons.prems obtain n where n: "q = b" "deref (lw_tcp (ec_lwip s)) b = Some n" "b \<noteq> NULL" "b \<notin> set bs"
    "path tp_next (lw_tcp (ec_lwip s)) (tp_next n) bs NULL"
    using path_distinct [OF Cons.prems(1)] by (auto dest: deref_SomeD)
  define s1 where "s1 = (if tp_local_port n = port then remove_pcb E b s else s)"
  have "path tp_next (lw_tcp (ec_lwip (ec_do E c x))) (tp_next n) bs NULL"
    if "path tp_next (lw_tcp (ec_lwip x)) (tp_next n) bs NULL" "c \<in> {Tcp_pcb_remove b, Memp_free b}" for c x
    using calmD(6) [OF E that(2,1) n(4)] by simp
  then have p1: "path tp_next (lw_tcp (ec_lwip s1)) (tp_next n) bs NULL"
    using n(5) by (simp add: s1_def remove_pcb_def)
  have 1: "lwip_only s (Some s1)" unfolding s1_def by (rule kill_one(2) [OF L Cons.prems(2)])
  have "lwip_only s (Some s1 \<bind> kill_port_loop E port (tp_next n))"
    by (rule lwip_only_bind [OF 1]) (use Cons.IH p1 in auto)
  moreover have "kill_port_loop E port q s = kill_port_loop E port (tp_next n) s1"
    using n unfolding s1_def by (subst kill_port_loop.simps) simp
  ultimately show ?case by simp
qed

lemma kill_pcb_ok:
  assumes E: "calm E" and p: "pcb_lists (ec_lwip s)"
  shows "lwip_only s (espconn_kill_pcb E port s)"
proof -
  have k: "lwip_only x (kill_port_loop E port q x)"
    if "pcb_lists (ec_lwip x)" "q \<in> {lw_bound (ec_lwip x), lw_active (ec_lwip x), lw_tw (ec_lwip x)}" for q x
    using that kill_port_ok [OF E] unfolding pcb_lists_def by blast
  show ?thesis unfolding espconn_kill_pcb_def by (intro lwip_only_bind k p) simp_all
qed

section \<open>A connection without buffers ends\<close>

lemma ended_at_once:
  assumes L: "lists_ok as sv s" and a: "a \<in> set as" "ec_msgs s a = Some m" and m: "\<not> is_server m"
  obtains h q where "active_delete a s = Some (s\<lparr>ec_msgs := h, plink_active := q\<rparr>)" "h a = Some m"
    and "\<And>x. x = s\<lparr>ec_msgs := h(a := None), plink_active := q, ec_lwip := ec_lwip x, ec_calls := ec_calls x\<rparr>
      \<Longrightarrow> pcb_lists (ec_lwip x) \<Longrightarrow> ended a as [] m e pesp s x"
proof -
  have p: "path ms_pnext (ec_msgs s) (plink_active s) as NULL" using L by (simp add: lists_ok_def)
  obtain h q where d: "active_delete a s = Some (s\<lparr>ec_msgs := h, plink_active := q\<rparr>)" "h a = Some m"
    "erase set_msg_next h = erase set_msg_next (ec_msgs s)" "path ms_pnext h q (remove1 a as) NULL"
    "\<And>b. b \<notin> set as \<Longrightarrow> h b = ec_msgs s b" using active_delete_ok [OF p a] by blast
  have "ended a as [] m e pesp s x"
    if x: "x = s\<lparr>ec_msgs := h(a := None), plink_active := q, ec_lwip := ec_lwip x, ec_calls := ec_calls x\<rparr>"
      "pcb_lists (ec_lwip x)" for x
  proof -
    have "ec_msgs x = h(a := None)" "plink_active x = q" "ec_bufs x = ec_bufs s" "espconns x = espconns s"
      "esp_tcps x = esp_tcps s" "esp_udps x = esp_udps s" "pserver_list x = pserver_list s" "premot x = premot s"
      by (subst x(1), simp)+
    moreover have "path ms_pnext (h(a := None)) q (remove1 a as) NULL"
      using d(4) path_distinct [OF p] by simp
    ultimately show ?thesis
      using x(2) m a(1) d(3,5) by (auto simp: ended_def freed_own_def erase_free)
  qed
  with d that show thesis by blast
qed

lemma udp_no_bufs:
  assumes I: "espconn_inv as sv bl s" and a: "a \<in> set as" and T: "udp_desc s (desc s a)"
  shows "bl a = []" "\<not> is_server (the (ec_msgs s a))"
proof -
  obtain m e where c: "conn_at s a m e" "es_type e = ESPCONN_UDP \<longrightarrow> cp_pbuf (ms_pcommon m) = NULL"
    "is_server m \<longrightarrow> es_type e = ESPCONN_TCP"
    using I a by (auto simp: espconn_inv_def active_ok_def)
  then have "es_type e = ESPCONN_UDP" using T by (auto simp: udp_desc_def desc_def conn_at_def)
  with c show "\<not> is_server (the (ec_msgs s a))" by (simp add: conn_at_def)
  have "queue_ok (ec_bufs s) m (bl a)" using I a c(1) by (auto simp: espconn_inv_def queues_def conn_at_def)
  with c \<open>es_type e = ESPCONN_UDP\<close> show "bl a = []" by (simp add: queue_ok_def)
qed

lemma udp_disconnect_inv:
  assumes E: "calm E" and I: "espconn_inv as sv bl s" and a: "a \<in> set as" and T: "udp_desc s (desc s a)"
  shows "returns (espconn_udp_disconnect E a s) (espconn_inv (remove1 a as) sv bl)"
proof -
  obtain m e where c: "conn_at s a m e" "ec_msgs s a = Some m" "a \<noteq> NULL" by (rule inv_connE [OF I a])
  note u = udp_no_bufs [OF I a T]
  define s1 where "s1 = ec_do E (Udp_remove (cp_pcb (ms_pcommon m))) (ec_do E (Udp_disconnect (cp_pcb (ms_pcommon m))) s)"
  have H: "held {} s s" using I by (rule inv_start) simp
  then have "held {} s s1" unfolding s1_def by (intro held_do [OF E]) simp_all
  then have I1: "espconn_inv as sv bl s1" by (rule inv_held [OF I])
  then have L: "lists_ok as sv s1" "pcb_lists (ec_lwip s1)" "length (pktinfo s1) = 2"
    by (simp_all add: espconn_inv_def tables_ok_def)
  have c1: "conn_at s1 a m e" "ec_msgs s1 a = Some m" using c by (simp_all add: conn_at_def s1_def)
  obtain h q where d: "active_delete a s1 = Some (s1\<lparr>ec_msgs := h, plink_active := q\<rparr>)" "h a = Some m"
    and e: "\<And>x. x = s1\<lparr>ec_msgs := h(a := None), plink_active := q, ec_lwip := ec_lwip x, ec_calls := ec_calls x\<rparr>
      \<Longrightarrow> pcb_lists (ec_lwip x) \<Longrightarrow> ended a as [] m e (desc s a) s1 x"
    using ended_at_once [OF L(1) a c1(2)] u(2) c(2) by (metis option.sel)
  let ?x = "s1\<lparr>ec_msgs := h(a := None), plink_active := q\<rparr>"
  have "espconn_udp_disconnect E a s = Some ?x"
    using c d by (simp add: espconn_udp_disconnect_def deref_def s1_def [symmetric] os_free_def)
  moreover have "ended a as (bl a) m e (desc s a) s1 ?x" using e [of ?x] u(1) L by simp
  from inv_ended [OF I1 a c1(1) this] L(3) have "espconn_inv (remove1 a as) sv bl ?x" by simp
  ultimately show ?thesis by simp
qed

section \<open>A connection begins\<close>

lemma lists_new:
  assumes "lists_ok as sv s" "ec_msgs s a = None"
  shows "a \<notin> set as \<union> set sv"
proof -
  have "a \<notin> dom (ec_msgs s)" using assms(2) by blast
  with assms(1) show ?thesis by (simp add: lists_ok_def)
qed

text \<open>Appending a message to the list of active connections.\<close>

definition linked_in :: "ec \<Rightarrow> ptr \<Rightarrow> ptr list \<Rightarrow> ptr list \<Rightarrow> (ptr \<rightharpoonup> espconn_msg) \<Rightarrow> ptr \<Rightarrow> bool" where
  "linked_in s a as sv h q \<longleftrightarrow> path ms_pnext h q (as @ [a]) NULL \<and> path ms_pnext h (pserver_list s) sv NULL
     \<and> dom h = insert a (dom (ec_msgs s))
     \<and> (\<forall>b. b \<noteq> a \<longrightarrow> erase set_msg_next h b = erase set_msg_next (ec_msgs s) b)"

lemma active_added:
  assumes L: "lists_ok as sv s" and a: "a \<noteq> NULL" "ec_msgs s a = None"
    and x: "ec_msgs x = (ec_msgs s)(a \<mapsto> m)" "plink_active x = plink_active s"
  shows "\<exists>h q. active_append a x = Some (x\<lparr>ec_msgs := h, plink_active := q\<rparr>)
    \<and> h a = Some (set_msg_next NULL m) \<and> linked_in s a as sv h q"
proof -
  note n = lists_new [OF L a(2)]
  have p: "path ms_pnext (ec_msgs x) (plink_active x) as NULL" using L n x by (simp add: lists_ok_def)
  have "deref (ec_msgs x) a = Some m" using a(1) x by (simp add: deref_def)
  from msgs.append_ok [OF p this] n obtain h where h:
    "list_append ms_pnext set_msg_next (ec_msgs x) (plink_active x) a = Some (h, hd (as @ [a]))"
    "path ms_pnext h (hd (as @ [a])) (as @ [a]) NULL" "erase set_msg_next h = erase set_msg_next (ec_msgs x)"
    "\<forall>b. b \<notin> set (a # as) \<longrightarrow> h b = ec_msgs x b" by auto
  have "erase set_msg_next h a = Some (set_msg_next NULL m)" using h(3) x by (simp add: erase_def)
  then obtain ma where ma: "h a = Some ma" "set_msg_next NULL ma = set_msg_next NULL m" by (auto simp: erase_def)
  have "ms_pnext ma = NULL" using h(2) ma(1) a(1) by (auto simp: path_append deref_def)
  then have "ma = set_msg_next NULL ma" by simp
  with ma have 1: "h a = Some (set_msg_next NULL m)" by simp
  have "dom (erase set_msg_next f) = dom f" for f by (auto simp: erase_def)
  with h(3) have "dom h = dom (ec_msgs x)" by metis
  then have 2: "dom h = insert a (dom (ec_msgs s))" using x by auto
  have "path ms_pnext h (pserver_list s) sv NULL"
    by (rule path_agree [where h = "ec_msgs s"]) (use L n h(4) x in \<open>auto simp: lists_ok_def\<close>)
  moreover have "erase set_msg_next h b = erase set_msg_next (ec_msgs s) b" if "b \<noteq> a" for b
    using that h(3) x by (simp add: erase_def)
  moreover have "active_append a x = Some (x\<lparr>ec_msgs := h, plink_active := hd (as @ [a])\<rparr>)"
    using h(1) by (simp add: active_append_def espconn_list_creat_def)
  ultimately show ?thesis using 1 2 h(2) unfolding linked_in_def by blast
qed

text \<open>What makes a new connection fit: its descriptor is new on the list of active connections.\<close>

definition fits :: "ptr list \<Rightarrow> ptr list \<Rightarrow> ec \<Rightarrow> espconn_msg \<Rightarrow> bool" where
  "fits as sv s m \<longleftrightarrow> ms_pespconn m \<noteq> NULL
     \<and> (\<exists>e. espconns s (ms_pespconn m) = Some e \<and> es_type e \<noteq> ESPCONN_INVALID
          \<and> (is_server m \<longrightarrow> es_type e = ESPCONN_TCP
               \<and> (\<forall>d f. espconns s d = Some f \<longrightarrow> d \<noteq> ms_pespconn m \<longrightarrow> es_type f = ESPCONN_TCP
                    \<longrightarrow> es_proto f \<noteq> es_proto e)))
     \<and> (\<forall>b \<in> set as. desc s b \<noteq> ms_pespconn m) \<and> (is_server m \<longleftrightarrow> ms_preverse m \<noteq> NULL)
     \<and> (is_server m \<longrightarrow> tcp_desc s (ms_preverse m) \<and> ms_preverse m \<noteq> ms_pespconn m
          \<and> (\<forall>b \<in> set as. srv s b \<noteq> ms_pespconn m) \<and> (\<forall>n \<in> set sv. desc s n \<noteq> ms_pespconn m)
          \<and> (\<forall>b \<in> set as. srv s b \<noteq> NULL \<longrightarrow> desc s b \<noteq> ms_preverse m)
          \<and> conn_count s as (ms_preverse m) < allowed s sv (ms_preverse m))
     \<and> cp_pbuf (ms_pcommon m) = NULL \<and> cp_ptail (ms_pcommon m) = NULL \<and> ms_readbuf m = None"

text \<open>The new state, where only the messages, the list and lwIP differ.\<close>

definition joined :: "ec \<Rightarrow> ptr \<Rightarrow> espconn_msg \<Rightarrow> (ptr \<rightharpoonup> espconn_msg) \<Rightarrow> ptr \<Rightarrow> ec \<Rightarrow> bool" where
  "joined s a m h q s' \<longleftrightarrow> ec_msgs s' = h(a \<mapsto> m) \<and> plink_active s' = q \<and> pserver_list s' = pserver_list s
     \<and> espconns s' = espconns s \<and> esp_tcps s' = esp_tcps s \<and> esp_udps s' = esp_udps s
     \<and> ec_bufs s' = ec_bufs s \<and> premot s' = premot s \<and> pktinfo s' = pktinfo s \<and> pcb_lists (ec_lwip s')"

lemma joined_kept:
  assumes J: "joined s a m h q s'" and A: "a \<notin> A"
    and e: "\<And>b. b \<noteq> a \<Longrightarrow> erase set_msg_next h b = erase set_msg_next (ec_msgs s) b"
  shows "kept A D s s'"
proof -
  have "map_option msg_core (ec_msgs s' x) = map_option msg_core (ec_msgs s x)" if "x \<in> A" for x
    using erase_core(1) [OF e, of x] that A J by (auto simp: joined_def)
  with J show ?thesis by (simp add: kept_def joined_def)
qed

lemma inv_joined:
  assumes I: "espconn_inv as sv bl s" and a: "a \<noteq> NULL" "ec_msgs s a = None"
    and l: "linked_in s a as sv h q"
    and J: "joined s a m h q s'" and m: "ms_pnext m = NULL" and F: "fits as sv s m"
  shows "espconn_inv (as @ [a]) sv (bl(a := [])) s'"
proof -
  have h: "path ms_pnext h q (as @ [a]) NULL" "path ms_pnext h (pserver_list s) sv NULL"
      "dom h = insert a (dom (ec_msgs s))"
      "\<And>b. b \<noteq> a \<Longrightarrow> erase set_msg_next h b = erase set_msg_next (ec_msgs s) b"
    using l by (simp_all add: linked_in_def)
  have L: "lists_ok as sv s" using I by (simp add: espconn_inv_def)
  note n = lists_new [OF L a(2)]
  have M: "ec_msgs s x \<noteq> None" if "x \<in> set as \<union> set sv" for x using that L by (auto simp: lists_ok_def)
  have K: "kept (set as \<union> set sv) UNIV s s'" by (rule joined_kept [OF J _ h(4)]) (use n in auto)
  have ds: "desc s' x = desc s x" "srv s' x = srv s x" if "x \<in> set as \<union> set sv" for x
    using kept_desc [OF K that M [OF that]] .
  have da: "desc s' a = ms_pespconn m" "srv s' a = ms_preverse m" using J by (simp_all add: joined_def desc_def srv_def)
  have ha: "h a = Some n0 \<Longrightarrow> ms_pnext n0 = NULL" for n0 using h(1) a(1) by (auto simp: path_append deref_def)
  from h(3) obtain n0 where n0: "h a = Some n0" by blast
  have pn: "map_option ms_pnext ((h(a \<mapsto> m)) x) = map_option ms_pnext (h x)" for x
    using ha [OF n0] m n0 by (cases "x = a") auto
  have "path ms_pnext (ec_msgs s') (plink_active s') (as @ [a]) NULL"
    using J path_same_next [OF h(1), of "h(a \<mapsto> m)"] pn by (simp add: joined_def)
  moreover have "path ms_pnext (ec_msgs s') (pserver_list s') sv NULL"
    using J path_same_next [OF h(2), of "h(a \<mapsto> m)"] pn by (simp add: joined_def)
  ultimately have 1: "lists_ok (as @ [a]) sv s'" using J L n h(3) by (auto simp: lists_ok_def joined_def)
  have 2: "typed s'" using I J by (simp add: espconn_inv_def typed_def joined_def)
  have dom: "x \<in> set (as @ [a]) \<Longrightarrow> active_ok s' x" for x
  proof (cases "x = a")
    case True
    with F J a show ?thesis by (auto simp: fits_def joined_def active_ok_def conn_at_def tcp_desc_def)
  next
    case False
    assume "x \<in> set (as @ [a])"
    with False I show ?thesis by (intro active_ok_kept [OF K]) (auto simp: espconn_inv_def)
  qed
  have 3: "\<forall>n \<in> set sv. listen_ok s' n" using I by (auto simp: espconn_inv_def intro: listen_ok_kept [OF K])
  have O: "owned as sv s" using I by (simp add: espconn_inv_def)
  have dn: "desc s x \<noteq> NULL" if "x \<in> set as" for x
    using I that by (auto simp: espconn_inv_def active_ok_def conn_at_def desc_def)
  have 4: "owned (as @ [a]) sv s'" unfolding owned_def
  proof (intro conjI ballI impI)
    have "inj_on (desc s') (set as)" using O ds by (simp add: owned_def cong: inj_on_cong)
    then show "inj_on (desc s') (set (as @ [a]))" using F ds da by (auto simp: fits_def)
  next
    fix x y assume x: "x \<in> set (as @ [a])" "srv s' x \<noteq> NULL" and y: "y \<in> set (as @ [a])"
    show "srv s' y \<noteq> desc s' x"
      using x y O F ds da dn [of x] by (cases "x = a"; cases "y = a") (auto simp: owned_def fits_def)
  next
    fix x y assume x: "x \<in> set (as @ [a])" "srv s' x \<noteq> NULL" and y: "y \<in> set sv"
    show "desc s' y \<noteq> desc s' x"
      using x y O F ds da by (cases "x = a") (auto simp: owned_def fits_def)
  next
    fix x assume x: "x \<in> set (as @ [a])" "srv s' x \<noteq> NULL"
    show "\<forall>d e. espconns s' d = Some e \<longrightarrow> d \<noteq> desc s' x \<longrightarrow> es_type e = ESPCONN_TCP
        \<longrightarrow> es_proto e \<noteq> es_proto (the (espconns s' (desc s' x)))"
    proof (cases "x = a")
      case True
      with x(2) F J da show ?thesis by (auto simp: fits_def joined_def)
    next
      case False
      with x O J ds [of x] show ?thesis by (simp add: owned_def joined_def)
    qed
  qed
  have c: "conn_count s' (as @ [a]) d = conn_count s as d + (if ms_preverse m = d then 1 else 0)" for d
    using conn_count_cong [of as s' s d] ds da by (simp add: conn_count_def)
  have al: "allowed s' sv d = allowed s sv d" for d by (rule allowed_kept [OF K]) (use M in auto)
  have 5: "within_limits (as @ [a]) sv s'"
    using I F by (auto simp: within_limits_def c al espconn_inv_def fits_def)
  have Q: "queues as bl s" using I by (simp add: espconn_inv_def)
  have "queues as bl s'"
    by (rule queues_kept [OF K Q subset_refl]) (use M J Q in \<open>simp_all add: joined_def queues_def\<close>)
  moreover have "queue_ok (ec_bufs s') m []" using F by (auto simp: queue_ok_def fits_def acked_first_def)
  moreover have "(\<Union>x \<in> set (as @ [a]). set ((bl(a := [])) x)) = (\<Union>x \<in> set as. set (bl x))"
    using n by (auto split: if_splits)
  ultimately have 6: "queues (as @ [a]) (bl(a := [])) s'" using n J by (auto simp: queues_def joined_def)
  have "rings s'"
    unfolding rings_def
  proof (intro allI impI)
    fix x y rb assume y: "ec_msgs s' x = Some y" "ms_readbuf y = Some rb"
    then have "x \<noteq> a" using J F by (auto simp: joined_def fits_def)
    with y erase_core(2) [OF h(4), of x] I J show "rb_ok rb"
      by (cases "ec_msgs s x") (auto simp: joined_def espconn_inv_def tables_ok_def rings_def)
  qed
  then have 7: "tables_ok s'" using I J by (simp add: espconn_inv_def tables_ok_def joined_def)
  from 1 2 dom 3 4 5 6 7 show ?thesis unfolding espconn_inv_def by blast
qed

text \<open>The invariant for some lists.\<close>

definition espconn_ok :: "ec \<Rightarrow> bool" where
  "espconn_ok s \<longleftrightarrow> (\<exists>as sv bl. espconn_inv as sv bl s)"

lemma espconn_okI: "espconn_inv as sv bl s \<Longrightarrow> espconn_ok s"
  unfolding espconn_ok_def by blast

lemma returns_ok: "espconn_inv as sv bl s \<Longrightarrow> returns r (held Z s) \<Longrightarrow> returns r espconn_ok"
  by (erule returns_mono) (rule espconn_okI [OF inv_held])

lemma returns_ok_answer:
  "espconn_inv as sv bl s \<Longrightarrow> returns r (\<lambda>(_, x). held Z s x) \<Longrightarrow> returns r (\<lambda>(_, x). espconn_ok x)"
  by (erule returns_mono) (auto intro: espconn_okI [OF inv_held])

lemma there_do: "calm E \<Longrightarrow> there (ec_lwip x) obj \<Longrightarrow> obj \<notin> ends c \<Longrightarrow> there (ec_lwip (ec_do E c x)) obj"
  using calmD(4) [of E x obj c] by simp

lemma made:
  assumes "calm E" "ec_new E c x = (p, y)" "p \<noteq> NULL" "obj \<in> makes c p"
  shows "there (ec_lwip y) obj"
  using assms calmD(5) [of E c x obj] by (auto simp: ec_new_def)

text \<open>Taking a client's message off the list again, when there is no route.\<close>

lemma client_undo:
  assumes E: "calm E" and I: "espconn_inv as sv bl s" and a: "a \<in> set as" "bl a = []"
    and m: "\<not> is_server (the (ec_msgs s a))" and p: "there (ec_lwip s) (Tcp_block pcb)"
  shows "returns (do {
      s10 \<leftarrow> active_delete a s;
      b \<leftarrow> deref (lw_tcp (ec_lwip s10)) pcb;
      s11 \<leftarrow> espconn_kill_pcb E (tp_local_port b) s10;
      h \<leftarrow> os_free (ec_msgs s11) a;
      Some (r, s11\<lparr>ec_msgs := h\<rparr>) }) (\<lambda>(_, x). espconn_ok x)"
proof -
  obtain n e where c: "conn_at s a n e" "ec_msgs s a = Some n" "a \<noteq> NULL" by (rule inv_connE [OF I a(1)])
  from I have L: "lists_ok as sv s" "pcb_lists (ec_lwip s)" "length (pktinfo s) = 2"
    by (simp_all add: espconn_inv_def tables_ok_def)
  have ns: "\<not> is_server n" using m c(2) by simp
  obtain h q where d: "active_delete a s = Some (s\<lparr>ec_msgs := h, plink_active := q\<rparr>)" "h a = Some n"
    and e: "\<And>x. x = s\<lparr>ec_msgs := h(a := None), plink_active := q, ec_lwip := ec_lwip x, ec_calls := ec_calls x\<rparr>
      \<Longrightarrow> pcb_lists (ec_lwip x) \<Longrightarrow> ended a as [] n e NULL s x"
    using ended_at_once [where pesp = NULL and e = e, OF L(1) a(1) c(2) ns] by blast
  from p obtain b where b: "lw_tcp (ec_lwip s) pcb = Some b" "pcb \<noteq> NULL" by auto
  have "lwip_only (s\<lparr>ec_msgs := h, plink_active := q\<rparr>)
      (espconn_kill_pcb E (tp_local_port b) (s\<lparr>ec_msgs := h, plink_active := q\<rparr>))"
    using L(2) by (intro kill_pcb_ok [OF E]) simp
  then obtain x cs where x: "espconn_kill_pcb E (tp_local_port b) (s\<lparr>ec_msgs := h, plink_active := q\<rparr>) = Some x"
    "only_lwip (s\<lparr>ec_msgs := h, plink_active := q\<rparr>) cs x" "pcb_lists (ec_lwip x)" by (rule lwip_onlyD)
  define y where "y = x\<lparr>ec_msgs := h(a := None)\<rparr>"
  have y: "y = s\<lparr>ec_msgs := h(a := None), plink_active := q, ec_lwip := ec_lwip y, ec_calls := ec_calls y\<rparr>"
    using x(2) by (auto simp: y_def only_lwip_def)
  have f: "espconns y = espconns s" "length (pktinfo y) = 2" by (subst y, simp add: L(3))+
  have "ended a as (bl a) n e NULL s y" using e [OF y] x(3) a(2) by (simp add: y_def)
  from inv_ended [OF I a(1) c(1) this] f have "espconn_inv (remove1 a as) sv bl y" by simp
  then have "espconn_ok y" by (rule espconn_okI)
  moreover have "ec_msgs x = h" using only_lwip_sel(1) [OF x(2)] by simp
  ultimately show ?thesis using d b c(3) x(1) by (simp add: deref_def os_free_def y_def)
qed

lemma client_rest:
  assumes E: "calm E" and I: "espconn_inv as sv bl s" and a: "a \<in> set as" "bl a = []"
    and m: "ms_espconn_mode (the (ec_msgs s a)) \<noteq> ESPCONN_TCPSERVER_MODE"
    and p: "there (ec_lwip s) (Tcp_block pcb)" and d: "espconns s pesp \<noteq> None" "pesp \<noteq> NULL"
  shows "returns (do {
      s6 \<leftarrow> upd_espconn pesp (\<lambda>e. e\<lparr>es_state := ESPCONN_WAIT\<rparr>) s;
      case ec_ask E (Tcp_connect pcb ip port) (ec_do E (Tcp_bind pcb lport) s6) of (err, s8) \<Rightarrow> do {
        s9 \<leftarrow> upd_common a (\<lambda>c. c\<lparr>cp_err := err\<rparr>) s8;
        if err = git_rte (ee_errs E)
        then do {
          s10 \<leftarrow> active_delete a s9;
          b \<leftarrow> deref (lw_tcp (ec_lwip s10)) pcb;
          s11 \<leftarrow> espconn_kill_pcb E (tp_local_port b) s10;
          h \<leftarrow> os_free (ec_msgs s11) a;
          Some (ESPCONN_RTE, s11\<lparr>ec_msgs := h\<rparr>) }
        else Some (err, s9) } }) (\<lambda>(_, x). espconn_ok x)"
proof -
  let ?Z = "{Tcp_block pcb}"
  have H: "held ?Z s s" using p by (intro inv_start [OF I]) simp
  have undo: "returns (do {
          s10 \<leftarrow> active_delete a x;
          b \<leftarrow> deref (lw_tcp (ec_lwip s10)) pcb;
          s11 \<leftarrow> espconn_kill_pcb E (tp_local_port b) s10;
          h \<leftarrow> os_free (ec_msgs s11) a;
          Some (ESPCONN_RTE, s11\<lparr>ec_msgs := h\<rparr>) }) (\<lambda>(_, x). espconn_ok x)" if x: "held ?Z s x" for x
  proof (rule client_undo [OF E inv_held [OF I x] a])
    have "ec_msgs s a \<noteq> None" using I a by (auto simp: espconn_inv_def active_ok_def conn_at_def)
    from same_kept [THEN kept_the, OF _ _ this, where A = "{a}" and s' = x] x m
    show "\<not> is_server (the (ec_msgs x a))" by (auto simp: held_def is_server_def dest: msg_core_sel(3))
    show "there (ec_lwip x) (Tcp_block pcb)" using x unfolding held_def by blast
  qed
  have fin: "returns (Some (y, x)) (\<lambda>(_, x). espconn_ok x)" if "held ?Z s x" for x and y :: err_t
    using espconn_okI [OF inv_held [OF I that]] by simp
  have u: "returns (upd_common a (\<lambda>c. c\<lparr>cp_err := err\<rparr>) x) (held ?Z s)" if "held ?Z s x" for x err
    by (rule step_upd [OF I that]) (use a in simp_all)
  show ?thesis
    by (intro returns_state [where Z = ?Z and ?s0.0 = s] returns_ask [where Z = ?Z and ?s0.0 = s] returns_if
        held_upd_esp [OF H d] u undo fin held_do E) (assumption | simp)+
qed

text \<open>The connection that \<open>espconn_tcp_client\<close> makes.\<close>

definition client_msg :: "ptr \<Rightarrow> ptr \<Rightarrow> espconn_msg" where
  "client_msg pesp pcb = msg_zero\<lparr>ms_preverse := NULL, ms_pespconn := pesp,
     ms_espconn_mode := ESPCONN_TCPCLIENT_MODE, ms_pcommon := (ms_pcommon msg_zero)\<lparr>cp_pcb := pcb\<rparr>\<rparr>"

lemma client_fits:
  assumes "tcp_desc s pesp" "\<And>b. b \<in> set as \<Longrightarrow> desc s b \<noteq> pesp"
  shows "fits as sv s (client_msg pesp pcb)"
  using assms by (auto simp: fits_def client_msg_def msg_zero_def is_server_def tcp_desc_def
      ESPCONN_TCPCLIENT_MODE_def ESPCONN_TCPSERVER_MODE_def)

lemma tcp_client_ok:
  assumes E: "calm E" and I: "espconn_inv as sv bl s" and T: "tcp_desc s pesp"
    and d: "\<And>b. b \<in> set as \<Longrightarrow> desc s b \<noteq> pesp" and a: "fresh (ec_msgs s) a"
  shows "returns (espconn_tcp_client E a pesp s) (\<lambda>(_, x). espconn_ok x)"
proof (cases "a = NULL")
  case True
  with I show ?thesis by (simp add: espconn_tcp_client_def espconn_okI)
next
  case False
  with a have a: "a \<noteq> NULL" "ec_msgs s a = None" by (auto simp: fresh_def)
  from T obtain e where e: "espconns s pesp = Some e" "es_type e = ESPCONN_TCP" "pesp \<noteq> NULL"
    by (auto simp: tcp_desc_def)
  have "typed s" using I by (simp add: espconn_inv_def)
  then obtain t where t: "es_proto e \<noteq> NULL" "esp_tcps s (es_proto e) = Some t" using e by (elim typedE)
  define s1 where "s1 = s\<lparr>ec_msgs := alloc (ec_msgs s) a msg_zero\<rparr>"
  define s2 where "s2 = ec_do E Tcp_new s1"
  define pcb where "pcb = ee_ptr E Tcp_new s1"
  have nw: "ec_new E Tcp_new s1 = (pcb, s2)" by (simp add: ec_new_def pcb_def s2_def)
  have eq: "deref (espconns s1) pesp = Some e" "deref (esp_tcps s1) (es_proto e) = Some t"
    using e t by (simp_all add: s1_def deref_def)
  have x2: "ec_msgs s2 = (ec_msgs s)(a \<mapsto> msg_zero)" "plink_active s2 = plink_active s"
    using a by (simp_all add: s2_def s1_def alloc_def)
  have lists: "pcb_lists (ec_lwip s)" "lists_ok as sv s" using I by (simp_all add: espconn_inv_def tables_ok_def)
  have l2: "pcb_lists (ec_lwip s2)"
    using lists(1) calmD(2) [OF E] by (simp add: s2_def lists_stay_def s1_def)
  show ?thesis
  proof (cases "pcb = NULL")
    case True
    have "(ec_msgs s2)(a := None) = ec_msgs s" using a(2) x2(1) by auto
    then have "held {} s (s2\<lparr>ec_msgs := (ec_msgs s2)(a := None)\<rparr>)"
      using I l2 by (simp add: held_def same_def rings_def espconn_inv_def tables_ok_def s2_def s1_def)
    from espconn_okI [OF inv_held [OF I this]] show ?thesis
      using True a(1) eq nw x2(1) unfolding espconn_tcp_client_def Let_def s1_def [symmetric]
      by (simp add: os_free_def)
  next
    case False
    obtain h q where h: "active_append a s2 = Some (s2\<lparr>ec_msgs := h, plink_active := q\<rparr>)"
      "h a = Some (set_msg_next NULL msg_zero)" "linked_in s a as sv h q"
      using active_added [OF lists(2) a x2] by blast
    define s4 where "s4 = ec_do E (Tcp_err pcb Client_err) (ec_do E (Tcp_arg pcb a)
      (s2\<lparr>ec_msgs := h, plink_active := q\<rparr>))"
    define s5 where "s5 = s4\<lparr>ec_msgs := h(a \<mapsto> client_msg pesp pcb)\<rparr>"
    have l5: "pcb_lists (ec_lwip s5)" using l2 calmD(2) [OF E] by (simp add: s5_def s4_def lists_stay_def)
    have j: "joined s a (client_msg pesp pcb) h q s5"
      using l5 by (simp add: joined_def) (simp add: s5_def s4_def s2_def s1_def)
    have I5: "espconn_inv (as @ [a]) sv (bl(a := [])) s5"
      by (rule inv_joined [OF I a h(3) j _ client_fits [OF T d]])
        (simp_all add: client_msg_def msg_zero_def)
    have "there (ec_lwip s2) (Tcp_block pcb)" using made [OF E nw False, of "Tcp_block pcb"] by simp
    then have "there (ec_lwip s4) (Tcp_block pcb)"
      unfolding s4_def by (intro there_do [OF E]) simp_all
    then have p5: "there (ec_lwip s5) (Tcp_block pcb)" by (simp add: s5_def)
    have m5: "ms_espconn_mode (the (ec_msgs s5 a)) \<noteq> ESPCONN_TCPSERVER_MODE"
      by (simp add: s5_def client_msg_def ESPCONN_TCPSERVER_MODE_def ESPCONN_TCPCLIENT_MODE_def)
    have "espconns s5 = espconns s" using j by (simp add: joined_def)
    then have r: "returns (do {
      s6 \<leftarrow> upd_espconn pesp (\<lambda>e. e\<lparr>es_state := ESPCONN_WAIT\<rparr>) s5;
      case ec_ask E (Tcp_connect pcb ip port) (ec_do E (Tcp_bind pcb lport) s6) of (err, s8) \<Rightarrow> do {
        s9 \<leftarrow> upd_common a (\<lambda>c. c\<lparr>cp_err := err\<rparr>) s8;
        if err = git_rte (ee_errs E)
        then do {
          s10 \<leftarrow> active_delete a s9;
          b \<leftarrow> deref (lw_tcp (ec_lwip s10)) pcb;
          s11 \<leftarrow> espconn_kill_pcb E (tp_local_port b) s10;
          h \<leftarrow> os_free (ec_msgs s11) a;
          Some (ESPCONN_RTE, s11\<lparr>ec_msgs := h\<rparr>) }
        else Some (err, s9) } }) (\<lambda>(_, x). espconn_ok x)" for ip port lport
      using e by (intro client_rest [OF E I5 _ _ m5 p5]) simp_all
    have u: "upd_msg a (\<lambda>m. m\<lparr>ms_preverse := NULL, ms_pespconn := pesp,
        ms_espconn_mode := ESPCONN_TCPCLIENT_MODE, ms_pcommon := (ms_pcommon m)\<lparr>cp_pcb := pcb\<rparr>\<rparr>) s4 = Some s5"
      using a(1) h(2) by (simp add: upd_msg_def deref_def s4_def) (simp add: s5_def s4_def client_msg_def msg_zero_def)
    show ?thesis
      using r a(1) False unfolding espconn_tcp_client_def Let_def s1_def [symmetric]
      by (simp add: nw eq h(1) s4_def [symmetric] u)
  qed
qed

end
