(* ===== verification/Espconn_Sending.thy ===== *)
theory Espconn_Sending
  imports Espconn_Queues Espconn_Structure
begin

text \<open>
  The calls that send over TCP and UDP and the acknowledgements of lwIP, under the invariant:
  each returns and keeps it.
\<close>

section \<open>Writing\<close>

definition can_send :: "ec \<Rightarrow> ptr \<Rightarrow> bool" where
  "can_send s a \<longleftrightarrow> (let pcb = cp_pcb (ms_pcommon (the (ec_msgs s a)))
     in pcb \<noteq> NULL \<and> (\<exists>b. lw_tcp (ec_lwip s) pcb = Some b \<and> tp_mss b \<noteq> 0))"

lemma inv_queue_ok:
  assumes "espconn_inv as sv bl s" "a \<in> set as" "ec_msgs s a = Some m"
  shows "queue_ok (ec_bufs s) m (bl a)"
  using assms by (auto simp: espconn_inv_def queues_def)

lemma queue_sending:
  assumes Q: "queue_ok (ec_bufs s) m bs" and m: "ec_msgs s a = Some m" "a \<noteq> NULL" and c: "can_send s a"
  obtains ts where "sending a (cp_pcb (ms_pcommon m)) ts s" "set ts \<subseteq> set bs"
proof -
  from Q obtain us ts where "bs = us @ ts" "path eb_pnext (ec_bufs s) (cp_ptail (ms_pcommon m)) ts NULL"
    "\<forall>x \<in> set ts. \<forall>b. ec_bufs s x = Some b \<longrightarrow> eb_punsent b \<noteq> NULL"
    unfolding queue_ok_def by blast
  with m c that [of ts] show thesis by (simp add: sending_def can_send_def Let_def)
qed

lemma tcp_write_requeued:
  assumes E: "calm E" "tcp_stack_ok E" and Q: "queue_ok (ec_bufs s) m bs"
    and m: "ec_msgs s a = Some m" "a \<noteq> NULL" and c: "can_send s a"
  shows "returns (espconn_tcp_write E a s) (\<lambda>(_, x). requeued a bs s x)"
proof -
  obtain ts where ts: "sending a (cp_pcb (ms_pcommon m)) ts s" "set ts \<subseteq> set bs"
    by (rule queue_sending [OF Q m c])
  then obtain err s' where w: "espconn_tcp_write E a s = Some (err, s')"
    using tcp_write_written [OF E(2)] unfolding written_def by blast
  obtain b where b: "lw_tcp (ec_lwip s) (cp_pcb (ms_pcommon m)) = Some b" "cp_pcb (ms_pcommon m) \<noteq> NULL"
    using c m(1) by (auto simp: can_send_def Let_def)
  have "requeued a bs s s'"
  proof (cases "tp_nodelay b \<and> unat (tp_snd_queuelen b) \<ge> TCP_SND_QUEUELEN (ee_mss E)")
    case True
    with w m b show ?thesis by (simp add: espconn_tcp_write_def deref_def)
  next
    case False
    with w m b have "tcp_write_all E a (cp_pcb (ms_pcommon m)) (git_ok (ee_errs E)) s = Some (err, s')"
      by (auto simp: espconn_tcp_write_def deref_def)
    from write_all_requeued [OF this E ts] show ?thesis by simp
  qed
  with w show ?thesis by simp
qed

lemma inv_requeued:
  assumes I: "espconn_inv as sv bl s" and a: "a \<in> set as" and T: "tcp_desc s (desc s a)" and R: "requeued a (bl a) s s'"
  shows "espconn_inv as sv bl s'"
proof -
  obtain m where m: "ec_msgs s a = Some m" by (rule inv_connE [OF I a])
  have Q: "queue_ok (ec_bufs s') (the (ec_msgs s' a)) (bl a)"
    using R inv_queue_ok [OF I a m] m by (simp add: requeued_def)
  have "set (bl a) \<subseteq> dom (ec_bufs s)" using I a by (auto simp: espconn_inv_def queues_def)
  with R have "espconn_inv as sv (bl(a := bl a)) s'"
    by (intro inv_queue [OF I a T _ Q]) (auto simp: requeued_def)
  then show ?thesis by simp
qed

section \<open>Sending over TCP\<close>

lemma buf_count_ok:
  "path eb_pnext h p bs NULL \<Longrightarrow> returns (buf_count_loop h p n) (\<lambda>_. True)"
proof (induction bs arbitrary: p n)
  case Nil
  then show ?case by (simp add: buf_count_loop.simps)
next
  case (Cons b bs)
  then obtain d where "h b = Some d" "b \<noteq> NULL" "p = b" "path eb_pnext h (eb_pnext d) bs NULL"
    by (auto dest: deref_SomeD)
  with Cons.IH show ?case by (simp add: buf_count_loop.simps [of h b] deref_def)
qed

text \<open>A new buffer at the end of the queue.\<close>

definition new_buf :: "ptr \<Rightarrow> u16 \<Rightarrow> espconn_buf" where
  "new_buf p len = buf_zero\<lparr>eb_payload := p, eb_punsent := p, eb_unsent := len, eb_len := len\<rparr>"

definition appended :: "(ptr \<rightharpoonup> espconn_buf) \<Rightarrow> ptr list \<Rightarrow> ptr \<Rightarrow> ptr \<Rightarrow> u16 \<Rightarrow> (ptr \<rightharpoonup> espconn_buf) \<Rightarrow> bool" where
  "appended h bs a p len h' \<longleftrightarrow> path eb_pnext h' (hd (bs @ [a])) (bs @ [a]) NULL
     \<and> h' a = Some (new_buf p len) \<and> (\<forall>x. x \<noteq> a \<longrightarrow> erase set_buf_next h' x = erase set_buf_next h x)
     \<and> (\<forall>x. x \<notin> set (a # bs) \<longrightarrow> h' x = h x)"

lemma buf_added:
  assumes p: "path eb_pnext h q bs NULL" and a: "a \<noteq> NULL" "h a = None"
  shows "\<exists>h'. list_append eb_pnext set_buf_next (h(a \<mapsto> new_buf p len)) q a = Some (h', hd (bs @ [a]))
    \<and> appended h bs a p len h'"
proof -
  have n: "a \<notin> set bs" using path_deref [OF p, of a] a by (auto simp: deref_def)
  let ?h = "h(a \<mapsto> new_buf p len)"
  have "path eb_pnext ?h q bs NULL" "deref ?h a = Some (new_buf p len)" using p n a by (simp_all add: deref_def)
  from bufs.append_ok [OF this n] obtain h' where h':
    "list_append eb_pnext set_buf_next ?h q a = Some (h', hd (bs @ [a]))"
    "path eb_pnext h' (hd (bs @ [a])) (bs @ [a]) NULL" "erase set_buf_next h' = erase set_buf_next ?h"
    "\<forall>b. b \<notin> set (a # bs) \<longrightarrow> h' b = ?h b" by blast
  have "erase set_buf_next h' a = Some (set_buf_next NULL (new_buf p len))" using h'(3) by (simp add: erase_def)
  then obtain b where b: "h' a = Some b" "set_buf_next NULL b = set_buf_next NULL (new_buf p len)"
    by (auto simp: erase_def)
  have "eb_pnext b = NULL" using h'(2) b(1) a(1) by (auto simp: path_append deref_def)
  then have "b = set_buf_next NULL b" by simp
  also have "\<dots> = new_buf p len" unfolding b(2) by (simp add: new_buf_def buf_zero_def)
  finally have "h' a = Some (new_buf p len)" using b(1) by simp
  moreover have "erase set_buf_next h' x = erase set_buf_next h x" if "x \<noteq> a" for x
    using h'(3) that by (simp add: erase_def)
  ultimately have "appended h bs a p len h'" using h'(2,4) by (simp add: appended_def)
  with h'(1) show ?thesis by blast
qed

lemma erase_buf:
  assumes "erase set_buf_next h' x = erase set_buf_next h x" "h' x = Some b'"
  obtains b where "h x = Some b" "eb_unsent b' = eb_unsent b" "eb_punsent b' = eb_punsent b" "eb_len b' = eb_len b"
    "eb_tot_len b' = eb_tot_len b"
proof -
  from assms obtain b where b: "h x = Some b" "set_buf_next NULL b' = set_buf_next NULL b"
    by (cases "h x") (auto simp: erase_def)
  from b(2) have "eb_unsent b' = eb_unsent b" "eb_punsent b' = eb_punsent b" "eb_len b' = eb_len b"
    "eb_tot_len b' = eb_tot_len b" by (cases b; cases b'; simp)+
  with b(1) that show thesis by blast
qed

lemma queue_appended:
  assumes Q: "queue_ok h m bs" and A: "appended h bs a p len h'" and a: "a \<notin> set bs" "a \<noteq> NULL" and p: "p \<noteq> NULL" "len \<noteq> 0"
    and m': "cp_pbuf (ms_pcommon m') = hd (bs @ [a])"
      "cp_ptail (ms_pcommon m') = (if cp_ptail (ms_pcommon m) = NULL then a else cp_ptail (ms_pcommon m))"
  shows "queue_ok h' m' (bs @ [a])"
proof -
  from Q obtain us ts where u: "bs = us @ ts" "path eb_pnext h (cp_ptail (ms_pcommon m)) ts NULL"
    "\<forall>a \<in> set us. \<forall>b. h a = Some b \<longrightarrow> eb_unsent b = 0"
    "\<forall>a \<in> set ts. \<forall>b. h a = Some b \<longrightarrow> eb_punsent b \<noteq> NULL"
    "\<forall>a \<in> set (tl ts). \<forall>b. h a = Some b \<longrightarrow> eb_unsent b = eb_len b" "acked_first h bs"
    "\<forall>a \<in> set bs. \<forall>b. h a = Some b \<longrightarrow> eb_len b \<noteq> 0 \<and> eb_unsent b \<le> eb_len b"
    unfolding queue_ok_def by blast
  from A have pa: "path eb_pnext h' (hd (bs @ [a])) (bs @ [a]) NULL" and ha: "h' a = Some (new_buf p len)"
    and old: "\<And>x. x \<in> set bs \<Longrightarrow> erase set_buf_next h' x = erase set_buf_next h x"
    using a(1) unfolding appended_def by metis+
  have nb: "eb_unsent (new_buf p len) = len" "eb_len (new_buf p len) = len" "eb_punsent (new_buf p len) = p"
    "eb_tot_len (new_buf p len) = 0" by (simp_all add: new_buf_def buf_zero_def)
  note ob = erase_buf [OF old]
  obtain q where q: "path eb_pnext h' q (ts @ [a]) NULL" using pa u(1) by (auto simp: path_append)
  have "q = (if cp_ptail (ms_pcommon m) = NULL then a else cp_ptail (ms_pcommon m))"
    using q u(2) by (cases ts) (auto dest: deref_SomeD)
  with q m'(2) have pt: "path eb_pnext h' (cp_ptail (ms_pcommon m')) (ts @ [a]) NULL" by simp
  show ?thesis
  proof (rule queueI)
    show "bs @ [a] = us @ (ts @ [a])" by (simp add: u(1))
    show "path eb_pnext h' (cp_pbuf (ms_pcommon m')) (bs @ [a]) NULL" using pa m'(1) by simp
    show "path eb_pnext h' (cp_ptail (ms_pcommon m')) (ts @ [a]) NULL" by (rule pt)
    show "acked_first h' (bs @ [a])"
      unfolding acked_first_def
    proof (intro ballI allI impI)
      fix x b assume x: "x \<in> set (tl (bs @ [a]))" "h' x = Some b"
      show "eb_tot_len b = 0"
      proof (cases "x \<in> set (tl bs)")
        case True
        then have xb: "x \<in> set bs" by (cases bs) auto
        obtain c where "h x = Some c" "eb_tot_len b = eb_tot_len c" by (rule ob [OF xb x(2)])
        with True u(6) show ?thesis by (simp add: acked_first_def)
      next
        case False
        with x have "x = a" by (cases bs) auto
        with x ha nb show ?thesis by simp
      qed
    qed
    show "eb_unsent d = 0" if "x \<in> set us" "h' x = Some d" for x d
      using that u(1,3) by (elim ob [rotated]) auto
    show "eb_punsent d \<noteq> NULL" if x: "x \<in> set (ts @ [a])" "h' x = Some d" for x d
    proof (cases "x = a")
      case False
      then have "x \<in> set bs" using x u(1) by simp
      then show ?thesis using False x u(4) by (elim ob [OF _ x(2)]) auto
    qed (use x ha nb p in simp)
    show "eb_unsent d = eb_len d" if x: "x \<in> set (tl (ts @ [a]))" "h' x = Some d" for x d
    proof (cases "x = a")
      case False
      then have xt: "x \<in> set (tl ts)" using x by (cases ts) auto
      then have "x \<in> set bs" using u(1) by (cases ts) auto
      then show ?thesis using xt u(5) by (elim ob [OF _ x(2)]) auto
    qed (use x ha nb in simp)
    show "eb_len d \<noteq> 0 \<and> eb_unsent d \<le> eb_len d" if x: "x \<in> set (bs @ [a])" "h' x = Some d" for x d
    proof (cases "x = a")
      case False
      then have xb: "x \<in> set bs" using x by simp
      obtain b where b: "h x = Some b" "eb_unsent d = eb_unsent b" "eb_len d = eb_len b" by (rule ob [OF xb x(2)])
      have "eb_len b \<noteq> 0 \<and> eb_unsent b \<le> eb_len b" using xb b(1) u(7) by blast
      with b show ?thesis by simp
    qed (use x ha nb p in simp)
  qed
qed

text \<open>A connection with a new buffer, before it is written.\<close>

lemma inv_buffered:
  assumes I: "espconn_inv as sv bl s" and n: "n \<in> set as" "ec_msgs s n = Some m" and T: "tcp_desc s (desc s n)"
    and a: "a \<noteq> NULL" "ec_bufs s a = None" and p: "p \<noteq> NULL" "len \<noteq> 0" and A: "appended (ec_bufs s) (bl n) a p len h"
    and x: "x = s\<lparr>ec_bufs := h, ec_msgs := (ec_msgs s)(n \<mapsto> m\<lparr>ms_pcommon := c\<rparr>)\<rparr>"
    and c: "cp_pbuf c = hd (bl n @ [a])" "cp_ptail c = (if cp_ptail (ms_pcommon m) = NULL then a else cp_ptail (ms_pcommon m))"
  shows "espconn_inv as sv (bl(n := bl n @ [a])) x"
proof -
  have q0: "queues as bl s" using I by (simp add: espconn_inv_def)
  then have sub: "set (bl n) \<subseteq> dom (ec_bufs s)" using n(1) by (auto simp: queues_def)
  with a(2) have na: "a \<notin> set (bl n)" by auto
  have dh: "h y = None \<longleftrightarrow> y \<noteq> a \<and> ec_bufs s y = None" for y
  proof (cases "y = a")
    case False
    then have "erase set_buf_next h y = erase set_buf_next (ec_bufs s) y" using A by (simp add: appended_def)
    then show ?thesis using False by (simp add: erase_def) (metis option.map_disc_iff)
  qed (use A in \<open>simp add: appended_def\<close>)
  show ?thesis
  proof (rule inv_queue [OF I n(1) T])
    show "only_conn n s x" using n(2) by (simp add: x only_conn_def msg_key_def)
    show "queue_ok (ec_bufs x) (the (ec_msgs x n)) (bl n @ [a])"
      using queue_appended [OF inv_queue_ok [OF I n] A na a(1) p, of "m\<lparr>ms_pcommon := c\<rparr>"] c by (simp add: x)
    show "ec_bufs x y = ec_bufs s y" if "y \<notin> set (bl n) \<union> set (bl n @ [a])" for y
      using that A by (simp add: x appended_def)
    show "dom (ec_bufs x) = dom (ec_bufs s) - set (bl n) \<union> set (bl n @ [a])"
    proof -
      have "dom h = insert a (dom (ec_bufs s))" using dh by (auto simp: dom_def)
      with sub show ?thesis by (auto simp: x)
    qed
    show "set (bl n @ [a]) \<inter> (dom (ec_bufs s) - set (bl n)) = {}" using a(2) by auto
  qed
qed

lemma sent_tcp_ok:
  assumes E: "calm E" "tcp_stack_ok E" and I: "espconn_inv as sv bl s" and n: "n \<in> set as" and T: "tcp_desc s (desc s n)"
    and c: "can_send s n" and f: "fresh (ec_bufs s) a" and p: "p \<noteq> NULL" "len \<noteq> 0"
  shows "returns (espconn_sent_tcp E a n p len s) (\<lambda>(_, x). espconn_ok x)"
proof -
  obtain m where m: "ec_msgs s n = Some m" "n \<noteq> NULL" by (rule inv_connE [OF I n])
  have Q: "queue_ok (ec_bufs s) m (bl n)" by (rule inv_queue_ok [OF I n m(1)])
  then have pa: "path eb_pnext (ec_bufs s) (cp_pbuf (ms_pcommon m)) (bl n) NULL" by (simp add: queue_ok_def)
  obtain b where b: "lw_tcp (ec_lwip s) (cp_pcb (ms_pcommon m)) = Some b" "cp_pcb (ms_pcommon m) \<noteq> NULL" "tp_mss b \<noteq> 0"
    using c m(1) by (auto simp: can_send_def Let_def)
  note ok = espconn_okI [OF I]
  obtain k where k: "espconn_tcp_get_buf_count (cp_pbuf (ms_pcommon m)) s = Some k"
    using buf_count_ok [OF pa, of 0] by (auto simp: espconn_tcp_get_buf_count_def returns_def)
  have "\<exists>full. (if \<not> espconn_copy_disabled m
        then map_option (\<lambda>k. k \<ge> cp_pbuf_num (ms_pcommon m)) (espconn_tcp_get_buf_count (cp_pbuf (ms_pcommon m)) s)
        else map_option (\<lambda>b. unat (tp_snd_queuelen b) \<ge> TCP_SND_QUEUELEN (ee_mss E))
               (deref (lw_tcp (ec_lwip s)) (cp_pcb (ms_pcommon m)))) = Some full"
    using k b by (simp add: deref_def)
  then obtain full where full: "(if \<not> espconn_copy_disabled m
        then map_option (\<lambda>k. k \<ge> cp_pbuf_num (ms_pcommon m)) (espconn_tcp_get_buf_count (cp_pbuf (ms_pcommon m)) s)
        else map_option (\<lambda>b. unat (tp_snd_queuelen b) \<ge> TCP_SND_QUEUELEN (ee_mss E))
               (deref (lw_tcp (ec_lwip s)) (cp_pcb (ms_pcommon m)))) = Some full" by blast
  note run = espconn_sent_tcp_def [of E a n p len s]
  show ?thesis
  proof (cases "\<not> cp_write_flag (ms_pcommon m) \<or> full \<or> a = NULL")
    case True
    have "espconn_sent_tcp E a n p len s = Some (if \<not> cp_write_flag (ms_pcommon m) then ESPCONN_ARG
        else if full then ESPCONN_MAXNUM else ESPCONN_MEM, s)"
      using m full True by (auto simp: run deref_def [of "ec_msgs s"] cong del: if_weak_cong)
    with ok show ?thesis by simp
  next
    case False
    then have w: "cp_write_flag (ms_pcommon m)" "\<not> full" "a \<noteq> NULL" by auto
    with f have a: "ec_bufs s a = None" by (simp add: fresh_def)
    obtain h where h: "list_append eb_pnext set_buf_next ((ec_bufs s)(a \<mapsto> new_buf p len)) (cp_pbuf (ms_pcommon m)) a
        = Some (h, hd (bl n @ [a]))" "appended (ec_bufs s) (bl n) a p len h"
      using buf_added [OF pa w(3) a] by blast
    define c1 where "c1 = (ms_pcommon m)\<lparr>cp_pbuf := hd (bl n @ [a])\<rparr>"
    define c2 where "c2 = (if cp_ptail c1 = NULL then c1\<lparr>cp_ptail := a\<rparr> else c1)"
    define c3 where "c3 = (if espconn_copy_disabled m then c2\<lparr>cp_write_flag := False\<rparr> else c2)"
    define x where "x = s\<lparr>ec_bufs := h, ec_msgs := (ec_msgs s)(n \<mapsto> m\<lparr>ms_pcommon := c3\<rparr>)\<rparr>"
    have r: "espconn_sent_tcp E a n p len s = espconn_tcp_write E n x"
      using m full w h(1)
      by (simp add: run deref_def [of "ec_msgs s"] alloc_def pbuf_append_def espconn_pbuf_create_def
          new_buf_def [symmetric] upd_common_def upd_msg_def deref_def c1_def c2_def c3_def x_def
          cong del: if_weak_cong)
    have c3: "cp_pbuf c3 = hd (bl n @ [a])" "cp_pcb c3 = cp_pcb (ms_pcommon m)"
      "cp_ptail c3 = (if cp_ptail (ms_pcommon m) = NULL then a else cp_ptail (ms_pcommon m))"
      by (simp_all add: c3_def c2_def c1_def)
    have J: "espconn_inv as sv (bl(n := bl n @ [a])) x"
      by (rule inv_buffered [OF I n m(1) T w(3) a p h(2) x_def c3(1,3)])
    have mx: "ec_msgs x n = Some (m\<lparr>ms_pcommon := c3\<rparr>)" by (simp add: x_def)
    have "can_send x n" using b by (simp add: can_send_def x_def c3(2))
    from tcp_write_requeued [OF E inv_queue_ok [OF J n mx] mx m(2) this]
    obtain err y where y: "espconn_tcp_write E n x = Some (err, y)" "requeued n ((bl(n := bl n @ [a])) n) x y"
      by (auto simp: returns_def)
    have "tcp_desc x (desc x n)" using T m(1) by (simp add: tcp_desc_def desc_def x_def)
    from inv_requeued [OF J n this y(2)] r y(1) show ?thesis by (simp add: espconn_okI)
  qed
qed

section \<open>Acknowledgements\<close>

text \<open>What settling leaves alone: all but the queue's head and the counts of acknowledged bytes.\<close>

definition settles :: "ptr \<Rightarrow> ec \<Rightarrow> ec \<Rightarrow> bool" where
  "settles a s x \<longleftrightarrow> only_conn a s x
     \<and> (\<forall>m. ec_msgs s a = Some m \<longrightarrow> (\<exists>m'. ec_msgs x a = Some m' \<and> cp_ptail (ms_pcommon m') = cp_ptail (ms_pcommon m)))
     \<and> (\<forall>y b'. ec_bufs x y = Some b' \<longrightarrow> (\<exists>b. ec_bufs s y = Some b \<and> b' = b\<lparr>eb_tot_len := eb_tot_len b'\<rparr>))"

lemma settles_refl [simp]: "settles a s s"
  by (simp add: settles_def)

lemma settles_trans:
  assumes "settles a s s1" "settles a s1 s2"
  shows "settles a s s2"
proof -
  have "\<exists>b. ec_bufs s y = Some b \<and> b' = b\<lparr>eb_tot_len := eb_tot_len b'\<rparr>" if "ec_bufs s2 y = Some b'" for y b'
  proof -
    obtain b1 where b1: "ec_bufs s1 y = Some b1" "b' = b1\<lparr>eb_tot_len := eb_tot_len b'\<rparr>"
      using assms(2) \<open>ec_bufs s2 y = Some b'\<close> unfolding settles_def by blast
    then obtain b where "ec_bufs s y = Some b" "b1 = b\<lparr>eb_tot_len := eb_tot_len b1\<rparr>"
      using assms(1) unfolding settles_def by blast
    with b1 show ?thesis by (metis espconn_buf.surjective espconn_buf.update_convs(5))
  qed
  with assms show ?thesis unfolding settles_def by (fastforce intro: only_conn_trans)
qed

lemma settles_common:
  assumes "upd_common a f s = Some s'" "\<And>c. cp_ptail (f c) = cp_ptail c"
  shows "settles a s s'"
  using only_conn_common [OF assms(1)] assms(1)
  by (elim upd_commonE) (auto simp: settles_def assms(2))

lemma settles_esp:
  assumes "upd_espconn d f s = Some s'" "\<And>e. es_type (f e) = es_type e" "\<And>e. es_proto (f e) = es_proto e"
  shows "settles a s s'"
  using only_conn_esp [OF assms, of a] assms(1) by (elim upd_espconnE) (simp add: settles_def)

lemma settles_user: "calm E \<Longrightarrow> settles a s (ec_user E c s)"
  using only_conn_user [of E a s c] by (simp add: settles_def ec_user_quiet calmD(1))

lemma settles_counted:
  "ec_bufs s p = Some b \<Longrightarrow> settles a s (s\<lparr>ec_bufs := (ec_bufs s)(p \<mapsto> b\<lparr>eb_tot_len := k\<rparr>)\<rparr>)"
  by (simp add: settles_def only_conn_def)

lemma settles_freed: "settles a s (s\<lparr>ec_bufs := (ec_bufs s)(p := None)\<rparr>)"
  by (simp add: settles_def only_conn_def)

text \<open>Taking the first buffer off the list changes no buffer.\<close>

lemma head_deleted:
  assumes "pbuf_delete a p s = Some s'" "ec_msgs s a = Some m" "cp_pbuf (ms_pcommon m) = p" "p \<noteq> NULL"
  shows "settles a s s'" "ec_bufs s' = ec_bufs s"
proof -
  have "a \<noteq> NULL" using assms(1) by (cases "a = NULL") (simp_all add: pbuf_delete_def)
  with assms obtain n where n: "ec_bufs s p = Some n"
    "upd_common a (\<lambda>c. c\<lparr>cp_pbuf := eb_pnext n\<rparr>) (s\<lparr>ec_bufs := (ec_bufs s)(p \<mapsto> n)\<rparr>) = Some s'"
    by (cases "ec_bufs s p") (simp_all add: pbuf_delete_def espconn_pbuf_delete_def list_delete_def deref_def)
  have "s\<lparr>ec_bufs := (ec_bufs s)(p \<mapsto> n)\<rparr> = s" using n(1) by (simp add: fun_upd_idem)
  with n(2) have u: "upd_common a (\<lambda>c. c\<lparr>cp_pbuf := eb_pnext n\<rparr>) s = Some s'" by simp
  then show "settles a s s'" by (rule settles_common) simp
  from u show "ec_bufs s' = ec_bufs s" by (elim upd_commonE) simp
qed

lemma finish_loop_settles:
  "tcp_finish_loop E arg len s = Some s' \<Longrightarrow> calm E \<Longrightarrow> settles arg s s'"
proof (induction E arg len s s' rule: finish_loop_induct)
  case (step loop E arg len s s')
  note E = step(3)
  have IH: "yields (loop E arg l x) (settles arg s)" if "settles arg s x" for l x
    using step(1) [OF _ E] that by (auto simp: yields_def intro: settles_trans)
  have cm: "yields (upd_common arg (\<lambda>c. c\<lparr>cp_packet_info := g c\<rparr>) x) (settles arg s)" if "settles arg s x" for g x
    using settles_trans [OF that settles_common] by (simp add: yields_def)
  have es: "yields (upd_espconn d (\<lambda>e. e\<lparr>es_state := v\<rparr>) x) (settles arg s)" if "settles arg s x" for d v x
    using settles_trans [OF that settles_esp] by (simp add: yields_def)
  have us: "settles arg s (if b then ec_user E c x else x)" if "settles arg s x" for b c x
    using settles_trans [OF that settles_user [OF E]] that by simp
  have fr: "yields (os_free (ec_bufs x) p \<bind> f) (settles arg s)"
    if "settles arg s x" "\<And>h. settles arg s (x\<lparr>ec_bufs := h\<rparr>) \<Longrightarrow> yields (f h) (settles arg s)" for x p f
  proof (cases "os_free (ec_bufs x) p")
    case (Some h)
    then have "h = (ec_bufs x)(p := None) \<or> h = ec_bufs x" by (auto simp: os_free_def split: if_splits option.splits)
    with that settles_trans [OF that(1) settles_freed] have "settles arg s (x\<lparr>ec_bufs := h\<rparr>)" by auto
    with Some that(2) show ?thesis by (simp add: yields_def)
  qed (simp add: yields_def)
  have dl: "yields (pbuf_delete arg (cp_pbuf (ms_pcommon m)) (s\<lparr>ec_bufs := (ec_bufs s)(cp_pbuf (ms_pcommon m) \<mapsto> b\<lparr>eb_tot_len := k\<rparr>)\<rparr>))
      (settles arg s)"
    if "ec_msgs s arg = Some m" "cp_pbuf (ms_pcommon m) \<noteq> NULL" "ec_bufs s (cp_pbuf (ms_pcommon m)) = Some b" for m b k
    using settles_trans [OF settles_counted [OF that(3)] head_deleted(1)] that by (simp add: yields_def)
  have "yields (Some s') (settles arg s)"
    unfolding step(2) [symmetric] Let_def
    by (intro yields_if yields_deref yields_Some settles_refl settles_counted yields_bind [OF dl] fr
        yields_bind [OF cm] yields_bind [OF es] us IH; assumption)
  then show ?case by (simp add: yields_def)
qed

text \<open>The bytes of a queue that lwIP has got.\<close>

definition handed :: "(ptr \<rightharpoonup> espconn_buf) \<Rightarrow> ptr list \<Rightarrow> nat" where
  "handed h bs = sum_list (map (\<lambda>a. unat (eb_len (the (h a))) - unat (eb_unsent (the (h a)))) bs)"

lemma handed_append: "handed h (xs @ ys) = handed h xs + handed h ys"
  by (simp add: handed_def)

lemma handed_le: "handed h bs \<le> sum_list (buf_lens h bs)"
  unfolding handed_def buf_lens_def by (rule sum_list_mono) simp

lemma handed_none:
  assumes "\<And>a. a \<in> set bs \<Longrightarrow> eb_unsent (the (h a)) = eb_len (the (h a))"
  shows "handed h bs = 0"
  using assms by (induction bs) (simp_all add: handed_def)

text \<open>
  A buffer \<open>t\<close> that still has bytes to send is not covered by as many acknowledged bytes as
  lwIP has got.
\<close>

lemma handed_covers:
  assumes Q: "queue_ok h m bs" and t: "h t = Some b" "eb_unsent b \<noteq> 0" and bs: "bs = us @ t # ts"
  shows "handed h bs < sum_list (take (Suc (length us)) (buf_lens h bs))"
proof -
  from Q obtain us0 ts0 where u: "bs = us0 @ ts0" "\<forall>a \<in> set us0. \<forall>b. h a = Some b \<longrightarrow> eb_unsent b = 0"
    "\<forall>a \<in> set (tl ts0). \<forall>b. h a = Some b \<longrightarrow> eb_unsent b = eb_len b"
    "path eb_pnext h (cp_pbuf (ms_pcommon m)) bs NULL"
    "\<forall>a \<in> set bs. \<forall>b. h a = Some b \<longrightarrow> eb_len b \<noteq> 0 \<and> eb_unsent b \<le> eb_len b"
    unfolding queue_ok_def by blast
  have "t \<notin> set us0" using u(2) t by auto
  with bs u(1) obtain vs where "ts0 = vs @ t # ts"
    by (auto simp: append_eq_append_conv2 append_eq_Cons_conv)
  then have sub: "set ts \<subseteq> set (tl ts0)" by (cases vs) auto
  have "eb_unsent (the (h a)) = eb_len (the (h a))" if "a \<in> set ts" for a
  proof -
    have "a \<in> set bs" using that bs by simp
    then obtain d where "h a = Some d" using path_deref [OF u(4)] by (auto dest: deref_SomeD)
    with u(3) sub that show ?thesis by auto
  qed
  then have "handed h ts = 0" by (rule handed_none)
  moreover have "unat (eb_len b) - unat (eb_unsent b) < unat (eb_len b)"
  proof -
    have "eb_len b \<noteq> 0 \<and> eb_unsent b \<le> eb_len b" using u(5) t(1) bs by simp
    then have "0 < unat (eb_len b)" by (simp add: unat_gt_0)
    moreover have "0 < unat (eb_unsent b)" using t(2) by (simp add: unat_gt_0)
    ultimately show ?thesis by simp
  qed
  moreover have "handed h [t] = unat (eb_len b) - unat (eb_unsent b)" using t(1) by (simp add: handed_def)
  moreover have "handed h bs = handed h us + handed h [t] + handed h ts"
    unfolding bs using handed_append [of h us "[t] @ ts"] handed_append [of h "[t]" ts] by simp
  moreover have "sum_list (take (Suc (length us)) (buf_lens h bs)) = sum_list (buf_lens h us) + unat (eb_len b)"
    using t(1) by (simp add: bs buf_lens_def)
  ultimately show ?thesis using handed_le [of h us] by simp
qed

lemma take_sum_mono: "m \<le> n \<Longrightarrow> sum_list (take m xs) \<le> sum_list (take n (xs::nat list))"
  by (metis le_add1 le_add_diff_inverse sum_list_append take_add)

text \<open>The queue after its first \<open>n\<close> buffers, all of them sent, are settled.\<close>

lemma queue_settled:
  assumes Q: "queue_ok (ec_bufs s) m bs" and m: "ec_msgs s a = Some m" and S: "settles a s s'"
    and C: "conn_bufs a (drop n bs) pe f s'" "acked_first (ec_bufs s') (drop n bs)"
    and n: "\<And>us ts t. cp_ptail (ms_pcommon m) = t \<Longrightarrow> t \<noteq> NULL \<Longrightarrow> bs = us @ t # ts \<Longrightarrow> n \<le> length us"
  shows "queue_ok (ec_bufs s') (the (ec_msgs s' a)) (drop n bs)"
proof -
  from Q obtain us ts where u: "bs = us @ ts" "path eb_pnext (ec_bufs s) (cp_ptail (ms_pcommon m)) ts NULL"
    "\<forall>a \<in> set us. \<forall>b. ec_bufs s a = Some b \<longrightarrow> eb_unsent b = 0"
    "\<forall>a \<in> set ts. \<forall>b. ec_bufs s a = Some b \<longrightarrow> eb_punsent b \<noteq> NULL"
    "\<forall>a \<in> set (tl ts). \<forall>b. ec_bufs s a = Some b \<longrightarrow> eb_unsent b = eb_len b"
    "\<forall>a \<in> set bs. \<forall>b. ec_bufs s a = Some b \<longrightarrow> eb_len b \<noteq> 0 \<and> eb_unsent b \<le> eb_len b"
    unfolding queue_ok_def by blast
  obtain m' where m': "ec_msgs s' a = Some m'" "cp_ptail (ms_pcommon m') = cp_ptail (ms_pcommon m)"
    using S m by (auto simp: settles_def)
  have p: "path eb_pnext (ec_bufs s') (cp_pbuf (ms_pcommon m')) (drop n bs) NULL"
    using C(1) m'(1) by (auto simp: conn_bufs_def)
  have d: "drop n bs = drop n us @ ts"
  proof (cases ts)
    case (Cons t ts')
    then have "cp_ptail (ms_pcommon m) = t" "t \<noteq> NULL" using u(2) by (auto dest: deref_SomeD)
    with n [of t us ts'] u(1) Cons show ?thesis by simp
  qed (simp add: u(1))
  have pt: "path eb_pnext (ec_bufs s') (cp_ptail (ms_pcommon m)) ts NULL"
  proof (cases ts)
    case Nil
    with u(2) show ?thesis by simp
  next
    case (Cons t ts')
    then have "cp_ptail (ms_pcommon m) = t" using u(2) by auto
    moreover obtain q where "path eb_pnext (ec_bufs s') q ts NULL" using p d by (auto simp: path_append)
    ultimately show ?thesis using Cons by auto
  qed
  have old: "\<exists>b. ec_bufs s x = Some b \<and> eb_unsent d = eb_unsent b \<and> eb_punsent d = eb_punsent b \<and> eb_len d = eb_len b"
    if "ec_bufs s' x = Some d" for x d
  proof -
    obtain b where "ec_bufs s x = Some b" "d = b\<lparr>eb_tot_len := eb_tot_len d\<rparr>"
      using S \<open>ec_bufs s' x = Some d\<close> unfolding settles_def by blast
    then show ?thesis by (cases b; cases d; simp)
  qed
  have "queue_ok (ec_bufs s') m' (drop n bs)"
  proof (rule queueI [OF d p])
    show "path eb_pnext (ec_bufs s') (cp_ptail (ms_pcommon m')) ts NULL" using pt m'(2) by simp
    show "acked_first (ec_bufs s') (drop n bs)" by (rule C(2))
    show "eb_unsent d = 0" if "x \<in> set (drop n us)" "ec_bufs s' x = Some d" for x d
      using old [OF that(2)] u(3) in_set_dropD [OF that(1)] by auto
    show "eb_punsent d \<noteq> NULL" if "x \<in> set ts" "ec_bufs s' x = Some d" for x d
      using old [OF that(2)] u(4) that(1) by auto
    show "eb_unsent d = eb_len d" if "x \<in> set (tl ts)" "ec_bufs s' x = Some d" for x d
      using old [OF that(2)] u(5) that(1) by auto
    show "eb_len d \<noteq> 0 \<and> eb_unsent d \<le> eb_len d" if "x \<in> set (drop n bs)" "ec_bufs s' x = Some d" for x d
      using old [OF that(2)] u(6) in_set_dropD [OF that(1)] by auto
  qed
  with m'(1) show ?thesis by simp
qed

text \<open>
  What may be acknowledged: bytes that lwIP got and has not reported yet; and lwIP has room to
  send again when it reports them.
\<close>

definition may_acknowledge :: "ec_env \<Rightarrow> ec \<Rightarrow> ptr \<Rightarrow> ptr list \<Rightarrow> u16 \<Rightarrow> bool" where
  "may_acknowledge E s a bs len \<longleftrightarrow> (\<exists>b. lw_tcp (ec_lwip s) (cp_pcb (ms_pcommon (the (ec_msgs s a)))) = Some b
       \<and> tp_snd_buf b \<noteq> 0 \<and> unat (tp_snd_queuelen b) < TCP_SND_QUEUELEN (ee_mss E))
     \<and> can_send s a \<and> len \<noteq> 0
     \<and> acked (ec_bufs s) bs + unat len \<le> handed (ec_bufs s) bs \<and> acked (ec_bufs s) bs + unat len < 2 ^ 16"

lemma counted_requeued:
  assumes A: "counted_in a pcb b len s s2" and Q: "queue_ok (ec_bufs s) m (b # bs)" and m: "ec_msgs s a = Some m"
  shows "requeued a (b # bs) s s2" "ec_lwip s2 = ec_lwip s" "map_option eb_unsent \<circ> ec_bufs s2 = map_option eb_unsent \<circ> ec_bufs s"
proof -
  from A m obtain c d where d: "ec_bufs s b = Some d"
    and s2: "s2 = s\<lparr>ec_bufs := (ec_bufs s)(b \<mapsto> d\<lparr>eb_tot_len := eb_tot_len d + len\<rparr>),
      ec_msgs := (ec_msgs s)(a \<mapsto> m\<lparr>ms_pcommon := c\<rparr>)\<rparr>"
    and c: "cp_pbuf c = cp_pbuf (ms_pcommon m)" "cp_ptail c = cp_ptail (ms_pcommon m)"
    unfolding counted_in_def by auto
  have px: "path eb_pnext (ec_bufs s2) q as r" if "path eb_pnext (ec_bufs s) q as r" for q as r
    using that by (rule path_same_next) (use d in \<open>simp add: s2\<close>)
  from Q obtain us ts where u: "b # bs = us @ ts" "path eb_pnext (ec_bufs s) (cp_ptail (ms_pcommon m)) ts NULL"
    "\<forall>a \<in> set us. \<forall>b. ec_bufs s a = Some b \<longrightarrow> eb_unsent b = 0"
    "\<forall>a \<in> set ts. \<forall>b. ec_bufs s a = Some b \<longrightarrow> eb_punsent b \<noteq> NULL"
    "\<forall>a \<in> set (tl ts). \<forall>b. ec_bufs s a = Some b \<longrightarrow> eb_unsent b = eb_len b" "acked_first (ec_bufs s) (b # bs)"
    "\<forall>a \<in> set (b # bs). \<forall>b. ec_bufs s a = Some b \<longrightarrow> eb_len b \<noteq> 0 \<and> eb_unsent b \<le> eb_len b"
    "path eb_pnext (ec_bufs s) (cp_pbuf (ms_pcommon m)) (b # bs) NULL"
    unfolding queue_ok_def by blast
  have old: "\<exists>f. ec_bufs s x = Some f \<and> eb_unsent e = eb_unsent f \<and> eb_punsent e = eb_punsent f \<and> eb_len e = eb_len f"
    if "ec_bufs s2 x = Some e" for x e
    using that d by (cases "x = b") (auto simp: s2)
  have "b \<notin> set bs" using path_distinct [OF u(8)] by simp
  have "queue_ok (ec_bufs s2) (m\<lparr>ms_pcommon := c\<rparr>) (b # bs)"
  proof (rule queueI [OF u(1)])
    show "path eb_pnext (ec_bufs s2) (cp_pbuf (ms_pcommon (m\<lparr>ms_pcommon := c\<rparr>))) (b # bs) NULL"
      "path eb_pnext (ec_bufs s2) (cp_ptail (ms_pcommon (m\<lparr>ms_pcommon := c\<rparr>))) ts NULL"
      using px [OF u(8)] px [OF u(2)] c by simp_all
    show "acked_first (ec_bufs s2) (b # bs)" using u(6) \<open>b \<notin> set bs\<close> by (auto simp: acked_first_def s2)
    show "eb_unsent d = 0" if "x \<in> set us" "ec_bufs s2 x = Some d" for x d
      using old [OF that(2)] u(3) that(1) by auto
    show "eb_punsent d \<noteq> NULL" if "x \<in> set ts" "ec_bufs s2 x = Some d" for x d
      using old [OF that(2)] u(4) that(1) by auto
    show "eb_unsent d = eb_len d" if "x \<in> set (tl ts)" "ec_bufs s2 x = Some d" for x d
      using old [OF that(2)] u(5) that(1) by auto
    show "eb_len d \<noteq> 0 \<and> eb_unsent d \<le> eb_len d" if "x \<in> set (b # bs)" "ec_bufs s2 x = Some d" for x d
      using old [OF that(2)] u(7) that(1) by auto
  qed
  moreover have "only_conn a s s2" using m by (simp add: s2 only_conn_def msg_key_def)
  ultimately show "requeued a (b # bs) s s2" using d by (auto simp: requeued_def s2)
  show "ec_lwip s2 = ec_lwip s" by (simp add: s2)
  show "map_option eb_unsent \<circ> ec_bufs s2 = map_option eb_unsent \<circ> ec_bufs s" using d by (auto simp: s2)
qed

lemma inv_settled:
  assumes I: "espconn_inv as sv bl s" and a: "a \<in> set as" and T: "tcp_desc s (desc s a)" and bs: "bl a = b # bs"
    and C: "conn_bufs a (b # bs) pe f s" and R: "requeued a (b # bs) s s3"
    and N: "\<forall>y. ec_bufs s3 y = None \<longleftrightarrow> ec_bufs s y = None"
    and st: "settles a s3 s'" and S: "settled a (b # bs) pe f tot s3 n s'"
    and Q: "queue_ok (ec_bufs s') (the (ec_msgs s' a)) (drop n (b # bs))"
  shows "espconn_inv as sv (bl(a := drop n (b # bs))) s'"
proof (rule inv_queue [OF I a T _ Q])
  show "only_conn a s s'" using st R by (auto simp: settles_def requeued_def intro: only_conn_trans)
  have in_bs: "y \<in> set (b # bs)" if "y \<in> set (drop n (b # bs))" for y using in_set_dropD [OF that] .
  show "ec_bufs s' y = ec_bufs s y" if "y \<notin> set (bl a) \<union> set (drop n (b # bs))" for y
    using that S R bs by (simp add: settled_def requeued_def)
  have some: "ec_bufs s y \<noteq> None" if "y \<in> set (b # bs)" for y
    using path_deref [of eb_pnext "ec_bufs s" _ "b # bs" NULL y] C that by (auto simp: conn_bufs_def deref_def split: if_splits)
  have none: "ec_bufs s' y = None \<longleftrightarrow> ec_bufs s y = None \<or> y \<in> set (take n (b # bs))" for y
    using settled_none [OF S] N some by simp
  have "distinct (b # bs)" using C path_distinct [of eb_pnext "ec_bufs s" _ "b # bs"] by (auto simp: conn_bufs_def)
  then have dj: "set (take n (b # bs)) \<inter> set (drop n (b # bs)) = {}"
    by (metis append_take_drop_id distinct_append)
  have un: "set (b # bs) = set (take n (b # bs)) \<union> set (drop n (b # bs))"
    by (metis append_take_drop_id set_append)
  show "dom (ec_bufs s') = dom (ec_bufs s) - set (bl a) \<union> set (drop n (b # bs))"
  proof (rule set_eqI)
    fix y
    show "y \<in> dom (ec_bufs s') \<longleftrightarrow> y \<in> dom (ec_bufs s) - set (bl a) \<union> set (drop n (b # bs))"
    proof (cases "y \<in> set (b # bs)")
      case True
      with some un have "y \<in> dom (ec_bufs s)" "y \<in> set (take n (b # bs)) \<or> y \<in> set (drop n (b # bs))" by auto
      with True none [of y] dj show ?thesis unfolding bs by (auto simp: domIff)
    next
      case False
      with un have "y \<notin> set (take n (b # bs))" "y \<notin> set (drop n (b # bs))" by auto
      with False none [of y] show ?thesis unfolding bs by (simp add: domIff)
    qed
  qed
  show "set (drop n (b # bs)) \<inter> (dom (ec_bufs s) - set (bl a)) = {}" using in_bs bs by auto
qed

text \<open>The run of an acknowledgement that lwIP may make: no buffer with bytes to send is settled.\<close>

lemma ack_ok:
  assumes E: "calm E" "tcp_stack_ok E" and I: "espconn_inv as sv bl s" and a: "a \<in> set as" and T: "tcp_desc s (desc s a)"
    and M: "may_acknowledge E s a (bl a) len" and pcb: "cp_pcb (ms_pcommon (the (ec_msgs s a))) = pcb"
    and g: "\<And>c. cp_pbuf (g c) = cp_pbuf c" "\<And>c. cp_ptail (g c) = cp_ptail c" "\<And>c. cp_pcb (g c) = cp_pcb c"
  shows "returns (acknowledge g E a pcb len s) (\<lambda>(_, x). espconn_ok x)"
proof -
  obtain m e where m: "conn_at s a m e" "ec_msgs s a = Some m" "a \<noteq> NULL" by (rule inv_connE [OF I a])
  have Q: "queue_ok (ec_bufs s) m (bl a)" by (rule inv_queue_ok [OF I a m(2)])
  from M obtain tb where tb: "lw_tcp (ec_lwip s) pcb = Some tb" "tp_snd_buf tb \<noteq> 0"
    "unat (tp_snd_queuelen tb) < TCP_SND_QUEUELEN (ee_mss E)" using pcb by (auto simp: may_acknowledge_def)
  have M': "can_send s a" "len \<noteq> 0" "acked (ec_bufs s) (bl a) + unat len \<le> handed (ec_bufs s) (bl a)"
    "acked (ec_bufs s) (bl a) + unat len < 2 ^ 16" using M by (simp_all add: may_acknowledge_def)
  have "0 < unat len" using M'(2) by (simp add: unat_gt_0)
  with M'(3) have "0 < handed (ec_bufs s) (bl a)" by linarith
  then obtain b bs where bs: "bl a = b # bs" by (cases "bl a") (simp_all add: handed_def)
  obtain ts where ts: "sending a pcb ts s" "set ts \<subseteq> set (bl a)"
    using queue_sending [OF Q m(2,3) M'(1)] pcb m(2) by auto
  have C: "conn_bufs a (b # bs) (ms_pespconn m) (es_sent_callback e) s"
    using m Q bs by (simp add: conn_bufs_def conn_at_def queue_ok_def)
  have A: "acked_first (ec_bufs s) (b # bs)" using Q bs by (simp add: queue_ok_def)
  obtain s2 err s3 s' n where r: "acknowledge g E a pcb len s = Some (0, s')" "counted_in a pcb b len s s2"
    "espconn_tcp_write E a s2 = Some (err, s3)" "tcp_finish_loop E a 0 s3 = Some s'"
    "settled a (b # bs) (ms_pespconn m) (es_sent_callback e) (acked (ec_bufs s) (b # bs) + unat len) s3 n s'"
    "buf_lens (ec_bufs s3) (b # bs) = buf_lens (ec_bufs s) (b # bs)" "\<forall>y. ec_bufs s3 y = None \<longleftrightarrow> ec_bufs s y = None"
    using acknowledged [OF E(2) calmD(1) [OF E(1)] ts(1) C A M'(4) [unfolded bs] g] by blast
  note c = counted_requeued [OF r(2) Q [unfolded bs] m(2)]
  have S2: "sending a pcb ts s2" by (rule counted_keeps(1) [OF r(2) C M'(4) [unfolded bs] ts(1) refl])
  have room: "room pcb s2 \<noteq> 0" using tb c(2) by (simp add: room_def)
  have "tcp_write_all E a pcb (git_ok (ee_errs E)) s2 = Some (err, s3)"
    using r(3) S2 tb c(2) by (auto simp: sending_def espconn_tcp_write_def deref_def split: if_splits)
  from write_all_requeued [OF this E S2 ts(2)] room have w: "requeued a (b # bs) s2 s3" "tail_new a s2 s3"
    by (simp_all add: bs)
  have R: "requeued a (b # bs) s s3" by (rule requeued_trans [OF c(1) w(1)])
  then have o3: "only_conn a s s3" by (simp add: requeued_def)
  obtain m3 where m3: "ec_msgs s3 a = Some m3" by (rule msg_keyE [OF o3 m(2)])
  have Q3: "queue_ok (ec_bufs s3) m3 (b # bs)" using R Q m(2) m3 bs by (simp add: requeued_def)
  have n: "n \<le> length us"
    if t: "cp_ptail (ms_pcommon m3) = t" "t \<noteq> NULL" "b # bs = us @ t # us'" for us us' t
  proof -
    obtain b2 where b2: "ec_bufs s2 t = Some b2" "eb_unsent b2 \<noteq> 0"
      using w(2) m3 t(1,2) unfolding tail_new_def by blast
    have "map_option eb_unsent (ec_bufs s2 t) = map_option eb_unsent (ec_bufs s t)"
      using fun_cong [OF c(3), of t] by simp
    with b2 obtain b0 where b0: "ec_bufs s t = Some b0" "eb_unsent b0 \<noteq> 0" by (cases "ec_bufs s t") auto
    have lt: "handed (ec_bufs s) (b # bs) < sum_list (take (Suc (length us)) (buf_lens (ec_bufs s) (b # bs)))"
      using handed_covers [OF Q b0, of us us'] t(3) bs by simp
    moreover have "sum_list (take n (buf_lens (ec_bufs s) (b # bs))) \<le> handed (ec_bufs s) (b # bs)"
      using r(5,6) M'(3) bs by (simp add: settled_def)
    ultimately have "\<not> Suc (length us) \<le> n" using take_sum_mono [of "Suc (length us)" n] by (meson leD le_less_trans)
    then show ?thesis by simp
  qed
  have st: "settles a s3 s'" by (rule finish_loop_settles [OF r(4) E(1)])
  have Cd: "conn_bufs a (drop n (b # bs)) (ms_pespconn m) (es_sent_callback e) s'"
    "acked_first (ec_bufs s') (drop n (b # bs))" using r(5) by (simp_all add: settled_def)
  have "queue_ok (ec_bufs s') (the (ec_msgs s' a)) (drop n (b # bs))"
    by (rule queue_settled [OF Q3 m3 st Cd n])
  with inv_settled [OF I a T bs C R r(7) st r(5)] have "espconn_inv as sv (bl(a := drop n (b # bs))) s'" by blast
  with r(1) show ?thesis by (simp add: espconn_okI)
qed

end
