(* ===== verification/Espconn_Servers.thy ===== *)
theory Espconn_Servers
  imports Espconn_Structure
begin

text \<open>
  Servers: a UDP connection and a listening server are made, a connection is accepted, and a
  server is deleted.
\<close>

section \<open>A UDP connection\<close>

definition udp_msg :: "ptr \<Rightarrow> ptr \<Rightarrow> espconn_msg" where
  "udp_msg pesp upcb = msg_zero\<lparr>ms_pcommon := (ms_pcommon msg_zero)\<lparr>cp_pcb := upcb\<rparr>, ms_pespconn := pesp\<rparr>"

lemma udp_fits:
  assumes "udp_desc s pesp" "\<And>b. b \<in> set as \<Longrightarrow> desc s b \<noteq> pesp"
  shows "fits as sv s (udp_msg pesp upcb)"
  using assms by (auto simp: fits_def udp_msg_def msg_zero_def is_server_def udp_desc_def ESPCONN_TCPSERVER_MODE_def)

lemma joined_self: "h a = Some m \<Longrightarrow> h = h(a \<mapsto> m)"
  by auto

lemma udp_server_ok:
  assumes E: "calm E" and I: "espconn_inv as sv bl s" and T: "udp_desc s pesp"
    and d: "\<And>b. b \<in> set as \<Longrightarrow> desc s b \<noteq> pesp" and a: "fresh (ec_msgs s) a"
  shows "returns (espconn_udp_server E a pesp s) (\<lambda>(_, x). espconn_ok x)"
proof -
  have H: "held {} s s" using I by (rule inv_start) simp
  define s1 where "s1 = ec_do E Udp_new s"
  define upcb where "upcb = ee_ptr E Udp_new s"
  have nw: "ec_new E Udp_new s = (upcb, s1)" by (simp add: ec_new_def upcb_def s1_def)
  have h1: "held {} s s1" unfolding s1_def by (intro held_do [OF E H]) simp
  show ?thesis
  proof (cases "upcb = NULL \<or> a = NULL")
    case True
    have "held {} s (ec_do E (Udp_remove upcb) s1)" by (intro held_do [OF E h1]) simp
    with True h1 show ?thesis
      by (auto simp: espconn_udp_server_def nw espconn_okI [OF inv_held [OF I]])
  next
    case False
    with a have a: "a \<noteq> NULL" "ec_msgs s a = None" "upcb \<noteq> NULL" by (auto simp: fresh_def)
    from T obtain e where e: "espconns s pesp = Some e" "es_type e = ESPCONN_UDP" "pesp \<noteq> NULL"
      by (auto simp: udp_desc_def)
    have "typed s" using I by (simp add: espconn_inv_def)
    then obtain u where u: "es_proto e \<noteq> NULL" "esp_udps s (es_proto e) = Some u" using e by (elim typed_udpE)
    define s2 where "s2 = s1\<lparr>ec_msgs := (ec_msgs s)(a \<mapsto> udp_msg pesp upcb)\<rparr>"
    have x2: "ec_msgs s2 = (ec_msgs s)(a \<mapsto> udp_msg pesp upcb)" "plink_active s2 = plink_active s"
      by (simp_all add: s2_def s1_def)
    have L: "lists_ok as sv s" using I by (simp add: espconn_inv_def)
    obtain h q where h: "active_append a s2 = Some (s2\<lparr>ec_msgs := h, plink_active := q\<rparr>)"
      "h a = Some (set_msg_next NULL (udp_msg pesp upcb))" "linked_in s a as sv h q"
      using active_added [OF L a(1,2) x2] by blast
    have z: "set_msg_next NULL (udp_msg pesp upcb) = udp_msg pesp upcb" by (simp add: udp_msg_def msg_zero_def)
    define s3 where "s3 = s2\<lparr>ec_msgs := h, plink_active := q\<rparr>"
    have j: "joined s a (udp_msg pesp upcb) h q s3"
      using h1 joined_self [of h a "udp_msg pesp upcb"] h(2) z by (simp add: joined_def s3_def s2_def held_def) (simp add: s1_def)
    have I3: "espconn_inv (as @ [a]) sv (bl(a := [])) s3"
      by (rule inv_joined [OF I a(1,2) h(3) j _ udp_fits [OF T d]]) (simp_all add: udp_msg_def msg_zero_def)
    have H3: "held {} s3 s3" using I3 by (rule inv_start) simp
    have "held {} s3 (ec_do E (Udp_recv upcb a) (ec_do E (Udp_bind upcb port) s3))" for port
      by (intro held_do [OF E] H3) simp_all
    then have fin: "espconn_ok (ec_do E (Udp_recv upcb a) (ec_do E (Udp_bind upcb port) s3))" for port
      by (rule espconn_okI [OF inv_held [OF I3]])
    have up: "upd_msg a (\<lambda>m. m\<lparr>ms_pcommon := (ms_pcommon m)\<lparr>cp_pcb := upcb\<rparr>, ms_pespconn := pesp\<rparr>)
        (s1\<lparr>ec_msgs := alloc (ec_msgs s1) a msg_zero\<rparr>) = Some s2"
      using a(1) by (simp add: upd_msg_def deref_def alloc_def s2_def s1_def udp_msg_def)
    have eq: "deref (espconns s3) pesp = Some e" "deref (esp_udps s3) (es_proto e) = Some u"
      using e u j by (simp_all add: joined_def deref_def)
    show ?thesis
      using a fin by (simp add: espconn_udp_server_def nw up h(1) s3_def [symmetric] eq)
  qed
qed

section \<open>A listening server\<close>

definition listen_msg :: "ptr \<Rightarrow> ptr \<Rightarrow> espconn_msg" where
  "listen_msg pesp lpcb = msg_zero\<lparr>ms_preverse := lpcb, ms_pespconn := pesp, ms_count_opt := MEMP_NUM_TCP_PCB,
     ms_pcommon := (ms_pcommon msg_zero)\<lparr>cp_timeout := 0x0a\<rparr>\<rparr>"

text \<open>Appending a message to the list of servers.\<close>

definition served_in :: "ec \<Rightarrow> ptr \<Rightarrow> ptr list \<Rightarrow> ptr list \<Rightarrow> (ptr \<rightharpoonup> espconn_msg) \<Rightarrow> ptr \<Rightarrow> bool" where
  "served_in s n as sv h q \<longleftrightarrow> path ms_pnext h (plink_active s) as NULL \<and> path ms_pnext h q (sv @ [n]) NULL
     \<and> dom h = insert n (dom (ec_msgs s))
     \<and> (\<forall>b. b \<noteq> n \<longrightarrow> erase set_msg_next h b = erase set_msg_next (ec_msgs s) b)"

lemma lists_swap: "lists_ok as sv s = lists_ok sv as (s\<lparr>plink_active := pserver_list s, pserver_list := plink_active s\<rparr>)"
  by (auto simp: lists_ok_def)

lemma server_added:
  assumes L: "lists_ok as sv s" and n: "n \<noteq> NULL" "ec_msgs s n = None"
    and x: "ec_msgs x = (ec_msgs s)(n \<mapsto> m)" "pserver_list x = pserver_list s"
  shows "\<exists>h q. server_append n x = Some (x\<lparr>ec_msgs := h, pserver_list := q\<rparr>)
    \<and> h n = Some (set_msg_next NULL m) \<and> served_in s n as sv h q"
proof -
  define t where "t = s\<lparr>plink_active := pserver_list s, pserver_list := plink_active s\<rparr>"
  define y where "y = x\<lparr>plink_active := pserver_list x\<rparr>"
  have "lists_ok sv as t" using L unfolding lists_swap [of as] t_def .
  from active_added [OF this n(1), of y m] n(2) x obtain h q where
    h: "active_append n y = Some (y\<lparr>ec_msgs := h, plink_active := q\<rparr>)"
    "h n = Some (set_msg_next NULL m)" "linked_in t n sv as h q" by (auto simp: t_def y_def)
  obtain h' q' where c: "espconn_list_creat (ec_msgs y) (plink_active y) n = Some (h', q')"
    "y\<lparr>ec_msgs := h', plink_active := q'\<rparr> = y\<lparr>ec_msgs := h, plink_active := q\<rparr>"
    using h(1) by (auto simp: active_append_def split: bind_splits)
  from arg_cong [OF c(2), of ec_msgs] arg_cong [OF c(2), of plink_active] c(1)
  have "espconn_list_creat (ec_msgs x) (pserver_list x) n = Some (h, q)" by (simp add: y_def)
  with h(2,3) show ?thesis
    by (auto simp: server_append_def linked_in_def served_in_def t_def)
qed

definition serves :: "ec \<Rightarrow> ptr \<Rightarrow> espconn_msg \<Rightarrow> (ptr \<rightharpoonup> espconn_msg) \<Rightarrow> ptr \<Rightarrow> ec \<Rightarrow> bool" where
  "serves s n m h q s' \<longleftrightarrow> ec_msgs s' = h(n \<mapsto> m) \<and> pserver_list s' = q \<and> plink_active s' = plink_active s
     \<and> espconns s' = espconns s \<and> esp_tcps s' = esp_tcps s \<and> esp_udps s' = esp_udps s
     \<and> ec_bufs s' = ec_bufs s \<and> premot s' = premot s \<and> pktinfo s' = pktinfo s \<and> pcb_lists (ec_lwip s')"

lemma allowed_snoc: "allowed s sv d \<le> allowed s (sv @ [n]) d"
proof -
  have "find P (xs @ [n]) = (case find P xs of None \<Rightarrow> find P [n] | Some x \<Rightarrow> Some x)" for P :: "ptr \<Rightarrow> bool" and xs
    by (induction xs) auto
  then show ?thesis by (cases "find (\<lambda>n. desc s n = d) sv") (simp_all add: allowed_def)
qed

lemma inv_served:
  assumes I: "espconn_inv as sv bl s" and n: "n \<noteq> NULL" "ec_msgs s n = None" and l: "served_in s n as sv h q"
    and J: "serves s n m h q s'" and m: "ms_pnext m = NULL" "ms_readbuf m = None" "ms_count_opt m \<le> MEMP_NUM_TCP_PCB"
    and T: "tcp_desc s (ms_pespconn m)" and d: "\<And>b. b \<in> set as \<Longrightarrow> desc s b \<noteq> ms_pespconn m"
  shows "espconn_inv as (sv @ [n]) bl s'"
proof -
  have h: "path ms_pnext h (plink_active s) as NULL" "path ms_pnext h q (sv @ [n]) NULL"
      "dom h = insert n (dom (ec_msgs s))"
      "\<And>b. b \<noteq> n \<Longrightarrow> erase set_msg_next h b = erase set_msg_next (ec_msgs s) b"
    using l by (simp_all add: served_in_def)
  have L: "lists_ok as sv s" using I by (simp add: espconn_inv_def)
  note nn = lists_new [OF L n(2)]
  have M: "ec_msgs s x \<noteq> None" if "x \<in> set as \<union> set sv" for x using that L by (auto simp: lists_ok_def)
  have c: "map_option msg_core (ec_msgs s' x) = map_option msg_core (ec_msgs s x)" if "x \<noteq> n" for x
    using erase_core(1) [OF h(4) [OF that]] J that by (simp add: serves_def)
  have K: "kept (set as \<union> set sv) UNIV s s'"
    using c nn J by (auto simp: kept_def serves_def)
  have ds: "desc s' x = desc s x" "srv s' x = srv s x" if "x \<in> set as \<union> set sv" for x
    using kept_desc [OF K that M [OF that]] .
  have dn: "desc s' n = ms_pespconn m" using J by (simp add: serves_def desc_def)
  from h(3) obtain n0 where n0: "h n = Some n0" by blast
  then have pn: "map_option ms_pnext ((h(n \<mapsto> m)) x) = map_option ms_pnext (h x)" for x
    using h(2) n(1) m(1) by (auto simp: path_append deref_def)
  have 1: "lists_ok as (sv @ [n]) s'"
    using J L nn h(3) path_same_next [OF h(1), of "h(n \<mapsto> m)"] path_same_next [OF h(2), of "h(n \<mapsto> m)"] pn
    by (auto simp: lists_ok_def serves_def)
  have 2: "typed s'" using I J by (simp add: espconn_inv_def typed_def serves_def)
  have 3: "\<forall>a \<in> set as. active_ok s' a" using I by (auto simp: espconn_inv_def intro: active_ok_kept [OF K])
  have 4: "\<forall>x \<in> set (sv @ [n]). listen_ok s' x"
  proof
    fix x assume "x \<in> set (sv @ [n])"
    then consider "x \<in> set sv" | "x = n" by auto
    then show "listen_ok s' x"
    proof cases
      case 1
      with I show ?thesis by (intro listen_ok_kept [OF K]) (auto simp: espconn_inv_def)
    next
      case 2
      with T J n(1) m(3) show ?thesis by (auto simp: listen_ok_def conn_at_def tcp_desc_def serves_def)
    qed
  qed
  have O: "owned as sv s" using I by (simp add: espconn_inv_def)
  have "owned as sv s'"
    by (rule owned_from [of s s' as sv, OF _ O])
      (use ds J I in \<open>auto simp: descs_from_def serves_def espconn_inv_def active_ok_def conn_at_def desc_def\<close>)
  moreover have "\<forall>b \<in> set as. desc s b \<noteq> ms_pespconn m" using d by blast
  ultimately have 5: "owned as (sv @ [n]) s'" using ds dn by (auto simp: owned_def)
  have "conn_count s' as p = conn_count s as p" for p by (rule conn_count_cong) (use ds in simp)
  moreover have "allowed s' sv p = allowed s sv p" for p by (rule allowed_kept [OF K]) (use M in auto)
  ultimately have 6: "within_limits as (sv @ [n]) s'"
    using I le_trans [OF _ allowed_snoc [of s' sv _ n]] by (auto simp: within_limits_def espconn_inv_def)
  have Q: "queues as bl s" using I by (simp add: espconn_inv_def)
  have 7: "queues as bl s'"
    by (rule queues_kept [OF K Q subset_refl]) (use M J Q in \<open>simp_all add: serves_def queues_def\<close>)
  have "rings s'"
    unfolding rings_def
  proof (intro allI impI)
    fix x y rb assume y: "ec_msgs s' x = Some y" "ms_readbuf y = Some rb"
    then have "x \<noteq> n" using J m(2) by (auto simp: serves_def)
    with y erase_core(2) [OF h(4), of x] I J show "rb_ok rb"
      by (cases "ec_msgs s x") (auto simp: serves_def espconn_inv_def tables_ok_def rings_def)
  qed
  then have 8: "tables_ok s'" using I J by (simp add: espconn_inv_def tables_ok_def serves_def)
  from 1 2 3 4 5 6 7 8 show ?thesis unfolding espconn_inv_def by blast
qed

text \<open>An allocation that is given back.\<close>

lemma unalloc_ok:
  assumes I: "espconn_inv as sv bl s" and a: "ec_msgs s a = None"
    and x: "x = s\<lparr>ec_msgs := (ec_msgs s)(a \<mapsto> m), ec_lwip := ec_lwip x, ec_calls := ec_calls x\<rparr>" "pcb_lists (ec_lwip x)"
  shows "espconn_ok (x\<lparr>ec_msgs := (ec_msgs x)(a := None)\<rparr>)"
proof -
  have "ec_msgs x = (ec_msgs s)(a \<mapsto> m)" by (subst x(1)) simp
  then have m: "(ec_msgs x)(a := None) = ec_msgs s" using a by auto
  have "x\<lparr>ec_msgs := (ec_msgs x)(a := None)\<rparr> = s\<lparr>ec_lwip := ec_lwip x, ec_calls := ec_calls x\<rparr>"
    unfolding m by (subst x(1)) simp
  moreover have "held {} s (s\<lparr>ec_lwip := ec_lwip x, ec_calls := ec_calls x\<rparr>)"
    using I x(2) by (simp add: held_def same_def rings_def espconn_inv_def tables_ok_def)
  ultimately show ?thesis using espconn_okI [OF inv_held [OF I]] by simp
qed

lemma pcb_lists_do: "calm E \<Longrightarrow> pcb_lists (ec_lwip x) \<Longrightarrow> pcb_lists (ec_lwip (ec_do E c x))"
  using calmD(2) [of E] by (simp add: lists_stay_def)

lemma tcp_server_ok:
  assumes E: "calm E" and I: "espconn_inv as sv bl s" and T: "tcp_desc s pesp"
    and d: "\<And>b. b \<in> set as \<Longrightarrow> desc s b \<noteq> pesp" and a: "fresh (ec_msgs s) a"
  shows "returns (espconn_tcp_server E a pesp s) (\<lambda>(_, x). espconn_ok x)"
proof (cases "a = NULL")
  case True
  with I show ?thesis by (simp add: espconn_tcp_server_def espconn_okI)
next
  case False
  with a have a: "a \<noteq> NULL" "ec_msgs s a = None" by (auto simp: fresh_def)
  from T obtain e where e: "espconns s pesp = Some e" "es_type e = ESPCONN_TCP" "pesp \<noteq> NULL"
    by (auto simp: tcp_desc_def)
  have "typed s" using I by (simp add: espconn_inv_def)
  then obtain t where t: "es_proto e \<noteq> NULL" "esp_tcps s (es_proto e) = Some t" using e by (elim typedE)
  have L: "lists_ok as sv s" "pcb_lists (ec_lwip s)" using I by (simp_all add: espconn_inv_def tables_ok_def)
  define s1 where "s1 = s\<lparr>ec_msgs := alloc (ec_msgs s) a msg_zero\<rparr>"
  define s2 where "s2 = ec_do E Tcp_new s1"
  define pcb where "pcb = ee_ptr E Tcp_new s1"
  define b2 where "b2 = ec_do E (Tcp_bind pcb (ucast (et_local_port t))) s2"
  define s3 where "s3 = ec_do E (Tcp_listen pcb) b2"
  define lpcb where "lpcb = ee_ptr E (Tcp_listen pcb) b2"
  have l: "pcb_lists (ec_lwip s2)" "pcb_lists (ec_lwip s3)"
    using L(2) unfolding s3_def b2_def s2_def by (intro pcb_lists_do [OF E], simp add: s1_def)+
  have m1: "alloc (ec_msgs s) a msg_zero = (ec_msgs s)(a \<mapsto> msg_zero)" using a by (simp add: alloc_def)
  have undo: "espconn_ok (x\<lparr>ec_msgs := (ec_msgs x)(a := None)\<rparr>)"
    if "x = s1\<lparr>ec_lwip := ec_lwip x, ec_calls := ec_calls x\<rparr>" "pcb_lists (ec_lwip x)" for x
    using that by (intro unalloc_ok [OF I a(2), of _ msg_zero]) (simp_all add: s1_def m1)
  have u2: "espconn_ok (s2\<lparr>ec_msgs := (ec_msgs s2)(a := None)\<rparr>)"
    by (rule undo) (use l in \<open>simp_all add: s2_def ec_do_def\<close>)
  have u4: "espconn_ok (ec_do E (Memp_free pcb) s3\<lparr>ec_msgs := (ec_msgs (ec_do E (Memp_free pcb) s3))(a := None)\<rparr>)"
    by (rule undo) (use pcb_lists_do [OF E l(2)] in \<open>simp_all add: s3_def b2_def s2_def ec_do_def\<close>)
  have fr: "os_free (ec_msgs s2) a = Some ((ec_msgs s2)(a := None))"
    "os_free (ec_msgs (ec_do E (Memp_free pcb) s3)) a = Some ((ec_msgs (ec_do E (Memp_free pcb) s3))(a := None))"
    using a by (simp_all add: os_free_def s3_def b2_def s2_def s1_def m1)
  have x3: "ec_msgs s3 = (ec_msgs s)(a \<mapsto> msg_zero)" "pserver_list s3 = pserver_list s"
    by (simp_all add: s3_def b2_def s2_def s1_def m1)
  obtain h q where h: "server_append a s3 = Some (s3\<lparr>ec_msgs := h, pserver_list := q\<rparr>)"
    "h a = Some (set_msg_next NULL msg_zero)" "served_in s a as sv h q"
    using server_added [OF L(1) a x3] by blast
  define s5 where "s5 = s3\<lparr>ec_msgs := h(a \<mapsto> listen_msg pesp lpcb), pserver_list := q\<rparr>"
  have j: "serves s a (listen_msg pesp lpcb) h q s5"
    using l(2) by (simp add: serves_def s5_def) (simp add: s3_def b2_def s2_def s1_def)
  have I5: "espconn_inv as (sv @ [a]) bl s5"
    by (rule inv_served [OF I a h(3) j]) (use T d in \<open>simp_all add: listen_msg_def msg_zero_def\<close>)
  have H5: "held {} s5 s5" using I5 by (rule inv_start) simp
  have e5: "espconns s5 pesp \<noteq> None" using e j by (simp add: serves_def)
  have fin: "returns (do { s6 \<leftarrow> upd_espconn pesp (\<lambda>e. e\<lparr>es_state := ESPCONN_LISTEN\<rparr>) s5;
      Some (ESPCONN_OK, ec_do E (Tcp_accept lpcb Accept_handler) (ec_do E (Tcp_arg lpcb pesp) s6)) })
      (\<lambda>(_, x). espconn_ok x)"
    by (rule returns_ok_answer [OF I5], intro returns_state [where Z = "{}" and ?s0.0 = s5]
        held_upd_esp [OF H5 e5 e(3)] returns_held_answer held_do E) (assumption | simp)+
  have up: "upd_msg a (\<lambda>m. m\<lparr>ms_preverse := lpcb, ms_pespconn := pesp, ms_count_opt := MEMP_NUM_TCP_PCB,
      ms_pcommon := (ms_pcommon m)\<lparr>cp_timeout := 0x0a\<rparr>\<rparr>) (s3\<lparr>ec_msgs := h, pserver_list := q\<rparr>) = Some s5"
    using a(1) h(2) by (simp add: upd_msg_def deref_def s5_def listen_msg_def msg_zero_def)
  have nw: "ec_new E Tcp_new s1 = (pcb, s2)" "ec_new E (Tcp_listen pcb) b2 = (lpcb, s3)"
    by (simp_all add: ec_new_def pcb_def s2_def lpcb_def s3_def)
  have eq: "deref (espconns s2) pesp = Some e" "deref (esp_tcps s2) (es_proto e) = Some t"
    using e t by (simp_all add: s2_def s1_def deref_def)
  show ?thesis
    using a(1) u2 u4 fin fr unfolding espconn_tcp_server_def Let_def s1_def [symmetric]
    by (simp add: nw eq b2_def [symmetric] h(1) up)
qed

section \<open>A server is deleted\<close>

lemma server_removed:
  assumes L: "lists_ok as sv s" and n: "n \<in> set sv" "ec_msgs s n = Some m"
  shows "\<exists>h q. server_delete n s = Some (s\<lparr>ec_msgs := h, pserver_list := q\<rparr>) \<and> h n = Some m
    \<and> erase set_msg_next h = erase set_msg_next (ec_msgs s) \<and> path ms_pnext h q (remove1 n sv) NULL
    \<and> path ms_pnext h (plink_active s) as NULL"
proof -
  have p: "path ms_pnext (ec_msgs s) (pserver_list s) sv NULL" using L by (simp add: lists_ok_def)
  have "\<exists>q. m = set_msg_next q m" for m :: espconn_msg by (rule exI [of _ "ms_pnext m"]) simp
  from msgs.delete_ok [OF p n(1), of "\<lambda>d. d", OF this] n(2)
  obtain h q where h: "list_delete ms_pnext set_msg_next (\<lambda>d. d) (ec_msgs s) (pserver_list s) n = Some (h, q)"
    "path ms_pnext h q (remove1 n sv) NULL" "erase set_msg_next h = erase set_msg_next (ec_msgs s)"
    "h n = Some m" "\<forall>c. c \<notin> set sv \<longrightarrow> h c = ec_msgs s c"
    by (metis deref_SomeD option.sel)
  have "path ms_pnext h (plink_active s) as NULL"
    by (rule path_agree [where h = "ec_msgs s"]) (use L h(5) in \<open>auto simp: lists_ok_def\<close>)
  with h show ?thesis by (auto simp: server_delete_def espconn_list_delete_def)
qed

lemma allowed_remove1:
  assumes "desc s n \<noteq> d"
  shows "allowed s (remove1 n sv) d = allowed s sv d"
proof -
  have "find P (remove1 n xs) = find P xs" if "\<not> P n" for P and xs :: "ptr list"
    using that by (induction xs) auto
  from this [of "\<lambda>n. desc s n = d" sv] assms show ?thesis by (simp add: allowed_def)
qed

lemma inv_server_gone:
  assumes I: "espconn_inv as sv bl s" and n: "n \<in> set sv" and c: "conn_count s as (desc s n) = 0"
    and h: "erase set_msg_next h = erase set_msg_next (ec_msgs s)" "path ms_pnext h q (remove1 n sv) NULL"
      "path ms_pnext h (plink_active s) as NULL"
    and y: "y = s\<lparr>ec_msgs := h(n := None), pserver_list := q, ec_lwip := ec_lwip y, ec_calls := ec_calls y\<rparr>"
      "pcb_lists (ec_lwip y)"
  shows "espconn_inv as (remove1 n sv) bl y"
proof -
  have f: "ec_msgs y = h(n := None)" "pserver_list y = q" "plink_active y = plink_active s" "espconns y = espconns s"
    "esp_tcps y = esp_tcps s" "esp_udps y = esp_udps s" "ec_bufs y = ec_bufs s" "premot y = premot s" "pktinfo y = pktinfo s"
    by (subst y(1), simp)+
  have L: "lists_ok as sv s" using I by (simp add: espconn_inv_def)
  have ds: "distinct sv" using L by (auto simp: lists_ok_def intro: path_distinct)
  have na: "n \<notin> set as" using L n by (auto simp: lists_ok_def)
  have e: "erase set_msg_next h x = erase set_msg_next (ec_msgs s) x" for x using h(1) by simp
  have K: "kept (set as \<union> set (remove1 n sv)) UNIV s y"
    using erase_core(1) [OF e] na ds f by (auto simp: kept_def)
  have "dom (erase set_msg_next g) = dom g" for g by (auto simp: erase_def)
  then have "dom h = dom (ec_msgs s)" using h(1) by metis
  then have "lists_ok as (remove1 n sv) y"
    using L h(2,3) f na ds n by (auto simp: lists_ok_def)
  moreover have "typed y" using I f by (simp add: espconn_inv_def typed_def)
  moreover have M: "ec_msgs s x \<noteq> None" if "x \<in> set as \<union> set (remove1 n sv)" for x
    using that L ds by (auto simp: lists_ok_def)
  have dy: "desc y x = desc s x \<and> srv y x = srv s x" if "x \<in> set as \<union> set (remove1 n sv)" for x
    using kept_desc [OF K that M [OF that]] by simp
  have "owned as (remove1 n sv) y"
  proof (rule owned_from [of s y as sv])
    show "descs_from s y" by (simp add: descs_from_def f)
    show "owned as sv s" using I by (simp add: espconn_inv_def)
    show "espconns y (desc s a) \<noteq> None" if "a \<in> set as" for a
      using I that f by (auto simp: espconn_inv_def active_ok_def conn_at_def desc_def)
    show "set (remove1 n sv) \<subseteq> set sv" by (rule set_remove1_subset)
  qed (use dy in auto)
  moreover have "conn_count s as p \<le> allowed s (remove1 n sv) p" if "p \<noteq> NULL" for p
    using c I that allowed_remove1 [of s n p sv]
    by (cases "p = desc s n") (auto simp: espconn_inv_def within_limits_def)
  moreover have "rings y"
    unfolding rings_def
  proof (intro allI impI)
    fix x z rb assume z: "ec_msgs y x = Some z" "ms_readbuf z = Some rb"
    then have "h x = Some z" using f by (auto split: if_splits)
    with z erase_core(2) [OF e, of x] I show "rb_ok rb"
      by (cases "ec_msgs s x") (auto simp: espconn_inv_def tables_ok_def rings_def)
  qed
  then have "tables_ok y" using I y(2) f by (simp add: espconn_inv_def tables_ok_def)
  ultimately show ?thesis
    using I f by (intro inv_change [OF I subset_refl set_remove1_subset _ K])
      (simp_all add: espconn_inv_def queues_def)
qed

lemma server_gone:
  assumes E: "calm E" and I: "espconn_inv as sv bl s" and n: "n \<in> set sv"
    and c: "conn_count s as (desc s n) = 0" and p: "there (ec_lwip s) (Tcp_block (srv s n))"
  shows "returns (do {
      s2 \<leftarrow> server_delete n s;
      m \<leftarrow> deref (ec_msgs s2) n;
      b \<leftarrow> deref (lw_tcp (ec_lwip s2)) (ms_preverse m);
      s3 \<leftarrow> espconn_kill_pcb E (tp_local_port b) s2;
      let (err, s4) = ec_ask E (Tcp_close (ms_preverse m)) s3;
      h \<leftarrow> os_free (ec_msgs s4) n;
      Some (f err, s4\<lparr>ec_msgs := h\<rparr>) }) (\<lambda>(_, x). espconn_ok x)"
proof -
  obtain m e where m: "conn_at s n m e" by (rule inv_nodeE [OF I, of n]) (use n in auto)
  then have nm: "ec_msgs s n = Some m" "n \<noteq> NULL" "srv s n = ms_preverse m" by (simp_all add: conn_at_def srv_def)
  have L: "lists_ok as sv s" "pcb_lists (ec_lwip s)" using I by (simp_all add: espconn_inv_def tables_ok_def)
  obtain h q where d: "server_delete n s = Some (s\<lparr>ec_msgs := h, pserver_list := q\<rparr>)" "h n = Some m"
    "erase set_msg_next h = erase set_msg_next (ec_msgs s)" "path ms_pnext h q (remove1 n sv) NULL"
    "path ms_pnext h (plink_active s) as NULL"
    using server_removed [OF L(1) n nm(1)] by blast
  from p nm(3) obtain b where b: "lw_tcp (ec_lwip s) (ms_preverse m) = Some b" "ms_preverse m \<noteq> NULL" by auto
  let ?s2 = "s\<lparr>ec_msgs := h, pserver_list := q\<rparr>"
  have "lwip_only ?s2 (espconn_kill_pcb E (tp_local_port b) ?s2)" using L(2) by (intro kill_pcb_ok [OF E]) simp
  then obtain x cs where x: "espconn_kill_pcb E (tp_local_port b) ?s2 = Some x"
    "only_lwip ?s2 cs x" "pcb_lists (ec_lwip x)" by (rule lwip_onlyD)
  obtain err x4 where a4: "ec_ask E (Tcp_close (ms_preverse m)) x = (err, x4)" by fastforce
  then have x4: "x4 = snd (ec_ask E (Tcp_close (ms_preverse m)) x)" by simp
  have m4: "ec_msgs x4 = h" using x4 only_lwip_sel(1) [OF x(2)] by simp
  define y where "y = x4\<lparr>ec_msgs := h(n := None)\<rparr>"
  have y: "y = s\<lparr>ec_msgs := h(n := None), pserver_list := q, ec_lwip := ec_lwip y, ec_calls := ec_calls y\<rparr>"
    using x(2) x4 by (auto simp: y_def only_lwip_def ec_ask_def)
  have "pcb_lists (ec_lwip y)" using x(3) calmD(2) [OF E] by (simp add: y_def x4 lists_stay_def)
  from espconn_okI [OF inv_server_gone [OF I n c d(3-5) y this]]
  have "espconn_ok y" .
  then show ?thesis using d b nm(2) x(1) m4 a4 by (simp add: deref_def os_free_def y_def)
qed

lemma info_link_cnt:
  assumes I: "espconn_inv as sv bl s0" and H: "held Z s0 s" and T: "tcp_desc s0 d"
  shows "returns (espconn_get_connection_info d s) (\<lambda>(_, x). held Z s0 x
    \<and> (\<exists>e. espconns x d = Some e \<and> es_type e = ESPCONN_TCP \<and> unat (es_link_cnt e) = conn_count s0 as d))"
proof -
  have d: "espconns s0 d \<noteq> None" "d \<noteq> NULL" using T by (auto simp: tcp_desc_def)
  obtain y x where x: "espconn_get_connection_info d s = Some (y, x)" "held Z s0 x"
    "\<And>e. espconns x d = Some e \<Longrightarrow> unat (es_link_cnt e)
         = (if es_type e = ESPCONN_INVALID then 0 else listed (es_type e) d s0 as)"
    using get_info_held [OF I H d] by (auto simp: returns_def)
  have "tcp_desc x d" using x(2) T tcp_desc_same by (auto simp: held_def)
  then obtain e where "espconns x d = Some e" "es_type e = ESPCONN_TCP" by (auto simp: tcp_desc_def)
  with x show ?thesis by (simp add: listed_def conn_count_def)
qed

lemma tcp_delete_ok:
  assumes E: "calm E" and I: "espconn_inv as sv bl s" and T: "d \<noteq> NULL \<Longrightarrow> tcp_desc s d"
    and P: "\<And>n. n \<in> set sv \<Longrightarrow> desc s n = d \<Longrightarrow> there (ec_lwip s) (Tcp_block (srv s n))"
  shows "returns (espconn_tcp_delete E d s) (\<lambda>(_, x). espconn_ok x)"
proof (cases "d = NULL")
  case True
  with I show ?thesis by (simp add: espconn_tcp_delete_def espconn_okI)
next
  case False
  note T = T [OF False]
  let ?Z = "(\<lambda>n. Tcp_block (srv s n)) ` {n \<in> set sv. desc s n = d}"
  have H: "held ?Z s s" by (rule inv_start [OF I]) (use P in auto)
  obtain y s1 e where x: "espconn_get_connection_info d s = Some (y, s1)" "held ?Z s s1"
    "espconns s1 d = Some e" "unat (es_link_cnt e) = conn_count s as d"
    using info_link_cnt [OF I H T] by (auto simp: returns_def)
  have I1: "espconn_inv as sv bl s1" by (rule inv_held [OF I x(2)])
  have ok: "espconn_ok s1" using I1 by (rule espconn_okI)
  show ?thesis
  proof (cases "es_link_cnt e = 0")
    case False
    with x ok \<open>d \<noteq> NULL\<close> show ?thesis by (simp add: espconn_tcp_delete_def deref_def)
  next
    case True
    then have c0: "conn_count s as d = 0" using x(4) by simp
    have S: "same s s1" using x(2) by (simp add: held_def)
    have "srv s1 a = srv s a" if "a \<in> set as" for a
    proof -
      have "ec_msgs s a \<noteq> None" using I that by (auto simp: espconn_inv_def active_ok_def conn_at_def)
      from kept_desc(2) [OF same_kept [OF S] _ this, of "{a}"] show ?thesis by simp
    qed
    then have c1: "conn_count s1 as d = 0" using c0 conn_count_cong [of as s1 s d] by simp
    have go: "returns (do {
        n \<leftarrow> find_node ms_pnext (ec_msgs s1) (\<lambda>_ m. ms_pespconn m = d) (pserver_list s1);
        if n = NULL then Some (git_ok (ee_errs E), s1)
        else do {
          s2 \<leftarrow> server_delete n s1;
          m \<leftarrow> deref (ec_msgs s2) n;
          b \<leftarrow> deref (lw_tcp (ec_lwip s2)) (ms_preverse m);
          s3 \<leftarrow> espconn_kill_pcb E (tp_local_port b) s2;
          let (err, s4) = ec_ask E (Tcp_close (ms_preverse m)) s3;
          h \<leftarrow> os_free (ec_msgs s4) n;
          Some (if err = git_ok (ee_errs E) then err else ESPCONN_ARG, s4\<lparr>ec_msgs := h\<rparr>) } })
      (\<lambda>(_, x). espconn_ok x)"
    proof (rule step_find_server [OF I x(2)], goal_cases)
      case (1 n)
      then have d1: "desc s1 n = d" by (simp add: desc_def)
      obtain m0 e0 where "conn_at s n m0 e0" by (rule inv_nodeE [OF I, of n]) (use 1 in auto)
      then have "ec_msgs s n \<noteq> None" by (simp add: conn_at_def)
      from kept_desc [OF same_kept [OF S] _ this, of "{n}"] d1
      have "desc s n = d" "srv s1 n = srv s n" by simp_all
      then have "Tcp_block (srv s1 n) \<in> ?Z" using 1(2) by auto
      then have "there (ec_lwip s1) (Tcp_block (srv s1 n))" using x(2) unfolding held_def by blast
      with server_gone [OF E I1 1(2), of "\<lambda>err. if err = git_ok (ee_errs E) then err else ESPCONN_ARG"]
        d1 c1 1(1) show ?case by simp
    next
      case 2
      with ok show ?case by simp
    qed
    show ?thesis using x(1,3) True go \<open>d \<noteq> NULL\<close> by (simp add: espconn_tcp_delete_def deref_def)
  qed
qed

section \<open>The limit of a server\<close>

lemma set_max_con_allow_ok:
  assumes I: "espconn_inv as sv bl s" and d: "d \<noteq> NULL \<Longrightarrow> espconns s d \<noteq> None"
    and c: "conn_count s as d \<le> unat num"
  shows "returns (espconn_tcp_set_max_con_allow d num s) (\<lambda>(_, x). espconn_ok x)"
proof -
  have H: "held {} s s" using I by (rule inv_start) simp
  have ok: "espconn_ok s" using I by (rule espconn_okI)
  have set: "returns (do { s1 \<leftarrow> upd_msg n (\<lambda>m. m\<lparr>ms_count_opt := num\<rparr>) s; Some (ESPCONN_OK, s1) })
      (\<lambda>(_, x). espconn_ok x)"
    if n: "n \<in> set sv" "ms_pespconn (the (ec_msgs s n)) = d" and num: "num \<le> MEMP_NUM_TCP_PCB" for n
  proof -
    obtain m e where m: "conn_at s n m e" by (rule inv_nodeE [OF I, of n]) (use n in auto)
    then have nm: "ec_msgs s n = Some m" "n \<noteq> NULL" by (simp_all add: conn_at_def)
    define y where "y = s\<lparr>ec_msgs := (ec_msgs s)(n \<mapsto> m\<lparr>ms_count_opt := num\<rparr>)\<rparr>"
    have na: "n \<notin> set as" using I n(1) by (auto simp: espconn_inv_def lists_ok_def)
    have nx: "map_option ms_pnext (ec_msgs y x) = map_option ms_pnext (ec_msgs s x)" for x using nm by (simp add: y_def)
    have ds: "desc y x = desc s x" "srv y x = srv s x" for x using nm by (simp_all add: y_def desc_def srv_def)
    have L: "lists_ok as sv y"
      using I path_same_next [of ms_pnext "ec_msgs s" _ _ NULL "ec_msgs y", OF _ nx] nm
      by (auto simp: espconn_inv_def lists_ok_def y_def)
    have K: "kept (- {n}) UNIV s y" by (simp add: kept_def y_def)
    have A: "\<forall>a \<in> set as. active_ok y a" using I na by (auto simp: espconn_inv_def intro: active_ok_kept [OF K])
    have N: "\<forall>x \<in> set sv. listen_ok y x"
    proof
      fix x assume x: "x \<in> set sv"
      then have "listen_ok s x" using I by (simp add: espconn_inv_def)
      then show "listen_ok y x"
        using num nm by (cases "x = n") (auto simp: listen_ok_def conn_at_def y_def)
    qed
    have le: "conn_count s as p \<le> allowed y sv p" if p: "p \<noteq> NULL" for p
    proof -
      have "conn_count s as p \<le> allowed s sv p" using I p by (simp add: espconn_inv_def within_limits_def)
      moreover have fd: "find (\<lambda>x. desc y x = p) sv = find (\<lambda>x. desc s x = p) sv" by (simp add: ds)
      ultimately show ?thesis
      proof (cases "find (\<lambda>x. desc s x = p) sv = Some n")
        case True
        then have "desc s n = p" by (auto simp: find_Some_iff)
        then have "p = d" using n(2) by (simp add: desc_def)
        with c True fd show ?thesis by (simp add: allowed_def y_def)
      next
        case False
        then have "allowed y sv p = allowed s sv p" using fd
          by (cases "find (\<lambda>x. desc s x = p) sv") (simp_all add: allowed_def y_def)
        with \<open>conn_count s as p \<le> allowed s sv p\<close> show ?thesis by simp
      qed
    qed
    have "conn_count y as p = conn_count s as p" for p by (rule conn_count_cong) (simp add: ds)
    with le have W: "within_limits as sv y" by (simp add: within_limits_def)
    have "queue_ok (ec_bufs y) (the (ec_msgs y a)) (bl a) = queue_ok (ec_bufs s) (the (ec_msgs s a)) (bl a)" for a
      using nm by (auto simp: y_def queue_ok_def)
    then have Q: "queues as bl y" using I by (simp add: espconn_inv_def queues_def) (simp add: y_def)
    have "tables_ok y" using I nm by (auto simp: espconn_inv_def tables_ok_def y_def rings_def)
    moreover have "typed y" "owned as sv y"
      using I ds by (simp_all add: espconn_inv_def typed_def owned_def cong: inj_on_cong) (simp_all add: y_def)
    ultimately have "espconn_inv as sv bl y" using L A N W Q unfolding espconn_inv_def by blast
    then show ?thesis using nm espconn_okI by (simp add: upd_msg_def deref_def y_def)
  qed
  show ?thesis
    unfolding espconn_tcp_set_max_con_allow_def using H d ok
    by (intro returns_if step_desc [where Z = "{}" and ?s0.0 = s] step_find_server [OF I H] set)
      (assumption | simp add: not_less)+
qed

section \<open>A connection is accepted\<close>

lemma msgs_only:
  assumes "ec_msgs x = ec_msgs s"
  shows "desc x k = desc s k" "srv x k = srv s k" "conn_count x as d = conn_count s as d"
    "allowed x sv d = allowed s sv d"
  unfolding desc_def srv_def conn_count_def allowed_def assms by simp_all

text \<open>A new descriptor that no message uses yet.\<close>

lemma inv_descs:
  assumes I: "espconn_inv as sv bl s"
  shows "\<And>b. b \<in> set as \<Longrightarrow> espconns s (desc s b) \<noteq> None"
    "\<And>b. b \<in> set as \<Longrightarrow> srv s b \<noteq> NULL \<Longrightarrow> espconns s (srv s b) \<noteq> None"
    "\<And>n. n \<in> set sv \<Longrightarrow> espconns s (desc s n) \<noteq> None"
  using I by (fastforce simp: espconn_inv_def active_ok_def listen_ok_def conn_at_def desc_def srv_def tcp_desc_def)+

lemma accepted_proto:
  assumes I: "espconn_inv as sv bl s" and b: "b \<in> set as" "srv s b \<noteq> NULL"
  shows "esp_tcps s (es_proto (the (espconns s (desc s b)))) \<noteq> None"
proof -
  obtain m e where c: "conn_at s b m e" "is_server m \<longleftrightarrow> ms_preverse m \<noteq> NULL" "is_server m \<longrightarrow> es_type e = ESPCONN_TCP \<and> tcp_desc s (ms_preverse m)"
    "desc s b = ms_pespconn m" "srv s b = ms_preverse m" by (rule inv_connE [OF I b(1)])
  then have "espconns s (desc s b) = Some e" "es_type e = ESPCONN_TCP" using b(2) by (auto simp: conn_at_def)
  moreover have "typed s" using I by (simp add: espconn_inv_def)
  ultimately show ?thesis by (auto elim: typedE)
qed

lemma inv_new_esp:
  assumes I: "espconn_inv as sv bl s" and n: "espconns s a1 = None"
    and p: "es_type e1 = ESPCONN_TCP \<Longrightarrow> esp_tcps s (es_proto e1) = None" and T: "typed s'"
    and s': "s' = s\<lparr>espconns := (espconns s)(a1 \<mapsto> e1), esp_tcps := ts, esp_udps := us\<rparr>"
  shows "espconn_inv as sv bl s'"
proof -
  have ds: "desc s' x = desc s x" "srv s' x = srv s x" for x by (simp_all add: s' desc_def srv_def)
  have L: "lists_ok as sv s'" using I by (simp add: espconn_inv_def lists_ok_def s')
  have K: "kept (set as \<union> set sv) (dom (espconns s)) s s'" using n by (auto simp: kept_def s')
  have O: "owned as sv s" using I by (simp add: espconn_inv_def)
  have dn: "desc s b \<noteq> a1" if "b \<in> set as" for b using inv_descs(1) [OF I that] n by auto
  have "owned as sv s'" unfolding owned_def
  proof (intro conjI ballI impI)
    show "inj_on (desc s') (set as)" using O ds by (simp add: owned_def cong: inj_on_cong)
    show "srv s' y \<noteq> desc s' x" if "x \<in> set as" "srv s' x \<noteq> NULL" "y \<in> set as" for x y
      using O that ds by (simp add: owned_def)
    show "desc s' y \<noteq> desc s' x" if "x \<in> set as" "srv s' x \<noteq> NULL" "y \<in> set sv" for x y
      using O that ds by (simp add: owned_def)
    fix x assume x: "x \<in> set as" "srv s' x \<noteq> NULL"
    then have "esp_tcps s (es_proto (the (espconns s (desc s x)))) \<noteq> None" using accepted_proto [OF I] ds by simp
    then have "es_type e1 = ESPCONN_TCP \<longrightarrow> es_proto e1 \<noteq> es_proto (the (espconns s (desc s x)))" using p by metis
    moreover have "\<forall>d e. espconns s d = Some e \<longrightarrow> d \<noteq> desc s x \<longrightarrow> es_type e = ESPCONN_TCP
        \<longrightarrow> es_proto e \<noteq> es_proto (the (espconns s (desc s x)))" using O x ds by (simp add: owned_def)
    ultimately show "\<forall>d e. espconns s' d = Some e \<longrightarrow> d \<noteq> desc s' x \<longrightarrow> es_type e = ESPCONN_TCP
        \<longrightarrow> es_proto e \<noteq> es_proto (the (espconns s' (desc s' x)))"
      using dn [OF x(1)] ds by (simp add: s')
  qed
  moreover have "tables_ok s'" using I by (simp add: espconn_inv_def tables_ok_def rings_def s')
  ultimately show ?thesis
    using inv_descs [OF I] I
    by (intro inv_change [OF I subset_refl subset_refl L K T])
      (auto simp: espconn_inv_def within_limits_def queues_def s')
qed

lemma inv_new_desc:
  assumes I: "espconn_inv as sv bl s" and n: "espconns s a1 = None" "esp_tcps s a2 = None" "a2 \<noteq> NULL"
    and e: "es_type e1 = ESPCONN_TCP" "es_proto e1 = a2"
    and s': "s' = s\<lparr>espconns := (espconns s)(a1 \<mapsto> e1), esp_tcps := (esp_tcps s)(a2 \<mapsto> t1)\<rparr>"
  shows "espconn_inv as sv bl s'"
proof (rule inv_new_esp [OF I n(1), where ts = "(esp_tcps s)(a2 \<mapsto> t1)" and us = "esp_udps s"])
  show "typed s'" using I n e by (auto simp: espconn_inv_def typed_def s')
qed (use n e s' in simp_all)

lemma inv_new_udp:
  assumes I: "espconn_inv as sv bl s" and n: "espconns s a1 = None" "a2 \<noteq> NULL"
    and e: "es_type e1 = ESPCONN_UDP" "es_proto e1 = a2"
    and s': "s' = s\<lparr>espconns := (espconns s)(a1 \<mapsto> e1), esp_udps := (esp_udps s)(a2 \<mapsto> u1)\<rparr>"
  shows "espconn_inv as sv bl s'"
proof (rule inv_new_esp [OF I n(1), where ts = "esp_tcps s" and us = "(esp_udps s)(a2 \<mapsto> u1)"])
  show "typed s'" using I n e by (auto simp: espconn_inv_def typed_def s')
qed (use n e s' in simp_all)

text \<open>The limit that is compared.\<close>

lemma max_allow_eq:
  assumes I: "espconn_inv as sv bl s" and T: "tcp_desc s d" and n: "n \<in> set sv" "desc s n = d"
  shows "espconn_tcp_get_max_con_allow d s = Some (int (allowed s sv d))"
proof -
  have p: "path ms_pnext (ec_msgs s) (pserver_list s) sv NULL" using I by (simp add: espconn_inv_def lists_ok_def)
  obtain k where k: "find (\<lambda>n. desc s n = d) sv = Some k"
    using n by (cases "find (\<lambda>n. desc s n = d) sv") (auto simp: find_None_iff)
  then have ks: "k \<in> set sv" by (auto simp: find_Some_iff)
  have fn: "find_node ms_pnext (ec_msgs s) (\<lambda>_ m. ms_pespconn m = d) (pserver_list s) = Some k"
  proof -
    have "find P xs = (case filter P xs of [] \<Rightarrow> None | a # _ \<Rightarrow> Some a)" for P and xs :: "ptr list"
      by (induction xs) auto
    with k show ?thesis unfolding find_node_path [OF p] by (auto simp: desc_def split: list.splits)
  qed
  obtain m where m: "ec_msgs s k = Some m" "k \<noteq> NULL" "ms_count_opt m \<le> MEMP_NUM_TCP_PCB"
    using I ks by (auto simp: espconn_inv_def listen_ok_def conn_at_def)
  have "unat (ms_count_opt m) \<le> 5" using m(3) by (simp add: MEMP_NUM_TCP_PCB_def word_le_nat_alt)
  then have "int (unat (ms_count_opt m)) \<le> 5" by linarith
  then have u: "uint (ms_count_opt m) < 128" by simp
  have "sint (ms_count_opt m) = signed_take_bit 7 (uint (ms_count_opt m))" unfolding sint_uint by simp
  also have "\<dots> = uint (ms_count_opt m)" 
    by (rule signed_take_bit_int_eq_self) (rule order_trans [OF _ uint_ge_0], simp, use u in simp)
  finally have "sint (ms_count_opt m) = int (unat (ms_count_opt m))" by simp
  moreover obtain e where "deref (espconns s) d = Some e" "es_type e = ESPCONN_TCP" "d \<noteq> NULL"
    using T by (auto simp: tcp_desc_def deref_def)
  ultimately show ?thesis
    using m k fn by (simp add: espconn_tcp_get_max_con_allow_def deref_def allowed_def)
qed

text \<open>The end of \<open>espconn_tcp_accept\<close>: handlers, settings and the application.\<close>

lemma accept_ready_ok:
  assumes E: "calm E" and I: "espconn_inv as sv bl s" and a: "a \<in> set as"
    and p: "there (ec_lwip s) (Tcp_block pcb)" and d: "espconns s a1 \<noteq> None" and t: "esp_tcps s a2 \<noteq> None" "a2 \<noteq> NULL"
  shows "returns (accept_ready E a a1 a2 pcb s) (\<lambda>(_, x). espconn_ok x)"
proof -
  let ?Z = "{Tcp_block pcb}"
  have H: "held ?Z s s" using p by (intro inv_start [OF I]) simp
  have tcp: "returns (deref (esp_tcps x) a2 \<bind> f) P"
    if "held ?Z s x" "\<And>t. returns (f t) P" for x f and P :: "err_t \<times> ec \<Rightarrow> bool"
    by (rule returns_bind [OF held_tcp [OF that(1) t]]) (rule that)
  have "returns (accept_ready E a a1 a2 pcb s) (\<lambda>(_, x). held ?Z s x)"
    unfolding accept_ready_def Let_def using E H a d
    by (intro flow step_set_buf_count [OF I, where Z = ?Z] tcp held_flow [where Z = ?Z and ?s0.0 = s]
        steps [OF I, where Z = ?Z] held_upd_pcb) (assumption | simp)+
  then show ?thesis by (rule returns_ok_answer [OF I])
qed

text \<open>The new message before and after \<open>accept_fill\<close>.\<close>

definition taken_msg :: "ptr \<Rightarrow> ptr \<Rightarrow> espconn_msg" where
  "taken_msg pesp a1 = msg_zero\<lparr>ms_preverse := pesp, ms_espconn_mode := ESPCONN_TCPSERVER_MODE,
     ms_pespconn := a1\<rparr>"

definition accepted_msg :: "ptr \<Rightarrow> ptr \<Rightarrow> ptr \<Rightarrow> tcp_pcb \<Rightarrow> espconn_msg" where
  "accepted_msg pesp a1 pcb b = msg_zero\<lparr>ms_preverse := pesp, ms_espconn_mode := ESPCONN_TCPSERVER_MODE,
     ms_pespconn := a1, ms_pcommon := (ms_pcommon msg_zero)\<lparr>cp_pcb := pcb,
       cp_remote_port := ucast (tp_remote_port b), cp_remote_ip := bytes4 (tp_remote_ip b), cp_write_flag := True\<rparr>\<rparr>"

lemma accepted_fits:
  assumes I: "espconn_inv as sv bl s" and T: "tcp_desc s pesp" and n: "n \<in> set sv" "desc s n = pesp"
    and a1: "a1 \<noteq> NULL" "espconns s a1 = None" and a2: "esp_tcps s a2 = None"
    and e: "es_type e1 = ESPCONN_TCP" "es_proto e1 = a2"
    and x: "espconns x = (espconns s)(a1 \<mapsto> e1)" "ec_msgs x = ec_msgs s"
    and c: "conn_count s as pesp < allowed s sv pesp"
  shows "fits as sv x (accepted_msg pesp a1 pcb b)"
proof -
  note ds = msgs_only [OF x(2)]
  have n1: "desc s b \<noteq> a1" "srv s b \<noteq> a1" if "b \<in> set as" for b
    using inv_descs(1,2) [OF I that] a1 by auto
  have n2: "desc s k \<noteq> a1" if "k \<in> set sv" for k using inv_descs(3) [OF I that] a1 by auto
  have n3: "desc s b \<noteq> pesp" if "b \<in> set as" "srv s b \<noteq> NULL" for b
    using own_desc(2) [OF I that n(1)] n(2) by simp
  have p: "es_proto f \<noteq> a2" if f: "espconns s d = Some f" "es_type f = ESPCONN_TCP" for d f
  proof -
    have ty: "typed s" using I by (simp add: espconn_inv_def)
    obtain t where "esp_tcps s (es_proto f) = Some t" by (rule typedE [OF ty f])
    with a2 show ?thesis by auto
  qed
  have "pesp \<noteq> a1" "pesp \<noteq> NULL" using T a1 by (auto simp: tcp_desc_def)
  moreover have "tcp_desc x pesp" using T x \<open>pesp \<noteq> a1\<close> by (auto simp: tcp_desc_def)
  ultimately show ?thesis
    using a1 e x n1 n2 n3 p c ds
    by (auto simp: fits_def accepted_msg_def is_server_def msg_zero_def)
qed

text \<open>The state with the message, the descriptor and its TCP part.\<close>

definition taken :: "ec \<Rightarrow> (ptr \<rightharpoonup> espconn_msg) \<Rightarrow> ptr \<Rightarrow> ptr \<Rightarrow> ptr \<Rightarrow> ptr \<Rightarrow> ec \<Rightarrow> ec" where
  "taken s h a a1 a2 pesp s4 = s4\<lparr>ec_msgs := h(a \<mapsto> taken_msg pesp a1),
     esp_tcps := (esp_tcps s)(a2 \<mapsto> esp_tcp_zero), espconns := (espconns s)(a1 \<mapsto> espconn_zero\<lparr>es_proto := a2\<rparr>)\<rparr>"

text \<open>After \<open>accept_fill\<close> the connection has joined a state with the new descriptor.\<close>

lemma accept_fill_ok:
  assumes I: "espconn_inv as sv bl s" and T: "tcp_desc s pesp" and n: "n \<in> set sv" "desc s n = pesp"
    and a1: "a1 \<noteq> NULL" "espconns s a1 = None" and a2: "a2 \<noteq> NULL" "esp_tcps s a2 = None"
    and a: "a \<noteq> NULL" "ec_msgs s a = None" and c: "conn_count s as pesp < allowed s sv pesp"
    and e0: "espconns s pesp = Some e0" and l: "linked_in s a as sv h q"
    and s4: "s4 = s\<lparr>ec_msgs := h, plink_active := q, ec_lwip := ec_lwip s4, ec_calls := ec_calls s4\<rparr>"
      "pcb_lists (ec_lwip s4)" and p: "there (ec_lwip s4) (Tcp_block pcb)"
  shows "returns (accept_fill a a1 pesp (es_proto e0) pcb (taken s h a a1 a2 pesp s4))
    (\<lambda>x. espconn_inv (as @ [a]) sv (bl(a := [])) x
       \<and> ec_lwip x = ec_lwip s4 \<and> espconns x a1 \<noteq> None \<and> esp_tcps x a2 \<noteq> None)"
proof -
  from T e0 have e: "es_type e0 = ESPCONN_TCP" "pesp \<noteq> NULL" by (auto simp: tcp_desc_def)
  have ty: "typed s" using I by (simp add: espconn_inv_def)
  obtain t where t: "es_proto e0 \<noteq> NULL" "esp_tcps s (es_proto e0) = Some t" by (rule typedE [OF ty e0 e(1)])
  have ne: "pesp \<noteq> a1" "es_proto e0 \<noteq> a2" using e0 a1 t a2 by auto
  from p obtain b where b: "lw_tcp (ec_lwip s4) pcb = Some b" "pcb \<noteq> NULL" by auto
  define e9 where "e9 = e0\<lparr>es_state := ESPCONN_CONNECT\<rparr>"
  define t8 where "t8 = t\<lparr>et_remote_ip := bytes4 (tp_remote_ip b), et_remote_port := ucast (tp_remote_port b)\<rparr>"
  define s9 where "s9 = s4\<lparr>ec_msgs := h(a \<mapsto> accepted_msg pesp a1 pcb b),
    esp_tcps := (esp_tcps s)(a2 \<mapsto> esp_tcp_zero, es_proto e0 \<mapsto> t8),
    espconns := (espconns s)(a1 \<mapsto> espconn_zero\<lparr>es_proto := a2\<rparr>, pesp \<mapsto> e9)\<rparr>"
  have go: "accept_fill a a1 pesp (es_proto e0) pcb (taken s h a a1 a2 pesp s4) = espconn_copy_partial a1 pesp s9"
    using a e0 e t ne b
    by (simp add: accept_fill_def taken_def taken_msg_def upd_msg_def upd_common_def upd_espconn_def upd_tcp_def
        deref_def cong del: bind_weak_cong if_weak_cong)
      (simp add: s9_def e9_def t8_def accepted_msg_def msg_zero_def)
  obtain ed td where cp: "espconn_copy_partial a1 pesp s9
      = Some (s9\<lparr>esp_tcps := (esp_tcps s9)(a2 \<mapsto> td), espconns := (espconns s9)(a1 \<mapsto> ed)\<rparr>)"
    "es_proto ed = a2" "es_type ed = ESPCONN_TCP"
    using copy_partial_ok [of s9 a1 "espconn_zero\<lparr>es_proto := a2\<rparr>" esp_tcp_zero pesp e9 t8] ne t a1 a2 e
    by (auto simp: s9_def e9_def)
  define s10 where "s10 = s9\<lparr>esp_tcps := (esp_tcps s9)(a2 \<mapsto> td), espconns := (espconns s9)(a1 \<mapsto> ed)\<rparr>"
  define sB where "sB = s\<lparr>espconns := (espconns s)(pesp \<mapsto> e9), esp_tcps := (esp_tcps s)(es_proto e0 \<mapsto> t8)\<rparr>"
  have "same s sB" using e0 t by (auto simp: same_def sB_def e9_def esp_shape_def)
  then have "held {} s sB" using I by (simp add: held_def rings_def espconn_inv_def tables_ok_def) (simp add: sB_def)
  then have IB: "espconn_inv as sv bl sB" by (rule inv_held [OF I])
  define sA where "sA = sB\<lparr>espconns := (espconns sB)(a1 \<mapsto> ed), esp_tcps := (esp_tcps sB)(a2 \<mapsto> td)\<rparr>"
  have IA: "espconn_inv as sv bl sA"
    by (rule inv_new_desc [OF IB _ _ a2(1) cp(3,2) sA_def]) (use a1 a2 ne in \<open>simp_all add: sB_def\<close>)
  have f4: "pserver_list s4 = pserver_list s" "plink_active s4 = q" "esp_udps s4 = esp_udps s" "ec_bufs s4 = ec_bufs s"
    "premot s4 = premot s" "pktinfo s4 = pktinfo s" by (subst s4(1), simp)+
  have j: "joined sA a (accepted_msg pesp a1 pcb b) h q s10"
    using ne s4(2) by (auto simp: joined_def s10_def s9_def sA_def sB_def f4 fun_eq_iff)
  have mB: "ec_msgs sB = ec_msgs s" by (simp add: sB_def)
  have F: "fits as sv sA (accepted_msg pesp a1 pcb b)"
  proof (rule accepted_fits [OF IB])
    show "desc sB n = pesp" "conn_count sB as pesp < allowed sB sv pesp" using n(2) c by (simp_all add: msgs_only [OF mB])
    show "tcp_desc sB pesp" using e by (simp add: tcp_desc_def sB_def e9_def)
  qed (use n a1 a2 ne cp in \<open>simp_all add: sB_def sA_def\<close>)
  have "espconn_inv (as @ [a]) sv (bl(a := [])) s10"
    by (rule inv_joined [OF IA a(1) _ _ j _ F])
      (use a l in \<open>simp_all add: sA_def sB_def linked_in_def accepted_msg_def msg_zero_def\<close>)
  then show ?thesis using go cp(1) by (simp add: s10_def) (simp add: s9_def)
qed

text \<open>What \<open>espconn_tcp_accept\<close> needs: the server listens, and memory for all three parts or none.\<close>

definition accept_mem :: "ec \<Rightarrow> ptr \<Rightarrow> ptr \<Rightarrow> ptr \<Rightarrow> bool" where
  "accept_mem s a a1 a2 \<longleftrightarrow> fresh (ec_msgs s) a \<and> fresh (espconns s) a1 \<and> fresh (esp_tcps s) a2
     \<and> (a \<noteq> NULL \<longrightarrow> a1 \<noteq> NULL \<and> a2 \<noteq> NULL)"

lemma tcp_accept_ok:
  assumes E: "calm E" and I: "espconn_inv as sv bl s" and T: "tcp_desc s pesp"
    and n: "n \<in> set sv" "desc s n = pesp" and A: "accept_mem s a a1 a2"
    and p: "there (ec_lwip s) (Tcp_block pcb)"
  shows "returns (espconn_tcp_accept E a a1 a2 pesp pcb s) (\<lambda>(_, x). espconn_ok x)"
proof -
  let ?Z = "{Tcp_block pcb}"
  have H: "held ?Z s s" using p by (intro inv_start [OF I]) simp
  from T obtain e0 where e0: "espconns s pesp = Some e0" "es_type e0 = ESPCONN_TCP" "pesp \<noteq> NULL"
    by (auto simp: tcp_desc_def)
  have "typed s" using I by (simp add: espconn_inv_def)
  then obtain t where t: "es_proto e0 \<noteq> NULL" "esp_tcps s (es_proto e0) = Some t" using e0 by (elim typedE)
  define s1 where "s1 = ec_do E (Tcp_err pcb Server_err) (ec_do E (Tcp_arg pcb NULL) s)"
  have h1: "held ?Z s s1" unfolding s1_def by (intro held_do [OF E] H) simp_all
  obtain y s2 e2 where x: "espconn_get_connection_info pesp s1 = Some (y, s2)" "held ?Z s s2"
    "espconns s2 pesp = Some e2" "unat (es_link_cnt e2) = conn_count s as pesp"
    using info_link_cnt [OF I h1 T] by (auto simp: returns_def)
  have I2: "espconn_inv as sv bl s2" by (rule inv_held [OF I x(2)])
  have S: "same s s2" using x(2) by (simp add: held_def)
  have T2: "tcp_desc s2 pesp" by (rule tcp_desc_same [OF S T])
  have M: "ec_msgs s k \<noteq> None" if "k \<in> set as \<union> set sv" for k
    using I that by (auto simp: espconn_inv_def lists_ok_def)
  have ds: "desc s2 k = desc s k" "srv s2 k = srv s k" if "k \<in> set as \<union> set sv" for k
    using kept_desc [OF same_kept [OF S] _ M [OF that], of UNIV] by simp_all
  have c2: "conn_count s2 as pesp = conn_count s as pesp" by (rule conn_count_cong) (use ds in simp)
  have n2: "desc s2 n = pesp" using ds n by simp
  note al = max_allow_eq [OF I2 T2 n(1) n2]
  have le: "conn_count s2 as pesp \<le> allowed s2 sv pesp"
    using I2 e0(3) by (simp add: espconn_inv_def within_limits_def)
  have fr: "fresh (ec_msgs s2) a" "fresh (espconns s2) a1" "fresh (esp_tcps s2) a2"
    using A same_dom [OF S] by (simp_all add: accept_mem_def fresh_def)
  show ?thesis
  proof (cases "conn_count s as pesp = allowed s2 sv pesp")
    case True
    with e0 t x al espconn_okI [OF I2] show ?thesis
      by (simp add: espconn_tcp_accept_def s1_def [symmetric] deref_def)
  next
    case less: False
    have nq: "uint (es_link_cnt e2) \<noteq> int (allowed s2 sv pesp)"
      using less x(4) by (metis of_nat_eq_iff uint_nat)
    define s3 where "s3 = ec_do E (Tcp_arg pcb a) (s2\<lparr>ec_msgs := alloc (ec_msgs s2) a msg_zero\<rparr>)"
    have l3: "pcb_lists (ec_lwip s3)" unfolding s3_def
      using x(2) by (intro pcb_lists_do [OF E]) (simp add: held_def)
    have p3: "there (ec_lwip s3) (Tcp_block pcb)" unfolding s3_def
      using x(2) by (intro there_do [OF E]) (simp_all add: held_def del: there.simps)
    show ?thesis
    proof (cases "a = NULL")
      case True
      have "held {} s2 s3" using I2 l3 True
        by (simp add: held_def same_def rings_def espconn_inv_def tables_ok_def s3_def alloc_def)
      with True less e0 t x al espconn_okI [OF inv_held [OF I2]] show ?thesis
        by (simp add: espconn_tcp_accept_def s1_def [symmetric] deref_def s3_def)
    next
      case False
      with fr A have a: "a \<noteq> NULL" "ec_msgs s2 a = None" "a1 \<noteq> NULL" "espconns s2 a1 = None" "a2 \<noteq> NULL"
        "esp_tcps s2 a2 = None" by (auto simp: fresh_def accept_mem_def)
      have x3: "ec_msgs s3 = (ec_msgs s2)(a \<mapsto> msg_zero)" "plink_active s3 = plink_active s2"
        using a(1) by (simp_all add: s3_def alloc_def)
      have L: "lists_ok as sv s2" using I2 by (simp add: espconn_inv_def)
      obtain h q where h: "active_append a s3 = Some (s3\<lparr>ec_msgs := h, plink_active := q\<rparr>)"
        "h a = Some (set_msg_next NULL msg_zero)" "linked_in s2 a as sv h q"
        using active_added [OF L a(1,2) x3] by blast
      define s4 where "s4 = s3\<lparr>ec_msgs := h, plink_active := q\<rparr>"
      have s4: "s4 = s2\<lparr>ec_msgs := h, plink_active := q, ec_lwip := ec_lwip s4, ec_calls := ec_calls s4\<rparr>"
        by (simp add: s4_def s3_def ec_do_def)
      have f4: "ec_msgs s4 = h" "espconns s4 = espconns s2" "esp_tcps s4 = esp_tcps s2" by (subst s4, simp)+
      have lt: "conn_count s2 as pesp < allowed s2 sv pesp" using le less c2 by simp
      have p4: "pcb_lists (ec_lwip s4)" "there (ec_lwip s4) (Tcp_block pcb)" using l3 p3 by (simp_all add: s4_def)
      obtain f where "espconns s2 pesp = Some f" "esp_shape f = esp_shape e0" by (rule same_esp [OF S e0(1)])
      with x(3) have eq0: "es_proto e2 = es_proto e0" by (simp add: esp_shape_def)
      obtain s10 where s10: "accept_fill a a1 pesp (es_proto e2) pcb (taken s2 h a a1 a2 pesp s4) = Some s10"
        "espconn_inv (as @ [a]) sv (bl(a := [])) s10" "ec_lwip s10 = ec_lwip s4"
        "espconns s10 a1 \<noteq> None" "esp_tcps s10 a2 \<noteq> None"
        using accept_fill_ok [OF I2 T2 n(1) n2 a(3-6) a(1,2) lt x(3) h(3) s4 p4] by (auto simp: returns_def)
      have r: "returns (accept_ready E a a1 a2 pcb s10) (\<lambda>(_, x). espconn_ok x)"
        by (rule accept_ready_ok [OF E s10(2)]) (use p4(2) s10 a in simp_all)
      have "upd_msg a (\<lambda>m. m\<lparr>ms_preverse := pesp, ms_espconn_mode := ESPCONN_TCPSERVER_MODE, ms_pespconn := a1\<rparr>)
          (s4\<lparr>espconns := alloc (espconns s4) a1 espconn_zero\<rparr>)
        = Some (s4\<lparr>espconns := (espconns s2)(a1 \<mapsto> espconn_zero), ec_msgs := h(a \<mapsto> taken_msg pesp a1)\<rparr>)"
        using a(1,3) h(2) by (simp add: upd_msg_def deref_def alloc_def f4 taken_msg_def msg_zero_def)
      moreover have "upd_espconn a1 (\<lambda>e. e\<lparr>es_proto := a2\<rparr>) (x\<lparr>esp_tcps := alloc (esp_tcps x) a2 esp_tcp_zero\<rparr>)
        = Some (taken s2 h a a1 a2 pesp s4)"
        if "x = s4\<lparr>espconns := (espconns s2)(a1 \<mapsto> espconn_zero), ec_msgs := h(a \<mapsto> taken_msg pesp a1)\<rparr>" for x
        using a(3,5) that by (simp add: upd_espconn_def deref_def alloc_def f4 taken_def)
      ultimately have "espconn_tcp_accept E a a1 a2 pesp pcb s = accept_ready E a a1 a2 pcb s10"
        unfolding espconn_tcp_accept_def s1_def [symmetric]
        using e0 t x a less nq al h(1) eq0 s10(1)
        by (simp add: deref_def s3_def [symmetric] s4_def [symmetric] Let_def cong del: bind_weak_cong if_weak_cong)
      with r show ?thesis by simp
    qed
  qed
qed

end
