(* ===== verification/Espconn_Requests.thy ===== *)
theory Espconn_Requests
  imports Espconn_Servers
begin

text \<open>
  The calls with which the application connects, listens and disconnects, under the invariant:
  each returns and keeps it. The check of the local ports is what keeps a descriptor from
  being on the active list twice.
\<close>

section \<open>The searches\<close>

lemma acticve_num_ok:
  assumes I: "espconn_inv as sv bl s"
  shows "path ms_pnext (ec_msgs s) p ds NULL \<Longrightarrow> set ds \<subseteq> set as
    \<Longrightarrow> returns (acticve_num_loop s ty p n) (\<lambda>_. True)"
proof (induction ds arbitrary: p n)
  case Nil
  then show ?case by (simp add: acticve_num_loop.simps)
next
  case (Cons a ds)
  then obtain m where m: "ec_msgs s a = Some m" "a \<noteq> NULL" "p = a"
    "path ms_pnext (ec_msgs s) (ms_pnext m) ds NULL" by (auto dest: deref_SomeD)
  obtain m0 e where "conn_at s a m0 e" by (rule inv_nodeE [OF I, of a]) (use Cons.prems in auto)
  then have "ms_pespconn m \<noteq> NULL" "espconns s (ms_pespconn m) = Some e" using m by (simp_all add: conn_at_def)
  with m Cons.IH [OF m(4)] Cons.prems show ?case
    by (simp add: acticve_num_loop.simps [of s ty a] deref_def)
qed

definition port_desc :: "espconn_type \<Rightarrow> ec \<Rightarrow> ptr \<Rightarrow> bool" where
  "port_desc ty s d \<longleftrightarrow> (if ty = ESPCONN_UDP then udp_desc s d else ty = ESPCONN_TCP \<and> tcp_desc s d)"

lemma local_port_ok:
  assumes I: "espconn_inv as sv bl s" and e: "espconns s d = Some e" "es_type e = ty" and d: "port_desc ty s pe"
  obtains p where "local_port ty (es_proto e) s = Some p"
proof -
  have t: "typed s" using I by (simp add: espconn_inv_def)
  show thesis
  proof (cases "ty = ESPCONN_UDP")
    case True
    then obtain u where "es_proto e \<noteq> NULL" "esp_udps s (es_proto e) = Some u"
      using typed_udpE [OF t e(1)] e(2) by blast
    with True that show thesis by (simp add: local_port_def deref_def)
  next
    case False
    with d have "ty = ESPCONN_TCP" by (simp add: port_desc_def)
    then obtain u where "es_proto e \<noteq> NULL" "esp_tcps s (es_proto e) = Some u"
      using typedE [OF t e(1)] e(2) by blast
    with False that show thesis by (simp add: local_port_def deref_def)
  qed
qed

lemma port_descE:
  assumes "port_desc ty s d"
  obtains e where "espconns s d = Some e" "es_type e = ty" "d \<noteq> NULL"
  using assms by (auto simp: port_desc_def udp_desc_def tcp_desc_def split: if_splits)

text \<open>When no port is taken, the descriptor has no connection: its own port is the same.\<close>

lemma port_taken_ok:
  assumes I: "espconn_inv as sv bl s" and T: "port_desc ty s d"
  shows "path ms_pnext (ec_msgs s) p ds NULL \<Longrightarrow> set ds \<subseteq> set as
    \<Longrightarrow> returns (port_taken s ty d p) (\<lambda>r. r \<or> (\<forall>b \<in> set ds. desc s b \<noteq> d))"
proof (induction ds arbitrary: p)
  case Nil
  then show ?case by (simp add: port_taken.simps)
next
  case (Cons a ds)
  then obtain m where m: "ec_msgs s a = Some m" "a \<noteq> NULL" "p = a"
    "path ms_pnext (ec_msgs s) (ms_pnext m) ds NULL" by (auto dest: deref_SomeD)
  obtain m0 e where "conn_at s a m0 e" by (rule inv_nodeE [OF I, of a]) (use Cons.prems in auto)
  then have e: "ms_pespconn m \<noteq> NULL" "espconns s (ms_pespconn m) = Some e" using m by (simp_all add: conn_at_def)
  have da: "desc s a = ms_pespconn m" using m by (simp add: desc_def)
  obtain e0 where e0: "espconns s d = Some e0" "es_type e0 = ty" "d \<noteq> NULL" by (rule port_descE [OF T])
  obtain q0 where q0: "local_port ty (es_proto e0) s = Some q0" by (rule local_port_ok [OF I e0(1,2) T])
  have IH: "returns (port_taken s ty d (ms_pnext m)) (\<lambda>r. r \<or> (\<forall>b \<in> set ds. desc s b \<noteq> d))"
    using Cons.IH [OF m(4)] Cons.prems by simp
  note run = port_taken.simps [of s ty d a]
  show ?case
  proof (cases "es_type e = ty")
    case True
    obtain q where "local_port ty (es_proto e) s = Some q" by (rule local_port_ok [OF I e(2) True T])
    with True e e0 q0 m da IH show ?thesis
      by (cases "q0 = q") (auto simp: run deref_def returns_def)
  next
    case False
    with e0 e have "ms_pespconn m \<noteq> d" by auto
    with False e m da IH show ?thesis by (auto simp: run deref_def returns_def)
  qed
qed

lemma step_port_taken:
  assumes I: "espconn_inv as sv bl s" and T: "port_desc ty s d" and y: "\<And>r. returns (f True) P"
    and n: "(\<And>b. b \<in> set as \<Longrightarrow> desc s b \<noteq> d) \<Longrightarrow> returns (f False) P"
  shows "returns (port_taken s ty d (plink_active s) \<bind> f) P"
proof -
  have "path ms_pnext (ec_msgs s) (plink_active s) as NULL" using I by (simp add: espconn_inv_def lists_ok_def)
  from port_taken_ok [OF I T this] obtain r where r: "port_taken s ty d (plink_active s) = Some r"
    "r \<or> (\<forall>b \<in> set as. desc s b \<noteq> d)" by (auto simp: returns_def)
  show ?thesis
  proof (cases r)
    case True
    with r y show ?thesis by simp
  next
    case False
    with r n show ?thesis by simp
  qed
qed

lemma step_acticve_num:
  assumes I: "espconn_inv as sv bl s" and f: "\<And>n. returns (f n) P"
  shows "returns (espconn_get_acticve_num ty s \<bind> f) P"
proof -
  have "path ms_pnext (ec_msgs s) (plink_active s) as NULL" using I by (simp add: espconn_inv_def lists_ok_def)
  from acticve_num_ok [OF I this subset_refl] f show ?thesis
    unfolding espconn_get_acticve_num_def by (blast intro: returns_bind)
qed

text \<open>A connection found for a UDP descriptor is its own.\<close>

lemma step_find_udp:
  assumes I: "espconn_inv as sv bl s" and T: "udp_desc s d"
    and f: "\<And>v n. (v \<Longrightarrow> n \<in> set as \<and> desc s n = d) \<Longrightarrow> returns (f v n) P"
  shows "returns (espconn_find_connection d s \<bind> (\<lambda>(v, n). f v n)) P"
proof -
  have H: "held {} s s" by (rule inv_start [OF I]) simp
  have u: False if "n \<in> set sv" "d = ms_pespconn (the (ec_msgs s n))" for n
    using listen_tcp [OF I H that(1)] that(2) T by (auto simp: tcp_desc_def udp_desc_def)
  have "returns (espconn_find_connection d s) (\<lambda>(v, n). v \<longrightarrow> n \<in> set as \<and> desc s n = d)"
    unfolding espconn_find_connection_def Let_def
    by (intro returns_if step_find_active [OF I H] step_find_server [OF I H])
      (use u in \<open>auto simp: desc_def\<close>)
  then show ?thesis by (rule returns_bind) (use f in auto)
qed

section \<open>Connecting and listening\<close>

lemma okI: "espconn_inv as sv bl s \<Longrightarrow> returns (Some (err, s)) (\<lambda>(_, x). espconn_ok x)"
  by (simp add: espconn_okI)

lemma connect_ok:
  assumes E: "calm E" and I: "espconn_inv as sv bl s" and T: "d \<noteq> NULL \<Longrightarrow> tcp_desc s d \<or> udp_desc s d"
    and a: "fresh (ec_msgs s) a"
  shows "returns (espconn_connect E a d s) (\<lambda>(_, x). espconn_ok x)"
proof (cases "d = NULL \<or> udp_desc s d")
  case True
  with okI [OF I] show ?thesis by (auto simp: espconn_connect_def udp_desc_def deref_def)
next
  case False
  then have D: "tcp_desc s d" and d: "d \<noteq> NULL" using T by auto
  then obtain e where e: "espconns s d = Some e" "es_type e = ESPCONN_TCP" by (auto simp: tcp_desc_def)
  have "typed s" using I by (simp add: espconn_inv_def)
  then obtain t where t: "es_proto e \<noteq> NULL" "esp_tcps s (es_proto e) = Some t" using e by (elim typedE)
  have P: "port_desc ESPCONN_TCP s d" using D by (simp add: port_desc_def)
  have r: "returns (case connect_route E remote of
      Some err \<Rightarrow> Some (err, s)
    | None \<Rightarrow> do {
        taken \<leftarrow> port_taken s ESPCONN_TCP d (plink_active s);
        if taken then Some (ESPCONN_ISCONN, s) else espconn_tcp_client E a d s }) (\<lambda>(_, x). espconn_ok x)" for remote
    by (intro returns_option step_port_taken [OF I P]) (simp_all add: espconn_okI [OF I] tcp_client_ok [OF E I D _ a])
  have m: "map_option (\<lambda>t. word4 (et_remote_ip t)) (deref (esp_tcps s) (es_proto e)) = Some (word4 (et_remote_ip t))"
    using t by (simp add: deref_def)
  show ?thesis
    unfolding espconn_connect_def using d e
    by (simp add: deref_def [of "espconns s"] cong del: if_weak_cong)
      (intro step_acticve_num [OF I] returns_if branch conjI impI;
       (simp add: espconn_okI [OF I] m r)?)
qed

lemma create_ok:
  assumes E: "calm E" and I: "espconn_inv as sv bl s" and T: "d \<noteq> NULL \<Longrightarrow> tcp_desc s d \<or> udp_desc s d"
    and a: "fresh (ec_msgs s) a"
  shows "returns (espconn_create E a d s) (\<lambda>(_, x). espconn_ok x)"
proof (cases "d = NULL \<or> tcp_desc s d")
  case True
  with okI [OF I] show ?thesis by (auto simp: espconn_create_def tcp_desc_def deref_def)
next
  case False
  then have D: "udp_desc s d" and d: "d \<noteq> NULL" using T by auto
  then have P: "port_desc ESPCONN_UDP s d" by (simp add: port_desc_def)
  from D obtain e where e: "espconns s d = Some e" "es_type e = ESPCONN_UDP" by (auto simp: udp_desc_def)
  have "returns (do {
      taken \<leftarrow> port_taken s ESPCONN_UDP d (plink_active s);
      if taken then Some (ESPCONN_ISCONN, s) else espconn_udp_server E a d s }) (\<lambda>(_, x). espconn_ok x)"
    by (rule step_port_taken [OF I P]) (simp_all add: espconn_okI [OF I] udp_server_ok [OF E I D _ a])
  with d e show ?thesis by (simp add: espconn_create_def deref_def cong del: if_weak_cong)
qed

lemma listen_ok_call:
  assumes E: "calm E" and I: "espconn_inv as sv bl s" and T: "d \<noteq> NULL \<Longrightarrow> tcp_desc s d \<or> udp_desc s d"
    and a: "fresh (ec_msgs s) a"
  shows "returns (espconn_accept E a d s) (\<lambda>(_, x). espconn_ok x)"
proof (cases "d = NULL \<or> udp_desc s d")
  case True
  with okI [OF I] show ?thesis by (auto simp: espconn_accept_def udp_desc_def deref_def)
next
  case False
  then have D: "tcp_desc s d" and d: "d \<noteq> NULL" using T by auto
  then have P: "port_desc ESPCONN_TCP s d" by (simp add: port_desc_def)
  from D obtain e where e: "espconns s d = Some e" "es_type e = ESPCONN_TCP" by (auto simp: tcp_desc_def)
  have "returns (do {
      taken \<leftarrow> port_taken s ESPCONN_TCP d (plink_active s);
      if taken then Some (ESPCONN_ISCONN, s) else espconn_tcp_server E a d s }) (\<lambda>(_, x). espconn_ok x)"
    by (rule step_port_taken [OF I P]) (simp_all add: espconn_okI [OF I] tcp_server_ok [OF E I D _ a])
  with d e show ?thesis by (simp add: espconn_accept_def deref_def cong del: if_weak_cong)
qed

section \<open>Disconnecting\<close>

lemma disconnect_ok_call:
  assumes E: "calm E" and I: "espconn_inv as sv bl s" and T: "d \<noteq> NULL \<Longrightarrow> espconns s d \<noteq> None"
  shows "returns (espconn_disconnect E d s) (\<lambda>(_, x). espconn_ok x)"
    and "returns (espconn_abort E d s) (\<lambda>(_, x). espconn_ok x)"
proof -
  have H: "held {} s s" by (rule inv_start [OF I]) simp
  have D: "returns (espconn_tcp_disconnect E n ty s \<bind> (\<lambda>x. Some (ESPCONN_OK, x))) (\<lambda>(_, x). espconn_ok x)"
    if "n \<in> set as" for n ty
    by (rule returns_bind [OF tcp_disconnect_held [OF E I that H]]) (use espconn_okI [OF inv_held [OF I]] in auto)
  show "returns (espconn_disconnect E d s) (\<lambda>(_, x). espconn_ok x)"
  proof (cases "d = NULL")
    case True
    with okI [OF I] show ?thesis by (simp add: espconn_disconnect_def)
  next
    case False
    show ?thesis
      unfolding espconn_disconnect_def
      by (intro returns_if step_desc [OF H] step_find [OF I H] step_msg [OF I H])
        (use False T D espconn_okI [OF I] in auto)
  qed
  show "returns (espconn_abort E d s) (\<lambda>(_, x). espconn_ok x)"
  proof (cases "d = NULL")
    case True
    with okI [OF I] show ?thesis by (simp add: espconn_abort_def)
  next
    case False
    show ?thesis
      unfolding espconn_abort_def
      by (intro returns_if step_desc [OF H] step_find [OF I H])
        (use False T D espconn_okI [OF I] in auto)
  qed
qed

lemma delete_ok_call:
  assumes E: "calm E" and I: "espconn_inv as sv bl s" and T: "d \<noteq> NULL \<Longrightarrow> tcp_desc s d \<or> udp_desc s d"
    and P: "\<And>n. n \<in> set sv \<Longrightarrow> desc s n = d \<Longrightarrow> there (ec_lwip s) (Tcp_block (srv s n))"
  shows "returns (espconn_delete E d s) (\<lambda>(_, x). espconn_ok x)"
proof (cases "d = NULL \<or> tcp_desc s d")
  case True
  with tcp_delete_ok [OF E I _ P] okI [OF I] show ?thesis
    by (auto simp: espconn_delete_def tcp_desc_def deref_def)
next
  case False
  then have D: "udp_desc s d" and d: "d \<noteq> NULL" using T by auto
  then obtain e where e: "espconns s d = Some e" "es_type e = ESPCONN_UDP" by (auto simp: udp_desc_def)
  have "returns (espconn_udp_disconnect E n s \<bind> (\<lambda>x. Some (ESPCONN_OK, x))) (\<lambda>(_, x). espconn_ok x)"
    if "n \<in> set as \<and> desc s n = d" for n
    by (rule returns_bind [OF udp_disconnect_inv [OF E I]]) (use that D espconn_okI in auto)
  with d e show ?thesis
    by (auto simp: espconn_delete_def deref_def espconn_okI [OF I] intro!: step_find_udp [OF I D])
qed

end
