(* ===== verification/Espconn_Datagrams.thy ===== *)
theory Espconn_Datagrams
  imports Espconn_Sending Espconn_Requests
begin

text \<open>
  Sending over UDP under the invariant: every datagram has its pbuf, which is given back, and
  the recursion over the parts of the data ends.
\<close>

definition pbufs_fresh :: "ec_env \<Rightarrow> bool" where
  "pbufs_fresh E \<longleftrightarrow> (\<forall>s k. ee_ptr E (Pbuf_alloc k) s \<noteq> NULL
     \<longrightarrow> lw_pbufs (ec_lwip s) (ee_ptr E (Pbuf_alloc k) s) = None)"

text \<open>A state while the connection \<open>n\<close> with the control block \<open>u\<close> sends.\<close>

definition udp_held :: "ec \<Rightarrow> ptr \<Rightarrow> ptr \<Rightarrow> lwip_obj set \<Rightarrow> ec \<Rightarrow> bool" where
  "udp_held s0 n u Z x \<longleftrightarrow> held (insert (Udp_block u) Z) s0 x \<and> cp_pcb (ms_pcommon (the (ec_msgs x n))) = u"

lemma udp_held_do:
  "calm E \<Longrightarrow> udp_held s0 n u Z x \<Longrightarrow> ends c \<inter> insert (Udp_block u) Z = {} \<Longrightarrow> udp_held s0 n u Z (ec_do E c x)"
  using held_do [of E "insert (Udp_block u) Z" s0 x c] by (simp add: udp_held_def ec_do_def)

lemma udp_held_ask:
  assumes "calm E" "udp_held s0 n u Z x" "ends c \<inter> insert (Udp_block u) Z = {}"
    and "\<And>err y. udp_held s0 n u Z y \<Longrightarrow> returns (f err y) P"
  shows "returns (case ec_ask E c x of (err, y) \<Rightarrow> f err y) P"
proof -
  have "held (insert (Udp_block u) Z) s0 (snd (ec_ask E c x))"
    using assms(2) by (intro held_ask [OF assms(1) _ assms(3)]) (simp add: udp_held_def)
  then have "udp_held s0 n u Z (snd (ec_ask E c x))" using assms(2) by (simp add: udp_held_def ec_ask_def)
  with assms(4) show ?thesis by (cases "ec_ask E c x") simp
qed

lemma udp_held_mono: "udp_held s0 n u Z x \<Longrightarrow> Z' \<subseteq> Z \<Longrightarrow> udp_held s0 n u Z' x"
  unfolding udp_held_def by (auto intro: held_mono)

lemma udp_held_alloc:
  assumes E: "calm E" "pbufs_fresh E" and H: "udp_held s0 n u Z x"
    and f: "\<And>y. udp_held s0 n u Z y \<Longrightarrow> returns (f NULL y) P"
      "\<And>p y. p \<noteq> NULL \<Longrightarrow> Packet p \<notin> Z \<Longrightarrow> udp_held s0 n u (insert (Packet p) Z) y \<Longrightarrow> returns (f p y) P"
  shows "returns (case ec_new E (Pbuf_alloc k) x of (p, y) \<Rightarrow> f p y) P"
proof -
  define p where "p = ee_ptr E (Pbuf_alloc k) x"
  define y where "y = ec_do E (Pbuf_alloc k) x"
  have nw: "ec_new E (Pbuf_alloc k) x = (p, y)" by (simp add: ec_new_def p_def y_def)
  have y: "udp_held s0 n u Z y" unfolding y_def by (rule udp_held_do [OF E(1) H]) simp
  show ?thesis
  proof (cases "p = NULL")
    case True
    with nw f(1) [OF y] show ?thesis by simp
  next
    case False
    have "lw_pbufs (ec_lwip x) p = None" using E(2) False by (simp add: pbufs_fresh_def p_def)
    then have n: "Packet p \<notin> Z" using H by (auto simp: udp_held_def held_def)
    have "there (ec_lwip y) (Packet p)" by (rule made [OF E(1) nw False]) simp
    with y have "udp_held s0 n u (insert (Packet p) Z) y" by (auto simp: udp_held_def held_def simp del: there.simps)
    with f(2) [OF False n] nw show ?thesis by simp
  qed
qed

lemma udp_held_block:
  assumes H: "udp_held s0 n u Z x" and f: "\<And>b. u \<noteq> NULL \<Longrightarrow> lw_udp (ec_lwip x) u = Some b \<Longrightarrow> returns (f b) P"
  shows "returns (deref (lw_udp (ec_lwip x)) u \<bind> f) P"
proof -
  from H have "there (ec_lwip x) (Udp_block u)" unfolding udp_held_def held_def by blast
  then obtain b where "u \<noteq> NULL" "lw_udp (ec_lwip x) u = Some b" by auto
  with f show ?thesis by (simp add: deref_def)
qed

lemma udp_held_set:
  assumes "udp_held s0 n u Z x" "lw_udp (ec_lwip x) u = Some b"
  shows "udp_held s0 n u Z (x\<lparr>ec_lwip := (ec_lwip x)\<lparr>lw_udp := (lw_udp (ec_lwip x))(u \<mapsto> b')\<rparr>\<rparr>)"
proof -
  let ?l = "(ec_lwip x)\<lparr>lw_udp := (lw_udp (ec_lwip x))(u \<mapsto> b')\<rparr>"
  have "there ?l obj" if "there (ec_lwip x) obj" for obj using that by (cases obj) simp_all
  moreover have "pcb_lists ?l = pcb_lists (ec_lwip x)" by (simp add: pcb_lists_def)
  ultimately show ?thesis using assms(1) by (auto simp: udp_held_def held_def same_def rings_def)
qed

section \<open>One datagram\<close>

definition part_sent :: "ec \<Rightarrow> ptr \<Rightarrow> ptr \<Rightarrow> ptr \<Rightarrow> u16 \<Rightarrow> u16 \<Rightarrow> (err_t + err_t) \<times> ec \<Rightarrow> bool" where
  "part_sent s0 n u psent len k = (\<lambda>(r, y). udp_held s0 n u {} y
     \<and> (\<forall>err. r = Inr err \<longrightarrow> (let c = ms_pcommon (the (ec_msgs y n)) in cp_ptrbuf c = psent + unat k \<and> cp_cntr c = len - k)))"

lemma part_refused: "udp_held s0 n u Z y \<Longrightarrow> returns (Some (Inl err, y)) (part_sent s0 n u psent len k)"
  by (auto simp: part_sent_def elim: udp_held_mono)

lemma finish_packet_held:
  assumes E: "calm E" and I: "espconn_inv as sv bl s0" and n: "n \<in> set as" and H: "udp_held s0 n u {Packet p} x"
  shows "returns (udp_finish_packet n psent len k err p E x) (part_sent s0 n u psent len k)"
proof -
  from H have "there (ec_lwip x) (Packet p)" unfolding udp_held_def held_def by blast
  then obtain seg where seg: "p \<noteq> NULL" "lw_pbufs (ec_lwip x) p = Some seg" by auto
  define y where "y = ec_do E (Free_pbuf p) x"
  have y: "udp_held s0 n u {} y" unfolding y_def
    by (rule udp_held_do [OF E udp_held_mono [OF H]]) simp_all
  have hy: "held {Udp_block u} s0 y" using y by (simp add: udp_held_def)
  let ?f = "\<lambda>c. c\<lparr>cp_ptrbuf := psent + unat k, cp_cntr := len - k, cp_err := err\<rparr>"
  have "returns (upd_common n ?f y) (held {Udp_block u} s0)"
    by (rule step_upd [OF I hy]) (use n in simp_all)
  then obtain z where z: "upd_common n ?f y = Some z" "held {Udp_block u} s0 z" by (auto simp: returns_def)
  obtain m where m: "ec_msgs y n = Some m" "z = y\<lparr>ec_msgs := (ec_msgs y)(n \<mapsto> m\<lparr>ms_pcommon := ?f (ms_pcommon m)\<rparr>)\<rparr>"
    by (rule upd_commonE [OF z(1)]) simp
  have "part_sent s0 n u psent len k (Inr err, z)"
    using z(2) y m by (simp add: part_sent_def udp_held_def Let_def)
  with seg z(1) part_refused [OF y] show ?thesis
    by (simp add: udp_finish_packet_def deref_def y_def [symmetric])
qed

text \<open>The two ways to send, once the pbuf is there.\<close>

lemma send_once_held:
  assumes E: "calm E" and I: "espconn_inv as sv bl s0" and n: "n \<in> set as" and H: "udp_held s0 n u {Packet p} x"
    and c: "ends c = {}"
  shows "returns (case ec_ask E c x of (err, y) \<Rightarrow> udp_finish_packet n psent len k err p E y) (part_sent s0 n u psent len k)"
  by (rule udp_held_ask [OF E H]) (simp_all add: c finish_packet_held [OF E I n])

lemma send_twice_held:
  assumes E: "calm E" "pbufs_fresh E" and I: "espconn_inv as sv bl s0" and n: "n \<in> set as"
    and H: "udp_held s0 n u {Packet p} x" and p: "p \<noteq> NULL" and c: "ends c = {}"
  shows "returns (case ec_new E (Pbuf_alloc j) x of (p_temp, s3) \<Rightarrow>
      case ec_ask E (Pbuf_copy p_temp p) s3 of (cerr, s4) \<Rightarrow>
        if cerr \<noteq> git_ok (ee_errs E) then Some (Inl ESPCONN_ARG, s4)
        else case ec_ask E c (ec_do E (Set_default i0) s4) of (err0, s5) \<Rightarrow>
          case ec_ask E c (ec_do E (Set_default i1) (ec_do E (Free_pbuf p_temp) s5)) of (err, s7) \<Rightarrow>
            udp_finish_packet n psent len k err p E s7) (part_sent s0 n u psent len k)"
proof -
  have rest: "returns (case ec_ask E (Pbuf_copy q p) y of (cerr, s4) \<Rightarrow>
        if cerr \<noteq> git_ok (ee_errs E) then Some (Inl ESPCONN_ARG, s4)
        else case ec_ask E c (ec_do E (Set_default i0) s4) of (err0, s5) \<Rightarrow>
          case ec_ask E c (ec_do E (Set_default i1) (ec_do E (Free_pbuf q) s5)) of (err, s7) \<Rightarrow>
            udp_finish_packet n psent len k err p E s7) (part_sent s0 n u psent len k)"
    if "udp_held s0 n u {Packet p} y" "q \<noteq> p" for q y
    using that c
    by (intro udp_held_ask [OF E(1), where Z = "{Packet p}" and n = n] returns_if part_refused
        udp_held_do [OF E(1)] send_once_held [OF E(1) I n]) (assumption | simp)+
  show ?thesis
  proof (rule udp_held_alloc [OF E H])
    fix y assume "udp_held s0 n u {Packet p} y"
    then show "returns (case ec_ask E (Pbuf_copy NULL p) y of (cerr, s4) \<Rightarrow>
        if cerr \<noteq> git_ok (ee_errs E) then Some (Inl ESPCONN_ARG, s4)
        else case ec_ask E c (ec_do E (Set_default i0) s4) of (err0, s5) \<Rightarrow>
          case ec_ask E c (ec_do E (Set_default i1) (ec_do E (Free_pbuf NULL) s5)) of (err, s7) \<Rightarrow>
            udp_finish_packet n psent len k err p E s7) (part_sent s0 n u psent len k)"
      by (rule rest) (use p in simp)
  next
    fix q y assume q: "q \<noteq> NULL" "Packet q \<notin> {Packet p}" "udp_held s0 n u (insert (Packet q) {Packet p}) y"
    then show "returns (case ec_ask E (Pbuf_copy q p) y of (cerr, s4) \<Rightarrow>
        if cerr \<noteq> git_ok (ee_errs E) then Some (Inl ESPCONN_ARG, s4)
        else case ec_ask E c (ec_do E (Set_default i0) s4) of (err0, s5) \<Rightarrow>
          case ec_ask E c (ec_do E (Set_default i1) (ec_do E (Free_pbuf q) s5)) of (err, s7) \<Rightarrow>
            udp_finish_packet n psent len k err p E s7) (part_sent s0 n u psent len k)"
      by (intro rest udp_held_mono [OF q(3)]) auto
  qed
qed

lemma packet_held:
  assumes E: "calm E" "pbufs_fresh E" and I: "espconn_inv as sv bl s0" and n: "n \<in> set as"
    and T: "udp_desc s0 (desc s0 n)" and H: "udp_held s0 n u {} s"
  shows "returns (udp_sent_packet E n psent len s) (part_sent s0 n u psent len (frame_len E len))"
    and "returns (udp_sendto_packet E n psent len s) (part_sent s0 n u psent len (frame_len E len))"
proof -
  have hs: "held {Udp_block u} s0 s" using H by (simp add: udp_held_def)
  have "returns (deref (ec_msgs s) n \<bind> (\<lambda>m. Some m)) (\<lambda>m. ec_msgs s n = Some m \<and> like s0 n m)"
    by (rule step_msg [OF I hs]) (use n in simp_all)
  then obtain m where m: "deref (ec_msgs s) n = Some m" "ec_msgs s n = Some m" "like s0 n m" by (auto simp: returns_def)
  have u: "cp_pcb (ms_pcommon m) = u" using H m(2) by (simp add: udp_held_def)
  have esp: "returns (deref (espconns y) (ms_pespconn m) \<bind> (\<lambda>e. deref (esp_udps y) (es_proto e) \<bind> f e)) P"
    if "udp_held s0 n u Z y" "\<And>e v. returns (f e v) P" for Z y f and P :: "(err_t + err_t) \<times> ec \<Rightarrow> bool"
  proof -
    have hy: "held (insert (Udp_block u) Z) s0 y" using that(1) by (simp add: udp_held_def)
    show ?thesis
      by (rule step_esp [OF I hy m(3)], rule step_udp [OF I hy T]) (use that(2) like_desc [OF m(3)] in simp_all)
  qed
  have c: "ends (Udp_send a b) = {}" "ends (Udp_sendto a b i j) = {}" for a b i j by simp_all
  have fin: "returns (case ec_ask E c x of (err, y) \<Rightarrow> udp_finish_packet n psent len k err p E y) (part_sent s0 n u psent len k)"
    if "udp_held s0 n u {Packet p} x" "ends c = {}" for c x p k
    by (rule send_once_held [OF E(1) I n that])
  note fin2 = send_twice_held [OF E I n]
  show "returns (udp_sent_packet E n psent len s) (part_sent s0 n u psent len (frame_len E len))"
    unfolding udp_sent_packet_def Let_def m(1) Option.bind.simps u
    by (intro returns_if part_refused [OF H] udp_held_alloc [OF E H])
      (assumption | rule part_refused esp udp_held_block returns_if fin fin2 udp_held_set c | (erule notE, rule refl))+
  show "returns (udp_sendto_packet E n psent len s) (part_sent s0 n u psent len (frame_len E len))"
    unfolding udp_sendto_packet_def Let_def m(1) Option.bind.simps u
    by (intro returns_if part_refused [OF H] udp_held_alloc [OF E H])
      (assumption | rule part_refused esp udp_held_block returns_if fin fin2 c | (erule notE, rule refl))+
qed

section \<open>All datagrams\<close>

lemma frame_len_pos:
  assumes "28 < ee_frag_mtu E" "ee_frag_mtu E < 2 ^ 16" "len \<noteq> 0"
  shows "unat (len - frame_len E len) < unat len"
proof -
  have k: "unat (frame_len E len) = min (ee_frag_mtu E - 28) (unat len)" by (rule frame_len_eq [OF assms(1,2)])
  have "0 < unat len" using assms(3) by (simp add: unat_gt_0)
  with k assms(1) have "0 < unat (frame_len E len)" "unat (frame_len E len) \<le> unat len" by simp_all
  then show ?thesis by (simp add: unat_sub word_le_nat_alt)
qed

text \<open>The end: the state of the descriptor and the sent callback.\<close>

lemma told_held:
  assumes E: "calm E" and H: "udp_held s0 n u {} x" and d: "espconns s0 d \<noteq> None" "d \<noteq> NULL"
  shows "returns (do { y \<leftarrow> upd_espconn d (\<lambda>e. e\<lparr>es_state := v\<rparr>) x;
    if b then espconn_data_sentcb E d y else Some y }) (udp_held s0 n u {})"
proof -
  have hx: "held {Udp_block u} s0 x" using H by (simp add: udp_held_def)
  have "returns (upd_espconn d (\<lambda>e. e\<lparr>es_state := v\<rparr>) x) (held {Udp_block u} s0)"
    by (rule held_upd_esp [OF hx d]) simp_all
  then obtain y where y: "upd_espconn d (\<lambda>e. e\<lparr>es_state := v\<rparr>) x = Some y" "held {Udp_block u} s0 y"
    by (auto simp: returns_def)
  obtain e where e: "espconns x d = Some e" "y = x\<lparr>espconns := (espconns x)(d \<mapsto> e\<lparr>es_state := v\<rparr>)\<rparr>"
    by (rule upd_espconnE [OF y(1)])
  have uy: "udp_held s0 n u {} y" using y(2) H by (simp add: udp_held_def e(2))
  have "udp_held s0 n u {} (ec_user E c y)" for c
    using held_user [OF E y(2), of c] uy by (simp add: udp_held_def ec_user_quiet [OF calmD(1) [OF E]])
  with y(1) uy e d(2) show ?thesis by (simp add: espconn_data_sentcb_def deref_def)
qed

lemma udp_send_all_held:
  assumes E: "calm E" "pbufs_fresh E" and mtu: "28 < ee_frag_mtu E" "ee_frag_mtu E < 2 ^ 16"
    and I: "espconn_inv as sv bl s0" and n: "n \<in> set as" and T: "udp_desc s0 (desc s0 n)"
  shows "udp_held s0 n u {} s \<Longrightarrow> returns (udp_send_all E opt n psent len s) (\<lambda>(_, x). udp_held s0 n u {} x)"
proof (induction len arbitrary: s psent rule: measure_induct_rule [where f = unat])
  case (less len)
  have "returns (case opt of ESPCONN_SEND \<Rightarrow> udp_sent_packet E n psent len s | ESPCONN_SENDTO \<Rightarrow> udp_sendto_packet E n psent len s)
      (part_sent s0 n u psent len (frame_len E len))"
    using packet_held [OF E I n T less.prems] by (cases opt) simp_all
  then obtain r s1 where r: "(case opt of ESPCONN_SEND \<Rightarrow> udp_sent_packet E n psent len s
      | ESPCONN_SENDTO \<Rightarrow> udp_sendto_packet E n psent len s) = Some (r, s1)"
    "part_sent s0 n u psent len (frame_len E len) (r, s1)" by (auto simp: returns_def)
  note run = udp_send_all.simps [of E opt n psent len s]
  show ?case
  proof (cases r)
    case (Inl err)
    with r run show ?thesis by (simp add: part_sent_def)
  next
    case (Inr err)
    from r(2) Inr have s1: "udp_held s0 n u {} s1" "cp_cntr (ms_pcommon (the (ec_msgs s1 n))) = len - frame_len E len"
      by (simp_all add: part_sent_def Let_def)
    then have hs: "held {Udp_block u} s0 s1" by (simp add: udp_held_def)
    have "returns (deref (ec_msgs s1) n \<bind> (\<lambda>m. Some m)) (\<lambda>m. ec_msgs s1 n = Some m \<and> like s0 n m)"
      by (rule step_msg [OF I hs]) (use n in simp_all)
    then obtain m where m: "deref (ec_msgs s1) n = Some m" "ec_msgs s1 n = Some m" "like s0 n m" by (auto simp: returns_def)
    have cn: "cp_cntr (ms_pcommon m) = len - frame_len E len" using s1(2) m(2) by simp
    have dn: "espconns s0 (ms_pespconn m) \<noteq> None" "ms_pespconn m \<noteq> NULL"
      using like_desc [OF m(3)] T by (auto simp: udp_desc_def)
    define body where "body = (if cp_cntr (ms_pcommon m) = 0
        then do {
          s2 \<leftarrow> upd_espconn (ms_pespconn m) (\<lambda>e. e\<lparr>es_state := ESPCONN_CONNECT\<rparr>) s1;
          if cp_err (ms_pcommon m) = 0 then espconn_data_sentcb E (ms_pespconn m) s2 else Some s2 }
        else do {
          (_, s2) \<leftarrow> udp_send_all E opt n (cp_ptrbuf (ms_pcommon m)) (cp_cntr (ms_pcommon m)) s1;
          Some s2 })"
    have "returns body (udp_held s0 n u {})"
      unfolding body_def
    proof (rule returns_if)
      assume "cp_cntr (ms_pcommon m) = 0"
      show "returns (do {
          s2 \<leftarrow> upd_espconn (ms_pespconn m) (\<lambda>e. e\<lparr>es_state := ESPCONN_CONNECT\<rparr>) s1;
          if cp_err (ms_pcommon m) = 0 then espconn_data_sentcb E (ms_pespconn m) s2 else Some s2 }) (udp_held s0 n u {})"
        by (rule told_held [OF E(1) s1(1) dn])
    next
      assume c: "cp_cntr (ms_pcommon m) \<noteq> 0"
      have "len \<noteq> 0" using c cn frame_len_eq [OF mtu, of len] by (auto simp: unat_eq_0)
      then have "unat (cp_cntr (ms_pcommon m)) < unat len" using frame_len_pos [OF mtu] cn by simp
      from less.IH [OF this s1(1), of "cp_ptrbuf (ms_pcommon m)"]
      show "returns (do {
          (_, s2) \<leftarrow> udp_send_all E opt n (cp_ptrbuf (ms_pcommon m)) (cp_cntr (ms_pcommon m)) s1;
          Some s2 }) (udp_held s0 n u {})" by (rule returns_bind) auto
    qed
    then have "returns (body \<bind> (\<lambda>s2. Some (if err > 0 then ESPCONN_IF else err, s2))) (\<lambda>(_, x). udp_held s0 n u {} x)"
      by (rule returns_bind) simp
    moreover have "udp_send_all E opt n psent len s = body \<bind> (\<lambda>s2. Some (if err > 0 then ESPCONN_IF else err, s2))"
      using r(1) Inr run m(1) by (simp add: body_def cong del: if_weak_cong)
    ultimately show ?thesis by simp
  qed
qed

lemma udp_sent_ok:
  assumes E: "calm E" "pbufs_fresh E" and mtu: "28 < ee_frag_mtu E" "ee_frag_mtu E < 2 ^ 16"
    and I: "espconn_inv as sv bl s" and n: "n \<in> set as" and T: "udp_desc s (desc s n)"
    and p: "there (ec_lwip s) (Udp_block (cp_pcb (ms_pcommon (the (ec_msgs s n)))))"
  shows "returns (udp_send_all E opt n psent len s) (\<lambda>(_, x). espconn_ok x)"
proof -
  let ?u = "cp_pcb (ms_pcommon (the (ec_msgs s n)))"
  have "held {Udp_block ?u} s s" by (rule inv_start [OF I]) (use p in simp)
  then have "udp_held s n ?u {} s" by (simp add: udp_held_def)
  from udp_send_all_held [OF E mtu I n T this] show ?thesis
    by (rule returns_mono) (auto simp: udp_held_def intro: espconn_okI inv_held [OF I])
qed

section \<open>The calls of the application\<close>

text \<open>What lwIP 2 promises to the calls that send.\<close>

definition stack_ok :: "ec_env \<Rightarrow> bool" where
  "stack_ok E \<longleftrightarrow> calm E \<and> tcp_stack_ok E \<and> pbufs_fresh E \<and> 28 < ee_frag_mtu E \<and> ee_frag_mtu E < 2 ^ 16"

text \<open>
  The connection that is found for a descriptor has its type and its control block; the block
  of a TCP connection has a segment size.
\<close>

definition may_send :: "ec \<Rightarrow> ptr \<Rightarrow> bool" where
  "may_send s d \<longleftrightarrow> (tcp_desc s d \<or> udp_desc s d)
     \<and> (\<forall>n. espconn_find_connection d s = Some (True, n) \<longrightarrow>
          (tcp_desc s d \<longrightarrow> tcp_desc s (desc s n) \<and> can_send s n)
          \<and> (udp_desc s d \<longrightarrow> there (ec_lwip s) (Udp_block (cp_pcb (ms_pcommon (the (ec_msgs s n)))))))"

lemma sent_call_ok:
  assumes E: "stack_ok E" and I: "espconn_inv as sv bl s" and M: "d \<noteq> NULL \<Longrightarrow> may_send s d" and a: "fresh (ec_bufs s) a"
  shows "returns (espconn_sent E a d psent len s) (\<lambda>(_, x). espconn_ok x)"
proof (cases "d = NULL \<or> psent = NULL \<or> len = 0")
  case True
  with espconn_okI [OF I] show ?thesis by (auto simp: espconn_sent_def)
next
  case False
  then have p: "d \<noteq> NULL" "psent \<noteq> NULL" "len \<noteq> 0" by auto
  have E': "calm E" "tcp_stack_ok E" "pbufs_fresh E" "28 < ee_frag_mtu E" "ee_frag_mtu E < 2 ^ 16"
    using E by (simp_all add: stack_ok_def)
  have H: "held {} s s" by (rule inv_start [OF I]) simp
  obtain v n where f: "espconn_find_connection d s = Some (v, n)" "v \<Longrightarrow> n \<in> set as"
    using find_held [OF I H, of d] by (auto simp: returns_def)
  show ?thesis
  proof (cases v)
    case False
    with f p espconn_okI [OF I] show ?thesis by (simp add: espconn_sent_def)
  next
    case True
    then have n: "n \<in> set as" and fd: "espconn_find_connection d s = Some (True, n)" using f by auto
    from M [OF p(1)] obtain e where e: "espconns s d = Some e" "es_type e = ESPCONN_TCP \<or> es_type e = ESPCONN_UDP"
      by (auto simp: may_send_def tcp_desc_def udp_desc_def)
    define s1 where "s1 = s\<lparr>espconns := (espconns s)(d \<mapsto> e\<lparr>es_state := ESPCONN_WRITE\<rparr>)\<rparr>"
    have "returns (upd_espconn d (\<lambda>e. e\<lparr>es_state := ESPCONN_WRITE\<rparr>) s) (held {} s)"
      by (rule held_upd_esp [OF H]) (use e p in simp_all)
    then have h1: "held {} s s1" and u: "upd_espconn d (\<lambda>e. e\<lparr>es_state := ESPCONN_WRITE\<rparr>) s = Some s1"
      using e p by (simp_all add: upd_espconn_def deref_def s1_def)
    note I1 = inv_held [OF I h1]
    have S: "same s s1" using h1 by (simp add: held_def)
    have eq: "ec_msgs s1 = ec_msgs s" "ec_lwip s1 = ec_lwip s" "ec_bufs s1 = ec_bufs s" by (simp_all add: s1_def)
    then have ds: "desc s1 n = desc s n" by (simp add: desc_def)
    have run: "espconn_sent E a d psent len s = (case es_type e of
        ESPCONN_TCP \<Rightarrow> espconn_sent_tcp E a n psent len s1
      | ESPCONN_UDP \<Rightarrow> espconn_udp_sent E n psent len s1
      | ESPCONN_INVALID \<Rightarrow> Some (ESPCONN_ARG, s1))"
      using p fd u e(1) by (cases "es_type e") (simp_all add: espconn_sent_def deref_def s1_def)
    from e(2) show ?thesis
    proof
      assume t: "es_type e = ESPCONN_TCP"
      then have "tcp_desc s d" using e(1) p(1) by (simp add: tcp_desc_def)
      then have "tcp_desc s (desc s n)" "can_send s n" using M [OF p(1)] fd by (simp_all add: may_send_def)
      then have "tcp_desc s1 (desc s1 n)" "can_send s1 n"
        using tcp_desc_same [OF S] ds eq by (simp_all add: can_send_def)
      from sent_tcp_ok [OF E'(1,2) I1 n this _ p(2,3), of a] a eq run t show ?thesis by simp
    next
      assume t: "es_type e = ESPCONN_UDP"
      then have U: "udp_desc s d" using e(1) p(1) by (simp add: udp_desc_def)
      have "returns (espconn_find_connection d s \<bind> (\<lambda>(v, n). Some (v, n))) (\<lambda>(v, n). v \<longrightarrow> desc s n = d)"
        by (rule step_find_udp [OF I U]) auto
      then have "desc s n = d" using fd by simp
      then have "udp_desc s1 (desc s1 n)" using udp_desc_same [OF S U] ds by simp
      moreover have "there (ec_lwip s1) (Udp_block (cp_pcb (ms_pcommon (the (ec_msgs s1 n)))))"
        using M [OF p(1)] U fd eq by (simp add: may_send_def)
      ultimately show ?thesis
        using udp_sent_ok [OF E'(1,3-5) I1 n] run t by (simp add: espconn_udp_sent_def)
    qed
  qed
qed

lemma sendto_call_ok:
  assumes E: "stack_ok E" and I: "espconn_inv as sv bl s" and M: "d \<noteq> NULL \<Longrightarrow> may_send s d"
  shows "returns (espconn_sendto E d psent len s) (\<lambda>(_, x). espconn_ok x)"
proof (cases "d = NULL \<or> psent = NULL \<or> len = 0")
  case True
  with espconn_okI [OF I] show ?thesis by (auto simp: espconn_sendto_def)
next
  case False
  then have p: "d \<noteq> NULL" "psent \<noteq> NULL" "len \<noteq> 0" by auto
  have E': "calm E" "pbufs_fresh E" "28 < ee_frag_mtu E" "ee_frag_mtu E < 2 ^ 16" using E by (simp_all add: stack_ok_def)
  have H: "held {} s s" by (rule inv_start [OF I]) simp
  obtain v n where f: "espconn_find_connection d s = Some (v, n)" "v \<Longrightarrow> n \<in> set as"
    using find_held [OF I H, of d] by (auto simp: returns_def)
  from M [OF p(1)] obtain e where e: "espconns s d = Some e" by (auto simp: may_send_def tcp_desc_def udp_desc_def)
  show ?thesis
  proof (cases "v \<and> es_type e = ESPCONN_UDP")
    case False
    with f p e espconn_okI [OF I] show ?thesis by (auto simp: espconn_sendto_def deref_def)
  next
    case True
    then have n: "n \<in> set as" and fd: "espconn_find_connection d s = Some (True, n)" using f by auto
    have U: "udp_desc s d" using True e p(1) by (simp add: udp_desc_def)
    have "returns (espconn_find_connection d s \<bind> (\<lambda>(v, n). Some (v, n))) (\<lambda>(v, n). v \<longrightarrow> desc s n = d)"
      by (rule step_find_udp [OF I U]) auto
    then have "udp_desc s (desc s n)" using fd U by simp
    moreover have "there (ec_lwip s) (Udp_block (cp_pcb (ms_pcommon (the (ec_msgs s n)))))"
      using M [OF p(1)] U fd by (simp add: may_send_def)
    ultimately show ?thesis
      using udp_sent_ok [OF E' I n] fd p e True by (simp add: espconn_sendto_def deref_def espconn_udp_sendto_def)
  qed
qed

end
