(* ===== verification/Espconn_Run.thy ===== *)
theory Espconn_Run
  imports Espconn_Datagrams
begin

text \<open>
  Runs of espconn. An event is something that happens to espconn: the application allocates
  or fills a descriptor or calls a function of \<^verbatim>\<open>espconn.c\<close>, lwIP calls a handler of
  \<^verbatim>\<open>espconn_tcp.c\<close> or \<^verbatim>\<open>espconn_udp.c\<close>, the SDK calls the task, or lwIP changes its own structures
  between two calls. \<open>happens\<close> is what the code does, \<open>fair\<close> what its callers owe it. In a run
  of fair events, from the start of the system on, every operation returns.
\<close>

section \<open>Events\<close>

text \<open>Calls of the application that concern its connections.\<close>

datatype app_call =
    Call_connect ptr ptr
  | Call_create ptr ptr
  | Call_accept ptr ptr
  | Call_sent ptr ptr ptr u16
  | Call_sendto ptr ptr u16
  | Call_disconnect ptr
  | Call_abort ptr
  | Call_delete ptr
  | Call_recv ptr bool nat
  | Call_recv_hold ptr
  | Call_recv_unhold ptr
  | Call_gethostbyname ptr ptr "u32 option" u32
  | Call_igmp_join u32 u32
  | Call_igmp_leave u32 u32
  | Call_dns_setserver u8 u32

text \<open>Calls of the application that change or read settings.\<close>

datatype app_setting =
    Set_connectcb ptr ptr
  | Set_reconcb ptr ptr
  | Set_disconcb ptr ptr
  | Set_sentcb ptr ptr
  | Set_recvcb ptr ptr
  | Set_write_finish ptr ptr
  | Set_time ptr u32 u8
  | Set_opt ptr u8
  | Set_clear_opt ptr u8
  | Set_keepalive ptr u8 "u32 option"
  | Set_buf_count ptr u8
  | Set_max_con_allow ptr u8
  | Ask_packet_info ptr bool
  | Ask_connection_info ptr

text \<open>The handlers that lwIP calls, and the task.\<close>

datatype handler =
    On_connected ptr ptr err_t
  | On_accept ptr ptr ptr ptr ptr
  | On_client_data bool bool ptr ptr ptr err_t
  | On_server_data bool bool ptr ptr ptr err_t
  | On_held_end bool bool ptr ptr err_t
  | On_client_ack ptr ptr u16
  | On_server_ack ptr ptr u16
  | On_client_err ptr err_t
  | On_server_err ptr err_t
  | On_poll ptr ptr
  | On_datagram ptr ptr ptr u32 u16
  | On_task espconn_sig ptr

text \<open>Descriptors that the application allocates and fills, and changes of the structures of lwIP.\<close>

datatype ec_event =
    New_tcp ptr espconn esp_tcp
  | New_udp ptr espconn esp_udp
  | Fill_tcp ptr esp_tcp
  | Fill_udp ptr esp_udp
  | Stack_moves lwip
  | App app_call
  | Setting app_setting
  | Handler handler

text \<open>What the code does, without the answers of the calls.\<close>

primrec runs_call :: "ec_env \<Rightarrow> app_call \<Rightarrow> ec \<Rightarrow> ec option" where
  "runs_call E (Call_connect a d) s = map_option snd (espconn_connect E a d s)"
| "runs_call E (Call_create a d) s = map_option snd (espconn_create E a d s)"
| "runs_call E (Call_accept a d) s = map_option snd (espconn_accept E a d s)"
| "runs_call E (Call_sent a d psent len) s = map_option snd (espconn_sent E a d psent len s)"
| "runs_call E (Call_sendto d psent len) s = map_option snd (espconn_sendto E d psent len s)"
| "runs_call E (Call_disconnect d) s = map_option snd (espconn_disconnect E d s)"
| "runs_call E (Call_abort d) s = map_option snd (espconn_abort E d s)"
| "runs_call E (Call_delete d) s = map_option snd (espconn_delete E d s)"
| "runs_call E (Call_recv d mem len) s = map_option (snd \<circ> snd) (espconn_recv E d mem len s)"
| "runs_call E (Call_recv_hold d) s = map_option snd (espconn_recv_hold d s)"
| "runs_call E (Call_recv_unhold d) s = map_option snd (espconn_recv_unhold E d s)"
| "runs_call E (Call_gethostbyname d name dns addr) s = Some (snd (snd (espconn_gethostbyname E d name dns addr s)))"
| "runs_call E (Call_igmp_join host multicast) s = Some (snd (espconn_igmp_join E host multicast s))"
| "runs_call E (Call_igmp_leave host multicast) s = Some (snd (espconn_igmp_leave E host multicast s))"
| "runs_call E (Call_dns_setserver num server) s = Some (espconn_dns_setserver E num server s)"

primrec runs_setting :: "ec_env \<Rightarrow> app_setting \<Rightarrow> ec \<Rightarrow> ec option" where
  "runs_setting E (Set_connectcb d cb) s = map_option snd (espconn_regist_connectcb d cb s)"
| "runs_setting E (Set_reconcb d cb) s = map_option snd (espconn_regist_reconcb d cb s)"
| "runs_setting E (Set_disconcb d cb) s = map_option snd (espconn_regist_disconcb d cb s)"
| "runs_setting E (Set_sentcb d cb) s = map_option snd (espconn_regist_sentcb d cb s)"
| "runs_setting E (Set_recvcb d cb) s = map_option snd (espconn_regist_recvcb d cb s)"
| "runs_setting E (Set_write_finish d cb) s = map_option snd (espconn_regist_write_finish d cb s)"
| "runs_setting E (Set_time d interval flag) s = map_option snd (espconn_regist_time d interval flag s)"
| "runs_setting E (Set_opt d opt) s = map_option snd (espconn_set_opt d opt s)"
| "runs_setting E (Set_clear_opt d opt) s = map_option snd (espconn_clear_opt d opt s)"
| "runs_setting E (Set_keepalive d level v) s = map_option snd (espconn_set_keepalive d level v s)"
| "runs_setting E (Set_buf_count d num) s = map_option snd (espconn_tcp_set_buf_count E d num s)"
| "runs_setting E (Set_max_con_allow d num) s = map_option snd (espconn_tcp_set_max_con_allow d num s)"
| "runs_setting E (Ask_packet_info d info) s = map_option (snd \<circ> snd) (espconn_get_packet_info E d info s)"
| "runs_setting E (Ask_connection_info d) s = map_option snd (espconn_get_connection_info d s)"

primrec runs_handler :: "ec_env \<Rightarrow> handler \<Rightarrow> ec \<Rightarrow> ec option" where
  "runs_handler E (On_connected a pcb err) s = map_option snd (espconn_client_connect E a pcb err s)"
| "runs_handler E (On_accept a a1 a2 d pcb) s = map_option snd (espconn_tcp_accept E a a1 a2 d pcb s)"
| "runs_handler E (On_client_data a1 a2 a pcb p err) s = map_option snd (espconn_client_recv E a1 a2 a pcb p err s)"
| "runs_handler E (On_server_data a1 a2 a pcb p err) s = map_option snd (espconn_server_recv E a1 a2 a pcb p err s)"
| "runs_handler E (On_held_end a1 a2 a pcb err) s = map_option snd (espconn_tcp_recv E a1 a2 a pcb NULL err s)"
| "runs_handler E (On_client_ack a pcb len) s = map_option snd (espconn_client_sent E a pcb len s)"
| "runs_handler E (On_server_ack a pcb len) s = map_option snd (espconn_server_sent E a pcb len s)"
| "runs_handler E (On_client_err a err) s = espconn_client_err E a err s"
| "runs_handler E (On_server_err a err) s = esponn_server_err E a err s"
| "runs_handler E (On_poll a pcb) s = map_option snd (espconn_server_poll E a pcb s)"
| "runs_handler E (On_datagram a upcb p addr port) s = espconn_udp_recv E a upcb p addr port s"
| "runs_handler E (On_task sig a) s = espconn_Task E sig a s"

primrec happens :: "ec_env \<Rightarrow> ec_event \<Rightarrow> ec \<Rightarrow> ec option" where
  "happens E (New_tcp d e t) s = Some (s\<lparr>espconns := (espconns s)(d \<mapsto> e), esp_tcps := (esp_tcps s)(es_proto e \<mapsto> t)\<rparr>)"
| "happens E (New_udp d e u) s = Some (s\<lparr>espconns := (espconns s)(d \<mapsto> e), esp_udps := (esp_udps s)(es_proto e \<mapsto> u)\<rparr>)"
| "happens E (Fill_tcp p t) s = Some (s\<lparr>esp_tcps := (esp_tcps s)(p \<mapsto> t)\<rparr>)"
| "happens E (Fill_udp p u) s = Some (s\<lparr>esp_udps := (esp_udps s)(p \<mapsto> u)\<rparr>)"
| "happens E (Stack_moves l) s = Some (s\<lparr>ec_lwip := l\<rparr>)"
| "happens E (App c) s = runs_call E c s"
| "happens E (Setting c) s = runs_setting E c s"
| "happens E (Handler c) s = runs_handler E c s"

section \<open>What the callers owe\<close>

text \<open>The messages on the list of connections and on the list of servers, and the buffers of a connection.\<close>

definition connections :: "ec \<Rightarrow> ptr list" where
  "connections s = (case nodes ms_pnext (ec_msgs s) (plink_active s) of None \<Rightarrow> [] | Some as \<Rightarrow> as)"

definition servers :: "ec \<Rightarrow> ptr list" where
  "servers s = (case nodes ms_pnext (ec_msgs s) (pserver_list s) of None \<Rightarrow> [] | Some sv \<Rightarrow> sv)"

definition buffers :: "ec \<Rightarrow> ptr \<Rightarrow> ptr list" where
  "buffers s a = (case nodes eb_pnext (ec_bufs s) (cp_pbuf (ms_pcommon (the (ec_msgs s a)))) of None \<Rightarrow> [] | Some bs \<Rightarrow> bs)"

text \<open>A descriptor of the application.\<close>

definition known :: "ec \<Rightarrow> ptr \<Rightarrow> bool" where
  "known s d \<longleftrightarrow> d = NULL \<or> tcp_desc s d \<or> udp_desc s d"

text \<open>A handler of TCP is called for a connection on the list, with its control block.\<close>

definition tcp_event :: "ec \<Rightarrow> ptr \<Rightarrow> ptr \<Rightarrow> bool" where
  "tcp_event s a pcb \<longleftrightarrow> a \<in> set (connections s) \<and> tcp_desc s (desc s a) \<and> there (ec_lwip s) (Tcp_block pcb)"

text \<open>The bytes that TCP acknowledges have been handed to it.\<close>

definition ack_due :: "ec_env \<Rightarrow> ec \<Rightarrow> ptr \<Rightarrow> ptr \<Rightarrow> u16 \<Rightarrow> bool" where
  "ack_due E s a pcb len \<longleftrightarrow> a \<in> set (connections s) \<and> tcp_desc s (desc s a)
     \<and> cp_pcb (ms_pcommon (the (ec_msgs s a))) = pcb \<and> may_acknowledge E s a (buffers s a) len"

text \<open>
  Data comes in a packet, for a connection that has a receive callback: without one, and in manual
  receive mode, the code frees a packet before it reads its next field. The error handlers read
  the control block after \<^verbatim>\<open>ERR_ABRT\<close>, so it has to be there.
\<close>

definition data_due :: "ec \<Rightarrow> ptr \<Rightarrow> ptr \<Rightarrow> ptr \<Rightarrow> bool" where
  "data_due s a pcb p \<longleftrightarrow> a \<in> set (connections s) \<and> (p \<noteq> NULL \<longrightarrow> there (ec_lwip s) (Tcp_block pcb) \<and> there (ec_lwip s) (Packet p)
     \<and> (case espconns s (desc s a) of None \<Rightarrow> False | Some e \<Rightarrow> es_recv_callback e \<noteq> NULL))"

definition err_due :: "ec_env \<Rightarrow> ec \<Rightarrow> ptr \<Rightarrow> err_t \<Rightarrow> bool" where
  "err_due E s a err \<longleftrightarrow> a = NULL \<or> a \<in> set (connections s)
     \<and> (err = git_abrt (ee_errs E) \<longrightarrow> there (ec_lwip s) (Tcp_block (cp_pcb (ms_pcommon (the (ec_msgs s a))))))"

text \<open>
  The memory of an allocation is free; the descriptor of a call is one; the control block of
  a connection whose options are set is there (\<open>found_block\<close>); a connection comes in for a
  descriptor that listens; a limit on connections is not below the number of those there are.
\<close>

primrec fair_call :: "ec_env \<Rightarrow> ec \<Rightarrow> app_call \<Rightarrow> bool" where
  "fair_call E s (Call_connect a d) \<longleftrightarrow> known s d \<and> fresh (ec_msgs s) a"
| "fair_call E s (Call_create a d) \<longleftrightarrow> known s d \<and> fresh (ec_msgs s) a"
| "fair_call E s (Call_accept a d) \<longleftrightarrow> known s d \<and> fresh (ec_msgs s) a"
| "fair_call E s (Call_sent a d psent len) \<longleftrightarrow> (d = NULL \<or> may_send s d) \<and> fresh (ec_bufs s) a"
| "fair_call E s (Call_sendto d psent len) \<longleftrightarrow> d = NULL \<or> may_send s d"
| "fair_call E s (Call_disconnect d) \<longleftrightarrow> known s d"
| "fair_call E s (Call_abort d) \<longleftrightarrow> known s d"
| "fair_call E s (Call_delete d) \<longleftrightarrow> known s d
     \<and> (\<forall>n \<in> set (servers s). desc s n = d \<longrightarrow> there (ec_lwip s) (Tcp_block (srv s n)))"
| "fair_call E s (Call_recv d mem len) \<longleftrightarrow> espconns s d \<noteq> None \<and> found_block s d"
| "fair_call E s (Call_recv_hold d) \<longleftrightarrow> True"
| "fair_call E s (Call_recv_unhold d) \<longleftrightarrow> espconns s d \<noteq> None"
| "fair_call E s (Call_gethostbyname d name dns addr) \<longleftrightarrow> True"
| "fair_call E s (Call_igmp_join host multicast) \<longleftrightarrow> True"
| "fair_call E s (Call_igmp_leave host multicast) \<longleftrightarrow> True"
| "fair_call E s (Call_dns_setserver num server) \<longleftrightarrow> True"

primrec fair_setting :: "ec_env \<Rightarrow> ec \<Rightarrow> app_setting \<Rightarrow> bool" where
  "fair_setting E s (Set_connectcb d cb) \<longleftrightarrow> d = NULL \<or> tcp_desc s d"
| "fair_setting E s (Set_reconcb d cb) \<longleftrightarrow> d = NULL \<or> tcp_desc s d"
| "fair_setting E s (Set_disconcb d cb) \<longleftrightarrow> d = NULL \<or> tcp_desc s d"
| "fair_setting E s (Set_sentcb d cb) \<longleftrightarrow> espconns s d \<noteq> None"
| "fair_setting E s (Set_recvcb d cb) \<longleftrightarrow> espconns s d \<noteq> None"
| "fair_setting E s (Set_write_finish d cb) \<longleftrightarrow> known s d"
| "fair_setting E s (Set_time d interval flag) \<longleftrightarrow> True"
| "fair_setting E s (Set_opt d opt) \<longleftrightarrow> espconns s d \<noteq> None \<and> found_block s d"
| "fair_setting E s (Set_clear_opt d opt) \<longleftrightarrow> espconns s d \<noteq> None \<and> found_block s d"
| "fair_setting E s (Set_keepalive d level v) \<longleftrightarrow> espconns s d \<noteq> None \<and> found_block s d"
| "fair_setting E s (Set_buf_count d num) \<longleftrightarrow> espconns s d \<noteq> None"
| "fair_setting E s (Set_max_con_allow d num) \<longleftrightarrow> d = NULL \<or> espconns s d \<noteq> None \<and> conn_count s (connections s) d \<le> unat num"
| "fair_setting E s (Ask_packet_info d info) \<longleftrightarrow> espconns s d \<noteq> None \<and> found_block s d"
| "fair_setting E s (Ask_connection_info d) \<longleftrightarrow> d = NULL \<or> espconns s d \<noteq> None"

primrec fair_handler :: "ec_env \<Rightarrow> ec \<Rightarrow> handler \<Rightarrow> bool" where
  "fair_handler E s (On_connected a pcb err) \<longleftrightarrow> tcp_event s a pcb"
| "fair_handler E s (On_accept a a1 a2 d pcb) \<longleftrightarrow> tcp_desc s d \<and> (\<exists>n \<in> set (servers s). desc s n = d)
     \<and> accept_mem s a a1 a2 \<and> there (ec_lwip s) (Tcp_block pcb)"
| "fair_handler E s (On_client_data a1 a2 a pcb p err) \<longleftrightarrow> data_due s a pcb p"
| "fair_handler E s (On_server_data a1 a2 a pcb p err) \<longleftrightarrow> data_due s a pcb p"
| "fair_handler E s (On_held_end a1 a2 a pcb err) \<longleftrightarrow> a \<in> set (connections s)"
| "fair_handler E s (On_client_ack a pcb len) \<longleftrightarrow> ack_due E s a pcb len"
| "fair_handler E s (On_server_ack a pcb len) \<longleftrightarrow> ack_due E s a pcb len"
| "fair_handler E s (On_client_err a err) \<longleftrightarrow> err_due E s a err"
| "fair_handler E s (On_server_err a err) \<longleftrightarrow> err_due E s a err"
| "fair_handler E s (On_poll a pcb) \<longleftrightarrow> a = NULL \<or> a \<in> set (connections s) \<and> there (ec_lwip s) (Tcp_block pcb)"
| "fair_handler E s (On_datagram a upcb p addr port) \<longleftrightarrow> a \<in> set (connections s) \<and> udp_desc s (desc s a)
     \<and> (p \<noteq> NULL \<longrightarrow> lw_pbufs (ec_lwip s) p \<noteq> None)"
| "fair_handler E s (On_task sig a) \<longleftrightarrow> (a \<in> set (connections s) \<longrightarrow> may_end sig s a)"

primrec fair :: "ec_env \<Rightarrow> ec \<Rightarrow> ec_event \<Rightarrow> bool" where
  "fair E s (New_tcp d e t) \<longleftrightarrow> espconns s d = None \<and> es_type e = ESPCONN_TCP \<and> es_proto e \<noteq> NULL
     \<and> esp_tcps s (es_proto e) = None"
| "fair E s (New_udp d e u) \<longleftrightarrow> espconns s d = None \<and> es_type e = ESPCONN_UDP \<and> es_proto e \<noteq> NULL
     \<and> esp_udps s (es_proto e) = None"
| "fair E s (Fill_tcp p t) \<longleftrightarrow> esp_tcps s p \<noteq> None"
| "fair E s (Fill_udp p u) \<longleftrightarrow> esp_udps s p \<noteq> None"
| "fair E s (Stack_moves l) \<longleftrightarrow> pcb_lists l"
| "fair E s (App c) \<longleftrightarrow> fair_call E s c"
| "fair E s (Setting c) \<longleftrightarrow> fair_setting E s c"
| "fair E s (Handler c) \<longleftrightarrow> fair_handler E s c"

section \<open>Every fair event returns\<close>

lemma answer_ok: "returns r (\<lambda>(_, x). P x) \<Longrightarrow> returns (map_option snd r) P"
  by (auto simp: returns_def)

lemma answer2_ok: "returns r (\<lambda>(_, _, x). P x) \<Longrightarrow> returns (map_option (snd \<circ> snd) r) P"
  by (auto simp: returns_def)

lemmas held_answer = answer_ok [OF returns_ok_answer]

lemma inv_lists:
  assumes I: "espconn_inv as sv bl s"
  shows "connections s = as" "servers s = sv" "a \<in> set as \<Longrightarrow> buffers s a = bl a"
proof -
  show "connections s = as" "servers s = sv"
    using I by (auto simp: espconn_inv_def lists_ok_def connections_def servers_def dest!: path_nodes)
  assume a: "a \<in> set as"
  obtain m where m: "ec_msgs s a = Some m" using inv_connE [OF I a] by metis
  from inv_queue_ok [OF I a this] have "path eb_pnext (ec_bufs s) (cp_pbuf (ms_pcommon m)) (bl a) NULL"
    by (simp add: queue_ok_def)
  from path_nodes [OF this] m show "buffers s a = bl a" by (simp add: buffers_def)
qed

lemma descs_ok:
  assumes I: "espconn_inv as sv bl s"
  shows "fair E s (New_tcp d e t) \<Longrightarrow> returns (happens E (New_tcp d e t) s) espconn_ok"
    and "fair E s (New_udp d e u) \<Longrightarrow> returns (happens E (New_udp d e u) s) espconn_ok"
    and "fair E s (Fill_tcp p t) \<Longrightarrow> returns (happens E (Fill_tcp p t) s) espconn_ok"
    and "fair E s (Fill_udp p u) \<Longrightarrow> returns (happens E (Fill_udp p u) s) espconn_ok"
    and "fair E s (Stack_moves l) \<Longrightarrow> returns (happens E (Stack_moves l) s) espconn_ok"
proof -
  show "fair E s (New_tcp d e t) \<Longrightarrow> returns (happens E (New_tcp d e t) s) espconn_ok"
    by (simp add: espconn_okI [OF inv_new_desc [OF I, of d "es_proto e" e _ t]])
  show "fair E s (New_udp d e u) \<Longrightarrow> returns (happens E (New_udp d e u) s) espconn_ok"
    by (simp add: espconn_okI [OF inv_new_udp [OF I, of d "es_proto e" e _ u]])
  have H: "held {} s s" by (rule inv_start [OF I]) simp
  have "held {} s (s\<lparr>esp_tcps := (esp_tcps s)(p \<mapsto> t)\<rparr>)" if "esp_tcps s p \<noteq> None"
    using H that by (auto simp: held_def same_def rings_def)
  then show "fair E s (Fill_tcp p t) \<Longrightarrow> returns (happens E (Fill_tcp p t) s) espconn_ok"
    using espconn_okI [OF inv_held [OF I]] by simp
  have "held {} s (s\<lparr>esp_udps := (esp_udps s)(p \<mapsto> u)\<rparr>)" if "esp_udps s p \<noteq> None"
    using H that by (auto simp: held_def same_def rings_def)
  then show "fair E s (Fill_udp p u) \<Longrightarrow> returns (happens E (Fill_udp p u) s) espconn_ok"
    using espconn_okI [OF inv_held [OF I]] by simp
  have "held {} s (s\<lparr>ec_lwip := l\<rparr>)" if "pcb_lists l"
    using H that by (auto simp: held_def same_def rings_def)
  then show "fair E s (Stack_moves l) \<Longrightarrow> returns (happens E (Stack_moves l) s) espconn_ok"
    using espconn_okI [OF inv_held [OF I]] by simp
qed

lemma call_ok:
  assumes E: "stack_ok E" and I: "espconn_inv as sv bl s" and F: "fair_call E s c"
  shows "returns (runs_call E c s) espconn_ok"
proof -
  have C: "calm E" using E by (simp add: stack_ok_def)
  have H: "held {} s s" by (rule inv_start [OF I]) simp
  have asks: "espconn_ok (snd (ec_ask E k s))" if "ends k = {}" for k
    using held_ask [OF C H] that by (auto intro: espconn_okI [OF inv_held [OF I]])
  have does: "espconn_ok (ec_do E k s)" if "ends k = {}" for k
    using held_do [OF C H] that by (auto intro: espconn_okI [OF inv_held [OF I]])
  note P = inv_lists [OF I]
  show ?thesis
  proof (cases c)
    case (Call_connect a d)
    with F show ?thesis by (auto intro!: answer_ok connect_ok [OF C I] simp: known_def)
  next
    case (Call_create a d)
    with F show ?thesis by (auto intro!: answer_ok create_ok [OF C I] simp: known_def)
  next
    case (Call_accept a d)
    with F show ?thesis by (auto intro!: answer_ok listen_ok_call [OF C I] simp: known_def)
  next
    case (Call_sent a d psent len)
    with F show ?thesis by (auto intro!: answer_ok sent_call_ok [OF E I])
  next
    case (Call_sendto d psent len)
    with F show ?thesis by (auto intro!: answer_ok sendto_call_ok [OF E I])
  next
    case (Call_disconnect d)
    with F show ?thesis
      by (auto intro!: answer_ok disconnect_ok_call(1) [OF C I] simp: known_def tcp_desc_def udp_desc_def)
  next
    case (Call_abort d)
    with F show ?thesis
      by (auto intro!: answer_ok disconnect_ok_call(2) [OF C I] simp: known_def tcp_desc_def udp_desc_def)
  next
    case (Call_delete d)
    with F P(2) show ?thesis by (auto intro!: answer_ok delete_ok_call [OF C I] simp: known_def)
  next
    case (Call_recv d mem len)
    have "returns (espconn_recv E d mem len s) (\<lambda>(_, _, x). espconn_ok x)"
      by (rule returns_mono [OF espconn_recv_held [OF C I]])
        (use F Call_recv in \<open>auto intro: espconn_okI [OF inv_held [OF I]]\<close>)
    with Call_recv show ?thesis by (auto intro: answer2_ok)
  next
    case (Call_recv_hold d)
    with F show ?thesis by (auto intro!: held_answer [OF I] recv_hold_held [OF I H])
  next
    case (Call_recv_unhold d)
    with F show ?thesis by (auto intro!: held_answer [OF I] recv_unhold_held [OF C I H])
  next
    case (Call_gethostbyname d name dns addr)
    with asks show ?thesis
      by (simp add: espconn_gethostbyname_def split: prod.splits option.splits)
        (metis ends.simps snd_conv)
  next
    case (Call_igmp_join host multicast)
    with asks show ?thesis by (simp add: espconn_igmp_join_def split: prod.splits) (metis ends.simps snd_conv)
  next
    case (Call_igmp_leave host multicast)
    with asks show ?thesis by (simp add: espconn_igmp_leave_def split: prod.splits) (metis ends.simps snd_conv)
  next
    case (Call_dns_setserver num server)
    with does show ?thesis by (simp add: espconn_dns_setserver_def)
  qed
qed

lemma setting_ok:
  assumes E: "stack_ok E" and I: "espconn_inv as sv bl s" and F: "fair_setting E s c"
  shows "returns (runs_setting E c s) espconn_ok"
proof -
  have C: "calm E" using E by (simp add: stack_ok_def)
  have H: "held {} s s" by (rule inv_start [OF I]) simp
  note P = inv_lists [OF I]
  show ?thesis
  proof (cases c)
    case (Set_connectcb d cb)
    with F show ?thesis by (auto intro!: held_answer [OF I] regist_held(1) [OF I])
  next
    case (Set_reconcb d cb)
    with F show ?thesis by (auto intro!: held_answer [OF I] regist_held(2) [OF I])
  next
    case (Set_disconcb d cb)
    with F show ?thesis by (auto intro!: held_answer [OF I] regist_held(3) [OF I])
  next
    case (Set_sentcb d cb)
    with F show ?thesis by (auto intro!: held_answer [OF I] regist_sentcb_held [OF H])
  next
    case (Set_recvcb d cb)
    with F show ?thesis by (auto intro!: held_answer [OF I] regist_recvcb_held [OF H])
  next
    case (Set_write_finish d cb)
    with F show ?thesis by (auto intro!: held_answer [OF I] regist_write_finish_held [OF I] simp: known_def)
  next
    case (Set_time d interval flag)
    with F show ?thesis by (auto intro!: held_answer [OF I] regist_time_held [OF I H])
  next
    case (Set_opt d opt)
    with F show ?thesis by (auto intro!: held_answer [OF I] set_opt_held(1) [OF I])
  next
    case (Set_clear_opt d opt)
    with F show ?thesis by (auto intro!: held_answer [OF I] set_opt_held(2) [OF I])
  next
    case (Set_keepalive d level v)
    with F show ?thesis by (auto intro!: held_answer [OF I] keepalive_held(1) [OF I])
  next
    case (Set_buf_count d num)
    with F show ?thesis by (auto intro!: held_answer [OF I] set_buf_count_held [OF I H])
  next
    case (Set_max_con_allow d num)
    show ?thesis
    proof (cases "d = NULL")
      case True
      with Set_max_con_allow espconn_okI [OF I] show ?thesis by (simp add: espconn_tcp_set_max_con_allow_def)
    next
      case False
      with F P(1) Set_max_con_allow show ?thesis by (auto intro!: answer_ok set_max_con_allow_ok [OF I])
    qed
  next
    case (Ask_packet_info d info)
    have "returns (espconn_get_packet_info E d info s) (\<lambda>(_, _, x). espconn_ok x)"
      by (rule returns_mono [OF get_packet_info_held [OF I]])
        (use F Ask_packet_info in \<open>auto intro: espconn_okI [OF inv_held [OF I]]\<close>)
    with Ask_packet_info show ?thesis by (auto intro: answer2_ok)
  next
    case (Ask_connection_info d)
    show ?thesis
    proof (cases "d = NULL")
      case True
      with Ask_connection_info espconn_okI [OF I] show ?thesis by (simp add: espconn_get_connection_info_def)
    next
      case False
      have "returns (espconn_get_connection_info d s) (\<lambda>(_, x). espconn_ok x)"
        by (rule returns_mono [OF get_info_held [OF I H]])
          (use F False Ask_connection_info in \<open>auto intro: espconn_okI [OF inv_held [OF I]]\<close>)
      with Ask_connection_info show ?thesis by (auto intro: answer_ok)
    qed
  qed
qed

lemma recv_ok:
  assumes C: "calm E" and I: "espconn_inv as sv bl s" and D: "data_due s a pcb p"
    and f: "\<And>c. cp_pbuf (f c) = cp_pbuf c" "\<And>c. cp_ptail (f c) = cp_ptail c"
    and cl: "\<And>x. held {} s x \<Longrightarrow> a \<in> set as \<Longrightarrow> returns (close a pcb 0 x) (held {} s)"
  shows "returns (map_option snd (stream_recv f close E a1 a2 a pcb p err s)) espconn_ok"
proof (rule held_answer [OF I])
  have a: "a \<in> set as" using D inv_lists(1) [OF I] by (simp add: data_due_def)
  show "returns (stream_recv f close E a1 a2 a pcb p err s) (\<lambda>(_, x). held {} s x)"
  proof (cases "p = NULL")
    case True
    have "held {} s s" by (rule inv_start [OF I]) simp
    then show ?thesis unfolding True by (rule stream_end_held [OF C I a]) (rule cl [OF _ a])
  next
    case False
    then have "held {Tcp_block pcb, Packet p} s s" using D by (intro inv_start [OF I]) (simp add: data_due_def)
    moreover have "es_recv_callback e \<noteq> NULL" if "espconns s (desc s a) = Some e" for e
      using D False that by (simp add: data_due_def)
    ultimately show ?thesis using False by (intro stream_data_held [OF C I a] f) auto
  qed
qed

lemma ack_due_ok:
  assumes E: "stack_ok E" and I: "espconn_inv as sv bl s" and D: "ack_due E s a pcb len"
    and g: "\<And>c. cp_pbuf (g c) = cp_pbuf c" "\<And>c. cp_ptail (g c) = cp_ptail c" "\<And>c. cp_pcb (g c) = cp_pcb c"
  shows "returns (map_option snd (acknowledge g E a pcb len s)) espconn_ok"
proof (rule answer_ok, rule ack_ok [OF _ _ I])
  show a: "a \<in> set as" using D inv_lists(1) [OF I] by (simp add: ack_due_def)
  with D inv_lists(3) [OF I] show "may_acknowledge E s a (bl a) len" by (simp add: ack_due_def)
qed (use E D g in \<open>simp_all add: stack_ok_def ack_due_def\<close>)

lemma err_due_ok:
  assumes C: "calm E" and I: "espconn_inv as sv bl s" and D: "err_due E s a err"
  shows "returns (espconn_client_err E a err s) espconn_ok" and "returns (esponn_server_err E a err s) espconn_ok"
proof -
  let ?b = "Tcp_block (cp_pcb (ms_pcommon (the (ec_msgs s a))))"
  let ?Z = "if err = git_abrt (ee_errs E) then {?b} else {}"
  have a: "a \<noteq> NULL \<Longrightarrow> a \<in> set as" using D inv_lists(1) [OF I] by (simp add: err_due_def)
  have H: "a \<noteq> NULL \<Longrightarrow> held ?Z s s" using D by (intro inv_start [OF I]) (simp add: err_due_def)
  have N: "espconn_client_err E NULL err s = Some s" "esponn_server_err E NULL err s = Some s"
    by (simp_all add: espconn_client_err_def esponn_server_err_def)
  show "returns (espconn_client_err E a err s) espconn_ok"
    by (cases "a = NULL", simp add: N espconn_okI [OF I], rule returns_ok [OF I client_err_held [OF C I a H]]) simp_all
  show "returns (esponn_server_err E a err s) espconn_ok"
    by (cases "a = NULL", simp add: N espconn_okI [OF I], rule returns_ok [OF I server_err_held [OF C I a H]]) simp_all
qed

lemma poll_ok:
  assumes C: "calm E" and I: "espconn_inv as sv bl s"
    and D: "a = NULL \<or> a \<in> set (connections s) \<and> there (ec_lwip s) (Tcp_block pcb)"
  shows "returns (map_option snd (espconn_server_poll E a pcb s)) espconn_ok"
proof (rule held_answer [OF I])
  show "returns (espconn_server_poll E a pcb s) (\<lambda>(_, x). held {} s x)"
  proof (cases "a = NULL")
    case True
    have "held {} s s" by (rule inv_start [OF I]) simp
    then have "held {} s (ec_do E (Tcp_poll pcb No_handler 0) (ec_do E (Tcp_abandon pcb) s))"
      by (intro held_do [OF C]) simp_all
    with True show ?thesis by (simp add: espconn_server_poll_def)
  next
    case False
    with D have "a \<in> set as" "held {Tcp_block pcb} s s"
      using inv_lists(1) [OF I] by (auto intro: inv_start [OF I])
    then show ?thesis by (rule server_poll_held [OF C I])
  qed
qed

lemma handler_ok:
  assumes E: "stack_ok E" and I: "espconn_inv as sv bl s" and F: "fair_handler E s c"
  shows "returns (runs_handler E c s) espconn_ok"
proof -
  have C: "calm E" using E by (simp add: stack_ok_def)
  note P = inv_lists [OF I]
  show ?thesis
  proof (cases c)
    case (On_connected a pcb err)
    with F P(1) show ?thesis
      by (auto intro!: held_answer [OF I] client_connect_held [OF C I] simp: tcp_event_def)
  next
    case (On_accept a a1 a2 d pcb)
    with F P(2) show ?thesis by (auto intro!: answer_ok tcp_accept_ok [OF C I])
  next
    case (On_client_data a1 a2 a pcb p err)
    with F show ?thesis unfolding On_client_data
      by (simp add: espconn_client_recv_def, intro recv_ok [OF C I]) (auto intro: client_close_held [OF C I])
  next
    case (On_server_data a1 a2 a pcb p err)
    with F show ?thesis unfolding On_server_data
      by (simp add: espconn_server_recv_def, intro recv_ok [OF C I]) (auto intro: server_close_held [OF C I])
  next
    case (On_held_end a1 a2 a pcb err)
    with F P(1) show ?thesis by (auto intro!: held_answer [OF I] manual_end_held [OF C I])
  next
    case (On_client_ack a pcb len)
    with F show ?thesis by (simp add: espconn_client_sent_def ack_due_ok [OF E I])
  next
    case (On_server_ack a pcb len)
    with F show ?thesis by (simp add: espconn_server_sent_def ack_due_ok [OF E I])
  next
    case (On_client_err a err)
    with F show ?thesis by (simp add: err_due_ok(1) [OF C I])
  next
    case (On_server_err a err)
    with F show ?thesis by (simp add: err_due_ok(2) [OF C I])
  next
    case (On_poll a pcb)
    with F show ?thesis by (simp add: poll_ok [OF C I])
  next
    case (On_datagram a upcb p addr port)
    with F P(1) show ?thesis by (auto intro!: returns_ok [OF I] udp_recv_held [OF C I])
  next
    case (On_task sig a)
    have "returns (espconn_Task E sig a s) (\<lambda>s'. if a \<in> set as \<and> sig \<noteq> SIG_ESPCONN_WRITE
      then espconn_inv (remove1 a as) sv bl s' else espconn_inv as sv bl s')"
      by (rule task_inv [OF C I]) (use On_task F P(1) in simp)
    then show ?thesis unfolding On_task runs_handler.simps
      by (rule returns_mono) (auto split: if_splits intro: espconn_okI)
  qed
qed

lemma event_ok:
  assumes E: "stack_ok E" and I: "espconn_ok s" and F: "fair E s ev"
  shows "returns (happens E ev s) espconn_ok"
proof -
  from I obtain as sv bl where I: "espconn_inv as sv bl s" unfolding espconn_ok_def by blast
  show ?thesis
    by (cases ev) (use F descs_ok [OF I] call_ok [OF E I] setting_ok [OF E I] handler_ok [OF E I] in \<open>auto simp del: happens.simps(1-5)\<close>)
qed

section \<open>Runs\<close>

text \<open>A run that meets undefined behaviour, or an operation that does not return, is \<open>None\<close>.\<close>

primrec run :: "ec_env \<Rightarrow> ec_event list \<Rightarrow> ec \<Rightarrow> ec option" where
  "run E [] s = Some s"
| "run E (ev # evs) s = happens E ev s \<bind> run E evs"

primrec fair_run :: "ec_env \<Rightarrow> ec_event list \<Rightarrow> ec \<Rightarrow> bool" where
  "fair_run E [] s \<longleftrightarrow> True"
| "fair_run E (ev # evs) s \<longleftrightarrow> fair E s ev \<and> (case happens E ev s of None \<Rightarrow> True | Some s' \<Rightarrow> fair_run E evs s')"

text \<open>The steps of a run keep the invariant.\<close>

definition espconn_step :: "ec_env \<Rightarrow> ec \<Rightarrow> ec \<Rightarrow> bool" where
  "espconn_step E s s' \<longleftrightarrow> stack_ok E \<and> (\<exists>ev. fair E s ev \<and> happens E ev s = Some s')"

interpretation ec_run: step_invariant "espconn_step E" espconn_ok for E
  by unfold_locales (use event_ok in \<open>fastforce simp: espconn_step_def returns_def\<close>)

lemma run_ok: "stack_ok E \<Longrightarrow> espconn_ok s \<Longrightarrow> fair_run E evs s \<Longrightarrow> returns (run E evs s) espconn_ok"
proof (induction evs arbitrary: s)
  case (Cons ev evs)
  then obtain s' where s': "happens E ev s = Some s'" "espconn_ok s'"
    using event_ok [of E s ev] by (auto simp: returns_def)
  with Cons show ?case by simp
qed simp

lemma run_steps:
  assumes "stack_ok E" "fair_run E evs s" "run E evs s = Some s'"
  shows "(espconn_step E)\<^sup>*\<^sup>* s s'"
  using assms(2,3)
proof (induction evs arbitrary: s)
  case (Cons ev evs)
  then obtain x where x: "happens E ev s = Some x" by (auto simp: bind_eq_Some_conv)
  with Cons assms(1) have "espconn_step E s x" by (auto simp: espconn_step_def)
  moreover have "(espconn_step E)\<^sup>*\<^sup>* x s'" using Cons x by simp
  ultimately show ?case by (rule converse_rtranclp_into_rtranclp)
qed simp

end
