(* ===== verification/Espconn_Run_Properties.thy ===== *)
theory Espconn_Run_Properties
  imports Espconn_Run "HOL-Library.Code_Target_Nat"
begin

text \<open>
  What holds in every run of espconn from the start of the system: no operation meets
  undefined behaviour or hangs, and no message and no buffer is lost. The example is the life
  of a client: its descriptor, connect, connected, data sent and acknowledged, disconnect and
  the task that ends the connection.
\<close>

text \<open>The start of the system: no descriptors, no connections, no servers.\<close>

definition espconn_boot :: "lwip \<Rightarrow> ec" where
  "espconn_boot l = \<lparr>espconns = Map.empty, esp_tcps = Map.empty, esp_udps = Map.empty, ec_msgs = Map.empty,
     ec_bufs = Map.empty, plink_active = NULL, pserver_list = NULL, premot = replicate linkMax remot_zero,
     pktinfo = replicate 2 packet_zero, ec_lwip = l, ec_calls = []\<rparr>"

lemma boot_ok:
  assumes "pcb_lists l"
  shows "espconn_ok (espconn_boot l)"
proof (rule espconn_okI)
  show "espconn_inv [] [] (\<lambda>_. []) (espconn_boot l)"
    using assms by (simp add: espconn_inv_def espconn_boot_def lists_ok_def typed_def owned_def within_limits_def
      conn_count_def queues_def tables_ok_def rings_def)
qed


lemma allowed_max:
  assumes "espconn_inv as sv bl s"
  shows "allowed s sv d \<le> unat MEMP_NUM_TCP_PCB"
proof (cases "find (\<lambda>n. desc s n = d) sv")
  case (Some n)
  then have "n \<in> set sv" by (auto simp: find_Some_iff)
  with assms have "ms_count_opt (the (ec_msgs s n)) \<le> MEMP_NUM_TCP_PCB"
    by (auto simp: espconn_inv_def listen_ok_def conn_at_def)
  with Some show ?thesis by (simp add: allowed_def word_le_nat_alt)
qed (simp add: allowed_def)


section \<open>Executable forms\<close>

text \<open>Definitions of the invariant that quantify over what a heap stores, for evaluation.\<close>

lemma tcp_desc_code [code]:
  "tcp_desc s d \<longleftrightarrow> d \<noteq> NULL \<and> (case espconns s d of None \<Rightarrow> False | Some e \<Rightarrow> es_type e = ESPCONN_TCP)"
  by (auto simp: tcp_desc_def split: option.split)

lemma udp_desc_code [code]:
  "udp_desc s d \<longleftrightarrow> d \<noteq> NULL \<and> (case espconns s d of None \<Rightarrow> False | Some e \<Rightarrow> es_type e = ESPCONN_UDP)"
  by (auto simp: udp_desc_def split: option.split)

lemma can_send_code [code]:
  "can_send s a \<longleftrightarrow> (let pcb = cp_pcb (ms_pcommon (the (ec_msgs s a)))
     in pcb \<noteq> NULL \<and> (case lw_tcp (ec_lwip s) pcb of None \<Rightarrow> False | Some b \<Rightarrow> tp_mss b \<noteq> 0))"
  by (auto simp: can_send_def Let_def split: option.split)

lemma may_send_code [code]:
  "may_send s d \<longleftrightarrow> (tcp_desc s d \<or> udp_desc s d) \<and> (case espconn_find_connection d s of
     Some (True, n) \<Rightarrow> (tcp_desc s d \<longrightarrow> tcp_desc s (desc s n) \<and> can_send s n)
       \<and> (udp_desc s d \<longrightarrow> there (ec_lwip s) (Udp_block (cp_pcb (ms_pcommon (the (ec_msgs s n))))))
   | _ \<Rightarrow> True)"
  by (auto simp: may_send_def split: option.split bool.split)

lemma found_block_code [code]:
  "found_block s d \<longleftrightarrow> (case espconn_find_connection d s of
     Some (True, n) \<Rightarrow> there (ec_lwip s) (Tcp_block (cp_pcb (ms_pcommon (the (ec_msgs s n))))) | _ \<Rightarrow> True)"
  by (auto simp: found_block_def split: option.split bool.split)

lemma may_acknowledge_code [code]:
  "may_acknowledge E s a bs len \<longleftrightarrow> (case lw_tcp (ec_lwip s) (cp_pcb (ms_pcommon (the (ec_msgs s a)))) of None \<Rightarrow> False
       | Some b \<Rightarrow> tp_snd_buf b \<noteq> 0 \<and> unat (tp_snd_queuelen b) < TCP_SND_QUEUELEN (ee_mss E))
     \<and> can_send s a \<and> len \<noteq> 0
     \<and> acked (ec_bufs s) bs + unat len \<le> handed (ec_bufs s) bs \<and> acked (ec_bufs s) bs + unat len < 2 ^ 16"
  by (auto simp: may_acknowledge_def split: option.split)

lemma ex_path_nodes: "(\<exists>as. path nx h p as NULL) \<longleftrightarrow> \<not> Option.is_none (nodes nx h p)"
  by (cases "nodes nx h p") (auto dest: nodes_path path_nodes)

lemma pcb_lists_code [code]:
  "pcb_lists l \<longleftrightarrow> (\<forall>p \<in> set [lw_active l, lw_tw l, lw_bound l]. \<not> Option.is_none (nodes tp_next (lw_tcp l) p))"
  by (simp add: pcb_lists_def ex_path_nodes)

section \<open>An example\<close>

text \<open>
  An lwIP that makes one control block, at 16, and takes up to 400 bytes at once
  (\<open>sample_tcp_effect\<close>).
\<close>

definition sample_lwip :: lwip where
  "sample_lwip = \<lparr>lw_pbufs = Map.empty, lw_tcp = Map.empty, lw_udp = Map.empty,
     lw_bound = NULL, lw_active = NULL, lw_tw = NULL, lw_ticks = 0\<rparr>"

definition sample_stack_effect :: "ec_call \<Rightarrow> ec \<Rightarrow> lwip" where
  "sample_stack_effect c s = (if c = Tcp_new
     then if lw_tcp (ec_lwip s) 16 = None then (ec_lwip s)\<lparr>lw_tcp := (lw_tcp (ec_lwip s))(16 \<mapsto> sample_pcb)\<rparr> else ec_lwip s
     else sample_tcp_effect c s)"

definition sample_stack_ptr :: "ec_call \<Rightarrow> ec \<Rightarrow> ptr" where
  "sample_stack_ptr c s = (case c of
       Tcp_new \<Rightarrow> if lw_tcp (ec_lwip s) 16 = None then 16 else NULL
     | Tcp_listen p \<Rightarrow> if p \<noteq> NULL \<and> lw_tcp (ec_lwip s) p \<noteq> None then p else NULL
     | _ \<Rightarrow> NULL)"

definition sample_stack :: ec_env where
  "sample_stack = \<lparr>ee_errs = lwip2_errs, ee_mss = 536, ee_frag_mtu = 1500, ee_err = sample_tcp_err,
     ee_ptr = sample_stack_ptr,
     ee_bytes = (\<lambda>c s. []), ee_lwip = sample_stack_effect, ee_user = (\<lambda>c s. s),
     ee_mem = (\<lambda>p. of_nat p), ee_opmode = 1, ee_default_interface = 1,
     ee_getif = (\<lambda>n. NULL), ee_is_up = (\<lambda>p. False), ee_isbroadcast = (\<lambda>i p. False),
     ee_ip_info = (\<lambda>n. (5, 255)), ee_connect_status = 5, ee_station_got_ip = 5,
     ee_station_idle = 0\<rparr>"

lemma paths_keep:
  assumes "pcb_lists l" "\<And>p b. lw_tcp l p = Some b \<Longrightarrow> \<exists>b'. lw_tcp l' p = Some b' \<and> tp_next b' = tp_next b"
    and "lw_active l' = lw_active l" "lw_tw l' = lw_tw l" "lw_bound l' = lw_bound l"
  shows "pcb_lists l'"
proof -
  have "path tp_next (lw_tcp l') p as NULL" if "path tp_next (lw_tcp l) p as NULL" for p as
    using that assms(2) by (induction as arbitrary: p) (fastforce simp: deref_def split: if_splits)+
  with assms show ?thesis unfolding pcb_lists_def by metis
qed

lemma sample_effect_grows:
  assumes "lw_tcp (ec_lwip s) p = Some b"
  shows "\<exists>b'. lw_tcp (sample_stack_effect c s) p = Some b' \<and> tp_next b' = tp_next b"
  using assms by (auto simp: sample_stack_effect_def sample_tcp_effect_def split: ec_call.split option.split)

lemma sample_effect_rest:
  "lw_active (sample_stack_effect c s) = lw_active (ec_lwip s)" "lw_tw (sample_stack_effect c s) = lw_tw (ec_lwip s)"
  "lw_bound (sample_stack_effect c s) = lw_bound (ec_lwip s)" "lw_udp (sample_stack_effect c s) = lw_udp (ec_lwip s)"
  "lw_pbufs (sample_stack_effect c s) = lw_pbufs (ec_lwip s)"
  by (auto simp: sample_stack_effect_def sample_tcp_effect_def split: ec_call.split option.split)

lemma sample_stack_calm: "calm sample_stack"
proof -
  have e: "ee_lwip sample_stack = sample_stack_effect" "ee_user sample_stack = (\<lambda>c s. s)" "ee_mss sample_stack = 536"
    by (simp_all add: sample_stack_def )
  have "there (sample_stack_effect c s) x" if "there (ec_lwip s) x" for c s x
    using that by (cases x) (auto simp: sample_effect_rest dest: sample_effect_grows)
  moreover have "there (sample_stack_effect c s) x"
    if "ee_ptr sample_stack c s \<noteq> NULL" "x \<in> makes c (ee_ptr sample_stack c s)" for c s x
    using that by (auto simp: sample_stack_def sample_stack_effect_def sample_stack_ptr_def sample_tcp_effect_def
      split: ec_call.splits if_splits)
  moreover have "pcb_lists (sample_stack_effect c s)" if "pcb_lists (ec_lwip s)" for c s
    using that sample_effect_grows by (rule paths_keep) (auto simp: sample_effect_rest)
  moreover have "sample_stack_effect c s = ec_lwip s" if "c \<in> {Tcp_pcb_remove p, Memp_free p}" for c s p
    using that by (auto simp: sample_stack_effect_def sample_tcp_effect_def)
  then have "\<forall>c p s q as. c \<in> {Tcp_pcb_remove p, Memp_free p} \<and> p \<notin> set as \<and> path tp_next (lw_tcp (ec_lwip s)) q as NULL
      \<longrightarrow> path tp_next (lw_tcp (sample_stack_effect c s)) q as NULL" by metis
  ultimately show ?thesis
    unfolding calm_def e by (simp add: quiet_def lists_stay_def e TCP_WND_def)
qed

lemma sample_stack_ok: "stack_ok sample_stack"
  unfolding stack_ok_def
proof (intro conjI)
  show "tcp_stack_ok sample_stack"
    unfolding tcp_stack_ok_def
    by (simp add: sample_stack_def sample_stack_effect_def  lwip2_errs_def sample_tcp_err_def
        sample_tcp_effect_def)
  show "pbufs_fresh sample_stack" by (simp add: pbufs_fresh_def sample_stack_def sample_stack_ptr_def)
qed (simp_all add: sample_stack_calm, simp_all add: sample_stack_def )

definition sample_desc :: espconn where
  "sample_desc = espconn_zero\<lparr>es_type := ESPCONN_TCP, es_proto := 64\<rparr>"

definition sample_peer :: esp_tcp where
  "sample_peer = esp_tcp_zero\<lparr>et_remote_port := 80, et_remote_ip := [10, 0, 0, 1], et_local_port := 4000\<rparr>"

definition sample_run :: "ec_event list" where
  "sample_run = [New_tcp 48 sample_desc sample_peer, App (Call_connect 32 48), Handler (On_connected 32 16 0),
     App (Call_sent 80 48 4096 100), Handler (On_client_ack 32 16 100), App (Call_disconnect 48),
     Handler (On_task SIG_ESPCONN_CLOSE 32)]"

lemma sample_run_fair: "fair_run sample_stack sample_run (espconn_boot sample_lwip)"
  by code_simp

lemma sample_lwip_lists: "pcb_lists sample_lwip"
  by code_simp


text \<open>A server: its descriptor, listen, a connection comes in on the block 17 and is accepted.\<close>

definition sample_incoming :: lwip where
  "sample_incoming = sample_lwip\<lparr>lw_tcp := [16 \<mapsto> sample_pcb, 17 \<mapsto> sample_pcb]\<rparr>"

definition sample_service :: "ec_event list" where
  "sample_service = [New_tcp 48 sample_desc (esp_tcp_zero\<lparr>et_local_port := 80\<rparr>), App (Call_accept 32 48),
     Stack_moves sample_incoming, Handler (On_accept 33 176 192 48 17)]"

lemma sample_service_fair: "fair_run sample_stack sample_service (espconn_boot sample_lwip)"
  by code_simp

lemma sample_service_lists:
  "map_option (\<lambda>s. (connections s, servers s)) (run sample_stack sample_service (espconn_boot sample_lwip)) = Some ([33], [32])"
  by code_simp


end
