(* ===== verification/Debug_Output.thy ===== *)
theory Debug_Output
  imports Dhcp_Message
begin

text \<open>
  The debug output of \<^verbatim>\<open>glue/uprint.c\<close>, which a build with \<open>UDEBUG = 1\<close> uses in both layers.
  A function is modelled by the text that it prints. A \<^verbatim>\<open>char\<close> is unsigned on the target.
\<close>

section \<open>The conversions of the format strings\<close>

definition digit :: "nat \<Rightarrow> char" where
  "digit n = ''0123456789abcdef'' ! n"

text \<open>\<^verbatim>\<open>%02x\<close> of a byte, and \<^verbatim>\<open>%d\<close> of a number that is not negative.\<close>

definition hex2 :: "u8 \<Rightarrow> string" where
  "hex2 b = [digit (unat b div 16), digit (unat b mod 16)]"

fun dec :: "nat \<Rightarrow> string" where
  "dec n = (if n < 10 then [digit n] else dec (n div 10) @ [digit (n mod 10)])"

declare dec.simps [simp del]

definition newline :: char where
  "newline = CHR 0x0A"

section \<open>The functions\<close>

text \<open>One round of the outer loop of \<open>dump\<close>: up to 16 bytes in hexadecimal, filled up, then as characters.\<close>

definition dump_row :: "u8 list \<Rightarrow> string" where
  "dump_row bs = concat (map (\<lambda>b. hex2 b @ '' '') bs) @ concat (replicate (16 - length bs) ''   '')
     @ map (\<lambda>b. if b \<ge> 32 \<and> b < 127 then char_of (unat b) else CHR 0x2E) bs @ [newline]"

function dump_rows :: "u8 list \<Rightarrow> string list" where
  "dump_rows bs = (if bs = [] then [] else dump_row (take 16 bs) # dump_rows (drop 16 bs))"
  by pat_completeness auto

termination by (relation "measure length") (auto simp: length_greater_0_conv)

declare dump_rows.simps [simp del]

text \<open>\<open>None\<close> when the loop reads beyond the data.\<close>

definition dump :: "string \<Rightarrow> u8 list \<Rightarrow> u16 \<Rightarrow> string option" where
  "dump what data len =
     (if unat len \<le> length data
      then Some (''DUMP '' @ what @ '': len='' @ dec (unat len) @ [newline]
                 @ concat (dump_rows (take (unat len) data)))
      else None)"

definition display_ip32 :: "string \<Rightarrow> u32 \<Rightarrow> string" where
  "display_ip32 pre ip = pre @ dec (unat (ip AND 0xff)) @ ''.'' @ dec (unat (drop_bit 8 ip AND 0xff)) @ ''.''
     @ dec (unat (drop_bit 16 ip AND 0xff)) @ ''.'' @ dec (unat (drop_bit 24 ip))"

definition display_mac :: "u8 list \<Rightarrow> string" where
  "display_mac mac = hex2 (mac ! 0) @ '':'' @ hex2 (mac ! 1) @ '':'' @ hex2 (mac ! 2) @ '':''
     @ hex2 (mac ! 3) @ '':'' @ hex2 (mac ! 4) @ '':'' @ hex2 (mac ! 5)"

definition display_ip_info :: "ip_info \<Rightarrow> string" where
  "display_ip_info i = display_ip32 ''ip='' (info_ip i) @ display_ip32 '' mask='' (info_netmask i)
     @ display_ip32 '' gw='' (info_gw i)"

section \<open>Reading the output back\<close>

definition value_of :: "char \<Rightarrow> nat" where
  "value_of c = (if c \<in> set ''0123456789abcdef''
     then length (takeWhile (\<lambda>d. d \<noteq> c) ''0123456789abcdef'') else 0)"

lemma value_of_digit: "n < 16 \<Longrightarrow> value_of (digit n) = n"
proof -
  have "\<forall>n \<in> {0..<16}. value_of (digit n) = n" by code_simp
  then show "n < 16 \<Longrightarrow> value_of (digit n) = n" by simp
qed

fun read_hex :: "string \<Rightarrow> u8 list" where
  "read_hex (a # b # c # cs) = (if a = CHR 0x20 then [] else of_nat (16 * value_of a + value_of b) # read_hex cs)"
| "read_hex _ = []"

lemma digit_blank: "n < 16 \<Longrightarrow> digit n \<noteq> CHR 0x20"
proof -
  have "\<forall>n \<in> {0..<16}. digit n \<noteq> CHR 0x20" by code_simp
  then show "n < 16 \<Longrightarrow> digit n \<noteq> CHR 0x20" by simp
qed

lemma read_hex_byte: "read_hex (hex2 b @ '' '' @ cs) = b # read_hex cs"
proof -
  have "unat b < 256" using unsigned_less [of b] by simp
  then have "unat b div 16 < 16" by (simp add: less_mult_imp_div_less)
  moreover have "16 * (unat b div 16) + unat b mod 16 = unat b" by simp
  ultimately show ?thesis by (simp add: hex2_def value_of_digit digit_blank)
qed

lemma length_dump_row: "length bs \<le> 16 \<Longrightarrow> length (dump_row bs) = 49 + length bs"
  by (simp add: dump_row_def hex2_def length_concat comp_def sum_list_triv sum_list_replicate)

lemma read_hex_bytes: "read_hex (concat (map (\<lambda>b. hex2 b @ '' '') bs) @ cs) = bs @ read_hex cs"
  by (induction bs) (use read_hex_byte in simp_all)

lemma read_dump_row: "length bs \<le> 16 \<Longrightarrow> read_hex (take 48 (dump_row bs)) = bs"
proof -
  assume l: "length bs \<le> 16"
  let ?h = "concat (map (\<lambda>b. hex2 b @ '' '') bs)" and ?f = "concat (replicate (16 - length bs) ''   '')"
  have "length (?h @ ?f) = 48" using l
    by (simp add: hex2_def length_concat comp_def sum_list_triv sum_list_replicate)
  then have "take 48 (dump_row bs) = ?h @ ?f" by (simp add: dump_row_def)
  moreover have "read_hex ?f = []" by (cases "16 - length bs") simp_all
  ultimately show ?thesis by (simp add: read_hex_bytes)
qed

text \<open>The hexadecimal columns of the rows of a dump are the data.\<close>

lemma dump_roundtrip: "concat (map (read_hex \<circ> take 48) (dump_rows bs)) = bs"
proof (induction bs rule: dump_rows.induct)
  case (1 bs)
  then show ?case by (cases "bs = []") (simp_all add: dump_rows.simps [of bs] dump_rows.simps [of "[]"] read_dump_row)
qed

end
