(* ===== verification/Spec2Isabelle.thy ===== *)
theory Spec2Isabelle
  imports Ring_Buffer Dhcp_Properties Netif_Properties Clock Ping_Properties Espconn_Api
    Espconn_Udp_Properties Espconn_Send_Properties Espconn_Ack_Properties Espconn_Close_Properties
    Espconn_Accept_Properties Espconn_Lookup_Properties Espconn_Types
    Espconn_Run_Properties Debug_Output
begin

text \<open>
  A verification development for the lwIP 2 link layer of the ESP8266 (non-OS SDK).

  \<^bold>\<open>The program.\<close> The binary part of the SDK is linked against lwIP 1.4. The repository
  replaces that stack by lwIP 2 and puts two layers of glue between them, compiled against
  the headers of one stack each, so that neither sees the structures of the other:
  \<^verbatim>\<open>glue-esp/lwip-esp.c\<close> offers the SDK the functions of lwIP 1.4 it calls (interfaces,
  packets in its own layout) and \<^verbatim>\<open>glue-lwip/lwip-git.c\<close> does the work with lwIP 2; they
  talk through the functions and error codes of \<^verbatim>\<open>glue/glue.h\<close>. On top of lwIP 2 stand ports of
  the SDK's own services: the DHCP server of the access point
  (\<^verbatim>\<open>esp-dhcpserver.c\<close>), the connection interface of applications (\<^verbatim>\<open>espconn.c\<close>,
  \<^verbatim>\<open>espconn_tcp.c\<close>, \<^verbatim>\<open>espconn_udp.c\<close>, with the ring buffer \<^verbatim>\<open>espconn_buf.c\<close>), ping
  (\<^verbatim>\<open>esp-ping.c\<close>) and the clock (\<^verbatim>\<open>esp-millis.c\<close>, \<^verbatim>\<open>esp-time.c\<close>).

  \<^bold>\<open>How it is modelled.\<close> Every struct is a record, every enum a datatype, integers are
  words of their width (\<open>u8\<close>, \<open>u16\<close>, \<open>u32\<close>). Objects on the heap live in one map per struct from
  addresses (\<open>ptr\<close>, 0 is NULL) to records; \<open>deref\<close> and \<open>os_free\<close> are \<open>None\<close> for an address that
  holds no object, so that a function whose result is \<open>Some\<close> has no NULL or dangling access,
  no double free and, for arrays, no access out of bounds. The addresses that \<open>os_zalloc\<close> and the
  stack return are arguments, NULL included. Loops over linked lists are
  \<open>partial_function (option)\<close>: \<open>None\<close> also stands for a loop that does not end, and theorems
  that a function returns state \<open>Some\<close>. There is no fuel. Calls of code that is not in the
  repository (lwIP 2, the SDK binary, callbacks of the application) are recorded in a log of
  the state in their order, and what they answer and do is a parameter of the model (records
  \<open>dhcp_env\<close>, \<open>link_env\<close>, \<open>git_env\<close>, \<open>ping_answers\<close>, \<open>ec_env\<close>); error codes of lwIP 2 are the
  record \<open>git_errs\<close>.

  \<^bold>\<open>Theories.\<close>
  \<^item> \<open>Prelude\<close>: word types, byte order and address macros (\<^verbatim>\<open>def.h\<close>, \<^verbatim>\<open>ip_addr.h\<close>), arrays,
    and the locale \<open>step_invariant\<close> (an invariant of a step relation holds in every run).
  \<^item> \<open>C_Heap\<close>: heaps, paths through linked lists, the list functions that the files repeat on
    different structs, and the locale \<open>linked\<close> with what is proved about them once. It is
    interpreted for the DHCP list, the packet wrappers, and espconn's messages and buffers.
  \<^item> \<open>Ring_Buffer\<close>: \<^verbatim>\<open>espconn_buf.c\<close>; the locale \<open>byte_fifo\<close> states what a bounded queue
    promises, and is interpreted on the ring buffer.
  \<^item> \<open>Dhcp_Pool\<close> (the lease list of \<^verbatim>\<open>esp-dhcpserver.c\<close>), \<open>Lease_Table\<close> (the abstract table),
    \<open>Lease_Refinement\<close> (one lemma per path through the code), \<open>Lease_Invariant\<close> and
    \<open>Lease_Properties\<close> (runs of all calls). \<open>Dhcp_Message\<close> (options, parsing),
    \<open>Dhcp_Server\<close> (\<open>handle_dhcp\<close>, start, stop, settings), \<open>Dhcp_Properties\<close>.
  \<^item> \<open>Glue_Error\<close>: the four translations of error codes. \<open>Link_Pool\<close> (\<^verbatim>\<open>lwip-esp.c\<close>: the pool of
    packet wrappers, sending, freeing), \<open>Link_Layer\<close> (both files: packets in and out),
    \<open>Link_Properties\<close> (runs: no reference is lost or given back twice).
  \<^item> \<open>Netif\<close>, \<open>Netif_Properties\<close>: interfaces in both files, their addresses, state and the
    default route.
  \<^item> \<open>Clock\<close>: \<^verbatim>\<open>esp-millis.c\<close> and \<^verbatim>\<open>esp-time.c\<close>. \<open>Ping\<close>, \<open>Ping_Properties\<close>: \<^verbatim>\<open>esp-ping.c\<close>, with
    the timers and replies as a step relation.
  \<^item> \<open>Debug_Output\<close>: what \<^verbatim>\<open>uprint.c\<close> prints in a debug build; the columns of a dump are the data.
  \<^item> \<open>Espconn_State\<close> (types, constants, state \<open>ec\<close>, environment), \<open>Espconn_Base\<close> (\<^verbatim>\<open>espconn.c\<close>
    without its calls of TCP and UDP), \<open>Espconn_Udp\<close> (\<^verbatim>\<open>espconn_udp.c\<close>), \<open>Espconn_Tcp\<close> and
    \<open>Espconn_Connection\<close> (\<^verbatim>\<open>espconn_tcp.c\<close>), \<open>Espconn_Api\<close> (the calls that connect, listen, send
    and disconnect). Properties: \<open>Espconn_Udp_Properties\<close> (datagrams sent are the data),
    \<open>Espconn_Send_Properties\<close> (bytes handed to TCP), \<open>Espconn_Ack_Properties\<close> (acknowledged
    bytes), \<open>Espconn_Close_Properties\<close> (the end of a connection), \<open>Espconn_Accept_Properties\<close>
    (out of memory), \<open>Espconn_Lookup_Properties\<close> (searches), \<open>Espconn_Types\<close> (the union).
  \<^item> The invariant of espconn: \<open>Espconn_Frame\<close> (what an operation leaves alone, and running
    one), \<open>Espconn_Invariant\<close> (the invariant), and that every operation returns and keeps it:
    \<open>Espconn_Handlers\<close> and \<open>Espconn_Calls\<close> (those that change only settings),
    \<open>Espconn_Structure\<close> and \<open>Espconn_Servers\<close> (connections and servers that come and go),
    \<open>Espconn_Requests\<close> (calls of the application), \<open>Espconn_Queues\<close> and
    \<open>Espconn_Sending\<close> (data over TCP and its acknowledgement), \<open>Espconn_Datagrams\<close> (over UDP). \<open>Espconn_Run\<close>: the events of
    espconn (every call of the application, every handler that lwIP calls, the task), what their
    callers owe (\<open>fair\<close>), and runs; \<open>Espconn_Run_Properties\<close>: runs from the start of the system.

  \<^bold>\<open>What is shown.\<close> For the DHCP server: it is memory safe over every sequence of calls,
  keeps its list well formed and implements a table of leases; an address it grants is in the
  range and belongs to the asking station alone; replies are well formed and agree with the
  table. For the link: sending and receiving account for every packet on all paths,
  errors included. For the interfaces: both sides agree on addresses, and the
  access point never becomes the default route. For the clock: agreement with an unbounded
  clock. For ping: every session ends after the requests asked for. For espconn: data
  leaves complete and in order over UDP and TCP whatever lwIP refuses in between, is
  acknowledged buffer by buffer, and a connection is ended completely and once; over every
  run of fair events each operation returns without a memory error, and no message and no buffer
  is lost. Where
  the code is wrong, the theorem states what it does, at the input that shows it.

  \<^bold>\<open>Contracts.\<close> Theorems that depend on code outside the repository name what they
  use of it: \<open>errs_ok\<close> (error codes are distinct), \<open>lwip2_ok\<close> (interfaces), \<open>udp_stack_ok\<close>,
  \<open>tcp_stack_ok\<close> and \<open>lists_stay\<close> (packets, control blocks), \<open>quiet\<close> (callbacks of the
  application that do not call espconn), \<open>calm\<close> (what lwIP ends, makes and leaves alone in each
  call) and \<open>stack_ok\<close> (all that runs of espconn use). Each has an instance, in the theory that
  states it or in \<open>Espconn_Run_Properties\<close>.

  \<^bold>\<open>Configuration.\<close> As the Arduino port is built: \<open>ARDUINO = 1\<close>, \<open>OPENSDK = 0\<close>, \<open>UDEBUG = 0\<close>,
  \<open>UNDEBUG = 1\<close>, \<open>LWIP_NOASSERT\<close>, IPv4 only; the segment size and the size of a frame are
  parameters.

  \<^bold>\<open>Not modelled.\<close> lwIP 2 and the SDK binary (not in the repository); options that only
  configure lwIP 2, in \<^verbatim>\<open>lwipopts.h\<close> of both ports and its earlier versions (the values that
  the glue reads are in \<open>Espconn_Base\<close>); declarations in headers that no modelled code uses;
  the calls of debug output, which are compiled out; stubs that only print; build files and patches. Reads that C leaves indeterminate but that do not depend
  on an object being gone are noted where they occur.
\<close>

end
